(* ===== verification/PyCore.thy ===== *)
theory PyCore
  imports Main "HOL-Library.Char_ord" "HOL-Library.List_Lexorder" "HOL-Library.Product_Lexorder"
    "HOL-Library.Sublist"
begin

text \<open>
  The prelude of the development: the fragment of Python's built-ins that the modelled
  modules use, and the generic lemmas and fact collections the component theories share.

  A Python \<open>str\<close> is a HOL \<open>string\<close>, each \<open>char\<close> standing for the code point of the same
  number (0 to 255); code points above 255 are outside the model. A method that raises has a
  value of a sum type, \<open>Inl\<close> for the exception. \<open>int\<close> is unbounded, as in Python.
\<close>

named_theorems store_defs \<open>definitions of the operations of the stores\<close>
named_theorems inv_rules \<open>preservation of an invariant by an operation\<close>

section \<open>Results and transactions\<close>

text \<open>
  The body of a database transaction either raises or returns a value and the new database;
  \<open>txn\<close> runs it as \<open>BEGIN IMMEDIATE\<close> with a commit on return and a rollback on every exception.
\<close>

type_synonym ('s, 'e, 'a) body = "'s \<Rightarrow> 'e + ('a \<times> 's)"
type_synonym ('s, 'e, 'a) call = "'s \<Rightarrow> ('e + 'a) \<times> 's"

definition txn :: "('s, 'e, 'a) body \<Rightarrow> ('s, 'e, 'a) call" where
  "txn body s = (case body s of Inl e \<Rightarrow> (Inl e, s) | Inr (a, t) \<Rightarrow> (Inr a, t))"

lemma txn_error_state: "fst (txn b s) = Inl e \<Longrightarrow> snd (txn b s) = s"
  by (auto simp: txn_def split: sum.splits prod.splits)

lemma txn_state: "snd (txn b s) = (case b s of Inl _ \<Rightarrow> s | Inr (_, t) \<Rightarrow> t)"
  by (auto simp: txn_def split: sum.splits prod.splits)

lemma txn_Inr_iff: "txn b s = (Inr a, t) \<longleftrightarrow> b s = Inr (a, t)"
  by (auto simp: txn_def split: sum.splits prod.splits)

lemma txn_Inl_iff: "txn b s = (Inl e, t) \<longleftrightarrow> b s = Inl e \<and> t = s"
  by (auto simp: txn_def split: sum.splits prod.splits)

lemma txn_keeps:
  assumes "P s" and "\<And>a t. b s = Inr (a, t) \<Longrightarrow> P t"
  shows "P (snd (txn b s))"
  using assms by (auto simp: txn_state split: sum.splits prod.splits)

text \<open>The code after the transaction reads the committed database: \<open>return self.get(...)\<close>.\<close>

definition txn_then :: "('s, 'e, 'a) body \<Rightarrow> ('a \<Rightarrow> 's \<Rightarrow> 'e + 'b) \<Rightarrow> ('s, 'e, 'b) call" where
  "txn_then body k s =
     (case txn body s of (Inl e, t) \<Rightarrow> (Inl e, t) | (Inr a, t) \<Rightarrow> (k a t, t))"

lemma txn_then_state: "snd (txn_then b k s) = snd (txn b s)"
  by (auto simp: txn_then_def split: sum.splits prod.splits)

lemma txn_then_keeps:
  assumes "P s" and "\<And>a t. b s = Inr (a, t) \<Longrightarrow> P t"
  shows "P (snd (txn_then b k s))"
  using assms by (simp add: txn_then_state txn_keeps)

text \<open>The result of a list comprehension whose body may raise.\<close>

fun map_result :: "('a \<Rightarrow> 'e + 'b) \<Rightarrow> 'a list \<Rightarrow> 'e + 'b list" where
  "map_result f [] = Inr []"
| "map_result f (x # xs) =
     (case f x of
        Inl e \<Rightarrow> Inl e
      | Inr y \<Rightarrow> (case map_result f xs of Inl e \<Rightarrow> Inl e | Inr ys \<Rightarrow> Inr (y # ys)))"

lemma map_result_Inr: "(\<And>x. x \<in> set xs \<Longrightarrow> f x = Inr (g x)) \<Longrightarrow> map_result f xs = Inr (map g xs)"
  by (induction xs) auto

text \<open>A statement that may raise, and what follows it.\<close>

definition bind :: "'e + 'a \<Rightarrow> ('a \<Rightarrow> 'e + 'b) \<Rightarrow> 'e + 'b" where
  "bind m k = (case m of Inl e \<Rightarrow> Inl e | Inr a \<Rightarrow> k a)"

lemma bind_simps [simp]: "bind (Inl e) k = Inl e" "bind (Inr a) k = k a"
  by (simp_all add: bind_def)

lemma bind_Inr: "bind m k = Inr y \<longleftrightarrow> (\<exists>x. m = Inr x \<and> k x = Inr y)"
  by (cases m) auto

lemma bind_cong [fundef_cong]:
  "m = m' \<Longrightarrow> (\<And>x. m' = Inr x \<Longrightarrow> f x = g x) \<Longrightarrow> bind m f = bind m' g"
  by (cases m') auto

text \<open>A guard that raises: \<open>if c: raise e\<close>.\<close>

definition raise_if :: "bool \<Rightarrow> 'e \<Rightarrow> 'e + 'a \<Rightarrow> 'e + 'a" where
  "raise_if c e k = (if c then Inl e else k)"

lemma raise_if_Inr [simp]: "raise_if c e k = Inr x \<longleftrightarrow> \<not> c \<and> k = Inr x"
  by (simp add: raise_if_def)

lemma raise_if_True [simp]: "raise_if True e k = Inl e"
  by (simp add: raise_if_def)

lemma raise_if_False [simp]: "raise_if False e k = k"
  by (simp add: raise_if_def)

text \<open>\<open>x if x is not None else default\<close> and SQL's \<open>COALESCE(a, b)\<close>.\<close>

definition coalesce :: "'a option \<Rightarrow> 'a option \<Rightarrow> 'a option" where
  "coalesce a b = (case a of None \<Rightarrow> b | Some _ \<Rightarrow> a)"

lemma coalesce_simps [simp]:
  "coalesce None b = b" "coalesce (Some x) b = Some x" "coalesce a None = a"
  by (auto simp: coalesce_def split: option.splits)

definition or_clock :: "int option \<Rightarrow> int \<Rightarrow> int" where
  "or_clock now clock = (case now of None \<Rightarrow> clock | Some t \<Rightarrow> t)"

lemma or_clock_simps [simp]: "or_clock None c = c" "or_clock (Some t) c = t"
  by (simp_all add: or_clock_def)

section \<open>Characters and strings\<close>

abbreviation cp :: "char \<Rightarrow> nat" where
  "cp c \<equiv> of_char c"

lemma cp_less: "cp c < 256"
  by (metis of_char_of of_char_mod_256 mod_less_divisor zero_less_numeral)

lemma cp_char_of: "n < 256 \<Longrightarrow> cp (char_of n) = n"
  by simp

lemma char_of_cp: "char_of (cp c) = c"
  by simp

text \<open>
  \<open>str.lower\<close> on code points below 256: the ASCII capitals and the Latin-1 capitals
  (192 to 222 but the multiplication sign 215) move up by 32.
\<close>

definition lower_char :: "char \<Rightarrow> char" where
  "lower_char c =
     (let n = cp c in
      if 65 \<le> n \<and> n \<le> 90 \<or> 192 \<le> n \<and> n \<le> 222 \<and> n \<noteq> 215 then char_of (n + 32) else c)"

text \<open>The same on the bits of the character, for evaluation.\<close>

lemma lower_char_code [code]:
  "lower_char (Char b0 b1 b2 b3 b4 b5 b6 b7) =
     (if b6 \<and> \<not> b5 \<and>
        (if b7 then \<not> (b0 \<and> b1 \<and> b2 \<and> b3 \<and> b4) \<and> \<not> (b0 \<and> b1 \<and> b2 \<and> \<not> b3 \<and> b4)
         else (b0 \<or> b1 \<or> b2 \<or> b3 \<or> b4) \<and> \<not> (b3 \<and> b4 \<and> (b2 \<or> b0 \<and> b1)))
      then Char b0 b1 b2 b3 b4 True b6 b7 else Char b0 b1 b2 b3 b4 b5 b6 b7)"
  by (cases b0; cases b1; cases b2; cases b3; cases b4; cases b5; cases b6; cases b7)
     (simp_all add: lower_char_def char_of_def bit_numeral_rec bit_Suc bit_0)

definition lower :: "string \<Rightarrow> string" where
  "lower s = map lower_char s"

lemma lower_char_idem [simp]: "lower_char (lower_char c) = lower_char c"
  using cp_less [of c] by (simp add: lower_char_def Let_def)

lemma lower_idem [simp]: "lower (lower s) = lower s"
  by (simp add: lower_def)

lemma lower_Nil [simp]: "lower [] = []"
  by (simp add: lower_def)

lemma lower_append: "lower (s @ t) = lower s @ lower t"
  by (simp add: lower_def)

lemma length_lower [simp]: "length (lower s) = length s"
  by (simp add: lower_def)

lemma lower_eq_Nil [simp]: "lower s = [] \<longleftrightarrow> s = []"
  by (simp add: lower_def)

definition is_lower :: "string \<Rightarrow> bool" where
  "is_lower s \<longleftrightarrow> lower s = s"

lemma is_lower_lower [simp]: "is_lower (lower s)"
  by (simp add: is_lower_def)

lemma is_lower_eqD: "is_lower s \<Longrightarrow> lower s = t \<Longrightarrow> s = t"
  by (simp add: is_lower_def)

text \<open>\<open>str.upper\<close>, on ASCII letters only: the code applies it to hex digits alone.\<close>

definition upper_ascii :: "string \<Rightarrow> string" where
  "upper_ascii s = map (\<lambda>c. if 97 \<le> cp c \<and> cp c \<le> 122 then char_of (cp c - 32) else c) s"

text \<open>\<open>str.strip()\<close>: the code points below 256 that \<open>str.isspace\<close> accepts.\<close>

definition is_space :: "char \<Rightarrow> bool" where
  "is_space c \<longleftrightarrow>
     (let n = cp c in 9 \<le> n \<and> n \<le> 13 \<or> 28 \<le> n \<and> n \<le> 32 \<or> n = 133 \<or> n = 160)"

definition strip :: "string \<Rightarrow> string" where
  "strip s = rev (dropWhile is_space (rev (dropWhile is_space s)))"

text \<open>SQLite's \<open>lower()\<close> folds ASCII letters only.\<close>

definition sql_lower :: "string \<Rightarrow> string" where
  "sql_lower s = map (\<lambda>c. if 65 \<le> cp c \<and> cp c \<le> 90 then char_of (cp c + 32) else c) s"

definition startswith :: "string \<Rightarrow> string \<Rightarrow> bool" where
  "startswith s p \<longleftrightarrow> take (length p) s = p"

definition removeprefix :: "string \<Rightarrow> string \<Rightarrow> string" where
  "removeprefix s p = (if startswith s p then drop (length p) s else s)"

definition is_digit :: "char \<Rightarrow> bool" where
  "is_digit c \<longleftrightarrow> 48 \<le> cp c \<and> cp c \<le> 57"

definition is_lower_hex :: "char \<Rightarrow> bool" where
  "is_lower_hex c \<longleftrightarrow> is_digit c \<or> 97 \<le> cp c \<and> cp c \<le> 102"

definition is_hex :: "char \<Rightarrow> bool" where
  "is_hex c \<longleftrightarrow> is_lower_hex c \<or> 65 \<le> cp c \<and> cp c \<le> 70"

text \<open>\<open>re.fullmatch(r'0x[0-9a-f]{64}', s)\<close>.\<close>

definition is_hash32 :: "string \<Rightarrow> bool" where
  "is_hash32 s \<longleftrightarrow> length s = 66 \<and> startswith s ''0x'' \<and> list_all is_lower_hex (drop 2 s)"

section \<open>Decimal numerals\<close>

definition digit_char :: "nat \<Rightarrow> char" where
  "digit_char d = char_of (48 + d)"

definition digit_val :: "char \<Rightarrow> nat" where
  "digit_val c = cp c - 48"

lemma digit_char_props:
  assumes "d < 10"
  shows "is_digit (digit_char d)" and "digit_val (digit_char d) = d"
  using assms by (simp_all add: is_digit_def digit_char_def digit_val_def)

fun show_nat :: "nat \<Rightarrow> string" where
  "show_nat n = (if n < 10 then [digit_char n] else show_nat (n div 10) @ [digit_char (n mod 10)])"

declare show_nat.simps [simp del]

text \<open>\<open>str(i)\<close> for an \<open>int\<close>, and \<open>int(s)\<close> for a string of digits.\<close>

definition show_int :: "int \<Rightarrow> string" where
  "show_int i = (if i < 0 then CHR ''-'' # show_nat (nat (- i)) else show_nat (nat i))"

definition nat_of_digits :: "string \<Rightarrow> nat" where
  "nat_of_digits s = foldl (\<lambda>a c. 10 * a + digit_val c) 0 s"

lemma nat_of_digits_snoc: "nat_of_digits (s @ [c]) = 10 * nat_of_digits s + digit_val c"
  by (simp add: nat_of_digits_def)

lemma show_nat_not_Nil [simp]: "show_nat n \<noteq> []"
  by (subst show_nat.simps) simp

lemma show_nat_digits: "list_all is_digit (show_nat n)"
proof (induction n rule: show_nat.induct)
  case (1 n)
  then show ?case
    by (subst show_nat.simps) (auto simp: digit_char_props)
qed

lemma nat_of_show_nat [simp]: "nat_of_digits (show_nat n) = n"
proof (induction n rule: show_nat.induct)
  case (1 n)
  show ?case
  proof (cases "n < 10")
    case True
    then show ?thesis
      by (subst show_nat.simps) (simp add: nat_of_digits_def digit_char_props)
  next
    case False
    with 1 show ?thesis
      by (subst show_nat.simps) (simp add: nat_of_digits_snoc digit_char_props)
  qed
qed

lemma show_nat_inject [simp]: "show_nat m = show_nat n \<longleftrightarrow> m = n"
  by (metis nat_of_show_nat)

lemma show_nat_no_minus: "show_nat n \<noteq> CHR ''-'' # s"
  using show_nat_digits [of n] by (auto simp: is_digit_def)

lemma show_int_inject [simp]: "show_int i = show_int j \<longleftrightarrow> i = j"
  by (auto simp: show_int_def show_nat_no_minus show_nat_no_minus [symmetric] split: if_splits)

text \<open>A JSON or decimal numeral never has a leading zero.\<close>

lemma hd_show_nat_zero: "hd (show_nat n) = CHR ''0'' \<longleftrightarrow> n = 0"
proof (induction n rule: show_nat.induct)
  case (1 n)
  show ?case
  proof (cases "n < 10")
    case True
    have "digit_char n = CHR ''0'' \<longleftrightarrow> n = 0"
    proof
      assume "digit_char n = CHR ''0''"
      then have "digit_val (digit_char n) = digit_val (CHR ''0'')" by simp
      with True show "n = 0" by (simp add: digit_char_props(2)) (simp add: digit_val_def)
    qed (simp add: digit_char_def char_of_def bit_0)
    with True show ?thesis
      by (subst show_nat.simps) simp
  next
    case False
    with 1 show ?thesis
      by (subst show_nat.simps) (simp add: hd_append)
  qed
qed

section \<open>Lists\<close>

text \<open>\<open>','.join(xs)\<close>.\<close>

fun join :: "string \<Rightarrow> string list \<Rightarrow> string" where
  "join sep [] = []"
| "join sep [x] = x"
| "join sep (x # y # zs) = x @ sep @ join sep (y # zs)"

lemma find_Some_D: "find P xs = Some x \<Longrightarrow> x \<in> set xs \<and> P x"
  by (auto simp: find_Some_iff)

lemma find_None_D: "find P xs = None \<Longrightarrow> x \<in> set xs \<Longrightarrow> \<not> P x"
  by (auto simp: find_None_iff)

end
