(* ===== verification/Json.thy ===== *)
theory Json
  imports PyCore
begin

text \<open>
  JSON values as the stores hold them, and the part of Python's \<open>json\<close> module they call:
  \<open>dumps\<close> with \<open>ensure_ascii=True\<close> (sorted keys or not, either pair of separators) and \<open>loads\<close>.
  Numbers are integers: the stored documents hold no floating-point number.
  The main fact is that \<open>loads\<close> undoes \<open>dumps\<close>, so the canonical text determines the value.
\<close>

datatype json =
    JNull
  | JBool bool
  | JInt int
  | JStr string
  | JArr "json list"
  | JObj "(string \<times> json) list"

section \<open>Serialising\<close>

definition hex_digit :: "nat \<Rightarrow> char" where
  "hex_digit d = (if d < 10 then char_of (48 + d) else char_of (87 + d))"

definition esc_char :: "char \<Rightarrow> string" where
  "esc_char c =
     (if cp c = 34 then [CHR 0x5C, CHR 0x22]
      else if cp c = 92 then [CHR 0x5C, CHR 0x5C]
      else if cp c = 10 then [CHR 0x5C, CHR ''n'']
      else if cp c = 13 then [CHR 0x5C, CHR ''r'']
      else if cp c = 9 then [CHR 0x5C, CHR ''t'']
      else if cp c = 8 then [CHR 0x5C, CHR ''b'']
      else if cp c = 12 then [CHR 0x5C, CHR ''f'']
      else if 32 \<le> cp c \<and> cp c \<le> 126 then [c]
      else [CHR 0x5C, CHR ''u'', CHR ''0'', CHR ''0'', hex_digit (cp c div 16), hex_digit (cp c mod 16)])"

text \<open>The same on the bits of the character, for evaluation.\<close>

fun plain_char :: "char \<Rightarrow> bool" where
  "plain_char (Char b0 b1 b2 b3 b4 b5 b6 b7) \<longleftrightarrow>
     \<not> b7 \<and> (b5 \<or> b6) \<and> \<not> (b0 \<and> b1 \<and> b2 \<and> b3 \<and> b4 \<and> b5 \<and> b6) \<and>
     \<not> (\<not> b0 \<and> b1 \<and> \<not> b2 \<and> \<not> b3 \<and> \<not> b4 \<and> b5 \<and> \<not> b6) \<and>
     \<not> (\<not> b0 \<and> \<not> b1 \<and> b2 \<and> b3 \<and> b4 \<and> \<not> b5 \<and> b6)"

definition esc_other :: "char \<Rightarrow> string" where
  "esc_other c = esc_char c"

lemma esc_plain: "plain_char (Char b0 b1 b2 b3 b4 b5 b6 b7) \<Longrightarrow>
    esc_char (Char b0 b1 b2 b3 b4 b5 b6 b7) = [Char b0 b1 b2 b3 b4 b5 b6 b7]"
  by (cases b0; cases b1; cases b2; cases b3; cases b4; cases b5; cases b6; cases b7)
     (simp_all add: esc_char_def)

lemmas esc_other_code [code] = esc_other_def [unfolded esc_char_def]

lemma esc_char_code [code]: "esc_char c = (if plain_char c then [c] else esc_other c)"
  by (cases c) (simp add: esc_plain esc_other_def del: plain_char.simps)

definition dumps_str :: "string \<Rightarrow> string" where
  "dumps_str s = CHR 0x22 # concat (map esc_char s) @ [CHR 0x22]"

fun render :: "string \<Rightarrow> string \<Rightarrow> json \<Rightarrow> string" where
  "render isep ksep JNull = ''null''"
| "render isep ksep (JBool b) = (if b then ''true'' else ''false'')"
| "render isep ksep (JInt i) = show_int i"
| "render isep ksep (JStr s) = dumps_str s"
| "render isep ksep (JArr vs) = ''['' @ join isep (map (render isep ksep) vs) @ '']''"
| "render isep ksep (JObj kvs) =
     [CHR 0x7B] @ join isep (map (\<lambda>(k, v). dumps_str k @ ksep @ render isep ksep v) kvs) @ [CHR 0x7D]"

text \<open>\<open>sort_keys=True\<close>: every object's items in the order of their keys, recursively.\<close>

fun canon :: "json \<Rightarrow> json" where
  "canon (JArr vs) = JArr (map canon vs)"
| "canon (JObj kvs) = JObj (sort_key fst (map (\<lambda>(k, v). (k, canon v)) kvs))"
| "canon v = v"

text \<open>
  \<open>json.dumps(v, sort_keys=True, separators=(',', ':'))\<close> and \<open>json.dumps(v)\<close>.
\<close>

definition canonical_json :: "json \<Rightarrow> string" where
  "canonical_json v = render '','' '':'' (canon v)"

definition plain_json :: "json \<Rightarrow> string" where
  "plain_json v = render '', '' '': '' v"

text \<open>A Python \<open>dict\<close> has each key once; \<open>json_ok\<close> says so of every object in a value.\<close>

fun json_ok :: "json \<Rightarrow> bool" where
  "json_ok (JArr vs) = list_all json_ok vs"
| "json_ok (JObj kvs) = (distinct (map fst kvs) \<and> list_all (\<lambda>(k, v). json_ok v) kvs)"
| "json_ok v = True"

section \<open>Parsing\<close>

definition is_json_ws :: "char \<Rightarrow> bool" where
  "is_json_ws c \<longleftrightarrow> cp c = 32 \<or> cp c = 9 \<or> cp c = 10 \<or> cp c = 13"

definition skip_ws :: "string \<Rightarrow> string" where
  "skip_ws s = dropWhile is_json_ws s"

definition hex_val :: "char \<Rightarrow> nat option" where
  "hex_val c =
     (if 48 \<le> cp c \<and> cp c \<le> 57 then Some (cp c - 48)
      else if 97 \<le> cp c \<and> cp c \<le> 102 then Some (cp c - 87)
      else if 65 \<le> cp c \<and> cp c \<le> 70 then Some (cp c - 55)
      else None)"

definition simple_escape :: "char \<Rightarrow> char option" where
  "simple_escape e =
     (if e = CHR 0x22 \<or> e = CHR 0x5C \<or> e = CHR ''/'' then Some e
      else if e = CHR ''n'' then Some (CHR 0x0A)
      else if e = CHR ''r'' then Some (CHR 0x0D)
      else if e = CHR ''t'' then Some (CHR 0x09)
      else if e = CHR ''b'' then Some (CHR 0x08)
      else if e = CHR ''f'' then Some (CHR 0x0C)
      else None)"

definition hex4 :: "char \<Rightarrow> char \<Rightarrow> char \<Rightarrow> char \<Rightarrow> nat option" where
  "hex4 a b c d =
     (case (hex_val a, hex_val b, hex_val c, hex_val d) of
        (Some w, Some x, Some y, Some z) \<Rightarrow> Some (4096 * w + 256 * x + 16 * y + z)
      | _ \<Rightarrow> None)"

definition cons_fst :: "'a \<Rightarrow> ('a list \<times> 'b) option \<Rightarrow> ('a list \<times> 'b) option" where
  "cons_fst x r = map_option (\<lambda>(xs, b). (x # xs, b)) r"

text \<open>The characters of a string literal after its opening quote, and what follows it.\<close>

fun parse_str :: "string \<Rightarrow> (string \<times> string) option" where
  "parse_str [] = None"
| "parse_str (c # cs) =
     (if c = CHR 0x22 then Some ([], cs)
      else if c = CHR 0x5C then
        (case cs of
           [] \<Rightarrow> None
         | e # ds \<Rightarrow>
             if e = CHR ''u'' then
               (case ds of
                  a # b # x # y # es \<Rightarrow>
                    (case hex4 a b x y of
                       None \<Rightarrow> None
                     | Some n \<Rightarrow> if n < 256 then cons_fst (char_of n) (parse_str es) else None)
                | _ \<Rightarrow> None)
             else
               (case simple_escape e of
                  None \<Rightarrow> None
                | Some d \<Rightarrow> cons_fst d (parse_str ds)))
      else if cp c < 32 then None
      else cons_fst c (parse_str cs))"

definition expect :: "string \<Rightarrow> json \<Rightarrow> string \<Rightarrow> (json \<times> string) option" where
  "expect p v s = (if startswith s p then Some (v, drop (length p) s) else None)"

text \<open>
  A numeral: an optional minus sign and digits with no leading zero; a fraction or an exponent
  is a floating-point number, which the model does not have.
\<close>

definition parse_nat :: "string \<Rightarrow> (nat \<times> string) option" where
  "parse_nat s =
     (let ds = takeWhile is_digit s; r = dropWhile is_digit s in
      if ds = [] then None
      else if hd ds = CHR ''0'' \<and> ds \<noteq> ''0'' then None
      else if r \<noteq> [] \<and> hd r \<in> set ''.eE'' then None
      else Some (nat_of_digits ds, r))"

definition parse_num :: "string \<Rightarrow> (json \<times> string) option" where
  "parse_num s =
     (if s \<noteq> [] \<and> hd s = CHR ''-''
      then map_option (\<lambda>(n, r). (JInt (- int n), r)) (parse_nat (tl s))
      else map_option (\<lambda>(n, r). (JInt (int n), r)) (parse_nat s))"

text \<open>
  The parser proper, on fuel: each call spends one unit. \<open>parse_items\<close> and \<open>parse_members\<close>
  read what follows an opening bracket or a comma.
\<close>

fun parse_value :: "nat \<Rightarrow> string \<Rightarrow> (json \<times> string) option"
and parse_items :: "nat \<Rightarrow> string \<Rightarrow> (json list \<times> string) option"
and parse_members :: "nat \<Rightarrow> string \<Rightarrow> ((string \<times> json) list \<times> string) option" where
  "parse_value 0 s = None"
| "parse_value (Suc n) s =
     (case skip_ws s of
        [] \<Rightarrow> None
      | c # cs \<Rightarrow>
          if c = CHR 0x22 then map_option (\<lambda>(t, r). (JStr t, r)) (parse_str cs)
          else if c = CHR 0x5B then
            (if startswith (skip_ws cs) [CHR 0x5D] then Some (JArr [], tl (skip_ws cs))
             else map_option (\<lambda>(vs, r). (JArr vs, r)) (parse_items n cs))
          else if c = CHR 0x7B then
            (if startswith (skip_ws cs) [CHR 0x7D] then Some (JObj [], tl (skip_ws cs))
             else map_option (\<lambda>(kvs, r). (JObj kvs, r)) (parse_members n cs))
          else if c = CHR ''n'' then expect ''ull'' JNull cs
          else if c = CHR ''t'' then expect ''rue'' (JBool True) cs
          else if c = CHR ''f'' then expect ''alse'' (JBool False) cs
          else parse_num (c # cs))"
| "parse_items 0 s = None"
| "parse_items (Suc n) s =
     (case parse_value n s of
        None \<Rightarrow> None
      | Some (v, r) \<Rightarrow>
          (case skip_ws r of
             [] \<Rightarrow> None
           | c # cs \<Rightarrow>
               if c = CHR 0x5D then Some ([v], cs)
               else if c = CHR 0x2C then cons_fst v (parse_items n cs)
               else None))"
| "parse_members 0 s = None"
| "parse_members (Suc n) s =
     (case skip_ws s of
        [] \<Rightarrow> None
      | q # qs \<Rightarrow>
          if q \<noteq> CHR 0x22 then None
          else
            (case parse_str qs of
               None \<Rightarrow> None
             | Some (k, r) \<Rightarrow>
                 (case skip_ws r of
                    [] \<Rightarrow> None
                  | col # ds \<Rightarrow>
                      if col \<noteq> CHR '':'' then None
                      else
                        (case parse_value n ds of
                           None \<Rightarrow> None
                         | Some (v, r') \<Rightarrow>
                             (case skip_ws r' of
                                [] \<Rightarrow> None
                              | c # cs \<Rightarrow>
                                  if c = CHR 0x7D then Some ([(k, v)], cs)
                                  else if c = CHR 0x2C then cons_fst (k, v) (parse_members n cs)
                                  else None)))))"

text \<open>A repeated key keeps its last value, as the \<open>dict\<close> built from the pairs does.\<close>

fun dict_set :: "string \<Rightarrow> json \<Rightarrow> (string \<times> json) list \<Rightarrow> (string \<times> json) list" where
  "dict_set k v [] = [(k, v)]"
| "dict_set k v ((k', v') # kvs) = (if k = k' then (k', v) # kvs else (k', v') # dict_set k v kvs)"

definition dict_of_pairs :: "(string \<times> json) list \<Rightarrow> (string \<times> json) list" where
  "dict_of_pairs kvs = fold (\<lambda>(k, v) d. dict_set k v d) kvs []"

fun build :: "json \<Rightarrow> json" where
  "build (JArr vs) = JArr (map build vs)"
| "build (JObj kvs) = JObj (dict_of_pairs (map (\<lambda>(k, v). (k, build v)) kvs))"
| "build v = v"

text \<open>\<open>json.loads(s)\<close>; \<open>None\<close> is \<open>JSONDecodeError\<close>.\<close>

definition loads :: "string \<Rightarrow> json option" where
  "loads s =
     (case parse_value (Suc (length s)) s of
        None \<Rightarrow> None
      | Some (v, r) \<Rightarrow> if skip_ws r = [] then Some (build v) else None)"

section \<open>Loading what was dumped\<close>

lemma skip_ws_Nil [simp]: "skip_ws [] = []"
  by (simp add: skip_ws_def)

lemma skip_ws_Cons: "\<not> is_json_ws c \<Longrightarrow> skip_ws (c # cs) = c # cs"
  by (simp add: skip_ws_def)

lemma skip_ws_space [simp]: "skip_ws (CHR '' '' # cs) = skip_ws cs"
  by (simp add: skip_ws_def is_json_ws_def)

lemma hex_val_digit: "d < 16 \<Longrightarrow> hex_val (hex_digit d) = Some d"
  by (auto simp: hex_digit_def hex_val_def)

lemma cons_fst_Some [simp]: "cons_fst x (Some (xs, b)) = Some (x # xs, b)"
  by (simp add: cons_fst_def)

lemma cp_eqD: "cp c = n \<Longrightarrow> c = char_of n"
  by auto

lemma esc_char_cases:
  obtains (simple) e where "esc_char c = [CHR 0x5C, e]" "e \<noteq> CHR ''u''" "simple_escape e = Some c"
  | (plain) "esc_char c = [c]" "c \<noteq> CHR 0x22" "c \<noteq> CHR 0x5C" "32 \<le> cp c"
  | (unicode) "esc_char c =
      [CHR 0x5C, CHR ''u'', CHR ''0'', CHR ''0'', hex_digit (cp c div 16), hex_digit (cp c mod 16)]"
proof -
  consider "cp c = 34" | "cp c = 92" | "cp c = 10" | "cp c = 13" | "cp c = 9" | "cp c = 8"
    | "cp c = 12"
    | "cp c \<notin> {34, 92, 10, 13, 9, 8, 12}" "32 \<le> cp c \<and> cp c \<le> 126"
    | "cp c \<notin> {34, 92, 10, 13, 9, 8, 12}" "\<not> (32 \<le> cp c \<and> cp c \<le> 126)"
    by fastforce
  then show ?thesis
  proof cases
    case 8
    then have "c \<noteq> CHR 0x22" "c \<noteq> CHR 0x5C" by auto
    with 8 show ?thesis using plain by (simp add: esc_char_def)
  next
    case 9
    then show ?thesis using unicode by (simp add: esc_char_def)
  qed (rule simple, simp add: esc_char_def, simp, simp add: simple_escape_def,
       drule cp_eqD, simp add: char_of_def bit_0)+
qed

lemma parse_str_unicode:
  "parse_str ([CHR 0x5C, CHR ''u'', CHR ''0'', CHR ''0'', hex_digit (cp c div 16), hex_digit (cp c mod 16)]
     @ cs) = cons_fst c (parse_str cs)"
proof -
  have "hex4 (CHR ''0'') (CHR ''0'') (hex_digit (cp c div 16)) (hex_digit (cp c mod 16)) = Some (cp c)"
  proof -
    have "cp c < 16 * 16" using cp_less [of c] by simp
    then have "cp c div 16 < 16" by (rule less_mult_imp_div_less)
    then show ?thesis
      by (simp add: hex4_def hex_val_digit hex_val_def [of "CHR ''0''"])
  qed
  then show ?thesis
    using cp_less [of c] by simp
qed

lemma parse_esc_char: "parse_str (esc_char c @ cs) = cons_fst c (parse_str cs)"
proof (cases c rule: esc_char_cases)
  case (simple e)
  then show ?thesis by simp
next
  case plain
  then show ?thesis by simp
next
  case unicode
  then show ?thesis by (simp only: parse_str_unicode)
qed

lemma parse_str_escaped: "parse_str (concat (map esc_char s) @ CHR 0x22 # r) = Some (s, r)"
proof (induction s)
  case (Cons c s)
  have "parse_str (concat (map esc_char (c # s)) @ CHR 0x22 # r)
      = cons_fst c (parse_str (concat (map esc_char s) @ CHR 0x22 # r))"
    using parse_esc_char [of c "concat (map esc_char s) @ CHR 0x22 # r"] by simp
  with Cons show ?case by simp
qed simp

lemma parse_dumps_str: "parse_str (tl (dumps_str s) @ r) = Some (s, r)"
  by (simp add: dumps_str_def parse_str_escaped)

text \<open>A value that ends a text, or is followed by a separator or a closing bracket.\<close>

definition ends_value :: "string \<Rightarrow> bool" where
  "ends_value r \<longleftrightarrow> r = [] \<or> hd r \<in> {CHR 0x2C, CHR 0x5D, CHR 0x7D}"

lemma ends_value_simps [simp]:
  "ends_value []" "ends_value (CHR 0x2C # r)" "ends_value (CHR 0x5D # r)" "ends_value (CHR 0x7D # r)"
  by (simp_all add: ends_value_def)

lemma takeWhile_digits:
  assumes "list_all is_digit ds" and "ends_value r"
  shows "takeWhile is_digit (ds @ r) = ds" and "dropWhile is_digit (ds @ r) = r"
proof -
  have nd: "r = [] \<or> \<not> is_digit (hd r)"
    using assms(2) by (auto simp: ends_value_def is_digit_def)
  then show "takeWhile is_digit (ds @ r) = ds"
    using assms(1) by (induction ds) (cases r; auto)+
  show "dropWhile is_digit (ds @ r) = r"
    using assms(1) nd by (induction ds) (cases r; auto)+
qed

lemma parse_show_nat: "ends_value r \<Longrightarrow> parse_nat (show_nat n @ r) = Some (n, r)"
proof -
  assume r: "ends_value r"
  have z: "hd (show_nat n) = CHR ''0'' \<Longrightarrow> show_nat n = ''0''"
    by (simp add: hd_show_nat_zero) (subst show_nat.simps, simp add: digit_char_def char_of_def bit_0)
  have "r \<noteq> [] \<Longrightarrow> hd r \<notin> set ''.eE''"
    using r by (auto simp: ends_value_def)
  with z show ?thesis
    by (auto simp: parse_nat_def takeWhile_digits [OF show_nat_digits r] Let_def)
qed

lemma parse_show_int: "ends_value r \<Longrightarrow> parse_num (show_int i @ r) = Some (JInt i, r)"
proof (cases "i < 0")
  case True
  moreover assume "ends_value r"
  ultimately show ?thesis
    by (simp add: parse_num_def show_int_def parse_show_nat)
next
  case False
  moreover assume r: "ends_value r"
  moreover have "show_nat (nat i) @ r \<noteq> [] \<and> hd (show_nat (nat i) @ r) \<noteq> CHR ''-''"
    using show_nat_digits [of "nat i"] show_nat_not_Nil [of "nat i"]
    by (cases "show_nat (nat i)") (auto simp: is_digit_def)
  ultimately show ?thesis
    by (simp add: parse_num_def show_int_def parse_show_nat)
qed

text \<open>
  The separators the code uses: a comma or a colon, perhaps followed by spaces.
\<close>

definition seps_ok :: "string \<Rightarrow> string \<Rightarrow> bool" where
  "seps_ok isep ksep \<longleftrightarrow>
     isep \<noteq> [] \<and> hd isep = CHR 0x2C \<and> list_all is_json_ws (tl isep) \<and>
     ksep \<noteq> [] \<and> hd ksep = CHR '':'' \<and> list_all is_json_ws (tl ksep)"

lemma seps_ok_code [simp]: "seps_ok '','' '':''" "seps_ok '', '' '': ''"
  by (simp_all add: seps_ok_def is_json_ws_def)

lemma skip_ws_append [simp]: "list_all is_json_ws w \<Longrightarrow> skip_ws (w @ s) = skip_ws s"
  by (induction w) (auto simp: skip_ws_def)

lemma parse_value_skip [simp]: "list_all is_json_ws w \<Longrightarrow> parse_value n (w @ s) = parse_value n s"
  by (cases n) simp_all

lemma parse_items_skip [simp]: "list_all is_json_ws w \<Longrightarrow> parse_items n (w @ s) = parse_items n s"
  by (cases n) simp_all

lemma parse_members_skip [simp]:
  "list_all is_json_ws w \<Longrightarrow> parse_members n (w @ s) = parse_members n s"
  by (cases n) simp_all

lemma dumps_str_Cons: "dumps_str s = CHR 0x22 # tl (dumps_str s)"
  by (simp add: dumps_str_def)

lemma show_int_hd:
  obtains c cs where "show_int i = c # cs" "c = CHR ''-'' \<or> is_digit c"
proof (cases "i < 0")
  case True
  then show ?thesis using that by (simp add: show_int_def)
next
  case False
  obtain c cs where "show_nat (nat i) = c # cs"
    using show_nat_not_Nil by (metis list.exhaust)
  moreover from this have "is_digit c"
    using show_nat_digits [of "nat i"] by simp
  ultimately show ?thesis using that False by (simp add: show_int_def)
qed

lemma render_hd:
  obtains c cs where "render isep ksep v = c # cs" "\<not> is_json_ws c" "c \<noteq> CHR 0x5D"
proof (cases v)
  case (JInt i)
  obtain c cs where "show_int i = c # cs" "c = CHR ''-'' \<or> is_digit c"
    by (rule show_int_hd)
  moreover from this have "c \<noteq> CHR 0x5D" "\<not> is_json_ws c"
    by (auto simp: is_json_ws_def is_digit_def)
  ultimately show ?thesis
    using that JInt by simp
next
  case (JBool b)
  then show ?thesis using that by (cases b) (auto simp: is_json_ws_def)
next
  case (JStr s)
  then show ?thesis using that dumps_str_Cons [of s] by (auto simp: is_json_ws_def)
qed (use that in \<open>auto simp: is_json_ws_def\<close>)

fun need :: "json \<Rightarrow> nat" where
  "need (JArr vs) = Suc (sum_list (map (\<lambda>v. Suc (need v)) vs))"
| "need (JObj kvs) = Suc (sum_list (map (\<lambda>(k, v). Suc (need v)) kvs))"
| "need v = 1"

lemma join_Cons: "vs \<noteq> [] \<Longrightarrow> join sep (x # vs) = x @ sep @ join sep vs"
  by (cases vs) simp_all

lemma parse_items_render:
  assumes "seps_ok isep ksep"
    and "\<And>v n r. v \<in> set vs \<Longrightarrow> need v \<le> n \<Longrightarrow> ends_value r \<Longrightarrow>
       parse_value n (render isep ksep v @ r) = Some (v, r)"
    and "vs \<noteq> []" and "sum_list (map (\<lambda>v. Suc (need v)) vs) \<le> n"
  shows "parse_items n (join isep (map (render isep ksep) vs) @ CHR 0x5D # r) = Some (vs, r)"
  using assms(2-)
proof (induction vs arbitrary: n)
  case (Cons v vs)
  then obtain m where n: "n = Suc m" by (cases n) auto
  show ?case
  proof (cases "vs = []")
    case True
    then show ?thesis
      using Cons.prems n by (simp add: skip_ws_Cons is_json_ws_def)
  next
    case False
    obtain ws where ws: "isep = CHR 0x2C # ws" "list_all is_json_ws ws"
      using assms(1) by (cases isep) (auto simp: seps_ok_def)
    have "parse_value m (render isep ksep v @ isep @ join isep (map (render isep ksep) vs) @ CHR 0x5D # r)
        = Some (v, isep @ join isep (map (render isep ksep) vs) @ CHR 0x5D # r)"
      using Cons.prems n by (simp add: ws)
    moreover have "parse_items m (join isep (map (render isep ksep) vs) @ CHR 0x5D # r) = Some (vs, r)"
      using Cons.IH [of m] Cons.prems False n by simp
    ultimately show ?thesis
      using False n ws by (simp add: join_Cons skip_ws_Cons is_json_ws_def)
  qed
qed simp

lemma parse_members_render:
  assumes "seps_ok isep ksep"
    and "\<And>k v n r. (k, v) \<in> set kvs \<Longrightarrow> need v \<le> n \<Longrightarrow> ends_value r \<Longrightarrow>
       parse_value n (render isep ksep v @ r) = Some (v, r)"
    and "kvs \<noteq> []" and "sum_list (map (\<lambda>(k, v). Suc (need v)) kvs) \<le> n"
  shows "parse_members n
      (join isep (map (\<lambda>(k, v). dumps_str k @ ksep @ render isep ksep v) kvs) @ CHR 0x7D # r)
    = Some (kvs, r)"
  using assms(2-)
proof (induction kvs arbitrary: n)
  case (Cons kv kvs)
  obtain k v where kv: "kv = (k, v)" by (cases kv)
  with Cons.prems obtain m where n: "n = Suc m" by (cases n) auto
  obtain ws ks where seps: "isep = CHR 0x2C # ws" "list_all is_json_ws ws"
      "ksep = CHR '':'' # ks" "list_all is_json_ws ks"
    using assms(1) by (cases isep; cases ksep) (auto simp: seps_ok_def)
  let ?tail = "if kvs = [] then CHR 0x7D # r
     else isep @ join isep (map (\<lambda>(k, v). dumps_str k @ ksep @ render isep ksep v) kvs) @ CHR 0x7D # r"
  have txt_eq: "join isep (map (\<lambda>(k, v). dumps_str k @ ksep @ render isep ksep v) (kv # kvs)) @ CHR 0x7D # r
      = CHR 0x22 # tl (dumps_str k) @ CHR '':'' # ks @ render isep ksep v @ ?tail"
    using dumps_str_Cons [of k] by (cases "kvs = []") (simp_all add: kv seps join_Cons)
  have val: "parse_value m (render isep ksep v @ ?tail) = Some (v, ?tail)"
    using Cons.prems(1) [of k v m ?tail] Cons.prems(3) n by (simp add: kv seps)
  have rest: "kvs \<noteq> [] \<Longrightarrow> parse_members m
      (join isep (map (\<lambda>(k, v). dumps_str k @ ksep @ render isep ksep v) kvs) @ CHR 0x7D # r) = Some (kvs, r)"
  proof -
    assume "kvs \<noteq> []"
    moreover have "sum_list (map (\<lambda>(k, v). Suc (need v)) kvs) \<le> m"
      using Cons.prems(3) n by (simp add: kv)
    ultimately show ?thesis
      by (intro Cons.IH Cons.prems(1)) auto
  qed
  show ?case
    unfolding txt_eq n
    using val rest seps
    by (simp add: kv skip_ws_Cons is_json_ws_def parse_dumps_str)
qed simp

theorem parse_value_render:
  assumes "seps_ok isep ksep" and "need v \<le> n" and "ends_value r"
  shows "parse_value n (render isep ksep v @ r) = Some (v, r)"
  using assms(2,3)
proof (induction v arbitrary: n r)
  case (JInt i)
  then obtain m where n: "n = Suc m" by (cases n) auto
  obtain c cs where c: "show_int i = c # cs" "c = CHR ''-'' \<or> is_digit c"
    by (rule show_int_hd)
  then have "\<not> is_json_ws c" "c \<notin> {CHR 0x22, CHR 0x5B, CHR 0x7B, CHR ''n'', CHR ''t'', CHR ''f''}"
    by (auto simp: is_json_ws_def is_digit_def)
  moreover have "parse_num (c # cs @ r) = Some (JInt i, r)"
    using parse_show_int [OF JInt.prems(2), of i] c by simp
  ultimately show ?case
    using n c by (simp add: skip_ws_Cons)
next
  case (JStr s)
  then obtain m where n: "n = Suc m" by (cases n) auto
  have "render isep ksep (JStr s) @ r = CHR 0x22 # (tl (dumps_str s) @ r)"
    using dumps_str_Cons [of s] by simp
  then show ?case
    by (simp add: n skip_ws_Cons is_json_ws_def parse_dumps_str del: render.simps)
next
  case (JArr vs)
  then obtain m where n: "n = Suc m" by (cases n) auto
  show ?case
  proof (cases vs)
    case Nil
    then show ?thesis
      by (simp add: n skip_ws_Cons is_json_ws_def startswith_def)
  next
    case (Cons v vs')
    obtain c cs where c: "render isep ksep v = c # cs" "\<not> is_json_ws c" "c \<noteq> CHR 0x5D"
      by (rule render_hd)
    have "parse_items m (join isep (map (render isep ksep) vs) @ CHR 0x5D # r) = Some (vs, r)"
      using JArr n by (intro parse_items_render [OF assms(1)]) (auto simp: Cons)
    moreover have "\<exists>ds. join isep (map (render isep ksep) vs) @ CHR 0x5D # r = c # ds"
      using c by (cases vs') (simp_all add: Cons)
    ultimately show ?thesis
      using c by (auto simp: n skip_ws_Cons is_json_ws_def startswith_def)
  qed
next
  case (JObj kvs)
  then obtain m where n: "n = Suc m" by (cases n) auto
  let ?body = "join isep (map (\<lambda>(k, v). dumps_str k @ ksep @ render isep ksep v) kvs)"
  show ?case
  proof (cases kvs)
    case Nil
    then show ?thesis
      by (simp add: n skip_ws_Cons is_json_ws_def startswith_def)
  next
    case (Cons kv kvs')
    have "parse_members m (?body @ CHR 0x7D # r) = Some (kvs, r)"
      using JObj n by (intro parse_members_render [OF assms(1)]) (auto simp: Cons)
    moreover have "\<exists>ds. ?body @ CHR 0x7D # r = CHR 0x22 # ds"
      by (cases kvs'; cases kv) (simp_all add: Cons dumps_str_def)
    ultimately show ?thesis
      by (auto simp: n skip_ws_Cons is_json_ws_def startswith_def)
  qed
next
  case JNull
  then obtain m where "n = Suc m" by (cases n) auto
  then show ?case
    by (simp add: skip_ws_Cons is_json_ws_def expect_def startswith_def)
next
  case (JBool b)
  then obtain m where "n = Suc m" by (cases n) auto
  then show ?case
    by (cases b) (simp_all add: skip_ws_Cons is_json_ws_def expect_def startswith_def)
qed

lemma need_length:
  assumes "seps_ok isep ksep"
  shows "need v \<le> length (render isep ksep v)"
proof (induction v)
  case (JInt i)
  obtain c cs where "show_int i = c # cs" by (rule show_int_hd)
  then show ?case by simp
next
  case (JStr s)
  then show ?case by (simp add: dumps_str_def)
next
  case (JArr vs)
  have "sum_list (map (\<lambda>v. Suc (need v)) vs) \<le> Suc (length (join isep (map (render isep ksep) vs)))"
    using JArr assms
  proof (induction vs)
    case (Cons v vs)
    then show ?case
      by (cases vs; cases isep) (fastforce simp: seps_ok_def)+
  qed simp
  then show ?case by simp
next
  case (JObj kvs)
  let ?r = "\<lambda>(k, v). dumps_str k @ ksep @ render isep ksep v"
  have "sum_list (map (\<lambda>(k, v). Suc (need v)) kvs) \<le> Suc (length (join isep (map ?r kvs)))"
    using JObj assms
  proof (induction kvs)
    case (Cons kv kvs)
    obtain k v where kv: "kv = (k, v)" by (cases kv)
    have v: "need v \<le> length (render isep ksep v)"
      using Cons.prems(1) [of kv v] by (auto simp: kv)
    have rest: "sum_list (map (\<lambda>(k, v). Suc (need v)) kvs) \<le> Suc (length (join isep (map ?r kvs)))"
      using Cons.IH Cons.prems by auto
    show ?case
    proof (cases "kvs = []")
      case True
      with v show ?thesis by (simp add: kv)
    next
      case False
      moreover have "1 \<le> length isep"
        using assms by (cases isep) (simp_all add: seps_ok_def)
      ultimately show ?thesis
        using v rest by (simp add: kv join_Cons)
    qed
  qed simp
  then show ?case by simp
qed simp_all

lemma dict_set_new: "k \<notin> fst ` set d \<Longrightarrow> dict_set k v d = d @ [(k, v)]"
  by (induction d) auto

lemma dict_of_pairs_distinct:
  assumes "distinct (map fst kvs)"
  shows "dict_of_pairs kvs = kvs"
proof -
  have "distinct (map fst (d @ kvs)) \<Longrightarrow> fold (\<lambda>(k, v) d. dict_set k v d) kvs d = d @ kvs" for d
  proof (induction kvs arbitrary: d)
    case (Cons kv kvs)
    then show ?case
      using Cons.IH [of "d @ [kv]"] by (cases kv) (auto simp: dict_set_new)
  qed simp
  from this [of "[]"] assms show ?thesis
    by (simp add: dict_of_pairs_def)
qed

lemma build_ok: "json_ok v \<Longrightarrow> build v = v"
proof (induction v)
  case (JArr vs)
  then show ?case by (simp add: list_all_iff map_idI)
next
  case (JObj kvs)
  then have "map (\<lambda>(k, v). (k, build v)) kvs = kvs"
    by (intro map_idI) (fastforce simp: list_all_iff)
  with JObj show ?case by (simp add: dict_of_pairs_distinct)
qed simp_all

lemma map_fst_canon: "map fst (map (\<lambda>(k, v). (k, f v)) kvs) = map fst kvs"
  by auto

lemma canon_ok: "json_ok v \<Longrightarrow> json_ok (canon v)"
proof (induction v)
  case (JArr vs)
  then show ?case by (simp add: list_all_iff)
next
  case (JObj kvs)
  have "distinct (map fst (sort_key fst (map (\<lambda>(k, v). (k, canon v)) kvs)))"
    using JObj.prems by (simp add: distinct_map inj_on_def map_fst_canon) (force simp: distinct_map)
  moreover have "list_all (\<lambda>(k, v). json_ok v) (sort_key fst (map (\<lambda>(k, v). (k, canon v)) kvs))"
    using JObj by (fastforce simp: list_all_iff)
  ultimately show ?case by simp
qed simp_all

lemma sort_map_pairs:
  "sort_key fst (map (\<lambda>(k, v). (k, f v)) kvs) = map (\<lambda>(k, v). (k, f v)) (sort_key fst kvs)"
proof -
  have ins: "insort_key fst (k, f v) (map (\<lambda>(k, v). (k, f v)) xs) = map (\<lambda>(k, v). (k, f v)) (insort_key fst (k, v) xs)"
    for k v xs
    by (induction xs) auto
  show ?thesis
    by (induction kvs) (auto simp: sort_key_def ins simp del: case_prod_conv)
qed

lemma canon_idem [simp]: "canon (canon v) = canon v"
proof (induction v)
  case (JObj kvs)
  have "map (\<lambda>(k, v). (k, canon v)) (map (\<lambda>(k, v). (k, canon v)) kvs) = map (\<lambda>(k, v). (k, canon v)) kvs"
    using JObj by (auto intro!: map_cong)
  then have "sort_key fst (map (\<lambda>(k, v). (k, canon v)) (sort_key fst (map (\<lambda>(k, v). (k, canon v)) kvs)))
      = sort_key fst (sort_key fst (map (\<lambda>(k, v). (k, canon v)) kvs))"
    by (simp only: sort_map_pairs [symmetric] sort_map_pairs [of canon "map _ _"])
  then show ?case by (simp add: sort_key_id_if_sorted)
qed (simp_all add: map_idI)

lemma loads_render: "seps_ok isep ksep \<Longrightarrow> loads (render isep ksep v) = Some (build v)"
proof -
  assume "seps_ok isep ksep"
  then have "parse_value (Suc (length (render isep ksep v))) (render isep ksep v @ []) = Some (v, [])"
    by (intro parse_value_render) (auto intro: le_SucI need_length)
  then show ?thesis by (simp add: loads_def del: parse_value.simps)
qed

section \<open>The contract of a text encoding\<close>

text \<open>
  What the stores rely on when they keep a document as text, compare the texts of two documents
  for equality, and decode a stored text again.
\<close>

locale codec =
  fixes enc :: "'v \<Rightarrow> string" and dec :: "string \<Rightarrow> 'v option"
    and norm :: "'v \<Rightarrow> 'v" and ok :: "'v \<Rightarrow> bool"
  assumes dec_enc: "ok v \<Longrightarrow> dec (enc v) = Some (norm v)"
    and enc_norm: "enc (norm v) = enc v"
    and norm_norm: "norm (norm v) = norm v"
    and ok_norm: "ok v \<Longrightarrow> ok (norm v)"
begin

lemma enc_eq_iff:
  assumes "ok v" and "ok w"
  shows "enc v = enc w \<longleftrightarrow> norm v = norm w"
  by (metis assms dec_enc enc_norm option.inject)

lemma reencode: "ok v \<Longrightarrow> map_option enc (dec (enc v)) = Some (enc v)"
  by (simp add: dec_enc enc_norm)

end

interpretation canonical: codec canonical_json loads canon json_ok
proof
  fix v
  show "json_ok v \<Longrightarrow> loads (canonical_json v) = Some (canon v)"
    by (simp add: canonical_json_def loads_render build_ok canon_ok)
qed (simp_all add: canonical_json_def canon_ok)

interpretation plain: codec plain_json loads id json_ok
proof
  fix v
  show "json_ok v \<Longrightarrow> loads (plain_json v) = Some (id v)"
    by (simp add: plain_json_def loads_render build_ok)
qed simp_all

section \<open>Documents built by the code\<close>

definition json_strs :: "string list \<Rightarrow> json" where
  "json_strs xs = JArr (map JStr xs)"

definition json_ints :: "int list \<Rightarrow> json" where
  "json_ints xs = JArr (map JInt xs)"

definition json_opt_str :: "string option \<Rightarrow> json" where
  "json_opt_str x = (case x of None \<Rightarrow> JNull | Some s \<Rightarrow> JStr s)"

definition json_opt_int :: "int option \<Rightarrow> json" where
  "json_opt_int x = (case x of None \<Rightarrow> JNull | Some i \<Rightarrow> JInt i)"

text \<open>\<open>d.get(k)\<close> and \<open>d[k]\<close> on a decoded object.\<close>

definition json_get :: "json \<Rightarrow> string \<Rightarrow> json option" where
  "json_get v k = (case v of JObj kvs \<Rightarrow> map_of kvs k | _ \<Rightarrow> None)"

lemma json_ok_strs [simp]: "json_ok (json_strs xs)"
  by (simp add: json_strs_def list_all_iff)

lemma json_ok_ints [simp]: "json_ok (json_ints xs)"
  by (simp add: json_ints_def list_all_iff)

lemma canon_strs [simp]: "canon (json_strs xs) = json_strs xs"
  by (simp add: json_strs_def)

lemma canon_ints [simp]: "canon (json_ints xs) = json_ints xs"
  by (simp add: json_ints_def)

lemma json_strs_inject [simp]: "json_strs xs = json_strs ys \<longleftrightarrow> xs = ys"
  by (simp add: json_strs_def inj_map_eq_map inj_def)

lemma json_ints_inject [simp]: "json_ints xs = json_ints ys \<longleftrightarrow> xs = ys"
  by (simp add: json_ints_def inj_map_eq_map inj_def)

section \<open>Reading documents\<close>

text \<open>\<open>d.get(k)\<close>; a missing key is \<open>None\<close>, as a \<open>null\<close> is.\<close>

definition get_or_null :: "(string \<times> json) list \<Rightarrow> string \<Rightarrow> json" where
  "get_or_null d k = (case map_of d k of None \<Rightarrow> JNull | Some v \<Rightarrow> v)"

text \<open>The dict of a canonical text has the keys of the original with canonical values.\<close>

abbreviation canon_dict :: "(string \<times> json) list \<Rightarrow> (string \<times> json) list" where
  "canon_dict d \<equiv> sort_key fst (map (\<lambda>(k, v). (k, canon v)) d)"

lemma map_of_canon:
  assumes "json_ok (JObj d)"
  shows "map_of (canon_dict d) k = map_option canon (map_of d k)"
proof -
  let ?c = "map (\<lambda>(k, v). (k, canon v)) d"
  have d: "distinct (map fst ?c)" using assms by (simp only: map_fst_canon) simp
  have "distinct (map fst (sort_key fst ?c))"
    using d by (metis distinct_map distinct_sort set_sort)
  then have "map_of (sort_key fst ?c) = map_of ?c"
    using d by (simp add: map_of_inject_set del: map_map)
  then show ?thesis by (simp add: map_of_map)
qed

lemma loads_canonical_dict:
  assumes "json_ok (JObj d)"
  shows "loads (canonical_json (JObj d)) = Some (JObj (canon_dict d))"
  using canonical.dec_enc [OF assms] by simp

lemma canon_JStr [simp]: "canon v = JStr s \<longleftrightarrow> v = JStr s"
  by (cases v) auto

lemma canon_dict_ok: "json_ok (JObj d) \<Longrightarrow> json_ok (JObj (canon_dict d))"
  using canonical.ok_norm [of "JObj d"] by simp

lemma canonical_canon_dict [simp]: "canonical_json (JObj (canon_dict d)) = canonical_json (JObj d)"
  using canonical.enc_norm [of "JObj d"] by simp

lemma json_ok_lookup: "json_ok (JObj d) \<Longrightarrow> map_of d k = Some v \<Longrightarrow> json_ok v"
  by (auto simp: list_all_iff dest!: map_of_SomeD)

end
