(* ===== verification/SqlCore.thy ===== *)
theory SqlCore
  imports PyCore
begin

text \<open>
  The part of SQLite that the stores use. A table is the list of its rows in rowid order. A
  uniqueness constraint (primary key, \<open>UNIQUE\<close> column, partial unique index) is a relation
  \<open>clash\<close> between two rows; an \<open>INSERT\<close> or an \<open>UPDATE\<close> that would make two rows of the
  table clash raises \<open>IntegrityError\<close>, here \<open>None\<close>. \<open>NULL\<close> never clashes with anything.
\<close>

section \<open>Values\<close>

text \<open>
  The value of a column that the code reads and writes by name; \<open>NULL\<close> sorts before the
  integers, and they before the texts.
\<close>

datatype sqlval = SNull | SInt int | SText string

fun sqlval_le :: "sqlval \<Rightarrow> sqlval \<Rightarrow> bool" where
  "sqlval_le SNull _ = True"
| "sqlval_le (SInt i) SNull = False"
| "sqlval_le (SInt i) (SInt j) = (i \<le> j)"
| "sqlval_le (SInt i) (SText t) = True"
| "sqlval_le (SText s) (SText t) = (s \<le> t)"
| "sqlval_le (SText s) _ = False"

instantiation sqlval :: linorder
begin

definition less_eq_sqlval :: "sqlval \<Rightarrow> sqlval \<Rightarrow> bool" where
  "less_eq_sqlval = sqlval_le"

definition less_sqlval :: "sqlval \<Rightarrow> sqlval \<Rightarrow> bool" where
  "less_sqlval a b \<longleftrightarrow> sqlval_le a b \<and> \<not> sqlval_le b a"

instance
proof
  fix a b c :: sqlval
  show "a \<le> a" by (cases a) (simp_all add: less_eq_sqlval_def)
  show "a \<le> b \<Longrightarrow> b \<le> c \<Longrightarrow> a \<le> c"
    by (cases a; cases b; cases c) (auto simp: less_eq_sqlval_def)
  show "a \<le> b \<Longrightarrow> b \<le> a \<Longrightarrow> a = b"
    by (cases a; cases b) (auto simp: less_eq_sqlval_def)
  show "a \<le> b \<or> b \<le> a"
    by (cases a; cases b) (auto simp: less_eq_sqlval_def)
  show "(a < b) = (a \<le> b \<and> \<not> b \<le> a)"
    by (simp add: less_sqlval_def less_eq_sqlval_def)
qed

end

definition sql_opt :: "('a \<Rightarrow> sqlval) \<Rightarrow> 'a option \<Rightarrow> sqlval" where
  "sql_opt f x = (case x of None \<Rightarrow> SNull | Some a \<Rightarrow> f a)"

section \<open>Statements\<close>

definition nullable_eq :: "'a option \<Rightarrow> 'a option \<Rightarrow> bool" where
  "nullable_eq a b \<longleftrightarrow> a \<noteq> None \<and> a = b"

fun table_ok :: "('r \<Rightarrow> 'r \<Rightarrow> bool) \<Rightarrow> 'r list \<Rightarrow> bool" where
  "table_ok clash [] = True"
| "table_ok clash (r # rs) = (list_all (\<lambda>r'. \<not> clash r r') rs \<and> table_ok clash rs)"

definition sql_insert :: "('r \<Rightarrow> 'r \<Rightarrow> bool) \<Rightarrow> 'r \<Rightarrow> 'r list \<Rightarrow> 'r list option" where
  "sql_insert clash r rs = (if list_ex (clash r) rs then None else Some (rs @ [r]))"

text \<open>\<open>executemany\<close> of an \<open>INSERT\<close>: the first clash raises.\<close>

fun sql_insert_many :: "('r \<Rightarrow> 'r \<Rightarrow> bool) \<Rightarrow> 'r list \<Rightarrow> 'r list \<Rightarrow> 'r list option" where
  "sql_insert_many clash [] db = Some db"
| "sql_insert_many clash (r # rs) db =
     (case sql_insert clash r db of None \<Rightarrow> None | Some db' \<Rightarrow> sql_insert_many clash rs db')"

definition sql_update :: "('r \<Rightarrow> 'r \<Rightarrow> bool) \<Rightarrow> ('r \<Rightarrow> bool) \<Rightarrow> ('r \<Rightarrow> 'r) \<Rightarrow> 'r list \<Rightarrow> 'r list option" where
  "sql_update clash p f rs =
     (let rs' = map (\<lambda>r. if p r then f r else r) rs in
      if table_ok clash rs' then Some rs' else None)"

definition sql_delete :: "('r \<Rightarrow> bool) \<Rightarrow> 'r list \<Rightarrow> 'r list" where
  "sql_delete p rs = filter (\<lambda>r. \<not> p r) rs"

definition replace_row :: "('r \<Rightarrow> 'k) \<Rightarrow> 'k \<Rightarrow> 'r \<Rightarrow> 'r list \<Rightarrow> 'r list" where
  "replace_row key k r' rs = map (\<lambda>x. if key x = k then r' else x) rs"

text \<open>\<open>SELECT ... WHERE key = ?\<close> with \<open>fetchone\<close>.\<close>

definition lookup :: "('r \<Rightarrow> 'k) \<Rightarrow> 'k \<Rightarrow> 'r list \<Rightarrow> 'r option" where
  "lookup key k rs = find (\<lambda>r. key r = k) rs"

definition select :: "('r \<Rightarrow> bool) \<Rightarrow> 'r list \<Rightarrow> 'r list" where
  "select p rs = filter p rs"

text \<open>\<open>ORDER BY key LIMIT n\<close>; rows with equal keys stay in rowid order. SQLite takes a negative limit as none.\<close>

definition order_limit :: "('r \<Rightarrow> 'k::linorder) \<Rightarrow> int \<Rightarrow> 'r list \<Rightarrow> 'r list" where
  "order_limit key n rs = (if n < 0 then sort_key key rs else take (nat n) (sort_key key rs))"

lemma lookup_Some_D: "lookup key k rs = Some r \<Longrightarrow> r \<in> set rs \<and> key r = k"
  unfolding lookup_def by (rule find_Some_D)

lemma lookup_None_D: "lookup key k rs = None \<Longrightarrow> r \<in> set rs \<Longrightarrow> key r \<noteq> k"
  unfolding lookup_def by (rule find_None_D)

lemma lookup_simps [simp]:
  "lookup key k [] = None"
  "lookup key k (r # rs) = (if key r = k then Some r else lookup key k rs)"
  by (simp_all add: lookup_def)

lemma lookup_append:
  "lookup key k (rs @ rs') = (case lookup key k rs of None \<Rightarrow> lookup key k rs' | Some r \<Rightarrow> Some r)"
  by (induction rs) auto

lemma set_order_limit: "set (order_limit key n rs) \<subseteq> set rs"
  by (auto simp: order_limit_def dest: in_set_takeD)

lemma sorted_order_limit: "sorted (map key (order_limit key n rs))"
  by (simp add: order_limit_def take_map [symmetric] sorted_wrt_take)

lemma length_order_limit: "0 \<le> n \<Longrightarrow> length (order_limit key n rs) \<le> nat n"
  by (simp add: order_limit_def)

text \<open>\<open>ORDER BY key LIMIT 1\<close> with \<open>fetchone\<close> returns a least row, if there is a row.\<close>

definition fetch_first :: "('r \<Rightarrow> 'k::linorder) \<Rightarrow> 'r list \<Rightarrow> 'r option" where
  "fetch_first key rs = (case sort_key key rs of [] \<Rightarrow> None | r # _ \<Rightarrow> Some r)"

lemma fetch_first_None [simp]: "fetch_first key rs = None \<longleftrightarrow> rs = []"
  by (auto simp: fetch_first_def split: list.splits dest: arg_cong [where f = length])

lemma fetch_first_Some:
  assumes "fetch_first key rs = Some r"
  shows "r \<in> set rs" and "\<And>r'. r' \<in> set rs \<Longrightarrow> key r \<le> key r'"
proof -
  from assms obtain rest where s: "sort_key key rs = r # rest"
    by (auto simp: fetch_first_def split: list.splits)
  have st: "set (r # rest) = set rs"
    by (metis s set_sort)
  then show "r \<in> set rs" by auto
  have "sorted (map key (r # rest))"
    by (metis s sorted_sort_key)
  with st show "key r \<le> key r'" if "r' \<in> set rs" for r'
    using that by auto
qed

lemma sql_insert_Some: "sql_insert clash r rs = Some rs' \<longleftrightarrow> rs' = rs @ [r] \<and> (\<forall>r' \<in> set rs. \<not> clash r r')"
  by (auto simp: sql_insert_def list_ex_iff)

lemma sql_insert_None: "sql_insert clash r rs = None \<longleftrightarrow> (\<exists>r' \<in> set rs. clash r r')"
  by (auto simp: sql_insert_def list_ex_iff)

lemma sql_insert_many_Some: "sql_insert_many clash rs db = Some db' \<Longrightarrow> db' = db @ rs"
  by (induction rs arbitrary: db) (fastforce simp: sql_insert_Some split: option.splits)+

lemma sql_update_Some:
  "sql_update clash p f rs = Some rs' \<longleftrightarrow>
     rs' = map (\<lambda>r. if p r then f r else r) rs \<and> table_ok clash rs'"
  by (auto simp: sql_update_def Let_def)

lemma sql_update_mem:
  assumes "sql_update clash p f rs = Some rs'" and "r' \<in> set rs'"
  obtains r where "r \<in> set rs" and "r' = (if p r then f r else r)"
  using assms by (auto simp: sql_update_Some)

text \<open>An invariant of the rows, kept by the three statements.\<close>

lemma list_all_insert:
  "sql_insert clash r rs = Some rs' \<Longrightarrow> list_all P rs' \<longleftrightarrow> list_all P rs \<and> P r"
  by (auto simp: sql_insert_Some)

lemma list_all_update:
  "sql_update clash p f rs = Some rs' \<Longrightarrow> list_all P rs \<Longrightarrow> (\<And>r. r \<in> set rs \<Longrightarrow> p r \<Longrightarrow> P r \<Longrightarrow> P (f r)) \<Longrightarrow>
   list_all P rs'"
  by (auto simp: sql_update_Some list_all_iff)

lemma list_all_delete: "list_all P rs \<Longrightarrow> list_all P (sql_delete p rs)"
  by (auto simp: sql_delete_def list_all_iff)

lemma table_ok_iff:
  "table_ok clash rs \<longleftrightarrow> (\<forall>i j. i < j \<longrightarrow> j < length rs \<longrightarrow> \<not> clash (rs ! i) (rs ! j))"
proof (induction rs)
  case (Cons r rs)
  show ?case
  proof
    assume l: "table_ok clash (r # rs)"
    show "\<forall>i j. i < j \<longrightarrow> j < length (r # rs) \<longrightarrow> \<not> clash ((r # rs) ! i) ((r # rs) ! j)"
    proof (intro allI impI)
      fix i j
      assume ij: "i < j" "j < length (r # rs)"
      then obtain j' where j': "j = Suc j'" by (cases j) auto
      show "\<not> clash ((r # rs) ! i) ((r # rs) ! j)"
        using l ij j' Cons.IH by (cases i) (auto simp: list_all_length)
    qed
  next
    assume h: "\<forall>i j. i < j \<longrightarrow> j < length (r # rs) \<longrightarrow> \<not> clash ((r # rs) ! i) ((r # rs) ! j)"
    have "list_all (\<lambda>r'. \<not> clash r r') rs"
      unfolding list_all_length
    proof (intro allI impI)
      fix j assume "j < length rs"
      then show "\<not> clash r (rs ! j)" using h [rule_format, of 0 "Suc j"] by simp
    qed
    moreover have "table_ok clash rs"
      unfolding Cons.IH
    proof (intro allI impI)
      fix i j assume "i < j" "j < length rs"
      then show "\<not> clash (rs ! i) (rs ! j)" using h [rule_format, of "Suc i" "Suc j"] by simp
    qed
    ultimately show "table_ok clash (r # rs)" by simp
  qed
qed simp

lemma table_ok_filter: "table_ok clash rs \<Longrightarrow> table_ok clash (filter p rs)"
  by (induction rs) (auto simp: list_all_iff)

section \<open>The contract of a table with constraints\<close>

text \<open>Two rows of a table satisfying its constraints that clash are the same row.\<close>

locale sql_table =
  fixes clash :: "'r \<Rightarrow> 'r \<Rightarrow> bool"
  assumes clash_sym: "clash r r' \<Longrightarrow> clash r' r"
begin

lemma ok_insert: "table_ok clash rs \<Longrightarrow> sql_insert clash r rs = Some rs' \<Longrightarrow> table_ok clash rs'"
proof -
  have "table_ok clash rs \<Longrightarrow> \<forall>r' \<in> set rs. \<not> clash r r' \<Longrightarrow> table_ok clash (rs @ [r])"
    by (induction rs) (auto dest: clash_sym)
  then show "table_ok clash rs \<Longrightarrow> sql_insert clash r rs = Some rs' \<Longrightarrow> table_ok clash rs'"
    by (auto simp: sql_insert_Some)
qed

lemma ok_insert_many: "table_ok clash db \<Longrightarrow> sql_insert_many clash rs db = Some db' \<Longrightarrow> table_ok clash db'"
  by (induction rs arbitrary: db) (auto split: option.splits intro: ok_insert)

lemma ok_update: "sql_update clash p f rs = Some rs' \<Longrightarrow> table_ok clash rs'"
  by (auto simp: sql_update_Some)

lemma ok_delete: "table_ok clash rs \<Longrightarrow> table_ok clash (sql_delete p rs)"
  by (simp add: sql_delete_def table_ok_filter)

lemma unique_row:
  assumes "table_ok clash rs" and "i < length rs" and "j < length rs" and "clash (rs ! i) (rs ! j)"
  shows "i = j"
proof (rule ccontr)
  assume "i \<noteq> j"
  then consider "i < j" | "j < i" by linarith
  then show False
    using assms by cases (auto simp: table_ok_iff dest: clash_sym)
qed

lemma clash_eq:
  assumes "table_ok clash rs" and "r \<in> set rs" and "r' \<in> set rs" and "clash r r'"
  shows "r = r'"
  using assms unique_row by (metis in_set_conv_nth)

text \<open>An update that does not touch the constrained columns always succeeds.\<close>

lemma update_frame:
  assumes "table_ok clash rs"
    and "\<And>r r'. clash (if p r then f r else r) (if p r' then f r' else r') \<longleftrightarrow> clash r r'"
  shows "sql_update clash p f rs = Some (map (\<lambda>r. if p r then f r else r) rs)"
proof -
  have "table_ok clash (map (\<lambda>r. if p r then f r else r) rs)"
    using assms(1) by (simp add: table_ok_iff assms(2) nth_map less_trans)
  then show ?thesis by (simp add: sql_update_def Let_def)
qed

end

text \<open>A table with a primary key.\<close>

locale keyed_table = sql_table clash for clash :: "'r \<Rightarrow> 'r \<Rightarrow> bool" +
  fixes key :: "'r \<Rightarrow> 'k"
  assumes key_clash: "key r = key r' \<Longrightarrow> clash r r'"
begin

lemma key_eq: "table_ok clash rs \<Longrightarrow> r \<in> set rs \<Longrightarrow> r' \<in> set rs \<Longrightarrow> key r = key r' \<Longrightarrow> r = r'"
  by (blast intro: clash_eq key_clash)

lemma lookup_mem: "table_ok clash rs \<Longrightarrow> r \<in> set rs \<Longrightarrow> lookup key (key r) rs = Some r"
  by (cases "lookup key (key r) rs") (auto dest: lookup_None_D lookup_Some_D key_eq)

lemma distinct_keys: "table_ok clash rs \<Longrightarrow> distinct (map key rs)"
  by (induction rs) (auto simp: list_all_iff dest: key_clash)

lemma insert_fresh: "sql_insert clash r rs = Some rs' \<Longrightarrow> lookup key (key r) rs = None"
  by (cases "lookup key (key r) rs") (auto simp: sql_insert_Some dest!: lookup_Some_D dest: key_clash [OF sym])

lemma lookup_insert:
  "sql_insert clash r rs = Some rs' \<Longrightarrow>
   lookup key k rs' = (if k = key r then Some r else lookup key k rs)"
  using insert_fresh [of r rs rs'] by (auto simp: sql_insert_Some lookup_append split: option.splits)

lemma lookup_update:
  assumes "sql_update clash (\<lambda>r. key r = k) f rs = Some rs'" and "\<And>r. key (f r) = key r"
  shows "lookup key k' rs' = (if k' = k then map_option f (lookup key k rs) else lookup key k' rs)"
proof -
  have "lookup key k' (map (\<lambda>r. if key r = k then f r else r) rs)
      = (if k' = k then map_option f (lookup key k rs) else lookup key k' rs)"
    by (induction rs) (auto simp: assms(2))
  with assms(1) show ?thesis by (simp add: sql_update_Some)
qed

text \<open>An update by primary key replaces the one row it finds.\<close>

lemma update_replaces:
  assumes "table_ok clash rs" and "lookup key k rs = Some r"
    and "sql_update clash (\<lambda>r. key r = k) f rs = Some rs'"
  shows "rs' = replace_row key k (f r) rs" and "table_ok clash rs'"
proof -
  have "\<And>x. x \<in> set rs \<Longrightarrow> key x = k \<Longrightarrow> x = r"
    using assms(1,2) by (auto dest!: lookup_Some_D intro: key_eq)
  then show "rs' = replace_row key k (f r) rs"
    using assms(3) by (auto simp: sql_update_Some replace_row_def)
  show "table_ok clash rs'"
    using assms(3) by (rule ok_update)
qed

lemma lookup_replace:
  assumes "key r' = k"
  shows "lookup key k' (replace_row key k r' rs)
     = (if k' = k then map_option (\<lambda>_. r') (lookup key k rs) else lookup key k' rs)"
  unfolding replace_row_def using assms by (induction rs) auto

lemma lookup_insert_old:
  "sql_insert clash r rs = Some rs' \<Longrightarrow> lookup key k rs = Some r0 \<Longrightarrow> lookup key k rs' = Some r0"
  by (auto simp: sql_insert_Some lookup_append)

end

lemma replace_row_mem:
  "x \<in> set (replace_row key k r' rs) \<Longrightarrow> x = r' \<or> x \<in> set rs"
  by (auto simp: replace_row_def)

lemma replace_row_other:
  "x \<in> set rs \<Longrightarrow> key x \<noteq> k \<Longrightarrow> x \<in> set (replace_row key k r' rs)"
  by (auto simp: replace_row_def image_iff)

lemma replace_row_new:
  "lookup key k rs = Some r \<Longrightarrow> r' \<in> set (replace_row key k r' rs)"
  by (auto simp: replace_row_def image_iff dest!: lookup_Some_D)

section \<open>Runs of a store\<close>

text \<open>
  A store whose every call keeps an invariant keeps it along every sequence of calls, and a
  property that no call can undo stays true. \<open>step op s\<close> is the state after the call \<open>op\<close>,
  whether it returned or raised.
\<close>

definition run :: "('op \<Rightarrow> 's \<Rightarrow> 's) \<Rightarrow> 'op list \<Rightarrow> 's \<Rightarrow> 's" where
  "run step ops s = fold step ops s"

lemma run_simps [simp]:
  "run step [] s = s" "run step (op # ops) s = run step ops (step op s)"
  by (simp_all add: run_def)

lemma run_append: "run step (ops @ ops') s = run step ops' (run step ops s)"
  by (simp add: run_def)

locale store =
  fixes step :: "'op \<Rightarrow> 's \<Rightarrow> 's" and inv :: "'s \<Rightarrow> bool" and op_ok :: "'op \<Rightarrow> bool"
  assumes step_inv: "inv s \<Longrightarrow> op_ok op \<Longrightarrow> inv (step op s)"
begin

lemma run_inv: "inv s \<Longrightarrow> list_all op_ok ops \<Longrightarrow> inv (run step ops s)"
  by (induction ops arbitrary: s) (auto intro: step_inv)

lemma run_stable:
  assumes "\<And>op s. inv s \<Longrightarrow> op_ok op \<Longrightarrow> P s \<Longrightarrow> P (step op s)"
    and "inv s" and "list_all op_ok ops" and "P s"
  shows "P (run step ops s)"
  using assms(2-) by (induction ops arbitrary: s) (auto intro: assms(1) step_inv)

lemma run_mono:
  assumes "\<And>op s. inv s \<Longrightarrow> op_ok op \<Longrightarrow> R s (step op s)" and "reflp R" and "transp R"
    and "inv s" and "list_all op_ok ops"
  shows "R s (run step ops s)"
  using assms(4,5)
proof (induction ops arbitrary: s)
  case Nil
  then show ?case using assms(2) by (simp add: reflpD)
next
  case (Cons op ops)
  then have "R s (step op s)" "R (step op s) (run step ops (step op s))"
    by (auto intro: assms(1) step_inv)
  then show ?case using assms(3) by (auto dest: transpD)
qed

end

end
