(* ===== verification/GovernanceQueue.thy ===== *)
theory GovernanceQueue
  imports Json SqlCore
begin

text \<open>
  \<open>src/solslot_api/governance_queue.py\<close>: the revisioned queue of typed governance proposals.
  A record per table row, one definition per method of \<open>GovernanceQueueStore\<close>, and the
  properties of the queue: one active proposal, a second administrator's review, the proposal
  life cycle, optimistic locking, immutable evidence and the audit trail.
\<close>

section \<open>Data\<close>

datatype proposal_kind = SGT_SALE | SGT_GRANT | FUNDED_REDEMPTION

datatype proposal_state = DRAFT | READY | ACTIVE | EXECUTED | FAILED | CANCELED

fun kind_str :: "proposal_kind \<Rightarrow> string" where
  "kind_str SGT_SALE = ''SGT_SALE''"
| "kind_str SGT_GRANT = ''SGT_GRANT''"
| "kind_str FUNDED_REDEMPTION = ''FUNDED_REDEMPTION''"

fun state_str :: "proposal_state \<Rightarrow> string" where
  "state_str DRAFT = ''DRAFT''"
| "state_str READY = ''READY''"
| "state_str ACTIVE = ''ACTIVE''"
| "state_str EXECUTED = ''EXECUTED''"
| "state_str FAILED = ''FAILED''"
| "state_str CANCELED = ''CANCELED''"

text \<open>
  The two subclasses of \<open>GovernanceQueueError\<close>, what a malformed stored document raises, and a
  \<open>sqlite3.IntegrityError\<close> that no handler catches.
\<close>

datatype gov_error =
    GovernanceQueueConflict string
  | GovernanceQueueNotFound string
  | GovernanceQueueCorrupt
  | GovernanceQueueIntegrityError

text \<open>A row of \<open>governance_proposal_queue\<close>, with the columns \<open>_ensure_column\<close> adds.\<close>

record gq_row =
  gq_id :: string
  gq_kind :: proposal_kind
  gq_state :: proposal_state
  gq_title :: string
  gq_bill_json :: string
  gq_bill_clvm_hex :: string
  gq_proposal_hash :: string
  gq_revision :: int
  gq_queue_position :: int
  gq_created_by :: string
  gq_created_at :: int
  gq_updated_at :: int
  gq_activated_at :: "int option"
  gq_completed_at :: "int option"
  gq_activation_bundle_id :: "string option"
  gq_proposal_coin_id :: "string option"
  gq_completion_bundle_id :: "string option"
  gq_publication_coadmin_slot :: "int option"
  gq_publication_voting_deadline :: "int option"
  gq_execution_bundle_id :: "string option"
  gq_expected_output_coin_ids_json :: "string option"
  gq_execution_submitted_at :: "int option"
  gq_sale_offer_id :: "string option"
  gq_sale_offer_bech32 :: "string option"
  gq_sale_coin_id :: "string option"
  gq_sale_offer_status :: "string option"
  gq_sale_offer_published_at :: "int option"
  gq_sale_offer_confirmed_height :: "int option"
  gq_sale_offer_spent_height :: "int option"

text \<open>A row of \<open>governance_queue_audit\<close> and one of \<open>governance_queue_signatures\<close>.\<close>

record gq_audit =
  au_id :: nat
  au_proposal_id :: string
  au_actor :: string
  au_action :: string
  au_revision :: int
  au_occurred_at :: int
  au_details_json :: string

record GovernanceQueueSignature =
  sg_proposal_id :: string
  sg_action_id :: string
  sg_signer_slot :: int
  sg_signer_public_key :: string
  sg_message_hash :: string
  sg_signature :: string
  sg_signed_by :: string
  sg_signed_at :: int

text \<open>The value the store returns: the row with its two documents decoded.\<close>

record GovernanceQueueRecord =
  gr_id :: string
  gr_kind :: proposal_kind
  gr_state :: proposal_state
  gr_title :: string
  gr_bill :: json
  gr_bill_clvm_hex :: string
  gr_proposal_hash :: string
  gr_revision :: int
  gr_queue_position :: int
  gr_created_by :: string
  gr_created_at :: int
  gr_updated_at :: int
  gr_activated_at :: "int option"
  gr_completed_at :: "int option"
  gr_activation_bundle_id :: "string option"
  gr_proposal_coin_id :: "string option"
  gr_completion_bundle_id :: "string option"
  gr_publication_coadmin_slot :: "int option"
  gr_publication_voting_deadline :: "int option"
  gr_execution_bundle_id :: "string option"
  gr_expected_output_coin_ids :: "string list"
  gr_execution_submitted_at :: "int option"
  gr_sale_offer_id :: "string option"
  gr_sale_offer_bech32 :: "string option"
  gr_sale_coin_id :: "string option"
  gr_sale_offer_status :: "string option"
  gr_sale_offer_published_at :: "int option"
  gr_sale_offer_confirmed_height :: "int option"
  gr_sale_offer_spent_height :: "int option"

record gov_db =
  proposals :: "gq_row list"
  signature_rows :: "GovernanceQueueSignature list"
  audit :: "gq_audit list"

definition empty_gov_db :: gov_db where
  "empty_gov_db = \<lparr>proposals = [], signature_rows = [], audit = []\<rparr>"

text \<open>
  The constraints of the schema: primary key \<open>id\<close>, unique \<open>proposal_hash\<close>, and the partial
  unique index \<open>idx_governance_one_active\<close> on the rows whose state is \<open>ACTIVE\<close>; primary key
  \<open>(proposal_id, action_id)\<close> of the signatures.
\<close>

definition gq_clash :: "gq_row \<Rightarrow> gq_row \<Rightarrow> bool" where
  "gq_clash r r' \<longleftrightarrow>
     gq_id r = gq_id r' \<or> gq_proposal_hash r = gq_proposal_hash r' \<or>
     (gq_state r = ACTIVE \<and> gq_state r' = ACTIVE)"

definition sig_key :: "GovernanceQueueSignature \<Rightarrow> string \<times> string" where
  "sig_key g = (sg_proposal_id g, sg_action_id g)"

definition sig_clash :: "GovernanceQueueSignature \<Rightarrow> GovernanceQueueSignature \<Rightarrow> bool" where
  "sig_clash g g' \<longleftrightarrow> sig_key g = sig_key g'"

interpretation gq: keyed_table gq_clash gq_id
  by unfold_locales (auto simp: gq_clash_def)

interpretation sigt: keyed_table sig_clash sig_key
  by unfold_locales (auto simp: sig_clash_def)

section \<open>Reading\<close>

text \<open>
  \<open>tuple(str(v) for v in json.loads(str(column or "[]")))\<close>. The column is only ever written
  with a list of strings; anything else is reported as corrupt.
\<close>

definition stored_strs :: "string option \<Rightarrow> string list option" where
  "stored_strs c =
     (case loads (case c of None \<Rightarrow> ''[]'' | Some s \<Rightarrow> if s = [] then ''[]'' else s) of
        Some (JArr vs) \<Rightarrow>
          if list_all (\<lambda>v. case v of JStr _ \<Rightarrow> True | _ \<Rightarrow> False) vs
          then Some (map (\<lambda>v. case v of JStr s \<Rightarrow> s | _ \<Rightarrow> []) vs) else None
      | _ \<Rightarrow> None)"

definition gov_record :: "gq_row \<Rightarrow> gov_error + GovernanceQueueRecord" where
  "gov_record row =
     (case loads (gq_bill_json row) of
        None \<Rightarrow> Inl GovernanceQueueCorrupt
      | Some bill \<Rightarrow>
          (case stored_strs (gq_expected_output_coin_ids_json row) of
             None \<Rightarrow> Inl GovernanceQueueCorrupt
           | Some outputs \<Rightarrow>
               Inr \<lparr>gr_id = gq_id row, gr_kind = gq_kind row, gr_state = gq_state row,
                 gr_title = gq_title row, gr_bill = bill, gr_bill_clvm_hex = gq_bill_clvm_hex row,
                 gr_proposal_hash = gq_proposal_hash row, gr_revision = gq_revision row,
                 gr_queue_position = gq_queue_position row, gr_created_by = gq_created_by row,
                 gr_created_at = gq_created_at row, gr_updated_at = gq_updated_at row,
                 gr_activated_at = gq_activated_at row, gr_completed_at = gq_completed_at row,
                 gr_activation_bundle_id = gq_activation_bundle_id row,
                 gr_proposal_coin_id = gq_proposal_coin_id row,
                 gr_completion_bundle_id = gq_completion_bundle_id row,
                 gr_publication_coadmin_slot = gq_publication_coadmin_slot row,
                 gr_publication_voting_deadline = gq_publication_voting_deadline row,
                 gr_execution_bundle_id = gq_execution_bundle_id row,
                 gr_expected_output_coin_ids = outputs,
                 gr_execution_submitted_at = gq_execution_submitted_at row,
                 gr_sale_offer_id = gq_sale_offer_id row,
                 gr_sale_offer_bech32 = gq_sale_offer_bech32 row,
                 gr_sale_coin_id = gq_sale_coin_id row,
                 gr_sale_offer_status = gq_sale_offer_status row,
                 gr_sale_offer_published_at = gq_sale_offer_published_at row,
                 gr_sale_offer_confirmed_height = gq_sale_offer_confirmed_height row,
                 gr_sale_offer_spent_height = gq_sale_offer_spent_height row\<rparr>))"

definition get :: "gov_db \<Rightarrow> string \<Rightarrow> gov_error + GovernanceQueueRecord" where
  "get db proposal_id =
     (case lookup gq_id proposal_id (proposals db) of
        None \<Rightarrow> Inl (GovernanceQueueNotFound proposal_id)
      | Some row \<Rightarrow> gov_record row)"

text \<open>\<open>lower(json_extract(bill_json, '$.settlementId'))\<close>; SQL \<open>NULL\<close> is \<open>None\<close>.\<close>

definition settlement_id_text :: "string \<Rightarrow> string option" where
  "settlement_id_text bill_json =
     (case loads bill_json of
        None \<Rightarrow> None
      | Some bill \<Rightarrow>
          (case json_get bill ''settlementId'' of
             None \<Rightarrow> None
           | Some JNull \<Rightarrow> None
           | Some (JBool b) \<Rightarrow> Some (if b then ''1'' else ''0'')
           | Some (JStr s) \<Rightarrow> Some (sql_lower s)
           | Some v \<Rightarrow> Some (sql_lower (render '','' '':'' v))))"

definition find_executed_redemptions :: "gov_db \<Rightarrow> string \<Rightarrow> gov_error + GovernanceQueueRecord list" where
  "find_executed_redemptions db settlement_id =
     map_result gov_record
       (take 2 (select (\<lambda>r. gq_kind r = FUNDED_REDEMPTION \<and> gq_state r = EXECUTED \<and>
                            settlement_id_text (gq_bill_json r) = Some (lower settlement_id))
                  (proposals db)))"

definition state_rank :: "proposal_state \<Rightarrow> int" where
  "state_rank st = (if st = ACTIVE then 0 else if st = READY then 1 else 2)"

definition list_proposals :: "gov_db \<Rightarrow> bool \<Rightarrow> int \<Rightarrow> gov_error + GovernanceQueueRecord list" where
  "list_proposals db public limit =
     map_result gov_record
       (order_limit (\<lambda>r. (state_rank (gq_state r), gq_queue_position r, gq_created_at r)) limit
          (select (\<lambda>r. public \<longrightarrow> gq_state r \<in> {READY, ACTIVE, EXECUTED, FAILED}) (proposals db)))"

definition signature :: "gov_db \<Rightarrow> string \<Rightarrow> string \<Rightarrow> gov_error + GovernanceQueueSignature" where
  "signature db proposal_id action_id =
     (case lookup sig_key (proposal_id, action_id) (signature_rows db) of
        None \<Rightarrow> Inl (GovernanceQueueNotFound action_id)
      | Some g \<Rightarrow> Inr g)"

definition signatures :: "gov_db \<Rightarrow> string \<Rightarrow> GovernanceQueueSignature list" where
  "signatures db proposal_id =
     sort_key (\<lambda>g. (sg_signer_slot g, sg_signed_at g))
       (select (\<lambda>g. sg_proposal_id g = proposal_id) (signature_rows db))"

section \<open>Writing\<close>

text \<open>\<open>_audit\<close>; the \<open>AUTOINCREMENT\<close> id follows the largest one used.\<close>

definition write_audit ::
  "string \<Rightarrow> string \<Rightarrow> string \<Rightarrow> int \<Rightarrow> (string \<times> json) list \<Rightarrow> int \<Rightarrow> gov_db \<Rightarrow> gov_db" where
  "write_audit proposal_id actor action revision details occurred_at db =
     db\<lparr>audit := audit db @
       [\<lparr>au_id = Suc (fold max (map au_id (audit db)) 0), au_proposal_id = proposal_id,
         au_actor = lower actor, au_action = action, au_revision = revision,
         au_occurred_at = occurred_at, au_details_json = canonical_json (JObj details)\<rparr>]\<rparr>"

text \<open>\<open>SELECT COALESCE(MAX(queue_position), 0) ... WHERE state IN ('DRAFT','READY')\<close>.\<close>

definition max_position :: "gq_row list \<Rightarrow> int" where
  "max_position rows =
     (case map gq_queue_position (select (\<lambda>r. gq_state r \<in> {DRAFT, READY}) rows) of
        [] \<Rightarrow> 0
      | p # ps \<Rightarrow> fold max ps p)"

definition create_body ::
  "proposal_kind \<Rightarrow> string \<Rightarrow> json \<Rightarrow> string \<Rightarrow> string \<Rightarrow> string \<Rightarrow> int \<Rightarrow> string \<Rightarrow>
   (gov_db, gov_error, string) body" where
  "create_body kind title bill bill_clvm_hex proposal_hash actor timestamp proposal_id db =
     (let position = max_position (proposals db) + 1 in
      case sql_insert gq_clash
             \<lparr>gq_id = proposal_id, gq_kind = kind, gq_state = DRAFT, gq_title = strip title,
              gq_bill_json = canonical_json bill, gq_bill_clvm_hex = bill_clvm_hex,
              gq_proposal_hash = proposal_hash, gq_revision = 1, gq_queue_position = position,
              gq_created_by = lower actor, gq_created_at = timestamp, gq_updated_at = timestamp,
              gq_activated_at = None, gq_completed_at = None, gq_activation_bundle_id = None,
              gq_proposal_coin_id = None, gq_completion_bundle_id = None,
              gq_publication_coadmin_slot = None, gq_publication_voting_deadline = None,
              gq_execution_bundle_id = None, gq_expected_output_coin_ids_json = None,
              gq_execution_submitted_at = None, gq_sale_offer_id = None,
              gq_sale_offer_bech32 = None, gq_sale_coin_id = None, gq_sale_offer_status = None,
              gq_sale_offer_published_at = None, gq_sale_offer_confirmed_height = None,
              gq_sale_offer_spent_height = None\<rparr> (proposals db) of
        None \<Rightarrow> Inl (GovernanceQueueConflict ''this exact governance bill is already queued'')
      | Some rows \<Rightarrow>
          Inr (proposal_id, write_audit proposal_id actor ''CREATED'' 1 [] timestamp
                              (db\<lparr>proposals := rows\<rparr>)))"

text \<open>\<open>create\<close>; \<open>token\<close> is the result of \<open>secrets.token_hex(8)\<close>.\<close>

definition create ::
  "proposal_kind \<Rightarrow> string \<Rightarrow> json \<Rightarrow> string \<Rightarrow> string \<Rightarrow> string \<Rightarrow> int option \<Rightarrow> int \<Rightarrow> string \<Rightarrow>
   (gov_db, gov_error, GovernanceQueueRecord) call" where
  "create kind title bill bill_clvm_hex proposal_hash actor now clock token =
     txn_then
       (create_body kind title bill bill_clvm_hex proposal_hash actor (or_clock now clock)
          (''GOV-'' @ upper_ascii token))
       (\<lambda>proposal_id db. get db proposal_id)"

definition allowed_targets :: "proposal_state \<Rightarrow> proposal_state list" where
  "allowed_targets st =
     (case st of
        DRAFT \<Rightarrow> [READY, CANCELED]
      | READY \<Rightarrow> [ACTIVE, CANCELED]
      | ACTIVE \<Rightarrow> [EXECUTED, FAILED]
      | _ \<Rightarrow> [])"

definition stale_revision :: "int \<Rightarrow> int \<Rightarrow> gov_error" where
  "stale_revision expected current =
     GovernanceQueueConflict (''stale revision '' @ show_int expected @ ''; current '' @ show_int current)"

text \<open>The \<open>SET\<close> clause of the transition.\<close>

definition move_row ::
  "proposal_state \<Rightarrow> int \<Rightarrow> int \<Rightarrow> string option \<Rightarrow> string option \<Rightarrow> string option \<Rightarrow> gq_row \<Rightarrow> gq_row" where
  "move_row target revision timestamp activation_bundle_id proposal_coin_id completion_bundle_id r =
     (let activated_at = (if target = ACTIVE then Some timestamp else None);
          completed_at = (if target \<in> {EXECUTED, FAILED, CANCELED} then Some timestamp else None)
      in
      r\<lparr>gq_state := target, gq_revision := revision, gq_updated_at := timestamp,
        gq_activated_at := coalesce activated_at (gq_activated_at r),
        gq_completed_at := coalesce completed_at (gq_completed_at r),
        gq_activation_bundle_id := coalesce activation_bundle_id (gq_activation_bundle_id r),
        gq_proposal_coin_id := coalesce proposal_coin_id (gq_proposal_coin_id r),
        gq_completion_bundle_id := coalesce completion_bundle_id (gq_completion_bundle_id r)\<rparr>)"

definition transition_body ::
  "string \<Rightarrow> int \<Rightarrow> proposal_state \<Rightarrow> string \<Rightarrow> string option \<Rightarrow> string option \<Rightarrow> string option \<Rightarrow> int \<Rightarrow>
   (gov_db, gov_error, unit) body" where
  "transition_body proposal_id expected_revision target actor activation_bundle_id proposal_coin_id
     completion_bundle_id timestamp db =
     (case lookup gq_id proposal_id (proposals db) of
        None \<Rightarrow> Inl (GovernanceQueueNotFound proposal_id)
      | Some row \<Rightarrow>
          raise_if (gq_revision row \<noteq> expected_revision)
            (stale_revision expected_revision (gq_revision row))
          (raise_if (target \<notin> set (allowed_targets (gq_state row)))
            (GovernanceQueueConflict
               (''cannot transition '' @ state_str (gq_state row) @ '' to '' @ state_str target))
          (raise_if (target = READY \<and> lower (gq_created_by row) = lower actor)
            (GovernanceQueueConflict ''a different administrator must review this proposal'')
          (raise_if (target = ACTIVE \<and> (activation_bundle_id = None \<or> proposal_coin_id = None))
            (GovernanceQueueConflict ''ACTIVE requires a submitted bundle id and proposal coin id'')
          (raise_if (target \<in> {EXECUTED, FAILED} \<and> completion_bundle_id = None)
            (GovernanceQueueConflict (state_str target @ '' requires a chain completion bundle id''))
          (let revision = expected_revision + 1 in
           case sql_update gq_clash (\<lambda>r. gq_id r = proposal_id)
                  (move_row target revision timestamp activation_bundle_id proposal_coin_id
                     completion_bundle_id)
                  (proposals db) of
             None \<Rightarrow> Inl (GovernanceQueueConflict
                        ''another proposal is already active on the governance tracker'')
           | Some rows \<Rightarrow>
               Inr ((), write_audit proposal_id actor (''STATE_'' @ state_str target) revision
                          [(''previousState'', JStr (state_str (gq_state row))),
                           (''activationBundleId'', json_opt_str activation_bundle_id),
                           (''proposalCoinId'', json_opt_str proposal_coin_id),
                           (''completionBundleId'', json_opt_str completion_bundle_id)]
                          timestamp (db\<lparr>proposals := rows\<rparr>))))))))"

definition transition ::
  "string \<Rightarrow> int \<Rightarrow> proposal_state \<Rightarrow> string \<Rightarrow> string option \<Rightarrow> string option \<Rightarrow> string option \<Rightarrow>
   int option \<Rightarrow> int \<Rightarrow> (gov_db, gov_error, GovernanceQueueRecord) call" where
  "transition proposal_id expected_revision target actor activation_bundle_id proposal_coin_id
     completion_bundle_id now clock =
     txn_then
       (transition_body proposal_id expected_revision target actor activation_bundle_id
          proposal_coin_id completion_bundle_id (or_clock now clock))
       (\<lambda>_ db. get db proposal_id)"

definition add_signature_body ::
  "string \<Rightarrow> string \<Rightarrow> int \<Rightarrow> string \<Rightarrow> string \<Rightarrow> string \<Rightarrow> string \<Rightarrow> int \<Rightarrow>
   (gov_db, gov_error, GovernanceQueueSignature option) body" where
  "add_signature_body proposal_id action_id signer_slot signer_public_key message_hash signature' actor
     timestamp db =
     (case lookup gq_id proposal_id (proposals db) of
        None \<Rightarrow> Inl (GovernanceQueueNotFound proposal_id)
      | Some proposal \<Rightarrow>
          raise_if (gq_state proposal \<noteq> READY)
            (GovernanceQueueConflict ''only a reviewed proposal can collect publication approvals'')
          (case lookup sig_key (proposal_id, action_id) (signature_rows db) of
             Some candidate \<Rightarrow>
               raise_if (sg_signer_slot candidate \<noteq> signer_slot \<or>
                         lower (sg_signer_public_key candidate) \<noteq> lower signer_public_key \<or>
                         lower (sg_message_hash candidate) \<noteq> lower message_hash \<or>
                         lower (sg_signature candidate) \<noteq> lower signature')
                 (GovernanceQueueConflict ''a different signature is already stored for this action'')
               (Inr (Some candidate, db))
           | None \<Rightarrow>
               (case sql_insert sig_clash
                       \<lparr>sg_proposal_id = proposal_id, sg_action_id = action_id,
                        sg_signer_slot = signer_slot, sg_signer_public_key = lower signer_public_key,
                        sg_message_hash = lower message_hash, sg_signature = lower signature',
                        sg_signed_by = lower actor, sg_signed_at = timestamp\<rparr> (signature_rows db) of
                  None \<Rightarrow> Inl GovernanceQueueIntegrityError
                | Some rows \<Rightarrow>
                    Inr (None, write_audit proposal_id actor ''PUBLICATION_APPROVED''
                                 (gq_revision proposal)
                                 [(''actionId'', JStr action_id), (''signerSlot'', JInt signer_slot)]
                                 timestamp (db\<lparr>signature_rows := rows\<rparr>)))))"

definition add_signature ::
  "string \<Rightarrow> string \<Rightarrow> int \<Rightarrow> string \<Rightarrow> string \<Rightarrow> string \<Rightarrow> string \<Rightarrow> int option \<Rightarrow> int \<Rightarrow>
   (gov_db, gov_error, GovernanceQueueSignature) call" where
  "add_signature proposal_id action_id signer_slot signer_public_key message_hash signature' actor now
     clock db =
     (if signer_slot \<notin> {0, 1, 2}
      then (Inl (GovernanceQueueConflict ''administrator slot is invalid''), db)
      else
        txn_then
          (add_signature_body proposal_id action_id signer_slot signer_public_key message_hash
             signature' actor (or_clock now clock))
          (\<lambda>found db. case found of Some candidate \<Rightarrow> Inr candidate
                               | None \<Rightarrow> signature db proposal_id action_id) db)"

definition execution_row :: "int \<Rightarrow> int \<Rightarrow> string \<Rightarrow> string \<Rightarrow> gq_row \<Rightarrow> gq_row" where
  "execution_row revision timestamp execution_bundle_id output_json r =
     r\<lparr>gq_revision := revision, gq_updated_at := timestamp,
       gq_execution_bundle_id := Some (lower execution_bundle_id),
       gq_expected_output_coin_ids_json := Some output_json,
       gq_execution_submitted_at := Some timestamp\<rparr>"

definition record_execution_body ::
  "string \<Rightarrow> int \<Rightarrow> string \<Rightarrow> string list \<Rightarrow> string \<Rightarrow> int \<Rightarrow> (gov_db, gov_error, unit) body" where
  "record_execution_body proposal_id expected_revision execution_bundle_id expected_output_coin_ids
     actor timestamp db =
     (let output_json = canonical_json (json_strs expected_output_coin_ids) in
      case lookup gq_id proposal_id (proposals db) of
        None \<Rightarrow> Inl (GovernanceQueueNotFound proposal_id)
      | Some row \<Rightarrow>
          raise_if (gq_state row \<noteq> ACTIVE)
            (GovernanceQueueConflict ''only an active proposal can record execution'')
          (case gq_execution_bundle_id row of
             Some existing_bundle \<Rightarrow>
               raise_if (lower existing_bundle \<noteq> lower execution_bundle_id \<or>
                         gq_expected_output_coin_ids_json row \<noteq> Some output_json)
                 (GovernanceQueueConflict ''different execution evidence is already recorded'')
               (Inr ((), db))
           | None \<Rightarrow>
               raise_if (gq_revision row \<noteq> expected_revision)
                 (stale_revision expected_revision (gq_revision row))
               (let revision = expected_revision + 1 in
                case sql_update gq_clash (\<lambda>r. gq_id r = proposal_id)
                       (execution_row revision timestamp execution_bundle_id output_json)
                       (proposals db) of
                  None \<Rightarrow> Inl GovernanceQueueIntegrityError
                | Some rows \<Rightarrow>
                    Inr ((), write_audit proposal_id actor ''EXECUTION_SUBMITTED'' revision
                               [(''executionBundleId'', JStr (lower execution_bundle_id)),
                                (''expectedOutputCoinIds'', json_strs expected_output_coin_ids)]
                               timestamp (db\<lparr>proposals := rows\<rparr>)))))"

definition record_execution_submission ::
  "string \<Rightarrow> int \<Rightarrow> string \<Rightarrow> string list \<Rightarrow> string \<Rightarrow> int option \<Rightarrow> int \<Rightarrow>
   (gov_db, gov_error, GovernanceQueueRecord) call" where
  "record_execution_submission proposal_id expected_revision execution_bundle_id
     expected_output_coin_ids actor now clock db =
     (if execution_bundle_id = [] \<or> expected_output_coin_ids = []
      then (Inl (GovernanceQueueConflict ''execution submission requires bundle and output evidence''), db)
      else
        txn_then
          (record_execution_body proposal_id expected_revision execution_bundle_id
             expected_output_coin_ids actor (or_clock now clock))
          (\<lambda>_ db. get db proposal_id) db)"

definition publication_row :: "int \<Rightarrow> int \<Rightarrow> int \<Rightarrow> gq_row \<Rightarrow> gq_row" where
  "publication_row coadmin_slot voting_deadline timestamp r =
     r\<lparr>gq_publication_coadmin_slot := Some coadmin_slot,
       gq_publication_voting_deadline := Some voting_deadline, gq_updated_at := timestamp\<rparr>"

definition bind_publication_body ::
  "string \<Rightarrow> int \<Rightarrow> int \<Rightarrow> string \<Rightarrow> int \<Rightarrow> (gov_db, gov_error, unit) body" where
  "bind_publication_body proposal_id coadmin_slot voting_deadline actor timestamp db =
     (case lookup gq_id proposal_id (proposals db) of
        None \<Rightarrow> Inl (GovernanceQueueNotFound proposal_id)
      | Some row \<Rightarrow>
          raise_if (gq_state row \<noteq> READY)
            (GovernanceQueueConflict ''only a reviewed proposal can prepare publication'')
          (raise_if (gq_publication_coadmin_slot row \<noteq> None \<and>
                     gq_publication_coadmin_slot row \<noteq> Some coadmin_slot)
            (GovernanceQueueConflict ''publication coadministrator is already fixed'')
          (if gq_publication_coadmin_slot row \<noteq> None \<and> gq_publication_voting_deadline row \<noteq> None
           then Inr ((), db)
           else
             (case sql_update gq_clash (\<lambda>r. gq_id r = proposal_id)
                     (publication_row coadmin_slot voting_deadline timestamp)
                     (proposals db) of
                None \<Rightarrow> Inl GovernanceQueueIntegrityError
              | Some rows \<Rightarrow>
                  Inr ((), write_audit proposal_id actor ''PUBLICATION_PREPARED'' (gq_revision row)
                             [(''coadminSlot'', JInt coadmin_slot),
                              (''votingDeadline'', JInt voting_deadline)]
                             timestamp (db\<lparr>proposals := rows\<rparr>))))))"

definition bind_publication_coadmin ::
  "string \<Rightarrow> int \<Rightarrow> int \<Rightarrow> string \<Rightarrow> int option \<Rightarrow> int \<Rightarrow> (gov_db, gov_error, GovernanceQueueRecord) call" where
  "bind_publication_coadmin proposal_id coadmin_slot voting_deadline actor now clock db =
     (if coadmin_slot \<notin> {1, 2}
      then (Inl (GovernanceQueueConflict ''publication coadministrator is invalid''), db)
      else if voting_deadline \<le> or_clock now clock
      then (Inl (GovernanceQueueConflict ''publication voting deadline must be future''), db)
      else
        txn_then
          (bind_publication_body proposal_id coadmin_slot voting_deadline actor (or_clock now clock))
          (\<lambda>_ db. get db proposal_id) db)"

definition sale_row ::
  "int \<Rightarrow> int \<Rightarrow> string \<Rightarrow> string \<Rightarrow> string \<Rightarrow> string \<Rightarrow> int \<Rightarrow> int option \<Rightarrow> gq_row \<Rightarrow> gq_row" where
  "sale_row revision timestamp offer_id offer_bech32 sale_coin_id status confirmed_height spent_height r =
     r\<lparr>gq_revision := revision, gq_updated_at := timestamp,
       gq_sale_offer_id := Some (lower offer_id), gq_sale_offer_bech32 := Some offer_bech32,
       gq_sale_coin_id := Some (lower sale_coin_id), gq_sale_offer_status := Some status,
       gq_sale_offer_published_at := coalesce (gq_sale_offer_published_at r) (Some timestamp),
       gq_sale_offer_confirmed_height := Some confirmed_height,
       gq_sale_offer_spent_height := spent_height\<rparr>"

definition sale_offer_body ::
  "string \<Rightarrow> string \<Rightarrow> string \<Rightarrow> string \<Rightarrow> string \<Rightarrow> int \<Rightarrow> int option \<Rightarrow> string \<Rightarrow> int \<Rightarrow>
   (gov_db, gov_error, unit) body" where
  "sale_offer_body proposal_id offer_id offer_bech32 sale_coin_id status confirmed_height spent_height
     actor timestamp db =
     (case lookup gq_id proposal_id (proposals db) of
        None \<Rightarrow> Inl (GovernanceQueueNotFound proposal_id)
      | Some row \<Rightarrow>
          raise_if (gq_kind row \<noteq> SGT_SALE \<or> gq_state row \<notin> {ACTIVE, EXECUTED})
            (GovernanceQueueConflict ''sale offers belong only to active or executed SGT sales'')
          (raise_if (gq_sale_offer_id row \<noteq> None \<and>
                     (map_option lower (gq_sale_offer_id row) \<noteq> Some (lower offer_id) \<or>
                      gq_sale_offer_bech32 row \<noteq> Some offer_bech32 \<or>
                      map_option lower (gq_sale_coin_id row) \<noteq> Some (lower sale_coin_id)))
            (GovernanceQueueConflict ''different immutable sale offer evidence is already recorded'')
          (if gq_sale_offer_id row \<noteq> None \<and> gq_sale_offer_status row = Some status \<and>
              gq_sale_offer_confirmed_height row = Some confirmed_height \<and>
              gq_sale_offer_spent_height row = spent_height
           then Inr ((), db)
           else
             (let revision = gq_revision row + 1;
                  first_publication = (gq_sale_offer_id row = None)
              in
              case sql_update gq_clash (\<lambda>r. gq_id r = proposal_id)
                     (sale_row revision timestamp offer_id offer_bech32 sale_coin_id status
                        confirmed_height spent_height)
                     (proposals db) of
                None \<Rightarrow> Inl GovernanceQueueIntegrityError
              | Some rows \<Rightarrow>
                  Inr ((), write_audit proposal_id actor
                             (if first_publication then ''SALE_OFFER_PUBLISHED''
                              else ''SALE_OFFER_STATUS_UPDATED'') revision
                             [(''offerId'', JStr (lower offer_id)),
                              (''saleCoinId'', JStr (lower sale_coin_id)),
                              (''status'', JStr status),
                              (''confirmedHeight'', JInt confirmed_height),
                              (''spentHeight'', json_opt_int spent_height)]
                             timestamp (db\<lparr>proposals := rows\<rparr>))))))"

definition sale_statuses :: "string list" where
  "sale_statuses = [''AVAILABLE'', ''PENDING'', ''TAKEN'', ''EXPIRED'', ''RETURNED'']"

definition record_sale_offer_snapshot ::
  "string \<Rightarrow> string \<Rightarrow> string \<Rightarrow> string \<Rightarrow> string \<Rightarrow> int \<Rightarrow> int option \<Rightarrow> string \<Rightarrow> int option \<Rightarrow> int \<Rightarrow>
   (gov_db, gov_error, GovernanceQueueRecord) call" where
  "record_sale_offer_snapshot proposal_id offer_id offer_bech32 sale_coin_id status confirmed_height
     spent_height actor now clock db =
     (if \<not> startswith offer_id ''0x'' \<or> length offer_id \<noteq> 66
      then (Inl (GovernanceQueueConflict ''sale offer id must be 32-byte hex''), db)
      else if \<not> startswith sale_coin_id ''0x'' \<or> length sale_coin_id \<noteq> 66
      then (Inl (GovernanceQueueConflict ''sale coin id must be 32-byte hex''), db)
      else if \<not> startswith offer_bech32 ''offer1'' \<or> 2000000 < length offer_bech32
      then (Inl (GovernanceQueueConflict ''sale offer file is malformed or oversized''), db)
      else if status \<notin> set sale_statuses
      then (Inl (GovernanceQueueConflict ''sale offer status is invalid''), db)
      else if confirmed_height \<le> 0 \<or> (case spent_height of None \<Rightarrow> False | Some h \<Rightarrow> h \<le> 0)
      then (Inl (GovernanceQueueConflict ''sale offer chain heights are invalid''), db)
      else
        txn_then
          (sale_offer_body proposal_id offer_id offer_bech32 sale_coin_id status confirmed_height
             spent_height actor (or_clock now clock))
          (\<lambda>_ db. get db proposal_id) db)"

lemmas gov_bodies =
  create_body_def transition_body_def add_signature_body_def record_execution_body_def
  bind_publication_body_def sale_offer_body_def

lemmas gov_calls =
  create_def transition_def add_signature_def record_execution_submission_def
  bind_publication_coadmin_def record_sale_offer_snapshot_def

section \<open>Calls as steps\<close>

datatype gov_op =
    Create proposal_kind string json string string string "int option" int string
  | Transition string int proposal_state string "string option" "string option" "string option"
      "int option" int
  | AddSignature string string int string string string string "int option" int
  | RecordExecution string int string "string list" string "int option" int
  | BindPublication string int int string "int option" int
  | RecordSaleOffer string string string string string int "int option" string "int option" int

fun gov_step :: "gov_op \<Rightarrow> gov_db \<Rightarrow> gov_db" where
  "gov_step (Create kind title bill clvm hash actor now clock token) db =
     snd (create kind title bill clvm hash actor now clock token db)"
| "gov_step (Transition pid rv target actor ab pc cb now clock) db =
     snd (transition pid rv target actor ab pc cb now clock db)"
| "gov_step (AddSignature pid aid slot pk mh sg actor now clock) db =
     snd (add_signature pid aid slot pk mh sg actor now clock db)"
| "gov_step (RecordExecution pid rv b outs actor now clock) db =
     snd (record_execution_submission pid rv b outs actor now clock db)"
| "gov_step (BindPublication pid slot dl actor now clock) db =
     snd (bind_publication_coadmin pid slot dl actor now clock db)"
| "gov_step (RecordSaleOffer pid oid ob scid st ch sh actor now clock) db =
     snd (record_sale_offer_snapshot pid oid ob scid st ch sh actor now clock db)"

text \<open>The bill of a proposal is a Python dictionary.\<close>

fun gov_op_ok :: "gov_op \<Rightarrow> bool" where
  "gov_op_ok (Create kind title bill clvm hash actor now clock token) = json_ok bill"
| "gov_op_ok _ = True"

section \<open>The abstract queue\<close>

text \<open>
  What one successful call may do to one proposal: move it along the life cycle, attach its
  execution evidence, fix its publication terms, or record a snapshot of its sale offer.
\<close>

inductive gov_edit :: "string \<Rightarrow> string \<Rightarrow> gq_row \<Rightarrow> gq_row \<Rightarrow> bool" where
  move: "target \<in> set (allowed_targets (gq_state r)) \<Longrightarrow>
    (target = READY \<Longrightarrow> lower (gq_created_by r) \<noteq> lower actor) \<Longrightarrow>
    (target = ACTIVE \<Longrightarrow> ab \<noteq> None \<and> pc \<noteq> None) \<Longrightarrow>
    (target \<in> {EXECUTED, FAILED} \<Longrightarrow> cb \<noteq> None) \<Longrightarrow>
    gov_edit actor (''STATE_'' @ state_str target) r (move_row target (gq_revision r + 1) t ab pc cb r)"
| execution: "gq_state r = ACTIVE \<Longrightarrow> gq_execution_bundle_id r = None \<Longrightarrow> b \<noteq> [] \<Longrightarrow> outs \<noteq> [] \<Longrightarrow>
    gov_edit actor ''EXECUTION_SUBMITTED'' r
      (execution_row (gq_revision r + 1) t b (canonical_json (json_strs outs)) r)"
| publication: "gq_state r = READY \<Longrightarrow> slot \<in> {1, 2} \<Longrightarrow> t < deadline \<Longrightarrow>
    gq_publication_coadmin_slot r = None \<or> gq_publication_coadmin_slot r = Some slot \<Longrightarrow>
    gov_edit actor ''PUBLICATION_PREPARED'' r (publication_row slot deadline t r)"
| sale: "gq_kind r = SGT_SALE \<Longrightarrow> gq_state r \<in> {ACTIVE, EXECUTED} \<Longrightarrow> status \<in> set sale_statuses \<Longrightarrow>
    gq_sale_offer_id r = None \<or>
      (map_option lower (gq_sale_offer_id r) = Some (lower oid) \<and> gq_sale_offer_bech32 r = Some ob \<and>
       map_option lower (gq_sale_coin_id r) = Some (lower cid)) \<Longrightarrow>
    gov_edit actor
      (if gq_sale_offer_id r = None then ''SALE_OFFER_PUBLISHED'' else ''SALE_OFFER_STATUS_UPDATED'') r
      (sale_row (gq_revision r + 1) t oid ob cid status ch sh r)"

text \<open>A proposal as \<open>create\<close> files it.\<close>

definition fresh_proposal :: "string \<Rightarrow> gq_row \<Rightarrow> bool" where
  "fresh_proposal actor r \<longleftrightarrow>
     gq_state r = DRAFT \<and> gq_revision r = 1 \<and> gq_created_by r = lower actor \<and>
     (\<exists>bill. json_ok bill \<and> gq_bill_json r = canonical_json bill) \<and>
     gq_activated_at r = None \<and> gq_completed_at r = None \<and> gq_sale_coin_id r = None \<and>
     gq_publication_coadmin_slot r = None \<and>
     gq_execution_bundle_id r = None \<and> gq_expected_output_coin_ids_json r = None \<and>
     gq_execution_submitted_at r = None \<and> gq_sale_offer_id r = None"

definition audit_entry :: "nat \<Rightarrow> string \<Rightarrow> string \<Rightarrow> string \<Rightarrow> gq_audit \<Rightarrow> bool" where
  "audit_entry n pid actor action a \<longleftrightarrow>
     au_id a = n \<and> au_proposal_id a = pid \<and> au_actor a = lower actor \<and> au_action a = action"

definition next_audit_id :: "gov_db \<Rightarrow> nat" where
  "next_audit_id db = Suc (fold max (map au_id (audit db)) 0)"

text \<open>
  The abstract machine: a call changes nothing, files one new proposal, edits one proposal, or
  stores one new signature of a reviewed proposal; every change appends one audit entry.
\<close>

inductive gov_change :: "gov_db \<Rightarrow> gov_db \<Rightarrow> bool" where
  idle: "gov_change db db"
| opened: "sql_insert gq_clash r (proposals db) = Some rows \<Longrightarrow> fresh_proposal actor r \<Longrightarrow>
    audit_entry (next_audit_id db) (gq_id r) actor ''CREATED'' a \<Longrightarrow>
    gov_change db (db\<lparr>proposals := rows, audit := audit db @ [a]\<rparr>)"
| edited: "lookup gq_id pid (proposals db) = Some r \<Longrightarrow> gov_edit actor action r r' \<Longrightarrow>
    table_ok gq_clash (replace_row gq_id pid r' (proposals db)) \<Longrightarrow>
    audit_entry (next_audit_id db) pid actor action a \<Longrightarrow>
    gov_change db (db\<lparr>proposals := replace_row gq_id pid r' (proposals db), audit := audit db @ [a]\<rparr>)"
| signed: "lookup gq_id pid (proposals db) = Some r \<Longrightarrow> gq_state r = READY \<Longrightarrow>
    sql_insert sig_clash g (signature_rows db) = Some gs \<Longrightarrow> sg_proposal_id g = pid \<Longrightarrow>
    sg_signer_slot g \<in> {0, 1, 2} \<Longrightarrow>
    audit_entry (next_audit_id db) pid actor ''PUBLICATION_APPROVED'' a \<Longrightarrow>
    gov_change db (db\<lparr>signature_rows := gs, audit := audit db @ [a]\<rparr>)"

lemma write_audit_eq:
  obtains a where "write_audit pid actor action rv details t db = db\<lparr>audit := audit db @ [a]\<rparr>"
    and "audit_entry (next_audit_id db) pid actor action a"
  by (simp add: write_audit_def audit_entry_def next_audit_id_def)

lemma next_audit_id_frame [simp]:
  "next_audit_id (db\<lparr>proposals := p\<rparr>) = next_audit_id db"
  "next_audit_id (db\<lparr>signature_rows := g\<rparr>) = next_audit_id db"
  by (simp_all add: next_audit_id_def)

text \<open>An edit through \<open>sql_update\<close> followed by its audit entry is an abstract edit.\<close>

lemma change_edit:
  assumes "table_ok gq_clash (proposals db)" and "lookup gq_id pid (proposals db) = Some r"
    and "sql_update gq_clash (\<lambda>r. gq_id r = pid) f (proposals db) = Some rows"
    and "gov_edit actor action r (f r)"
  shows "gov_change db (write_audit pid actor action rv details t (db\<lparr>proposals := rows\<rparr>))"
proof -
  obtain a where a: "write_audit pid actor action rv details t (db\<lparr>proposals := rows\<rparr>)
      = (db\<lparr>proposals := rows\<rparr>)\<lparr>audit := audit db @ [a]\<rparr>" "audit_entry (next_audit_id db) pid actor action a"
    by (rule write_audit_eq [of pid actor action rv details t "db\<lparr>proposals := rows\<rparr>"]) simp
  note u = gq.update_replaces [OF assms(1-3)]
  have "gov_change db (db\<lparr>proposals := replace_row gq_id pid (f r) (proposals db), audit := audit db @ [a]\<rparr>)"
    using u a(2) by (intro edited [OF assms(2,4)]) simp_all
  then show ?thesis using a(1) u(1) by simp
qed

lemma create_change:
  assumes "json_ok bill"
    and "create_body kind title bill clvm hash actor t pid db = Inr (x, db')"
  shows "gov_change db db'"
proof -
  let ?r = "\<lparr>gq_id = pid, gq_kind = kind, gq_state = DRAFT, gq_title = strip title,
              gq_bill_json = canonical_json bill, gq_bill_clvm_hex = clvm,
              gq_proposal_hash = hash, gq_revision = 1,
              gq_queue_position = max_position (proposals db) + 1,
              gq_created_by = lower actor, gq_created_at = t, gq_updated_at = t,
              gq_activated_at = None, gq_completed_at = None, gq_activation_bundle_id = None,
              gq_proposal_coin_id = None, gq_completion_bundle_id = None,
              gq_publication_coadmin_slot = None, gq_publication_voting_deadline = None,
              gq_execution_bundle_id = None, gq_expected_output_coin_ids_json = None,
              gq_execution_submitted_at = None, gq_sale_offer_id = None,
              gq_sale_offer_bech32 = None, gq_sale_coin_id = None, gq_sale_offer_status = None,
              gq_sale_offer_published_at = None, gq_sale_offer_confirmed_height = None,
              gq_sale_offer_spent_height = None\<rparr>"
  from assms(2) obtain rows where rows: "sql_insert gq_clash ?r (proposals db) = Some rows"
    and db': "db' = write_audit pid actor ''CREATED'' 1 [] t (db\<lparr>proposals := rows\<rparr>)"
    by (auto simp: create_body_def Let_def split: option.splits)
  obtain a where a: "db' = db\<lparr>proposals := rows, audit := audit db @ [a]\<rparr>"
      "audit_entry (next_audit_id db) pid actor ''CREATED'' a"
    unfolding db'
    by (rule write_audit_eq [of pid actor "''CREATED''" 1 "[]" t "db\<lparr>proposals := rows\<rparr>"]) simp
  show ?thesis
    unfolding a(1)
  proof (rule opened [OF rows])
    show "fresh_proposal actor ?r"
      using assms(1) by (auto simp: fresh_proposal_def)
  qed (use a(2) in simp)
qed

lemma transition_change:
  assumes "table_ok gq_clash (proposals db)"
    and "transition_body pid rv target actor ab pc cb t db = Inr (x, db')"
  shows "gov_change db db'"
proof -
  from assms(2) obtain r where r: "lookup gq_id pid (proposals db) = Some r"
    by (auto simp: transition_body_def split: option.splits)
  with assms(2) have "gov_edit actor (''STATE_'' @ state_str target) r (move_row target (gq_revision r + 1) t ab pc cb r)"
    by (intro gov_edit.move) (auto simp: transition_body_def)
  note edit = change_edit [where f = "move_row target (gq_revision r + 1) t ab pc cb", OF assms(1) r _ this]
  from assms(2) r obtain rows details where
    "sql_update gq_clash (\<lambda>r. gq_id r = pid) (move_row target (gq_revision r + 1) t ab pc cb) (proposals db)
       = Some rows"
    "db' = write_audit pid actor (''STATE_'' @ state_str target) (gq_revision r + 1) details t
       (db\<lparr>proposals := rows\<rparr>)"
    by (auto simp: transition_body_def Let_def split: option.splits)
  then show ?thesis using edit by simp
qed

lemma execution_change:
  assumes "table_ok gq_clash (proposals db)" and "b \<noteq> []" and "outs \<noteq> []"
    and "record_execution_body pid rv b outs actor t db = Inr (x, db')"
  shows "gov_change db db'"
proof -
  from assms(4) obtain r where r: "lookup gq_id pid (proposals db) = Some r"
    by (auto simp: record_execution_body_def Let_def split: option.splits)
  show ?thesis
    using assms(2-4) r
    by (auto simp: record_execution_body_def Let_def split: option.splits
        intro!: change_edit [OF assms(1) r] gov_edit.execution gov_change.idle)
qed

lemma publication_change:
  assumes "table_ok gq_clash (proposals db)" and slot: "slot \<in> {1, 2}" and "t < deadline"
    and "bind_publication_body pid slot deadline actor t db = Inr (x, db')"
  shows "gov_change db db'"
proof -
  from assms(4) obtain r where r: "lookup gq_id pid (proposals db) = Some r"
    by (auto simp: bind_publication_body_def split: option.splits)
  with assms(4) have g: "gq_state r = READY"
      "gq_publication_coadmin_slot r = None \<or> gq_publication_coadmin_slot r = Some slot"
    by (auto simp: bind_publication_body_def)
  show ?thesis
  proof (cases "db' = db")
    case True
    then show ?thesis by (simp add: idle)
  next
    case False
    with assms(4) r obtain rows where rows:
      "sql_update gq_clash (\<lambda>r. gq_id r = pid) (publication_row slot deadline t) (proposals db)
         = Some rows"
      and db': "\<exists>rv details. db' = write_audit pid actor ''PUBLICATION_PREPARED'' rv details t
         (db\<lparr>proposals := rows\<rparr>)"
      by (auto simp: bind_publication_body_def split: option.splits if_splits)
    show ?thesis
      using db' change_edit [OF assms(1) r rows gov_edit.publication [OF g(1) slot assms(3) g(2)]]
      by blast
  qed
qed

lemma sale_change:
  assumes "table_ok gq_clash (proposals db)" and "status \<in> set sale_statuses"
    and "sale_offer_body pid oid ob cid status ch sh actor t db = Inr (x, db')"
  shows "gov_change db db'"
proof -
  from assms(3) obtain r where r: "lookup gq_id pid (proposals db) = Some r"
    by (auto simp: sale_offer_body_def split: option.splits)
  show ?thesis
  proof (cases "db' = db")
    case True
    then show ?thesis by (simp add: idle)
  next
    case False
    with assms(2,3) r obtain rows where rows:
      "sql_update gq_clash (\<lambda>r. gq_id r = pid)
         (sale_row (gq_revision r + 1) t oid ob cid status ch sh) (proposals db) = Some rows"
      and db': "\<exists>rv details. db' = write_audit pid actor
         (if gq_sale_offer_id r = None then ''SALE_OFFER_PUBLISHED'' else ''SALE_OFFER_STATUS_UPDATED'')
         rv details t (db\<lparr>proposals := rows\<rparr>)"
      by (auto simp: sale_offer_body_def Let_def split: option.splits if_splits)
    from assms(3) r have g: "gq_kind r = SGT_SALE" "gq_state r \<in> {ACTIVE, EXECUTED}"
      "gq_sale_offer_id r = None \<or>
        (map_option lower (gq_sale_offer_id r) = Some (lower oid) \<and> gq_sale_offer_bech32 r = Some ob \<and>
         map_option lower (gq_sale_coin_id r) = Some (lower cid))"
      by (auto simp: sale_offer_body_def)
    show ?thesis
      using db' change_edit [OF assms(1) r rows gov_edit.sale [OF g(1,2) assms(2) g(3)]] by blast
  qed
qed

lemma signature_change:
  assumes "slot \<in> {0, 1, 2}"
    and "add_signature_body pid aid slot pk mh sg actor t db = Inr (x, db')"
  shows "gov_change db db'"
proof -
  from assms(2) obtain r where r: "lookup gq_id pid (proposals db) = Some r" "gq_state r = READY"
    by (auto simp: add_signature_body_def split: option.splits)
  show ?thesis
  proof (cases "lookup sig_key (pid, aid) (signature_rows db)")
    case (Some c)
    with assms(2) r show ?thesis by (auto simp: add_signature_body_def intro: idle)
  next
    case None
    with assms(2) r obtain g gs details where g: "sql_insert sig_clash g (signature_rows db) = Some gs"
        "sg_proposal_id g = pid" "sg_signer_slot g = slot"
        "db' = write_audit pid actor ''PUBLICATION_APPROVED'' (gq_revision r) details t
           (db\<lparr>signature_rows := gs\<rparr>)"
      by (auto simp: add_signature_body_def split: option.splits)
    obtain a where a: "db' = db\<lparr>signature_rows := gs, audit := audit db @ [a]\<rparr>"
        "audit_entry (next_audit_id db) pid actor ''PUBLICATION_APPROVED'' a"
      unfolding g(4)
      by (rule write_audit_eq [of pid actor "''PUBLICATION_APPROVED''" "gq_revision r" details t
            "db\<lparr>signature_rows := gs\<rparr>"]) simp
    show ?thesis
      unfolding a(1) using g assms(1) a(2) by (intro signed [OF r]) auto
  qed
qed

lemmas gov_changes =
  create_change transition_change execution_change publication_change sale_change signature_change

lemma txn_then_change:
  assumes "\<And>x db'. body db = Inr (x, db') \<Longrightarrow> gov_change db db'"
  shows "gov_change db (snd (txn_then body k db))"
  by (rule txn_then_keeps) (auto intro: idle assms)

lemma gov_step_change:
  assumes ok: "table_ok gq_clash (proposals db)" and "gov_op_ok op"
  shows "gov_change db (gov_step op db)"
proof (cases op)
  case (Create kind title bill clvm hash actor now clock token)
  with assms(2) have "json_ok bill" by simp
  with Create show ?thesis
    by (simp add: create_def) (rule txn_then_change, rule create_change)
next
  case (Transition pid rv target actor ab pc cb now clock)
  then show ?thesis
    by (simp add: transition_def) (rule txn_then_change, rule transition_change [OF ok])
next
  case (AddSignature pid aid slot pk mh sg actor now clock)
  show ?thesis
  proof (cases "slot \<in> {0, 1, 2}")
    case True
    with AddSignature show ?thesis
      by (simp only: add_signature_def gov_step.simps not_True_eq_False if_False)
        (rule txn_then_change, rule signature_change)
  qed (simp add: AddSignature add_signature_def idle)
next
  case (RecordExecution pid rv b outs actor now clock)
  show ?thesis
  proof (cases "b = [] \<or> outs = []")
    case False
    with RecordExecution show ?thesis
      by (simp add: record_execution_submission_def)
        (rule txn_then_change, rule execution_change [OF ok], simp_all)
  qed (auto simp: RecordExecution record_execution_submission_def idle)
next
  case (BindPublication pid slot dl actor now clock)
  show ?thesis
  proof (cases "slot \<in> {1, 2} \<and> or_clock now clock < dl")
    case True
    then have "\<not> dl \<le> or_clock now clock" by simp
    with True BindPublication show ?thesis
      by (simp only: bind_publication_coadmin_def gov_step.simps not_True_eq_False if_False)
        (rule txn_then_change, rule publication_change [OF ok], simp_all)
  qed (auto simp: BindPublication bind_publication_coadmin_def idle)
next
  case (RecordSaleOffer pid oid ob scid st ch sh actor now clock)
  show ?thesis
  proof (cases "st \<in> set sale_statuses")
    case True
    have "gov_change db (snd (txn_then
        (sale_offer_body pid oid ob scid st ch sh actor (or_clock now clock)) (\<lambda>_ db. get db pid) db))"
      by (rule txn_then_change, rule sale_change [OF ok True])
    with RecordSaleOffer show ?thesis
      by (simp add: record_sale_offer_snapshot_def idle)
  qed (simp add: RecordSaleOffer record_sale_offer_snapshot_def idle)
qed

section \<open>Invariant\<close>

inductive lifecycle_edge :: "proposal_state \<Rightarrow> proposal_state \<Rightarrow> bool" where
  "lifecycle_edge DRAFT READY"
| "lifecycle_edge DRAFT CANCELED"
| "lifecycle_edge READY ACTIVE"
| "lifecycle_edge READY CANCELED"
| "lifecycle_edge ACTIVE EXECUTED"
| "lifecycle_edge ACTIVE FAILED"

inductive_simps lifecycle_edge_from [simp]:
  "lifecycle_edge DRAFT st" "lifecycle_edge READY st" "lifecycle_edge ACTIVE st"
  "lifecycle_edge EXECUTED st" "lifecycle_edge FAILED st" "lifecycle_edge CANCELED st"

lemma allowed_iff_edge: "target \<in> set (allowed_targets st) \<longleftrightarrow> lifecycle_edge st target"
  by (cases st) (auto simp: allowed_targets_def)

lemma lifecycle_terminal:
  "lifecycle_edge\<^sup>*\<^sup>* st st' \<Longrightarrow> st \<in> {EXECUTED, FAILED, CANCELED} \<Longrightarrow> st' = st"
  by (auto elim: converse_rtranclpE)

text \<open>Where each column of a row is set, by the state of the proposal.\<close>

definition row_wf :: "gq_row \<Rightarrow> bool" where
  "row_wf r \<longleftrightarrow>
     1 \<le> gq_revision r \<and> is_lower (gq_created_by r) \<and>
     (\<exists>bill. json_ok bill \<and> gq_bill_json r = canonical_json bill) \<and>
     (gq_activated_at r \<noteq> None \<longleftrightarrow> gq_state r \<in> {ACTIVE, EXECUTED, FAILED}) \<and>
     (gq_state r \<in> {ACTIVE, EXECUTED, FAILED} \<longrightarrow>
        gq_activation_bundle_id r \<noteq> None \<and> gq_proposal_coin_id r \<noteq> None) \<and>
     (gq_completed_at r \<noteq> None \<longleftrightarrow> gq_state r \<in> {EXECUTED, FAILED, CANCELED}) \<and>
     (gq_state r \<in> {EXECUTED, FAILED} \<longrightarrow> gq_completion_bundle_id r \<noteq> None) \<and>
     (gq_execution_bundle_id r \<noteq> None \<longrightarrow> gq_state r \<in> {ACTIVE, EXECUTED, FAILED}) \<and>
     (gq_execution_bundle_id r \<noteq> None \<longleftrightarrow> gq_expected_output_coin_ids_json r \<noteq> None) \<and>
     (\<forall>j. gq_expected_output_coin_ids_json r = Some j \<longrightarrow>
        (\<exists>outs. outs \<noteq> [] \<and> j = canonical_json (json_strs outs))) \<and>
     (gq_sale_offer_id r \<noteq> None \<longrightarrow>
        gq_kind r = SGT_SALE \<and> gq_state r \<in> {ACTIVE, EXECUTED, FAILED} \<and>
        gq_sale_offer_bech32 r \<noteq> None \<and> gq_sale_coin_id r \<noteq> None \<and>
        gq_sale_offer_confirmed_height r \<noteq> None) \<and>
     pred_option is_lower (gq_sale_offer_id r) \<and> pred_option is_lower (gq_sale_coin_id r) \<and>
     gq_publication_coadmin_slot r \<in> {None, Some 1, Some 2}"

text \<open>What no call may undo in a proposal.\<close>

definition fixed :: "'a option \<Rightarrow> 'a option \<Rightarrow> bool" where
  "fixed a b \<longleftrightarrow> a = None \<or> b = a"

lemma fixed_refl [simp]: "fixed a a"
  by (simp add: fixed_def)

lemma fixed_trans: "fixed a b \<Longrightarrow> fixed b c \<Longrightarrow> fixed a c"
  by (auto simp: fixed_def)

definition row_evolves :: "gq_row \<Rightarrow> gq_row \<Rightarrow> bool" where
  "row_evolves r r' \<longleftrightarrow>
     (gq_id r' = gq_id r \<and> gq_kind r' = gq_kind r \<and> gq_bill_json r' = gq_bill_json r \<and>
      gq_bill_clvm_hex r' = gq_bill_clvm_hex r \<and> gq_proposal_hash r' = gq_proposal_hash r \<and>
      gq_created_by r' = gq_created_by r) \<and>
     lifecycle_edge\<^sup>*\<^sup>* (gq_state r) (gq_state r') \<and> gq_revision r \<le> gq_revision r' \<and>
     fixed (gq_activated_at r) (gq_activated_at r') \<and>
     fixed (gq_completed_at r) (gq_completed_at r') \<and>
     fixed (gq_execution_bundle_id r) (gq_execution_bundle_id r') \<and>
     fixed (gq_expected_output_coin_ids_json r) (gq_expected_output_coin_ids_json r') \<and>
     fixed (gq_sale_offer_id r) (gq_sale_offer_id r') \<and>
     fixed (gq_publication_coadmin_slot r) (gq_publication_coadmin_slot r') \<and>
     (gq_sale_offer_id r \<noteq> None \<longrightarrow>
        gq_sale_offer_bech32 r' = gq_sale_offer_bech32 r \<and>
        gq_sale_coin_id r' = gq_sale_coin_id r)"

lemma row_evolves_refl [simp]: "row_evolves r r"
  by (simp add: row_evolves_def)

lemma row_evolves_trans:
  assumes "row_evolves r s" and "row_evolves s t"
  shows "row_evolves r t"
  using assms unfolding row_evolves_def
  by (intro conjI) (auto intro: fixed_trans rtranclp_trans, auto simp: fixed_def)

lemma fresh_wf: "fresh_proposal actor r \<Longrightarrow> row_wf r"
  by (auto simp: fresh_proposal_def row_wf_def)

lemmas edit_rows = move_row_def execution_row_def publication_row_def sale_row_def

lemma move_wf:
  assumes "row_wf r" and "target \<in> set (allowed_targets (gq_state r))"
    and "target = ACTIVE \<Longrightarrow> ab \<noteq> None \<and> pc \<noteq> None"
    and "target \<in> {EXECUTED, FAILED} \<Longrightarrow> cb \<noteq> None"
  shows "row_wf (move_row target (gq_revision r + 1) t ab pc cb r)"
    and "row_evolves r (move_row target (gq_revision r + 1) t ab pc cb r)"
proof -
  from assms(2) have e: "lifecycle_edge (gq_state r) target"
    by (simp add: allowed_iff_edge)
  then show "row_wf (move_row target (gq_revision r + 1) t ab pc cb r)"
    using assms(1,3,4)
    by (cases "gq_state r") (auto simp: move_row_def row_wf_def coalesce_def split: option.splits)
  show "row_evolves r (move_row target (gq_revision r + 1) t ab pc cb r)"
    using assms(1) e r_into_rtranclp [of lifecycle_edge, OF e]
    by (cases "gq_state r") (auto simp: move_row_def row_wf_def row_evolves_def fixed_def)
qed

lemma edit_wf: "gov_edit actor action r r' \<Longrightarrow> row_wf r \<Longrightarrow> row_wf r' \<and> row_evolves r r'"
proof (induction rule: gov_edit.induct)
  case (move target r actor ab pc cb t)
  then show ?case by (auto intro: move_wf)
next
  case (execution r b outs actor t)
  then have "row_wf (execution_row (gq_revision r + 1) t b (canonical_json (json_strs outs)) r)"
    unfolding row_wf_def execution_row_def by (simp; blast)
  moreover have "row_evolves r (execution_row (gq_revision r + 1) t b (canonical_json (json_strs outs)) r)"
    using execution unfolding row_wf_def row_evolves_def execution_row_def by (simp add: fixed_def)
  ultimately show ?case ..
next
  case (publication r slot t deadline actor)
  have "row_wf (publication_row slot deadline t r)"
    using publication unfolding row_wf_def publication_row_def by (simp; blast)
  moreover have "row_evolves r (publication_row slot deadline t r)"
    using publication(4) unfolding row_evolves_def publication_row_def by (auto simp: fixed_def)
  ultimately show ?case ..
next
  case (sale r status oid ob cid actor t ch sh)
  have "row_wf (sale_row (gq_revision r + 1) t oid ob cid status ch sh r)"
    using sale unfolding row_wf_def sale_row_def by (simp; blast)
  moreover have "row_evolves r (sale_row (gq_revision r + 1) t oid ob cid status ch sh r)"
  proof -
    have "gq_sale_offer_id r = None \<or> (gq_sale_offer_id r = Some (lower oid) \<and>
        gq_sale_offer_bech32 r = Some ob \<and> gq_sale_coin_id r = Some (lower cid))"
      using sale(4)
    proof
      assume m: "map_option lower (gq_sale_offer_id r) = Some (lower oid) \<and>
        gq_sale_offer_bech32 r = Some ob \<and> map_option lower (gq_sale_coin_id r) = Some (lower cid)"
      then obtain z za where z: "gq_sale_offer_id r = Some z" "lower z = lower oid"
          "gq_sale_coin_id r = Some za" "lower za = lower cid"
        by (auto simp: map_option_eq_Some)
      have "is_lower z" "is_lower za"
        using sale(5) by (simp_all add: row_wf_def z)
      then have "z = lower oid" "za = lower cid"
        using z by (blast intro: is_lower_eqD)+
      with z m show ?thesis by simp
    qed simp
    then show ?thesis
      unfolding row_evolves_def sale_row_def by (auto simp: fixed_def)
  qed
  ultimately show ?case ..
qed

text \<open>A proposal past review has an audit entry of a second administrator.\<close>

definition reviewed :: "gov_db \<Rightarrow> gq_row \<Rightarrow> bool" where
  "reviewed db r \<longleftrightarrow>
     (\<exists>a \<in> set (audit db). au_proposal_id a = gq_id r \<and> au_action a = ''STATE_READY'' \<and>
        au_actor a \<noteq> gq_created_by r)"

definition past_review :: "proposal_state \<Rightarrow> bool" where
  "past_review st \<longleftrightarrow> st \<in> {READY, ACTIVE, EXECUTED, FAILED}"

definition gov_inv :: "gov_db \<Rightarrow> bool" where
  "gov_inv db \<longleftrightarrow>
     table_ok gq_clash (proposals db) \<and> table_ok sig_clash (signature_rows db) \<and>
     list_all row_wf (proposals db) \<and>
     list_all (\<lambda>r. past_review (gq_state r) \<longrightarrow> reviewed db r) (proposals db) \<and>
     list_all (\<lambda>g. sg_signer_slot g \<in> {0, 1, 2} \<and>
        lookup gq_id (sg_proposal_id g) (proposals db) \<noteq> None) (signature_rows db) \<and>
     map au_id (audit db) = [1..<Suc (length (audit db))]"

lemma gov_inv_empty [simp]: "gov_inv empty_gov_db"
  by (simp add: gov_inv_def empty_gov_db_def)

definition gov_evolves :: "gov_db \<Rightarrow> gov_db \<Rightarrow> bool" where
  "gov_evolves db db' \<longleftrightarrow>
     (\<forall>pid r. lookup gq_id pid (proposals db) = Some r \<longrightarrow>
        (\<exists>r'. lookup gq_id pid (proposals db') = Some r' \<and> row_evolves r r')) \<and>
     prefix (signature_rows db) (signature_rows db') \<and> prefix (audit db) (audit db')"

lemma gov_evolves_refl [simp]: "gov_evolves db db"
  by (auto simp: gov_evolves_def)

lemma gov_evolves_trans: "gov_evolves a b \<Longrightarrow> gov_evolves b c \<Longrightarrow> gov_evolves a c"
  unfolding gov_evolves_def by (meson row_evolves_trans prefix_order.trans)

lemma next_audit_id: "map au_id (audit db) = [1..<Suc (length (audit db))] \<Longrightarrow>
  next_audit_id db = Suc (length (audit db))"
proof -
  have "fold max [1..<Suc n] 0 = n" for n
    by (induction n) simp_all
  then show "map au_id (audit db) = [1..<Suc (length (audit db))] \<Longrightarrow>
      next_audit_id db = Suc (length (audit db))"
    by (simp only: next_audit_id_def)
qed

lemma reviewed_mono: "reviewed db r \<Longrightarrow> set (audit db) \<subseteq> set (audit db') \<Longrightarrow> reviewed db' r"
  by (auto simp: reviewed_def)

lemma reviewed_row: "gq_id r' = gq_id r \<Longrightarrow> gq_created_by r' = gq_created_by r \<Longrightarrow>
  reviewed db r' = reviewed db r"
  by (simp add: reviewed_def)

text \<open>The one edit that takes a proposal past review leaves the entry that shows it.\<close>

lemma edit_review:
  assumes "gov_edit actor action r r'" and "row_wf r" and "past_review (gq_state r')"
  shows "past_review (gq_state r) \<or> action = ''STATE_READY'' \<and> lower actor \<noteq> gq_created_by r"
  using assms
proof (induction rule: gov_edit.induct)
  case (move target r actor ab pc cb t)
  then show ?case
    by (cases "gq_state r") (auto simp: move_row_def allowed_iff_edge past_review_def row_wf_def is_lower_def)
qed (simp_all add: execution_row_def publication_row_def sale_row_def past_review_def)

lemma change_inv: "gov_change db db' \<Longrightarrow> gov_inv db \<Longrightarrow> gov_inv db'"
proof (induction rule: gov_change.induct)
  case (opened r db rows actor a)
  then have wf: "row_wf r" and st: "gq_state r = DRAFT"
    by (auto simp: fresh_wf) (simp add: fresh_proposal_def)
  let ?db' = "db\<lparr>proposals := rows, audit := audit db @ [a]\<rparr>"
  have "list_all (\<lambda>r. past_review (gq_state r) \<longrightarrow> reviewed ?db' r) rows"
    using opened st unfolding gov_inv_def
    by (auto simp: list_all_iff sql_insert_Some past_review_def intro: reviewed_mono)
  moreover have "list_all (\<lambda>g. sg_signer_slot g \<in> {0, 1, 2} \<and>
      lookup gq_id (sg_proposal_id g) rows \<noteq> None) (signature_rows db)"
    using opened unfolding gov_inv_def by (auto simp: list_all_iff gq.lookup_insert)
  ultimately show ?case
    using opened wf next_audit_id [of db] unfolding gov_inv_def
    by (auto simp: list_all_insert audit_entry_def intro: gq.ok_insert)
next
  case (edited pid db r actor action r' a)
  let ?rows = "replace_row gq_id pid r' (proposals db)"
  let ?db' = "db\<lparr>proposals := ?rows, audit := audit db @ [a]\<rparr>"
  have rm: "r \<in> set (proposals db)" "gq_id r = pid"
    using edited(1) by (auto dest: lookup_Some_D)
  then have wf: "row_wf r" and rv: "past_review (gq_state r) \<Longrightarrow> reviewed db r"
    using edited.prems by (auto simp: gov_inv_def list_all_iff)
  have r': "row_wf r'" "row_evolves r r'"
    using edit_wf [OF edited(2) wf] by auto
  then have same: "gq_id r' = pid" "gq_created_by r' = gq_created_by r"
    using rm by (simp_all add: row_evolves_def)
  have "past_review (gq_state r') \<Longrightarrow> reviewed ?db' r'"
    using edit_review [OF edited(2) wf] rv reviewed_mono [of db r ?db'] reviewed_row [of r' r]
      edited(4) same rm by (auto simp: reviewed_def audit_entry_def)
  then have "list_all (\<lambda>r. past_review (gq_state r) \<longrightarrow> reviewed ?db' r) ?rows"
    using edited.prems unfolding gov_inv_def list_all_iff
    by (auto dest!: replace_row_mem intro: reviewed_mono)
  moreover have "list_all (\<lambda>g. sg_signer_slot g \<in> {0, 1, 2} \<and>
      lookup gq_id (sg_proposal_id g) ?rows \<noteq> None) (signature_rows db)"
    using edited.prems unfolding gov_inv_def
    by (auto simp: list_all_iff gq.lookup_replace [OF same(1)])
  moreover have "list_all row_wf ?rows"
    using edited.prems r' unfolding gov_inv_def list_all_iff by (auto dest!: replace_row_mem)
  ultimately show ?case
    using edited next_audit_id [of db] unfolding gov_inv_def
    by (auto simp: audit_entry_def)
next
  case (signed pid db r g gs actor a)
  have "list_all (\<lambda>r. past_review (gq_state r) \<longrightarrow>
      reviewed (db\<lparr>signature_rows := gs, audit := audit db @ [a]\<rparr>) r) (proposals db)"
    using signed.prems unfolding gov_inv_def list_all_iff by (auto intro: reviewed_mono)
  then show ?case
    using signed next_audit_id [of db] unfolding gov_inv_def
    by (auto simp: list_all_insert audit_entry_def intro: sigt.ok_insert)
qed simp

lemma change_evolves: "gov_change db db' \<Longrightarrow> gov_inv db \<Longrightarrow> gov_evolves db db'"
proof (induction rule: gov_change.induct)
  case (edited pid db r actor action r' a)
  have "r \<in> set (proposals db)" "gq_id r = pid"
    using edited(1) by (auto dest: lookup_Some_D)
  then have r': "row_evolves r r'" "gq_id r' = pid"
    using edited edit_wf [OF edited(2)] by (auto simp: gov_inv_def list_all_iff row_evolves_def)
  then show ?case
    using edited(1) by (auto simp: gov_evolves_def gq.lookup_replace)
qed (auto simp: gov_evolves_def sql_insert_Some lookup_append)

interpretation gov: store gov_step gov_inv gov_op_ok
  by unfold_locales (rule change_inv, rule gov_step_change, auto simp: gov_inv_def)

lemma gov_run_evolves:
  assumes "gov_inv db" and "list_all gov_op_ok ops"
  shows "gov_evolves db (run gov_step ops db)"
proof (rule gov.run_mono [OF _ _ _ assms])
  show "gov_evolves db (gov_step op db)" if "gov_inv db" "gov_op_ok op" for op db
    using that by (intro change_evolves gov_step_change) (auto simp: gov_inv_def)
  show "reflp gov_evolves" by (simp add: reflp_def)
  show "transp gov_evolves" by (auto simp: transp_def intro: gov_evolves_trans)
qed

lemma gov_run_inv: "list_all gov_op_ok ops \<Longrightarrow> gov_inv (run gov_step ops empty_gov_db)"
  by (rule gov.run_inv) simp_all

section \<open>Properties\<close>

lemma gov_run_table: "list_all gov_op_ok ops \<Longrightarrow> table_ok gq_clash (proposals (run gov_step ops empty_gov_db))"
  using gov_run_inv [of ops] by (simp add: gov_inv_def)

lemma stored_strs_None [simp]: "stored_strs None = Some []"
  unfolding stored_strs_def by code_simp

lemma stored_strs_json [simp]: "stored_strs (Some (canonical_json (json_strs outs))) = Some outs"
proof -
  have "loads (canonical_json (json_strs outs)) = Some (json_strs outs)"
    by (simp add: canonical.dec_enc)
  moreover have "canonical_json (json_strs outs) \<noteq> []"
    by (simp add: canonical_json_def json_strs_def)
  ultimately show ?thesis
    by (simp add: stored_strs_def json_strs_def list_all_iff comp_def)
qed

text \<open>What the decoded record of a row shows.\<close>

definition shows_row :: "gq_row \<Rightarrow> GovernanceQueueRecord \<Rightarrow> bool" where
  "shows_row r v \<longleftrightarrow>
     gr_id v = gq_id r \<and> gr_kind v = gq_kind r \<and> gr_state v = gq_state r \<and>
     gr_revision v = gq_revision r \<and> gr_proposal_hash v = gq_proposal_hash r \<and>
     gr_execution_bundle_id v = gq_execution_bundle_id r \<and>
     gq_bill_json r = canonical_json (gr_bill v) \<and>
     gq_expected_output_coin_ids_json r =
       (if gq_execution_bundle_id r = None then None
        else Some (canonical_json (json_strs (gr_expected_output_coin_ids v))))"

lemma row_wf_bill: "row_wf r \<Longrightarrow> \<exists>bill. json_ok bill \<and> gq_bill_json r = canonical_json bill"
  unfolding row_wf_def by (elim conjE)

lemma row_wf_outs:
  "row_wf r \<Longrightarrow> gq_execution_bundle_id r \<noteq> None \<longleftrightarrow> gq_expected_output_coin_ids_json r \<noteq> None"
  "row_wf r \<Longrightarrow> gq_expected_output_coin_ids_json r = Some j \<Longrightarrow>
     \<exists>outs. outs \<noteq> [] \<and> j = canonical_json (json_strs outs)"
  unfolding row_wf_def by (elim conjE, assumption) (elim conjE, drule spec, drule mp, assumption+)

lemma record_total: "row_wf r \<Longrightarrow> \<exists>v. gov_record r = Inr v \<and> shows_row r v"
proof -
  assume wf: "row_wf r"
  then obtain bill where bill: "json_ok bill" "gq_bill_json r = canonical_json bill"
    using row_wf_bill by blast
  obtain outs where outs: "stored_strs (gq_expected_output_coin_ids_json r) = Some outs"
      "gq_expected_output_coin_ids_json r =
         (if gq_execution_bundle_id r = None then None else Some (canonical_json (json_strs outs)))"
  proof (cases "gq_expected_output_coin_ids_json r")
    case None
    moreover from this have "gq_execution_bundle_id r = None" using row_wf_outs(1) [OF wf] by simp
    ultimately show ?thesis using that [of "[]"] by simp
  next
    case (Some j)
    moreover from this have "gq_execution_bundle_id r \<noteq> None" using row_wf_outs(1) [OF wf] by simp
    moreover from Some wf obtain os where "j = canonical_json (json_strs os)"
      using row_wf_outs(2) by blast
    ultimately show ?thesis using that [of os] by simp
  qed
  show ?thesis
    using outs by (simp add: gov_record_def bill(2) canonical.dec_enc [OF bill(1)] shows_row_def canonical.enc_norm)
qed

lemma get_total: "gov_inv db \<Longrightarrow> lookup gq_id pid (proposals db) = Some r \<Longrightarrow>
    \<exists>v. get db pid = Inr v \<and> shows_row r v"
  using record_total [of r]
  by (auto simp: get_def gov_inv_def list_all_iff dest!: lookup_Some_D)

text \<open>A run used to show that hypotheses can hold: a sale filed, reviewed, activated and executed.\<close>

definition sample_ops :: "gov_op list" where
  "sample_ops =
     [Create SGT_SALE ''Sale'' (JObj [(''b'', JInt 2), (''a'', JStr ''x'')]) ''ff'' ''h1'' ''0xA'' (Some 100) 0 ''ab'',
      Create SGT_GRANT ''Grant'' (JObj []) ''fe'' ''h2'' ''0xA'' (Some 101) 0 ''cd'',
      Transition ''GOV-AB'' 1 READY ''0xB'' None None None (Some 110) 0,
      AddSignature ''GOV-AB'' ''act'' 1 ''PK'' ''MH'' ''SG'' ''0xB'' (Some 111) 0,
      Transition ''GOV-AB'' 2 ACTIVE ''0xB'' (Some ''b1'') (Some ''c1'') None (Some 120) 0,
      RecordExecution ''GOV-AB'' 3 ''B2'' [''o1''] ''0xB'' None 130]"

lemma sample_ok: "list_all gov_op_ok sample_ops"
  by (simp add: sample_ops_def)

lemma sample_run: "map (\<lambda>r. (gq_id r, gq_state r, gq_revision r, gq_execution_bundle_id r))
    (proposals (run gov_step sample_ops empty_gov_db))
  = [(''GOV-AB'', ACTIVE, 4, Some ''b2''), (''GOV-CD'', DRAFT, 1, None)]"
  by code_simp

text \<open>
  C1. At most one proposal is active on the governance tracker: after every sequence of calls on
  an empty store, whether they return or raise, the queue holds at most one \<open>ACTIVE\<close> row.
\<close>

theorem gov_one_active:
  assumes "list_all gov_op_ok ops"
  shows "length (filter (\<lambda>r. gq_state r = ACTIVE) (proposals (run gov_step ops empty_gov_db))) \<le> 1"
proof -
  have "table_ok gq_clash rs \<Longrightarrow> length (filter (\<lambda>r. gq_state r = ACTIVE) rs) \<le> 1" for rs
  proof (induction rs)
    case (Cons r rs)
    then show ?case
      by (cases "gq_state r = ACTIVE") (auto simp: list_all_iff gq_clash_def filter_empty_conv)
  qed simp
  then show ?thesis using gov_run_table [OF assms] by blast
qed

theorem gov_one_active_witness:
  "length (filter (\<lambda>r. gq_state r = ACTIVE) (proposals (run gov_step sample_ops empty_gov_db))) \<le> 1"
  by (rule gov_one_active) (rule sample_ok)

text \<open>
  C2. Four eyes: in every state the store can reach, a proposal that is past review (ready,
  active, executed or failed) has an audit entry of its review by an administrator other than
  its creator.
\<close>

theorem gov_four_eyes:
  assumes "list_all gov_op_ok ops" and "r \<in> set (proposals (run gov_step ops empty_gov_db))"
    and "gq_state r \<in> {READY, ACTIVE, EXECUTED, FAILED}"
  shows "\<exists>a \<in> set (audit (run gov_step ops empty_gov_db)).
    au_proposal_id a = gq_id r \<and> au_action a = ''STATE_READY'' \<and> au_actor a \<noteq> gq_created_by r"
  using gov_run_inv [OF assms(1)] assms(2,3)
  by (auto simp: gov_inv_def list_all_iff past_review_def reviewed_def)

theorem gov_four_eyes_witness:
  "\<exists>a \<in> set (audit (run gov_step sample_ops empty_gov_db)).
    au_proposal_id a = ''GOV-AB'' \<and> au_action a = ''STATE_READY'' \<and> au_actor a \<noteq> ''0xa''"
proof -
  let ?r = "hd (proposals (run gov_step sample_ops empty_gov_db))"
  have r: "gq_id ?r = ''GOV-AB''" "gq_created_by ?r = ''0xa''" "gq_state ?r = ACTIVE"
    by code_simp+
  moreover have "proposals (run gov_step sample_ops empty_gov_db) \<noteq> []"
    using sample_run by auto
  ultimately show ?thesis
    using gov_four_eyes [OF sample_ok, of ?r] by simp
qed

text \<open>
  C3. The life cycle: along every further sequence of calls a proposal keeps its identity, its
  bill and its creator, its revision never decreases, its state moves only along
  draft, ready, active, executed or failed, or is canceled before activation; a completed
  proposal never moves again.
\<close>

theorem gov_life_cycle:
  assumes "list_all gov_op_ok ops" and "list_all gov_op_ok ops'"
    and "lookup gq_id pid (proposals (run gov_step ops empty_gov_db)) = Some r"
  shows "\<exists>r'. lookup gq_id pid (proposals (run gov_step (ops @ ops') empty_gov_db)) = Some r' \<and>
    gq_kind r' = gq_kind r \<and> gq_bill_json r' = gq_bill_json r \<and>
    gq_proposal_hash r' = gq_proposal_hash r \<and> gq_created_by r' = gq_created_by r \<and>
    gq_revision r \<le> gq_revision r' \<and> lifecycle_edge\<^sup>*\<^sup>* (gq_state r) (gq_state r') \<and>
    (gq_state r \<in> {EXECUTED, FAILED, CANCELED} \<longrightarrow> gq_state r' = gq_state r)"
proof -
  let ?db = "run gov_step ops empty_gov_db"
  have "gov_evolves ?db (run gov_step ops' ?db)"
    by (rule gov_run_evolves [OF gov_run_inv [OF assms(1)] assms(2)])
  then obtain r' where "lookup gq_id pid (proposals (run gov_step (ops @ ops') empty_gov_db)) = Some r'"
      "row_evolves r r'"
    using assms(3) by (auto simp: gov_evolves_def run_append)
  then show ?thesis
    by (auto simp: row_evolves_def dest: lifecycle_terminal)
qed

theorem gov_life_cycle_witness:
  "\<exists>r r'. lookup gq_id ''GOV-AB'' (proposals (run gov_step (take 3 sample_ops) empty_gov_db)) = Some r \<and>
     gq_state r = READY \<and>
     lookup gq_id ''GOV-AB'' (proposals (run gov_step (take 3 sample_ops @ drop 3 sample_ops) empty_gov_db))
       = Some r' \<and> lifecycle_edge\<^sup>*\<^sup>* (gq_state r) (gq_state r')"
proof -
  have ok: "list_all gov_op_ok (take 3 sample_ops)" "list_all gov_op_ok (drop 3 sample_ops)"
    by (simp_all add: sample_ops_def)
  have "map_option gq_state (lookup gq_id ''GOV-AB'' (proposals (run gov_step (take 3 sample_ops) empty_gov_db)))
      = Some READY"
    by code_simp
  then obtain r where "lookup gq_id ''GOV-AB'' (proposals (run gov_step (take 3 sample_ops) empty_gov_db)) = Some r"
      "gq_state r = READY"
    by auto
  with gov_life_cycle [OF ok] show ?thesis by blast
qed

text \<open>
  Evidence is written once: the execution bundle and its expected outputs, the identity of a
  published sale offer, the coadministrator of the publication and the activation and completion
  times are never changed after they are set.
\<close>

theorem gov_evidence_fixed:
  assumes "list_all gov_op_ok ops" and "list_all gov_op_ok ops'"
    and "lookup gq_id pid (proposals (run gov_step ops empty_gov_db)) = Some r"
  shows "\<exists>r'. lookup gq_id pid (proposals (run gov_step (ops @ ops') empty_gov_db)) = Some r' \<and>
    fixed (gq_execution_bundle_id r) (gq_execution_bundle_id r') \<and>
    fixed (gq_expected_output_coin_ids_json r) (gq_expected_output_coin_ids_json r') \<and>
    fixed (gq_publication_coadmin_slot r) (gq_publication_coadmin_slot r') \<and>
    fixed (gq_activated_at r) (gq_activated_at r') \<and> fixed (gq_completed_at r) (gq_completed_at r') \<and>
    (gq_sale_offer_id r \<noteq> None \<longrightarrow> gq_sale_offer_id r' = gq_sale_offer_id r \<and>
       gq_sale_offer_bech32 r' = gq_sale_offer_bech32 r \<and> gq_sale_coin_id r' = gq_sale_coin_id r)"
proof -
  let ?db = "run gov_step ops empty_gov_db"
  have "gov_evolves ?db (run gov_step ops' ?db)"
    by (rule gov_run_evolves [OF gov_run_inv [OF assms(1)] assms(2)])
  then show ?thesis
    using assms(3) by (fastforce simp: gov_evolves_def run_append row_evolves_def fixed_def)
qed

theorem gov_evidence_fixed_witness:
  "\<exists>r r'. lookup gq_id ''GOV-AB'' (proposals (run gov_step sample_ops empty_gov_db)) = Some r \<and>
     lookup gq_id ''GOV-AB'' (proposals (run gov_step
       (sample_ops @ [RecordExecution ''GOV-AB'' 4 ''B3'' [''o2''] ''0xB'' None 140]) empty_gov_db)) = Some r' \<and>
     gq_execution_bundle_id r = Some ''b2'' \<and> fixed (gq_execution_bundle_id r) (gq_execution_bundle_id r')"
proof -
  have ok: "list_all gov_op_ok [RecordExecution ''GOV-AB'' 4 ''B3'' [''o2''] ''0xB'' None 140]"
    by simp
  have "map_option gq_execution_bundle_id (lookup gq_id ''GOV-AB''
      (proposals (run gov_step sample_ops empty_gov_db))) = Some (Some ''b2'')"
    by code_simp
  then obtain r where "lookup gq_id ''GOV-AB'' (proposals (run gov_step sample_ops empty_gov_db)) = Some r"
      "gq_execution_bundle_id r = Some ''b2''"
    by auto
  with gov_evidence_fixed [OF sample_ok ok] show ?thesis by blast
qed

subsection \<open>What makes a transition succeed\<close>

lemma move_row_frame [simp]:
  "gq_id (move_row target n t ab pc cb r) = gq_id r"
  "gq_proposal_hash (move_row target n t ab pc cb r) = gq_proposal_hash r"
  "gq_state (move_row target n t ab pc cb r) = target"
  "gq_revision (move_row target n t ab pc cb r) = n"
  by (simp_all add: move_row_def Let_def)

lemma move_update_iff:
  assumes "table_ok gq_clash rs" and "lookup gq_id pid rs = Some r"
  shows "sql_update gq_clash (\<lambda>r. gq_id r = pid) (move_row target n t ab pc cb) rs \<noteq> None \<longleftrightarrow>
    (target = ACTIVE \<longrightarrow> (\<forall>r' \<in> set rs. gq_id r' \<noteq> pid \<longrightarrow> gq_state r' \<noteq> ACTIVE))"
    (is "?upd \<noteq> None \<longleftrightarrow> ?free")
proof -
  let ?f = "\<lambda>r. if gq_id r = pid then move_row target n t ab pc cb r else r"
  have upd: "?upd \<noteq> None \<longleftrightarrow> table_ok gq_clash (map ?f rs)"
    by (simp add: sql_update_def Let_def)
  obtain i where i: "i < length rs" "rs ! i = r" "gq_id r = pid"
    using assms(2) by (auto dest!: lookup_Some_D simp: in_set_conv_nth)
  show ?thesis
    unfolding upd
  proof
    assume ok: "table_ok gq_clash (map ?f rs)"
    show ?free
    proof (intro impI ballI notI)
      fix r' assume a: "target = ACTIVE" "r' \<in> set rs" "gq_id r' \<noteq> pid" "gq_state r' = ACTIVE"
      then obtain j where j: "j < length rs" "rs ! j = r'" by (auto simp: in_set_conv_nth)
      have "gq_clash (map ?f rs ! i) (map ?f rs ! j)"
        using a i j by (simp add: gq_clash_def)
      then have "i = j" using gq.unique_row [OF ok] i j by simp
      then show False using a i j by simp
    qed
  next
    assume free: ?free
    show "table_ok gq_clash (map ?f rs)"
      unfolding table_ok_iff
    proof (intro allI impI)
      fix j k assume jk: "j < k" "k < length (map ?f rs)"
      then have old: "\<not> gq_clash (rs ! j) (rs ! k)" and m: "rs ! j \<in> set rs" "rs ! k \<in> set rs"
        using assms(1) by (auto simp: table_ok_iff)
      then show "\<not> gq_clash (map ?f rs ! j) (map ?f rs ! k)"
        using jk free by (auto simp: gq_clash_def)
    qed
  qed
qed

definition may_move ::
  "gov_db \<Rightarrow> string \<Rightarrow> int \<Rightarrow> proposal_state \<Rightarrow> string \<Rightarrow> string option \<Rightarrow> string option \<Rightarrow> string option \<Rightarrow> bool" where
  "may_move db pid n target actor ab pc cb \<longleftrightarrow>
     (\<exists>r. lookup gq_id pid (proposals db) = Some r \<and> gq_revision r = n \<and>
        lifecycle_edge (gq_state r) target \<and>
        (target = READY \<longrightarrow> gq_created_by r \<noteq> lower actor) \<and>
        (target = ACTIVE \<longrightarrow>
           ab \<noteq> None \<and> pc \<noteq> None \<and> (\<forall>r' \<in> set (proposals db). gq_state r' \<noteq> ACTIVE)) \<and>
        (target \<in> {EXECUTED, FAILED} \<longrightarrow> cb \<noteq> None))"

lemma transition_body_iff:
  assumes inv: "gov_inv db"
  shows "(\<exists>x. transition_body pid n target actor ab pc cb t db = Inr x) \<longleftrightarrow>
    may_move db pid n target actor ab pc cb"
proof (cases "lookup gq_id pid (proposals db)")
  case None
  then show ?thesis by (simp add: transition_body_def may_move_def)
next
  case (Some r)
  have "is_lower (gq_created_by r)"
    using inv Some unfolding gov_inv_def row_wf_def by (auto simp: list_all_iff dest!: lookup_Some_D)
  then have low: "lower (gq_created_by r) = gq_created_by r" by (simp add: is_lower_def)
  have ok: "table_ok gq_clash (proposals db)" using inv by (simp add: gov_inv_def)
  let ?upd = "sql_update gq_clash (\<lambda>r. gq_id r = pid) (move_row target (n + 1) t ab pc cb) (proposals db)"
  have "(\<exists>x. transition_body pid n target actor ab pc cb t db = Inr x) \<longleftrightarrow>
      gq_revision r = n \<and> lifecycle_edge (gq_state r) target \<and>
      \<not> (target = READY \<and> gq_created_by r = lower actor) \<and>
      \<not> (target = ACTIVE \<and> (ab = None \<or> pc = None)) \<and>
      \<not> (target \<in> {EXECUTED, FAILED} \<and> cb = None) \<and> ?upd \<noteq> None"
    using Some low by (cases ?upd) (auto simp: transition_body_def allowed_iff_edge Let_def raise_if_def)
  also have "\<dots> \<longleftrightarrow> may_move db pid n target actor ab pc cb"
  proof -
    have uniq: "r' = r" if "r' \<in> set (proposals db)" "gq_id r' = pid" for r'
      using that Some by (auto dest!: lookup_Some_D intro: gq.key_eq [OF ok])
    have "gq_state r \<noteq> ACTIVE \<Longrightarrow>
        (\<forall>r' \<in> set (proposals db). gq_id r' \<noteq> pid \<longrightarrow> gq_state r' \<noteq> ACTIVE) \<longleftrightarrow>
        (\<forall>r' \<in> set (proposals db). gq_state r' \<noteq> ACTIVE)"
      by (metis uniq)
    then show ?thesis
      using move_update_iff [OF ok Some, of target "n + 1" t ab pc cb] Some
      by (cases target; cases "gq_state r") (auto simp: may_move_def)
  qed
  finally show ?thesis .
qed

text \<open>
  A transition succeeds exactly when its proposal exists, the caller holds its current revision,
  the target follows the current state, a review is not by the creator, an activation names its
  bundle and coin while no other proposal is active, and a completion names its bundle. It then
  returns the proposal in the target state at the next revision; otherwise the database is unchanged.
\<close>

theorem gov_transition_exact:
  assumes "gov_inv db"
  shows "case transition pid n target actor ab pc cb now clock db of
      (Inl e, db') \<Rightarrow> db' = db \<and> \<not> may_move db pid n target actor ab pc cb
    | (Inr v, db') \<Rightarrow> may_move db pid n target actor ab pc cb \<and>
        gr_id v = pid \<and> gr_state v = target \<and> gr_revision v = n + 1 \<and>
        (\<exists>r. lookup gq_id pid (proposals db') = Some r \<and> shows_row r v)"
proof (cases "transition_body pid n target actor ab pc cb (or_clock now clock) db")
  case (Inl e)
  then have "\<not> may_move db pid n target actor ab pc cb"
    by (simp add: transition_body_iff [OF assms, symmetric, where t = "or_clock now clock"])
  with Inl show ?thesis by (simp add: transition_def txn_then_def txn_def)
next
  case (Inr x)
  then obtain db' where b: "transition_body pid n target actor ab pc cb (or_clock now clock) db = Inr ((), db')"
    by (cases x) simp
  then have may: "may_move db pid n target actor ab pc cb"
    by (auto simp: transition_body_iff [OF assms, symmetric, where t = "or_clock now clock"])
  have ok: "table_ok gq_clash (proposals db)" using assms by (simp add: gov_inv_def)
  have inv': "gov_inv db'"
    using assms ok b by (blast intro: change_inv transition_change)
  from b obtain r rows where r: "lookup gq_id pid (proposals db) = Some r"
      and rows: "sql_update gq_clash (\<lambda>r. gq_id r = pid)
         (move_row target (n + 1) (or_clock now clock) ab pc cb) (proposals db) = Some rows"
      and db': "proposals db' = rows"
    by (auto simp: transition_body_def Let_def write_audit_def split: option.splits)
  have "lookup gq_id pid (proposals db')
      = Some (move_row target (n + 1) (or_clock now clock) ab pc cb r)"
    using gq.lookup_update [OF rows] r db' by simp
  moreover from this obtain v where v: "get db' pid = Inr v"
      "shows_row (move_row target (n + 1) (or_clock now clock) ab pc cb r) v"
    using get_total [OF inv'] by blast
  moreover have "gq_id r = pid" using r by (auto dest: lookup_Some_D)
  ultimately show ?thesis
    using b may by (simp add: transition_def txn_then_def txn_def) (simp add: shows_row_def)
qed

theorem gov_transition_exact_witness:
  "may_move (run gov_step (take 1 sample_ops) empty_gov_db) ''GOV-AB'' 1 READY ''0xB'' None None None \<and>
   (\<exists>v db'. transition ''GOV-AB'' 1 READY ''0xB'' None None None (Some 5) 0
      (run gov_step (take 1 sample_ops) empty_gov_db) = (Inr v, db') \<and> gr_revision v = 2)"
proof -
  let ?db = "run gov_step (take 1 sample_ops) empty_gov_db"
  have "list_all gov_op_ok (take 1 sample_ops)" by (simp add: sample_ops_def)
  then have inv: "gov_inv ?db" by (rule gov_run_inv)
  have "map_option (\<lambda>r. (gq_revision r, gq_state r, gq_created_by r)) (lookup gq_id ''GOV-AB'' (proposals ?db))
      = Some (1, DRAFT, ''0xa'')"
    by code_simp
  moreover have "lower ''0xB'' = ''0xb''" by code_simp
  ultimately have may: "may_move ?db ''GOV-AB'' 1 READY ''0xB'' None None None"
    by (auto simp: may_move_def)
  with gov_transition_exact [OF inv, of "''GOV-AB''" 1 READY "''0xB''" None None None "Some 5" 0]
  show ?thesis
    by (cases "transition ''GOV-AB'' 1 READY ''0xB'' None None None (Some 5) 0 ?db")
       (auto split: sum.splits)
qed

text \<open>
  Stored proposals decode: in every reachable state \<open>get\<close> returns a record for the id of every
  row, and its bill and expected outputs are the values whose canonical text the row holds.
\<close>

theorem gov_get_decodes:
  assumes "list_all gov_op_ok ops" and "r \<in> set (proposals (run gov_step ops empty_gov_db))"
  shows "\<exists>v. get (run gov_step ops empty_gov_db) (gq_id r) = Inr v \<and> shows_row r v"
  using get_total [OF gov_run_inv [OF assms(1)]] gq.lookup_mem [OF gov_run_table [OF assms(1)] assms(2)]
  by blast

theorem gov_get_decodes_witness:
  "\<exists>r v. get (run gov_step (take 2 sample_ops) empty_gov_db) ''GOV-AB'' = Inr v \<and> shows_row r v \<and> gq_id r = ''GOV-AB''"
proof -
  have ok: "list_all gov_op_ok (take 2 sample_ops)" by (simp add: sample_ops_def)
  have "map_option gq_id (lookup gq_id ''GOV-AB'' (proposals (run gov_step (take 2 sample_ops) empty_gov_db)))
      = Some ''GOV-AB''"
    by code_simp
  then obtain r where "r \<in> set (proposals (run gov_step (take 2 sample_ops) empty_gov_db))" "gq_id r = ''GOV-AB''"
    by (auto dest: lookup_Some_D)
  with gov_get_decodes [OF ok] show ?thesis by metis
qed

text \<open>
  C4. The audit trail is complete and append-only: a call that changes the proposals or the
  signatures appends exactly one entry, with the next number; any other call leaves the database as it was.
\<close>

theorem gov_audit_complete:
  assumes "gov_inv db" and "gov_op_ok op"
  shows "gov_step op db = db \<or>
    (\<exists>a. audit (gov_step op db) = audit db @ [a] \<and> au_id a = Suc (length (audit db)) \<and>
       (\<exists>r \<in> set (proposals (gov_step op db)). gq_id r = au_proposal_id a))"
proof -
  have n: "next_audit_id db = Suc (length (audit db))"
    using assms(1) by (intro next_audit_id) (simp add: gov_inv_def)
  have "gov_change db (gov_step op db)"
    using assms by (intro gov_step_change) (simp_all add: gov_inv_def)
  then show ?thesis
  proof cases
    case (opened r rows actor a)
    then show ?thesis using n by (auto simp: audit_entry_def sql_insert_Some)
  next
    case (edited pid r actor action r' a)
    then have "gq_id r' = pid"
      using assms(1) edit_wf [OF edited(3)]
      by (auto simp: gov_inv_def list_all_iff row_evolves_def dest!: lookup_Some_D)
    then show ?thesis
      using edited n replace_row_new [OF edited(2), of r'] by (auto simp: audit_entry_def)
  next
    case (signed pid r g gs actor a)
    then show ?thesis using n by (auto simp: audit_entry_def dest!: lookup_Some_D)
  qed simp
qed

theorem gov_audit_complete_witness:
  "\<exists>a. audit (gov_step (Create SGT_GRANT ''G'' (JObj []) ''fe'' ''h'' ''0xA'' None 7 ''ab'') empty_gov_db) = [a] \<and>
     au_id a = 1"
  using gov_audit_complete [of empty_gov_db
      "Create SGT_GRANT ''G'' (JObj []) ''fe'' ''h'' ''0xA'' None 7 ''ab''"]
  by (auto simp: empty_gov_db_def create_def txn_then_def txn_def create_body_def sql_insert_def Let_def
      write_audit_def)

end
