(* ===== verification/StripeDelivery.thy ===== *)
theory StripeDelivery
  imports Json SqlCore
begin

text \<open>
  \<open>src/solslot_api/stripe_delivery_store.py\<close>: the durable ledger of operations that turn a
  verified external payment (Stripe or Base USDC) into the delivery of a protocol asset. A row
  carries the identity of the payment, the state of the operation, a worker lease, and the columns
  that \<open>_transition\<close> reads and writes by name, here a map from column names to SQL values.
\<close>

section \<open>Data\<close>

datatype sd_state =
    PAYMENT_VERIFIED
  | RECEIPT_FUNDING_PREPARED
  | RECEIPT_FUNDING_SUBMITTED
  | RECEIPT_CONFIRMED
  | DELIVERY_PREPARED
  | DELIVERY_SUBMITTED
  | FINALIZED
  | EXTERNAL_SETTLEMENT_PENDING
  | MANUAL_REVIEW

fun sd_state_str :: "sd_state \<Rightarrow> string" where
  "sd_state_str PAYMENT_VERIFIED = ''PAYMENT_VERIFIED''"
| "sd_state_str RECEIPT_FUNDING_PREPARED = ''RECEIPT_FUNDING_PREPARED''"
| "sd_state_str RECEIPT_FUNDING_SUBMITTED = ''RECEIPT_FUNDING_SUBMITTED''"
| "sd_state_str RECEIPT_CONFIRMED = ''RECEIPT_CONFIRMED''"
| "sd_state_str DELIVERY_PREPARED = ''DELIVERY_PREPARED''"
| "sd_state_str DELIVERY_SUBMITTED = ''DELIVERY_SUBMITTED''"
| "sd_state_str FINALIZED = ''FINALIZED''"
| "sd_state_str EXTERNAL_SETTLEMENT_PENDING = ''EXTERNAL_SETTLEMENT_PENDING''"
| "sd_state_str MANUAL_REVIEW = ''MANUAL_REVIEW''"

definition PAYMENT_RAIL_STRIPE :: string where
  "PAYMENT_RAIL_STRIPE = ''stripe''"

definition PAYMENT_RAIL_BASE_USDC :: string where
  "PAYMENT_RAIL_BASE_USDC = ''base_usdc''"

definition DELIVERY_SMARTDEED :: string where
  "DELIVERY_SMARTDEED = ''smartdeed''"

definition DELIVERY_SGT :: string where
  "DELIVERY_SGT = ''sgt''"

definition PAYMENT_RAILS :: "string list" where
  "PAYMENT_RAILS = [PAYMENT_RAIL_STRIPE, PAYMENT_RAIL_BASE_USDC]"

definition DELIVERY_KINDS :: "string list" where
  "DELIVERY_KINDS = [DELIVERY_SMARTDEED, DELIVERY_SGT]"

datatype sd_error =
    StripeDeliveryNotFound string
  | StripeDeliveryConflict string
  | SdValueError string
  | SdIndexError
  | SdIntegrityError
  | SdAssertionError
  | SdJSONDecodeError

text \<open>The columns that \<open>_transition\<close> handles by name.\<close>

datatype sd_field =
    F_receipt_funding_input_coin_id
  | F_receipt_funding_bundle_json
  | F_receipt_funding_exact_bundle_json
  | F_receipt_funding_bundle_id
  | F_receipt_coin_id
  | F_receipt_puzzle_hash
  | F_receipt_funding_fee_mojos
  | F_receipt_funding_mempool_observed_at
  | F_delivery_bundle_json
  | F_delivery_exact_bundle_json
  | F_delivery_bundle_id
  | F_expected_delivery_output_coin_id
  | F_expected_delivery_output_coin_ids_json
  | F_expected_treasury_output_coin_id
  | F_expected_treasury_output_coin_ids_json
  | F_fee_mojos
  | F_mempool_observed_at
  | F_confirmation_height
  | F_external_settlement_evidence_json
  | F_settlement_authorization_id
  | F_settlement_authorization_json
  | F_signer_indices_json
  | F_last_error

fun sd_field_str :: "sd_field \<Rightarrow> string" where
  "sd_field_str F_receipt_funding_input_coin_id = ''receipt_funding_input_coin_id''"
| "sd_field_str F_receipt_funding_bundle_json = ''receipt_funding_bundle_json''"
| "sd_field_str F_receipt_funding_exact_bundle_json = ''receipt_funding_exact_bundle_json''"
| "sd_field_str F_receipt_funding_bundle_id = ''receipt_funding_bundle_id''"
| "sd_field_str F_receipt_coin_id = ''receipt_coin_id''"
| "sd_field_str F_receipt_puzzle_hash = ''receipt_puzzle_hash''"
| "sd_field_str F_receipt_funding_fee_mojos = ''receipt_funding_fee_mojos''"
| "sd_field_str F_receipt_funding_mempool_observed_at = ''receipt_funding_mempool_observed_at''"
| "sd_field_str F_delivery_bundle_json = ''delivery_bundle_json''"
| "sd_field_str F_delivery_exact_bundle_json = ''delivery_exact_bundle_json''"
| "sd_field_str F_delivery_bundle_id = ''delivery_bundle_id''"
| "sd_field_str F_expected_delivery_output_coin_id = ''expected_delivery_output_coin_id''"
| "sd_field_str F_expected_delivery_output_coin_ids_json = ''expected_delivery_output_coin_ids_json''"
| "sd_field_str F_expected_treasury_output_coin_id = ''expected_treasury_output_coin_id''"
| "sd_field_str F_expected_treasury_output_coin_ids_json = ''expected_treasury_output_coin_ids_json''"
| "sd_field_str F_fee_mojos = ''fee_mojos''"
| "sd_field_str F_mempool_observed_at = ''mempool_observed_at''"
| "sd_field_str F_confirmation_height = ''confirmation_height''"
| "sd_field_str F_external_settlement_evidence_json = ''external_settlement_evidence_json''"
| "sd_field_str F_settlement_authorization_id = ''settlement_authorization_id''"
| "sd_field_str F_settlement_authorization_json = ''settlement_authorization_json''"
| "sd_field_str F_signer_indices_json = ''signer_indices_json''"
| "sd_field_str F_last_error = ''last_error''"

text \<open>
  A row of \<open>stripe_delivery_operations\<close>. The column \<open>expected_deed_output_coin_id\<close>, kept only for
  old databases and never written, is left out.
\<close>

record sd_row =
  sd_purchase_id :: string
  sd_external_payment_id :: string
  sd_payment_rail :: string
  sd_delivery_kind :: string
  sd_evidence_json :: string
  sd_receipt_hash :: string
  sd_state :: sd_state
  sd_cols :: "sd_field \<Rightarrow> sqlval"
  sd_attempt_count :: int
  sd_lease_owner :: "string option"
  sd_lease_expires_at :: "int option"
  sd_created_at :: int
  sd_updated_at :: int

type_synonym sd_db = "sd_row list"

definition list_fields :: "sd_field list" where
  "list_fields =
     [F_signer_indices_json, F_expected_delivery_output_coin_ids_json,
      F_expected_treasury_output_coin_ids_json]"

text \<open>The columns' defaults in an \<open>INSERT\<close>: an empty list for three of them, else \<open>NULL\<close>.\<close>

definition default_cols :: "sd_field \<Rightarrow> sqlval" where
  "default_cols f = (if f \<in> set list_fields then SText ''[]'' else SNull)"

definition unique_fields :: "sd_field list" where
  "unique_fields =
     [F_receipt_funding_input_coin_id, F_receipt_funding_bundle_id, F_receipt_coin_id,
      F_delivery_bundle_id, F_expected_delivery_output_coin_id, F_settlement_authorization_id]"

definition sd_clash :: "sd_row \<Rightarrow> sd_row \<Rightarrow> bool" where
  "sd_clash r r' \<longleftrightarrow>
     sd_purchase_id r = sd_purchase_id r' \<or>
     sd_external_payment_id r = sd_external_payment_id r' \<or>
     sd_receipt_hash r = sd_receipt_hash r' \<or>
     list_ex (\<lambda>f. sd_cols r f \<noteq> SNull \<and> sd_cols r f = sd_cols r' f) unique_fields"

interpretation sd: keyed_table sd_clash sd_purchase_id
  by unfold_locales (auto simp: sd_clash_def list_ex_iff)

text \<open>The value the store returns.\<close>

record StripeDeliveryOperation =
  op_purchase_id :: string
  op_external_payment_id :: string
  op_payment_rail :: string
  op_delivery_kind :: string
  op_evidence :: json
  op_receipt_hash :: string
  op_state :: sd_state
  op_receipt_funding_input_coin_id :: sqlval
  op_receipt_funding_bundle :: "json option"
  op_receipt_funding_exact_bundle :: "json option"
  op_receipt_funding_bundle_id :: sqlval
  op_receipt_coin_id :: sqlval
  op_receipt_puzzle_hash :: sqlval
  op_receipt_funding_fee_mojos :: "int option"
  op_receipt_funding_mempool_observed_at :: sqlval
  op_delivery_bundle :: "json option"
  op_delivery_exact_bundle :: "json option"
  op_delivery_bundle_id :: sqlval
  op_expected_delivery_output_coin_id :: sqlval
  op_expected_delivery_output_coin_ids :: "string list"
  op_expected_treasury_output_coin_id :: sqlval
  op_expected_treasury_output_coin_ids :: "string list"
  op_fee_mojos :: "int option"
  op_mempool_observed_at :: sqlval
  op_confirmation_height :: "int option"
  op_external_settlement_evidence :: "json option"
  op_settlement_authorization_id :: sqlval
  op_settlement_authorization :: "json option"
  op_signer_indices :: "int list"
  op_attempt_count :: int
  op_last_error :: sqlval
  op_created_at :: int
  op_updated_at :: int

definition expected_deed_output_coin_id :: "StripeDeliveryOperation \<Rightarrow> sqlval" where
  "expected_deed_output_coin_id op =
     (if op_delivery_kind op = DELIVERY_SMARTDEED then op_expected_delivery_output_coin_id op else SNull)"

definition expected_deed_output_coin_ids :: "StripeDeliveryOperation \<Rightarrow> string list" where
  "expected_deed_output_coin_ids op =
     (if op_delivery_kind op = DELIVERY_SMARTDEED then op_expected_delivery_output_coin_ids op else [])"

definition expected_sgt_output_coin_id :: "StripeDeliveryOperation \<Rightarrow> sqlval" where
  "expected_sgt_output_coin_id op =
     (if op_delivery_kind op = DELIVERY_SGT then op_expected_delivery_output_coin_id op else SNull)"

section \<open>Decoding a row\<close>

text \<open>\<open>json.loads(str(column)) if column is not None else None\<close>.\<close>

definition load_col :: "sqlval \<Rightarrow> sd_error + json option" where
  "load_col v =
     (case v of
        SNull \<Rightarrow> Inr None
      | SText s \<Rightarrow> (case loads s of None \<Rightarrow> Inl SdJSONDecodeError | Some j \<Rightarrow> Inr (Some j))
      | SInt i \<Rightarrow> Inr (Some (JInt i)))"

definition int_col :: "sqlval \<Rightarrow> sd_error + int option" where
  "int_col v =
     (case v of SNull \<Rightarrow> Inr None | SInt i \<Rightarrow> Inr (Some i) | SText _ \<Rightarrow> Inl (SdValueError ''invalid literal for int()''))"

text \<open>
  \<open>tuple(str(v) for v in json.loads(str(column)))\<close> and the same with \<open>int\<close>. The columns are only
  ever written with lists of strings and of integers; anything else is an error here.
\<close>

definition strs_col :: "sqlval \<Rightarrow> sd_error + string list" where
  "strs_col v =
     (case v of
        SText s \<Rightarrow>
          (case loads s of
             Some (JArr vs) \<Rightarrow>
               map_result (\<lambda>v. case v of JStr t \<Rightarrow> Inr t | _ \<Rightarrow> Inl SdJSONDecodeError) vs
           | _ \<Rightarrow> Inl SdJSONDecodeError)
      | _ \<Rightarrow> Inl SdJSONDecodeError)"

definition ints_col :: "sqlval \<Rightarrow> sd_error + int list" where
  "ints_col v =
     (case v of
        SText s \<Rightarrow>
          (case loads s of
             Some (JArr vs) \<Rightarrow>
               map_result (\<lambda>v. case v of JInt i \<Rightarrow> Inr i | _ \<Rightarrow> Inl SdJSONDecodeError) vs
           | _ \<Rightarrow> Inl SdJSONDecodeError)
      | _ \<Rightarrow> Inl SdJSONDecodeError)"

definition sd_record :: "sd_row \<Rightarrow> sd_error + StripeDeliveryOperation" where
  "sd_record row =
     (let c = sd_cols row in
      case loads (sd_evidence_json row) of
        None \<Rightarrow> Inl SdJSONDecodeError
      | Some evidence \<Rightarrow>
      bind (load_col (c F_receipt_funding_bundle_json)) (\<lambda>receipt_funding_bundle.
      bind (load_col (c F_receipt_funding_exact_bundle_json)) (\<lambda>receipt_funding_exact_bundle.
      bind (int_col (c F_receipt_funding_fee_mojos)) (\<lambda>receipt_funding_fee_mojos.
      bind (load_col (c F_delivery_bundle_json)) (\<lambda>delivery_bundle.
      bind (load_col (c F_delivery_exact_bundle_json)) (\<lambda>delivery_exact_bundle.
      bind (strs_col (c F_expected_delivery_output_coin_ids_json)) (\<lambda>delivery_ids.
      bind (strs_col (c F_expected_treasury_output_coin_ids_json)) (\<lambda>treasury_ids.
      bind (int_col (c F_fee_mojos)) (\<lambda>fee_mojos.
      bind (int_col (c F_confirmation_height)) (\<lambda>confirmation_height.
      bind (load_col (c F_external_settlement_evidence_json)) (\<lambda>external_evidence.
      bind (load_col (c F_settlement_authorization_json)) (\<lambda>authorization.
      bind (ints_col (c F_signer_indices_json)) (\<lambda>signer_indices.
      Inr \<lparr>op_purchase_id = sd_purchase_id row,
        op_external_payment_id = sd_external_payment_id row,
        op_payment_rail = sd_payment_rail row, op_delivery_kind = sd_delivery_kind row,
        op_evidence = evidence, op_receipt_hash = sd_receipt_hash row, op_state = sd_state row,
        op_receipt_funding_input_coin_id = c F_receipt_funding_input_coin_id,
        op_receipt_funding_bundle = receipt_funding_bundle,
        op_receipt_funding_exact_bundle = receipt_funding_exact_bundle,
        op_receipt_funding_bundle_id = c F_receipt_funding_bundle_id,
        op_receipt_coin_id = c F_receipt_coin_id, op_receipt_puzzle_hash = c F_receipt_puzzle_hash,
        op_receipt_funding_fee_mojos = receipt_funding_fee_mojos,
        op_receipt_funding_mempool_observed_at = c F_receipt_funding_mempool_observed_at,
        op_delivery_bundle = delivery_bundle, op_delivery_exact_bundle = delivery_exact_bundle,
        op_delivery_bundle_id = c F_delivery_bundle_id,
        op_expected_delivery_output_coin_id = c F_expected_delivery_output_coin_id,
        op_expected_delivery_output_coin_ids = delivery_ids,
        op_expected_treasury_output_coin_id = c F_expected_treasury_output_coin_id,
        op_expected_treasury_output_coin_ids = treasury_ids,
        op_fee_mojos = fee_mojos, op_mempool_observed_at = c F_mempool_observed_at,
        op_confirmation_height = confirmation_height,
        op_external_settlement_evidence = external_evidence,
        op_settlement_authorization_id = c F_settlement_authorization_id,
        op_settlement_authorization = authorization,
        op_signer_indices = signer_indices, op_attempt_count = sd_attempt_count row,
        op_last_error = c F_last_error, op_created_at = sd_created_at row,
        op_updated_at = sd_updated_at row\<rparr>)))))))))))))"

section \<open>Normalisation of identifiers\<close>

definition sd_external_id :: "string \<Rightarrow> (string \<times> json) list \<Rightarrow> sd_error + string" where
  "sd_external_id payment_rail evidence =
     (let field = (if payment_rail = PAYMENT_RAIL_STRIPE then ''paymentIntentId'' else ''globalPaymentId'') in
      case map_of evidence field of
        Some (JStr value) \<Rightarrow>
          raise_if (value = []) (SdValueError (field @ '' is required'')) (Inr (lower value))
      | _ \<Rightarrow> Inl (SdValueError (field @ '' is required'')))"

text \<open>
  \<open>bytes.fromhex\<close>: pairs of hex digits, ASCII whitespace allowed around the pairs; the value here is
  the number of bytes.
\<close>

definition ascii_space :: "char \<Rightarrow> bool" where
  "ascii_space c \<longleftrightarrow> 9 \<le> cp c \<and> cp c \<le> 13 \<or> cp c = 32"

fun fromhex_len :: "string \<Rightarrow> nat option" where
  "fromhex_len [] = Some 0"
| "fromhex_len [c] = (if ascii_space c then Some 0 else None)"
| "fromhex_len (c # d # s) =
     (if ascii_space c then fromhex_len (d # s)
      else if is_hex c \<and> is_hex d then map_option Suc (fromhex_len s) else None)"

definition fee_coin_id :: "string \<Rightarrow> sd_error + string" where
  "fee_coin_id value =
     (let normalized = removeprefix (lower value) ''0x'' in
      case fromhex_len normalized of
        None \<Rightarrow> Inl (SdValueError ''fee coin ID is not hex'')
      | Some n \<Rightarrow>
          raise_if (n \<noteq> 32) (SdValueError ''fee coin ID is not bytes32'') (Inr (''0x'' @ normalized)))"

definition output_ids :: "string option \<Rightarrow> string list option \<Rightarrow> string \<Rightarrow> sd_error + string list" where
  "output_ids singular plural label =
     (let values =
        (case plural of
           Some (v # vs) \<Rightarrow> v # vs
         | _ \<Rightarrow> (case singular of None \<Rightarrow> [] | Some s \<Rightarrow> [s]));
        normalized = map lower values in
      raise_if (values = [] \<or> length values > 100)
        (SdValueError (label @ '' output manifest must contain 1..100 coin IDs''))
      (raise_if (\<not> distinct normalized)
        (SdValueError (label @ '' output manifest contains duplicate coin IDs''))
      (raise_if (case singular of None \<Rightarrow> False | Some s \<Rightarrow> hd normalized \<noteq> lower s)
        (SdValueError (label @ '' output manifest changes its primary coin ID''))
      (Inr normalized))))"

definition delivery_output_ids ::
  "string option \<Rightarrow> string list option \<Rightarrow> string option \<Rightarrow> sd_error + string list" where
  "delivery_output_ids delivery_output_coin_id delivery_output_coin_ids deed_output_coin_id =
     (let values = remdups (List.map_filter id [delivery_output_coin_id, deed_output_coin_id]) in
      case delivery_output_coin_ids of
        Some ids \<Rightarrow>
          (if values = [] then output_ids None (Some ids) ''delivery''
           else case ids of
             [] \<Rightarrow> Inl SdIndexError
           | i # _ \<Rightarrow>
               raise_if (values \<noteq> [i]) (SdValueError ''singular delivery output differs from its batch'')
               (output_ids None (Some ids) ''delivery''))
      | None \<Rightarrow>
          (case values of
             [v] \<Rightarrow> output_ids (Some v) None ''delivery''
           | _ \<Rightarrow> Inl (SdValueError ''exactly one delivery output coin ID is required'')))"

section \<open>Operations\<close>

definition new_row ::
  "string \<Rightarrow> string \<Rightarrow> string \<Rightarrow> string \<Rightarrow> string \<Rightarrow> string \<Rightarrow> int \<Rightarrow> sd_row" where
  "new_row purchase_id external_payment_id payment_rail delivery_kind evidence_json receipt_hash timestamp =
     \<lparr>sd_purchase_id = purchase_id, sd_external_payment_id = external_payment_id,
      sd_payment_rail = payment_rail, sd_delivery_kind = delivery_kind,
      sd_evidence_json = evidence_json, sd_receipt_hash = receipt_hash,
      sd_state = PAYMENT_VERIFIED, sd_cols = default_cols, sd_attempt_count = 0,
      sd_lease_owner = None, sd_lease_expires_at = None,
      sd_created_at = timestamp, sd_updated_at = timestamp\<rparr>"

text \<open>The row read back in the transaction; \<open>assert row is not None\<close>.\<close>

definition reread :: "string \<Rightarrow> sd_db \<Rightarrow> sd_error + (sd_row \<times> sd_db)" where
  "reread purchase_id db =
     (case lookup sd_purchase_id purchase_id db of None \<Rightarrow> Inl SdAssertionError | Some row \<Rightarrow> Inr (row, db))"

definition sd_queue_body ::
  "string \<Rightarrow> string \<Rightarrow> string \<Rightarrow> string \<Rightarrow> string \<Rightarrow> string \<Rightarrow> int \<Rightarrow> (sd_db, sd_error, sd_row) body" where
  "sd_queue_body purchase_id external_payment_id payment_rail delivery_kind evidence_json receipt_hash timestamp db =
     (case lookup sd_purchase_id purchase_id db of
        Some row \<Rightarrow>
          (case sd_record row of
             Inl e \<Rightarrow> Inl e
           | Inr existing \<Rightarrow>
               raise_if
                 (canonical_json (op_evidence existing) \<noteq> evidence_json \<or>
                  op_external_payment_id existing \<noteq> external_payment_id \<or>
                  op_receipt_hash existing \<noteq> receipt_hash \<or>
                  op_payment_rail existing \<noteq> payment_rail \<or>
                  op_delivery_kind existing \<noteq> delivery_kind)
                 (StripeDeliveryConflict ''Stripe purchase is already bound to different settlement evidence'')
                 (Inr (row, db)))
      | None \<Rightarrow>
          (case sql_insert sd_clash
                  (new_row purchase_id external_payment_id payment_rail delivery_kind evidence_json
                     receipt_hash timestamp) db of
             None \<Rightarrow>
               Inl (StripeDeliveryConflict ''Stripe settlement receipt is already bound to another purchase'')
           | Some db' \<Rightarrow> reread purchase_id db'))"

definition sd_queue ::
  "string \<Rightarrow> (string \<times> json) list \<Rightarrow> string \<Rightarrow> string \<Rightarrow> string \<Rightarrow> int option \<Rightarrow> int \<Rightarrow>
   (sd_db, sd_error, StripeDeliveryOperation) call" where
  "sd_queue purchase_id evidence receipt_hash payment_rail delivery_kind now clock db =
     (if payment_rail \<notin> set PAYMENT_RAILS then
        (Inl (SdValueError ''payment rail must be stripe or base_usdc''), db)
      else if delivery_kind \<notin> set DELIVERY_KINDS then
        (Inl (SdValueError ''delivery kind must be smartdeed or sgt''), db)
      else
        (case sd_external_id payment_rail evidence of
           Inl e \<Rightarrow> (Inl e, db)
         | Inr external_payment_id \<Rightarrow>
             txn_then
               (sd_queue_body purchase_id external_payment_id payment_rail delivery_kind
                  (canonical_json (JObj evidence)) receipt_hash (or_clock now clock))
               (\<lambda>row _. sd_record row) db))"

definition sd_get :: "sd_db \<Rightarrow> string \<Rightarrow> sd_error + StripeDeliveryOperation" where
  "sd_get db purchase_id =
     (case lookup sd_purchase_id purchase_id db of
        None \<Rightarrow> Inl (StripeDeliveryNotFound ''Stripe delivery operation was not found'')
      | Some row \<Rightarrow> sd_record row)"

definition get_by_external_payment_id :: "sd_db \<Rightarrow> string \<Rightarrow> sd_error + StripeDeliveryOperation" where
  "get_by_external_payment_id db external_payment_id =
     (case lookup sd_external_payment_id (lower external_payment_id) db of
        None \<Rightarrow> Inl (StripeDeliveryNotFound ''external delivery operation was not found'')
      | Some row \<Rightarrow> sd_record row)"

definition get_by_settlement_authorization_id :: "sd_db \<Rightarrow> string \<Rightarrow> sd_error + StripeDeliveryOperation" where
  "get_by_settlement_authorization_id db authorization_id =
     (case lookup (\<lambda>r. sd_cols r F_settlement_authorization_id) (SText (lower authorization_id)) db of
        None \<Rightarrow> Inl (StripeDeliveryNotFound ''settlement authorization was not found'')
      | Some row \<Rightarrow> sd_record row)"

text \<open>
  \<open>_fee_coin_id(str(json.loads(str(raw))["feeCoinId"]))\<close>; every failure is the one conflict. The
  \<open>str\<close> of a list or an object is never hexadecimal.
\<close>

definition exact_fee_coin :: "string \<Rightarrow> sd_error + string" where
  "exact_fee_coin raw =
     (let invalid = Inl (StripeDeliveryConflict ''persisted exact execution has an invalid fee coin'') in
      case loads raw of
        Some (JObj kvs) \<Rightarrow>
          (case map_of kvs ''feeCoinId'' of
             None \<Rightarrow> invalid
           | Some v \<Rightarrow>
               (case (case v of
                        JStr s \<Rightarrow> Some s
                      | JInt i \<Rightarrow> Some (show_int i)
                      | JNull \<Rightarrow> Some ''None''
                      | JBool b \<Rightarrow> Some (if b then ''True'' else ''False'')
                      | _ \<Rightarrow> None) of
                  None \<Rightarrow> invalid
                | Some s \<Rightarrow> (case fee_coin_id s of Inl _ \<Rightarrow> invalid | Inr c \<Rightarrow> Inr c)))
      | _ \<Rightarrow> invalid)"

definition exact_columns :: "sd_row \<Rightarrow> string list" where
  "exact_columns row =
     List.map_filter
       (\<lambda>f. case sd_cols row f of SNull \<Rightarrow> None | SInt i \<Rightarrow> Some (show_int i) | SText s \<Rightarrow> Some s)
       [F_receipt_funding_exact_bundle_json, F_delivery_exact_bundle_json]"

definition pending_exact_fee_coin_ids :: "sd_db \<Rightarrow> sd_error + string set" where
  "pending_exact_fee_coin_ids db =
     (case map_result exact_fee_coin
             (concat (map exact_columns (select (\<lambda>r. sd_state r \<noteq> FINALIZED) db))) of
        Inl e \<Rightarrow> Inl e
      | Inr ids \<Rightarrow> Inr (set ids))"

definition list_pending_external_settlements :: "sd_db \<Rightarrow> int \<Rightarrow> sd_error + StripeDeliveryOperation list" where
  "list_pending_external_settlements db limit =
     raise_if (limit < 1 \<or> limit > 100) (SdValueError ''pending settlement limit must be in 1..100'')
     (map_result sd_record
       (order_limit (\<lambda>r. (sd_updated_at r, sd_purchase_id r)) limit
         (select
           (\<lambda>r. sd_payment_rail r = PAYMENT_RAIL_BASE_USDC \<and> sd_state r = EXTERNAL_SETTLEMENT_PENDING \<and>
                sd_cols r F_settlement_authorization_json \<noteq> SNull \<and>
                sd_cols r F_external_settlement_evidence_json = SNull) db)))"

definition lease_row :: "string \<Rightarrow> int \<Rightarrow> int \<Rightarrow> sd_row \<Rightarrow> sd_row" where
  "lease_row owner lease_seconds timestamp r =
     r\<lparr>sd_lease_owner := Some owner, sd_lease_expires_at := Some (timestamp + lease_seconds),
       sd_attempt_count := sd_attempt_count r + 1, sd_updated_at := timestamp\<rparr>"

definition update_by_id :: "string \<Rightarrow> (sd_row \<Rightarrow> sd_row) \<Rightarrow> sd_db \<Rightarrow> sd_error + sd_db" where
  "update_by_id purchase_id f db =
     (case sql_update sd_clash (\<lambda>r. sd_purchase_id r = purchase_id) f db of
        None \<Rightarrow> Inl SdIntegrityError | Some db' \<Rightarrow> Inr db')"

definition claimable_states :: "sd_state list" where
  "claimable_states =
     [PAYMENT_VERIFIED, RECEIPT_FUNDING_PREPARED, RECEIPT_FUNDING_SUBMITTED, RECEIPT_CONFIRMED,
      DELIVERY_PREPARED, DELIVERY_SUBMITTED, EXTERNAL_SETTLEMENT_PENDING]"

definition claimable :: "int \<Rightarrow> sd_row \<Rightarrow> bool" where
  "claimable timestamp r \<longleftrightarrow>
     sd_state r \<in> set claimable_states \<and>
     (case sd_lease_expires_at r of None \<Rightarrow> True | Some t \<Rightarrow> t < timestamp)"

definition claim_next_body :: "string \<Rightarrow> int \<Rightarrow> int \<Rightarrow> (sd_db, sd_error, sd_row option) body" where
  "claim_next_body owner lease_seconds timestamp db =
     (case fetch_first (\<lambda>r. (sd_updated_at r, sd_purchase_id r)) (select (claimable timestamp) db) of
        None \<Rightarrow> Inr (None, db)
      | Some row \<Rightarrow>
          bind (update_by_id (sd_purchase_id row) (lease_row owner lease_seconds timestamp) db) (\<lambda>db'.
          bind (reread (sd_purchase_id row) db') (\<lambda>(row, db'). Inr (Some row, db'))))"

text \<open>\<open>None\<close> or the decoded row.\<close>

definition opt_record :: "sd_row option \<Rightarrow> sd_error + StripeDeliveryOperation option" where
  "opt_record row =
     (case row of None \<Rightarrow> Inr None | Some r \<Rightarrow> (case sd_record r of Inl e \<Rightarrow> Inl e | Inr v \<Rightarrow> Inr (Some v)))"

definition claim_next ::
  "string \<Rightarrow> int \<Rightarrow> int option \<Rightarrow> int \<Rightarrow> (sd_db, sd_error, StripeDeliveryOperation option) call" where
  "claim_next owner lease_seconds now clock =
     txn_then (claim_next_body owner lease_seconds (or_clock now clock)) (\<lambda>row _. opt_record row)"

definition leased_to_other :: "string \<Rightarrow> int \<Rightarrow> sd_row \<Rightarrow> bool" where
  "leased_to_other owner timestamp r \<longleftrightarrow>
     (case sd_lease_owner r of
        None \<Rightarrow> False
      | Some h \<Rightarrow> h \<noteq> owner \<and>
          (case sd_lease_expires_at r of None \<Rightarrow> False | Some t \<Rightarrow> timestamp \<le> t))"

definition claim_body :: "string \<Rightarrow> string \<Rightarrow> int \<Rightarrow> int \<Rightarrow> (sd_db, sd_error, sd_row option) body" where
  "claim_body purchase_id owner lease_seconds timestamp db =
     (case lookup sd_purchase_id purchase_id db of
        None \<Rightarrow> Inl (StripeDeliveryNotFound ''Stripe delivery operation was not found'')
      | Some row \<Rightarrow>
          if sd_state row \<in> {FINALIZED, MANUAL_REVIEW} then Inr (Some row, db)
          else if leased_to_other owner timestamp row then Inr (None, db)
          else
            bind (update_by_id purchase_id (lease_row owner lease_seconds timestamp) db) (\<lambda>db'.
            bind (reread purchase_id db') (\<lambda>(row, db'). Inr (Some row, db'))))"

definition claim ::
  "string \<Rightarrow> string \<Rightarrow> int \<Rightarrow> int option \<Rightarrow> int \<Rightarrow>
   (sd_db, sd_error, StripeDeliveryOperation option) call" where
  "claim purchase_id owner lease_seconds now clock =
     txn_then (claim_body purchase_id owner lease_seconds (or_clock now clock)) (\<lambda>row _. opt_record row)"

section \<open>Transitions\<close>

type_synonym sd_values = "(sd_field \<times> sqlval) list"

text \<open>A column is bound when it holds a value other than \<open>NULL\<close> and, for the lists, \<open>'[]'\<close>.\<close>

definition bound :: "sd_field \<Rightarrow> sqlval \<Rightarrow> bool" where
  "bound f v \<longleftrightarrow> v \<noteq> SNull \<and> \<not> (f \<in> set list_fields \<and> v = SText ''[]'')"

definition first_conflict :: "sd_row \<Rightarrow> sd_values \<Rightarrow> (sd_field \<times> sqlval) option" where
  "first_conflict row values = find (\<lambda>(f, v). bound f (sd_cols row f) \<and> sd_cols row f \<noteq> v) values"

definition assign_cols :: "sd_values \<Rightarrow> (sd_field \<Rightarrow> sqlval) \<Rightarrow> sd_field \<Rightarrow> sqlval" where
  "assign_cols values c = fold (\<lambda>(f, v) c. c(f := v)) values c"

definition assign_row :: "sd_state \<Rightarrow> sd_values \<Rightarrow> bool \<Rightarrow> int \<Rightarrow> sd_row \<Rightarrow> sd_row" where
  "assign_row state values release timestamp r =
     (let r = r\<lparr>sd_state := state, sd_updated_at := timestamp\<rparr>;
          r = (if release then r\<lparr>sd_lease_owner := None, sd_lease_expires_at := None\<rparr> else r);
          c = (if F_last_error \<notin> fst ` set values then (sd_cols r)(F_last_error := SNull) else sd_cols r) in
      r\<lparr>sd_cols := assign_cols values c\<rparr>)"

definition sd_transition_body ::
  "string \<Rightarrow> sd_state list \<Rightarrow> sd_state \<Rightarrow> sd_values \<Rightarrow> bool \<Rightarrow> int \<Rightarrow> (sd_db, sd_error, sd_row) body" where
  "sd_transition_body purchase_id allowed state values release clock db =
     (case lookup sd_purchase_id purchase_id db of
        None \<Rightarrow> Inl (StripeDeliveryNotFound ''Stripe delivery operation was not found'')
      | Some row \<Rightarrow>
          raise_if (sd_state row \<notin> set allowed)
            (StripeDeliveryConflict (''Stripe delivery cannot move from '' @ sd_state_str (sd_state row) @
               '' to '' @ sd_state_str state))
          (case first_conflict row values of
             Some (f, _) \<Rightarrow>
               Inl (StripeDeliveryConflict (''Stripe delivery '' @ sd_field_str f @ '' is already bound''))
           | None \<Rightarrow>
               bind (update_by_id purchase_id (assign_row state values release clock) db)
                 (reread purchase_id)))"

definition sd_transition ::
  "string \<Rightarrow> sd_state list \<Rightarrow> sd_state \<Rightarrow> sd_values \<Rightarrow> bool \<Rightarrow> int \<Rightarrow>
   (sd_db, sd_error, StripeDeliveryOperation) call" where
  "sd_transition purchase_id allowed state values release clock =
     txn_then (sd_transition_body purchase_id allowed state values release clock) (\<lambda>row _. sd_record row)"

definition opt_int :: "int option \<Rightarrow> sqlval" where
  "opt_int v = (case v of None \<Rightarrow> SNull | Some i \<Rightarrow> SInt i)"

definition record_receipt_funding ::
  "string \<Rightarrow> string \<Rightarrow> string \<Rightarrow> string \<Rightarrow> int option \<Rightarrow> string \<Rightarrow> int \<Rightarrow>
   (sd_db, sd_error, StripeDeliveryOperation) call" where
  "record_receipt_funding purchase_id bundle_id receipt_coin_id receipt_puzzle_hash fee_mojos
     mempool_observed_at clock =
     sd_transition purchase_id [RECEIPT_FUNDING_PREPARED, RECEIPT_FUNDING_SUBMITTED]
       RECEIPT_FUNDING_SUBMITTED
       [(F_receipt_funding_bundle_id, SText bundle_id), (F_receipt_coin_id, SText receipt_coin_id),
        (F_receipt_puzzle_hash, SText receipt_puzzle_hash),
        (F_receipt_funding_fee_mojos, opt_int fee_mojos),
        (F_receipt_funding_mempool_observed_at, SText mempool_observed_at)] True clock"

definition bind_receipt_exact_bundle ::
  "string \<Rightarrow> (string \<times> json) list \<Rightarrow> int \<Rightarrow> (sd_db, sd_error, StripeDeliveryOperation) call" where
  "bind_receipt_exact_bundle purchase_id exact_bundle clock =
     sd_transition purchase_id [RECEIPT_FUNDING_PREPARED] RECEIPT_FUNDING_PREPARED
       [(F_receipt_funding_exact_bundle_json, SText (canonical_json (JObj exact_bundle)))] False clock"

definition record_receipt_prepared ::
  "string \<Rightarrow> string \<Rightarrow> (string \<times> json) list \<Rightarrow> string \<Rightarrow> string \<Rightarrow> int \<Rightarrow>
   (sd_db, sd_error, StripeDeliveryOperation) call" where
  "record_receipt_prepared purchase_id input_coin_id protocol_bundle receipt_coin_id receipt_puzzle_hash clock =
     sd_transition purchase_id [PAYMENT_VERIFIED, RECEIPT_FUNDING_PREPARED] RECEIPT_FUNDING_PREPARED
       [(F_receipt_funding_input_coin_id, SText input_coin_id),
        (F_receipt_funding_bundle_json, SText (canonical_json (JObj protocol_bundle))),
        (F_receipt_coin_id, SText receipt_coin_id),
        (F_receipt_puzzle_hash, SText receipt_puzzle_hash)] True clock"

definition record_receipt_confirmed ::
  "string \<Rightarrow> int \<Rightarrow> (sd_db, sd_error, StripeDeliveryOperation) call" where
  "record_receipt_confirmed purchase_id clock =
     sd_transition purchase_id
       [RECEIPT_FUNDING_PREPARED, RECEIPT_FUNDING_SUBMITTED, RECEIPT_CONFIRMED] RECEIPT_CONFIRMED
       [] True clock"

definition strs_value :: "string list \<Rightarrow> sqlval" where
  "strs_value xs = SText (plain_json (json_strs xs))"

definition ints_value :: "int list \<Rightarrow> sqlval" where
  "ints_value xs = SText (plain_json (json_ints xs))"

text \<open>The two operations that name the outputs normalise them before the transaction.\<close>

definition with_outputs ::
  "string option \<Rightarrow> string list option \<Rightarrow> string option \<Rightarrow> string \<Rightarrow> string list option \<Rightarrow>
   (string list \<Rightarrow> string list \<Rightarrow> (sd_db, sd_error, 'a) call) \<Rightarrow> (sd_db, sd_error, 'a) call" where
  "with_outputs delivery_id delivery_ids deed_id treasury_id treasury_ids k db =
     (case delivery_output_ids delivery_id delivery_ids deed_id of
        Inl e \<Rightarrow> (Inl e, db)
      | Inr outs \<Rightarrow>
          (case output_ids (Some treasury_id) treasury_ids ''treasury'' of
             Inl e \<Rightarrow> (Inl e, db)
           | Inr treasury \<Rightarrow> k outs treasury db))"

definition output_values :: "string list \<Rightarrow> string list \<Rightarrow> int list \<Rightarrow> sd_values" where
  "output_values outs treasury signer_indices =
     [(F_expected_delivery_output_coin_id, SText (hd outs)),
      (F_expected_delivery_output_coin_ids_json, strs_value outs),
      (F_expected_treasury_output_coin_id, SText (hd treasury)),
      (F_expected_treasury_output_coin_ids_json, strs_value treasury),
      (F_signer_indices_json, ints_value signer_indices)]"

definition record_delivery_submission ::
  "string \<Rightarrow> string \<Rightarrow> string option \<Rightarrow> string list option \<Rightarrow> string \<Rightarrow> string list option \<Rightarrow>
   int list \<Rightarrow> int option \<Rightarrow> string \<Rightarrow> string option \<Rightarrow> int \<Rightarrow>
   (sd_db, sd_error, StripeDeliveryOperation) call" where
  "record_delivery_submission purchase_id bundle_id delivery_id delivery_ids treasury_id treasury_ids
     signer_indices fee_mojos mempool_observed_at deed_id clock =
     with_outputs delivery_id delivery_ids deed_id treasury_id treasury_ids (\<lambda>outs treasury.
       sd_transition purchase_id [DELIVERY_PREPARED, DELIVERY_SUBMITTED] DELIVERY_SUBMITTED
         ([(F_delivery_bundle_id, SText bundle_id)] @ output_values outs treasury signer_indices @
          [(F_fee_mojos, opt_int fee_mojos), (F_mempool_observed_at, SText mempool_observed_at)])
         True clock)"

definition bind_delivery_exact_bundle ::
  "string \<Rightarrow> (string \<times> json) list \<Rightarrow> int \<Rightarrow> (sd_db, sd_error, StripeDeliveryOperation) call" where
  "bind_delivery_exact_bundle purchase_id exact_bundle clock =
     sd_transition purchase_id [DELIVERY_PREPARED] DELIVERY_PREPARED
       [(F_delivery_exact_bundle_json, SText (canonical_json (JObj exact_bundle)))] False clock"

definition record_delivery_prepared ::
  "string \<Rightarrow> (string \<times> json) list \<Rightarrow> string option \<Rightarrow> string list option \<Rightarrow> string \<Rightarrow>
   string list option \<Rightarrow> int list \<Rightarrow> string option \<Rightarrow> int \<Rightarrow>
   (sd_db, sd_error, StripeDeliveryOperation) call" where
  "record_delivery_prepared purchase_id protocol_bundle delivery_id delivery_ids treasury_id treasury_ids
     signer_indices deed_id clock =
     with_outputs delivery_id delivery_ids deed_id treasury_id treasury_ids (\<lambda>outs treasury.
       sd_transition purchase_id [RECEIPT_CONFIRMED, DELIVERY_PREPARED] DELIVERY_PREPARED
         ((F_delivery_bundle_json, SText (canonical_json (JObj protocol_bundle))) #
          output_values outs treasury signer_indices)
         True clock)"

definition record_finalized ::
  "string \<Rightarrow> int \<Rightarrow> int \<Rightarrow> (sd_db, sd_error, StripeDeliveryOperation) call" where
  "record_finalized purchase_id confirmation_height clock db =
     (case sd_get db purchase_id of
        Inl e \<Rightarrow> (Inl e, db)
      | Inr operation \<Rightarrow>
          if op_payment_rail operation \<noteq> PAYMENT_RAIL_STRIPE then
            (Inl (StripeDeliveryConflict ''Base delivery requires confirmed external settlement''), db)
          else
            sd_transition purchase_id [DELIVERY_PREPARED, DELIVERY_SUBMITTED, FINALIZED] FINALIZED
              [(F_confirmation_height, SInt confirmation_height)] True clock db)"

definition record_delivery_confirmed ::
  "string \<Rightarrow> int \<Rightarrow> int \<Rightarrow> (sd_db, sd_error, StripeDeliveryOperation) call" where
  "record_delivery_confirmed purchase_id confirmation_height clock db =
     (case sd_get db purchase_id of
        Inl e \<Rightarrow> (Inl e, db)
      | Inr operation \<Rightarrow>
          if op_payment_rail operation = PAYMENT_RAIL_STRIPE then
            record_finalized purchase_id confirmation_height clock db
          else
            sd_transition purchase_id
              [DELIVERY_PREPARED, DELIVERY_SUBMITTED, EXTERNAL_SETTLEMENT_PENDING]
              EXTERNAL_SETTLEMENT_PENDING
              [(F_confirmation_height, SInt confirmation_height)] True clock db)"

definition record_external_settlement_finalized ::
  "string \<Rightarrow> (string \<times> json) list \<Rightarrow> int \<Rightarrow> (sd_db, sd_error, StripeDeliveryOperation) call" where
  "record_external_settlement_finalized purchase_id evidence clock =
     sd_transition purchase_id [EXTERNAL_SETTLEMENT_PENDING, FINALIZED] FINALIZED
       [(F_external_settlement_evidence_json, SText (canonical_json (JObj evidence)))] True clock"

definition record_external_settlement_authorization ::
  "string \<Rightarrow> string \<Rightarrow> (string \<times> json) list \<Rightarrow> int \<Rightarrow>
   (sd_db, sd_error, StripeDeliveryOperation) call" where
  "record_external_settlement_authorization purchase_id authorization_id authorization clock =
     sd_transition purchase_id [EXTERNAL_SETTLEMENT_PENDING] EXTERNAL_SETTLEMENT_PENDING
       [(F_settlement_authorization_id, SText (lower authorization_id)),
        (F_settlement_authorization_json, SText (canonical_json (JObj authorization)))] True clock"

definition record_manual_review ::
  "string \<Rightarrow> string \<Rightarrow> int \<Rightarrow> (sd_db, sd_error, StripeDeliveryOperation) call" where
  "record_manual_review purchase_id error clock =
     sd_transition purchase_id (claimable_states @ [MANUAL_REVIEW]) MANUAL_REVIEW
       [(F_last_error, SText (take 1000 error))] True clock"

definition error_row :: "string \<Rightarrow> int \<Rightarrow> sd_row \<Rightarrow> sd_row" where
  "error_row message clock r =
     r\<lparr>sd_cols := (sd_cols r)(F_last_error := SText message), sd_lease_owner := None,
       sd_lease_expires_at := None, sd_updated_at := clock\<rparr>"

definition release_row :: "int \<Rightarrow> sd_row \<Rightarrow> sd_row" where
  "release_row clock r = r\<lparr>sd_lease_owner := None, sd_lease_expires_at := None, sd_updated_at := clock\<rparr>"

text \<open>A single \<open>UPDATE\<close> commits by itself.\<close>

definition record_error ::
  "string \<Rightarrow> string \<Rightarrow> int \<Rightarrow> (sd_db, sd_error, StripeDeliveryOperation) call" where
  "record_error purchase_id error clock =
     txn_then
       (\<lambda>db. bind (update_by_id purchase_id (error_row (take 1000 error) clock) db) (\<lambda>db'. Inr ((), db')))
       (\<lambda>_ db. sd_get db purchase_id)"

definition release_lease :: "string \<Rightarrow> int \<Rightarrow> (sd_db, sd_error, StripeDeliveryOperation) call" where
  "release_lease purchase_id clock =
     txn_then
       (\<lambda>db. bind (update_by_id purchase_id (release_row clock) db) (\<lambda>db'. Inr ((), db')))
       (\<lambda>_ db. sd_get db purchase_id)"

section \<open>Calls\<close>

datatype sd_op =
    Queue string "(string \<times> json) list" string string string "int option" int
  | ClaimNext string int "int option" int
  | Claim string string int "int option" int
  | ReceiptFunding string string string string "int option" string int
  | BindReceiptExact string "(string \<times> json) list" int
  | ReceiptPrepared string string "(string \<times> json) list" string string int
  | ReceiptConfirmed string int
  | DeliverySubmission string string "string option" "string list option" string "string list option"
      "int list" "int option" string "string option" int
  | BindDeliveryExact string "(string \<times> json) list" int
  | DeliveryPrepared string "(string \<times> json) list" "string option" "string list option" string
      "string list option" "int list" "string option" int
  | Finalize string int int
  | DeliveryConfirmed string int int
  | SettlementFinalized string "(string \<times> json) list" int
  | SettlementAuthorization string string "(string \<times> json) list" int
  | ManualReview string string int
  | RecordError string string int
  | ReleaseLease string int

fun sd_step :: "sd_op \<Rightarrow> sd_db \<Rightarrow> sd_db" where
  "sd_step (Queue pid ev rh rail kind now clock) db = snd (sd_queue pid ev rh rail kind now clock db)"
| "sd_step (ClaimNext ow secs now clock) db = snd (claim_next ow secs now clock db)"
| "sd_step (Claim pid ow secs now clock) db = snd (claim pid ow secs now clock db)"
| "sd_step (ReceiptFunding pid b c p fee m clock) db = snd (record_receipt_funding pid b c p fee m clock db)"
| "sd_step (BindReceiptExact pid b clock) db = snd (bind_receipt_exact_bundle pid b clock db)"
| "sd_step (ReceiptPrepared pid i b c p clock) db = snd (record_receipt_prepared pid i b c p clock db)"
| "sd_step (ReceiptConfirmed pid clock) db = snd (record_receipt_confirmed pid clock db)"
| "sd_step (DeliverySubmission pid b d ds t ts si fee m deed clock) db =
     snd (record_delivery_submission pid b d ds t ts si fee m deed clock db)"
| "sd_step (BindDeliveryExact pid b clock) db = snd (bind_delivery_exact_bundle pid b clock db)"
| "sd_step (DeliveryPrepared pid b d ds t ts si deed clock) db =
     snd (record_delivery_prepared pid b d ds t ts si deed clock db)"
| "sd_step (Finalize pid h clock) db = snd (record_finalized pid h clock db)"
| "sd_step (DeliveryConfirmed pid h clock) db = snd (record_delivery_confirmed pid h clock db)"
| "sd_step (SettlementFinalized pid ev clock) db = snd (record_external_settlement_finalized pid ev clock db)"
| "sd_step (SettlementAuthorization pid a j clock) db =
     snd (record_external_settlement_authorization pid a j clock db)"
| "sd_step (ManualReview pid e clock) db = snd (record_manual_review pid e clock db)"
| "sd_step (RecordError pid e clock) db = snd (record_error pid e clock db)"
| "sd_step (ReleaseLease pid clock) db = snd (release_lease pid clock db)"

text \<open>The documents a caller passes are Python dicts.\<close>

fun sd_op_ok :: "sd_op \<Rightarrow> bool" where
  "sd_op_ok (Queue pid ev rh rail kind now clock) = json_ok (JObj ev)"
| "sd_op_ok (BindReceiptExact pid b clock) = json_ok (JObj b)"
| "sd_op_ok (ReceiptPrepared pid i b c p clock) = json_ok (JObj b)"
| "sd_op_ok (BindDeliveryExact pid b clock) = json_ok (JObj b)"
| "sd_op_ok (DeliveryPrepared pid b d ds t ts si deed clock) = json_ok (JObj b)"
| "sd_op_ok (SettlementFinalized pid ev clock) = json_ok (JObj ev)"
| "sd_op_ok (SettlementAuthorization pid a j clock) = json_ok (JObj j)"
| "sd_op_ok _ = True"

section \<open>The abstract life cycle\<close>

fun sd_next :: "sd_state \<Rightarrow> sd_state list" where
  "sd_next PAYMENT_VERIFIED = [RECEIPT_FUNDING_PREPARED, MANUAL_REVIEW]"
| "sd_next RECEIPT_FUNDING_PREPARED = [RECEIPT_FUNDING_SUBMITTED, RECEIPT_CONFIRMED, MANUAL_REVIEW]"
| "sd_next RECEIPT_FUNDING_SUBMITTED = [RECEIPT_CONFIRMED, MANUAL_REVIEW]"
| "sd_next RECEIPT_CONFIRMED = [DELIVERY_PREPARED, MANUAL_REVIEW]"
| "sd_next DELIVERY_PREPARED = [DELIVERY_SUBMITTED, FINALIZED, EXTERNAL_SETTLEMENT_PENDING, MANUAL_REVIEW]"
| "sd_next DELIVERY_SUBMITTED = [FINALIZED, EXTERNAL_SETTLEMENT_PENDING, MANUAL_REVIEW]"
| "sd_next EXTERNAL_SETTLEMENT_PENDING = [FINALIZED, MANUAL_REVIEW]"
| "sd_next FINALIZED = []"
| "sd_next MANUAL_REVIEW = []"

definition sd_edge :: "sd_state \<Rightarrow> sd_state \<Rightarrow> bool" where
  "sd_edge a b \<longleftrightarrow> b \<in> set (sd_next a)"

lemma sd_edge_final: "sd_edge\<^sup>*\<^sup>* a b \<Longrightarrow> a \<in> {FINALIZED, MANUAL_REVIEW} \<Longrightarrow> b = a"
  by (auto simp: sd_edge_def elim: converse_rtranclpE)

text \<open>
  The moves the operations make: from a row, to a state, writing some columns. This is the table of
  the \<open>record_*\<close> and \<open>bind_*\<close> methods.
\<close>

inductive sd_move :: "sd_row \<Rightarrow> sd_state \<Rightarrow> sd_values \<Rightarrow> bool" where
  funding: "sd_state r \<in> {RECEIPT_FUNDING_PREPARED, RECEIPT_FUNDING_SUBMITTED} \<Longrightarrow>
    sd_move r RECEIPT_FUNDING_SUBMITTED
      [(F_receipt_funding_bundle_id, SText b), (F_receipt_coin_id, SText c),
       (F_receipt_puzzle_hash, SText p), (F_receipt_funding_fee_mojos, opt_int fee),
       (F_receipt_funding_mempool_observed_at, SText m)]"
| receipt_exact: "sd_state r = RECEIPT_FUNDING_PREPARED \<Longrightarrow> json_ok j \<Longrightarrow>
    sd_move r RECEIPT_FUNDING_PREPARED [(F_receipt_funding_exact_bundle_json, SText (canonical_json j))]"
| receipt_prepared: "sd_state r \<in> {PAYMENT_VERIFIED, RECEIPT_FUNDING_PREPARED} \<Longrightarrow> json_ok j \<Longrightarrow>
    sd_move r RECEIPT_FUNDING_PREPARED
      [(F_receipt_funding_input_coin_id, SText i), (F_receipt_funding_bundle_json, SText (canonical_json j)),
       (F_receipt_coin_id, SText c), (F_receipt_puzzle_hash, SText p)]"
| receipt_confirmed:
    "sd_state r \<in> {RECEIPT_FUNDING_PREPARED, RECEIPT_FUNDING_SUBMITTED, RECEIPT_CONFIRMED} \<Longrightarrow>
    sd_move r RECEIPT_CONFIRMED []"
| submission: "sd_state r \<in> {DELIVERY_PREPARED, DELIVERY_SUBMITTED} \<Longrightarrow> outs \<noteq> [] \<Longrightarrow> ts \<noteq> [] \<Longrightarrow>
    sd_move r DELIVERY_SUBMITTED
      ((F_delivery_bundle_id, SText b) # output_values outs ts si @
       [(F_fee_mojos, opt_int fee), (F_mempool_observed_at, SText m)])"
| delivery_exact: "sd_state r = DELIVERY_PREPARED \<Longrightarrow> json_ok j \<Longrightarrow>
    sd_move r DELIVERY_PREPARED [(F_delivery_exact_bundle_json, SText (canonical_json j))]"
| delivery_prepared: "sd_state r \<in> {RECEIPT_CONFIRMED, DELIVERY_PREPARED} \<Longrightarrow> json_ok j \<Longrightarrow>
    outs \<noteq> [] \<Longrightarrow> ts \<noteq> [] \<Longrightarrow>
    sd_move r DELIVERY_PREPARED
      ((F_delivery_bundle_json, SText (canonical_json j)) # output_values outs ts si)"
| finalized: "sd_payment_rail r = PAYMENT_RAIL_STRIPE \<Longrightarrow>
    sd_state r \<in> {DELIVERY_PREPARED, DELIVERY_SUBMITTED, FINALIZED} \<Longrightarrow>
    sd_move r FINALIZED [(F_confirmation_height, SInt h)]"
| confirmed: "sd_payment_rail r \<noteq> PAYMENT_RAIL_STRIPE \<Longrightarrow>
    sd_state r \<in> {DELIVERY_PREPARED, DELIVERY_SUBMITTED, EXTERNAL_SETTLEMENT_PENDING} \<Longrightarrow>
    sd_move r EXTERNAL_SETTLEMENT_PENDING [(F_confirmation_height, SInt h)]"
| settled: "sd_state r \<in> {EXTERNAL_SETTLEMENT_PENDING, FINALIZED} \<Longrightarrow> json_ok j \<Longrightarrow>
    sd_move r FINALIZED [(F_external_settlement_evidence_json, SText (canonical_json j))]"
| authorized: "sd_state r = EXTERNAL_SETTLEMENT_PENDING \<Longrightarrow> json_ok j \<Longrightarrow>
    sd_move r EXTERNAL_SETTLEMENT_PENDING
      [(F_settlement_authorization_id, SText (lower a)),
       (F_settlement_authorization_json, SText (canonical_json j))]"
| review: "sd_state r \<noteq> FINALIZED \<Longrightarrow> sd_move r MANUAL_REVIEW [(F_last_error, SText e)]"

inductive sd_edit :: "sd_row \<Rightarrow> sd_row \<Rightarrow> bool" where
  lease: "sd_state r \<in> set claimable_states \<Longrightarrow> sd_edit r (lease_row ow secs t r)"
| move: "sd_move r st vs \<Longrightarrow> first_conflict r vs = None \<Longrightarrow> sd_edit r (assign_row st vs rel t r)"
| failed: "sd_edit r (error_row e t r)"
| released: "sd_edit r (release_row t r)"

inductive sd_change :: "sd_db \<Rightarrow> sd_db \<Rightarrow> bool" where
  idle: "sd_change db db"
| queued: "rail \<in> set PAYMENT_RAILS \<Longrightarrow> kind \<in> set DELIVERY_KINDS \<Longrightarrow> json_ok (JObj ev) \<Longrightarrow>
    sd_external_id rail ev = Inr xid \<Longrightarrow>
    sql_insert sd_clash (new_row pid xid rail kind (canonical_json (JObj ev)) rh t) db = Some db' \<Longrightarrow>
    sd_change db db'"
| edited: "lookup sd_purchase_id pid db = Some r \<Longrightarrow> sd_edit r r' \<Longrightarrow>
    db' = replace_row sd_purchase_id pid r' db \<Longrightarrow> table_ok sd_clash db' \<Longrightarrow> sd_change db db'"

section \<open>Every call is an abstract change\<close>

lemma update_by_id_Inr:
  assumes "table_ok sd_clash db" and "lookup sd_purchase_id pid db = Some r"
    and "update_by_id pid f db = Inr db'" and "sd_edit r (f r)"
  shows "sd_change db db'"
proof -
  from assms(3) have u: "sql_update sd_clash (\<lambda>r. sd_purchase_id r = pid) f db = Some db'"
    by (auto simp: update_by_id_def split: option.splits)
  show ?thesis
    by (rule edited [OF assms(2,4) sd.update_replaces [OF assms(1,2) u]])
qed

text \<open>An update of an unknown id changes nothing.\<close>

lemma update_by_id_none:
  assumes "lookup sd_purchase_id pid db = None" and "update_by_id pid f db = Inr db'"
  shows "db' = db"
proof -
  have "map (\<lambda>r. if sd_purchase_id r = pid then f r else r) db = db"
    using assms(1) by (intro map_idI) (auto dest: lookup_None_D)
  with assms(2) show ?thesis
    by (auto simp: update_by_id_def sql_update_def Let_def split: option.splits if_splits)
qed

lemma reread_Inr: "reread pid db = Inr (row, db') \<longleftrightarrow> db' = db \<and> lookup sd_purchase_id pid db = Some row"
  by (auto simp: reread_def split: option.splits)

lemma transition_sd_change:
  assumes "table_ok sd_clash db"
    and "\<And>r. lookup sd_purchase_id pid db = Some r \<Longrightarrow> sd_state r \<in> set allowed \<Longrightarrow> sd_move r st vs"
  shows "sd_change db (snd (sd_transition pid allowed st vs rel t db))"
  unfolding sd_transition_def
proof (rule txn_then_keeps)
  fix row db'
  assume "sd_transition_body pid allowed st vs rel t db = Inr (row, db')"
  then obtain r where r: "lookup sd_purchase_id pid db = Some r" "sd_state r \<in> set allowed"
      "first_conflict r vs = None" "update_by_id pid (assign_row st vs rel t) db = Inr db'"
    by (auto simp: sd_transition_body_def bind_Inr reread_Inr split: option.splits)
  show "sd_change db db'"
    by (rule update_by_id_Inr [OF assms(1) r(1,4)]) (intro sd_edit.move assms(2) r)
qed (rule idle)

lemma queue_sd_change:
  assumes "json_ok (JObj ev)"
  shows "sd_change db (snd (sd_queue pid ev rh rail kind now clock db))"
proof (cases "rail \<in> set PAYMENT_RAILS \<and> kind \<in> set DELIVERY_KINDS")
  case True
  show ?thesis
  proof (cases "sd_external_id rail ev")
    case (Inr xid)
    have "sd_change db (snd (txn_then
        (sd_queue_body pid xid rail kind (canonical_json (JObj ev)) rh (or_clock now clock))
        (\<lambda>row _. sd_record row) db))"
    proof (rule txn_then_keeps)
      fix row db'
      assume "sd_queue_body pid xid rail kind (canonical_json (JObj ev)) rh (or_clock now clock) db = Inr (row, db')"
      then show "sd_change db db'"
        using True assms Inr
        by (auto simp: sd_queue_body_def reread_Inr split: option.splits sum.splits
            intro: idle queued)
    qed (rule idle)
    with True Inr show ?thesis by (simp add: sd_queue_def)
  qed (use True in \<open>simp add: sd_queue_def idle\<close>)
qed (auto simp: sd_queue_def idle)

lemma claim_next_change:
  assumes "table_ok sd_clash db"
  shows "sd_change db (snd (claim_next ow secs now clock db))"
  unfolding claim_next_def
proof (rule txn_then_keeps)
  fix x db'
  assume b: "claim_next_body ow secs (or_clock now clock) db = Inr (x, db')"
  show "sd_change db db'"
  proof (cases "fetch_first (\<lambda>r. (sd_updated_at r, sd_purchase_id r)) (select (claimable (or_clock now clock)) db)")
    case None
    with b show ?thesis by (simp add: claim_next_body_def idle)
  next
    case (Some row)
    then have m: "row \<in> set db" "sd_state row \<in> set claimable_states"
      using fetch_first_Some(1) [OF Some] by (auto simp: select_def claimable_def)
    from b Some have u: "update_by_id (sd_purchase_id row) (lease_row ow secs (or_clock now clock)) db = Inr db'"
      by (auto simp: claim_next_body_def bind_Inr reread_Inr)
    show ?thesis
      by (rule update_by_id_Inr [OF assms sd.lookup_mem [OF assms m(1)] u lease [OF m(2)]])
  qed
qed (rule idle)

lemma claim_change:
  assumes "table_ok sd_clash db"
  shows "sd_change db (snd (claim pid ow secs now clock db))"
  unfolding claim_def
proof (rule txn_then_keeps)
  fix x db'
  assume b: "claim_body pid ow secs (or_clock now clock) db = Inr (x, db')"
  then obtain row where row: "lookup sd_purchase_id pid db = Some row"
    by (auto simp: claim_body_def split: option.splits)
  show "sd_change db db'"
  proof (cases "sd_state row \<in> {FINALIZED, MANUAL_REVIEW} \<or> leased_to_other ow (or_clock now clock) row")
    case True
    with b row show ?thesis by (auto simp: claim_body_def idle split: if_splits)
  next
    case False
    with b row have u: "update_by_id pid (lease_row ow secs (or_clock now clock)) db = Inr db'"
      by (auto simp: claim_body_def bind_Inr reread_Inr)
    have "sd_state row \<in> set claimable_states"
      using False by (cases "sd_state row") (auto simp: claimable_states_def)
    then show ?thesis
      by (intro update_by_id_Inr [OF assms row u] lease)
  qed
qed (rule idle)

lemma update_change:
  assumes "table_ok sd_clash db" and "\<And>r. sd_edit r (f r)"
  shows "sd_change db (snd (txn_then (\<lambda>db. bind (update_by_id pid f db) (\<lambda>db'. Inr ((), db'))) k db))"
proof (rule txn_then_keeps)
  fix x db'
  assume "bind (update_by_id pid f db) (\<lambda>db'. Inr ((), db')) = Inr (x, db')"
  then have u: "update_by_id pid f db = Inr db'" by (simp add: bind_Inr)
  show "sd_change db db'"
    by (cases "lookup sd_purchase_id pid db")
      (auto dest: update_by_id_none [OF _ u] intro: idle update_by_id_Inr [OF assms(1) _ u assms(2)])
qed (rule idle)

lemma output_ids_not_Nil: "output_ids a b l = Inr outs \<Longrightarrow> outs \<noteq> []"
  by (auto simp: output_ids_def Let_def split: option.splits list.splits)

lemma delivery_output_ids_not_Nil: "delivery_output_ids a b c = Inr outs \<Longrightarrow> outs \<noteq> []"
  by (auto simp: delivery_output_ids_def Let_def split: option.splits list.splits if_splits
      dest: output_ids_not_Nil)

lemma with_outputs_change:
  assumes "\<And>outs ts. outs \<noteq> [] \<Longrightarrow> ts \<noteq> [] \<Longrightarrow> sd_change db (snd (k outs ts db))"
  shows "sd_change db (snd (with_outputs d ds deed t ts k db))"
  using assms
  by (auto simp: with_outputs_def idle split: sum.splits
      dest!: output_ids_not_Nil delivery_output_ids_not_Nil)

lemma get_rail: "sd_get db pid = Inr v \<Longrightarrow> lookup sd_purchase_id pid db = Some r \<Longrightarrow>
  op_payment_rail v = sd_payment_rail r"
  by (auto simp: sd_get_def sd_record_def Let_def bind_Inr split: option.splits)

lemma finalize_change:
  assumes "table_ok sd_clash db"
  shows "sd_change db (snd (record_finalized pid h clock db))"
  unfolding record_finalized_def
  by (auto simp: idle split: sum.splits
      intro!: transition_sd_change [OF assms] sd_move.finalized dest: get_rail)

lemma confirm_change:
  assumes "table_ok sd_clash db"
  shows "sd_change db (snd (record_delivery_confirmed pid h clock db))"
  unfolding record_delivery_confirmed_def
  by (auto simp: idle split: sum.splits
      intro!: finalize_change [OF assms] transition_sd_change [OF assms] sd_move.confirmed dest: get_rail)

lemma sd_step_change:
  assumes ok: "table_ok sd_clash db" and "sd_op_ok op"
  shows "sd_change db (sd_step op db)"
  using assms(2)
proof (cases op)
  case (Queue pid ev rh rail kind now clock)
  with assms(2) show ?thesis by (simp only: sd_step.simps sd_op_ok.simps queue_sd_change)
next
  case (DeliverySubmission pid b d ds t ts si fee m deed clock)
  then show ?thesis
    by (simp only: sd_step.simps record_delivery_submission_def)
      (rule with_outputs_change, rule transition_sd_change [OF ok], simp, rule sd_move.submission, simp_all)
next
  case (DeliveryPrepared pid b d ds t ts si deed clock)
  with assms(2) show ?thesis
    by (simp only: sd_step.simps record_delivery_prepared_def)
      (rule with_outputs_change, rule transition_sd_change [OF ok], rule sd_move.delivery_prepared, simp_all)
next
  case (ManualReview pid e clock)
  then show ?thesis
    by (simp only: sd_step.simps record_manual_review_def)
      (rule transition_sd_change [OF ok], rule sd_move.review, auto simp: claimable_states_def)
next
  case (Finalize pid h clock)
  then show ?thesis by (simp only: sd_step.simps finalize_change [OF ok])
next
  case (DeliveryConfirmed pid h clock)
  then show ?thesis by (simp only: sd_step.simps confirm_change [OF ok])
next
  case (ClaimNext ow secs now clock)
  then show ?thesis by (simp only: sd_step.simps claim_next_change [OF ok])
next
  case (Claim pid ow secs now clock)
  then show ?thesis by (simp only: sd_step.simps claim_change [OF ok])
next
  case (RecordError pid e clock)
  then show ?thesis by (simp only: sd_step.simps record_error_def update_change [OF ok sd_edit.failed])
next
  case (ReleaseLease pid clock)
  then show ?thesis by (simp only: sd_step.simps release_lease_def update_change [OF ok sd_edit.released])
qed (simp_all only: sd_step.simps sd_op_ok.simps record_receipt_funding_def bind_receipt_exact_bundle_def
      record_receipt_prepared_def record_receipt_confirmed_def bind_delivery_exact_bundle_def
      record_external_settlement_finalized_def record_external_settlement_authorization_def,
    (rule transition_sd_change [OF ok], rule sd_move.intros, simp_all)+)

section \<open>Invariant\<close>

definition json_fields :: "sd_field list" where
  "json_fields =
     [F_receipt_funding_bundle_json, F_receipt_funding_exact_bundle_json, F_delivery_bundle_json,
      F_delivery_exact_bundle_json, F_external_settlement_evidence_json, F_settlement_authorization_json]"

definition int_fields :: "sd_field list" where
  "int_fields = [F_receipt_funding_fee_mojos, F_fee_mojos, F_confirmation_height]"

definition output_fields :: "sd_field list" where
  "output_fields = [F_expected_delivery_output_coin_ids_json, F_expected_treasury_output_coin_ids_json]"

text \<open>What each column may hold.\<close>

definition col_ok :: "sd_field \<Rightarrow> sqlval \<Rightarrow> bool" where
  "col_ok f v \<longleftrightarrow>
     (if f \<in> set json_fields then v = SNull \<or> (\<exists>j. json_ok j \<and> v = SText (canonical_json j))
      else if f \<in> set int_fields then v = SNull \<or> (\<exists>i. v = SInt i)
      else if f \<in> set output_fields then (\<exists>xs. v = strs_value xs)
      else if f = F_signer_indices_json then (\<exists>xs. v = ints_value xs)
      else v = SNull \<or> (\<exists>s. v = SText s))"

lemmas field_kinds = json_fields_def int_fields_def output_fields_def list_fields_def

lemma json_list_Nil: "plain_json (json_strs []) = ''[]''" "plain_json (json_ints []) = ''[]''"
  by (simp_all add: plain_json_def json_strs_def json_ints_def)

lemma strs_value_Nil: "strs_value xs = SText ''[]'' \<longleftrightarrow> xs = []"
proof -
  have "plain_json (json_strs xs) = plain_json (json_strs []) \<longleftrightarrow> xs = []"
    by (subst plain.enc_eq_iff) simp_all
  then show ?thesis by (simp add: strs_value_def json_list_Nil)
qed

lemma bound_simps [simp]:
  "f \<notin> set list_fields \<Longrightarrow> bound f v \<longleftrightarrow> v \<noteq> SNull"
  "bound f SNull \<longleftrightarrow> False"
  "f \<in> set output_fields \<Longrightarrow> bound f (strs_value xs) \<longleftrightarrow> xs \<noteq> []"
  by (auto simp: bound_def strs_value_Nil strs_value_def [of xs, symmetric] field_kinds) (simp_all add: strs_value_def)

text \<open>The columns that are bound in each state.\<close>

definition receipt_fields :: "sd_field list" where
  "receipt_fields =
     [F_receipt_funding_input_coin_id, F_receipt_funding_bundle_json, F_receipt_coin_id,
      F_receipt_puzzle_hash]"

definition delivery_fields :: "sd_field list" where
  "delivery_fields =
     [F_delivery_bundle_json, F_expected_delivery_output_coin_id,
      F_expected_delivery_output_coin_ids_json, F_expected_treasury_output_coin_id,
      F_expected_treasury_output_coin_ids_json]"

fun required :: "sd_state \<Rightarrow> sd_field list" where
  "required PAYMENT_VERIFIED = []"
| "required RECEIPT_FUNDING_PREPARED = receipt_fields"
| "required RECEIPT_FUNDING_SUBMITTED = F_receipt_funding_bundle_id # receipt_fields"
| "required RECEIPT_CONFIRMED = receipt_fields"
| "required DELIVERY_PREPARED = receipt_fields @ delivery_fields"
| "required DELIVERY_SUBMITTED = F_delivery_bundle_id # receipt_fields @ delivery_fields"
| "required FINALIZED = F_confirmation_height # receipt_fields @ delivery_fields"
| "required EXTERNAL_SETTLEMENT_PENDING = F_confirmation_height # receipt_fields @ delivery_fields"
| "required MANUAL_REVIEW = []"

text \<open>The identity of the payment, derived from the stored evidence.\<close>

definition identity_ok :: "sd_row \<Rightarrow> bool" where
  "identity_ok r \<longleftrightarrow>
     sd_payment_rail r \<in> set PAYMENT_RAILS \<and> sd_delivery_kind r \<in> set DELIVERY_KINDS \<and>
     (\<exists>ev. json_ok (JObj ev) \<and> sd_evidence_json r = canonical_json (JObj ev) \<and>
        sd_external_id (sd_payment_rail r) ev = Inr (sd_external_payment_id r))"

definition cols_ok :: "sd_row \<Rightarrow> bool" where
  "cols_ok r \<longleftrightarrow> (\<forall>f. col_ok f (sd_cols r f))"

definition progress_ok :: "sd_row \<Rightarrow> bool" where
  "progress_ok r \<longleftrightarrow> (\<forall>f \<in> set (required (sd_state r)). bound f (sd_cols r f))"

definition rail_ok :: "sd_row \<Rightarrow> bool" where
  "rail_ok r \<longleftrightarrow>
     (sd_state r = EXTERNAL_SETTLEMENT_PENDING \<longrightarrow> sd_payment_rail r \<noteq> PAYMENT_RAIL_STRIPE) \<and>
     (sd_state r = FINALIZED \<and> sd_payment_rail r \<noteq> PAYMENT_RAIL_STRIPE \<longrightarrow>
        bound F_external_settlement_evidence_json (sd_cols r F_external_settlement_evidence_json))"

definition lease_ok :: "sd_row \<Rightarrow> bool" where
  "lease_ok r \<longleftrightarrow> (sd_lease_owner r = None \<longleftrightarrow> sd_lease_expires_at r = None)"

definition sd_wf :: "sd_row \<Rightarrow> bool" where
  "sd_wf r \<longleftrightarrow> identity_ok r \<and> cols_ok r \<and> progress_ok r \<and> rail_ok r \<and> lease_ok r"

definition same_identity :: "sd_row \<Rightarrow> sd_row \<Rightarrow> bool" where
  "same_identity r r' \<longleftrightarrow>
     sd_purchase_id r' = sd_purchase_id r \<and> sd_external_payment_id r' = sd_external_payment_id r \<and>
     sd_payment_rail r' = sd_payment_rail r \<and> sd_delivery_kind r' = sd_delivery_kind r \<and>
     sd_evidence_json r' = sd_evidence_json r \<and> sd_receipt_hash r' = sd_receipt_hash r \<and>
     sd_created_at r' = sd_created_at r"

text \<open>A bound column keeps its value, but for \<open>last_error\<close>.\<close>

definition keeps_bound :: "sd_row \<Rightarrow> sd_row \<Rightarrow> bool" where
  "keeps_bound r r' \<longleftrightarrow>
     (\<forall>f. f \<noteq> F_last_error \<longrightarrow> bound f (sd_cols r f) \<longrightarrow> sd_cols r' f = sd_cols r f)"

definition sd_row_evolves :: "sd_row \<Rightarrow> sd_row \<Rightarrow> bool" where
  "sd_row_evolves r r' \<longleftrightarrow>
     same_identity r r' \<and> sd_edge\<^sup>*\<^sup>* (sd_state r) (sd_state r') \<and> keeps_bound r r'"

lemma sd_row_evolves_refl [simp]: "sd_row_evolves r r"
  by (simp add: sd_row_evolves_def same_identity_def keeps_bound_def)

lemma sd_row_evolves_trans: "sd_row_evolves a b \<Longrightarrow> sd_row_evolves b c \<Longrightarrow> sd_row_evolves a c"
  unfolding sd_row_evolves_def
proof (elim conjE, intro conjI)
  show "same_identity a b \<Longrightarrow> same_identity b c \<Longrightarrow> same_identity a c"
    by (simp add: same_identity_def)
  show "keeps_bound a b \<Longrightarrow> keeps_bound b c \<Longrightarrow> keeps_bound a c"
    by (simp add: keeps_bound_def)
qed (rule rtranclp_trans)

lemma assign_cols_lookup:
  "distinct (map fst vs) \<Longrightarrow>
   assign_cols vs c f = (case map_of vs f of None \<Rightarrow> c f | Some v \<Rightarrow> v)"
  unfolding assign_cols_def
proof (induction vs arbitrary: c)
  case (Cons fv vs)
  obtain g v where fv: "fv = (g, v)" by (cases fv)
  show ?case
    using Cons by (auto simp: fv map_of_eq_None_iff split: option.splits) (metis fst_conv image_eqI map_of_SomeD)+
qed simp

lemma assign_row_fields [simp]:
  "sd_state (assign_row st vs rel t r) = st"
  "sd_payment_rail (assign_row st vs rel t r) = sd_payment_rail r"
  "same_identity r (assign_row st vs rel t r)"
  "lease_ok r \<Longrightarrow> lease_ok (assign_row st vs rel t r)"
  by (simp_all add: assign_row_def Let_def same_identity_def lease_ok_def)

lemma assign_row_cols:
  assumes "distinct (map fst vs)"
  shows "sd_cols (assign_row st vs rel t r) f =
    (case map_of vs f of Some v \<Rightarrow> v | None \<Rightarrow> if f = F_last_error then SNull else sd_cols r f)"
proof -
  have err: "map_of vs F_last_error = None \<longleftrightarrow> F_last_error \<notin> fst ` set vs"
    by (rule map_of_eq_None_iff)
  have "sd_cols (assign_row st vs rel t r) =
      assign_cols vs (if map_of vs F_last_error = None then (sd_cols r)(F_last_error := SNull) else sd_cols r)"
    unfolding err by (simp add: assign_row_def Let_def)
  then show ?thesis
    by (auto simp: assign_cols_lookup [OF assms] split: option.splits)
qed

lemma move_distinct: "sd_move r st vs \<Longrightarrow> distinct (map fst vs)"
  by (induction rule: sd_move.induct) (simp_all add: output_values_def)

lemma move_cols_ok: "sd_move r st vs \<Longrightarrow> (f, v) \<in> set vs \<Longrightarrow> col_ok f v"
  by (induction rule: sd_move.induct)
    (auto simp: output_values_def col_ok_def field_kinds opt_int_def split: option.splits)

lemma move_edge: "sd_move r st vs \<Longrightarrow> sd_edge\<^sup>*\<^sup>* (sd_state r) st"
proof (induction rule: sd_move.induct)
  case (review r e)
  then show ?case by (cases "sd_state r") (auto simp: sd_edge_def)
qed (auto simp: sd_edge_def)

text \<open>A required column of the target is required of the source or written, bound, by the move.\<close>

definition supplies :: "sd_state \<Rightarrow> sd_values \<Rightarrow> sd_field \<Rightarrow> bool" where
  "supplies st vs f \<longleftrightarrow>
     f \<in> set (required st) \<or> (case map_of vs f of None \<Rightarrow> False | Some v \<Rightarrow> bound f v)"

lemma bound_text:
  "bound F_delivery_bundle_json (SText s)" "bound F_delivery_bundle_id (SText s)"
  "bound F_receipt_funding_bundle_id (SText s)" "bound F_receipt_funding_input_coin_id (SText s)"
  "bound F_receipt_funding_bundle_json (SText s)" "bound F_receipt_coin_id (SText s)"
  "bound F_receipt_puzzle_hash (SText s)" "bound F_expected_delivery_output_coin_id (SText s)"
  "bound F_expected_treasury_output_coin_id (SText s)" "bound F_confirmation_height (SInt i)"
  "outs \<noteq> [] \<Longrightarrow> bound F_expected_delivery_output_coin_ids_json (strs_value outs)"
  "outs \<noteq> [] \<Longrightarrow> bound F_expected_treasury_output_coin_ids_json (strs_value outs)"
  by (simp_all add: field_kinds)

lemma move_supplies: "sd_move r st vs \<Longrightarrow> list_all (supplies (sd_state r) vs) (required st)"
  by (induction rule: sd_move.induct)
    (auto simp: supplies_def receipt_fields_def delivery_fields_def output_values_def bound_text
      simp del: bound_simps)

lemma move_required:
  "sd_move r st vs \<Longrightarrow> f \<in> set (required st) \<Longrightarrow>
   f \<in> set (required (sd_state r)) \<or> (\<exists>v. map_of vs f = Some v \<and> bound f v)"
proof -
  assume "sd_move r st vs" and f: "f \<in> set (required st)"
  from move_supplies [OF this(1)] f have "supplies (sd_state r) vs f" by (simp add: list_all_iff)
  then show ?thesis by (auto simp: supplies_def split: option.splits)
qed

lemma required_not_error: "F_last_error \<notin> set (required st)"
  by (cases st) (auto simp: receipt_fields_def delivery_fields_def)

lemma no_conflictD:
  assumes "first_conflict r vs = None" and "(f, v) \<in> set vs" and "bound f (sd_cols r f)"
  shows "v = sd_cols r f"
  using assms by (auto simp: first_conflict_def find_None_iff)

lemma move_keeps_bound:
  assumes "sd_move r st vs" and "first_conflict r vs = None"
  shows "keeps_bound r (assign_row st vs rel t r)"
  unfolding keeps_bound_def
  by (auto simp: assign_row_cols [OF move_distinct [OF assms(1)]] split: option.splits
      dest!: map_of_SomeD dest: no_conflictD [OF assms(2)])

lemma sd_move_wf:
  assumes m: "sd_move r st vs" and "first_conflict r vs = None" and wf: "sd_wf r"
  shows "sd_wf (assign_row st vs rel t r)"
proof -
  let ?r = "assign_row st vs rel t r"
  note cols = assign_row_cols [OF move_distinct [OF m], of st rel t r]
  note keep = move_keeps_bound [OF assms(1,2), of rel t, unfolded keeps_bound_def, rule_format]
  have "cols_ok ?r"
    unfolding cols_ok_def
  proof
    fix f
    show "col_ok f (sd_cols ?r f)"
    proof (cases "map_of vs f")
      case None
      with wf show ?thesis
        by (auto simp: cols sd_wf_def cols_ok_def) (simp add: col_ok_def field_kinds)
    next
      case (Some v)
      then show ?thesis by (simp add: cols move_cols_ok [OF m map_of_SomeD])
    qed
  qed
  moreover have "progress_ok ?r"
    unfolding progress_ok_def
  proof
    fix f assume "f \<in> set (required (sd_state ?r))"
    then have f: "f \<in> set (required st)" "f \<noteq> F_last_error" by (auto simp: required_not_error)
    from move_required [OF m f(1)] show "bound f (sd_cols ?r f)"
    proof
      assume "f \<in> set (required (sd_state r))"
      then have "bound f (sd_cols r f)" using wf by (auto simp: sd_wf_def progress_ok_def)
      with keep [OF f(2)] show ?thesis by simp
    next
      assume "\<exists>v. map_of vs f = Some v \<and> bound f v"
      then show ?thesis by (auto simp: cols)
    qed
  qed
  moreover have "rail_ok ?r"
    using m wf keep [of F_external_settlement_evidence_json] cols [of F_external_settlement_evidence_json]
    by (induction rule: sd_move.cases) (auto simp: rail_ok_def sd_wf_def list_fields_def)
  moreover have "identity_ok ?r"
    using wf by (simp add: sd_wf_def identity_ok_def assign_row_def Let_def)
  ultimately show ?thesis
    using wf by (simp add: sd_wf_def)
qed

lemma edit_evolves: "sd_edit r r' \<Longrightarrow> sd_row_evolves r r'"
proof (induction rule: sd_edit.induct)
  case (move r st vs rel t)
  then show ?case by (simp add: sd_row_evolves_def move_edge move_keeps_bound)
qed (auto simp: sd_row_evolves_def same_identity_def keeps_bound_def lease_row_def error_row_def
    release_row_def)

lemma edit_sd_wf: "sd_edit r r' \<Longrightarrow> sd_wf r \<Longrightarrow> sd_wf r'"
proof (induction rule: sd_edit.induct)
  case (failed r e t)
  moreover have "col_ok F_last_error (SText e)" by (simp add: col_ok_def field_kinds)
  ultimately show ?case
    by (auto simp: sd_wf_def identity_ok_def cols_ok_def progress_ok_def rail_ok_def lease_ok_def
        error_row_def required_not_error)
qed (auto simp: sd_move_wf, auto simp: sd_wf_def identity_ok_def cols_ok_def progress_ok_def rail_ok_def
    lease_ok_def lease_row_def release_row_def)

lemma new_row_wf:
  assumes "rail \<in> set PAYMENT_RAILS" and "kind \<in> set DELIVERY_KINDS" and "json_ok (JObj ev)"
    and "sd_external_id rail ev = Inr xid"
  shows "sd_wf (new_row pid xid rail kind (canonical_json (JObj ev)) rh t)"
proof -
  have "col_ok f (default_cols f)" for f
    by (auto simp: col_ok_def default_cols_def field_kinds strs_value_def ints_value_def
        json_list_Nil intro: exI [of _ "[]"])
  with assms show ?thesis
    by (auto simp: sd_wf_def new_row_def identity_ok_def cols_ok_def progress_ok_def rail_ok_def lease_ok_def)
qed

definition sd_inv :: "sd_db \<Rightarrow> bool" where
  "sd_inv db \<longleftrightarrow> table_ok sd_clash db \<and> list_all sd_wf db"

definition sd_evolves :: "sd_db \<Rightarrow> sd_db \<Rightarrow> bool" where
  "sd_evolves db db' \<longleftrightarrow>
     (\<forall>pid r. lookup sd_purchase_id pid db = Some r \<longrightarrow>
        (\<exists>r'. lookup sd_purchase_id pid db' = Some r' \<and> sd_row_evolves r r'))"

lemma sd_change_inv: "sd_change db db' \<Longrightarrow> sd_inv db \<Longrightarrow> sd_inv db'"
proof (induction rule: sd_change.induct)
  case (queued rail kind ev xid pid rh t db db')
  then have "table_ok sd_clash db'" by (auto simp: sd_inv_def intro: sd.ok_insert)
  moreover have "list_all sd_wf db'"
    using queued new_row_wf [OF queued(1-4)] by (simp add: sd_inv_def list_all_insert)
  ultimately show ?case by (simp add: sd_inv_def)
next
  case (edited pid db r r' db')
  then have "sd_wf r'"
    by (auto simp: sd_inv_def list_all_iff dest!: lookup_Some_D edit_sd_wf)
  with edited show ?case
    by (auto simp: sd_inv_def list_all_iff dest!: replace_row_mem)
qed

lemma sd_change_evolves: "sd_change db db' \<Longrightarrow> sd_evolves db db'"
proof (induction rule: sd_change.induct)
  case (queued rail kind ev xid pid rh t db db')
  then show ?case by (auto simp: sd_evolves_def sd.lookup_insert_old)
next
  case (edited pid db r r' db')
  then have r: "sd_row_evolves r r'" "sd_purchase_id r' = pid"
    using edit_evolves [OF edited(2)]
    by (auto simp: sd_row_evolves_def same_identity_def dest: lookup_Some_D)
  with edited show ?case by (auto simp: sd_evolves_def sd.lookup_replace)
qed (auto simp: sd_evolves_def)

interpretation sdst: store sd_step sd_inv sd_op_ok
  by unfold_locales (rule sd_change_inv, rule sd_step_change, auto simp: sd_inv_def)

lemma sd_run_inv: "list_all sd_op_ok ops \<Longrightarrow> sd_inv (run sd_step ops [])"
  by (rule sdst.run_inv) (simp_all add: sd_inv_def)

lemma sd_run_evolves:
  assumes "sd_inv db" and "list_all sd_op_ok ops"
  shows "sd_evolves db (run sd_step ops db)"
proof (rule sdst.run_mono [OF _ _ _ assms])
  show "sd_evolves db (sd_step op db)" if "sd_inv db" "sd_op_ok op" for op db
    using that by (intro sd_change_evolves sd_step_change) (auto simp: sd_inv_def)
  show "reflp sd_evolves" by (auto simp: reflp_def sd_evolves_def)
  show "transp sd_evolves"
    unfolding transp_def sd_evolves_def by (meson sd_row_evolves_trans)
qed

lemma sd_run_rows:
  assumes "list_all sd_op_ok ops" and "r \<in> set (run sd_step ops [])"
  shows "sd_wf r" and "lookup sd_purchase_id (sd_purchase_id r) (run sd_step ops []) = Some r"
  using sd_run_inv [OF assms(1)] assms(2) by (auto simp: sd_inv_def list_all_iff sd.lookup_mem)

section \<open>Decoding\<close>

lemma external_id_canon:
  assumes "json_ok (JObj ev)"
  shows "canon (JObj ev) = JObj (sort_key fst (map (\<lambda>(k, v). (k, canon v)) ev))"
    and "sd_external_id rail (sort_key fst (map (\<lambda>(k, v). (k, canon v)) ev)) = sd_external_id rail ev"
proof -
  note m = map_of_canon [OF assms]
  show "sd_external_id rail (sort_key fst (map (\<lambda>(k, v). (k, canon v)) ev)) = sd_external_id rail ev"
    unfolding sd_external_id_def m by (auto simp: Let_def split: option.splits json.splits)
qed simp

text \<open>The payment that a stored row's evidence names.\<close>

definition payment_of :: "sd_row \<Rightarrow> string option" where
  "payment_of r =
     (case loads (sd_evidence_json r) of
        Some (JObj ev) \<Rightarrow> (case sd_external_id (sd_payment_rail r) ev of Inr p \<Rightarrow> Some p | Inl _ \<Rightarrow> None)
      | _ \<Rightarrow> None)"

lemma payment_of_wf: "sd_wf r \<Longrightarrow> payment_of r = Some (sd_external_payment_id r)"
proof -
  assume "sd_wf r"
  then obtain ev where ev: "json_ok (JObj ev)" "sd_evidence_json r = canonical_json (JObj ev)"
      "sd_external_id (sd_payment_rail r) ev = Inr (sd_external_payment_id r)"
    by (auto simp: sd_wf_def identity_ok_def)
  have "loads (sd_evidence_json r) = Some (canon (JObj ev))"
    by (simp only: ev(2) canonical.dec_enc [OF ev(1)])
  then show ?thesis
    by (simp add: payment_of_def external_id_canon(2) [OF ev(1)] ev(3))
qed

section \<open>Properties\<close>

definition sample_evidence :: "(string \<times> json) list" where
  "sample_evidence = [(''paymentIntentId'', JStr ''Pi''), (''a'', JInt 1)]"

definition sample_sd_ops :: "sd_op list" where
  "sample_sd_ops =
     [Queue ''p1'' sample_evidence ''rh1'' PAYMENT_RAIL_STRIPE DELIVERY_SGT None 10,
      Claim ''p1'' ''w1'' 30 None 11,
      ReceiptPrepared ''p1'' ''ci'' [] ''rc'' ''ph'' 12,
      ReceiptConfirmed ''p1'' 13,
      DeliveryPrepared ''p1'' [] None (Some [''0xAA'', ''0xBB'']) ''0xCC'' None [0, 2] None 14,
      Finalize ''p1'' 77 15]"

lemma sample_sd_ok: "list_all sd_op_ok sample_sd_ops" "sd_op_ok (Queue p sample_evidence h ra k n c)"
  by (simp_all add: sample_sd_ops_def sample_evidence_def)

lemma sample_sd_run: "map (\<lambda>r. (sd_purchase_id r, sd_external_payment_id r, sd_state r,
    sd_cols r F_expected_delivery_output_coin_id, sd_cols r F_confirmation_height)) (run sd_step sample_sd_ops [])
  = [(''p1'', ''pi'', FINALIZED, SText ''0xaa'', SInt 77)]"
  by code_simp

text \<open>
  C23. No payment is delivered twice: in every state the store can reach, the evidence of every
  operation names a payment (its Stripe intent or its Base USDC id, in lower case), and two
  different operations never name the same one.
\<close>

theorem sd_payment_once:
  assumes "list_all sd_op_ok ops"
  shows "distinct (map payment_of (run sd_step ops [])) \<and> None \<notin> payment_of ` set (run sd_step ops [])"
proof -
  have "table_ok sd_clash rs \<Longrightarrow> distinct (map sd_external_payment_id rs)" for rs
    by (induction rs) (auto simp: list_all_iff sd_clash_def)
  then have "distinct (map sd_external_payment_id (run sd_step ops []))"
    using sd_run_inv [OF assms] by (simp add: sd_inv_def)
  then have d: "distinct (map (Some \<circ> sd_external_payment_id) (run sd_step ops []))"
    by (auto simp: distinct_map inj_on_def)
  have eq: "map payment_of (run sd_step ops []) = map (Some \<circ> sd_external_payment_id) (run sd_step ops [])"
    using sd_run_rows(1) [OF assms] by (auto simp: payment_of_wf)
  have "None \<notin> set (map payment_of (run sd_step ops []))"
    unfolding eq by auto
  moreover have "distinct (map payment_of (run sd_step ops []))"
    unfolding eq by (rule d)
  ultimately show ?thesis by simp
qed

theorem sd_payment_once_witness:
  "distinct (map payment_of (run sd_step sample_sd_ops [])) \<and>
   None \<notin> payment_of ` set (run sd_step sample_sd_ops [])"
  by (rule sd_payment_once) (rule sample_sd_ok)

text \<open>
  C24. Forward only, bound once: from any reachable state, whatever calls follow, an operation keeps
  its payment identity, moves only along the life cycle (so a finalized or manually reviewed one
  never moves again), and every column that has been bound, the error message apart, keeps its value.
\<close>

theorem sd_bound_once:
  assumes "list_all sd_op_ok ops" and "list_all sd_op_ok ops'"
    and "r \<in> set (run sd_step ops [])"
  shows "\<exists>r'. lookup sd_purchase_id (sd_purchase_id r) (run sd_step (ops @ ops') []) = Some r' \<and>
    sd_external_payment_id r' = sd_external_payment_id r \<and> sd_evidence_json r' = sd_evidence_json r \<and>
    sd_edge\<^sup>*\<^sup>* (sd_state r) (sd_state r') \<and>
    (sd_state r \<in> {FINALIZED, MANUAL_REVIEW} \<longrightarrow> sd_state r' = sd_state r) \<and>
    (\<forall>f. f \<noteq> F_last_error \<and> bound f (sd_cols r f) \<longrightarrow> sd_cols r' f = sd_cols r f)"
proof -
  have "sd_evolves (run sd_step ops []) (run sd_step ops' (run sd_step ops []))"
    by (rule sd_run_evolves [OF sd_run_inv [OF assms(1)] assms(2)])
  then obtain r' where r': "lookup sd_purchase_id (sd_purchase_id r) (run sd_step (ops @ ops') []) = Some r'"
      "sd_row_evolves r r'"
    using sd_run_rows(2) [OF assms(1,3)] unfolding sd_evolves_def run_append by blast
  then show ?thesis
    using sd_edge_final [of "sd_state r" "sd_state r'"]
    by (intro exI [of _ r']) (simp add: sd_row_evolves_def same_identity_def keeps_bound_def)
qed

theorem sd_bound_once_witness:
  "\<exists>r'. lookup sd_purchase_id ''p1'' (run sd_step (sample_sd_ops @ [ReceiptPrepared ''p1'' ''other'' [] ''rc'' ''ph'' 16]) [])
     = Some r' \<and> sd_state r' = FINALIZED"
proof -
  obtain r where r: "r \<in> set (run sd_step sample_sd_ops [])" "sd_purchase_id r = ''p1''" "sd_state r = FINALIZED"
    using sample_sd_run by (cases "run sd_step sample_sd_ops []") auto
  show ?thesis
    using sd_bound_once [OF sample_sd_ok(1) _ r(1), of "[ReceiptPrepared ''p1'' ''other'' [] ''rc'' ''ph'' 16]"] r(2,3)
    by auto
qed

text \<open>
  Delivery never precedes its proof: in every reachable state a finalized operation has its
  receipt coin, delivery bundle, non-empty output manifests and confirmation height on record, one
  paid on Base also the evidence of its external settlement; a delivery that is prepared or later
  has its receipt on record; and only Base payments wait for an external settlement.
\<close>

theorem sd_settlement_evidence:
  assumes "list_all sd_op_ok ops" and "r \<in> set (run sd_step ops [])"
  shows "(sd_state r = FINALIZED \<longrightarrow> sd_cols r F_confirmation_height \<noteq> SNull \<and>
        (sd_payment_rail r = PAYMENT_RAIL_STRIPE \<or>
         sd_payment_rail r = PAYMENT_RAIL_BASE_USDC \<and> sd_cols r F_external_settlement_evidence_json \<noteq> SNull)) \<and>
    (sd_state r \<in> {DELIVERY_PREPARED, DELIVERY_SUBMITTED, EXTERNAL_SETTLEMENT_PENDING, FINALIZED} \<longrightarrow>
        sd_cols r F_receipt_coin_id \<noteq> SNull \<and> sd_cols r F_receipt_funding_input_coin_id \<noteq> SNull \<and>
        sd_cols r F_delivery_bundle_json \<noteq> SNull \<and>
        (\<exists>outs. outs \<noteq> [] \<and> sd_cols r F_expected_delivery_output_coin_ids_json = strs_value outs)) \<and>
    (sd_state r = EXTERNAL_SETTLEMENT_PENDING \<longrightarrow> sd_payment_rail r = PAYMENT_RAIL_BASE_USDC)"
proof -
  note wf = sd_run_rows(1) [OF assms]
  then have p: "\<And>f. f \<in> set (required (sd_state r)) \<Longrightarrow> bound f (sd_cols r f)"
    and rl: "rail_ok r" and pr: "sd_payment_rail r = PAYMENT_RAIL_STRIPE \<or> sd_payment_rail r = PAYMENT_RAIL_BASE_USDC"
    by (auto simp: sd_wf_def progress_ok_def identity_ok_def PAYMENT_RAILS_def)
  have "col_ok F_expected_delivery_output_coin_ids_json (sd_cols r F_expected_delivery_output_coin_ids_json)"
    using wf by (simp add: sd_wf_def cols_ok_def)
  then obtain outs where outs: "sd_cols r F_expected_delivery_output_coin_ids_json = strs_value outs"
    by (auto simp: col_ok_def field_kinds)
  have out: "bound F_expected_delivery_output_coin_ids_json (strs_value outs) \<Longrightarrow> outs \<noteq> []"
    by (simp add: output_fields_def)
  have b: "bound F_confirmation_height v \<Longrightarrow> v \<noteq> SNull" "bound F_receipt_coin_id v \<Longrightarrow> v \<noteq> SNull"
      "bound F_receipt_funding_input_coin_id v \<Longrightarrow> v \<noteq> SNull" "bound F_delivery_bundle_json v \<Longrightarrow> v \<noteq> SNull"
      "bound F_external_settlement_evidence_json v \<Longrightarrow> v \<noteq> SNull" for v
    by (simp_all add: bound_def)
  have "sd_state r = FINALIZED \<Longrightarrow> sd_cols r F_confirmation_height \<noteq> SNull"
    by (rule b(1), rule p) simp
  moreover have "sd_state r = FINALIZED \<Longrightarrow> sd_payment_rail r = PAYMENT_RAIL_STRIPE \<or>
      sd_payment_rail r = PAYMENT_RAIL_BASE_USDC \<and> sd_cols r F_external_settlement_evidence_json \<noteq> SNull"
    using rl pr b(5) by (auto simp: rail_ok_def)
  moreover have "sd_state r = EXTERNAL_SETTLEMENT_PENDING \<Longrightarrow> sd_payment_rail r = PAYMENT_RAIL_BASE_USDC"
    using rl pr by (auto simp: rail_ok_def)
  moreover have "sd_cols r F_receipt_coin_id \<noteq> SNull" "sd_cols r F_receipt_funding_input_coin_id \<noteq> SNull"
      "sd_cols r F_delivery_bundle_json \<noteq> SNull" "outs \<noteq> []"
    if "sd_state r \<in> {DELIVERY_PREPARED, DELIVERY_SUBMITTED, EXTERNAL_SETTLEMENT_PENDING, FINALIZED}"
  proof -
    have "set (receipt_fields @ delivery_fields) \<subseteq> set (required (sd_state r))"
      using that by auto
    then have q: "f \<in> set (receipt_fields @ delivery_fields) \<Longrightarrow> bound f (sd_cols r f)" for f
      using p by blast
    show "sd_cols r F_receipt_coin_id \<noteq> SNull" "sd_cols r F_receipt_funding_input_coin_id \<noteq> SNull"
        "sd_cols r F_delivery_bundle_json \<noteq> SNull"
      by (rule b(2-4), rule q, simp add: receipt_fields_def delivery_fields_def)+
    have "bound F_expected_delivery_output_coin_ids_json (strs_value outs)"
      unfolding outs [symmetric] by (rule q) (simp add: delivery_fields_def)
    then show "outs \<noteq> []" by (rule out)
  qed
  ultimately show ?thesis using outs by blast
qed

theorem sd_settlement_evidence_witness:
  "\<exists>r \<in> set (run sd_step sample_sd_ops []). sd_state r = FINALIZED \<and> sd_cols r F_confirmation_height \<noteq> SNull"
proof -
  obtain r where r: "r \<in> set (run sd_step sample_sd_ops [])" "sd_state r = FINALIZED"
    using sample_sd_run by (cases "run sd_step sample_sd_ops []") auto
  with sd_settlement_evidence [OF sample_sd_ok(1) r(1)] show ?thesis by blast
qed

text \<open>What the decoded operation of a row shows.\<close>

definition doc_shows :: "sqlval \<Rightarrow> json option \<Rightarrow> bool" where
  "doc_shows v d \<longleftrightarrow> v = (case d of None \<Rightarrow> SNull | Some j \<Rightarrow> SText (canonical_json j))"

definition sd_shows :: "sd_row \<Rightarrow> StripeDeliveryOperation \<Rightarrow> bool" where
  "sd_shows r v \<longleftrightarrow>
     op_purchase_id v = sd_purchase_id r \<and> op_external_payment_id v = sd_external_payment_id r \<and>
     op_payment_rail v = sd_payment_rail r \<and> op_delivery_kind v = sd_delivery_kind r \<and>
     op_receipt_hash v = sd_receipt_hash r \<and> op_state v = sd_state r \<and>
     sd_evidence_json r = canonical_json (op_evidence v) \<and>
     doc_shows (sd_cols r F_receipt_funding_bundle_json) (op_receipt_funding_bundle v) \<and>
     doc_shows (sd_cols r F_receipt_funding_exact_bundle_json) (op_receipt_funding_exact_bundle v) \<and>
     doc_shows (sd_cols r F_delivery_bundle_json) (op_delivery_bundle v) \<and>
     doc_shows (sd_cols r F_delivery_exact_bundle_json) (op_delivery_exact_bundle v) \<and>
     doc_shows (sd_cols r F_external_settlement_evidence_json) (op_external_settlement_evidence v) \<and>
     doc_shows (sd_cols r F_settlement_authorization_json) (op_settlement_authorization v) \<and>
     sd_cols r F_expected_delivery_output_coin_ids_json = strs_value (op_expected_delivery_output_coin_ids v) \<and>
     sd_cols r F_expected_treasury_output_coin_ids_json = strs_value (op_expected_treasury_output_coin_ids v) \<and>
     sd_cols r F_signer_indices_json = ints_value (op_signer_indices v) \<and>
     sd_cols r F_confirmation_height = opt_int (op_confirmation_height v) \<and>
     sd_cols r F_fee_mojos = opt_int (op_fee_mojos v)"

lemma sd_shows_basic:
  "sd_shows r v \<Longrightarrow> op_purchase_id v = sd_purchase_id r"
  "sd_shows r v \<Longrightarrow> op_state v = sd_state r"
  "sd_shows r v \<Longrightarrow> sd_evidence_json r = canonical_json (op_evidence v)"
  "sd_shows r v \<Longrightarrow> op_external_payment_id v = sd_external_payment_id r"
  "sd_shows r v \<Longrightarrow> op_receipt_hash v = sd_receipt_hash r"
  "sd_shows r v \<Longrightarrow> op_payment_rail v = sd_payment_rail r"
  "sd_shows r v \<Longrightarrow> op_delivery_kind v = sd_delivery_kind r"
  by (simp_all add: sd_shows_def)

lemma load_col_ok:
  assumes "col_ok f v" and "f \<in> set json_fields"
  shows "\<exists>d. load_col v = Inr d \<and> doc_shows v d"
proof -
  from assms consider "v = SNull" | j where "json_ok j" "v = SText (canonical_json j)"
    by (auto simp: col_ok_def)
  then show ?thesis
    by cases (auto simp: load_col_def doc_shows_def canonical.dec_enc canonical.enc_norm)
qed

lemma int_col_ok:
  assumes "col_ok f v" and "f \<in> set int_fields"
  shows "\<exists>d. int_col v = Inr d \<and> v = opt_int d"
proof -
  have "f \<notin> set json_fields" using assms(2) by (auto simp: field_kinds)
  with assms consider "v = SNull" | i where "v = SInt i" by (auto simp: col_ok_def)
  then show ?thesis by cases (auto simp: int_col_def opt_int_def intro: exI [of _ None])
qed

lemma strs_col_value [simp]: "strs_col (strs_value xs) = Inr xs"
proof -
  have "map_result (\<lambda>v. case v of JStr t \<Rightarrow> Inr t | _ \<Rightarrow> Inl SdJSONDecodeError) (map JStr xs) = Inr xs"
    by (induction xs) auto
  moreover have "loads (plain_json (json_strs xs)) = Some (json_strs xs)"
    using plain.dec_enc [of "json_strs xs"] by simp
  ultimately show ?thesis by (simp add: strs_col_def strs_value_def) (simp add: json_strs_def)
qed

lemma ints_col_value [simp]: "ints_col (ints_value xs) = Inr xs"
proof -
  have "map_result (\<lambda>v. case v of JInt t \<Rightarrow> Inr t | _ \<Rightarrow> Inl SdJSONDecodeError) (map JInt xs) = Inr xs"
    by (induction xs) auto
  moreover have "loads (plain_json (json_ints xs)) = Some (json_ints xs)"
    using plain.dec_enc [of "json_ints xs"] by simp
  ultimately show ?thesis by (simp add: ints_col_def ints_value_def) (simp add: json_ints_def)
qed

lemma sd_record_total:
  assumes "sd_wf r"
  shows "\<exists>v. sd_record r = Inr v \<and> sd_shows r v"
proof -
  have c: "col_ok f (sd_cols r f)" for f using assms by (simp add: sd_wf_def cols_ok_def)
  obtain ev where ev: "json_ok ev" "sd_evidence_json r = canonical_json ev"
    using assms unfolding sd_wf_def identity_ok_def by (elim conjE exE)
  have j: "f \<in> set json_fields \<Longrightarrow> \<exists>d. load_col (sd_cols r f) = Inr d \<and> doc_shows (sd_cols r f) d" for f
    using c by (rule load_col_ok)
  have i: "f \<in> set int_fields \<Longrightarrow> \<exists>d. int_col (sd_cols r f) = Inr d \<and> sd_cols r f = opt_int d" for f
    using c by (rule int_col_ok)
  obtain d1 where d1: "load_col (sd_cols r F_receipt_funding_bundle_json) = Inr d1" "doc_shows (sd_cols r F_receipt_funding_bundle_json) d1"
    using j by (fastforce simp: json_fields_def)
  obtain d2 where d2: "load_col (sd_cols r F_receipt_funding_exact_bundle_json) = Inr d2" "doc_shows (sd_cols r F_receipt_funding_exact_bundle_json) d2"
    using j by (fastforce simp: json_fields_def)
  obtain d3 where d3: "load_col (sd_cols r F_delivery_bundle_json) = Inr d3" "doc_shows (sd_cols r F_delivery_bundle_json) d3"
    using j by (fastforce simp: json_fields_def)
  obtain d4 where d4: "load_col (sd_cols r F_delivery_exact_bundle_json) = Inr d4" "doc_shows (sd_cols r F_delivery_exact_bundle_json) d4"
    using j by (fastforce simp: json_fields_def)
  obtain d5 where d5: "load_col (sd_cols r F_external_settlement_evidence_json) = Inr d5" "doc_shows (sd_cols r F_external_settlement_evidence_json) d5"
    using j by (fastforce simp: json_fields_def)
  obtain d6 where d6: "load_col (sd_cols r F_settlement_authorization_json) = Inr d6" "doc_shows (sd_cols r F_settlement_authorization_json) d6"
    using j by (fastforce simp: json_fields_def)
  obtain i1 where i1: "int_col (sd_cols r F_receipt_funding_fee_mojos) = Inr i1"
    using i by (fastforce simp: int_fields_def)
  obtain i2 where i2: "int_col (sd_cols r F_fee_mojos) = Inr i2" "sd_cols r F_fee_mojos = opt_int i2"
    using i by (fastforce simp: int_fields_def)
  obtain i3 where i3: "int_col (sd_cols r F_confirmation_height) = Inr i3" "sd_cols r F_confirmation_height = opt_int i3"
    using i by (fastforce simp: int_fields_def)
  obtain x1 where x1: "sd_cols r F_expected_delivery_output_coin_ids_json = strs_value x1"
    using c [of F_expected_delivery_output_coin_ids_json] by (auto simp: col_ok_def field_kinds)
  obtain x2 where x2: "sd_cols r F_expected_treasury_output_coin_ids_json = strs_value x2"
    using c [of F_expected_treasury_output_coin_ids_json] by (auto simp: col_ok_def field_kinds)
  obtain x3 where x3: "sd_cols r F_signer_indices_json = ints_value x3"
    using c [of F_signer_indices_json] by (auto simp: col_ok_def field_kinds)
  have e: "loads (sd_evidence_json r) = Some (canon ev)" "sd_evidence_json r = canonical_json (canon ev)"
    by (simp_all add: ev(2) canonical.dec_enc [OF ev(1)] canonical.enc_norm)
  show ?thesis
    unfolding sd_record_def Let_def e(1) d1(1) d2(1) d3(1) d4(1) d5(1) d6(1) i1 i2(1) i3(1) x1 x2 x3
      strs_col_value ints_col_value bind_simps option.case
    by (rule exI, rule conjI, rule refl) (simp add: sd_shows_def d1 d2 d3 d4 d5 d6 i2 i3 x1 x2 x3 e(2))
qed

lemma sd_get_total:
  assumes "sd_inv db" and "lookup sd_purchase_id pid db = Some r"
  shows "\<exists>v. sd_get db pid = Inr v \<and> sd_record r = Inr v \<and> sd_shows r v"
proof -
  have "sd_wf r" using assms by (auto simp: sd_inv_def list_all_iff dest: lookup_Some_D)
  from sd_record_total [OF this] assms(2) show ?thesis by (auto simp: sd_get_def)
qed

text \<open>
  Stored operations decode: in every reachable state \<open>get\<close> returns an operation for the id of
  every row; its documents, output manifests and signer indices are the values whose text the row holds.
\<close>

theorem sd_get_decodes:
  assumes "list_all sd_op_ok ops" and "r \<in> set (run sd_step ops [])"
  shows "\<exists>v. sd_get (run sd_step ops []) (sd_purchase_id r) = Inr v \<and> sd_shows r v"
  using sd_get_total [OF sd_run_inv [OF assms(1)] sd_run_rows(2) [OF assms]] by blast

theorem sd_get_decodes_witness:
  "\<exists>r v. sd_get (run sd_step sample_sd_ops []) ''p1'' = Inr v \<and> sd_shows r v \<and> op_state v = FINALIZED"
proof -
  obtain r where r: "r \<in> set (run sd_step sample_sd_ops [])" "sd_purchase_id r = ''p1''" "sd_state r = FINALIZED"
    using sample_sd_run by (cases "run sd_step sample_sd_ops []") auto
  from sd_get_decodes [OF sample_sd_ok(1) r(1)] obtain v where
    "sd_get (run sd_step sample_sd_ops []) ''p1'' = Inr v" "sd_shows r v"
    unfolding r(2) by blast
  moreover from this r(3) have "op_state v = FINALIZED" unfolding sd_shows_def by simp
  ultimately show ?thesis by blast
qed

lemma transition_commutes:
  assumes "sd_inv db" and "lookup sd_purchase_id pid db = Some r"
    and "sd_state r \<in> set allowed" and "first_conflict r vs = None"
    and "update_by_id pid (assign_row st vs rel t) db = Inr db'" and "sd_move r st vs"
  shows "sd_transition pid allowed st vs rel t db =
      (sd_record (assign_row st vs rel t r), db') \<and>
    lookup sd_purchase_id pid db' = Some (assign_row st vs rel t r) \<and>
    (\<exists>v. sd_record (assign_row st vs rel t r) = Inr v \<and> sd_shows (assign_row st vs rel t r) v)"
proof -
  from assms(5) have u: "sql_update sd_clash (\<lambda>r. sd_purchase_id r = pid) (assign_row st vs rel t) db = Some db'"
    by (auto simp: update_by_id_def split: option.splits)
  have k: "sd_purchase_id (assign_row st vs rel t r) = sd_purchase_id r" for r
    by (simp add: assign_row_def Let_def)
  have l: "lookup sd_purchase_id pid db' = Some (assign_row st vs rel t r)"
    using sd.lookup_update [OF u k] assms(2) by simp
  have "sd_wf r" using assms(1,2) by (auto simp: sd_inv_def list_all_iff dest: lookup_Some_D)
  then have "\<exists>v. sd_record (assign_row st vs rel t r) = Inr v \<and> sd_shows (assign_row st vs rel t r) v"
    by (intro sd_record_total sd_move_wf assms)
  moreover have "sd_transition_body pid allowed st vs rel t db = Inr (assign_row st vs rel t r, db')"
    using assms l by (simp add: sd_transition_body_def reread_def)
  ultimately show ?thesis
    using l by (auto simp: sd_transition_def txn_then_def txn_def)
qed

lemma update_by_id_frame:
  assumes "table_ok sd_clash db"
    and "\<And>r. same_identity r (f r)" and "\<And>r g. g \<in> set unique_fields \<Longrightarrow> sd_cols (f r) g = sd_cols r g"
  shows "update_by_id pid f db = Inr (map (\<lambda>r. if sd_purchase_id r = pid then f r else r) db)"
proof -
  have "sql_update sd_clash (\<lambda>r. sd_purchase_id r = pid) f db
      = Some (map (\<lambda>r. if sd_purchase_id r = pid then f r else r) db)"
    using assms(2) by (intro sd.update_frame [OF assms(1)])
      (auto simp: sd_clash_def same_identity_def assms(3) list_ex_iff)
  then show ?thesis by (simp add: update_by_id_def)
qed

lemma review_row_unique:
  "g \<in> set unique_fields \<Longrightarrow> sd_cols (assign_row st [(F_last_error, SText e)] rel t r) g = sd_cols r g"
  by (auto simp: assign_row_cols unique_fields_def)

text \<open>
  Sending an operation to manual review succeeds exactly when it is known, not finalized, and
  has no error message on record other than the given one; it then ends in \<open>MANUAL_REVIEW\<close> with
  that message, its lease released. Otherwise the call raises and changes nothing.
\<close>

theorem sd_manual_review_exact:
  assumes "sd_inv db"
  shows "case record_manual_review pid err clock db of
      (Inr v, db') \<Rightarrow> op_purchase_id v = pid \<and> op_state v = MANUAL_REVIEW \<and>
        (\<exists>r. lookup sd_purchase_id pid db' = Some r \<and> sd_state r = MANUAL_REVIEW \<and>
           sd_lease_owner r = None \<and> sd_cols r F_last_error = SText (take 1000 err))
    | (Inl e, db') \<Rightarrow> db' = db \<and>
        (case lookup sd_purchase_id pid db of
           None \<Rightarrow> e = StripeDeliveryNotFound ''Stripe delivery operation was not found''
         | Some r \<Rightarrow> sd_state r = FINALIZED \<or>
             sd_cols r F_last_error \<noteq> SNull \<and> sd_cols r F_last_error \<noteq> SText (take 1000 err))"
proof (cases "lookup sd_purchase_id pid db")
  case None
  then show ?thesis
    by (simp add: record_manual_review_def sd_transition_def sd_transition_body_def txn_then_def txn_def)
next
  case (Some r)
  let ?vs = "[(F_last_error, SText (take 1000 err))]"
  let ?al = "claimable_states @ [MANUAL_REVIEW]"
  have al: "sd_state r \<in> set ?al \<longleftrightarrow> sd_state r \<noteq> FINALIZED"
    by (cases "sd_state r") (simp_all add: claimable_states_def)
  have fc: "first_conflict r ?vs = None \<longleftrightarrow>
      sd_cols r F_last_error = SNull \<or> sd_cols r F_last_error = SText (take 1000 err)"
    by (auto simp: first_conflict_def bound_def list_fields_def)
  show ?thesis
  proof (cases "sd_state r \<in> set ?al \<and> first_conflict r ?vs = None")
    case True
    let ?f = "assign_row MANUAL_REVIEW ?vs True clock"
    let ?db = "map (\<lambda>r. if sd_purchase_id r = pid then ?f r else r) db"
    have u: "update_by_id pid ?f db = Inr ?db"
      using assms by (intro update_by_id_frame) (simp_all add: sd_inv_def review_row_unique)
    have mv: "sd_move r MANUAL_REVIEW ?vs"
      using True al by (intro sd_move.review) blast
    note tc = transition_commutes [OF assms Some conjunct1 [OF True] conjunct2 [OF True] u mv]
    obtain v where v: "sd_record (?f r) = Inr v" "sd_shows (?f r) v"
      using tc by blast
    have call: "record_manual_review pid err clock db = (Inr v, ?db)"
      using conjunct1 [OF tc] unfolding record_manual_review_def v(1) .
    have look: "lookup sd_purchase_id pid ?db = Some (?f r)"
      using tc by blast
    moreover from Some have "sd_purchase_id (?f r) = pid"
      by (auto simp: assign_row_def Let_def dest: lookup_Some_D)
    moreover have "sd_cols (?f r) F_last_error = SText (take 1000 err)" "sd_lease_owner (?f r) = None"
      by (simp_all add: assign_row_cols) (simp add: assign_row_def Let_def)
    moreover have "op_purchase_id v = sd_purchase_id (?f r)" "op_state v = sd_state (?f r)"
      using v(2) by (simp_all only: sd_shows_basic)
    ultimately show ?thesis
      unfolding call using look by simp
  next
    case False
    have "fst (sd_transition pid ?al MANUAL_REVIEW ?vs True clock db) \<noteq> Inr v \<and>
        snd (sd_transition pid ?al MANUAL_REVIEW ?vs True clock db) = db" for v
      using False Some
      by (auto simp: sd_transition_def sd_transition_body_def txn_then_def txn_def raise_if_def split: option.splits)
    then show ?thesis
      using False al fc Some
      by (cases "record_manual_review pid err clock db")
        (auto simp: record_manual_review_def split: sum.splits)
  qed
qed

theorem sd_manual_review_exact_witness:
  "\<exists>v db'. record_manual_review ''p1'' ''boom'' 20 (run sd_step (take 2 sample_sd_ops) []) = (Inr v, db') \<and>
     op_state v = MANUAL_REVIEW"
proof -
  let ?db = "run sd_step (take 2 sample_sd_ops) []"
  have "list_all sd_op_ok (take 2 sample_sd_ops)" by (simp add: sample_sd_ops_def sample_evidence_def)
  then have inv: "sd_inv ?db" by (rule sd_run_inv)
  have "map (\<lambda>r. (sd_state r, sd_cols r F_last_error)) ?db = [(PAYMENT_VERIFIED, SNull)] \<and>
      lookup sd_purchase_id ''p1'' ?db \<noteq> None"
    by code_simp
  then obtain r where "lookup sd_purchase_id ''p1'' ?db = Some r" "sd_state r = PAYMENT_VERIFIED" "sd_cols r F_last_error = SNull"
    by (auto dest!: lookup_Some_D)
  with sd_manual_review_exact [OF inv, where pid = "''p1''" and err = "''boom''" and clock = 20] show ?thesis
    by (cases "record_manual_review ''p1'' ''boom'' 20 ?db") (auto split: sum.splits)
qed

text \<open>
  C25. A recorded error blocks a review with another message: once \<open>record_error\<close> has stored a message for
  an operation, \<open>record_manual_review\<close> with a message that differs in its first 1000 characters
  raises, and the operation stays where it was.
\<close>

theorem sd_review_after_error:
  assumes "sd_inv db" and "lookup sd_purchase_id pid db = Some r" and "take 1000 err \<noteq> take 1000 err'"
  shows "\<exists>e db'. record_manual_review pid err' clock' (snd (record_error pid err clock db)) = (Inl e, db') \<and>
    map_option sd_state (lookup sd_purchase_id pid db') = Some (sd_state r)"
proof -
  let ?f = "error_row (take 1000 err) clock"
  let ?db = "map (\<lambda>r. if sd_purchase_id r = pid then ?f r else r) db"
  have u: "update_by_id pid ?f db = Inr ?db"
    using assms(1)
    by (intro update_by_id_frame) (auto simp: sd_inv_def same_identity_def error_row_def unique_fields_def)
  then have db1: "snd (record_error pid err clock db) = ?db"
    by (simp add: record_error_def txn_then_state txn_state)
  have "sd_step (RecordError pid err clock) db = ?db" by (simp add: db1)
  then have inv: "sd_inv ?db"
    using sdst.step_inv [OF assms(1), of "RecordError pid err clock"] by simp
  from u have su: "sql_update sd_clash (\<lambda>r. sd_purchase_id r = pid) ?f db = Some ?db"
    by (auto simp: update_by_id_def split: option.splits)
  have look: "lookup sd_purchase_id pid ?db = Some (?f r)"
    using sd.lookup_update [OF su] assms(2) by (simp add: error_row_def)
  have "sd_cols (?f r) F_last_error = SText (take 1000 err)" by (simp add: error_row_def)
  with sd_manual_review_exact [OF inv, where pid = pid and err = err' and clock = clock'] look assms(3)
  obtain e where e: "record_manual_review pid err' clock' ?db = (Inl e, ?db)"
  proof (cases "fst (record_manual_review pid err' clock' ?db)")
    case (Inr v)
    have "first_conflict (?f r) [(F_last_error, SText (take 1000 err'))] \<noteq> None"
      using assms(3) by (simp add: first_conflict_def bound_def list_fields_def error_row_def)
    with Inr look show ?thesis
      by (auto simp: record_manual_review_def sd_transition_def sd_transition_body_def txn_then_def txn_def
          raise_if_def split: option.splits if_splits)
  qed (auto split: prod.splits)
  show ?thesis
    using e look by (simp add: db1) (simp add: error_row_def)
qed

theorem sd_review_after_error_witness:
  "\<exists>e db'. record_manual_review ''p1'' ''rejected'' 21
      (snd (record_error ''p1'' ''timeout'' 20 (run sd_step (take 2 sample_sd_ops) []))) = (Inl e, db') \<and>
    map_option sd_state (lookup sd_purchase_id ''p1'' db') = Some PAYMENT_VERIFIED"
proof -
  let ?db = "run sd_step (take 2 sample_sd_ops) []"
  have "list_all sd_op_ok (take 2 sample_sd_ops)" by (simp add: sample_sd_ops_def sample_evidence_def)
  then have inv: "sd_inv ?db" by (rule sd_run_inv)
  have "map_option sd_state (lookup sd_purchase_id ''p1'' ?db) = Some PAYMENT_VERIFIED"
    by code_simp
  then obtain r where r: "lookup sd_purchase_id ''p1'' ?db = Some r" "sd_state r = PAYMENT_VERIFIED"
    by auto
  show ?thesis
    using sd_review_after_error [OF inv r(1), of "''timeout''" "''rejected''" 21 20] r(2) by simp
qed

section \<open>Leases\<close>

text \<open>The purchase a call names; \<open>claim_next\<close> names none.\<close>

fun op_target :: "sd_op \<Rightarrow> string option" where
  "op_target (Queue pid ev rh rail kind now clock) = Some pid"
| "op_target (ClaimNext ow secs now clock) = None"
| "op_target (Claim pid ow secs now clock) = Some pid"
| "op_target (ReceiptFunding pid b c p fee m clock) = Some pid"
| "op_target (BindReceiptExact pid b clock) = Some pid"
| "op_target (ReceiptPrepared pid i b c p clock) = Some pid"
| "op_target (ReceiptConfirmed pid clock) = Some pid"
| "op_target (DeliverySubmission pid b d ds t ts si fee m deed clock) = Some pid"
| "op_target (BindDeliveryExact pid b clock) = Some pid"
| "op_target (DeliveryPrepared pid b d ds t ts si deed clock) = Some pid"
| "op_target (Finalize pid h clock) = Some pid"
| "op_target (DeliveryConfirmed pid h clock) = Some pid"
| "op_target (SettlementFinalized pid ev clock) = Some pid"
| "op_target (SettlementAuthorization pid a j clock) = Some pid"
| "op_target (ManualReview pid e clock) = Some pid"
| "op_target (RecordError pid e clock) = Some pid"
| "op_target (ReleaseLease pid clock) = Some pid"

lemma update_by_id_other:
  assumes "update_by_id q f db = Inr db'" and "q \<noteq> pid" and "\<And>r. sd_purchase_id (f r) = sd_purchase_id r"
  shows "lookup sd_purchase_id pid db' = lookup sd_purchase_id pid db"
proof -
  from assms(1) have u: "sql_update sd_clash (\<lambda>r. sd_purchase_id r = q) f db = Some db'"
    by (auto simp: update_by_id_def split: option.splits)
  show ?thesis using sd.lookup_update [OF u assms(3)] assms(2) by simp
qed

lemma row_ops_id [simp]:
  "sd_purchase_id (lease_row ow secs t r) = sd_purchase_id r"
  "sd_purchase_id (assign_row st vs rel t r) = sd_purchase_id r"
  "sd_purchase_id (error_row e t r) = sd_purchase_id r"
  "sd_purchase_id (release_row t r) = sd_purchase_id r"
  by (simp_all add: lease_row_def assign_row_def Let_def error_row_def release_row_def)

abbreviation frames :: "string \<Rightarrow> sd_db \<Rightarrow> sd_db \<Rightarrow> bool" where
  "frames pid db db' \<equiv> lookup sd_purchase_id pid db' = lookup sd_purchase_id pid db"

lemma transition_frames: "q \<noteq> pid \<Longrightarrow> frames pid db (snd (sd_transition q allowed st vs rel t db))"
  unfolding sd_transition_def
  by (rule txn_then_keeps)
    (auto simp: sd_transition_body_def bind_Inr reread_Inr split: option.splits intro: update_by_id_other)

lemma update_frames:
  "q \<noteq> pid \<Longrightarrow> (\<And>r. sd_purchase_id (f r) = sd_purchase_id r) \<Longrightarrow>
   frames pid db (snd (txn_then (\<lambda>db. bind (update_by_id q f db) (\<lambda>db'. Inr ((), db'))) k db))"
  by (rule txn_then_keeps) (auto simp: bind_Inr intro: update_by_id_other)

lemma with_outputs_frames:
  "(\<And>outs ts. frames pid db (snd (k outs ts db))) \<Longrightarrow> frames pid db (snd (with_outputs d ds deed t ts k db))"
  by (auto simp: with_outputs_def split: sum.splits)

lemma queue_frames: "q \<noteq> pid \<Longrightarrow> frames pid db (snd (sd_queue q ev rh rail kind now clock db))"
proof -
  assume q: "q \<noteq> pid"
  have "frames pid db (snd (txn_then (sd_queue_body q xid rail kind j rh t) k db))" for xid j t
      and k :: "sd_row \<Rightarrow> sd_db \<Rightarrow> sd_error + StripeDeliveryOperation"
  proof (rule txn_then_keeps)
    fix a t'
    assume b: "sd_queue_body q xid rail kind j rh t db = Inr (a, t')"
    show "frames pid db t'"
    proof (cases "lookup sd_purchase_id q db")
      case None
      with b have "sql_insert sd_clash (new_row q xid rail kind j rh t) db = Some t'"
        by (auto simp: sd_queue_body_def reread_Inr split: option.splits)
      from sd.lookup_insert [OF this, of pid] q show ?thesis by (simp add: new_row_def)
    next
      case (Some r)
      with b have "t' = db" by (auto simp: sd_queue_body_def split: sum.splits)
      then show ?thesis by simp
    qed
  qed simp
  then show ?thesis by (simp add: sd_queue_def split: sum.splits)
qed

lemma claim_frames: "q \<noteq> pid \<Longrightarrow> frames pid db (snd (claim q ow secs now clock db))"
  unfolding claim_def
  by (rule txn_then_keeps)
    (auto simp: claim_body_def bind_Inr reread_Inr split: option.splits if_splits intro: update_by_id_other)

lemma finalized_frames: "q \<noteq> pid \<Longrightarrow> frames pid db (snd (record_finalized q h clock db))"
  by (simp add: record_finalized_def transition_frames split: sum.splits)

lemma step_frames:
  assumes "op_target op = Some q" and "q \<noteq> pid"
  shows "frames pid db (sd_step op db)"
proof (cases op)
  case (Claim p ow secs now clock)
  with assms show ?thesis by (simp add: claim_frames)
next
  case (Queue p ev rh rail kind now clock)
  with assms show ?thesis by (simp add: queue_frames)
next
  case (DeliverySubmission p b d ds t ts si fee m deed clock)
  then show ?thesis using assms
    by (simp add: record_delivery_submission_def)
      (rule with_outputs_frames, rule transition_frames)
next
  case (DeliveryPrepared p b d ds t ts si deed clock)
  then show ?thesis using assms
    by (simp add: record_delivery_prepared_def)
      (rule with_outputs_frames, rule transition_frames)
next
  case (Finalize p h clock)
  with assms show ?thesis by (simp add: finalized_frames)
next
  case (DeliveryConfirmed p h clock)
  with assms show ?thesis
    by (simp add: record_delivery_confirmed_def finalized_frames transition_frames split: sum.splits)
next
  case (RecordError p e clock)
  with assms show ?thesis
    by (simp add: record_error_def update_frames row_ops_id)
next
  case (ReleaseLease p clock)
  with assms show ?thesis
    by (simp add: release_lease_def update_frames row_ops_id)
qed (use assms in \<open>simp_all add: transition_frames
      record_receipt_funding_def bind_receipt_exact_bundle_def record_receipt_prepared_def
      record_receipt_confirmed_def bind_delivery_exact_bundle_def record_manual_review_def
      record_external_settlement_finalized_def record_external_settlement_authorization_def\<close>)

text \<open>A call of another worker: it claims work, or it works on another purchase.\<close>

definition other_worker :: "string \<Rightarrow> string \<Rightarrow> int \<Rightarrow> sd_op \<Rightarrow> bool" where
  "other_worker pid owner deadline op \<longleftrightarrow>
     (case op of
        ClaimNext ow secs now clock \<Rightarrow> or_clock now clock \<le> deadline
      | Claim p ow secs now clock \<Rightarrow> p \<noteq> pid \<or> ow \<noteq> owner \<and> or_clock now clock \<le> deadline
      | _ \<Rightarrow> op_target op \<noteq> Some pid)"

definition lease_update :: "string \<Rightarrow> string \<Rightarrow> int \<Rightarrow> int \<Rightarrow> sd_db \<Rightarrow> sd_db" where
  "lease_update pid owner secs t db =
     map (\<lambda>r. if sd_purchase_id r = pid then lease_row owner secs t r else r) db"

lemma lease_update:
  assumes "sd_inv db" and "lookup sd_purchase_id pid db = Some r"
  shows "update_by_id pid (lease_row owner secs t) db = Inr (lease_update pid owner secs t db)"
    and "lookup sd_purchase_id pid (lease_update pid owner secs t db) = Some (lease_row owner secs t r)"
    and "sd_state r \<in> set claimable_states \<Longrightarrow>
      \<exists>v. sd_record (lease_row owner secs t r) = Inr v \<and> sd_shows (lease_row owner secs t r) v"
proof -
  show u: "update_by_id pid (lease_row owner secs t) db = Inr (lease_update pid owner secs t db)"
    unfolding lease_update_def using assms(1)
    by (intro update_by_id_frame) (simp_all add: sd_inv_def same_identity_def lease_row_def)
  then have su: "sql_update sd_clash (\<lambda>r. sd_purchase_id r = pid) (lease_row owner secs t) db
      = Some (lease_update pid owner secs t db)"
    by (auto simp: update_by_id_def split: option.splits)
  show "lookup sd_purchase_id pid (lease_update pid owner secs t db) = Some (lease_row owner secs t r)"
    using sd.lookup_update [OF su] assms(2) by simp
  have "sd_wf r" using assms by (auto simp: sd_inv_def list_all_iff dest: lookup_Some_D)
  then show "sd_state r \<in> set claimable_states \<Longrightarrow>
      \<exists>v. sd_record (lease_row owner secs t r) = Inr v \<and> sd_shows (lease_row owner secs t r) v"
    by (intro sd_record_total edit_sd_wf [OF sd_edit.lease])
qed

definition next_claim :: "int \<Rightarrow> sd_db \<Rightarrow> sd_row option" where
  "next_claim t db = fetch_first (\<lambda>r. (sd_updated_at r, sd_purchase_id r)) (select (claimable t) db)"

lemma next_claim_Some:
  assumes "next_claim t db = Some r"
  shows "r \<in> set db" and "claimable t r"
    and "r' \<in> set db \<Longrightarrow> claimable t r' \<Longrightarrow> (sd_updated_at r, sd_purchase_id r) \<le> (sd_updated_at r', sd_purchase_id r')"
  using fetch_first_Some [OF assms [unfolded next_claim_def]] by (auto simp: select_def)

lemma claim_next_None: "next_claim (or_clock now clock) db = None \<Longrightarrow> claim_next owner secs now clock db = (Inr None, db)"
  by (simp only: claim_next_def claim_next_body_def next_claim_def [symmetric] option.case txn_then_def txn_def
      sum.case prod.case opt_record_def)

lemma claim_next_Some:
  assumes "sd_inv db" and "next_claim (or_clock now clock) db = Some r"
  shows "\<exists>v. claim_next owner secs now clock db =
      (Inr (Some v), lease_update (sd_purchase_id r) owner secs (or_clock now clock) db) \<and>
    sd_shows (lease_row owner secs (or_clock now clock) r) v"
proof -
  note m = next_claim_Some [OF assms(2)]
  have ok: "table_ok sd_clash db" using assms(1) by (simp add: sd_inv_def)
  note l = lease_update [OF assms(1) sd.lookup_mem [OF ok m(1)], of owner secs "or_clock now clock"]
  have "sd_state r \<in> set claimable_states" using m(2) by (simp add: claimable_def)
  from l(3) [OF this] obtain v where
    v: "sd_record (lease_row owner secs (or_clock now clock) r) = Inr v"
      "sd_shows (lease_row owner secs (or_clock now clock) r) v" by blast
  have "claim_next_body owner secs (or_clock now clock) db =
      Inr (Some (lease_row owner secs (or_clock now clock) r),
        lease_update (sd_purchase_id r) owner secs (or_clock now clock) db)"
    using assms(2) by (simp add: claim_next_body_def next_claim_def [symmetric] l(1,2) reread_def)
  with v show ?thesis
    by (simp add: claim_next_def txn_then_def txn_def opt_record_def)
qed

text \<open>
  \<open>claim_next\<close> is fair and exact: it returns nothing, and changes nothing, exactly when no open
  operation is free of a live lease; otherwise it leases the one updated longest ago (ties by purchase
  id) to the caller until \<open>lease_seconds\<close> later, counts the attempt, and leaves every other row alone.
\<close>

theorem sd_claim_next_exact:
  assumes "sd_inv db"
  shows "case claim_next owner secs (Some t) clock db of
      (Inl e, _) \<Rightarrow> False
    | (Inr None, db') \<Rightarrow> db' = db \<and> filter (claimable t) db = []
    | (Inr (Some v), db') \<Rightarrow>
        (\<exists>r \<in> set db. claimable t r \<and> op_purchase_id v = sd_purchase_id r \<and>
           (\<forall>r' \<in> set (filter (claimable t) db).
              (sd_updated_at r, sd_purchase_id r) \<le> (sd_updated_at r', sd_purchase_id r')) \<and>
           db' = map (\<lambda>x. if sd_purchase_id x = sd_purchase_id r then
              x\<lparr>sd_lease_owner := Some owner, sd_lease_expires_at := Some (t + secs),
                sd_attempt_count := sd_attempt_count x + 1, sd_updated_at := t\<rparr> else x) db)"
proof (cases "next_claim t db")
  case None
  then have "filter (claimable t) db = []"
    by (simp add: next_claim_def select_def)
  with claim_next_None [of "Some t" clock db] None show ?thesis by simp
next
  case (Some r)
  note m = next_claim_Some [OF Some]
  from claim_next_Some [OF assms, of "Some t" clock r owner secs] Some obtain v where
    v: "claim_next owner secs (Some t) clock db = (Inr (Some v), lease_update (sd_purchase_id r) owner secs t db)"
      "sd_shows (lease_row owner secs t r) v" by auto
  have "op_purchase_id v = sd_purchase_id r"
    using sd_shows_basic(1) [OF v(2)] by simp
  with m show ?thesis
    unfolding v(1) lease_update_def lease_row_def by (auto intro!: bexI [of _ r])
qed

theorem sd_claim_next_exact_witness:
  "\<exists>v db'. claim_next ''w2'' 30 (Some 50) 0 (run sd_step (take 1 sample_sd_ops) []) = (Inr (Some v), db') \<and>
    op_purchase_id v = ''p1''"
proof -
  let ?db = "run sd_step (take 1 sample_sd_ops) []"
  have "list_all sd_op_ok (take 1 sample_sd_ops)" by (simp add: sample_sd_ops_def sample_evidence_def)
  then have inv: "sd_inv ?db" by (rule sd_run_inv)
  have "map (\<lambda>r. (sd_purchase_id r, claimable 50 r)) ?db = [(''p1'', True)]" by code_simp
  then have "filter (claimable 50) ?db \<noteq> [] \<and> (\<forall>r \<in> set ?db. sd_purchase_id r = ''p1'')"
    by (cases ?db) auto
  with sd_claim_next_exact [OF inv, where owner = "''w2''" and secs = 30 and t = 50 and clock = 0]
  show ?thesis
    by (cases "claim_next ''w2'' 30 (Some 50) 0 ?db") (auto split: sum.splits option.splits)
qed

lemma claim_next_leased:
  assumes "sd_inv db" and "lookup sd_purchase_id pid db = Some r" and "sd_lease_expires_at r = Some x"
    and "or_clock now clock \<le> x"
  shows "frames pid db (snd (claim_next ow secs now clock db))"
proof (cases "next_claim (or_clock now clock) db")
  case None
  then show ?thesis by (simp add: claim_next_None)
next
  case (Some row)
  note m = next_claim_Some [OF Some]
  have ok: "table_ok sd_clash db" using assms(1) by (simp add: sd_inv_def)
  have ne: "sd_purchase_id row \<noteq> pid"
  proof
    assume "sd_purchase_id row = pid"
    then have "row = r"
      using assms(2) m(1) by (auto dest!: lookup_Some_D intro: sd.key_eq [OF ok])
    with m(2) assms(3,4) show False by (simp add: claimable_def)
  qed
  have l: "update_by_id (sd_purchase_id row) (lease_row ow secs (or_clock now clock)) db
      = Inr (lease_update (sd_purchase_id row) ow secs (or_clock now clock) db)"
    by (rule lease_update(1) [OF assms(1) sd.lookup_mem [OF ok m(1)]])
  from claim_next_Some [OF assms(1) Some, of ow secs] update_by_id_other [OF l ne] show ?thesis by auto
qed

lemma claim_leased:
  assumes "lookup sd_purchase_id pid db = Some r" and "sd_lease_owner r = Some h" and "sd_lease_expires_at r = Some x"
    and "ow \<noteq> h" and "or_clock now clock \<le> x" and "sd_state r \<in> set claimable_states"
  shows "claim pid ow secs now clock db = (Inr None, db)"
proof -
  have "sd_state r \<noteq> FINALIZED \<and> sd_state r \<noteq> MANUAL_REVIEW"
    using assms(6) by (auto simp: claimable_states_def)
  with assms(1-5) show ?thesis
    by (simp add: claim_def claim_body_def leased_to_other_def txn_then_def txn_def opt_record_def)
qed

lemma other_worker_frames:
  assumes "sd_inv db" and "lookup sd_purchase_id pid db = Some r"
    and "sd_lease_owner r = Some h" and "sd_lease_expires_at r = Some x"
    and "sd_state r \<in> set claimable_states" and "other_worker pid h x op"
  shows "frames pid db (sd_step op db)"
proof (cases op)
  case (ClaimNext ow secs now clock)
  with assms(6) have "or_clock now clock \<le> x" by (simp add: other_worker_def)
  with ClaimNext show ?thesis
    by (simp only: sd_step.simps claim_next_leased [OF assms(1,2,4)])
next
  case (Claim p ow secs now clock)
  show ?thesis
  proof (cases "p = pid")
    case True
    with Claim assms(6) have "claim p ow secs now clock db = (Inr None, db)"
      by (auto simp: other_worker_def intro: claim_leased assms)
    with Claim show ?thesis by simp
  qed (use Claim in \<open>auto intro: claim_frames\<close>)
qed (use assms(6) in \<open>auto simp: other_worker_def simp del: sd_step.simps intro: step_frames\<close>)

lemma lease_survives:
  assumes "sd_inv db" and "lookup sd_purchase_id pid db = Some r"
    and "sd_lease_owner r = Some h" and "sd_lease_expires_at r = Some x" and "sd_state r \<in> set claimable_states"
    and "list_all sd_op_ok ops" and "list_all (other_worker pid h x) ops"
  shows "lookup sd_purchase_id pid (run sd_step ops db) = Some r \<and> sd_inv (run sd_step ops db)"
  using assms(1,2,6,7)
proof (induction ops arbitrary: db)
  case (Cons op ops)
  then have "frames pid db (sd_step op db)" "sd_inv (sd_step op db)"
    using other_worker_frames [OF Cons.prems(1,2) assms(3-5)] sdst.step_inv [OF Cons.prems(1)] by auto
  with Cons show ?case by simp
qed simp

text \<open>
  A lease is exclusive: after a worker has claimed an open operation at time \<open>t\<close>, and whatever
  other workers then do - claim work no later than \<open>t + lease_seconds\<close>, or advance other purchases,
  in any order - the operation is exactly as the worker left it, and no other worker can claim it until then.
\<close>

theorem sd_lease_exclusive:
  assumes "sd_inv db" and "claim pid owner secs (Some t) clock db = (Inr (Some v), db')"
    and "op_state v \<noteq> FINALIZED" and "op_state v \<noteq> MANUAL_REVIEW"
    and "list_all sd_op_ok ops" and "list_all (other_worker pid owner (t + secs)) ops"
    and "owner' \<noteq> owner" and "t' \<le> t + secs"
  shows "\<exists>r. lookup sd_purchase_id pid db' = Some r \<and> sd_lease_owner r = Some owner \<and>
    lookup sd_purchase_id pid (run sd_step ops db') = Some r \<and>
    claim pid owner' secs' (Some t') clock' (run sd_step ops db') = (Inr None, run sd_step ops db')"
proof -
  from assms(2) obtain r where r: "lookup sd_purchase_id pid db = Some r"
    by (auto simp: claim_def claim_body_def txn_then_def txn_def split: option.splits)
  show ?thesis
  proof (cases "sd_state r \<in> {FINALIZED, MANUAL_REVIEW}")
    case True
    with assms(2) r have "sd_record r = Inr v"
      by (auto simp: claim_def claim_body_def txn_then_def txn_def opt_record_def split: sum.splits)
    moreover have "sd_wf r"
      using assms(1) r by (auto simp: sd_inv_def list_all_iff dest: lookup_Some_D)
    ultimately have "op_state v = sd_state r"
      using sd_record_total [of r] sd_shows_basic(2) by fastforce
    with True assms(3,4) show ?thesis by simp
  next
    case False
    note l = lease_update [OF assms(1) r, of owner secs t]
    have "\<not> leased_to_other owner t r"
      using assms(2) r False
      by (auto simp: claim_def claim_body_def txn_then_def txn_def opt_record_def)
    with assms(2) r False have db': "db' = lease_update pid owner secs t db"
      by (auto simp: claim_def claim_body_def l reread_def txn_then_def txn_def split: sum.splits)
    let ?r = "lease_row owner secs t r"
    have st: "sd_state r \<in> set claimable_states"
      using False by (cases "sd_state r") (auto simp: claimable_states_def)
    then have row: "lookup sd_purchase_id pid db' = Some ?r" "sd_lease_owner ?r = Some owner"
        "sd_lease_expires_at ?r = Some (t + secs)" "sd_state ?r \<in> set claimable_states"
      using l(2) by (simp_all add: db' lease_row_def)
    have "sd_inv db'"
      using sdst.step_inv [OF assms(1), of "Claim pid owner secs (Some t) clock"] assms(2) by simp
    from lease_survives [OF this row assms(5,6)]
    have s: "lookup sd_purchase_id pid (run sd_step ops db') = Some ?r" ..
    show ?thesis
      using row s claim_leased [OF s row(2,3) assms(7) _ row(4), of "Some t'" clock' secs'] assms(8)
      by auto
  qed
qed

theorem sd_lease_exclusive_witness:
  "\<exists>v db'. claim ''p1'' ''w1'' 30 (Some 20) 0 (run sd_step (take 1 sample_sd_ops) []) = (Inr (Some v), db') \<and>
    claim ''p1'' ''w2'' 30 (Some 50) 0 (run sd_step [ClaimNext ''w2'' 5 (Some 40) 0] db')
      = (Inr None, run sd_step [ClaimNext ''w2'' 5 (Some 40) 0] db')"
proof -
  let ?db = "run sd_step (take 1 sample_sd_ops) []"
  have "list_all sd_op_ok (take 1 sample_sd_ops)" by (simp add: sample_sd_ops_def sample_evidence_def)
  then have inv: "sd_inv ?db" by (rule sd_run_inv)
  have "(case fst (claim ''p1'' ''w1'' 30 (Some 20) 0 ?db) of Inr (Some v) \<Rightarrow> op_state v | _ \<Rightarrow> FINALIZED)
      = PAYMENT_VERIFIED"
    by code_simp
  then obtain v db' where c: "claim ''p1'' ''w1'' 30 (Some 20) 0 ?db = (Inr (Some v), db')" "op_state v = PAYMENT_VERIFIED"
    by (cases "claim ''p1'' ''w1'' 30 (Some 20) 0 ?db") (auto split: sum.splits option.splits)
  from sd_lease_exclusive [OF inv c(1), of "[ClaimNext ''w2'' 5 (Some 40) 0]" "''w2''" 50 30 0] c show ?thesis
    by (auto simp: other_worker_def)
qed

section \<open>Idempotent intake\<close>

lemma queue_call:
  assumes "rail \<in> set PAYMENT_RAILS" and "kind \<in> set DELIVERY_KINDS" and "sd_external_id rail ev = Inr xid"
  shows "sd_queue pid ev rh rail kind now clock =
    txn_then (sd_queue_body pid xid rail kind (canonical_json (JObj ev)) rh (or_clock now clock)) (\<lambda>row _. sd_record row)"
  using assms by (intro ext) (simp add: sd_queue_def)

lemma queue_Inr:
  assumes "sd_queue pid ev rh rail kind now clock db = (Inr v, db')"
  shows "rail \<in> set PAYMENT_RAILS" and "kind \<in> set DELIVERY_KINDS"
    and "\<exists>xid row. sd_external_id rail ev = Inr xid \<and> sd_record row = Inr v \<and>
      sd_queue_body pid xid rail kind (canonical_json (JObj ev)) rh (or_clock now clock) db = Inr (row, db')"
  using assms
  by (auto simp: sd_queue_def txn_then_def txn_def split: if_splits sum.splits prod.splits)

lemma queued_row:
  assumes inv: "sd_inv db" and ev: "json_ok (JObj ev)"
    and q: "sd_queue pid ev rh rail kind now clock db = (Inr v, db')"
  shows "\<exists>r. lookup sd_purchase_id pid db' = Some r \<and> sd_record r = Inr v \<and>
    sd_external_id rail ev = Inr (op_external_payment_id v) \<and> op_receipt_hash v = rh \<and>
    op_payment_rail v = rail \<and> op_delivery_kind v = kind \<and>
    canonical_json (op_evidence v) = canonical_json (JObj ev)"
proof -
  from queue_Inr(3) [OF q] obtain xid r where b: "sd_external_id rail ev = Inr xid" "sd_record r = Inr v"
    "sd_queue_body pid xid rail kind (canonical_json (JObj ev)) rh (or_clock now clock) db = Inr (r, db')"
    by blast
  show ?thesis
  proof (cases "lookup sd_purchase_id pid db")
    case (Some r0)
    with b(3) have "r0 = r" "db' = db" "canonical_json (op_evidence v) = canonical_json (JObj ev)"
        "op_external_payment_id v = xid" "op_receipt_hash v = rh" "op_payment_rail v = rail" "op_delivery_kind v = kind"
      using b(2) by (auto simp: sd_queue_body_def split: sum.splits)
    with Some b show ?thesis by auto
  next
    case None
    let ?new = "new_row pid xid rail kind (canonical_json (JObj ev)) rh (or_clock now clock)"
    from None b(3) have ins: "sql_insert sd_clash ?new db = Some db'" and look: "lookup sd_purchase_id pid db' = Some r"
      by (auto simp: sd_queue_body_def reread_Inr split: option.splits)
    from sd.lookup_insert [OF ins, of pid] look have r: "r = ?new" by (simp add: new_row_def)
    have "sd_wf ?new" by (rule new_row_wf [OF queue_Inr(1,2) [OF q] ev b(1)])
    then have sh: "sd_shows ?new v" using sd_record_total [of ?new] b(2) r by auto
    show ?thesis
      using look b(1,2) sd_shows_basic(3-) [OF sh] by (simp add: new_row_def)
  qed
qed

text \<open>
  Intake is idempotent and binding: once \<open>queue\<close> has returned an operation, repeating it with
  the same receipt, rail and kind and the same evidence, however its keys are ordered, returns the
  same operation and changes nothing, and repeating it with anything else raises and changes nothing.
\<close>

theorem sd_queue_binding:
  assumes "sd_inv db" and "json_ok (JObj ev)" and "json_ok (JObj ev')"
    and "sd_queue pid ev rh rail kind now clock db = (Inr v, db1)"
  shows "if canon (JObj ev') = canon (JObj ev) \<and> rh' = rh \<and> rail' = rail \<and> kind' = kind
    then sd_queue pid ev' rh' rail' kind' now' clock' db1 = (Inr v, db1)
    else \<exists>e. sd_queue pid ev' rh' rail' kind' now' clock' db1 = (Inl e, db1)"
proof -
  obtain r where r: "lookup sd_purchase_id pid db1 = Some r" "sd_record r = Inr v"
      "sd_external_id rail ev = Inr (op_external_payment_id v)" "op_receipt_hash v = rh"
      "op_payment_rail v = rail" "op_delivery_kind v = kind"
      "canonical_json (op_evidence v) = canonical_json (JObj ev)"
    using queued_row [OF assms(1,2,4)] by blast
  have eq: "canonical_json (JObj ev) = canonical_json (JObj ev') \<longleftrightarrow> canon (JObj ev) = canon (JObj ev')"
    by (rule canonical.enc_eq_iff [OF assms(2,3)])
  have "sd_queue_body pid xid rail' kind' (canonical_json (JObj ev')) rh' t db1 =
      (if canonical_json (JObj ev) = canonical_json (JObj ev') \<and> op_external_payment_id v = xid \<and> rh = rh' \<and>
         rail = rail' \<and> kind = kind'
       then Inr (r, db1)
       else Inl (StripeDeliveryConflict ''Stripe purchase is already bound to different settlement evidence''))"
    for xid t
    using r by (auto simp: sd_queue_body_def raise_if_def)
  note body = this [unfolded eq]
  show ?thesis
  proof (cases "canon (JObj ev') = canon (JObj ev) \<and> rh' = rh \<and> rail' = rail \<and> kind' = kind")
    case True
    then have "sort_key fst (map (\<lambda>(k, v). (k, canon v)) ev') = sort_key fst (map (\<lambda>(k, v). (k, canon v)) ev)"
      unfolding external_id_canon(1) [OF assms(2)] external_id_canon(1) [OF assms(3)] by blast
    then have "sd_external_id rail ev' = sd_external_id rail ev"
      using external_id_canon(2) [OF assms(2), of rail] external_id_canon(2) [OF assms(3), of rail] by simp
    with r(3) have x: "sd_external_id rail ev' = Inr (op_external_payment_id v)" by simp
    have b: "sd_queue_body pid (op_external_payment_id v) rail kind (canonical_json (JObj ev')) rh t db1 = Inr (r, db1)" for t
      using body [of "op_external_payment_id v" t] True by auto
    have "sd_queue pid ev' rh rail kind now' clock' db1 = (Inr v, db1)"
      unfolding queue_call [OF queue_Inr(1,2) [OF assms(4)] x] by (simp add: b txn_then_def txn_def r(2))
    with True show ?thesis by simp
  next
    case False
    then have "\<exists>e. sd_queue pid ev' rh' rail' kind' now' clock' db1 = (Inl e, db1)"
      by (cases "sd_external_id rail' ev'") (auto simp: sd_queue_def txn_then_def txn_def body)
    then show ?thesis by (simp only: False if_False)
  qed
qed

theorem sd_queue_binding_witness:
  "\<exists>v db1. sd_queue ''p1'' sample_evidence ''rh1'' PAYMENT_RAIL_STRIPE DELIVERY_SGT None 10 [] = (Inr v, db1) \<and>
    sd_queue ''p1'' (rev sample_evidence) ''rh1'' PAYMENT_RAIL_STRIPE DELIVERY_SGT None 99 db1 = (Inr v, db1)"
proof -
  have ok: "json_ok (JObj sample_evidence)" "json_ok (JObj (rev sample_evidence))"
    by (simp_all add: sample_evidence_def)
  have "(case fst (sd_queue ''p1'' sample_evidence ''rh1'' PAYMENT_RAIL_STRIPE DELIVERY_SGT None 10 []) of
      Inl _ \<Rightarrow> False | Inr _ \<Rightarrow> True)"
    by code_simp
  then obtain v db1 where q: "sd_queue ''p1'' sample_evidence ''rh1'' PAYMENT_RAIL_STRIPE DELIVERY_SGT None 10 [] = (Inr v, db1)"
    by (cases "sd_queue ''p1'' sample_evidence ''rh1'' PAYMENT_RAIL_STRIPE DELIVERY_SGT None 10 []")
      (auto split: sum.splits)
  have "canon (JObj (rev sample_evidence)) = canon (JObj sample_evidence)"
    by (simp add: sample_evidence_def sort_key_def)
  with sd_queue_binding [OF _ ok q, where rh' = "''rh1''" and rail' = PAYMENT_RAIL_STRIPE and kind' = DELIVERY_SGT
      and now' = None and clock' = 99]
  show ?thesis using q by (auto simp: sd_inv_def)
qed

section \<open>Output manifests\<close>

lemma output_ids_batch:
  "output_ids None (Some ids) label = Inr outs \<longleftrightarrow>
   outs = map lower ids \<and> ids \<noteq> [] \<and> length ids \<le> 100 \<and> distinct (map lower ids)"
  by (cases ids) (auto simp: output_ids_def Let_def)

lemma output_ids_single: "output_ids (Some s) None label = Inr outs \<longleftrightarrow> outs = [lower s]"
  by (auto simp: output_ids_def Let_def)

text \<open>
  The delivery manifest of an operation is exactly what its caller named, in lower case: between 1
  and 100 different coin ids; a singular id (under its new or its old name) must be the first of the
  batch, or is the manifest when there is no batch. Nothing else is accepted.
\<close>

theorem sd_output_manifest:
  "delivery_output_ids one many deed = Inr outs \<longleftrightarrow>
   (\<exists>ids. outs = map lower ids \<and> ids \<noteq> [] \<and> length ids \<le> 100 \<and> distinct (map lower ids) \<and>
      one \<in> {None, Some (hd ids)} \<and> deed \<in> {None, Some (hd ids)} \<and>
      (case many of Some l \<Rightarrow> l = ids | None \<Rightarrow> length ids = 1 \<and> (one, deed) \<noteq> (None, None)))"
proof (cases many)
  case None
  have "(\<exists>ids. outs = map lower ids \<and> ids \<noteq> [] \<and> length ids \<le> 100 \<and> distinct (map lower ids) \<and>
      one \<in> {None, Some (hd ids)} \<and> deed \<in> {None, Some (hd ids)} \<and> length ids = 1 \<and> (one \<noteq> None \<or> deed \<noteq> None))
    \<longleftrightarrow> (\<exists>x. outs = [lower x] \<and> one \<in> {None, Some x} \<and> deed \<in> {None, Some x} \<and> (one \<noteq> None \<or> deed \<noteq> None))"
    (is "?l = ?r")
  proof
    assume ?l
    then obtain ids where ids: "outs = map lower ids" "one \<in> {None, Some (hd ids)}" "deed \<in> {None, Some (hd ids)}"
        "length ids = 1" "one \<noteq> None \<or> deed \<noteq> None"
      by blast
    then have "ids = [hd ids]" by (cases ids) auto
    with ids show ?r by (metis list.simps(8,9))
  next
    assume ?r
    then obtain x where "outs = [lower x]" "one \<in> {None, Some x}" "deed \<in> {None, Some x}" "one \<noteq> None \<or> deed \<noteq> None"
      by blast
    then show ?l by (intro exI [of _ "[x]"]) simp
  qed
  with None show ?thesis
    by (cases one; cases deed)
      (auto simp: delivery_output_ids_def List.map_filter_def output_ids_single)
next
  case (Some l)
  then show ?thesis
    by (cases one; cases deed; cases l)
      (auto simp: delivery_output_ids_def List.map_filter_def output_ids_batch)
qed

section \<open>Reserved fee coins\<close>

lemma map_result_mem: "map_result f xs = Inr ys \<Longrightarrow> x \<in> set xs \<Longrightarrow> \<exists>y \<in> set ys. f x = Inr y"
  by (induction xs arbitrary: ys) (auto split: sum.splits)

lemma exact_fee_coin_doc:
  assumes "json_ok (JObj b)" and "map_of b ''feeCoinId'' = Some (JStr s)" and "fee_coin_id s = Inr c"
  shows "exact_fee_coin (canonical_json (JObj b)) = Inr c"
proof -
  have "loads (canonical_json (JObj b)) = Some (canon (JObj b))"
    by (rule canonical.dec_enc [OF assms(1)])
  moreover have "map_of (sort_key fst (map (\<lambda>(k, v). (k, canon v)) b)) ''feeCoinId'' = Some (JStr s)"
    using assms(1,2) by (subst map_of_canon) auto
  ultimately show ?thesis
    using assms(3) by (simp add: exact_fee_coin_def)
qed

text \<open>
  A fee coin sealed in an exact execution stays reserved: once an operation's exact bundle names a
  fee coin, then after any calls, as long as the operation is not finalized, the reserved set contains
  that coin whenever it can be computed at all.
\<close>

theorem sd_fee_coin_reserved:
  assumes "list_all sd_op_ok ops" and "list_all sd_op_ok ops'"
    and "lookup sd_purchase_id pid (run sd_step ops []) = Some r"
    and "f \<in> {F_receipt_funding_exact_bundle_json, F_delivery_exact_bundle_json}"
    and "sd_cols r f = SText (canonical_json (JObj b))" and "json_ok (JObj b)"
    and "map_of b ''feeCoinId'' = Some (JStr s)" and "fee_coin_id s = Inr c"
  shows "\<exists>r'. lookup sd_purchase_id pid (run sd_step (ops @ ops') []) = Some r' \<and>
    (sd_state r' = FINALIZED \<or>
     (case pending_exact_fee_coin_ids (run sd_step (ops @ ops') []) of Inl _ \<Rightarrow> True | Inr S \<Rightarrow> c \<in> S))"
proof -
  have "sd_evolves (run sd_step ops []) (run sd_step ops' (run sd_step ops []))"
    by (rule sd_run_evolves [OF sd_run_inv [OF assms(1)] assms(2)])
  then obtain r' where r': "lookup sd_purchase_id pid (run sd_step (ops @ ops') []) = Some r'"
      "sd_row_evolves r r'"
    using assms(3) unfolding sd_evolves_def run_append by blast
  have fb: "f \<noteq> F_last_error" "f \<notin> set list_fields"
    using assms(4) by (auto simp: list_fields_def)
  then have "sd_cols r' f = SText (canonical_json (JObj b))"
    using r'(2) assms(5) by (simp add: sd_row_evolves_def keeps_bound_def)
  then have ex: "canonical_json (JObj b) \<in> set (exact_columns r')"
    using assms(4) by (auto simp: exact_columns_def List.map_filter_def)
  have "c \<in> S" if st: "sd_state r' \<noteq> FINALIZED"
      and p: "pending_exact_fee_coin_ids (run sd_step (ops @ ops') []) = Inr S" for S
  proof -
    let ?db = "run sd_step (ops @ ops') []"
    let ?all = "concat (map exact_columns (select (\<lambda>r. sd_state r \<noteq> FINALIZED) ?db))"
    from p obtain cs where cs: "map_result exact_fee_coin ?all = Inr cs" "S = set cs"
      by (auto simp: pending_exact_fee_coin_ids_def split: sum.splits)
    have "canonical_json (JObj b) \<in> set ?all"
      using ex st r'(1) by (auto simp: select_def dest: lookup_Some_D)
    from map_result_mem [OF cs(1) this] show "c \<in> S"
      using exact_fee_coin_doc [OF assms(6-8)] cs(2) by auto
  qed
  with r'(1) show ?thesis by (auto split: sum.splits)
qed

definition hex_coin :: string where
  "hex_coin = ''0X'' @ replicate 64 (CHR ''A'')"

definition sample_exact_ops :: "sd_op list" where
  "sample_exact_ops = take 3 sample_sd_ops @ [BindReceiptExact ''p1'' [(''feeCoinId'', JStr hex_coin)] 13]"

theorem sd_fee_coin_reserved_witness:
  "\<exists>r'. lookup sd_purchase_id ''p1'' (run sd_step (sample_exact_ops @ [ReceiptConfirmed ''p1'' 14]) []) = Some r' \<and>
    (sd_state r' = FINALIZED \<or>
     (case pending_exact_fee_coin_ids (run sd_step (sample_exact_ops @ [ReceiptConfirmed ''p1'' 14]) []) of
        Inl _ \<Rightarrow> True | Inr S \<Rightarrow> ''0x'' @ replicate 64 (CHR ''a'') \<in> S))"
proof -
  have ok: "list_all sd_op_ok sample_exact_ops" "list_all sd_op_ok [ReceiptConfirmed ''p1'' 14]"
    by (simp_all add: sample_exact_ops_def sample_sd_ops_def sample_evidence_def)
  have "map_option (\<lambda>r. sd_cols r F_receipt_funding_exact_bundle_json)
      (lookup sd_purchase_id ''p1'' (run sd_step sample_exact_ops []))
    = Some (SText (canonical_json (JObj [(''feeCoinId'', JStr hex_coin)])))"
    by code_simp
  then obtain r where r: "lookup sd_purchase_id ''p1'' (run sd_step sample_exact_ops []) = Some r"
      "sd_cols r F_receipt_funding_exact_bundle_json = SText (canonical_json (JObj [(''feeCoinId'', JStr hex_coin)]))"
    by (auto simp: map_option_eq_Some)
  have "fee_coin_id hex_coin = Inr (''0x'' @ replicate 64 (CHR ''a''))"
    by code_simp
  from sd_fee_coin_reserved [OF ok r(1) _ r(2) _ _ this] show ?thesis by simp
qed

end
