(* ===== verification/KosMintLedger.thy ===== *)
theory KosMintLedger
  imports SqlCore
begin

text \<open>
  \<open>src/solslot_api/kos_mint_execute_ledger.py\<close>: the append-only ledger that keeps the isolated
  signer from attesting to two different governance actions on one governance coin. Each row is a
  signature with the request it answers; the request hash is the primary key and the governance
  coin is unique.
\<close>

section \<open>Model\<close>

datatype kos_error = KosMintExecuteLedgerConflict string

record mint_execute_signature =
  ms_request_hash :: string
  ms_canonical_request :: string
  ms_governance_coin_id :: string
  ms_proposal_hash :: string
  ms_artifact_hash :: string
  ms_signature :: string
  ms_signed_at :: int

type_synonym kos_db = "mint_execute_signature list"

definition ms_clash :: "mint_execute_signature \<Rightarrow> mint_execute_signature \<Rightarrow> bool" where
  "ms_clash r r' \<longleftrightarrow>
     ms_request_hash r = ms_request_hash r' \<or> ms_governance_coin_id r = ms_governance_coin_id r'"

interpretation ms: keyed_table ms_clash ms_request_hash
  by unfold_locales (auto simp: ms_clash_def)

definition record_or_recover_body ::
  "string \<Rightarrow> string \<Rightarrow> string \<Rightarrow> string \<Rightarrow> string \<Rightarrow> string \<Rightarrow> int \<Rightarrow> (kos_db, kos_error, string) body" where
  "record_or_recover_body request_hash canonical_request governance_coin_id proposal_hash artifact_hash
     signature clock db =
     (case lookup ms_request_hash request_hash db of
        Some existing \<Rightarrow>
          raise_if (ms_canonical_request existing \<noteq> canonical_request)
            (KosMintExecuteLedgerConflict ''KoS request hash collides with different execution evidence.'')
            (Inr (ms_signature existing, db))
      | None \<Rightarrow>
          (case sql_insert ms_clash
                  \<lparr>ms_request_hash = request_hash, ms_canonical_request = canonical_request,
                   ms_governance_coin_id = governance_coin_id, ms_proposal_hash = proposal_hash,
                   ms_artifact_hash = artifact_hash, ms_signature = signature, ms_signed_at = clock\<rparr> db of
             None \<Rightarrow>
               Inl (KosMintExecuteLedgerConflict
                 ''KoS already signed a different request for this governance coin.'')
           | Some db' \<Rightarrow> Inr (signature, db')))"

definition record_or_recover ::
  "string \<Rightarrow> string \<Rightarrow> string \<Rightarrow> string \<Rightarrow> string \<Rightarrow> string \<Rightarrow> int \<Rightarrow> (kos_db, kos_error, string) call" where
  "record_or_recover request_hash canonical_request governance_coin_id proposal_hash artifact_hash
     signature clock =
     txn (record_or_recover_body request_hash canonical_request governance_coin_id proposal_hash
       artifact_hash signature clock)"

text \<open>The arguments of a call.\<close>

datatype kos_op = Sign string string string string string string int

fun kos_step :: "kos_op \<Rightarrow> kos_db \<Rightarrow> kos_db" where
  "kos_step (Sign rh cr gc ph ah sg clock) db = snd (record_or_recover rh cr gc ph ah sg clock db)"

section \<open>Runs\<close>

lemma record_or_recover_cases:
  "snd (record_or_recover rh cr gc ph ah sg clock db) = db \<or>
   (\<exists>r. sql_insert ms_clash r db = Some (snd (record_or_recover rh cr gc ph ah sg clock db)) \<and>
      ms_request_hash r = rh \<and> ms_canonical_request r = cr \<and> ms_governance_coin_id r = gc \<and> ms_signature r = sg)"
  by (auto simp: record_or_recover_def txn_state record_or_recover_body_def split: option.splits sum.splits prod.splits)

definition kos_inv :: "kos_db \<Rightarrow> bool" where
  "kos_inv db \<longleftrightarrow> table_ok ms_clash db"

interpretation kos: store kos_step kos_inv "\<lambda>_. True"
proof
  fix db op
  assume "kos_inv db"
  then show "kos_inv (kos_step op db)"
    by (cases op) (metis kos_step.simps kos_inv_def record_or_recover_cases ms.ok_insert)
qed

lemma kos_run_inv: "kos_inv (run kos_step ops [])"
  by (rule kos.run_inv) (simp_all add: kos_inv_def list_all_iff)

lemma kos_run_prefix:
  assumes "kos_inv db"
  shows "prefix db (run kos_step ops db)"
proof (rule kos.run_mono [where R = prefix, OF _ _ _ assms])
  fix op db
  show "prefix db (kos_step op db)"
    by (cases op) (metis kos_step.simps record_or_recover_cases sql_insert_Some prefix_order.order_refl prefixI)
qed (auto simp: reflp_def transp_def list_all_iff)

section \<open>Properties\<close>

text \<open>
  One action per governance coin: whatever sequence of signing requests reaches the ledger, it
  never holds two different signatures for the same governance coin, nor two for one request hash.
\<close>

theorem kos_one_action_per_coin:
  "distinct (map ms_governance_coin_id (run kos_step ops [])) \<and>
   distinct (map ms_request_hash (run kos_step ops []))"
proof -
  have "table_ok ms_clash rs \<Longrightarrow> distinct (map ms_governance_coin_id rs)" for rs
    by (induction rs) (auto simp: list_all_iff ms_clash_def)
  then show ?thesis
    using kos_run_inv [of ops] ms.distinct_keys by (auto simp: kos_inv_def)
qed

lemma kos_call_row:
  assumes "kos_inv db" and "record_or_recover rh cr gc ph ah sg clock db = (Inr s, db')"
  shows "\<exists>r. lookup ms_request_hash rh db' = Some r \<and> ms_canonical_request r = cr \<and> ms_signature r = s"
proof (cases "lookup ms_request_hash rh db")
  case (Some r)
  with assms(2) show ?thesis
    by (auto simp: record_or_recover_def txn_Inr_iff record_or_recover_body_def)
next
  case None
  with assms(2) obtain r where "sql_insert ms_clash r db = Some db'" "ms_request_hash r = rh"
      "ms_canonical_request r = cr" "ms_signature r = s"
    by (auto simp: record_or_recover_def txn_Inr_iff record_or_recover_body_def split: option.splits)
  with ms.lookup_insert show ?thesis by auto
qed

text \<open>
  C26. A signature once returned is final: after a call has returned a signature, and after any later
  calls, its row is still there; the same request gets that same signature, whatever fresh
  signature it carries; the same hash with another request text is refused; and so is every new
  request for the same governance coin. None of these changes the ledger.
\<close>

theorem kos_signature_final:
  assumes "record_or_recover rh cr gc ph ah sg clock (run kos_step ops []) = (Inr s, db)"
  shows "\<exists>r. ms_request_hash r = rh \<and> ms_signature r = s \<and> r \<in> set (run kos_step ops' db) \<and>
    (\<forall>gc' ph' ah' sg' t. record_or_recover rh cr gc' ph' ah' sg' t (run kos_step ops' db) = (Inr s, run kos_step ops' db)) \<and>
    (\<forall>cr' gc' ph' ah' sg' t. cr' \<noteq> cr \<longrightarrow>
       (\<exists>e. record_or_recover rh cr' gc' ph' ah' sg' t (run kos_step ops' db) = (Inl e, run kos_step ops' db))) \<and>
    (\<forall>rh' cr' ph' ah' sg' t. rh' \<notin> ms_request_hash ` set (run kos_step ops' db) \<longrightarrow>
       (\<exists>e. record_or_recover rh' cr' (ms_governance_coin_id r) ph' ah' sg' t (run kos_step ops' db)
          = (Inl e, run kos_step ops' db)))"
proof -
  have inv: "kos_inv db"
    using kos.step_inv [OF kos_run_inv, of "Sign rh cr gc ph ah sg clock" ops] assms by simp
  let ?db = "run kos_step ops' db"
  from kos_call_row [OF kos_run_inv assms] obtain r where
    r: "lookup ms_request_hash rh db = Some r" "ms_canonical_request r = cr" "ms_signature r = s"
    by blast
  then have m: "r \<in> set ?db" "ms_request_hash r = rh"
    using kos_run_prefix [OF inv, of ops'] by (auto dest: lookup_Some_D set_mono_prefix)
  have "kos_inv ?db" by (rule kos.run_inv [OF inv]) (simp add: list_all_iff)
  then have look: "lookup ms_request_hash rh ?db = Some r"
    using ms.lookup_mem [of ?db r] m by (simp add: kos_inv_def)
  have new: "\<exists>e. record_or_recover rh' cr' (ms_governance_coin_id r) ph' ah' sg' t ?db = (Inl e, ?db)"
    if "rh' \<notin> ms_request_hash ` set ?db" for rh' cr' ph' ah' sg' t
  proof -
    have "lookup ms_request_hash rh' ?db = None"
      using that by (cases "lookup ms_request_hash rh' ?db") (auto dest!: lookup_Some_D)
    then show ?thesis
      using m(1) by (auto simp: record_or_recover_def record_or_recover_body_def txn_def sql_insert_def
          list_ex_iff ms_clash_def)
  qed
  show ?thesis
    using r m look new
    by (intro exI [of _ r]) (simp add: record_or_recover_def record_or_recover_body_def txn_def)
qed

theorem kos_signature_final_witness:
  "\<exists>r. ms_request_hash r = ''h1'' \<and> ms_signature r = ''s1'' \<and>
    r \<in> set (run kos_step [Sign ''h2'' ''req2'' ''coin1'' ''p'' ''a'' ''s2'' 6]
      (snd (record_or_recover ''h1'' ''req1'' ''coin1'' ''p'' ''a'' ''s1'' 5 [])))"
proof -
  have "record_or_recover ''h1'' ''req1'' ''coin1'' ''p'' ''a'' ''s1'' 5 (run kos_step [] [])
      = (Inr ''s1'', snd (record_or_recover ''h1'' ''req1'' ''coin1'' ''p'' ''a'' ''s1'' 5 []))"
    by code_simp
  from kos_signature_final [OF this, of "[Sign ''h2'' ''req2'' ''coin1'' ''p'' ''a'' ''s2'' 6]"]
  show ?thesis by (elim exE conjE) (intro exI conjI)
qed

end
