(* ===== verification/PurchaseAdmission.thy ===== *)
theory PurchaseAdmission
  imports Json SqlCore
begin

text \<open>
  \<open>src/solslot_api/purchase_admission.py\<close>: the table that bounds new checkouts by the person the
  server has confirmed. A row is a soft quote slot that expires, until private signing begins and
  only a verified close frees it. The hash that names the person is an argument \<open>sha\<close> of the model
  (\<open>hashlib.sha256(...).hexdigest()\<close>).
\<close>

section \<open>Model\<close>

datatype pa_error =
    PaymentPurchaseConflict string
  | PaKeyError string
  | PaIntegrityError

datatype pa_state = QUOTING | SIGNING | CLOSED

record pa_row =
  pa_intent :: string
  pa_subject :: string
  pa_vault :: string
  pa_binding :: string
  pa_auth_type :: int
  pa_owner_key :: string
  pa_purchase_id :: "string option"
  pa_state :: pa_state
  pa_created_at :: int
  pa_expires_at :: int

type_synonym pa_db = "pa_row list"

definition pa_clash :: "pa_row \<Rightarrow> pa_row \<Rightarrow> bool" where
  "pa_clash r r' \<longleftrightarrow>
     pa_intent r = pa_intent r' \<or> nullable_eq (pa_purchase_id r) (pa_purchase_id r')"

interpretation pa: keyed_table pa_clash pa_intent
proof
  fix r r'
  show "pa_clash r r' \<Longrightarrow> pa_clash r' r"
    unfolding pa_clash_def nullable_eq_def by metis
qed (simp add: pa_clash_def)

definition ADMISSION_POLICY :: "(string \<times> json) list" where
  "ADMISSION_POLICY =
     [(''purchaseAdmissionPolicy'', JStr ''one-pending-identity-v1''),
      (''checkoutOwnerPolicy'', JStr ''authenticated-current-vault-owner-v1''),
      (''maxSoftQuoteSeconds'', JInt 900), (''maxPendingPurchasesPerIdentity'', JInt 1),
      (''maxReservedDeedsPerIdentity'', JInt 1), (''maxNewQuotesPerIdentityHour'', JInt 6),
      (''maxNewQuotesPerMinute'', JInt 60), (''maxPendingPurchases'', JInt 128)]"

definition is_hash_value :: "json \<Rightarrow> bool" where
  "is_hash_value v \<longleftrightarrow> (case v of JStr s \<Rightarrow> is_hash32 s | _ \<Rightarrow> False)"

definition ZERO_HASH :: string where
  "ZERO_HASH = ''0x'' @ replicate 64 (CHR ''0'')"

definition admission_subject :: "(string \<Rightarrow> string) \<Rightarrow> (string \<times> json) list \<Rightarrow> pa_error + string" where
  "admission_subject sha receipt =
     (let keys = [''scopedNullifier'', ''nullifierType'', ''serviceScopeHash'', ''serviceSubscopeHash'', ''network''];
          values = map (\<lambda>k. (k, get_or_null receipt k)) keys;
          val = get_or_null receipt in
      raise_if
        (val ''network'' \<noteq> JStr ''testnet11'' \<or>
         (case val ''nullifierType'' of JInt n \<Rightarrow> n < 0 | _ \<Rightarrow> True) \<or>
         list_ex (\<lambda>k. \<not> is_hash_value (val k)) [''scopedNullifier'', ''serviceScopeHash'', ''serviceSubscopeHash''] \<or>
         val ''scopedNullifier'' = JStr ZERO_HASH)
        (PaymentPurchaseConflict ''new checkout requires the server-confirmed scoped identity quota'')
        (Inr (sha (''solslot.purchase-admission.v1:'' @ canonical_json (JObj values)))))"

text \<open>\<open>receipt['vaultLauncherId']\<close>.\<close>

definition receipt_vault :: "(string \<times> json) list \<Rightarrow> pa_error + string" where
  "receipt_vault receipt =
     (case map_of receipt ''vaultLauncherId'' of Some (JStr v) \<Rightarrow> Inr v | _ \<Rightarrow> Inl (PaKeyError ''vaultLauncherId''))"

definition policy_ok :: "(string \<times> json) list \<Rightarrow> bool" where
  "policy_ok activation = list_all (\<lambda>(k, v). map_of activation k = Some v) ADMISSION_POLICY"

text \<open>\<open>activation[k]\<close>, read only after the policy check.\<close>

definition limit :: "(string \<times> json) list \<Rightarrow> string \<Rightarrow> int" where
  "limit activation k = (case map_of activation k of Some (JInt n) \<Rightarrow> n | _ \<Rightarrow> 0)"

definition active :: "int \<Rightarrow> pa_row \<Rightarrow> bool" where
  "active now r \<longleftrightarrow> pa_state r = SIGNING \<or> pa_state r = QUOTING \<and> now < pa_expires_at r"

definition count :: "('r \<Rightarrow> bool) \<Rightarrow> 'r list \<Rightarrow> int" where
  "count p rs = int (length (filter p rs))"

definition admit_body ::
  "string \<Rightarrow> string \<Rightarrow> string \<Rightarrow> string \<Rightarrow> (string \<times> json) list \<Rightarrow> int \<Rightarrow> int \<Rightarrow> string \<Rightarrow> (pa_db, pa_error, unit) body" where
  "admit_body purchase_intent_id subject vault binding activation now owner_auth_type owner_key db =
     (case lookup pa_intent purchase_intent_id db of
        Some old \<Rightarrow>
          raise_if
            (pa_subject old \<noteq> subject \<or> pa_vault old \<noteq> vault \<or> pa_binding old \<noteq> binding \<or>
             pa_auth_type old \<noteq> owner_auth_type \<or> pa_owner_key old \<noteq> owner_key \<or>
             pa_state old \<noteq> QUOTING \<or> pa_expires_at old \<le> now)
            (PaymentPurchaseConflict ''purchase admission cannot be replaced or reopened'')
            (Inr ((), db))
      | None \<Rightarrow>
          raise_if (list_ex (\<lambda>r. active now r \<and> (pa_subject r = subject \<or> pa_vault r = vault)) db)
            (PaymentPurchaseConflict
               ''finish or recover the existing checkout before reserving another property'')
          (raise_if
            (count (\<lambda>r. pa_subject r = subject \<and> now - 3600 < pa_created_at r) db
               \<ge> limit activation ''maxNewQuotesPerIdentityHour'' \<or>
             count (\<lambda>r. now - 60 < pa_created_at r) db \<ge> limit activation ''maxNewQuotesPerMinute'' \<or>
             min (count (active now) db) (limit activation ''maxPendingPurchases'')
               \<ge> limit activation ''maxPendingPurchases'')
            (PaymentPurchaseConflict
               ''new checkout capacity is limited; existing purchase recovery remains available'')
          (case sql_insert pa_clash
                  \<lparr>pa_intent = purchase_intent_id, pa_subject = subject, pa_vault = vault,
                   pa_binding = binding, pa_auth_type = owner_auth_type, pa_owner_key = owner_key,
                   pa_purchase_id = None, pa_state = QUOTING, pa_created_at = now,
                   pa_expires_at = now + limit activation ''maxSoftQuoteSeconds''\<rparr> db of
             None \<Rightarrow> Inl PaIntegrityError
           | Some db' \<Rightarrow> Inr ((), db'))))"

definition admit_purchase ::
  "(string \<Rightarrow> string) \<Rightarrow> string \<Rightarrow> (string \<times> json) list \<Rightarrow> (string \<times> json) list \<Rightarrow> int \<Rightarrow> int \<Rightarrow> string \<Rightarrow>
   (pa_db, pa_error, unit) call" where
  "admit_purchase sha purchase_intent_id receipt activation now owner_auth_type owner_key db =
     (case admission_subject sha receipt of
        Inl e \<Rightarrow> (Inl e, db)
      | Inr subject \<Rightarrow>
          (case receipt_vault receipt of
             Inl e \<Rightarrow> (Inl e, db)
           | Inr vault \<Rightarrow>
               if \<not> policy_ok activation then
                 (Inl (PaymentPurchaseConflict ''reviewed purchase admission limits are incomplete''), db)
               else
                 txn (admit_body purchase_intent_id subject vault (canonical_json (JObj activation))
                   activation now owner_auth_type owner_key) db))"

definition signing_row :: "string \<Rightarrow> pa_row \<Rightarrow> pa_row" where
  "signing_row purchase_id r = r\<lparr>pa_state := SIGNING, pa_purchase_id := Some purchase_id\<rparr>"

definition begin_body ::
  "string \<Rightarrow> string \<Rightarrow> string \<Rightarrow> (string \<times> json) list \<Rightarrow> string \<Rightarrow> int \<Rightarrow> int \<Rightarrow> string \<Rightarrow> (pa_db, pa_error, unit) body" where
  "begin_body purchase_intent_id purchase_id subject receipt binding now owner_auth_type owner_key db =
     (let refuse = PaymentPurchaseConflict ''private reservation requires its retained identity admission'' in
      case lookup pa_intent purchase_intent_id db of
        None \<Rightarrow> Inl refuse
      | Some row \<Rightarrow>
          raise_if (pa_subject row \<noteq> subject) refuse
          (case receipt_vault receipt of
             Inl e \<Rightarrow> Inl e
           | Inr vault \<Rightarrow>
               raise_if
                 (pa_vault row \<noteq> vault \<or> pa_auth_type row \<noteq> owner_auth_type \<or>
                  pa_owner_key row \<noteq> owner_key \<or> pa_binding row \<noteq> binding \<or> pa_state row = CLOSED \<or>
                  pa_state row = QUOTING \<and> pa_expires_at row \<le> now \<or>
                  pa_purchase_id row \<notin> {None, Some purchase_id})
                 refuse
               (case sql_update pa_clash (\<lambda>r. pa_intent r = purchase_intent_id) (signing_row purchase_id) db of
                  None \<Rightarrow> Inl PaIntegrityError
                | Some db' \<Rightarrow> Inr ((), db'))))"

definition begin_admitted_reservation ::
  "(string \<Rightarrow> string) \<Rightarrow> string \<Rightarrow> string \<Rightarrow> (string \<times> json) list \<Rightarrow> (string \<times> json) list \<Rightarrow> int \<Rightarrow> int \<Rightarrow>
   string \<Rightarrow> (pa_db, pa_error, unit) call" where
  "begin_admitted_reservation sha purchase_intent_id purchase_id receipt activation now
     owner_auth_type owner_key db =
     (case admission_subject sha receipt of
        Inl e \<Rightarrow> (Inl e, db)
      | Inr subject \<Rightarrow>
          txn (begin_body purchase_intent_id purchase_id subject receipt
            (canonical_json (JObj activation)) now owner_auth_type owner_key) db)"

definition require_admitted_checkout :: "pa_db \<Rightarrow> string \<Rightarrow> (string \<times> json) list \<Rightarrow> pa_error + unit" where
  "require_admitted_checkout db purchase_id activation =
     (let refuse = PaymentPurchaseConflict
            ''prepayment hold requires its durable identity admission before private signing'' in
      case lookup pa_purchase_id (Some purchase_id) db of
        None \<Rightarrow> Inl refuse
      | Some row \<Rightarrow>
          raise_if (pa_state row \<noteq> SIGNING \<or> pa_binding row \<noteq> canonical_json (JObj activation)) refuse
            (Inr ()))"

definition close_row :: "pa_row \<Rightarrow> pa_row" where
  "close_row r = r\<lparr>pa_state := CLOSED\<rparr>"

definition close_inventory_admission :: "string \<Rightarrow> pa_db \<Rightarrow> pa_db" where
  "close_inventory_admission purchase_id db =
     map (\<lambda>r. if pa_purchase_id r = Some purchase_id then close_row r else r) db"

section \<open>Calls\<close>

datatype pa_op =
    Admit string "(string \<times> json) list" "(string \<times> json) list" int int string
  | Begin string string "(string \<times> json) list" "(string \<times> json) list" int int string
  | Close string int

fun pa_step :: "(string \<Rightarrow> string) \<Rightarrow> pa_op \<Rightarrow> pa_db \<Rightarrow> pa_db" where
  "pa_step sha (Admit i rc ac now at k) db = snd (admit_purchase sha i rc ac now at k db)"
| "pa_step sha (Begin i p rc ac now at k) db = snd (begin_admitted_reservation sha i p rc ac now at k db)"
| "pa_step sha (Close p now) db = close_inventory_admission p db"

fun pa_time :: "pa_op \<Rightarrow> int" where
  "pa_time (Admit i rc ac now at k) = now"
| "pa_time (Begin i p rc ac now at k) = now"
| "pa_time (Close p now) = now"

text \<open>The abstract machine: a slot is opened, an open one is signed, any one is closed.\<close>

inductive pa_change :: "int \<Rightarrow> pa_db \<Rightarrow> pa_db \<Rightarrow> bool" for now where
  idle: "pa_change now db db"
| opened: "sql_insert pa_clash r db = Some db' \<Longrightarrow> pa_state r = QUOTING \<Longrightarrow>
    pa_created_at r = now \<Longrightarrow> pa_expires_at r = now + 900 \<Longrightarrow>
    \<forall>r' \<in> set db. active now r' \<longrightarrow> pa_subject r' \<noteq> pa_subject r \<and> pa_vault r' \<noteq> pa_vault r \<Longrightarrow>
    count (\<lambda>r'. pa_subject r' = pa_subject r \<and> now - 3600 < pa_created_at r') db < 6 \<Longrightarrow>
    count (\<lambda>r'. now - 60 < pa_created_at r') db < 60 \<Longrightarrow>
    count (active now) db < 128 \<Longrightarrow> pa_change now db db'"
| signed: "\<forall>r \<in> set db. pa_intent r = i \<longrightarrow> active now r \<and> pa_purchase_id r \<in> {None, Some p} \<Longrightarrow>
    sql_update pa_clash (\<lambda>r. pa_intent r = i) (signing_row p) db = Some db' \<Longrightarrow> pa_change now db db'"
| closed: "pa_change now db (close_inventory_admission p db)"

lemma policy_limits:
  assumes "policy_ok activation"
  shows "limit activation ''maxNewQuotesPerIdentityHour'' = 6" "limit activation ''maxNewQuotesPerMinute'' = 60"
    "limit activation ''maxPendingPurchases'' = 128" "limit activation ''maxSoftQuoteSeconds'' = 900"
  using assms by (simp_all add: policy_ok_def ADMISSION_POLICY_def limit_def)

lemma pa_step_change:
  assumes "table_ok pa_clash db"
  shows "pa_change (pa_time op) db (pa_step sha op db)"
proof (cases op)
  case (Admit i rc ac now at k)
  have "pa_change now db (snd (txn (admit_body i s v (canonical_json (JObj ac)) ac now at k) db))"
    if p: "policy_ok ac" for s v
  proof (rule txn_keeps)
    fix a t
    assume a: "admit_body i s v (canonical_json (JObj ac)) ac now at k db = Inr (a, t)"
    then show "pa_change now db t"
    proof (cases "lookup pa_intent i db")
      case None
      with a show ?thesis
        by (auto simp: admit_body_def policy_limits [OF p] list_ex_iff not_le split: option.splits
            intro!: opened)
    qed (auto simp: admit_body_def idle)
  qed (rule idle)
  with Admit show ?thesis
    by (auto simp: admit_purchase_def idle split: sum.splits)
next
  case (Begin i p rc ac now at k)
  have "pa_change now db (snd (txn (begin_body i p s rc (canonical_json (JObj ac)) now at k) db))" for s
  proof (rule txn_keeps)
    fix a t
    assume b: "begin_body i p s rc (canonical_json (JObj ac)) now at k db = Inr (a, t)"
    then obtain r where r: "lookup pa_intent i db = Some r"
        "pa_state r \<noteq> CLOSED" "\<not> (pa_state r = QUOTING \<and> pa_expires_at r \<le> now)"
        "pa_purchase_id r \<in> {None, Some p}"
        "sql_update pa_clash (\<lambda>r. pa_intent r = i) (signing_row p) db = Some t"
      by (auto simp: begin_body_def Let_def split: option.splits sum.splits)
    from r(2,3) have "active now r" by (cases "pa_state r") (auto simp: active_def)
    moreover have "r' = r" if "r' \<in> set db" "pa_intent r' = i" for r'
      using that r(1) by (auto dest!: lookup_Some_D intro: pa.key_eq [OF assms])
    ultimately show "pa_change now db t"
      using r(4) by (intro signed [OF _ r(5)]) auto
  qed (rule idle)
  with Begin show ?thesis
    by (auto simp: begin_admitted_reservation_def idle split: sum.splits)
qed (simp add: closed)

section \<open>Invariants\<close>

definition windows_ok :: "pa_db \<Rightarrow> bool" where
  "windows_ok db \<longleftrightarrow>
     (\<forall>x. count (\<lambda>r. x < pa_created_at r \<and> pa_created_at r \<le> x + 60) db \<le> 60) \<and>
     (\<forall>s x. count (\<lambda>r. pa_subject r = s \<and> x < pa_created_at r \<and> pa_created_at r \<le> x + 3600) db \<le> 6)"

lemma count_append: "count p (xs @ ys) = count p xs + count p ys"
  by (simp add: count_def)

lemma count_single: "count p [x] = (if p x then 1 else 0)"
  by (simp add: count_def)

lemma count_mono: "(\<And>x. x \<in> set xs \<Longrightarrow> p x \<Longrightarrow> q x) \<Longrightarrow> count p xs \<le> count q xs"
  unfolding count_def by (induction xs) auto

lemma count_map: "(\<And>x. x \<in> set xs \<Longrightarrow> p (f x) = q x) \<Longrightarrow> count p (map f xs) = count q xs"
  unfolding count_def by (induction xs) auto

text \<open>A slot settled before a later slot of the same person or vault was opened.\<close>

definition settled_before :: "pa_row \<Rightarrow> pa_row \<Rightarrow> bool" where
  "settled_before r r' \<longleftrightarrow>
     pa_subject r = pa_subject r' \<or> pa_vault r = pa_vault r' \<longrightarrow>
     pa_state r = CLOSED \<or> pa_state r = QUOTING \<and> pa_expires_at r \<le> pa_created_at r'"

definition pa_inv :: "int \<Rightarrow> pa_db \<Rightarrow> bool" where
  "pa_inv t db \<longleftrightarrow>
     list_all (\<lambda>r. pa_created_at r \<le> t) db \<and> sorted_wrt settled_before db \<and> count (active t) db \<le> 128"

lemma sorted_wrt_map_keep:
  assumes "sorted_wrt P xs" and "\<And>x y. x \<in> set xs \<Longrightarrow> y \<in> set xs \<Longrightarrow> P x y \<Longrightarrow> P (f x) (f y)"
  shows "sorted_wrt P (map f xs)"
  using assms by (induction xs) auto

lemma change_table: "pa_change now db db' \<Longrightarrow> table_ok pa_clash db \<Longrightarrow> table_ok pa_clash db'"
proof (induction rule: pa_change.induct)
  case (closed db p)
  have "pa_clash (if pa_purchase_id r = Some p then close_row r else r)
      (if pa_purchase_id r' = Some p then close_row r' else r') \<longleftrightarrow> pa_clash r r'" for r r'
    by (simp add: pa_clash_def close_row_def)
  with closed have "sql_update pa_clash (\<lambda>r. pa_purchase_id r = Some p) close_row db
      = Some (close_inventory_admission p db)"
    unfolding close_inventory_admission_def by (intro pa.update_frame)
  then show ?case by (rule pa.ok_update)
qed (auto intro: pa.ok_insert pa.ok_update)

lemma change_windows: "pa_change now db db' \<Longrightarrow> windows_ok db \<Longrightarrow> windows_ok db'"
proof (induction rule: pa_change.induct)
  case (opened r db db')
  then have db': "db' = db @ [r]" by (simp add: sql_insert_Some)
  have "count (\<lambda>r'. x < pa_created_at r' \<and> pa_created_at r' \<le> x + 60) db' \<le> 60" for x
  proof (cases "x < now \<and> now \<le> x + 60")
    case True
    then have "count (\<lambda>r'. x < pa_created_at r' \<and> pa_created_at r' \<le> x + 60) db
        \<le> count (\<lambda>r'. now - 60 < pa_created_at r') db"
      by (intro count_mono) auto
    with opened show ?thesis by (simp add: db' count_append count_single)
  next
    case False
    with opened show ?thesis
      by (auto simp: db' count_append count_single windows_ok_def)
  qed
  moreover have "count (\<lambda>r'. pa_subject r' = s \<and> x < pa_created_at r' \<and> pa_created_at r' \<le> x + 3600) db' \<le> 6" for s x
  proof (cases "s = pa_subject r \<and> x < now \<and> now \<le> x + 3600")
    case True
    then have "count (\<lambda>r'. pa_subject r' = s \<and> x < pa_created_at r' \<and> pa_created_at r' \<le> x + 3600) db
        \<le> count (\<lambda>r'. pa_subject r' = pa_subject r \<and> now - 3600 < pa_created_at r') db"
      by (intro count_mono) auto
    with opened show ?thesis by (simp add: db' count_append count_single)
  next
    case False
    with opened show ?thesis
      by (auto simp: db' count_append count_single windows_ok_def)
  qed
  ultimately show ?case by (simp add: windows_ok_def)
next
  case (signed db i p db')
  have "count (\<lambda>r. P (pa_subject r) (pa_created_at r)) db' = count (\<lambda>r. P (pa_subject r) (pa_created_at r)) db" for P
  proof -
    have "P (pa_subject (if q then signing_row p r else r)) (pa_created_at (if q then signing_row p r else r))
        = P (pa_subject r) (pa_created_at r)" for q r
      by (simp add: signing_row_def)
    moreover have "db' = map (\<lambda>r. if pa_intent r = i then signing_row p r else r) db"
      using signed by (simp add: sql_update_Some)
    ultimately show ?thesis by (simp only: count_map)
  qed
  from this [of "\<lambda>s c. a < c \<and> c \<le> b" for a b] this [of "\<lambda>s c. s = d \<and> a < c \<and> c \<le> b" for a b d] signed
  show ?case by (simp add: windows_ok_def)
next
  case (closed db p)
  then show ?case
    by (auto simp: windows_ok_def close_inventory_admission_def count_map close_row_def)
qed simp

lemma change_inv_pa:
  assumes "pa_change now db db'" and "pa_inv t db" and "t \<le> now"
  shows "pa_inv now db'"
  using assms
proof (induction rule: pa_change.induct)
  case (idle db)
  have "count (active now) db \<le> count (active t) db"
    using idle(2) by (intro count_mono) (auto simp: active_def)
  with idle show ?case by (auto simp: pa_inv_def list_all_iff)
next
  case (opened r db db')
  then have db': "db' = db @ [r]" by (simp add: sql_insert_Some)
  have "sorted_wrt settled_before (db @ [r])"
    unfolding sorted_wrt_append
  proof (intro conjI ballI)
    fix x y assume "x \<in> set db" "y \<in> set [r]"
    moreover from this opened(5) have "active now x \<Longrightarrow> pa_subject x \<noteq> pa_subject r \<and> pa_vault x \<noteq> pa_vault r"
      by blast
    ultimately show "settled_before x y"
      using opened(3) by (cases "pa_state x") (auto simp: settled_before_def active_def not_less [symmetric])
  qed (use opened.prems in \<open>auto simp: pa_inv_def\<close>)
  with opened show ?case by (auto simp: db' pa_inv_def count_append count_single list_all_iff)
next
  case (signed db i p db')
  then have db': "db' = map (\<lambda>r. if pa_intent r = i then signing_row p r else r) db"
    by (simp add: sql_update_Some)
  have "sorted_wrt settled_before db'"
    unfolding db'
  proof (rule sorted_wrt_map_keep)
    show "sorted_wrt settled_before db" using signed.prems by (simp add: pa_inv_def)
    fix x y assume xy: "x \<in> set db" "y \<in> set db" "settled_before x y"
    have "pa_created_at y \<le> now" using signed.prems xy(2) by (auto simp: pa_inv_def list_all_iff)
    then show "settled_before (if pa_intent x = i then signing_row p x else x)
        (if pa_intent y = i then signing_row p y else y)"
      using xy signed(1) by (auto simp: settled_before_def signing_row_def active_def)
  qed
  moreover have "count (active now) db' = count (active now) db"
    unfolding db' using signed(1) by (intro count_map) (auto simp: signing_row_def active_def)
  moreover have "count (active now) db \<le> count (active t) db"
    using signed.prems(2) by (intro count_mono) (auto simp: active_def)
  ultimately show ?case
    using signed.prems by (auto simp: pa_inv_def db' list_all_iff signing_row_def)
next
  case (closed db p)
  let ?f = "\<lambda>r. if pa_purchase_id r = Some p then close_row r else r"
  have "sorted_wrt settled_before (map ?f db)"
    using closed(1) by (intro sorted_wrt_map_keep) (auto simp: pa_inv_def settled_before_def close_row_def)
  moreover have "count (active now) (map ?f db) \<le> count (active t) db"
  proof -
    have "count (active now) (map ?f db) = count (\<lambda>r. active now (?f r)) db"
      by (rule count_map) simp
    also have "\<dots> \<le> count (active t) db"
      using closed(2) by (intro count_mono) (auto simp: active_def close_row_def split: if_splits)
    finally show ?thesis .
  qed
  ultimately show ?case
    using closed by (auto simp: pa_inv_def close_inventory_admission_def list_all_iff close_row_def)
qed

text \<open>Calls whose clock does not run backwards.\<close>

fun clock_from :: "int \<Rightarrow> pa_op list \<Rightarrow> bool" where
  "clock_from t [] = True"
| "clock_from t (op # ops) = (t \<le> pa_time op \<and> clock_from (pa_time op) ops)"

fun last_time :: "int \<Rightarrow> pa_op list \<Rightarrow> int" where
  "last_time t [] = t"
| "last_time t (op # ops) = last_time (pa_time op) ops"

lemma run_pa_inv:
  "clock_from t ops \<Longrightarrow> table_ok pa_clash db \<Longrightarrow> pa_inv t db \<Longrightarrow> pa_inv (last_time t ops) (run (pa_step sha) ops db)"
proof (induction ops arbitrary: t db)
  case (Cons op ops)
  have c: "pa_change (pa_time op) db (pa_step sha op db)" using Cons.prems(2) by (rule pa_step_change)
  have "pa_inv (pa_time op) (pa_step sha op db)"
    using change_inv_pa [OF c Cons.prems(3)] Cons.prems(1) by simp
  with Cons change_table [OF c] show ?case by simp
qed simp

interpretation past: store "pa_step sha" "\<lambda>db. table_ok pa_clash db \<and> windows_ok db" "\<lambda>_. True" for sha
  by unfold_locales (metis change_table change_windows pa_step_change)

text \<open>How a slot may change.\<close>

fun pa_rank :: "pa_state \<Rightarrow> nat" where
  "pa_rank QUOTING = 0" | "pa_rank SIGNING = 1" | "pa_rank CLOSED = 2"

definition slot_evolves :: "pa_row \<Rightarrow> pa_row \<Rightarrow> bool" where
  "slot_evolves r r' \<longleftrightarrow>
     pa_intent r' = pa_intent r \<and> pa_subject r' = pa_subject r \<and> pa_vault r' = pa_vault r \<and>
     pa_binding r' = pa_binding r \<and> pa_created_at r' = pa_created_at r \<and>
     pa_expires_at r' = pa_expires_at r \<and>
     pa_rank (pa_state r) \<le> pa_rank (pa_state r') \<and>
     (pa_purchase_id r \<noteq> None \<longrightarrow> pa_purchase_id r' = pa_purchase_id r)"

lemma slot_evolves_refl [simp]: "slot_evolves r r"
  by (simp add: slot_evolves_def)

definition slots_evolve :: "pa_db \<Rightarrow> pa_db \<Rightarrow> bool" where
  "slots_evolve db db' \<longleftrightarrow> list_all2 slot_evolves db (take (length db) db')"

lemma slots_evolve_map:
  assumes "\<And>r. r \<in> set db \<Longrightarrow> slot_evolves r (f r)"
  shows "slots_evolve db (map f db)"
  using assms by (simp add: slots_evolve_def list_all2_conv_all_nth)

lemma change_slots: "pa_change now db db' \<Longrightarrow> slots_evolve db db'"
proof (induction rule: pa_change.induct)
  case (signed db i p db')
  then show ?case
    by (auto simp: sql_update_Some slot_evolves_def signing_row_def active_def intro!: slots_evolve_map)
next
  case (closed db p)
  have "pa_rank st \<le> 2" for st by (cases st) simp_all
  then show ?case
    unfolding close_inventory_admission_def
    by (intro slots_evolve_map) (simp add: slot_evolves_def close_row_def)
qed (auto simp: slots_evolve_def sql_insert_Some list_all2_refl)

lemma slots_evolve_trans:
  assumes "slots_evolve a b" and "slots_evolve b c"
  shows "slots_evolve a c"
proof -
  have la: "length a \<le> length b" and lb: "length b \<le> length c"
    using assms by (auto simp: slots_evolve_def list_all2_conv_all_nth)
  have "slot_evolves (a ! i) (c ! i)" if "i < length a" for i
  proof -
    have "slot_evolves (a ! i) (b ! i)" "slot_evolves (b ! i) (c ! i)"
      using assms that la lb by (auto simp: slots_evolve_def list_all2_conv_all_nth)
    then show ?thesis unfolding slot_evolves_def by auto
  qed
  with la lb show ?thesis by (simp add: slots_evolve_def list_all2_conv_all_nth)
qed

section \<open>Properties\<close>

lemma sorted_wrt_filter_one:
  assumes "sorted_wrt P xs" and "\<And>x y. x \<in> set xs \<Longrightarrow> y \<in> set xs \<Longrightarrow> p x \<Longrightarrow> p y \<Longrightarrow> \<not> P x y"
  shows "length (filter p xs) \<le> 1"
  using assms
proof (induction xs)
  case (Cons x xs)
  then show ?case by (cases "p x") (auto simp: filter_empty_conv)
qed simp

definition sample_receipt :: "string \<Rightarrow> (string \<times> json) list" where
  "sample_receipt v =
     [(''network'', JStr ''testnet11''), (''nullifierType'', JInt 0),
      (''scopedNullifier'', JStr (''0x'' @ replicate 64 (CHR ''1''))),
      (''serviceScopeHash'', JStr ZERO_HASH), (''serviceSubscopeHash'', JStr ZERO_HASH),
      (''vaultLauncherId'', JStr v)]"

definition sample_pa_ops :: "pa_op list" where
  "sample_pa_ops =
     [Admit ''i1'' (sample_receipt ''v1'') ADMISSION_POLICY 100 1 ''k'',
      Admit ''i2'' (sample_receipt ''v2'') ADMISSION_POLICY 200 1 ''k'',
      Begin ''i1'' ''p1'' (sample_receipt ''v1'') ADMISSION_POLICY 300 1 ''k'']"

lemma sample_pa_run: "map (\<lambda>r. (pa_intent r, pa_state r)) (run (pa_step (\<lambda>s. ''h'')) sample_pa_ops []) = [(''i1'', SIGNING)]"
  by code_simp



text \<open>
  Quote rates are bounded over every window, not only when checked: whatever calls are made, with
  whatever clocks, the slots opened in any 60 seconds are at most 60, and those a person opened in
  any hour at most 6.
\<close>

theorem pa_rate_windows:
  "length (filter (\<lambda>r. x < pa_created_at r \<and> pa_created_at r \<le> x + 60) (run (pa_step sha) ops [])) \<le> 60 \<and>
   length (filter (\<lambda>r. pa_subject r = s \<and> x < pa_created_at r \<and> pa_created_at r \<le> x + 3600) (run (pa_step sha) ops [])) \<le> 6"
proof -
  have "windows_ok (run (pa_step sha) ops [])"
    using past.run_inv [of "[]" ops sha] by (simp add: windows_ok_def count_def list_all_iff)
  then have "count (\<lambda>r. x < pa_created_at r \<and> pa_created_at r \<le> x + 60) (run (pa_step sha) ops []) \<le> 60"
    and "count (\<lambda>r. pa_subject r = s \<and> x < pa_created_at r \<and> pa_created_at r \<le> x + 3600) (run (pa_step sha) ops []) \<le> 6"
    by (auto simp: windows_ok_def)
  then show ?thesis unfolding count_def by linarith
qed

text \<open>
  A slot only goes forward: from any reachable state, whatever calls follow, a slot keeps its
  person, vault, binding and times, a purchase id once bound never changes, and its state only moves from
  quoting to signing to closed; a closed one is never reopened.
\<close>

theorem pa_slot_forward:
  assumes "r \<in> set (run (pa_step sha) ops [])"
  shows "\<exists>r' \<in> set (run (pa_step sha) (ops @ ops') []). slot_evolves r r' \<and>
    (pa_state r = CLOSED \<longrightarrow> pa_state r' = CLOSED)"
proof -
  let ?db = "run (pa_step sha) ops []" and ?db' = "run (pa_step sha) (ops @ ops') []"
  have inv: "table_ok pa_clash ?db \<and> windows_ok ?db"
    by (rule past.run_inv) (simp_all add: windows_ok_def count_def list_all_iff)
  have "slots_evolve ?db (run (pa_step sha) ops' ?db)"
  proof (rule past.run_mono [where R = slots_evolve and s = ?db and ops = ops'])
    show "slots_evolve db (pa_step sha op db)" if "table_ok pa_clash db \<and> windows_ok db" for op db
      using that by (blast intro: change_slots pa_step_change)
    show "reflp slots_evolve" by (simp add: reflp_def slots_evolve_def list_all2_refl)
    show "transp slots_evolve" unfolding transp_def by (blast intro: slots_evolve_trans)
  qed (simp_all add: inv list_all_iff)
  then have "slots_evolve ?db ?db'" by (simp only: run_append)
  moreover obtain i where "i < length ?db" "?db ! i = r"
    using assms by (auto simp: in_set_conv_nth)
  ultimately have e: "slot_evolves r (?db' ! i)" "?db' ! i \<in> set ?db'"
    by (auto simp: slots_evolve_def list_all2_conv_all_nth)
  have "pa_state r = CLOSED \<Longrightarrow> pa_state (?db' ! i) = CLOSED"
    using e(1) by (cases "pa_state (?db' ! i)") (simp_all add: slot_evolves_def)
  with e show ?thesis by blast
qed

theorem pa_slot_forward_witness:
  "\<exists>r \<in> set (run (pa_step (\<lambda>s. ''h'')) sample_pa_ops []).
     \<exists>r' \<in> set (run (pa_step (\<lambda>s. ''h'')) (sample_pa_ops @ [Close ''p1'' 500]) []). slot_evolves r r'"
proof -
  obtain r where r: "r \<in> set (run (pa_step (\<lambda>s. ''h'')) sample_pa_ops [])"
    using sample_pa_run by (cases "run (pa_step (\<lambda>s. ''h'')) sample_pa_ops []") auto
  from pa_slot_forward [OF r, of "[Close ''p1'' 500]"] r show ?thesis by blast
qed

end
