(* ===== verification/DisplayUnits.thy ===== *)
theory DisplayUnits
  imports Complex_Main "HOL-Library.Multiset" PyCore
begin

text \<open>
  \<open>src/solslot_api/collection_display_units.py\<close>: the one boundary that turns the dollars, percentages
  and ownership shares of an administrator into the integers of the protocol. Python's integers are
  unbounded; the limit \<open>MAX_UINT64\<close> is checked by the code and so by the model. A \<open>dict\<close> of shares is
  the list of its pairs.
\<close>

section \<open>Model\<close>

datatype unit_error = DisplayUnitError string

definition MAX_UINT64 :: int where
  "MAX_UINT64 = 2 ^ 64 - 1"

definition TARGET_ALLOCATION_PPM :: int where
  "TARGET_ALLOCATION_PPM = 1000000"

text \<open>\<open>s.partition('.')\<close>; the flag says whether there is a dot.\<close>

fun partition_dot :: "string \<Rightarrow> string \<times> bool \<times> string" where
  "partition_dot [] = ([], False, [])"
| "partition_dot (c # s) =
     (if c = CHR ''.'' then ([], True, s)
      else (case partition_dot s of (w, d, f) \<Rightarrow> (c # w, d, f)))"

text \<open>\<open>^(?:0|[1-9][0-9]*)(?:[.][0-9]+)?$\<close>.\<close>

definition is_display_decimal :: "string \<Rightarrow> bool" where
  "is_display_decimal s =
     (case partition_dot s of
        (w, d, f) \<Rightarrow>
          w \<noteq> [] \<and> list_all is_digit w \<and> (hd w = CHR ''0'' \<longrightarrow> w = ''0'') \<and>
          list_all is_digit f \<and> (d \<longrightarrow> f \<noteq> []))"

definition ljust0 :: "nat \<Rightarrow> string \<Rightarrow> string" where
  "ljust0 n s = s @ replicate (n - length s) (CHR ''0'')"

definition scaled_integer :: "string \<Rightarrow> string \<Rightarrow> nat \<Rightarrow> int \<Rightarrow> unit_error + int" where
  "scaled_integer value label decimal_places maximum =
     raise_if (value = [] \<or> length value > 40 \<or> \<not> is_display_decimal value)
       (DisplayUnitError (label @ '' must be a plain non-negative decimal without commas or exponent notation''))
     (case partition_dot value of
        (whole, dot, fraction) \<Rightarrow>
          raise_if (dot \<and> length fraction > decimal_places)
            (DisplayUnitError (label @ '' supports at most '' @ show_nat decimal_places @ '' decimal places''))
          (let scaled = int (nat_of_digits whole) * 10 ^ decimal_places;
               scaled = (if fraction \<noteq> [] then scaled + int (nat_of_digits (ljust0 decimal_places fraction))
                         else scaled) in
           raise_if (scaled > maximum) (DisplayUnitError (label @ '' is too large'')) (Inr scaled)))"

definition dollars_to_minor :: "string \<Rightarrow> string \<Rightarrow> unit_error + string" where
  "dollars_to_minor value label = map_sum id show_int (scaled_integer value label 2 MAX_UINT64)"

definition percentage_to_bps :: "string \<Rightarrow> string \<Rightarrow> int \<Rightarrow> unit_error + string" where
  "percentage_to_bps value label maximum_bps = map_sum id show_int (scaled_integer value label 2 maximum_bps)"

definition ownership_to_ppm :: "string \<Rightarrow> string \<Rightarrow> unit_error + int" where
  "ownership_to_ppm value label = scaled_integer value label 4 TARGET_ALLOCATION_PPM"

definition usd_minor_to_asset_units :: "int \<Rightarrow> int \<Rightarrow> int \<Rightarrow> unit_error + int" where
  "usd_minor_to_asset_units usd_minor price_usd_minor_per_asset asset_decimals =
     raise_if (usd_minor < 0) (DisplayUnitError ''USD amount cannot be negative'')
     (raise_if (price_usd_minor_per_asset \<le> 0) (DisplayUnitError ''oracle price must be positive'')
     (raise_if (asset_decimals < 0 \<or> asset_decimals > 18)
       (DisplayUnitError ''oracle asset decimals are unsupported'')
     (let numerator = usd_minor * 10 ^ nat asset_decimals;
          amount = (numerator + price_usd_minor_per_asset - 1) div price_usd_minor_per_asset in
      raise_if (amount > MAX_UINT64) (DisplayUnitError ''oracle-derived protocol amount exceeds uint64'')
        (Inr amount))))"

text \<open>\<open>xs[:n]\<close>, for a negative \<open>n\<close> too.\<close>

definition slice_to :: "int \<Rightarrow> 'a list \<Rightarrow> 'a list" where
  "slice_to n xs = (if n < 0 then take (nat (int (length xs) + n)) xs else take (nat n) xs)"

text \<open>One pass over the sorted keys: the key, its whole mojos and its remainder.\<close>

definition split_share :: "int \<Rightarrow> string \<times> int \<Rightarrow> unit_error + (string \<times> int \<times> int)" where
  "split_share collection_par_mojos kv =
     (case kv of
        (key, share) \<Rightarrow>
          raise_if (share \<le> 0 \<or> share > TARGET_ALLOCATION_PPM)
            (DisplayUnitError (''ownership share '' @ key @ '' is outside 0-100%''))
            (Inr (key, collection_par_mojos * share div TARGET_ALLOCATION_PPM,
                  collection_par_mojos * share mod TARGET_ALLOCATION_PPM)))"

definition bonus_keys :: "int \<Rightarrow> (string \<times> int \<times> int) list \<Rightarrow> string list" where
  "bonus_keys extra rows =
     map fst (slice_to extra (sort_key (\<lambda>(key, _, remainder). (- remainder, key)) rows))"

definition allocate_par_mojos :: "int \<Rightarrow> (string \<times> int) list \<Rightarrow> unit_error + (string \<times> int) list" where
  "allocate_par_mojos collection_par_mojos ownership_ppm =
     raise_if (collection_par_mojos \<le> 0) (DisplayUnitError ''collection par must be positive'')
     (if ownership_ppm = [] then Inr []
      else
        raise_if (sum_list (map snd ownership_ppm) \<noteq> TARGET_ALLOCATION_PPM)
          (DisplayUnitError ''ownership shares must total exactly 100%'')
        (case map_result (split_share collection_par_mojos) (sort_key fst ownership_ppm) of
           Inl e \<Rightarrow> Inl e
         | Inr rows \<Rightarrow>
             let used = sum_list (map (\<lambda>(_, amount, _). amount) rows);
                 bonus = bonus_keys (collection_par_mojos - used) rows;
                 allocated = map (\<lambda>(key, amount, _). (key, if key \<in> set bonus then amount + 1 else amount)) rows in
             raise_if (list_ex (\<lambda>(_, value). value \<le> 0) allocated)
               (DisplayUnitError ''each deed must receive a positive protocol par value'')
             (raise_if (sum_list (map snd allocated) \<noteq> collection_par_mojos)
               (DisplayUnitError ''deed par allocation does not equal collection par'')
               (Inr allocated))))"

section \<open>Decimals\<close>

text \<open>The number a plain decimal denotes.\<close>

definition decimal_value :: "string \<Rightarrow> rat" where
  "decimal_value s =
     (case partition_dot s of
        (w, _, f) \<Rightarrow> of_nat (nat_of_digits w) + of_nat (nat_of_digits f) / 10 ^ length f)"

lemma nat_of_digits_Nil [simp]: "nat_of_digits [] = 0"
  by (simp add: nat_of_digits_def)

lemma nat_of_digits_zeros: "nat_of_digits (s @ replicate n (CHR ''0'')) = nat_of_digits s * 10 ^ n"
proof (induction n)
  case (Suc n)
  have "s @ replicate (Suc n) (CHR ''0'') = (s @ replicate n (CHR ''0'')) @ [CHR ''0'']"
    by (simp add: replicate_append_same)
  then show ?case
    using Suc by (simp add: nat_of_digits_snoc del: append_assoc) (simp add: digit_val_def)
qed simp

lemma partition_dot_no_dot: "partition_dot s = (w, False, f) \<Longrightarrow> f = []"
  by (induction s arbitrary: w f) (auto split: if_splits prod.splits)

text \<open>
  A display amount is converted exactly or not at all: the conversion succeeds precisely when the
  text is a plain decimal of at most 40 characters with no more decimals than the unit has and its
  scaled value is within the limit, and the integer it returns is that value with no rounding.
\<close>

theorem scaled_integer_exact:
  "scaled_integer value label places maximum = Inr n \<longleftrightarrow>
     length value \<le> 40 \<and> is_display_decimal value \<and>
     length (snd (snd (partition_dot value))) \<le> places \<and>
     of_int n = decimal_value value * 10 ^ places \<and> n \<le> maximum"
proof -
  obtain w d f where p: "partition_dot value = (w, d, f)" by (cases "partition_dot value")
  define m where "m = int (nat_of_digits w) * 10 ^ places +
      (if f \<noteq> [] then int (nat_of_digits (ljust0 places f)) else 0)"
  have dot: "\<not> d \<Longrightarrow> f = []" using partition_dot_no_dot [of "value" w f] p by (cases d) simp_all
  have val: "of_int m = decimal_value value * 10 ^ places" if le: "length f \<le> places"
  proof -
    have q: "(10::rat) ^ (places - length f) = 10 ^ places / 10 ^ length f"
      using le by (simp add: power_diff)
    have "of_int m = (of_nat (nat_of_digits w) :: rat) * 10 ^ places
        + of_nat (nat_of_digits f) * 10 ^ (places - length f)"
      by (cases "f = []") (simp_all add: m_def ljust0_def nat_of_digits_zeros)
    also have "\<dots> = decimal_value value * 10 ^ places"
      unfolding q by (simp add: decimal_value_def p distrib_right)
    finally show ?thesis .
  qed
  have ne: "is_display_decimal value \<Longrightarrow> value \<noteq> []"
    by (auto simp: is_display_decimal_def)
  have "scaled_integer value label places maximum = Inr n \<longleftrightarrow>
      length value \<le> 40 \<and> is_display_decimal value \<and> length f \<le> places \<and> m \<le> maximum \<and> n = m"
    using dot ne by (cases d) (auto simp: scaled_integer_def p Let_def m_def)
  also have "\<dots> \<longleftrightarrow> length value \<le> 40 \<and> is_display_decimal value \<and> length f \<le> places \<and>
      of_int n = decimal_value value * 10 ^ places \<and> n \<le> maximum"
    using val by (metis of_int_eq_iff)
  finally show ?thesis by (simp add: p)
qed

text \<open>
  A dollar amount becomes asset units by rounding up to the next unit: the result is the least
  amount whose value at the oracle price covers the dollars, so a buyer never pays less than the price and
  never a whole unit more; the call fails only on a negative amount, a price that is not positive,
  unsupported decimals or a result beyond 64 bits.
\<close>

theorem usd_minor_to_asset_units_least:
  "usd_minor_to_asset_units usd price decimals = Inr amount \<longleftrightarrow>
     0 \<le> usd \<and> 0 < price \<and> 0 \<le> decimals \<and> decimals \<le> 18 \<and> amount \<le> MAX_UINT64 \<and>
     usd * 10 ^ nat decimals \<le> amount * price \<and> (amount - 1) * price < usd * 10 ^ nat decimals"
proof -
  have "a = (m + price - 1) div price \<longleftrightarrow> m \<le> a * price \<and> (a - 1) * price < m" if "0 < price" for a m :: int
  proof
    assume a: "a = (m + price - 1) div price"
    have "(m + price - 1) div price * price \<le> m + price - 1 \<and> m + price - 1 < ((m + price - 1) div price + 1) * price"
      using that by (metis div_mult_mod_eq add_le_cancel_left add_strict_left_mono distrib_right le_add_same_cancel1
          mult_1 pos_mod_bound pos_mod_sign)
    then show "m \<le> a * price \<and> (a - 1) * price < m"
      by (simp add: a algebra_simps)
  next
    assume "m \<le> a * price \<and> (a - 1) * price < m"
    then have "m + price - 1 = price * a + (m + price - 1 - price * a)" "0 \<le> m + price - 1 - price * a"
        "m + price - 1 - price * a < price"
      by (simp_all add: algebra_simps)
    then show "a = (m + price - 1) div price"
      by (metis int_div_pos_eq)
  qed
  note eq = this [of amount "usd * 10 ^ nat decimals"]
  have "usd_minor_to_asset_units usd price decimals = Inr amount \<longleftrightarrow>
     0 \<le> usd \<and> 0 < price \<and> 0 \<le> decimals \<and> decimals \<le> 18 \<and> amount \<le> MAX_UINT64 \<and>
     amount = (usd * 10 ^ nat decimals + price - 1) div price"
    unfolding usd_minor_to_asset_units_def Let_def by (auto simp: not_less not_le)
  with eq show ?thesis by blast
qed

section \<open>Allocation\<close>

lemma sort_map_fst: "map fst (sort_key fst xs) = sort (map fst xs)"
  by (rule properties_for_sort [symmetric]) simp_all

lemma split_share_error:
  "map_result (split_share c) xs = Inl e \<Longrightarrow>
   e \<noteq> DisplayUnitError ''deed par allocation does not equal collection par''"
  by (induction xs) (auto simp: split_share_def raise_if_def split: sum.splits if_splits)


lemma map_result_Cons_Inr:
  "map_result f (x # xs) = Inr rows \<longleftrightarrow> (\<exists>y ys. f x = Inr y \<and> map_result f xs = Inr ys \<and> rows = y # ys)"
  by (auto split: sum.splits)

lemma split_share_Inr:
  "split_share c (k, s) = Inr y \<longleftrightarrow> 0 < s \<and> s \<le> TARGET_ALLOCATION_PPM \<and>
     y = (k, c * s div TARGET_ALLOCATION_PPM, c * s mod TARGET_ALLOCATION_PPM)"
  by (auto simp: split_share_def)

lemma split_share_all:
  "map_result (split_share c) xs = Inr rows \<longleftrightarrow>
     (\<forall>(k, s) \<in> set xs. 0 < s \<and> s \<le> TARGET_ALLOCATION_PPM) \<and>
     rows = map (\<lambda>(k, s). (k, c * s div TARGET_ALLOCATION_PPM, c * s mod TARGET_ALLOCATION_PPM)) xs"
proof (induction xs arbitrary: rows)
  case (Cons x xs)
  obtain k s where "x = (k, s)" by (cases x)
  then show ?case
    unfolding map_result_Cons_Inr by (auto simp: split_share_Inr Cons.IH)
qed auto

lemma sum_bonus:
  assumes "distinct (map fst rows)" and "set bonus \<subseteq> fst ` set rows" and "distinct bonus"
  shows "sum_list (map snd (map (\<lambda>(k, a, _). (k, if k \<in> set bonus then a + 1 else a)) rows))
    = sum_list (map (\<lambda>(_, a, _). a) rows) + int (length bonus)"
proof -
  have "sum_list (map snd (map (\<lambda>(k, a, _). (k, if k \<in> set bonus then a + 1 else a)) rows))
      = sum_list (map (\<lambda>(_, a, _). a) rows) + int (length (filter (\<lambda>k. k \<in> set bonus) (map fst rows)))"
    by (induction rows) auto
  moreover have "length (filter (\<lambda>k. k \<in> set bonus) (map fst rows)) = length bonus"
  proof -
    have "distinct (filter (\<lambda>k. k \<in> set bonus) (map fst rows))"
      using assms(1) by simp
    moreover have "set (filter (\<lambda>k. k \<in> set bonus) (map fst rows)) = set bonus"
      using assms(2) by auto
    ultimately show ?thesis
      using assms(3) by (metis distinct_card)
  qed
  ultimately show ?thesis by simp
qed

text \<open>The mojos left after the whole parts: fewer than there are deeds, and never negative.\<close>

lemma leftover_bounds:
  fixes c :: int and T :: int
  assumes "sum_list ss = T" and "0 < T" and "ss \<noteq> []"
  shows "0 \<le> c - sum_list (map (\<lambda>s. c * s div T) ss)" and "c - sum_list (map (\<lambda>s. c * s div T) ss) < int (length ss)"
proof -
  have eq: "T * sum_list (map (\<lambda>s. c * s div T) ss) + sum_list (map (\<lambda>s. c * s mod T) ss) = c * sum_list ss"
    by (induction ss) (simp_all add: algebra_simps)
  have lo: "0 \<le> sum_list (map (\<lambda>s. c * s mod T) ss)"
    using assms(2) by (intro sum_list_nonneg) auto
  have hi: "ss \<noteq> [] \<Longrightarrow> sum_list (map (\<lambda>s. c * s mod T) ss) < T * int (length ss)"
  proof (induction ss)
    case (Cons s ss)
    have "c * s mod T < T" using assms(2) by simp
    with Cons show ?case by (cases "ss = []") (auto simp: algebra_simps)
  qed simp
  have "T * (c - sum_list (map (\<lambda>s. c * s div T) ss)) = sum_list (map (\<lambda>s. c * s mod T) ss)"
    using eq assms(1) by (simp add: algebra_simps)
  then have "0 \<le> T * (c - sum_list (map (\<lambda>s. c * s div T) ss))"
      "T * (c - sum_list (map (\<lambda>s. c * s div T) ss)) < T * int (length ss)"
    using lo hi assms(3) by simp_all
  with assms(2) show "0 \<le> c - sum_list (map (\<lambda>s. c * s div T) ss)"
      and "c - sum_list (map (\<lambda>s. c * s div T) ss) < int (length ss)"
    by (simp_all add: zero_le_mult_iff)
qed

definition share_rows :: "int \<Rightarrow> (string \<times> int) list \<Rightarrow> (string \<times> int \<times> int) list" where
  "share_rows c shares =
     map (\<lambda>(k, s). (k, c * s div TARGET_ALLOCATION_PPM, c * s mod TARGET_ALLOCATION_PPM)) (sort_key fst shares)"

definition leftover :: "int \<Rightarrow> (string \<times> int) list \<Rightarrow> int" where
  "leftover c shares = c - sum_list (map (\<lambda>(_, a, _). a) (share_rows c shares))"

lemma leftover_range:
  assumes "shares \<noteq> []" and "sum_list (map snd shares) = TARGET_ALLOCATION_PPM"
  shows "0 \<le> leftover c shares" and "leftover c shares < int (length shares)"
proof -
  have "mset (sort_key fst shares) = mset shares" by simp
  then have "sum_list (map snd (sort_key fst shares)) = TARGET_ALLOCATION_PPM"
    using assms(2) by (metis mset_map sum_mset_sum_list)
  moreover have "map snd (sort_key fst shares) \<noteq> []"
    using assms(1) by (metis length_0_conv length_map length_sort)
  moreover have "sum_list (map (\<lambda>(_, a, _). a) (share_rows c shares))
      = sum_list (map (\<lambda>s. c * s div TARGET_ALLOCATION_PPM) (map snd (sort_key fst shares)))"
    unfolding share_rows_def by (simp add: comp_def split_beta)
  ultimately show "0 \<le> leftover c shares" and "leftover c shares < int (length shares)"
    using leftover_bounds [of "map snd (sort_key fst shares)" TARGET_ALLOCATION_PPM c]
    by (simp_all add: leftover_def TARGET_ALLOCATION_PPM_def)
qed

lemma bonus_keys_props:
  assumes "distinct (map fst rows)" and "0 \<le> n" and "n \<le> int (length rows)"
  shows "distinct (bonus_keys n rows)" and "set (bonus_keys n rows) \<subseteq> fst ` set rows"
    and "int (length (bonus_keys n rows)) = n"
    and "(k, a, r) \<in> set rows \<Longrightarrow> (k', a', r') \<in> set rows \<Longrightarrow> k \<in> set (bonus_keys n rows) \<Longrightarrow>
      k' \<notin> set (bonus_keys n rows) \<Longrightarrow> (- r, k) \<le> (- r', k')"
proof -
  let ?key = "\<lambda>(key, _, remainder). (- remainder, key)"
  let ?s = "sort_key ?key rows"
  have b: "bonus_keys n rows = map fst (take (nat n) ?s)"
    using assms(2) by (simp add: bonus_keys_def slice_to_def)
  have d: "distinct (map fst ?s)"
    using assms(1) by (simp add: distinct_map)
  then show "distinct (bonus_keys n rows)"
    by (simp add: b take_map [symmetric])
  show "set (bonus_keys n rows) \<subseteq> fst ` set rows"
    by (auto simp: b dest!: in_set_takeD)
  show "int (length (bonus_keys n rows)) = n"
    using assms(2,3) by (simp add: b)
  assume m: "(k, a, r) \<in> set rows" "(k', a', r') \<in> set rows" "k \<in> set (bonus_keys n rows)" "k' \<notin> set (bonus_keys n rows)"
  have inj: "x = y" if "x \<in> set rows" "y \<in> set rows" "fst x = fst y" for x y
    using assms(1) that by (metis distinct_map inj_onD)
  from m(3) obtain x where x: "x \<in> set (take (nat n) ?s)" "fst x = k" by (auto simp: b)
  then have x': "x = (k, a, r)"
    using m(1) inj [of x "(k, a, r)"] in_set_takeD [OF x(1)] by simp
  have "(k', a', r') \<in> set ?s" using m(2) by simp
  then have "(k', a', r') \<in> set (take (nat n) ?s) \<union> set (drop (nat n) ?s)"
    by (metis append_take_drop_id set_append)
  then have y: "(k', a', r') \<in> set (drop (nat n) ?s)"
    using m(4) by (force simp: b)
  have "sorted (map ?key (take (nat n) ?s @ drop (nat n) ?s))"
    by (simp only: append_take_drop_id sorted_sort_key)
  then have "?key x \<le> ?key (k', a', r')"
    using x(1) y unfolding map_append sorted_append by auto
  then show "(- r, k) \<le> (- r', k')" by (simp add: x')
qed

lemma allocated_bonus:
  fixes rows :: "(string \<times> int \<times> int) list"
  assumes "distinct (map fst rows)" and "(k, a, r) \<in> set rows"
  shows "(k, a + 1) \<in> set (map (\<lambda>(k, a, _). (k, if k \<in> B then a + 1 else a)) rows) \<Longrightarrow> k \<in> B"
    and "(k, a) \<in> set (map (\<lambda>(k, a, _). (k, if k \<in> B then a + 1 else a)) rows) \<Longrightarrow> k \<notin> B"
proof -
  have uniq: "x = (k, a, r)" if "x \<in> set rows" "fst x = k" for x
    using assms that by (metis distinct_map inj_onD fst_conv)
  have val: "v = (if k \<in> B then a + 1 else a)"
    if "(k, v) \<in> set (map (\<lambda>(k, a, _). (k, if k \<in> B then a + 1 else a)) rows)" for v :: int
    using that uniq by force
  show "(k, a + 1) \<in> set (map (\<lambda>(k, a, _). (k, if k \<in> B then a + 1 else a)) rows) \<Longrightarrow> k \<in> B"
    by (drule val) (simp split: if_splits)
  show "(k, a) \<in> set (map (\<lambda>(k, a, _). (k, if k \<in> B then a + 1 else a)) rows) \<Longrightarrow> k \<notin> B"
    by (drule val) (simp split: if_splits)
qed

text \<open>Shares that pass the checks of \<open>allocate_par_mojos\<close>, and the rows it then builds.\<close>

definition shares_ok :: "int \<Rightarrow> (string \<times> int) list \<Rightarrow> bool" where
  "shares_ok par shares \<longleftrightarrow> 0 < par \<and> sum_list (map snd shares) = TARGET_ALLOCATION_PPM \<and>
     (\<forall>(k, s) \<in> set shares. 0 < s \<and> s \<le> TARGET_ALLOCATION_PPM)"

definition par_rows :: "int \<Rightarrow> (string \<times> int) list \<Rightarrow> (string \<times> int) list" where
  "par_rows par shares =
     (let rows = share_rows par shares; b = bonus_keys (leftover par shares) rows in
      map (\<lambda>(key, amount, _). (key, if key \<in> set b then amount + 1 else amount)) rows)"

lemma bad_shares_rejected:
  assumes "shares \<noteq> []" and "\<not> shares_ok par shares"
  obtains e where "allocate_par_mojos par shares = Inl e"
    and "e \<noteq> DisplayUnitError ''deed par allocation does not equal collection par''"
    and "par \<le> 0 \<or> sum_list (map snd shares) \<noteq> TARGET_ALLOCATION_PPM \<or>
         (\<exists>(k, s) \<in> set shares. s \<le> 0 \<or> s > TARGET_ALLOCATION_PPM)"
proof (cases "map_result (split_share par) (sort_key fst shares)")
  case (Inl e)
  then have "\<not> (\<forall>(k, s) \<in> set shares. 0 < s \<and> s \<le> TARGET_ALLOCATION_PPM)"
    using split_share_all [of par "sort_key fst shares"] by auto
  then have bad: "\<exists>(k, s) \<in> set shares. s \<le> 0 \<or> s > TARGET_ALLOCATION_PPM"
    by fastforce
  have ne: "e \<noteq> DisplayUnitError ''deed par allocation does not equal collection par''"
    using Inl by (rule split_share_error)
  have "\<exists>e. allocate_par_mojos par shares = Inl e \<and> e \<noteq> DisplayUnitError ''deed par allocation does not equal collection par''"
    using Inl ne assms(1) by (auto simp: allocate_par_mojos_def raise_if_def)
  with bad show ?thesis using that by blast
next
  case (Inr rows)
  then have "\<forall>(k, s) \<in> set shares. 0 < s \<and> s \<le> TARGET_ALLOCATION_PPM"
    by (simp add: split_share_all)
  with assms(2) have bad: "par \<le> 0 \<or> sum_list (map snd shares) \<noteq> TARGET_ALLOCATION_PPM"
    by (auto simp: shares_ok_def)
  then have "\<exists>e. allocate_par_mojos par shares = Inl e \<and> e \<noteq> DisplayUnitError ''deed par allocation does not equal collection par''"
    using assms(1) by (auto simp: allocate_par_mojos_def raise_if_def)
  with bad show ?thesis using that by blast
qed

lemma share_rows_mem:
  "(k, s) \<in> set shares \<Longrightarrow> (k, par * s div TARGET_ALLOCATION_PPM, par * s mod TARGET_ALLOCATION_PPM) \<in> set (share_rows par shares)"
  by (force simp: share_rows_def)

lemma fst_share_rows: "map fst (share_rows par shares) = sort (map fst shares)"
  by (simp add: share_rows_def comp_def split_beta sort_map_fst)

lemma fst_par_rows: "map fst (par_rows par shares) = sort (map fst shares)"
  unfolding fst_share_rows [of par shares, symmetric] by (simp add: par_rows_def Let_def comp_def split_beta)

lemma par_bonus:
  assumes "distinct (map fst shares)" and "shares \<noteq> []" and "shares_ok par shares"
  shows "distinct (map fst (share_rows par shares))" and "0 \<le> leftover par shares"
    and "leftover par shares \<le> int (length (share_rows par shares))"
proof -
  show "distinct (map fst (share_rows par shares))"
    using assms(1) by (simp add: fst_share_rows)
  show "0 \<le> leftover par shares" "leftover par shares \<le> int (length (share_rows par shares))"
    using leftover_range [OF assms(2), of par] assms(3) by (simp_all add: share_rows_def shares_ok_def)
qed

text \<open>The rows add up to the par, so the call fails only for a deed without value.\<close>

lemma par_rows_sum:
  assumes "distinct (map fst shares)" and "shares \<noteq> []" and "shares_ok par shares"
  shows "sum_list (map snd (par_rows par shares)) = par"
proof -
  note p = par_bonus [OF assms]
  show ?thesis
    using sum_bonus [OF p(1) bonus_keys_props(2,1) [OF p]] bonus_keys_props(3) [OF p]
    by (simp add: leftover_def par_rows_def Let_def)
qed

lemma allocate_par_call:
  assumes "distinct (map fst shares)" and "shares \<noteq> []" and "shares_ok par shares"
  shows "allocate_par_mojos par shares =
      raise_if (list_ex (\<lambda>(_, value). value \<le> 0) (par_rows par shares))
        (DisplayUnitError ''each deed must receive a positive protocol par value'') (Inr (par_rows par shares))"
proof -
  have "map_result (split_share par) (sort_key fst shares) = Inr (share_rows par shares)"
    using assms(3) by (simp add: split_share_all share_rows_def shares_ok_def)
  then show ?thesis
    using assms par_rows_sum [OF assms]
    by (simp add: allocate_par_mojos_def Let_def leftover_def [symmetric] par_rows_def shares_ok_def)
qed

lemma worthless_deed:
  assumes "list_ex (\<lambda>(_, value). value \<le> 0) (par_rows par shares)"
  shows "\<exists>(k, s) \<in> set shares. par * s < TARGET_ALLOCATION_PPM"
proof -
  from assms obtain k a r where "(k, a, r) \<in> set (share_rows par shares)" "a \<le> 0"
    by (auto simp: list_ex_iff par_rows_def Let_def split: if_splits)
  then obtain s where "(k, s) \<in> set shares" "par * s div TARGET_ALLOCATION_PPM \<le> 0"
    by (auto simp: share_rows_def)
  moreover have "0 < TARGET_ALLOCATION_PPM" by (simp add: TARGET_ALLOCATION_PPM_def)
  ultimately have "(k, s) \<in> set shares" "par * s < TARGET_ALLOCATION_PPM"
    by (auto simp: pos_imp_zdiv_pos_iff not_less [symmetric])
  then show ?thesis by blast
qed

lemma par_rows_share:
  assumes "(k, s) \<in> set shares"
  shows "\<exists>v. (k, v) \<in> set (par_rows par shares) \<and>
    v \<in> {par * s div TARGET_ALLOCATION_PPM, par * s div TARGET_ALLOCATION_PPM + 1}"
  using share_rows_mem [OF assms, of par] by (force simp: par_rows_def Let_def)

text \<open>Who gets a mojo more does not come after who does not.\<close>

lemma par_rows_order:
  assumes "distinct (map fst shares)" and "shares \<noteq> []" and "shares_ok par shares"
    and m: "(k, s) \<in> set shares" "(k', s') \<in> set shares"
    and a: "(k, par * s div TARGET_ALLOCATION_PPM + 1) \<in> set (par_rows par shares)"
      "(k', par * s' div TARGET_ALLOCATION_PPM) \<in> set (par_rows par shares)"
  shows "(- (par * s mod TARGET_ALLOCATION_PPM), k) \<le> (- (par * s' mod TARGET_ALLOCATION_PPM), k')"
proof -
  note p = par_bonus [OF assms(1-3)]
  note r = share_rows_mem [OF m(1), of par] share_rows_mem [OF m(2), of par]
  have "k \<in> set (bonus_keys (leftover par shares) (share_rows par shares))"
    using allocated_bonus(1) [OF p(1) r(1)] a(1) by (simp add: par_rows_def Let_def)
  moreover have "k' \<notin> set (bonus_keys (leftover par shares) (share_rows par shares))"
    using allocated_bonus(2) [OF p(1) r(2)] a(2) by (simp add: par_rows_def Let_def)
  ultimately show ?thesis
    by (rule bonus_keys_props(4) [OF p r])
qed

text \<open>
  C28. Par is allocated exactly: for a positive par and shares that total 100% with each between 0 and
  100%, every deed gets the whole part of its share, and those with the largest remainders (ties by
  key) one mojo more, so that the amounts add up to the par. The call then fails only when some deed
  would get nothing; the code's last check, that the amounts add up, never fires.
\<close>

theorem allocate_par_exact:
  assumes "distinct (map fst shares)" and "shares \<noteq> []"
  shows "case allocate_par_mojos par shares of
      Inl e \<Rightarrow> e \<noteq> DisplayUnitError ''deed par allocation does not equal collection par'' \<and>
        (par \<le> 0 \<or> sum_list (map snd shares) \<noteq> TARGET_ALLOCATION_PPM \<or>
         (\<exists>(k, s) \<in> set shares. s \<le> 0 \<or> s > TARGET_ALLOCATION_PPM) \<or>
         (\<exists>(k, s) \<in> set shares. par * s < TARGET_ALLOCATION_PPM))
    | Inr allocated \<Rightarrow>
        map fst allocated = sort (map fst shares) \<and> sum_list (map snd allocated) = par \<and>
        (\<forall>(k, v) \<in> set allocated. 0 < v) \<and>
        (\<forall>(k, s) \<in> set shares. \<exists>v. (k, v) \<in> set allocated \<and>
           v \<in> {par * s div TARGET_ALLOCATION_PPM, par * s div TARGET_ALLOCATION_PPM + 1}) \<and>
        (\<forall>(k, s) \<in> set shares. \<forall>(k', s') \<in> set shares.
           (k, par * s div TARGET_ALLOCATION_PPM + 1) \<in> set allocated \<longrightarrow>
           (k', par * s' div TARGET_ALLOCATION_PPM) \<in> set allocated \<longrightarrow>
           (- (par * s mod TARGET_ALLOCATION_PPM), k) \<le> (- (par * s' mod TARGET_ALLOCATION_PPM), k'))"
proof (cases "shares_ok par shares")
  case False
  show ?thesis
    using assms(2) False by (rule bad_shares_rejected) auto
next
  case True
  note ok = assms True
  show ?thesis
  proof (cases "list_ex (\<lambda>(_, value). value \<le> 0) (par_rows par shares)")
    case True
    then show ?thesis
      using worthless_deed [OF True] by (simp add: allocate_par_call [OF ok])
  next
    case False
    then have "\<forall>(k, v) \<in> set (par_rows par shares). 0 < v"
      by (force simp: list_ex_iff)
    moreover have "\<forall>(k, s) \<in> set shares. \<forall>(k', s') \<in> set shares.
        (k, par * s div TARGET_ALLOCATION_PPM + 1) \<in> set (par_rows par shares) \<longrightarrow>
        (k', par * s' div TARGET_ALLOCATION_PPM) \<in> set (par_rows par shares) \<longrightarrow>
        (- (par * s mod TARGET_ALLOCATION_PPM), k) \<le> (- (par * s' mod TARGET_ALLOCATION_PPM), k')"
      by clarify (rule par_rows_order [OF ok])
    moreover have "\<forall>(k, s) \<in> set shares. \<exists>v. (k, v) \<in> set (par_rows par shares) \<and>
        v \<in> {par * s div TARGET_ALLOCATION_PPM, par * s div TARGET_ALLOCATION_PPM + 1}"
      by clarify (rule par_rows_share)
    ultimately show ?thesis
      unfolding allocate_par_call [OF ok] raise_if_def if_not_P [OF False] sum.case
      by (intro conjI fst_par_rows par_rows_sum [OF ok])
  qed
qed

theorem allocate_par_exact_witness:
  "allocate_par_mojos 10 [(''b'', 333333), (''a'', 333333), (''c'', 333334)] = Inr [(''a'', 3), (''b'', 3), (''c'', 4)] \<and>
   sum_list (map snd [(''a'', 3), (''b'', 3), (''c'', 4 :: int)]) = 10"
proof -
  let ?s = "[(''b'', 333333), (''a'', 333333), (''c'', 333334 :: int)]"
  have c: "allocate_par_mojos 10 ?s = Inr [(''a'', 3), (''b'', 3), (''c'', 4)]"
    by code_simp
  have "distinct (map fst ?s)" "?s \<noteq> []" by simp_all
  from allocate_par_exact [OF this, of 10] show ?thesis
    unfolding c sum.case by (intro conjI refl) (elim conjE)
qed

end
