(* ===== verification/ClvmHash.thy ===== *)
theory ClvmHash
  imports "HOL-Library.Word" PyCore
begin

text \<open>
  \<open>src/solslot_api/clvm_hash.py\<close>: the pure-byte tree hash of a CLVM list of atoms, and the CLVM
  encoding of a non-negative integer. Bytes are 8-bit words. \<open>hashlib.sha256(...).digest()\<close> is the
  argument \<open>sha\<close>.
\<close>

type_synonym bytes = "8 word list"

section \<open>Model\<close>

definition atom_hash :: "(bytes \<Rightarrow> bytes) \<Rightarrow> bytes \<Rightarrow> bytes" where
  "atom_hash sha atom = sha (1 # atom)"

definition pair_hash :: "(bytes \<Rightarrow> bytes) \<Rightarrow> bytes \<Rightarrow> bytes \<Rightarrow> bytes" where
  "pair_hash sha left right = sha (2 # left @ right)"

definition list_hash :: "(bytes \<Rightarrow> bytes) \<Rightarrow> bytes list \<Rightarrow> bytes" where
  "list_hash sha atoms = fold (\<lambda>atom result. pair_hash sha (atom_hash sha atom) result) (rev atoms) (atom_hash sha [])"

text \<open>\<open>int.bit_length()\<close> and \<open>value.to_bytes(n, 'big')\<close>.\<close>

fun bit_length :: "nat \<Rightarrow> nat" where
  "bit_length v = (if v = 0 then 0 else Suc (bit_length (v div 2)))"

declare bit_length.simps [simp del]

definition to_bytes_big :: "nat \<Rightarrow> nat \<Rightarrow> bytes" where
  "to_bytes_big n v = map (\<lambda>i. word_of_nat (v div 256 ^ (n - 1 - i))) [0..<n]"

datatype clvm_error = ClvmValueError string

definition positive_clvm_int :: "int \<Rightarrow> clvm_error + bytes" where
  "positive_clvm_int value =
     raise_if (value < 0) (ClvmValueError ''Only non-negative protocol versions are supported.'')
     (if value = 0 then Inr []
      else
        (let encoded = to_bytes_big ((bit_length (nat value) + 7) div 8) (nat value) in
         Inr (if and (hd encoded) 0x80 \<noteq> 0 then 0 # encoded else encoded)))"

section \<open>The meaning of the encodings\<close>

text \<open>CLVM trees and their hash, and the integer a CLVM atom denotes (big-endian two's complement).\<close>

datatype clvm = Atom bytes | Cons clvm clvm

fun tree_hash :: "(bytes \<Rightarrow> bytes) \<Rightarrow> clvm \<Rightarrow> bytes" where
  "tree_hash sha (Atom a) = sha (1 # a)"
| "tree_hash sha (Cons l r) = sha (2 # tree_hash sha l @ tree_hash sha r)"

fun clvm_list :: "bytes list \<Rightarrow> clvm" where
  "clvm_list [] = Atom []"
| "clvm_list (a # as) = Cons (Atom a) (clvm_list as)"

definition be_nat :: "bytes \<Rightarrow> nat" where
  "be_nat bs = foldl (\<lambda>n b. 256 * n + unat b) 0 bs"

definition clvm_int :: "bytes \<Rightarrow> int" where
  "clvm_int bs =
     (if bs \<noteq> [] \<and> 128 \<le> unat (hd bs) then int (be_nat bs) - 256 ^ length bs else int (be_nat bs))"

text \<open>No shorter atom denotes the same integer: the first byte is not a needless sign byte.\<close>

definition minimal_atom :: "bytes \<Rightarrow> bool" where
  "minimal_atom bs \<longleftrightarrow>
     (case bs of
        [] \<Rightarrow> True
      | [b] \<Rightarrow> b \<noteq> 0
      | b # c # _ \<Rightarrow> \<not> (b = 0 \<and> unat c < 128) \<and> \<not> (b = 255 \<and> 128 \<le> unat c))"

section \<open>Properties\<close>

text \<open>C29. The byte-level list hash is the CLVM tree hash of the proper list of the atoms, whatever the hash function.\<close>

theorem list_hash_is_tree_hash: "list_hash sha atoms = tree_hash sha (clvm_list atoms)"
  by (induction atoms) (simp_all add: list_hash_def atom_hash_def pair_hash_def)

lemma be_nat_Nil [simp]: "be_nat [] = 0"
  by (simp add: be_nat_def)

lemma be_nat_Cons: "be_nat (b # bs) = unat b * 256 ^ length bs + be_nat bs"
proof -
  have "foldl (\<lambda>n b. 256 * n + unat b) m bs = m * 256 ^ length bs + foldl (\<lambda>n b. 256 * n + unat b) 0 bs" for m
  proof (induction bs arbitrary: m)
    case (Cons c bs)
    show ?case
      using Cons [of "256 * m + unat c"] Cons [of "unat c"] by (simp add: algebra_simps)
  qed simp
  from this [of "unat b"] show ?thesis by (simp add: be_nat_def)
qed

lemma to_bytes_Suc: "to_bytes_big (Suc n) v = word_of_nat (v div 256 ^ n) # to_bytes_big n v"
  by (simp add: to_bytes_big_def upt_conv_Cons map_Suc_upt [symmetric] del: upt_Suc map_Suc_upt)

lemma length_to_bytes [simp]: "length (to_bytes_big n v) = n"
  by (simp add: to_bytes_big_def)

lemma be_nat_to_bytes: "v < 256 ^ n \<Longrightarrow> be_nat (to_bytes_big n v) = v"
proof -
  have "be_nat (to_bytes_big n v) = v mod 256 ^ n" for n
  proof (induction n)
    case 0
    then show ?case by (simp add: to_bytes_big_def)
  next
    case (Suc n)
    then show ?case
      using mod_mult2_eq [of v "256 ^ n" 256]
      by (simp add: to_bytes_Suc be_nat_Cons unat_of_nat mult.commute)
  qed
  then show "v < 256 ^ n \<Longrightarrow> be_nat (to_bytes_big n v) = v" by simp
qed

lemma bit_length_bounds: "0 < v \<Longrightarrow> 2 ^ (bit_length v - 1) \<le> v \<and> v < 2 ^ bit_length v \<and> 0 < bit_length v"
proof (induction v rule: bit_length.induct)
  case (1 v)
  show ?case
  proof (cases "v = 1")
    case True
    then show ?thesis by (simp add: bit_length.simps [of "Suc 0"] bit_length.simps [of 0])
  next
    case False
    then have h: "0 < v div 2" using 1 by simp
    then have "2 ^ (bit_length (v div 2) - 1) \<le> v div 2" "v div 2 < 2 ^ bit_length (v div 2)" "0 < bit_length (v div 2)"
      using 1 by auto
    moreover have "bit_length v = Suc (bit_length (v div 2))"
      using 1 by (subst bit_length.simps) simp
    moreover have "(2::nat) ^ bit_length (v div 2) = 2 * 2 ^ (bit_length (v div 2) - 1)"
      using \<open>0 < bit_length (v div 2)\<close> by (metis Suc_diff_1 power_Suc)
    ultimately show ?thesis by (simp; linarith)
  qed
qed

lemma byte_top: "and (b :: 8 word) 0x80 \<noteq> 0 \<longleftrightarrow> 128 \<le> unat b"
proof -
  have "and b (2 ^ 7) = 0 \<longleftrightarrow> \<not> bit b 7" by (rule and_exp_eq_0_iff_not_bit)
  moreover have "bit b 7 \<longleftrightarrow> odd (unat b div 128)"
    using bit_iff_odd [of "unat b" 7] by (simp add: bit_unsigned_iff)
  moreover have "unat b div 128 < 2"
    using unsigned_less [of b, where ?'a = nat] by (simp add: less_mult_imp_div_less)
  then have "odd (unat b div 128) \<longleftrightarrow> 128 \<le> unat b"
    by (cases "unat b div 128 = 0") (auto simp: div_eq_0_iff less_2_cases_iff)
  ultimately show ?thesis by simp
qed

lemma hd_to_bytes:
  assumes "0 < n" and "v < 256 ^ n"
  shows "unat (hd (to_bytes_big n v)) = v div 256 ^ (n - 1)"
proof -
  obtain m where n: "n = Suc m" using assms(1) by (cases n) auto
  have "v div 256 ^ m < 256"
    using assms(2) by (simp add: n less_mult_imp_div_less mult.commute)
  then show ?thesis by (simp add: n to_bytes_Suc unat_of_nat)
qed

text \<open>The number of bytes of \<open>positive_clvm_int\<close> is the least that holds the value.\<close>

lemma byte_count:
  assumes "0 < v" and n: "n = (bit_length v + 7) div 8"
  shows "0 < n" and "v < 256 ^ n" and "256 ^ (n - 1) \<le> v"
proof -
  note bl = bit_length_bounds [OF assms(1)]
  have k: "0 < n" "bit_length v \<le> 8 * n" "8 * (n - 1) \<le> bit_length v - 1"
    using bl by (auto simp: n)
  have pow: "(256::nat) ^ k = 2 ^ (8 * k)" for k by (simp add: power_mult)
  show "0 < n" by (rule k(1))
  show "v < 256 ^ n"
    using bl k(2) by (simp add: pow) (meson order_less_le_trans one_le_numeral power_increasing)
  show "256 ^ (n - 1) \<le> v"
    using bl k(3) by (simp add: pow) (meson order_trans one_le_numeral power_increasing)
qed

text \<open>
  The encoding of a version number is the minimal CLVM atom of that number: every non-negative
  integer is encoded, the atom's signed value is the integer, and no byte of it is redundant; only
  negative integers are refused.
\<close>

theorem positive_clvm_int_minimal:
  "case positive_clvm_int value of
     Inl e \<Rightarrow> value < 0
   | Inr bs \<Rightarrow> 0 \<le> value \<and> clvm_int bs = value \<and> minimal_atom bs"
proof (cases "0 < value")
  case False
  then show ?thesis
    by (auto simp: positive_clvm_int_def raise_if_def clvm_int_def minimal_atom_def)
next
  case True
  define v where "v = nat value"
  define n where "n = (bit_length v + 7) div 8"
  have v: "0 < v" "value = int v" using True by (simp_all add: v_def)
  note n = byte_count [OF v(1) n_def]
  let ?e = "to_bytes_big n v"
  have "unat (hd ?e) = v div 256 ^ (n - 1)" by (rule hd_to_bytes [OF n(1,2)])
  with n(3) have nz: "0 < unat (hd ?e)" by (simp add: div_greater_zero_iff)
  obtain b bs where e: "?e = b # bs"
    using n(1) by (cases ?e) (auto dest: arg_cong [where f = length])
  have out: "positive_clvm_int value = Inr (if 128 \<le> unat b then 0 # ?e else ?e)"
    using True e by (simp add: positive_clvm_int_def Let_def v_def [symmetric] n_def [symmetric] byte_top)
  show ?thesis
  proof (cases "128 \<le> unat b")
    case c: True
    have "clvm_int (0 # ?e) = value"
      by (simp add: clvm_int_def be_nat_Cons be_nat_to_bytes [OF n(2)] v)
    moreover have "minimal_atom (0 # ?e)"
      using c by (simp add: e minimal_atom_def)
    ultimately show ?thesis using c True by (simp add: out)
  next
    case c: False
    then have "clvm_int ?e = value"
      using be_nat_to_bytes [OF n(2)] by (simp add: clvm_int_def e v)
    moreover have "b \<noteq> 0" "b \<noteq> 255"
      using nz c by (auto simp: e)
    then have "minimal_atom ?e"
      by (cases bs) (simp_all add: e minimal_atom_def)
    ultimately show ?thesis using c True by (simp add: out)
  qed
qed

end
