(* ===== verification/ChiaApi.thy ===== *)
theory ChiaApi
  imports Json
begin

text \<open>
  The interface of the Chia libraries (\<open>chia_rs\<close>, \<open>chia.types\<close>) that the modelled modules call. The
  libraries are not part of the repository, so their functions are the fields of a record that the
  model's definitions take as an argument; byte strings are given in hexadecimal, as the code stores them.
\<close>

record coin =
  parent_coin_info :: string
  puzzle_hash :: string
  amount :: int

record coin_spend =
  spend_coin :: coin
  puzzle_reveal :: string
  solution :: string

record spend_bundle =
  coin_spends :: "coin_spend list"
  aggregated_signature :: string

text \<open>
  \<open>from_json_dict\<close> is \<open>SpendBundle.from_json_dict\<close>, \<open>None\<close> where it raises; \<open>bundle_name\<close> and
  \<open>coin_name\<close> are \<open>'0x' + x.name().hex()\<close>; \<open>reveal_hash\<close> is the tree hash of a serialized puzzle;
  \<open>additions\<close> runs the puzzles, \<open>None\<close> where that raises; \<open>infinity\<close> is the empty signature \<open>G2Element()\<close>;
  \<open>sha256_hex\<close> is \<open>hashlib.sha256(s.encode()).hexdigest()\<close>.
\<close>

record chia_api =
  from_json_dict :: "json \<Rightarrow> spend_bundle option"
  bundle_name :: "spend_bundle \<Rightarrow> string"
  coin_name :: "coin \<Rightarrow> string"
  removals :: "spend_bundle \<Rightarrow> coin list"
  additions :: "spend_bundle \<Rightarrow> coin list option"
  reveal_hash :: "string \<Rightarrow> string option"
  infinity :: string
  sha256_hex :: "string \<Rightarrow> string"

text \<open>Decoding a bundle does not depend on the order of the keys of a \<open>dict\<close>.\<close>

definition order_free :: "chia_api \<Rightarrow> bool" where
  "order_free api \<longleftrightarrow> (\<forall>j. json_ok j \<longrightarrow> from_json_dict api (canon j) = from_json_dict api j)"

end
