(* ===== verification/ProtocolFunding.thy ===== *)
theory ProtocolFunding
  imports ChiaApi SqlCore
begin

text \<open>
  \<open>src/solslot_api/protocol_funding_store.py\<close>: the write-once journal of funded protocol bundles. A
  bundle is keyed by network and original id, keeps its funding context and document as canonical
  text, and reserves every coin it spends; completion instructions are kept beside it.
\<close>

section \<open>Data\<close>

datatype pf_error =
    PfValueError string
  | PfKeyError string
  | PfTypeError
  | PfIntegrityError

record pf_bundle =
  pb_network :: string
  pb_original_id :: string
  pb_context :: string
  pb_document :: string
  pb_created_at :: int

record pf_input =
  pi_network :: string
  pi_coin_id :: string
  pi_original_id :: string

record pf_event =
  pe_id :: nat
  pe_network :: string
  pe_original_id :: string
  pe_event :: string
  pe_error_code :: "string option"
  pe_recorded_at :: int

record pf_completion =
  pc_network :: string
  pc_original_id :: string
  pc_payload :: string
  pc_created_at :: int
  pc_completed_at :: "int option"

record pf_db =
  funded_bundles :: "pf_bundle list"
  funded_inputs :: "pf_input list"
  funded_events :: "pf_event list"
  funded_completions :: "pf_completion list"

definition empty_pf_db :: pf_db where
  "empty_pf_db = \<lparr>funded_bundles = [], funded_inputs = [], funded_events = [], funded_completions = []\<rparr>"

definition pb_key :: "pf_bundle \<Rightarrow> string \<times> string" where
  "pb_key r = (pb_network r, pb_original_id r)"

definition pb_clash :: "pf_bundle \<Rightarrow> pf_bundle \<Rightarrow> bool" where
  "pb_clash r r' \<longleftrightarrow> pb_key r = pb_key r'"

definition pi_key :: "pf_input \<Rightarrow> string \<times> string" where
  "pi_key r = (pi_network r, pi_coin_id r)"

definition pi_clash :: "pf_input \<Rightarrow> pf_input \<Rightarrow> bool" where
  "pi_clash r r' \<longleftrightarrow> pi_key r = pi_key r'"

definition pc_key :: "pf_completion \<Rightarrow> string \<times> string" where
  "pc_key r = (pc_network r, pc_original_id r)"

definition pc_clash :: "pf_completion \<Rightarrow> pf_completion \<Rightarrow> bool" where
  "pc_clash r r' \<longleftrightarrow> pc_key r = pc_key r'"

interpretation pb: keyed_table pb_clash pb_key
  by unfold_locales (auto simp: pb_clash_def)

interpretation pin: keyed_table pi_clash pi_key
  by unfold_locales (auto simp: pi_clash_def)

interpretation pc: keyed_table pc_clash pc_key
  by unfold_locales (auto simp: pc_clash_def)

type_synonym doc = "(string \<times> json) list"

section \<open>Operations\<close>

text \<open>\<open>document[k]\<close>.\<close>

definition item :: "doc \<Rightarrow> string \<Rightarrow> pf_error + json" where
  "item d k = (case map_of d k of None \<Rightarrow> Inl (PfKeyError k) | Some v \<Rightarrow> Inr v)"

text \<open>\<open>json.loads\<close> of a stored document, which is always a \<open>dict\<close>.\<close>

definition load_doc :: "string \<Rightarrow> pf_error + doc" where
  "load_doc s = (case loads s of Some (JObj d) \<Rightarrow> Inr d | _ \<Rightarrow> Inl PfTypeError)"

definition bundle_of :: "chia_api \<Rightarrow> json \<Rightarrow> pf_error + spend_bundle" where
  "bundle_of api j =
     (case from_json_dict api j of None \<Rightarrow> Inl (PfValueError ''invalid spend bundle'') | Some b \<Rightarrow> Inr b)"

definition checked_bundle :: "chia_api \<Rightarrow> string \<Rightarrow> doc \<Rightarrow> pf_error + spend_bundle" where
  "checked_bundle api message document =
     bind (item document ''spendBundle'') (\<lambda>j.
     bind (bundle_of api j) (\<lambda>bundle.
     bind (item document ''spendBundleId'') (\<lambda>i.
     raise_if (i \<noteq> JStr (bundle_name api bundle)) (PfValueError message) (Inr bundle))))"

definition pf_lookup :: "chia_api \<Rightarrow> pf_db \<Rightarrow> string \<Rightarrow> string \<Rightarrow> json \<Rightarrow> pf_error + doc option" where
  "pf_lookup api db network original_id context =
     (case lookup pb_key (network, original_id) (funded_bundles db) of
        None \<Rightarrow> Inr None
      | Some row \<Rightarrow>
          raise_if (pb_context row \<noteq> canonical_json context)
            (PfValueError ''Saved protocol funding belongs to a different funding context'')
          (bind (load_doc (pb_document row)) (\<lambda>document.
           bind (checked_bundle api ''Saved protocol funding bundle does not match its identifier'' document)
             (\<lambda>_. Inr (Some document)))))"

definition pf_reserve_body ::
  "chia_api \<Rightarrow> string \<Rightarrow> string \<Rightarrow> json \<Rightarrow> doc \<Rightarrow> spend_bundle \<Rightarrow> int \<Rightarrow> (pf_db, pf_error, unit) body" where
  "pf_reserve_body api network original_id context document bundle clock db =
     bind (pf_lookup api db network original_id context) (\<lambda>prior.
       case prior of
         Some d \<Rightarrow>
           raise_if (canonical_json (JObj d) \<noteq> canonical_json (JObj document))
             (PfValueError ''Original protocol bundle already has exact funding'') (Inr ((), db))
       | None \<Rightarrow>
           (case sql_insert pb_clash
                   \<lparr>pb_network = network, pb_original_id = original_id,
                    pb_context = canonical_json context, pb_document = canonical_json (JObj document),
                    pb_created_at = clock\<rparr> (funded_bundles db) of
              None \<Rightarrow> Inl PfIntegrityError
            | Some bundles \<Rightarrow>
                (case sql_insert_many pi_clash
                        (map (\<lambda>coin. \<lparr>pi_network = network, pi_coin_id = coin_name api coin,
                                     pi_original_id = original_id\<rparr>) (removals api bundle))
                        (funded_inputs db) of
                   None \<Rightarrow> Inl PfIntegrityError
                 | Some inputs \<Rightarrow> Inr ((), db\<lparr>funded_bundles := bundles, funded_inputs := inputs\<rparr>))))"

definition pf_reserve ::
  "chia_api \<Rightarrow> string \<Rightarrow> string \<Rightarrow> json \<Rightarrow> doc \<Rightarrow> int \<Rightarrow> (pf_db, pf_error, unit) call" where
  "pf_reserve api network original_id context document clock db =
     (case checked_bundle api ''Protocol funding bundle does not match its identifier'' document of
        Inl e \<Rightarrow> (Inl e, db)
      | Inr bundle \<Rightarrow> txn (pf_reserve_body api network original_id context document bundle clock) db)"

definition lookup_by_input :: "chia_api \<Rightarrow> pf_db \<Rightarrow> string \<Rightarrow> string \<Rightarrow> json \<Rightarrow> pf_error + doc option" where
  "lookup_by_input api db network coin_id context =
     (case lookup pi_key (network, coin_id) (funded_inputs db) of
        None \<Rightarrow> Inr None
      | Some row \<Rightarrow>
          bind (pf_lookup api db network (pi_original_id row) context) (\<lambda>document.
          let reconcile = PfValueError ''Saved protocol funding requires original-bundle reconciliation'' in
          case document of
            None \<Rightarrow> Inl reconcile
          | Some d \<Rightarrow>
              (case map_of d ''protocolSpendBundle'' of
                 None \<Rightarrow> Inl reconcile
               | Some j \<Rightarrow>
                   bind (bundle_of api j) (\<lambda>original.
                   raise_if (bundle_name api original \<noteq> pi_original_id row)
                     (PfValueError ''Saved original protocol bundle does not match its identifier'')
                   (raise_if (coin_id \<notin> coin_name api ` set (removals api original))
                     (PfValueError ''Reserved input is not part of the original protocol bundle'')
                     (Inr (Some d)))))))"

definition reserved_coin_ids :: "pf_db \<Rightarrow> string set" where
  "reserved_coin_ids db = pi_coin_id ` set (funded_inputs db)"

definition pf_event ::
  "string \<Rightarrow> string \<Rightarrow> string \<Rightarrow> string option \<Rightarrow> int \<Rightarrow> pf_db \<Rightarrow> pf_db" where
  "pf_event network original_id event code clock db =
     db\<lparr>funded_events := funded_events db @
       [\<lparr>pe_id = Suc (fold max (map pe_id (funded_events db)) 0), pe_network = network,
         pe_original_id = original_id, pe_event = event, pe_error_code = code, pe_recorded_at = clock\<rparr>]\<rparr>"

definition save_completion_body ::
  "string \<Rightarrow> string \<Rightarrow> doc \<Rightarrow> int \<Rightarrow> (pf_db, pf_error, unit) body" where
  "save_completion_body network original_id payload clock db =
     (case lookup pb_key (network, original_id) (funded_bundles db) of
        None \<Rightarrow> Inl (PfValueError ''Completion requires a durable funded bundle'')
      | Some reservation \<Rightarrow>
          bind (load_doc (pb_document reservation)) (\<lambda>document.
          bind (item document ''spendBundleId'') (\<lambda>bundle_id.
          raise_if (get_or_null payload ''bundleId'' \<noteq> bundle_id)
            (PfValueError ''Completion belongs to a different funded bundle'')
          (let prior = lookup pc_key (network, original_id) (funded_completions db);
               encoded = canonical_json (JObj payload) in
           raise_if (case prior of None \<Rightarrow> False | Some p \<Rightarrow> pc_payload p \<noteq> encoded)
             (PfValueError ''Completion instructions are immutable'')
           (case sql_insert pc_clash
                   \<lparr>pc_network = network, pc_original_id = original_id, pc_payload = encoded,
                    pc_created_at = clock, pc_completed_at = None\<rparr> (funded_completions db) of
              None \<Rightarrow> Inr ((), db)
            | Some cs \<Rightarrow> Inr ((), db\<lparr>funded_completions := cs\<rparr>))))))"

definition save_completion :: "string \<Rightarrow> string \<Rightarrow> doc \<Rightarrow> int \<Rightarrow> (pf_db, pf_error, unit) call" where
  "save_completion network original_id payload clock = txn (save_completion_body network original_id payload clock)"

definition pending_completions :: "pf_db \<Rightarrow> string \<Rightarrow> int \<Rightarrow> string \<Rightarrow> (string \<times> string \<times> string) list" where
  "pending_completions db network limit after =
     order_limit fst limit
       (List.map_filter
         (\<lambda>c. map_option (\<lambda>b. (pc_original_id c, pc_payload c, pb_document b))
                (lookup pb_key (pc_key c) (funded_bundles db)))
         (select (\<lambda>c. pc_network c = network \<and> pc_completed_at c = None \<and> after < pc_original_id c)
           (funded_completions db)))"

definition complete_row :: "int \<Rightarrow> pf_completion \<Rightarrow> pf_completion" where
  "complete_row clock r = r\<lparr>pc_completed_at := coalesce (pc_completed_at r) (Some clock)\<rparr>"

definition pf_complete :: "string \<Rightarrow> string \<Rightarrow> int \<Rightarrow> pf_db \<Rightarrow> pf_db" where
  "pf_complete network original_id clock db =
     db\<lparr>funded_completions :=
       map (\<lambda>r. if pc_key r = (network, original_id) then complete_row clock r else r) (funded_completions db)\<rparr>"

section \<open>Calls\<close>

datatype pf_op =
    Reserve string string json doc int
  | Event string string string "string option" int
  | SaveCompletion string string doc int
  | Complete string string int

fun pf_step :: "chia_api \<Rightarrow> pf_op \<Rightarrow> pf_db \<Rightarrow> pf_db" where
  "pf_step api (Reserve n i c d t) db = snd (pf_reserve api n i c d t db)"
| "pf_step api (Event n i e code t) db = pf_event n i e code t db"
| "pf_step api (SaveCompletion n i p t) db = snd (save_completion n i p t db)"
| "pf_step api (Complete n i t) db = pf_complete n i t db"

fun pf_op_ok :: "pf_op \<Rightarrow> bool" where
  "pf_op_ok (Reserve n i c d t) = json_ok (JObj d)"
| "pf_op_ok (SaveCompletion n i p t) = json_ok (JObj p)"
| "pf_op_ok _ = True"

section \<open>The journal only grows\<close>

text \<open>The exact effect of a call: nothing, a new funded bundle with all its inputs, a log entry, or a completion.\<close>

inductive pf_change :: "chia_api \<Rightarrow> pf_db \<Rightarrow> pf_db \<Rightarrow> bool" for api where
  idle: "pf_change api db db"
| reserved: "json_ok (JObj d) \<Longrightarrow> checked_bundle api msg d = Inr bundle \<Longrightarrow>
    pb_network r = network \<Longrightarrow> pb_original_id r = oid \<Longrightarrow> pb_document r = canonical_json (JObj d) \<Longrightarrow>
    sql_insert pb_clash r (funded_bundles db) = Some bs \<Longrightarrow>
    sql_insert_many pi_clash
      (map (\<lambda>coin. \<lparr>pi_network = network, pi_coin_id = coin_name api coin, pi_original_id = oid\<rparr>)
        (removals api bundle)) (funded_inputs db) = Some ins \<Longrightarrow>
    pf_change api db (db\<lparr>funded_bundles := bs, funded_inputs := ins\<rparr>)"
| logged: "pf_change api db (db\<lparr>funded_events := funded_events db @ [e]\<rparr>)"
| saved: "lookup pb_key (pc_key c) (funded_bundles db) = Some r \<Longrightarrow>
    load_doc (pb_document r) = Inr d \<Longrightarrow> item d ''spendBundleId'' = Inr (get_or_null p ''bundleId'') \<Longrightarrow>
    json_ok (JObj p) \<Longrightarrow> pc_payload c = canonical_json (JObj p) \<Longrightarrow> pc_completed_at c = None \<Longrightarrow>
    sql_insert pc_clash c (funded_completions db) = Some cs \<Longrightarrow>
    pf_change api db (db\<lparr>funded_completions := cs\<rparr>)"
| completed: "pf_change api db (pf_complete n i t db)"

lemma pf_step_change:
  assumes "pf_op_ok op"
  shows "pf_change api db (pf_step api op db)"
proof (cases op)
  case (Reserve n i c d t)
  show ?thesis
  proof (cases "checked_bundle api ''Protocol funding bundle does not match its identifier'' d")
    case (Inr sb)
    have "pf_change api db (snd (txn (pf_reserve_body api n i c d sb t) db))"
    proof (rule txn_keeps)
      fix a db'
      assume b: "pf_reserve_body api n i c d sb t db = Inr (a, db')"
      then obtain prior where prior: "pf_lookup api db n i c = Inr prior"
        by (auto simp: pf_reserve_body_def bind_Inr)
      show "pf_change api db db'"
      proof (cases prior)
        case None
        with b prior Reserve assms Inr show ?thesis
          by (auto simp: pf_reserve_body_def split: option.splits intro!: reserved)
      next
        case (Some p)
        with b prior have "db' = db" by (simp add: pf_reserve_body_def)
        then show ?thesis by (simp add: idle)
      qed
    qed (rule idle)
    with Reserve Inr show ?thesis by (simp add: pf_reserve_def)
  qed (simp add: Reserve pf_reserve_def idle)
next
  case (SaveCompletion n i p t)
  have "pf_change api db (snd (txn (save_completion_body n i p t) db))"
  proof (rule txn_keeps)
    fix a db'
    assume b: "save_completion_body n i p t db = Inr (a, db')"
    then obtain r d where r: "lookup pb_key (n, i) (funded_bundles db) = Some r"
        "load_doc (pb_document r) = Inr d" "item d ''spendBundleId'' = Inr (get_or_null p ''bundleId'')"
      by (auto simp: save_completion_body_def bind_Inr Let_def split: option.splits)
    let ?c = "\<lparr>pc_network = n, pc_original_id = i, pc_payload = canonical_json (JObj p),
                    pc_created_at = t, pc_completed_at = None\<rparr>"
    have k: "pc_key ?c = (n, i)" by (simp add: pc_key_def)
    show "pf_change api db db'"
    proof (cases "sql_insert pc_clash ?c (funded_completions db)")
      case None
      with b r have "db' = db" by (simp add: save_completion_body_def Let_def)
      then show ?thesis by (simp add: idle)
    next
      case (Some cs)
      with b r have "db' = db\<lparr>funded_completions := cs\<rparr>" by (simp add: save_completion_body_def Let_def)
      then show ?thesis
        using SaveCompletion assms by (auto intro!: saved [OF _ r(2,3) _ _ _ Some] simp: k r(1))
    qed
  qed (rule idle)
  with SaveCompletion show ?thesis by (simp add: save_completion_def)
qed (simp_all add: pf_event_def logged completed)

text \<open>The bundle a stored document holds.\<close>

definition stored_bundle :: "chia_api \<Rightarrow> pf_bundle \<Rightarrow> spend_bundle option" where
  "stored_bundle api r =
     (case bind (load_doc (pb_document r)) (checked_bundle api ''stored'') of Inl _ \<Rightarrow> None | Inr b \<Rightarrow> Some b)"

lemma checked_canon:
  assumes "order_free api" and "json_ok (JObj d)"
  shows "checked_bundle api msg (canon_dict d) = checked_bundle api msg d"
proof (cases "map_of d ''spendBundle''")
  case None
  then show ?thesis by (simp add: checked_bundle_def item_def map_of_canon [OF assms(2)])
next
  case (Some j)
  then have "from_json_dict api (canon j) = from_json_dict api j"
    using assms json_ok_lookup [OF assms(2) Some] by (simp add: order_free_def)
  moreover have "canon v = JStr s \<longleftrightarrow> v = JStr s" for v s by simp
  ultimately show ?thesis
    using Some by (cases "map_of d ''spendBundleId''"; cases "from_json_dict api j")
      (simp_all add: checked_bundle_def item_def map_of_canon [OF assms(2)] bundle_of_def raise_if_def)
qed

lemma checked_msg: "checked_bundle api msg d = Inr b \<Longrightarrow> checked_bundle api msg' d = Inr b"
  by (auto simp: checked_bundle_def bind_Inr)

lemma load_canonical: "json_ok (JObj d) \<Longrightarrow> load_doc (canonical_json (JObj d)) = Inr (canon_dict d)"
  by (simp add: load_doc_def loads_canonical_dict)

lemma stored_bundle_new:
  assumes "order_free api" and "json_ok (JObj d)" and "checked_bundle api msg d = Inr b"
    and "pb_document r = canonical_json (JObj d)"
  shows "stored_bundle api r = Some b"
  using checked_msg [OF assms(3)] checked_canon [OF assms(1,2)]
  by (simp add: stored_bundle_def assms(4) load_canonical [OF assms(2)])

definition doc_ok :: "pf_bundle \<Rightarrow> bool" where
  "doc_ok r \<longleftrightarrow> (\<exists>d. json_ok (JObj d) \<and> pb_document r = canonical_json (JObj d))"

definition inputs_held :: "chia_api \<Rightarrow> pf_input list \<Rightarrow> pf_bundle \<Rightarrow> bool" where
  "inputs_held api inputs r \<longleftrightarrow>
     (\<exists>b. stored_bundle api r = Some b \<and>
       (\<forall>coin \<in> set (removals api b). \<exists>i \<in> set inputs.
          pi_key i = (pb_network r, coin_name api coin) \<and> pi_original_id i = pb_original_id r))"

lemma inputs_heldD:
  "inputs_held api inputs r \<Longrightarrow> stored_bundle api r = Some b \<Longrightarrow> coin \<in> set (removals api b) \<Longrightarrow>
   \<exists>i \<in> set inputs. pi_key i = (pb_network r, coin_name api coin) \<and> pi_original_id i = pb_original_id r"
  unfolding inputs_held_def by (elim exE conjE) simp

lemma inputs_held_mono:
  "inputs_held api inputs r \<Longrightarrow> set inputs \<subseteq> set inputs' \<Longrightarrow> inputs_held api inputs' r"
  unfolding inputs_held_def by (elim exE conjE, intro exI conjI) (assumption, blast)

text \<open>A completion belongs to the bundle funded under its key.\<close>

definition completion_bound :: "pf_bundle list \<Rightarrow> pf_completion \<Rightarrow> bool" where
  "completion_bound bundles c \<longleftrightarrow>
     (\<exists>r d p. lookup pb_key (pc_key c) bundles = Some r \<and> load_doc (pb_document r) = Inr d \<and>
        json_ok (JObj p) \<and> pc_payload c = canonical_json (JObj p) \<and>
        item d ''spendBundleId'' = Inr (get_or_null p ''bundleId''))"

lemma completion_bound_append: "completion_bound bundles c \<Longrightarrow> completion_bound (bundles @ bs) c"
  unfolding completion_bound_def lookup_append by (elim exE conjE) (intro exI conjI, simp_all)

definition pf_inv :: "chia_api \<Rightarrow> pf_db \<Rightarrow> bool" where
  "pf_inv api db \<longleftrightarrow>
     table_ok pb_clash (funded_bundles db) \<and> table_ok pi_clash (funded_inputs db) \<and>
     table_ok pc_clash (funded_completions db) \<and> list_all doc_ok (funded_bundles db) \<and>
     list_all (inputs_held api (funded_inputs db)) (funded_bundles db) \<and>
     list_all (completion_bound (funded_bundles db)) (funded_completions db)"

definition completion_evolves :: "pf_completion \<Rightarrow> pf_completion \<Rightarrow> bool" where
  "completion_evolves c c' \<longleftrightarrow>
     pc_key c' = pc_key c \<and> pc_payload c' = pc_payload c \<and> pc_created_at c' = pc_created_at c \<and>
     (pc_completed_at c \<noteq> None \<longrightarrow> pc_completed_at c' = pc_completed_at c)"

definition pf_evolves :: "pf_db \<Rightarrow> pf_db \<Rightarrow> bool" where
  "pf_evolves db db' \<longleftrightarrow>
     prefix (funded_bundles db) (funded_bundles db') \<and> prefix (funded_inputs db) (funded_inputs db') \<and>
     prefix (funded_events db) (funded_events db') \<and>
     (\<forall>c \<in> set (funded_completions db). \<exists>c' \<in> set (funded_completions db'). completion_evolves c c')"

lemma completion_evolves_refl [simp]: "completion_evolves c c"
  by (simp add: completion_evolves_def)

lemma pf_evolves_refl [simp]: "pf_evolves db db"
  unfolding pf_evolves_def by (intro conjI ballI prefix_order.order_refl) (rule bexI, rule completion_evolves_refl)

lemma pf_evolves_trans: "pf_evolves a b \<Longrightarrow> pf_evolves b c \<Longrightarrow> pf_evolves a c"
proof -
  assume ab: "pf_evolves a b" and bc: "pf_evolves b c"
  have "\<exists>c'' \<in> set (funded_completions c). completion_evolves x c''" if x: "x \<in> set (funded_completions a)" for x
  proof -
    obtain y where y: "y \<in> set (funded_completions b)" "completion_evolves x y"
      using ab x unfolding pf_evolves_def by blast
    obtain z where z: "z \<in> set (funded_completions c)" "completion_evolves y z"
      using bc y(1) unfolding pf_evolves_def by blast
    have "completion_evolves x z"
      using y(2) z(2) unfolding completion_evolves_def by simp
    with z(1) show ?thesis by blast
  qed
  with ab bc show ?thesis
    unfolding pf_evolves_def by (blast intro: prefix_order.trans)
qed

lemma pf_change_evolves: "pf_change api db db' \<Longrightarrow> pf_evolves db db'"
proof (induction rule: pf_change.induct)
  case (reserved d msg sb r network oid db bs ins)
  then show ?case
    unfolding pf_evolves_def
    by (auto simp: sql_insert_Some dest!: sql_insert_many_Some intro: bexI [where P = "completion_evolves c" and x = c for c, OF completion_evolves_refl])
next
  case (logged db e)
  then show ?case
    unfolding pf_evolves_def by (auto intro: bexI [where P = "completion_evolves c" and x = c for c, OF completion_evolves_refl])
next
  case (saved c db r d p cs)
  then show ?case
    unfolding pf_evolves_def by (auto simp: sql_insert_Some intro: bexI [where P = "completion_evolves c" and x = c for c, OF completion_evolves_refl])
next
  case (completed db n i t)
  have "completion_evolves c (if q then complete_row t c else c)" for q c
    by (simp add: completion_evolves_def complete_row_def pc_key_def coalesce_def split: option.splits)
  note ev = this
  have "\<exists>c' \<in> set (funded_completions (pf_complete n i t db)). completion_evolves c c'"
    if c: "c \<in> set (funded_completions db)" for c
  proof (rule bexI)
    show "completion_evolves c (if pc_key c = (n, i) then complete_row t c else c)" by (rule ev)
    show "(if pc_key c = (n, i) then complete_row t c else c) \<in> set (funded_completions (pf_complete n i t db))"
      using imageI [OF c, of "\<lambda>r. if pc_key r = (n, i) then complete_row t r else r"]
      by (simp add: pf_complete_def split del: if_split)
  qed
  then show ?case by (simp add: pf_evolves_def) (simp add: pf_complete_def)
qed simp

lemma pf_change_inv:
  assumes "pf_change api db db'" and ofr: "order_free api" and "pf_inv api db"
  shows "pf_inv api db'"
  using assms(1,3)
proof (induction rule: pf_change.induct)
  case (reserved d msg sb r network oid db bs ins)
  have bs: "bs = funded_bundles db @ [r]" using reserved(6) by (simp add: sql_insert_Some)
  note ins = sql_insert_many_Some [OF reserved(7)]
  let ?in = "\<lambda>coin. \<lparr>pi_network = network, pi_coin_id = coin_name api coin, pi_original_id = oid\<rparr>"
  have each: "?in coin \<in> set ins \<and> pi_key (?in coin) = (pb_network r, coin_name api coin) \<and>
      pi_original_id (?in coin) = pb_original_id r" if "coin \<in> set (removals api sb)" for coin
    using that reserved(3,4) by (simp add: ins pi_key_def)
  have "inputs_held api ins r"
    unfolding inputs_held_def
  proof (intro exI conjI ballI)
    show "stored_bundle api r = Some sb" by (rule stored_bundle_new [OF ofr reserved(1,2,5)])
    fix coin assume c: "coin \<in> set (removals api sb)"
    from each [OF c] show "\<exists>i \<in> set ins. pi_key i = (pb_network r, coin_name api coin) \<and>
        pi_original_id i = pb_original_id r"
      by (intro bexI [of _ "?in coin"]) (simp_all only:)
  qed
  moreover have "list_all (inputs_held api ins) (funded_bundles db)"
    using reserved.prems by (auto simp: pf_inv_def list_all_iff ins intro: inputs_held_mono)
  moreover have "list_all (completion_bound bs) (funded_completions db)"
    using reserved.prems by (auto simp: pf_inv_def list_all_iff bs intro: completion_bound_append)
  moreover have "list_all doc_ok bs"
    using reserved.prems reserved(1,5) by (auto simp: pf_inv_def bs doc_ok_def)
  moreover have "table_ok pb_clash bs" "table_ok pi_clash ins"
    using reserved.prems pb.ok_insert [OF _ reserved(6)] pin.ok_insert_many [OF _ reserved(7)]
    by (simp_all add: pf_inv_def)
  ultimately show ?case
    using reserved.prems by (simp add: pf_inv_def bs)
next
  case (saved c db r d p cs)
  have cs: "cs = funded_completions db @ [c]" using saved(7) by (simp add: sql_insert_Some)
  have "completion_bound (funded_bundles db) c"
    using saved(1-5) unfolding completion_bound_def by (intro exI conjI)
  with saved show ?case
    using pc.ok_insert [OF _ saved(7)] by (simp add: pf_inv_def cs)
next
  case (completed db n i t)
  let ?f = "\<lambda>r. if pc_key r = (n, i) then complete_row t r else r"
  have k: "pc_key (?f r) = pc_key r" "pc_payload (?f r) = pc_payload r" for r
    by (simp_all add: complete_row_def pc_key_def)
  have "sql_update pc_clash (\<lambda>r. pc_key r = (n, i)) (complete_row t) (funded_completions db)
      = Some (map ?f (funded_completions db))"
    using completed by (intro pc.update_frame) (simp_all only: pf_inv_def pc_clash_def k)
  then have "table_ok pc_clash (map ?f (funded_completions db))" by (rule pc.ok_update)
  moreover have "completion_bound bundles (?f c) = completion_bound bundles c" for bundles c
    unfolding completion_bound_def k ..
  then have "list_all (completion_bound (funded_bundles db)) (map ?f (funded_completions db))"
    using completed by (simp add: pf_inv_def list.pred_map comp_def split del: if_split)
  ultimately show ?case
    using completed by (simp add: pf_inv_def pf_complete_def split del: if_split)
qed (simp_all add: pf_inv_def)

interpretation pf: store "pf_step api" "\<lambda>db. order_free api \<and> pf_inv api db" pf_op_ok for api
  by unfold_locales (blast intro: pf_change_inv pf_step_change)

lemma pf_run_inv:
  assumes "order_free api" and "list_all pf_op_ok ops"
  shows "pf_inv api (run (pf_step api) ops empty_pf_db)"
  using pf.run_inv [of api empty_pf_db ops] assms by (simp add: pf_inv_def empty_pf_db_def)

lemma pf_run_evolves:
  assumes "order_free api" and "pf_inv api db" and "list_all pf_op_ok ops"
  shows "pf_evolves db (run (pf_step api) ops db)"
proof (rule pf.run_mono [where api = api and R = pf_evolves])
  show "pf_evolves db (pf_step api op db)" if "pf_op_ok op" for op db
    using that by (blast intro: pf_change_evolves pf_step_change)
  show "reflp pf_evolves" by (simp add: reflp_def)
  show "transp pf_evolves" unfolding transp_def by (blast intro: pf_evolves_trans)
qed (use assms in auto)

section \<open>Properties\<close>

text \<open>A library and a document with one spend, to show that the hypotheses can hold.\<close>

definition toy_coin :: coin where
  "toy_coin = \<lparr>parent_coin_info = ''aa'', puzzle_hash = ''bb'', amount = 5\<rparr>"

definition toy_bundle :: spend_bundle where
  "toy_bundle = \<lparr>coin_spends = [\<lparr>spend_coin = toy_coin, puzzle_reveal = ''80'', solution = ''80''\<rparr>],
     aggregated_signature = ''c0''\<rparr>"

definition toy_api :: chia_api where
  "toy_api = \<lparr>from_json_dict = (\<lambda>_. Some toy_bundle), bundle_name = (\<lambda>_. ''0xb1''),
     coin_name = (\<lambda>c. ''0x'' @ parent_coin_info c), removals = (\<lambda>b. map spend_coin (coin_spends b)),
     additions = (\<lambda>_. Some []), reveal_hash = (\<lambda>s. Some s), infinity = ''c0'', sha256_hex = (\<lambda>s. s)\<rparr>"

lemma toy_order_free: "order_free toy_api"
  by (simp add: order_free_def toy_api_def)

definition toy_doc :: doc where
  "toy_doc = [(''spendBundle'', JObj []), (''spendBundleId'', JStr ''0xb1''), (''protocolSpendBundle'', JNull)]"

definition sample_pf_ops :: "pf_op list" where
  "sample_pf_ops = [Reserve ''testnet11'' ''0xb1'' JNull toy_doc 10,
     SaveCompletion ''testnet11'' ''0xb1'' [(''bundleId'', JStr ''0xb1'')] 11]"

lemma sample_pf_ok: "list_all pf_op_ok sample_pf_ops"
  by (simp add: sample_pf_ops_def toy_doc_def)

lemma sample_pf_run:
  "map pb_key (funded_bundles (run (pf_step toy_api) sample_pf_ops empty_pf_db)) = [(''testnet11'', ''0xb1'')]"
  "map (\<lambda>c. (pc_key c, pc_completed_at c)) (funded_completions (run (pf_step toy_api) sample_pf_ops empty_pf_db))
     = [((''testnet11'', ''0xb1''), None)]"
  by code_simp+



lemma pf_lookup_stored:
  assumes "order_free api" and "json_ok (JObj d)" and "checked_bundle api msg d = Inr b"
    and "lookup pb_key (n, i) (funded_bundles db) = Some r" and "pb_document r = canonical_json (JObj d)"
  shows "pf_lookup api db n i c = (if pb_context r = canonical_json c then Inr (Some (canon_dict d))
    else Inl (PfValueError ''Saved protocol funding belongs to a different funding context''))"
  using checked_msg [OF assms(3)] checked_canon [OF assms(1,2)]
  by (simp add: pf_lookup_def assms(4,5) load_canonical [OF assms(2)] raise_if_def)

text \<open>What a successful reservation has stored.\<close>

lemma pf_reserve_stored:
  assumes inv0: "pf_inv api db0" and body: "pf_reserve_body api n i c d b t db0 = Inr ((), db)"
  shows "\<exists>r. lookup pb_key (n, i) (funded_bundles db) = Some r \<and> pb_context r = canonical_json c \<and>
      pb_document r = canonical_json (JObj d)"
proof (cases "lookup pb_key (n, i) (funded_bundles db0)")
  case None
  let ?r = "\<lparr>pb_network = n, pb_original_id = i, pb_context = canonical_json c,
      pb_document = canonical_json (JObj d), pb_created_at = t\<rparr>"
  from None body obtain bs where "sql_insert pb_clash ?r (funded_bundles db0) = Some bs" "funded_bundles db = bs"
    by (auto simp: pf_reserve_body_def pf_lookup_def split: option.splits)
  then show ?thesis
    using pb.lookup_insert [of ?r "funded_bundles db0" bs "(n, i)"] by (simp add: pb_key_def)
next
  case (Some r)
  with body obtain d1 where s: "pb_context r = canonical_json c" "db = db0"
    and d1: "load_doc (pb_document r) = Inr d1" "canonical_json (JObj d1) = canonical_json (JObj d)"
    by (auto simp: pf_reserve_body_def pf_lookup_def bind_Inr)
  have "doc_ok r"
    using inv0 Some by (auto simp: pf_inv_def list_all_iff dest: lookup_Some_D)
  then obtain d0 where d0: "json_ok (JObj d0)" "pb_document r = canonical_json (JObj d0)"
    unfolding doc_ok_def by blast
  have "d1 = canon_dict d0"
    using d1(1) by (simp only: d0(2) load_canonical [OF d0(1)] sum.inject)
  with d0(2) d1(2) have "pb_document r = canonical_json (JObj d)"
    by (simp only: canonical_canon_dict)
  with Some s(1) show ?thesis unfolding s(2) by (intro exI conjI)
qed

text \<open>Another document or context is refused while the stored one is found.\<close>

lemma pf_reserve_other:
  assumes "pf_lookup api db n i c = Inr (Some (canon_dict d))"
    and "\<And>c'. pf_lookup api db n i c' =
      (if canonical_json c' = canonical_json c then Inr (Some (canon_dict d))
       else Inl (PfValueError ''Saved protocol funding belongs to a different funding context''))"
    and "canonical_json c' \<noteq> canonical_json c \<or> canonical_json (JObj d') \<noteq> canonical_json (JObj d)"
  shows "\<exists>e. pf_reserve api n i c' d' t db = (Inl e, db)"
proof (cases "checked_bundle api ''Protocol funding bundle does not match its identifier'' d'")
  case (Inr b')
  with assms show ?thesis
    by (cases "canonical_json c' = canonical_json c")
       (simp_all add: pf_reserve_def pf_reserve_body_def txn_def raise_if_def)
qed (simp add: pf_reserve_def)

text \<open>
  A funding is write-once and recoverable: once \<open>reserve\<close> has returned for a document, then after
  any later calls \<open>lookup\<close> in the same context returns that document (its keys in canonical
  order), repeating the reservation changes nothing, and reserving another valid document under the
  same id, or in another context, raises and changes nothing.
\<close>

theorem pf_reserve_final:
  assumes "order_free api" and "list_all pf_op_ok ops" and "list_all pf_op_ok ops'" and "json_ok (JObj d)"
    and "pf_reserve api n i c d t (run (pf_step api) ops empty_pf_db) = (Inr (), db)"
  shows "pf_lookup api (run (pf_step api) ops' db) n i c = Inr (Some (canon_dict d)) \<and>
    pf_reserve api n i c d t' (run (pf_step api) ops' db) = (Inr (), run (pf_step api) ops' db) \<and>
    (\<forall>c' d'. json_ok (JObj d') \<longrightarrow>
       canonical_json c' \<noteq> canonical_json c \<or> canonical_json (JObj d') \<noteq> canonical_json (JObj d) \<longrightarrow>
       (\<exists>e. pf_reserve api n i c' d' t' (run (pf_step api) ops' db) = (Inl e, run (pf_step api) ops' db)))"
proof -
  let ?db0 = "run (pf_step api) ops empty_pf_db" and ?db' = "run (pf_step api) ops' db"
  have inv0: "pf_inv api ?db0" by (rule pf_run_inv [OF assms(1,2)])
  have inv: "pf_inv api db"
    using pf_change_inv [OF pf_step_change [of "Reserve n i c d t" api ?db0] assms(1) inv0] assms(4,5) by simp
  obtain b where b: "checked_bundle api ''Protocol funding bundle does not match its identifier'' d = Inr b"
      "pf_reserve_body api n i c d b t ?db0 = Inr ((), db)"
    using assms(5) by (auto simp: pf_reserve_def txn_Inr_iff split: sum.splits)
  obtain r where r: "lookup pb_key (n, i) (funded_bundles db) = Some r" "pb_context r = canonical_json c"
      "pb_document r = canonical_json (JObj d)"
    using pf_reserve_stored [OF inv0 b(2)] by blast
  have "prefix (funded_bundles db) (funded_bundles ?db')"
    using pf_run_evolves [OF assms(1) inv assms(3)] by (simp add: pf_evolves_def)
  then have look: "lookup pb_key (n, i) (funded_bundles ?db') = Some r"
    using r(1) by (auto simp: prefix_def lookup_append)
  note get = pf_lookup_stored [OF assms(1,4) b(1) look r(3), unfolded r(2)]
  have "pf_reserve api n i c d t' ?db' = (Inr (), ?db')"
    using b(1) get by (simp add: pf_reserve_def pf_reserve_body_def txn_def)
  moreover have found: "pf_lookup api ?db' n i c = Inr (Some (canon_dict d))"
    using get by simp
  moreover have "\<exists>e. pf_reserve api n i c' d' t' ?db' = (Inl e, ?db')"
    if "canonical_json c' \<noteq> canonical_json c \<or> canonical_json (JObj d') \<noteq> canonical_json (JObj d)" for c' d'
    using found _ that by (rule pf_reserve_other) (simp add: get)
  ultimately show ?thesis by blast
qed

theorem pf_reserve_final_witness:
  "\<exists>db. pf_reserve toy_api ''testnet11'' ''0xb1'' JNull toy_doc 10 (run (pf_step toy_api) [] empty_pf_db) = (Inr (), db) \<and>
    pf_lookup toy_api (run (pf_step toy_api) [Complete ''testnet11'' ''0xb1'' 20] db) ''testnet11'' ''0xb1'' JNull
      = Inr (Some (canon_dict toy_doc))"
proof -
  have j: "json_ok (JObj toy_doc)" by (simp add: toy_doc_def)
  have "fst (pf_reserve toy_api ''testnet11'' ''0xb1'' JNull toy_doc 10 (run (pf_step toy_api) [] empty_pf_db)) = Inr ()"
    by code_simp
  then obtain db where r: "pf_reserve toy_api ''testnet11'' ''0xb1'' JNull toy_doc 10 (run (pf_step toy_api) [] empty_pf_db) = (Inr (), db)"
    by (cases "pf_reserve toy_api ''testnet11'' ''0xb1'' JNull toy_doc 10 (run (pf_step toy_api) [] empty_pf_db)") simp
  have "list_all pf_op_ok []" "list_all pf_op_ok [Complete ''testnet11'' ''0xb1'' 20]" by simp_all
  from pf_reserve_final [OF toy_order_free this j r] r show ?thesis by blast
qed

text \<open>
  Completion instructions are immutable and belong to their bundle: in every reachable state a
  completion's payload names, as its bundle, the id of the document funded under its key; and
  whatever calls follow, the completion stays with the same payload, and once completed keeps its time.
\<close>

theorem pf_completion_immutable:
  assumes "order_free api" and "list_all pf_op_ok ops" and "list_all pf_op_ok ops'"
    and "k \<in> set (funded_completions (run (pf_step api) ops empty_pf_db))"
  shows "completion_bound (funded_bundles (run (pf_step api) ops empty_pf_db)) k \<and>
    (\<exists>k' \<in> set (funded_completions (run (pf_step api) (ops @ ops') empty_pf_db)).
       pc_key k' = pc_key k \<and> pc_payload k' = pc_payload k \<and>
       (pc_completed_at k \<noteq> None \<longrightarrow> pc_completed_at k' = pc_completed_at k))"
proof -
  let ?db = "run (pf_step api) ops empty_pf_db"
  have inv: "pf_inv api ?db" by (rule pf_run_inv [OF assms(1,2)])
  have "pf_evolves ?db (run (pf_step api) (ops @ ops') empty_pf_db)"
    unfolding run_append by (rule pf_run_evolves [OF assms(1) inv assms(3)])
  then obtain k' where k': "k' \<in> set (funded_completions (run (pf_step api) (ops @ ops') empty_pf_db))"
      "completion_evolves k k'"
    using assms(4) unfolding pf_evolves_def by blast
  moreover have "completion_bound (funded_bundles ?db) k"
    using inv assms(4) by (simp add: pf_inv_def list_all_iff)
  ultimately show ?thesis
    unfolding completion_evolves_def by (intro conjI bexI [OF _ k'(1)]) simp_all
qed

theorem pf_completion_immutable_witness:
  "\<exists>k \<in> set (funded_completions (run (pf_step toy_api) sample_pf_ops empty_pf_db)).
     completion_bound (funded_bundles (run (pf_step toy_api) sample_pf_ops empty_pf_db)) k"
proof -
  obtain k where k: "k \<in> set (funded_completions (run (pf_step toy_api) sample_pf_ops empty_pf_db))"
    using sample_pf_run(2) by (cases "funded_completions (run (pf_step toy_api) sample_pf_ops empty_pf_db)") auto
  have "list_all pf_op_ok []" by simp
  from pf_completion_immutable [OF toy_order_free sample_pf_ok this k] k show ?thesis by blast
qed

end
