(* ===== verification/PyDoc.thy ===== *)
theory PyDoc
  imports ChiaApi SqlCore
begin

text \<open>
  Python values decoded from JSON, as the stores of the swap, voucher and identity flows read them:
  subscripts that raise, equality of values, short-circuit conditions whose parts may raise, and
  canonical decimal amounts.
\<close>

section \<open>Exceptions\<close>

datatype py_error =
    ValueError string
  | KeyError string
  | TypeError
  | IntegrityError

section \<open>Subscripts\<close>

text \<open>\<open>v[k]\<close> with a string key: \<open>KeyError\<close> on a \<open>dict\<close> without it, \<open>TypeError\<close> on any other value.\<close>

fun py_index :: "json \<Rightarrow> string \<Rightarrow> py_error + json" where
  "py_index (JObj d) k = (case map_of d k of None \<Rightarrow> Inl (KeyError k) | Some v \<Rightarrow> Inr v)"
| "py_index _ k = Inl TypeError"

text \<open>\<open>v[k1][k2]...\<close>\<close>

fun py_path :: "json \<Rightarrow> string list \<Rightarrow> py_error + json" where
  "py_path v [] = Inr v"
| "py_path v (k # ks) = bind (py_index v k) (\<lambda>w. py_path w ks)"

text \<open>\<open>json.loads\<close> of a stored text; malformed text is a \<open>JSONDecodeError\<close>, which is a \<open>ValueError\<close>.\<close>

definition py_loads :: "string \<Rightarrow> py_error + json" where
  "py_loads s = (case loads s of None \<Rightarrow> Inl (ValueError ''malformed JSON'') | Some v \<Rightarrow> Inr v)"

section \<open>Equality\<close>

text \<open>
  \<open>==\<close> on decoded values: the order of the keys of a \<open>dict\<close> does not count, and \<open>True == 1\<close>.
\<close>

fun py_num :: "json \<Rightarrow> json" where
  "py_num (JBool b) = JInt (if b then 1 else 0)"
| "py_num (JArr vs) = JArr (map py_num vs)"
| "py_num (JObj d) = JObj (map (\<lambda>(k, v). (k, py_num v)) d)"
| "py_num v = v"

definition py_eq :: "json \<Rightarrow> json \<Rightarrow> bool" where
  "py_eq v w \<longleftrightarrow> canon (py_num v) = canon (py_num w)"

lemma py_eq_refl [simp]: "py_eq v v"
  by (simp add: py_eq_def)

lemma py_eq_JStr [simp]: "py_eq v (JStr s) \<longleftrightarrow> v = JStr s" "py_eq (JStr s) v \<longleftrightarrow> v = JStr s"
  by (cases v; auto simp: py_eq_def)+

lemma py_eq_JNull [simp]: "py_eq v JNull \<longleftrightarrow> v = JNull" "py_eq JNull v \<longleftrightarrow> v = JNull"
  by (cases v; auto simp: py_eq_def)+

lemma py_eq_JInt [simp]: "py_eq (JInt i) (JInt j) \<longleftrightarrow> i = j"
  by (simp add: py_eq_def)

lemma sort_key_map_snd:
  "sort_key fst (map (\<lambda>(k, v). (k, f v)) xs) = map (\<lambda>(k, v). (k, f v)) (sort_key fst xs)"
proof -
  have i: "insort_key fst (k, f v) (map (\<lambda>(k, v). (k, f v)) ys)
      = map (\<lambda>(k, v). (k, f v)) (insort_key fst (k, v) ys)" for k v ys
    by (induction ys) auto
  show ?thesis
    by (induction xs) (auto simp: sort_key_def i split: prod.split)
qed

lemma canon_py_num: "canon (py_num v) = py_num (canon v)"
proof (induction v)
  case (JObj d)
  have m: "map (\<lambda>(k, v). (k, canon v)) (map (\<lambda>(k, v). (k, py_num v)) d)
      = map (\<lambda>(k, v). (k, py_num v)) (map (\<lambda>(k, v). (k, canon v)) d)"
    using JObj by (auto simp: snds.simps)
  show ?case
    unfolding py_num.simps canon.simps m sort_key_map_snd ..
qed (simp_all split: if_splits)

lemma py_eq_canon [simp]: "py_eq (canon v) w \<longleftrightarrow> py_eq v w"
  using canonical.norm_norm [of "py_num v"] by (simp add: py_eq_def canon_py_num)

text \<open>\<open>a != b\<close> where reading \<open>a\<close> may raise.\<close>

definition differs :: "py_error + json \<Rightarrow> json \<Rightarrow> py_error + bool" where
  "differs a b = bind a (\<lambda>v. Inr (\<not> py_eq v b))"

lemma differs_False [simp]: "differs a b = Inr False \<longleftrightarrow> (\<exists>v. a = Inr v \<and> py_eq v b)"
  by (cases a) (simp_all add: differs_def)

text \<open>\<open>c1 or c2 or ...\<close>: the first condition that holds or raises decides.\<close>

fun any_of :: "('e + bool) list \<Rightarrow> 'e + bool" where
  "any_of [] = Inr False"
| "any_of (c # cs) = bind c (\<lambda>b. if b then Inr True else any_of cs)"

lemma any_of_False: "any_of cs = Inr False \<longleftrightarrow> list_all (\<lambda>c. c = Inr False) cs"
  by (induction cs) (auto simp: bind_Inr)

text \<open>\<open>if c1 or c2 or ...: raise e\<close>\<close>

definition raise_any :: "('e + bool) list \<Rightarrow> 'e \<Rightarrow> 'e + 'a \<Rightarrow> 'e + 'a" where
  "raise_any cs e k = bind (any_of cs) (\<lambda>bad. raise_if bad e k)"

lemma raise_any_Inr [simp]: "raise_any cs e k = Inr x \<longleftrightarrow> list_all (\<lambda>c. c = Inr False) cs \<and> k = Inr x"
  by (cases "any_of cs") (auto simp: raise_any_def any_of_False [symmetric])

lemma raise_any_ok: "list_all (\<lambda>c. c = Inr False) cs \<Longrightarrow> raise_any cs e k = k"
  by (simp add: raise_any_def any_of_False [symmetric])

section \<open>Documents and their canonical text\<close>

lemma py_index_canon:
  assumes "json_ok v"
  shows "py_index (canon v) k = (case py_index v k of Inl e \<Rightarrow> Inl e | Inr w \<Rightarrow> Inr (canon w))"
proof (cases v)
  case (JObj d)
  with assms have "json_ok (JObj d)" by simp
  then show ?thesis by (simp add: JObj map_of_canon split: option.splits)
qed simp_all

lemma py_index_ok: "json_ok v \<Longrightarrow> py_index v k = Inr w \<Longrightarrow> json_ok w"
  by (cases v) (auto split: option.splits intro: json_ok_lookup)

lemma py_path_canon:
  assumes "json_ok v"
  shows "py_path (canon v) ks = (case py_path v ks of Inl e \<Rightarrow> Inl e | Inr w \<Rightarrow> Inr (canon w))"
  using assms
proof (induction ks arbitrary: v)
  case (Cons k ks)
  then show ?case
    by (cases "py_index v k") (auto simp: py_index_canon dest: py_index_ok)
qed simp

lemma py_loads_canonical: "json_ok v \<Longrightarrow> py_loads (canonical_json v) = Inr (canon v)"
  using canonical.dec_enc [of v] by (simp add: py_loads_def)

section \<open>Amounts\<close>

text \<open>
  \<open>type(v) is str and v.isascii() and v.isdecimal() and str(int(v)) == v\<close>; \<open>int\<close> refuses a text
  of more than 4300 digits.
\<close>

fun amount_text :: "json \<Rightarrow> string option" where
  "amount_text (JStr s) =
     (if s \<noteq> [] \<and> list_all is_digit s \<and> length s \<le> 4300 \<and> show_nat (nat_of_digits s) = s then Some s else None)"
| "amount_text _ = None"

lemma amount_text_Some: "amount_text v = Some s \<Longrightarrow> v = JStr s"
  by (cases v) (auto split: if_splits)

lemma amount_text_again: "amount_text v = Some s \<Longrightarrow> amount_text (JStr s) = Some s"
  by (cases v) (auto split: if_splits)

lemma amount_text_canon [simp]: "amount_text (canon v) = amount_text v"
  by (cases v) simp_all

text \<open>\<open>'0x' + hashlib.sha256(canonical(v).encode()).hexdigest()\<close>\<close>

definition digest :: "chia_api \<Rightarrow> json \<Rightarrow> string" where
  "digest api v = ''0x'' @ sha256_hex api (canonical_json v)"

end
