(* ===== verification/SolsSwap.thy ===== *)
theory SolsSwap
  imports PyDoc Complex_Main
begin

text \<open>
  \<open>src/solslot_api/sols_swap_store.py\<close> with the validators it calls, \<open>validate_execution\<close> of
  \<open>sols_swap_execution.py\<close> and \<open>validate_private_hold\<close> of \<open>sols_swap_funding.py\<close>: the ledger of customer
  swaps. An operation is prepared, may hold a private fee coin until its quote expires, is sealed by a
  signed execution that claims every input coin, is submitted, and is confirmed, which releases the claims.

  The clock (\<open>time()\<close>, a float) is a rational; the readings of one call are taken as one.
\<close>

section \<open>Validation\<close>

text \<open>\<open>type(v) is int and v > 0\<close>\<close>

fun positive_int :: "json \<Rightarrow> bool" where
  "positive_int (JInt i) = (i > 0)"
| "positive_int _ = False"

definition spend_id :: "chia_api \<Rightarrow> coin_spend \<Rightarrow> string" where
  "spend_id api s = coin_name api (spend_coin s)"

definition canonical_field :: "json \<Rightarrow> string \<Rightarrow> string \<Rightarrow> py_error + string" where
  "canonical_field v k message =
     bind (py_index v k) (\<lambda>w. case amount_text w of None \<Rightarrow> Inl (ValueError message) | Some s \<Rightarrow> Inr s)"

definition decode_bundle :: "chia_api \<Rightarrow> json \<Rightarrow> py_error + spend_bundle" where
  "decode_bundle api j =
     (case from_json_dict api j of None \<Rightarrow> Inl (ValueError ''invalid spend bundle'') | Some b \<Rightarrow> Inr b)"

definition total :: "coin list \<Rightarrow> int" where
  "total cs = sum_list (map amount cs)"

text \<open>The amounts of a funded bundle: the fee it pays, its one pool output and the use of its fee coin.\<close>

definition amounts_ok :: "chia_api \<Rightarrow> spend_bundle \<Rightarrow> coin list \<Rightarrow> string \<Rightarrow> string \<Rightarrow> int \<Rightarrow> int \<Rightarrow> bool" where
  "amounts_ok api bundle outs pool_output fee_id fee backing \<longleftrightarrow>
     fee > 0 \<and> length (filter (\<lambda>c. coin_name api c = pool_output) outs) = 1 \<and>
     total (removals api bundle) - total outs = fee \<and>
     (case find (\<lambda>s. spend_id api s = fee_id) (coin_spends bundle) of
        None \<Rightarrow> False
      | Some funding \<Rightarrow>
          total (filter (\<lambda>c. parent_coin_info c = spend_id api funding) outs) + fee + backing
            = amount (spend_coin funding))"

definition checked_execution :: "chia_api \<Rightarrow> json \<Rightarrow> string \<Rightarrow> string \<Rightarrow> py_error + spend_bundle" where
  "checked_execution api execution pool_input pool_output =
     bind (py_index execution ''network'') (\<lambda>network.
     raise_if (network \<noteq> JStr ''testnet11'') (ValueError ''wrong network'')
    (bind (py_index execution ''feeTargetSeconds'') (\<lambda>target.
     raise_if (\<not> positive_int target) (ValueError ''invalid target'')
    (bind (canonical_field execution ''feeMojos'' ''noncanonical amount'') (\<lambda>fee.
     bind (canonical_field execution ''backingMojos'' ''noncanonical amount'') (\<lambda>backing.
     bind (py_index execution ''spendBundle'') (\<lambda>j.
     bind (decode_bundle api j) (\<lambda>bundle.
     bind (py_index execution ''feeCoinId'') (\<lambda>fee_id.
     let inputs = map (spend_id api) (coin_spends bundle) in
     raise_any
      [Inr (length inputs < 2 \<or> \<not> distinct inputs),
       bind (py_index execution ''spendBundleId'') (\<lambda>i. Inr (i \<noteq> JStr (bundle_name api bundle))),
       Inr (pool_input \<notin> set inputs \<or> fee_id \<notin> JStr ` set inputs \<or> fee_id = JStr pool_input)]
      (ValueError ''changed inputs or transaction identity'')
    (raise_if (\<not> list_all (\<lambda>s. reveal_hash api (puzzle_reveal s) = Some (puzzle_hash (spend_coin s))) (coin_spends bundle))
      (ValueError ''changed puzzle reveal'')
    (case additions api bundle of
       None \<Rightarrow> Inl (ValueError ''puzzle does not run'')
     | Some outs \<Rightarrow>
         raise_if (\<not> (case fee_id of
              JStr c \<Rightarrow> amounts_ok api bundle outs pool_output c (int (nat_of_digits fee)) (int (nat_of_digits backing))
            | _ \<Rightarrow> False))
           (ValueError ''changed output, fee or backing'')
           (Inr bundle))))))))))))"

text \<open>Every exception of the checks is replaced by one \<open>ValueError\<close>.\<close>

definition validate_execution :: "chia_api \<Rightarrow> json \<Rightarrow> string \<Rightarrow> string \<Rightarrow> py_error + spend_bundle" where
  "validate_execution api execution pool_input pool_output =
     (case checked_execution api execution pool_input pool_output of
        Inl _ \<Rightarrow> Inl (ValueError ''durable Sols swap execution is inconsistent'')
      | Inr bundle \<Rightarrow> Inr bundle)"

definition public_spend :: "chia_api \<Rightarrow> coin_spend \<Rightarrow> json" where
  "public_spend api s = JObj
     [(''coinId'', JStr (spend_id api s)),
      (''coin'', JObj
        [(''parentCoinInfo'', JStr (parent_coin_info (spend_coin s))),
         (''puzzleHash'', JStr (puzzle_hash (spend_coin s))),
         (''amount'', JStr (show_int (amount (spend_coin s))))]),
      (''puzzleReveal'', JStr (puzzle_reveal s)), (''solution'', JStr (solution s))]"

definition validate_private_hold :: "chia_api \<Rightarrow> json \<Rightarrow> py_error + spend_bundle" where
  "validate_private_hold api payload =
     bind (py_index payload ''review'') (\<lambda>review.
     raise_any [differs (py_index payload ''reservationHash'') (JStr (digest api review))]
       (ValueError ''swap funding reservation identity changed'')
    (bind (py_index payload ''fundingBundle'') (\<lambda>j.
     bind (decode_bundle api j) (\<lambda>bundle.
     case coin_spends bundle of
       [spend] \<Rightarrow>
         raise_if (aggregated_signature bundle = infinity api)
           (ValueError ''private swap funding signature is missing'')
        (raise_any
          [differs (py_index review ''fundingCoinSpend'') (public_spend api spend),
           differs (py_index review ''feeCoinId'') (JStr (spend_id api spend)),
           differs (py_index review ''ownerAuthorization'') (JStr ''PENDING''),
           differs (py_index review ''status'') (JStr ''FUNDING_RESERVED''),
           bind (py_index review ''consensusValidated'') (\<lambda>v. Inr (v \<noteq> JBool False))]
          (ValueError ''swap funding spend or pending state changed'')
        (bind (canonical_field review ''feeMojos'' ''swap funding amount is not canonical'') (\<lambda>_.
         bind (canonical_field review ''backingMojos'' ''swap funding amount is not canonical'') (\<lambda>_.
         Inr bundle))))
     | _ \<Rightarrow> Inl (ValueError ''private swap funding signature is missing'')))))"

section \<open>Tables\<close>

datatype swap_status = PREPARED | SUBMITTED | CONFIRMED | FAILED

record sw_row =
  so_hash :: string
  so_direction :: string
  so_vault :: string
  so_deed :: string
  so_status :: swap_status
  so_expires :: int
  so_pool_input :: string
  so_pool_output :: string
  so_destination :: string
  so_tx :: "string option"
  so_fee :: "string option"
  so_target :: "int option"
  so_provider :: "string option"
  so_mempool :: "string option"
  so_created :: rat
  so_updated :: rat

record StoredSolsSwap =
  operation_hash :: string
  direction :: string
  vault_launcher_id :: string
  deed_launcher_id :: string
  swap_status :: swap_status
  quote_expires_at :: int
  pool_input_coin_id :: string
  expected_pool_output_coin_id :: string
  destination_puzzle_hash :: string
  transaction_id :: "string option"
  fee_mojos :: "string option"
  fee_target_seconds :: "int option"
  submission_provider :: "string option"
  mempool_observed_at :: "string option"
  swap_created_at :: rat
  swap_updated_at :: rat

definition sw_record :: "sw_row \<Rightarrow> StoredSolsSwap" where
  "sw_record r = \<lparr>operation_hash = so_hash r, direction = so_direction r, vault_launcher_id = so_vault r,
     deed_launcher_id = so_deed r, swap_status = so_status r, quote_expires_at = so_expires r,
     pool_input_coin_id = so_pool_input r, expected_pool_output_coin_id = so_pool_output r,
     destination_puzzle_hash = so_destination r, transaction_id = so_tx r, fee_mojos = so_fee r,
     fee_target_seconds = so_target r, submission_provider = so_provider r, mempool_observed_at = so_mempool r,
     swap_created_at = so_created r, swap_updated_at = so_updated r\<rparr>"

record sw_execution =
  se_hash :: string
  se_json :: string
  se_sha :: string

record sw_claim =
  si_coin :: string
  si_hash :: string

record sw_review =
  sf_hash :: string
  sf_vault :: string
  sf_fee_coin :: string
  sf_expires :: int
  sf_json :: string
  sf_sha :: string

record sw_db =
  operations :: "sw_row list"
  executions :: "sw_execution list"
  claims :: "sw_claim list"
  reviews :: "sw_review list"

definition empty_sw_db :: sw_db where
  "empty_sw_db = \<lparr>operations = [], executions = [], claims = [], reviews = []\<rparr>"

definition so_clash :: "sw_row \<Rightarrow> sw_row \<Rightarrow> bool" where
  "so_clash r r' \<longleftrightarrow> so_hash r = so_hash r'"

definition se_clash :: "sw_execution \<Rightarrow> sw_execution \<Rightarrow> bool" where
  "se_clash r r' \<longleftrightarrow> se_hash r = se_hash r'"

definition si_clash :: "sw_claim \<Rightarrow> sw_claim \<Rightarrow> bool" where
  "si_clash r r' \<longleftrightarrow> si_coin r = si_coin r'"

definition sf_clash :: "sw_review \<Rightarrow> sw_review \<Rightarrow> bool" where
  "sf_clash r r' \<longleftrightarrow> sf_hash r = sf_hash r'"

interpretation so: keyed_table so_clash so_hash
  by unfold_locales (auto simp: so_clash_def)

interpretation se: keyed_table se_clash se_hash
  by unfold_locales (auto simp: se_clash_def)

interpretation si: keyed_table si_clash si_coin
  by unfold_locales (auto simp: si_clash_def)

interpretation sf: keyed_table sf_clash sf_hash
  by unfold_locales (auto simp: sf_clash_def)

section \<open>Fee holds\<close>

text \<open>\<open>EXISTS (SELECT 1 FROM sols_swap_executions e WHERE e.operation_hash = ...)\<close>\<close>

definition sealed :: "sw_execution list \<Rightarrow> string \<Rightarrow> bool" where
  "sealed es h \<longleftrightarrow> list_ex (\<lambda>e. se_hash e = h) es"

definition expire_funding :: "rat \<Rightarrow> sw_db \<Rightarrow> sw_db" where
  "expire_funding now db =
     db\<lparr>reviews := sql_delete (\<lambda>f. of_int (sf_expires f) \<le> now \<and> \<not> sealed (executions db) (sf_hash f)) (reviews db)\<rparr>"

definition supersede_body :: "string \<Rightarrow> string \<Rightarrow> rat \<Rightarrow> (sw_db, py_error, unit) body" where
  "supersede_body h vault now db =
     (let failure = Inl (ValueError ''replacement funding requires a current prepared operation'') in
      case lookup so_hash h (operations db) of
        None \<Rightarrow> failure
      | Some row \<Rightarrow>
          if so_vault row \<noteq> vault \<or> so_status row \<noteq> PREPARED \<or> so_tx row \<noteq> None \<or> of_int (so_expires row) \<le> now
          then failure
          else Inr ((), db\<lparr>reviews :=
            sql_delete (\<lambda>f. sf_vault f = vault \<and> sf_hash f \<noteq> h \<and> \<not> sealed (executions db) (sf_hash f)) (reviews db)\<rparr>))"

definition supersede_unsealed_funding :: "string \<Rightarrow> string \<Rightarrow> rat \<Rightarrow> (sw_db, py_error, unit) call" where
  "supersede_unsealed_funding h vault now = txn (supersede_body h vault now)"

definition reserve_funding_body ::
  "chia_api \<Rightarrow> string \<Rightarrow> json \<Rightarrow> json \<Rightarrow> spend_bundle \<Rightarrow> rat \<Rightarrow> (sw_db, py_error, unit) body" where
  "reserve_funding_body api h payload review bundle now db0 =
     (let db = expire_funding now db0;
          encoded = canonical_json payload;
          mismatch = ValueError ''swap funding does not match a current prepared operation'' in
      case lookup so_hash h (operations db) of
        None \<Rightarrow> Inl mismatch
      | Some row \<Rightarrow>
          raise_any
            [Inr (so_status row \<noteq> PREPARED \<or> so_tx row \<noteq> None),
             differs (py_index review ''operationHash'') (JStr h),
             differs (py_path review [''binding'', ''vaultLauncherId'']) (JStr (so_vault row)),
             differs (py_index review ''quoteExpiresAt'') (JInt (so_expires row)),
             Inr (of_int (so_expires row) \<le> now)]
            mismatch
          (case lookup sf_hash h (reviews db) of
             Some existing \<Rightarrow>
               raise_if (sf_json existing \<noteq> encoded \<or> sf_sha existing \<noteq> digest api payload)
                 (ValueError ''swap already has a different exact funding review'') (Inr ((), db))
           | None \<Rightarrow>
               let fee_id = spend_id api (coin_spends bundle ! 0) in
               raise_if
                 (list_ex (\<lambda>f. (sf_fee_coin f = fee_id \<or> sf_vault f = so_vault row) \<and>
                     \<not> sealed (executions db) (sf_hash f)) (reviews db) \<or>
                  lookup si_coin fee_id (claims db) \<noteq> None)
                 (ValueError ''funding coin or vault already has an active reservation'')
               (case sql_insert sf_clash
                       \<lparr>sf_hash = h, sf_vault = so_vault row, sf_fee_coin = fee_id, sf_expires = so_expires row,
                        sf_json = encoded, sf_sha = digest api payload\<rparr> (reviews db) of
                  None \<Rightarrow> Inl IntegrityError
                | Some rs \<Rightarrow> Inr ((), db\<lparr>reviews := rs\<rparr>))))"

definition reserve_funding ::
  "chia_api \<Rightarrow> string \<Rightarrow> json \<Rightarrow> rat \<Rightarrow> (sw_db, py_error, unit) call" where
  "reserve_funding api h payload now db =
     (case bind (validate_private_hold api payload) (\<lambda>bundle.
            bind (py_index payload ''review'') (\<lambda>review. Inr (bundle, review))) of
        Inl e \<Rightarrow> (Inl e, db)
      | Inr (bundle, review) \<Rightarrow> txn (reserve_funding_body api h payload review bundle now) db)"

text \<open>\<open>funding\<close>: the stored hold, checked against its row after the expired ones are gone.\<close>

definition checked_hold :: "chia_api \<Rightarrow> string \<Rightarrow> sw_review \<Rightarrow> py_error + json" where
  "checked_hold api h row =
     bind (py_loads (sf_json row)) (\<lambda>payload.
     raise_any
       [Inr (digest api payload \<noteq> sf_sha row),
        differs (py_path payload [''review'', ''operationHash'']) (JStr h),
        differs (py_path payload [''review'', ''binding'', ''vaultLauncherId'']) (JStr (sf_vault row)),
        differs (py_path payload [''review'', ''feeCoinId'']) (JStr (sf_fee_coin row)),
        differs (py_path payload [''review'', ''quoteExpiresAt'']) (JInt (sf_expires row))]
       (ValueError ''private swap funding record changed'')
    (bind (validate_private_hold api payload) (\<lambda>_. Inr payload)))"

definition funding :: "chia_api \<Rightarrow> string \<Rightarrow> rat \<Rightarrow> (sw_db, py_error, json option) call" where
  "funding api h now =
     txn_then (\<lambda>db0. let db = expire_funding now db0 in Inr (lookup sf_hash h (reviews db), db))
       (\<lambda>row _. case row of None \<Rightarrow> Inr None | Some r \<Rightarrow> bind (checked_hold api h r) (\<lambda>p. Inr (Some p)))"

section \<open>Executions\<close>

text \<open>The hold of the operation must be the one the signed execution spends.\<close>

definition promote_hold ::
  "chia_api \<Rightarrow> string \<Rightarrow> json \<Rightarrow> string option \<Rightarrow> sw_row \<Rightarrow> spend_bundle \<Rightarrow> rat \<Rightarrow> sw_review option \<Rightarrow>
   py_error + unit" where
  "promote_hold api h execution funding_hash row bundle now hold =
     (if hold = None \<and> funding_hash = None then Inr ()
      else case hold of
        None \<Rightarrow> Inl (ValueError ''swap funding review expired before exact execution promotion'')
      | Some f \<Rightarrow>
          raise_if (of_int (sf_expires f) \<le> now)
            (ValueError ''swap funding review expired before exact execution promotion'')
         (bind (py_loads (sf_json f)) (\<lambda>payload.
          bind (validate_private_hold api payload) (\<lambda>funding_bundle.
          let changed = (\<lambda>path key. bind (py_path payload path) (\<lambda>a. bind (py_index execution key) (\<lambda>b. Inr (\<not> py_eq a b)))) in
          raise_any
            [Inr (digest api payload \<noteq> sf_sha f),
             differs (py_path payload [''review'', ''quoteExpiresAt'']) (JInt (sf_expires f)),
             Inr (sf_expires f \<noteq> so_expires row),
             differs (py_path payload [''review'', ''operationHash'']) (JStr h),
             differs (py_path payload [''review'', ''binding'', ''vaultLauncherId'']) (JStr (so_vault row)),
             changed [''review'', ''feeTargetSeconds''] ''feeTargetSeconds'',
             changed [''review'', ''binding'', ''network''] ''network'',
             differs (py_index payload ''reservationHash'') (json_opt_str funding_hash),
             Inr (\<not> py_eq (case execution of JObj d \<Rightarrow> get_or_null d ''fundingReservationHash'' | _ \<Rightarrow> JNull)
                    (json_opt_str funding_hash)),
             changed [''review'', ''feeCoinId''] ''feeCoinId'',
             changed [''review'', ''feeMojos''] ''feeMojos'',
             changed [''review'', ''backingMojos''] ''backingMojos'',
             Inr (coin_spends funding_bundle ! 0 \<notin> set (coin_spends bundle))]
            (ValueError ''signed execution changed its reserved funding'') (Inr ())))))"

definition str_item :: "json \<Rightarrow> string \<Rightarrow> string option" where
  "str_item v k = (case py_index v k of Inr (JStr s) \<Rightarrow> Some s | _ \<Rightarrow> None)"

definition int_item :: "json \<Rightarrow> string \<Rightarrow> int option" where
  "int_item v k = (case py_index v k of Inr (JInt i) \<Rightarrow> Some i | _ \<Rightarrow> None)"

definition sealed_row :: "json \<Rightarrow> rat \<Rightarrow> sw_row \<Rightarrow> sw_row" where
  "sealed_row execution now r =
     r\<lparr>so_tx := str_item execution ''spendBundleId'', so_fee := str_item execution ''feeMojos'',
       so_target := int_item execution ''feeTargetSeconds'', so_updated := now\<rparr>"

definition seal ::
  "chia_api \<Rightarrow> string \<Rightarrow> json \<Rightarrow> spend_bundle \<Rightarrow> rat \<Rightarrow> (sw_db, py_error, unit) body" where
  "seal api h execution bundle now db =
     raise_if
       (list_ex (\<lambda>coin. list_ex (\<lambda>f. sf_fee_coin f = coin_name api coin \<and> sf_hash f \<noteq> h \<and> now < of_int (sf_expires f) \<and>
            \<not> sealed (executions db) (sf_hash f)) (reviews db)) (removals api bundle))
       (ValueError ''execution consumes another operation's reviewed funding'')
     (case sql_insert se_clash
             \<lparr>se_hash = h, se_json = canonical_json execution, se_sha = sha256_hex api (canonical_json execution)\<rparr>
             (executions db) of
        None \<Rightarrow> Inl IntegrityError
      | Some es \<Rightarrow>
          (case sql_insert_many si_clash
                  (map (\<lambda>coin. \<lparr>si_coin = coin_name api coin, si_hash = h\<rparr>) (removals api bundle)) (claims db) of
             None \<Rightarrow> Inl (ValueError ''a Sols swap input is reserved by another execution'')
           | Some cs \<Rightarrow>
               (case sql_update so_clash (\<lambda>r. so_hash r = h) (sealed_row execution now) (operations db) of
                  None \<Rightarrow> Inl IntegrityError
                | Some ops \<Rightarrow> Inr ((), db\<lparr>executions := es, claims := cs, operations := ops\<rparr>))))"

definition reserve_execution_body ::
  "chia_api \<Rightarrow> string \<Rightarrow> json \<Rightarrow> string option \<Rightarrow> rat \<Rightarrow> (sw_db, py_error, unit) body" where
  "reserve_execution_body api h execution funding_hash now db =
     (let encoded = canonical_json execution in
      case lookup so_hash h (operations db) of
        None \<Rightarrow> Inl (ValueError ''prepared Sols swap operation does not exist'')
      | Some row \<Rightarrow>
          bind (validate_execution api execution (so_pool_input row) (so_pool_output row)) (\<lambda>bundle.
          case lookup se_hash h (executions db) of
            Some existing \<Rightarrow>
              raise_if (se_json existing \<noteq> encoded \<or> se_sha existing \<noteq> sha256_hex api encoded)
                (ValueError ''Sols swap already has a different exact execution'') (Inr ((), db))
          | None \<Rightarrow>
              raise_if (so_status row \<noteq> PREPARED \<or> so_tx row \<noteq> None)
                (ValueError ''Sols swap can no longer reserve a new execution'')
             (bind (promote_hold api h execution funding_hash row bundle now (lookup sf_hash h (reviews db)))
               (\<lambda>_. seal api h execution bundle now db))))"

definition reserve_execution ::
  "chia_api \<Rightarrow> string \<Rightarrow> json \<Rightarrow> string option \<Rightarrow> rat \<Rightarrow> (sw_db, py_error, unit) call" where
  "reserve_execution api h execution funding_hash now = txn (reserve_execution_body api h execution funding_hash now)"

definition execution :: "chia_api \<Rightarrow> string \<Rightarrow> sw_db \<Rightarrow> py_error + json option" where
  "execution api h db =
     (case (lookup se_hash h (executions db), lookup so_hash h (operations db)) of
        (Some e, Some o') \<Rightarrow>
          raise_if (sha256_hex api (se_json e) \<noteq> se_sha e)
            (ValueError ''durable Sols swap execution checksum differs'')
         (bind (py_loads (se_json e)) (\<lambda>v.
          bind (validate_execution api v (so_pool_input o') (so_pool_output o')) (\<lambda>_.
          raise_any
            [differs (py_index v ''spendBundleId'') (json_opt_str (so_tx o')),
             differs (py_index v ''feeMojos'') (json_opt_str (so_fee o')),
             differs (py_index v ''feeTargetSeconds'') (json_opt_int (so_target o'))]
            (ValueError ''durable Sols swap execution metadata differs'')
            (Inr (Some v)))))
      | _ \<Rightarrow> Inr None)"

definition reserved_input_coin_ids :: "rat \<Rightarrow> (sw_db, py_error, string list) call" where
  "reserved_input_coin_ids now = txn (\<lambda>db0. let db = expire_funding now db0 in
     Inr (sort (remdups (map si_coin (claims db) @
            map sf_fee_coin (select (\<lambda>f. \<not> sealed (executions db) (sf_hash f)) (reviews db)))), db))"

section \<open>Life cycle\<close>

definition record_prepared_body ::
  "string \<Rightarrow> string \<Rightarrow> string \<Rightarrow> string \<Rightarrow> int \<Rightarrow> string \<Rightarrow> string \<Rightarrow> string \<Rightarrow> rat \<Rightarrow>
   (sw_db, py_error, StoredSolsSwap) body" where
  "record_prepared_body h dir vault deed expires pool_in pool_out dest now db =
     (case lookup so_hash h (operations db) of
        Some r \<Rightarrow>
          raise_if ((dir, vault, deed, expires, pool_in, pool_out, dest)
              \<noteq> (so_direction r, so_vault r, so_deed r, so_expires r, so_pool_input r, so_pool_output r, so_destination r))
            (ValueError ''operation hash is already bound to another swap'') (Inr (sw_record r, db))
      | None \<Rightarrow>
          let r = \<lparr>so_hash = h, so_direction = dir, so_vault = vault, so_deed = deed, so_status = PREPARED,
                   so_expires = expires, so_pool_input = pool_in, so_pool_output = pool_out, so_destination = dest,
                   so_tx = None, so_fee = None, so_target = None, so_provider = None, so_mempool = None,
                   so_created = now, so_updated = now\<rparr> in
          raise_if (dir \<noteq> ''SOLS_TO_DEED'' \<and> dir \<noteq> ''DEED_TO_SOLS'') IntegrityError
         (case sql_insert so_clash r (operations db) of
            None \<Rightarrow> Inl IntegrityError
          | Some ops \<Rightarrow> Inr (sw_record r, db\<lparr>operations := ops\<rparr>)))"

definition record_prepared ::
  "string \<Rightarrow> string \<Rightarrow> string \<Rightarrow> string \<Rightarrow> int \<Rightarrow> string \<Rightarrow> string \<Rightarrow> string \<Rightarrow> rat \<Rightarrow>
   (sw_db, py_error, StoredSolsSwap) call" where
  "record_prepared h dir vault deed expires pool_in pool_out dest now =
     txn (record_prepared_body h dir vault deed expires pool_in pool_out dest now)"

definition submitted_row :: "string \<Rightarrow> string \<Rightarrow> int \<Rightarrow> string \<Rightarrow> string \<Rightarrow> rat \<Rightarrow> sw_row \<Rightarrow> sw_row" where
  "submitted_row tx fee target provider observed now r =
     r\<lparr>so_status := SUBMITTED, so_tx := Some tx, so_fee := Some fee, so_target := Some target,
       so_provider := Some provider, so_mempool := Some observed, so_updated := now\<rparr>"

definition mark_submitted_body ::
  "string \<Rightarrow> string \<Rightarrow> string \<Rightarrow> int \<Rightarrow> string \<Rightarrow> string \<Rightarrow> rat \<Rightarrow> (sw_db, py_error, StoredSolsSwap) body" where
  "mark_submitted_body h tx fee target provider observed now db =
     (case lookup so_hash h (operations db) of
        None \<Rightarrow> Inl (ValueError ''prepared Sols swap operation does not exist'')
      | Some r \<Rightarrow>
          raise_if (so_tx r \<noteq> None \<and> (so_tx r \<noteq> Some tx \<or> so_fee r \<noteq> Some fee \<or> so_target r \<noteq> Some target))
            (ValueError ''submission differs from the retained Sols swap execution'')
         (if so_status r = SUBMITTED \<or> so_status r = CONFIRMED then
            raise_if (so_tx r \<noteq> Some tx) (ValueError ''operation already has a different transaction'')
              (Inr (sw_record r, db))
          else raise_if (so_status r \<noteq> PREPARED) (ValueError ''failed Sols swap cannot be resubmitted'')
           (case sql_update so_clash (\<lambda>r. so_hash r = h) (submitted_row tx fee target provider observed now) (operations db) of
              None \<Rightarrow> Inl IntegrityError
            | Some ops \<Rightarrow> Inr (sw_record (submitted_row tx fee target provider observed now r), db\<lparr>operations := ops\<rparr>))))"

definition mark_submitted ::
  "string \<Rightarrow> string \<Rightarrow> string \<Rightarrow> int \<Rightarrow> string \<Rightarrow> string \<Rightarrow> rat \<Rightarrow> (sw_db, py_error, StoredSolsSwap) call" where
  "mark_submitted h tx fee target provider observed now = txn (mark_submitted_body h tx fee target provider observed now)"

definition confirmable :: "sw_execution list \<Rightarrow> sw_row \<Rightarrow> bool" where
  "confirmable es r \<longleftrightarrow>
     so_status r = SUBMITTED \<or> (so_status r = PREPARED \<and> so_tx r \<noteq> None \<and> sealed es (so_hash r))"

definition confirmed_row :: "rat \<Rightarrow> sw_row \<Rightarrow> sw_row" where
  "confirmed_row now r = r\<lparr>so_status := CONFIRMED, so_updated := now\<rparr>"

definition mark_confirmed_body :: "string \<Rightarrow> rat \<Rightarrow> (sw_db, py_error, sw_row option) body" where
  "mark_confirmed_body h now db =
     (case sql_update so_clash (\<lambda>r. so_hash r = h \<and> confirmable (executions db) r) (confirmed_row now) (operations db) of
        None \<Rightarrow> Inl IntegrityError
      | Some ops \<Rightarrow>
          let row = lookup so_hash h ops in
          Inr (row, db\<lparr>operations := ops,
            claims := (if map_option so_status row = Some CONFIRMED
                       then sql_delete (\<lambda>c. si_hash c = h) (claims db) else claims db)\<rparr>))"

definition mark_confirmed :: "string \<Rightarrow> rat \<Rightarrow> (sw_db, py_error, StoredSolsSwap) call" where
  "mark_confirmed h now = txn_then (mark_confirmed_body h now)
     (\<lambda>row _. case row of
        None \<Rightarrow> Inl (ValueError ''Sols swap operation does not exist'')
      | Some r \<Rightarrow> Inr (sw_record r))"

definition get_swap :: "string \<Rightarrow> sw_db \<Rightarrow> StoredSolsSwap option" where
  "get_swap h db = map_option sw_record (lookup so_hash h (operations db))"

definition list_for_vault :: "string \<Rightarrow> int \<Rightarrow> sw_db \<Rightarrow> StoredSolsSwap list" where
  "list_for_vault vault limit db =
     map sw_record (order_limit (\<lambda>r. - so_updated r) (max 1 (min limit 100))
       (select (\<lambda>r. so_vault r = vault) (operations db)))"

section \<open>Validation reads a document up to the order of its keys\<close>

lemma bind_index_canon: "json_ok v \<Longrightarrow> bind (py_index (canon v) k) f = bind (py_index v k) (\<lambda>w. f (canon w))"
  by (cases "py_index v k") (simp_all add: py_index_canon)

lemma canonical_field_canon [simp]: "json_ok v \<Longrightarrow> canonical_field (canon v) k m = canonical_field v k m"
  by (simp add: canonical_field_def bind_index_canon)

lemma positive_int_canon [simp]: "positive_int (canon v) = positive_int v"
  by (cases v) simp_all

lemma decode_bundle_canon: "order_free api \<Longrightarrow> json_ok v \<Longrightarrow> decode_bundle api (canon v) = decode_bundle api v"
  by (simp add: decode_bundle_def order_free_def)

lemma json_case_JStr_canon:
  "(case canon v of JStr c \<Rightarrow> f c | _ \<Rightarrow> False) = (case v of JStr c \<Rightarrow> f c | _ \<Rightarrow> False)"
  by (cases v) simp_all

lemma canon_in_JStr: "canon v \<in> JStr ` A \<longleftrightarrow> v \<in> JStr ` A"
  by (cases v) auto

lemma checked_execution_canon:
  assumes "order_free api" and "json_ok v"
  shows "checked_execution api (canon v) p q = checked_execution api v p q"
  unfolding checked_execution_def bind_index_canon [OF assms(2)] canonical_field_canon [OF assms(2)]
  by (simp add: json_case_JStr_canon canon_in_JStr decode_bundle_canon [OF assms(1)] py_index_ok [OF assms(2)] cong: bind_cong option.case_cong)

lemma validate_execution_canon:
  "order_free api \<Longrightarrow> json_ok v \<Longrightarrow> validate_execution api (canon v) p q = validate_execution api v p q"
  by (simp add: validate_execution_def checked_execution_canon)

lemma validate_executionD:
  assumes "validate_execution api v p q = Inr b"
  obtains fee backing target fid outs where
    "py_index v ''spendBundleId'' = Inr (JStr (bundle_name api b))"
    "py_index v ''feeMojos'' = Inr (JStr fee)" "py_index v ''backingMojos'' = Inr (JStr backing)"
    "py_index v ''feeTargetSeconds'' = Inr (JInt target)" "py_index v ''feeCoinId'' = Inr (JStr fid)"
    "amount_text (JStr fee) = Some fee"
    "additions api b = Some outs" "distinct (map (spend_id api) (coin_spends b))"
    "p \<in> set (map (spend_id api) (coin_spends b))" "fid \<in> set (map (spend_id api) (coin_spends b))" "fid \<noteq> p"
    "amounts_ok api b outs q fid (int (nat_of_digits fee)) (int (nat_of_digits backing))"
proof -
  have "checked_execution api v p q = Inr b"
    using assms by (simp add: validate_execution_def split: sum.splits)
  then obtain target fee backing j fid outs where
    t: "py_index v ''feeTargetSeconds'' = Inr target" "positive_int target"
    and f: "canonical_field v ''feeMojos'' ''noncanonical amount'' = Inr fee"
      "canonical_field v ''backingMojos'' ''noncanonical amount'' = Inr backing"
    and b: "py_index v ''feeCoinId'' = Inr fid" "distinct (map (spend_id api) (coin_spends b))"
      "py_index v ''spendBundleId'' = Inr (JStr (bundle_name api b))"
      "p \<in> set (map (spend_id api) (coin_spends b))" "fid \<in> JStr ` set (map (spend_id api) (coin_spends b))" "fid \<noteq> JStr p"
      "additions api b = Some outs"
    and a: "case fid of
              JStr c \<Rightarrow> amounts_ok api b outs q c (int (nat_of_digits fee)) (int (nat_of_digits backing))
            | _ \<Rightarrow> False"
    unfolding checked_execution_def
    by (auto simp: bind_Inr Let_def split: option.splits)
  from f have "py_index v ''feeMojos'' = Inr (JStr fee)" "py_index v ''backingMojos'' = Inr (JStr backing)"
    "amount_text (JStr fee) = Some fee"
    by (auto simp: canonical_field_def bind_Inr split: option.splits simp del: amount_text.simps
        dest: amount_text_Some amount_text_again)
  moreover from t obtain i where "target = JInt i" by (cases target) auto
  moreover from b(5) obtain c where "fid = JStr c" by auto
  ultimately show ?thesis
    using that t(1) b a by auto
qed

section \<open>Calls\<close>

datatype sw_op =
    Supersede string string rat
  | ReserveFunding string json rat
  | Funding string rat
  | ReserveExecution string json "string option" rat
  | ReservedIds rat
  | RecordPrepared string string string string int string string string rat
  | MarkSubmitted string string string int string string rat
  | MarkConfirmed string rat

fun sw_step :: "chia_api \<Rightarrow> sw_op \<Rightarrow> sw_db \<Rightarrow> sw_db" where
  "sw_step api (Supersede h v t) db = snd (supersede_unsealed_funding h v t db)"
| "sw_step api (ReserveFunding h p t) db = snd (reserve_funding api h p t db)"
| "sw_step api (Funding h t) db = snd (funding api h t db)"
| "sw_step api (ReserveExecution h e f t) db = snd (reserve_execution api h e f t db)"
| "sw_step api (ReservedIds t) db = snd (reserved_input_coin_ids t db)"
| "sw_step api (RecordPrepared h dir v d x p q dest t) db = snd (record_prepared h dir v d x p q dest t db)"
| "sw_step api (MarkSubmitted h tx f g pr ob t) db = snd (mark_submitted h tx f g pr ob t db)"
| "sw_step api (MarkConfirmed h t) db = snd (mark_confirmed h t db)"

text \<open>The documents a caller passes are Python values: no \<open>dict\<close> has a key twice.\<close>

fun sw_op_ok :: "sw_op \<Rightarrow> bool" where
  "sw_op_ok (ReserveExecution h e f t) = json_ok e"
| "sw_op_ok (ReserveFunding h p t) = json_ok p"
| "sw_op_ok _ = True"

fun sw_time :: "sw_op \<Rightarrow> rat" where
  "sw_time (Supersede h v t) = t"
| "sw_time (ReserveFunding h p t) = t"
| "sw_time (Funding h t) = t"
| "sw_time (ReserveExecution h e f t) = t"
| "sw_time (ReservedIds t) = t"
| "sw_time (RecordPrepared h dir v d x p q dest t) = t"
| "sw_time (MarkSubmitted h tx f g pr ob t) = t"
| "sw_time (MarkConfirmed h t) = t"

section \<open>What a call changes\<close>

definition unsealed_reviews :: "sw_execution list \<Rightarrow> sw_review list \<Rightarrow> sw_review list" where
  "unsealed_reviews es rs = filter (\<lambda>f. \<not> sealed es (sf_hash f)) rs"

definition hold_clash :: "sw_review \<Rightarrow> sw_review \<Rightarrow> bool" where
  "hold_clash f f' \<longleftrightarrow> sf_fee_coin f = sf_fee_coin f' \<or> sf_vault f = sf_vault f'"

text \<open>No hold of another operation that is still open at \<open>now\<close> has the coin.\<close>

definition coin_free :: "rat \<Rightarrow> string \<Rightarrow> sw_db \<Rightarrow> string \<Rightarrow> bool" where
  "coin_free now h db c \<longleftrightarrow>
     (\<forall>f \<in> set (reviews db). sf_fee_coin f = c \<longrightarrow> sf_hash f = h \<or> of_int (sf_expires f) \<le> now \<or> sealed (executions db) (sf_hash f))"

inductive sw_change :: "chia_api \<Rightarrow> rat \<Rightarrow> sw_db \<Rightarrow> sw_db \<Rightarrow> bool" for api now where
  pruned: "sw_change api now db (db\<lparr>reviews := filter p (reviews db)\<rparr>)"
| held: "lookup so_hash (sf_hash f) (operations db) = Some r \<Longrightarrow> sf_vault f = so_vault r \<Longrightarrow>
    sf_expires f = so_expires r \<Longrightarrow>
    \<forall>f' \<in> set (unsealed_reviews (executions db) (filter p (reviews db))). \<not> hold_clash f f' \<Longrightarrow>
    \<forall>c \<in> set (claims db). si_coin c \<noteq> sf_fee_coin f \<Longrightarrow>
    sw_change api now db (db\<lparr>reviews := filter p (reviews db) @ [f]\<rparr>)"
| sealing: "lookup so_hash h (operations db) = Some r \<Longrightarrow> json_ok v \<Longrightarrow>
    validate_execution api v (so_pool_input r) (so_pool_output r) = Inr b \<Longrightarrow>
    lookup se_hash h (executions db) = None \<Longrightarrow> so_status r = PREPARED \<Longrightarrow> so_tx r = None \<Longrightarrow>
    \<forall>coin \<in> set (removals api b). coin_free now h db (coin_name api coin) \<Longrightarrow>
    sql_insert_many si_clash
      (map (\<lambda>coin. \<lparr>si_coin = coin_name api coin, si_hash = h\<rparr>) (removals api b)) (claims db) = Some cs \<Longrightarrow>
    sql_update so_clash (\<lambda>r. so_hash r = h) (sealed_row v now) (operations db) = Some ops \<Longrightarrow>
    sw_change api now db
      (db\<lparr>executions := executions db @
            [\<lparr>se_hash = h, se_json = canonical_json v, se_sha = sha256_hex api (canonical_json v)\<rparr>],
          claims := cs, operations := ops\<rparr>)"
| prepared: "sql_insert so_clash r (operations db) = Some ops \<Longrightarrow> so_status r = PREPARED \<Longrightarrow> so_tx r = None \<Longrightarrow>
    sw_change api now db (db\<lparr>operations := ops\<rparr>)"
| submitted: "lookup so_hash h (operations db) = Some r \<Longrightarrow> so_status r = PREPARED \<Longrightarrow>
    so_tx r = None \<or> (so_tx r = Some tx \<and> so_fee r = Some fee \<and> so_target r = Some target) \<Longrightarrow>
    sql_update so_clash (\<lambda>r. so_hash r = h) (submitted_row tx fee target pr ob now) (operations db) = Some ops \<Longrightarrow>
    sw_change api now db (db\<lparr>operations := ops\<rparr>)"
| confirmed: "sql_update so_clash (\<lambda>r. so_hash r = h \<and> confirmable (executions db) r) (confirmed_row now) (operations db) = Some ops \<Longrightarrow>
    cs = (if map_option so_status (lookup so_hash h ops) = Some CONFIRMED
          then filter (\<lambda>c. si_hash c \<noteq> h) (claims db) else claims db) \<Longrightarrow>
    sw_change api now db (db\<lparr>operations := ops, claims := cs\<rparr>)"

lemma sw_idle: "sw_change api now db db"
  using pruned [of api now db "\<lambda>_. True"] by simp

lemma expire_change: "sw_change api now db (expire_funding now db)"
  unfolding expire_funding_def sql_delete_def by (rule pruned)

lemma coin_freeI:
  "\<not> list_ex (\<lambda>f. sf_fee_coin f = c \<and> sf_hash f \<noteq> h \<and> now < of_int (sf_expires f) \<and>
     \<not> sealed (executions db) (sf_hash f)) (reviews db) \<Longrightarrow> coin_free now h db c"
  by (auto simp: coin_free_def list_ex_iff not_less)

lemma reserve_funding_change:
  assumes "reserve_funding_body api h payload review b now db = Inr (u, db')"
  shows "sw_change api now db db'"
proof -
  define p where "p (f :: sw_review) \<longleftrightarrow> \<not> (of_int (sf_expires f) \<le> now \<and> \<not> sealed (executions db) (sf_hash f))" for f
  have e: "expire_funding now db = db\<lparr>reviews := filter p (reviews db)\<rparr>"
    by (simp add: expire_funding_def sql_delete_def p_def [abs_def])
  from assms obtain r where r: "lookup so_hash h (operations db) = Some r"
    by (auto simp: reserve_funding_body_def e Let_def split: option.splits)
  show ?thesis
  proof (cases "lookup sf_hash h (filter p (reviews db))")
    case (Some old)
    with assms r have "db' = expire_funding now db"
      by (simp add: reserve_funding_body_def Let_def e)
    then show ?thesis by (simp add: expire_change)
  next
    case None
    define f where "f = \<lparr>sf_hash = h, sf_vault = so_vault r, sf_fee_coin = spend_id api (coin_spends b ! 0),
        sf_expires = so_expires r, sf_json = canonical_json payload, sf_sha = digest api payload\<rparr>"
    from assms r None have
      g: "\<not> list_ex (\<lambda>f'. (sf_fee_coin f' = sf_fee_coin f \<or> sf_vault f' = so_vault r) \<and>
              \<not> sealed (executions db) (sf_hash f')) (filter p (reviews db))"
      and c: "lookup si_coin (sf_fee_coin f) (claims db) = None"
      and i: "sql_insert sf_clash f (filter p (reviews db)) \<noteq> None"
      and d: "db' = db\<lparr>reviews := the (sql_insert sf_clash f (filter p (reviews db)))\<rparr>"
      by (auto simp: reserve_funding_body_def Let_def e f_def split: option.splits)
    then obtain rs where "sql_insert sf_clash f (filter p (reviews db)) = Some rs" by blast
    with d have d': "db' = db\<lparr>reviews := filter p (reviews db) @ [f]\<rparr>"
      by (simp add: sql_insert_Some)
    show ?thesis
      unfolding d'
    proof (rule held)
      show "lookup so_hash (sf_hash f) (operations db) = Some r" using r by (simp add: f_def)
      show "sf_vault f = so_vault r" "sf_expires f = so_expires r" by (simp_all add: f_def)
      show "\<forall>f' \<in> set (unsealed_reviews (executions db) (filter p (reviews db))). \<not> hold_clash f f'"
        using g by (auto simp: list_ex_iff unsealed_reviews_def hold_clash_def f_def)
      show "\<forall>x \<in> set (claims db). si_coin x \<noteq> sf_fee_coin f"
        using c by (auto dest: lookup_None_D)
    qed
  qed
qed

lemma reserve_execution_change:
  assumes "json_ok v" and "reserve_execution_body api h v fh now db = Inr (u, db')"
  shows "sw_change api now db db'"
proof -
  from assms(2) obtain r b where r: "lookup so_hash h (operations db) = Some r"
    and b: "validate_execution api v (so_pool_input r) (so_pool_output r) = Inr b"
    by (auto simp: reserve_execution_body_def Let_def bind_Inr split: option.splits)
  show ?thesis
  proof (cases "lookup se_hash h (executions db)")
    case (Some old)
    with assms r b have "db' = db" by (simp add: reserve_execution_body_def Let_def)
    then show ?thesis by (simp add: sw_idle)
  next
    case None
    with assms r b have g: "so_status r = PREPARED" "so_tx r = None" "seal api h v b now db = Inr (u, db')"
      by (auto simp: reserve_execution_body_def Let_def bind_Inr)
    let ?e = "\<lparr>se_hash = h, se_json = canonical_json v, se_sha = sha256_hex api (canonical_json v)\<rparr>"
    from g(3) obtain es cs ops where
      n: "\<not> list_ex (\<lambda>coin. list_ex (\<lambda>f. sf_fee_coin f = coin_name api coin \<and> sf_hash f \<noteq> h \<and>
            now < of_int (sf_expires f) \<and> \<not> sealed (executions db) (sf_hash f)) (reviews db)) (removals api b)"
      and es: "sql_insert se_clash ?e (executions db) = Some es"
      and cs: "sql_insert_many si_clash
        (map (\<lambda>coin. \<lparr>si_coin = coin_name api coin, si_hash = h\<rparr>) (removals api b)) (claims db) = Some cs"
      and ops: "sql_update so_clash (\<lambda>r. so_hash r = h) (sealed_row v now) (operations db) = Some ops"
      and d: "db' = db\<lparr>executions := es, claims := cs, operations := ops\<rparr>"
      by (auto simp: seal_def split: option.splits)
    have "\<forall>coin \<in> set (removals api b). coin_free now h db (coin_name api coin)"
      using n unfolding list_ex_iff [of _ "removals api b"] by (intro ballI coin_freeI) blast
    then have "sw_change api now db (db\<lparr>executions := executions db @ [?e], claims := cs, operations := ops\<rparr>)"
      by (rule sealing [OF r assms(1) b None g(1,2) _ cs ops])
    moreover have "es = executions db @ [?e]" using es by (simp add: sql_insert_Some)
    ultimately show ?thesis using d by simp
  qed
qed

lemma mark_submitted_change:
  assumes "mark_submitted_body h tx fee target pr ob now db = Inr (u, db')"
  shows "sw_change api now db db'"
proof -
  from assms obtain r where r: "lookup so_hash h (operations db) = Some r"
    by (auto simp: mark_submitted_body_def split: option.splits)
  show ?thesis
  proof (cases "so_status r = PREPARED")
    case True
    with assms r obtain ops where
      "sql_update so_clash (\<lambda>r. so_hash r = h) (submitted_row tx fee target pr ob now) (operations db) = Some ops"
      and "db' = db\<lparr>operations := ops\<rparr>"
      and "so_tx r = None \<or> (so_tx r = Some tx \<and> so_fee r = Some fee \<and> so_target r = Some target)"
      by (auto simp: mark_submitted_body_def split: option.splits)
    with submitted [OF r True] show ?thesis by blast
  next
    case False
    with assms r have "db' = db"
      by (auto simp: mark_submitted_body_def split: if_splits)
    then show ?thesis by (simp add: sw_idle)
  qed
qed

lemma sw_step_change:
  assumes "sw_op_ok op"
  shows "sw_change api (sw_time op) db (sw_step api op db)"
proof (cases op)
  case (Supersede h v t)
  have "sw_change api t db (snd (txn (supersede_body h v t) db))"
  proof (rule txn_keeps)
    fix a db' assume "supersede_body h v t db = Inr (a, db')"
    then show "sw_change api t db db'"
      by (auto simp: supersede_body_def Let_def sql_delete_def split: option.splits if_splits intro!: pruned)
  qed (rule sw_idle)
  with Supersede show ?thesis by (simp add: supersede_unsealed_funding_def)
next
  case (ReserveFunding h p t)
  show ?thesis
  proof (cases "bind (validate_private_hold api p) (\<lambda>bundle. bind (py_index p ''review'') (\<lambda>review. Inr (bundle, review)))")
    case (Inr br)
    obtain b review where br: "br = (b, review)" by (cases br)
    have "sw_change api t db (snd (txn (reserve_funding_body api h p review b t) db))"
      by (rule txn_keeps [OF sw_idle reserve_funding_change])
    with ReserveFunding Inr br show ?thesis by (simp add: reserve_funding_def)
  qed (simp add: ReserveFunding reserve_funding_def sw_idle)
next
  case (Funding h t)
  then show ?thesis by (simp add: funding_def txn_then_state txn_state Let_def expire_change)
next
  case (ReserveExecution h v f t)
  then have "sw_change api t db (snd (txn (reserve_execution_body api h v f t) db))"
    using assms by (intro txn_keeps [OF sw_idle reserve_execution_change]) simp_all
  with ReserveExecution show ?thesis by (simp add: reserve_execution_def)
next
  case (ReservedIds t)
  then show ?thesis by (simp add: reserved_input_coin_ids_def txn_state Let_def expire_change)
next
  case (RecordPrepared h dir v d x p q dest t)
  have "sw_change api t db (snd (txn (record_prepared_body h dir v d x p q dest t) db))"
  proof (rule txn_keeps)
    fix a db' assume "record_prepared_body h dir v d x p q dest t db = Inr (a, db')"
    then show "sw_change api t db db'"
      by (auto simp: record_prepared_body_def Let_def split: option.splits intro: sw_idle intro!: prepared)
  qed (rule sw_idle)
  with RecordPrepared show ?thesis by (simp add: record_prepared_def)
next
  case (MarkSubmitted h tx f g pr ob t)
  have "sw_change api t db (snd (txn (mark_submitted_body h tx f g pr ob t) db))"
    by (rule txn_keeps [OF sw_idle mark_submitted_change])
  with MarkSubmitted show ?thesis by (simp add: mark_submitted_def)
next
  case (MarkConfirmed h t)
  have "sw_change api t db (snd (txn_then (mark_confirmed_body h t) (\<lambda>row _. case row of
        None \<Rightarrow> Inl (ValueError ''Sols swap operation does not exist'')
      | Some r \<Rightarrow> Inr (sw_record r)) db))"
  proof (rule txn_then_keeps)
    fix a db' assume "mark_confirmed_body h t db = Inr (a, db')"
    then show "sw_change api t db db'"
      by (auto simp: mark_confirmed_body_def Let_def sql_delete_def split: option.splits intro!: confirmed)
  qed (rule sw_idle)
  with MarkConfirmed show ?thesis by (simp add: mark_confirmed_def)
qed

section \<open>Operations only move forward\<close>

fun swap_rank :: "swap_status \<Rightarrow> nat" where
  "swap_rank PREPARED = 0"
| "swap_rank SUBMITTED = 1"
| "swap_rank CONFIRMED = 2"
| "swap_rank FAILED = 3"

definition swap_evolves :: "sw_row \<Rightarrow> sw_row \<Rightarrow> bool" where
  "swap_evolves r r' \<longleftrightarrow>
     so_hash r' = so_hash r \<and> so_direction r' = so_direction r \<and> so_vault r' = so_vault r \<and> so_deed r' = so_deed r \<and>
     so_expires r' = so_expires r \<and> so_pool_input r' = so_pool_input r \<and> so_pool_output r' = so_pool_output r \<and>
     so_destination r' = so_destination r \<and> so_created r' = so_created r \<and>
     swap_rank (so_status r) \<le> swap_rank (so_status r') \<and> (so_status r = CONFIRMED \<longrightarrow> so_status r' = CONFIRMED) \<and>
     (so_tx r \<noteq> None \<longrightarrow> so_tx r' = so_tx r \<and> so_fee r' = so_fee r \<and> so_target r' = so_target r)"

definition ops_evolve :: "sw_row list \<Rightarrow> sw_row list \<Rightarrow> bool" where
  "ops_evolve os os' \<longleftrightarrow>
     (\<forall>h r. lookup so_hash h os = Some r \<longrightarrow> (\<exists>r'. lookup so_hash h os' = Some r' \<and> swap_evolves r r'))"

lemma swap_evolves_refl [simp]: "swap_evolves r r"
  by (simp add: swap_evolves_def)

lemma swap_evolves_trans: "swap_evolves a b \<Longrightarrow> swap_evolves b c \<Longrightarrow> swap_evolves a c"
  by (simp add: swap_evolves_def)

lemma ops_evolve_refl [simp]: "ops_evolve os os"
  by (simp add: ops_evolve_def)

lemma ops_evolve_trans: "ops_evolve a b \<Longrightarrow> ops_evolve b c \<Longrightarrow> ops_evolve a c"
  unfolding ops_evolve_def by (meson swap_evolves_trans)

lemma ops_evolveD:
  assumes "ops_evolve os os'" and "lookup so_hash h os = Some r"
  obtains r' where "lookup so_hash h os' = Some r'" and "swap_evolves r r'"
  using assms unfolding ops_evolve_def by blast

lemma ops_evolve_map:
  assumes "\<And>r. r \<in> set os \<Longrightarrow> swap_evolves r (g r)"
  shows "ops_evolve os (map g os)"
proof -
  have "lookup so_hash h (map g os) = map_option g (lookup so_hash h os)" for h
    using assms by (induction os) (auto simp: swap_evolves_def)
  with assms show ?thesis by (auto simp: ops_evolve_def dest: lookup_Some_D)
qed

lemma ops_evolve_update:
  assumes "sql_update so_clash p f os = Some os'"
    and "\<And>r. r \<in> set os \<Longrightarrow> p r \<Longrightarrow> swap_evolves r (f r)"
  shows "ops_evolve os os'"
  using assms by (auto simp: sql_update_Some intro!: ops_evolve_map)

lemma so_unique:
  "table_ok so_clash os \<Longrightarrow> lookup so_hash h os = Some r \<Longrightarrow> x \<in> set os \<Longrightarrow> so_hash x = h \<Longrightarrow> x = r"
  using so.lookup_mem by fastforce

lemma sw_change_ops:
  assumes "sw_change api now db db'" and "table_ok so_clash (operations db)"
  shows "ops_evolve (operations db) (operations db')" and "table_ok so_clash (operations db')"
proof -
  have "ops_evolve (operations db) (operations db') \<and> table_ok so_clash (operations db')"
    using assms
  proof (induction rule: sw_change.induct)
    case (sealing h db r v b cs ops)
    have "ops_evolve (operations db) ops"
    proof (rule ops_evolve_update [OF sealing.hyps(9)])
      fix x assume "x \<in> set (operations db)" "so_hash x = h"
      then have "x = r" using so_unique [OF sealing.prems sealing.hyps(1)] by simp
      with sealing.hyps show "swap_evolves x (sealed_row v now x)" by (simp add: swap_evolves_def sealed_row_def)
    qed
    then show ?case using sealing so.ok_update by simp
  next
    case (prepared r db ops)
    then show ?case
      by (auto simp: ops_evolve_def intro: so.ok_insert dest: so.lookup_insert_old intro!: exI)
  next
    case (submitted h db r tx fee target pr ob ops)
    have "ops_evolve (operations db) ops"
    proof (rule ops_evolve_update [OF submitted.hyps(4)])
      fix x assume "x \<in> set (operations db)" "so_hash x = h"
      then have "x = r" using so_unique [OF submitted.prems submitted.hyps(1)] by simp
      with submitted.hyps show "swap_evolves x (submitted_row tx fee target pr ob now x)"
        by (auto simp: swap_evolves_def submitted_row_def)
    qed
    then show ?case using submitted so.ok_update by simp
  next
    case (confirmed h db ops cs)
    have "ops_evolve (operations db) ops"
      by (rule ops_evolve_update [OF confirmed.hyps(1)])
        (auto simp: swap_evolves_def confirmed_row_def confirmable_def)
    then show ?case using confirmed so.ok_update by simp
  qed simp_all
  then show "ops_evolve (operations db) (operations db')" "table_ok so_clash (operations db')" by simp_all
qed

lemma sw_change_executions: "sw_change api now db db' \<Longrightarrow> prefix (executions db) (executions db')"
  by (induction rule: sw_change.induct) simp_all

section \<open>The invariant\<close>

text \<open>The bundle of a sealed execution, decoded from the stored text.\<close>

definition sealed_bundle :: "chia_api \<Rightarrow> sw_row list \<Rightarrow> sw_execution \<Rightarrow> spend_bundle option" where
  "sealed_bundle api os e =
     (case lookup so_hash (se_hash e) os of
        None \<Rightarrow> None
      | Some r \<Rightarrow>
          (case bind (py_loads (se_json e)) (\<lambda>v. validate_execution api v (so_pool_input r) (so_pool_output r)) of
             Inl _ \<Rightarrow> None
           | Inr b \<Rightarrow> Some b))"

definition sealed_exact :: "chia_api \<Rightarrow> sw_row list \<Rightarrow> sw_execution \<Rightarrow> bool" where
  "sealed_exact api os e \<longleftrightarrow>
     (\<exists>r v b. lookup so_hash (se_hash e) os = Some r \<and> json_ok v \<and> se_json e = canonical_json v \<and>
        se_sha e = sha256_hex api (canonical_json v) \<and>
        validate_execution api v (so_pool_input r) (so_pool_output r) = Inr b \<and>
        so_tx r = str_item v ''spendBundleId'' \<and> so_fee r = str_item v ''feeMojos'' \<and>
        so_target r = int_item v ''feeTargetSeconds'')"

lemma validated_items:
  assumes "validate_execution api v p q = Inr b"
  shows "str_item v ''spendBundleId'' = Some (bundle_name api b)"
    and "\<exists>fee. str_item v ''feeMojos'' = Some fee \<and> py_index v ''feeMojos'' = Inr (JStr fee)"
    and "\<exists>t. int_item v ''feeTargetSeconds'' = Some t \<and> py_index v ''feeTargetSeconds'' = Inr (JInt t)"
  using assms by (auto simp: str_item_def int_item_def elim!: validate_executionD)

lemma sealed_bundle_exact:
  assumes "order_free api" and "lookup so_hash (se_hash e) os = Some r" and "json_ok v" and "se_json e = canonical_json v"
    and "validate_execution api v (so_pool_input r) (so_pool_output r) = Inr b"
  shows "sealed_bundle api os e = Some b"
  using assms by (simp add: sealed_bundle_def py_loads_canonical validate_execution_canon)

lemma sealed_bundle_evolve:
  assumes "ops_evolve os os'" and "sealed_exact api os e"
  shows "sealed_bundle api os' e = sealed_bundle api os e"
proof -
  from assms(2) obtain r where r: "lookup so_hash (se_hash e) os = Some r" by (auto simp: sealed_exact_def)
  from ops_evolveD [OF assms(1) r] show ?thesis
    using r by (force simp: sealed_bundle_def swap_evolves_def)
qed

lemma sealed_exact_evolve:
  assumes "ops_evolve os os'" and "sealed_exact api os e"
  shows "sealed_exact api os' e"
proof -
  from assms(2) obtain r v b where
    r: "lookup so_hash (se_hash e) os = Some r" and
    s: "json_ok v" "se_json e = canonical_json v" "se_sha e = sha256_hex api (canonical_json v)"
      "validate_execution api v (so_pool_input r) (so_pool_output r) = Inr b"
      "so_tx r = str_item v ''spendBundleId''" "so_fee r = str_item v ''feeMojos''"
      "so_target r = int_item v ''feeTargetSeconds''"
    by (auto simp: sealed_exact_def)
  from ops_evolveD [OF assms(1) r] obtain r' where r': "lookup so_hash (se_hash e) os' = Some r'" "swap_evolves r r'" .
  from validated_items(1) [OF s(4)] s(5) have "so_tx r \<noteq> None" by simp
  with r'(2) s have "validate_execution api v (so_pool_input r') (so_pool_output r') = Inr b"
    "so_tx r' = str_item v ''spendBundleId''" "so_fee r' = str_item v ''feeMojos''"
    "so_target r' = int_item v ''feeTargetSeconds''"
    by (simp_all add: swap_evolves_def)
  with s r'(1) show ?thesis by (auto simp: sealed_exact_def)
qed

text \<open>While its operation is not confirmed, an execution holds a claim on every coin it spends.\<close>

definition inputs_claimed :: "chia_api \<Rightarrow> sw_row list \<Rightarrow> sw_claim list \<Rightarrow> sw_execution \<Rightarrow> bool" where
  "inputs_claimed api os cs e \<longleftrightarrow>
     (\<forall>r b. lookup so_hash (se_hash e) os = Some r \<longrightarrow> so_status r \<noteq> CONFIRMED \<longrightarrow> sealed_bundle api os e = Some b \<longrightarrow>
        (\<forall>coin \<in> set (removals api b). \<exists>c \<in> set cs. si_coin c = coin_name api coin \<and> si_hash c = se_hash e))"

text \<open>Every claim belongs to an execution that spends the coin and is not confirmed.\<close>

definition claim_backed :: "chia_api \<Rightarrow> sw_row list \<Rightarrow> sw_execution list \<Rightarrow> sw_claim \<Rightarrow> bool" where
  "claim_backed api os es c \<longleftrightarrow>
     (\<exists>e \<in> set es. \<exists>r b. se_hash e = si_hash c \<and> lookup so_hash (si_hash c) os = Some r \<and> so_status r \<noteq> CONFIRMED \<and>
        sealed_bundle api os e = Some b \<and> si_coin c \<in> coin_name api ` set (removals api b))"

definition sw_inv :: "chia_api \<Rightarrow> sw_db \<Rightarrow> bool" where
  "sw_inv api db \<longleftrightarrow>
     table_ok so_clash (operations db) \<and> table_ok se_clash (executions db) \<and> table_ok si_clash (claims db) \<and>
     list_all (sealed_exact api (operations db)) (executions db) \<and>
     list_all (inputs_claimed api (operations db) (claims db)) (executions db) \<and>
     list_all (claim_backed api (operations db) (executions db)) (claims db) \<and>
     table_ok hold_clash (unsealed_reviews (executions db) (reviews db))"

lemma sw_invD:
  assumes "sw_inv api db"
  shows "table_ok so_clash (operations db)" "table_ok se_clash (executions db)" "table_ok si_clash (claims db)"
    and "e \<in> set (executions db) \<Longrightarrow> sealed_exact api (operations db) e"
    and "e \<in> set (executions db) \<Longrightarrow> inputs_claimed api (operations db) (claims db) e"
    and "c \<in> set (claims db) \<Longrightarrow> claim_backed api (operations db) (executions db) c"
    and "table_ok hold_clash (unsealed_reviews (executions db) (reviews db))"
  using assms by (simp_all add: sw_inv_def list_all_iff)

lemma sw_inv_empty: "sw_inv api empty_sw_db"
  by (simp add: sw_inv_def empty_sw_db_def unsealed_reviews_def)

lemma swap_evolves_status: "swap_evolves r r' \<Longrightarrow> so_status r' \<noteq> CONFIRMED \<Longrightarrow> so_status r \<noteq> CONFIRMED"
  by (simp add: swap_evolves_def)

lemma inputs_claimed_frame:
  assumes "inputs_claimed api os cs e" and "sealed_exact api os e" and "ops_evolve os os'"
    and "\<And>r' c. lookup so_hash (se_hash e) os' = Some r' \<Longrightarrow> so_status r' \<noteq> CONFIRMED \<Longrightarrow>
       c \<in> set cs \<Longrightarrow> si_hash c = se_hash e \<Longrightarrow> c \<in> set cs'"
  shows "inputs_claimed api os' cs' e"
  unfolding inputs_claimed_def
proof (intro allI impI ballI)
  fix r' b coin
  assume r': "lookup so_hash (se_hash e) os' = Some r'" "so_status r' \<noteq> CONFIRMED"
    and b: "sealed_bundle api os' e = Some b" and coin: "coin \<in> set (removals api b)"
  from assms(2) obtain r where r: "lookup so_hash (se_hash e) os = Some r" by (auto simp: sealed_exact_def)
  then have "swap_evolves r r'" using ops_evolveD [OF assms(3) r] r'(1) by force
  then have "so_status r \<noteq> CONFIRMED" using r'(2) by (rule swap_evolves_status)
  moreover have "sealed_bundle api os e = Some b" using b sealed_bundle_evolve [OF assms(3,2)] by simp
  ultimately obtain c where "c \<in> set cs" "si_coin c = coin_name api coin" "si_hash c = se_hash e"
    using assms(1) r coin unfolding inputs_claimed_def by blast
  with assms(4) [OF r'] show "\<exists>c \<in> set cs'. si_coin c = coin_name api coin \<and> si_hash c = se_hash e" by blast
qed

lemma claim_backed_frame:
  assumes "claim_backed api os es c" and "list_all (sealed_exact api os) es" and "ops_evolve os os'"
    and "set es \<subseteq> set es'"
    and "\<And>r'. lookup so_hash (si_hash c) os' = Some r' \<Longrightarrow> so_status r' \<noteq> CONFIRMED"
  shows "claim_backed api os' es' c"
proof -
  from assms(1) obtain e r b where
    e: "e \<in> set es" "se_hash e = si_hash c" "lookup so_hash (si_hash c) os = Some r"
      "sealed_bundle api os e = Some b" "si_coin c \<in> coin_name api ` set (removals api b)"
    unfolding claim_backed_def by blast
  from ops_evolveD [OF assms(3) e(3)] obtain r' where r': "lookup so_hash (si_hash c) os' = Some r'" .
  from assms(2) e(1) have "sealed_bundle api os' e = Some b"
    using sealed_bundle_evolve [OF assms(3)] e(4) by (simp add: list_all_iff)
  with e r' assms(4,5) show ?thesis unfolding claim_backed_def by blast
qed

interpretation hc: sql_table hold_clash
  by unfold_locales (auto simp: hold_clash_def)

lemma unsealed_filter: "unsealed_reviews es (filter p rs) = filter p (unsealed_reviews es rs)"
  by (simp add: unsealed_reviews_def conj_commute)

lemma holds_append:
  "table_ok hold_clash (unsealed_reviews es rs) \<Longrightarrow> \<forall>f' \<in> set (unsealed_reviews es rs). \<not> hold_clash f f' \<Longrightarrow>
   table_ok hold_clash (unsealed_reviews es (rs @ [f]))"
  using hc.ok_insert [of "unsealed_reviews es rs" f "unsealed_reviews es rs @ [f]"]
  by (simp add: unsealed_reviews_def sql_insert_Some)

lemma unsealed_more: "unsealed_reviews (es @ es') rs = filter (\<lambda>f. \<not> sealed es' (sf_hash f)) (unsealed_reviews es rs)"
  by (simp add: unsealed_reviews_def sealed_def conj_commute)

lemma sealed_not_h:
  "lookup se_hash h es = None \<Longrightarrow> e \<in> set es \<Longrightarrow> se_hash e \<noteq> h"
  by (auto dest: lookup_None_D)

lemma lookup_confirmed:
  "lookup so_hash k (map (\<lambda>r. if so_hash r = h \<and> P r then confirmed_row now r else r) rs)
     = map_option (\<lambda>r. if k = h \<and> P r then confirmed_row now r else r) (lookup so_hash k rs)"
  by (induction rs) (auto simp: confirmed_row_def)

lemma sw_change_inv:
  assumes "order_free api" and "sw_inv api db" and "sw_change api now db db'"
  shows "sw_inv api db'"
proof -
  note inv = sw_invD [OF assms(2)]
  note ops = sw_change_ops [OF assms(3) inv(1)]
  have all: "list_all (sealed_exact api (operations db)) (executions db)" using inv(4) by (simp add: list_all_iff)
  have old: "list_all (sealed_exact api (operations db')) (executions db)"
    using inv(4) sealed_exact_evolve [OF ops(1)] by (simp add: list_all_iff)
  show ?thesis
    using assms(3)
  proof (cases rule: sw_change.cases)
    case (pruned p)
    then show ?thesis using assms(2) by (simp add: sw_inv_def unsealed_filter table_ok_filter)
  next
    case (held f r p)
    then show ?thesis using assms(2)
      by (simp add: sw_inv_def holds_append unsealed_filter table_ok_filter)
  next
    case (sealing h r v b cs os)
    let ?e = "\<lparr>se_hash = h, se_json = canonical_json v, se_sha = sha256_hex api (canonical_json v)\<rparr>"
    let ?new = "map (\<lambda>coin. \<lparr>si_coin = coin_name api coin, si_hash = h\<rparr>) (removals api b)"
    have cs: "cs = claims db @ ?new" using sealing(9) by (rule sql_insert_many_Some)
    have upd: "lookup so_hash k os = (if k = h then map_option (sealed_row v now) (lookup so_hash h (operations db))
        else lookup so_hash k (operations db))" for k
      using so.lookup_update [OF sealing(10)] by (simp add: sealed_row_def)
    have h: "lookup so_hash h os = Some (sealed_row v now r)" using upd sealing(2) by simp
    have sb: "sealed_bundle api os ?e = Some b"
      by (rule sealed_bundle_exact [OF assms(1), where r = "sealed_row v now r" and v = v]) (use sealing h in \<open>simp_all add: sealed_row_def\<close>)
    have new: "sealed_exact api os ?e"
      unfolding sealed_exact_def using sealing h
      by (intro exI [of _ "sealed_row v now r"] exI [of _ v] exI [of _ b]) (simp add: sealed_row_def)
    have "table_ok se_clash (executions db @ [?e])"
      using sealing(5) inv(2) by (intro se.ok_insert [OF inv(2)]) (auto simp: sql_insert_Some se_clash_def dest: lookup_None_D)
    moreover have "list_all (inputs_claimed api os cs) (executions db @ [?e])"
    proof -
      have "inputs_claimed api os cs e" if e: "e \<in> set (executions db)" for e
        by (rule inputs_claimed_frame [OF inv(5) [OF e] inv(4) [OF e]]) (use ops(1) sealing(1) cs in simp_all)
      moreover have "inputs_claimed api os cs ?e"
      proof -
        have "\<exists>c \<in> set cs. si_coin c = coin_name api coin \<and> si_hash c = h" if "coin \<in> set (removals api b)" for coin
          by (rule bexI [of _ "\<lparr>si_coin = coin_name api coin, si_hash = h\<rparr>"]) (use that in \<open>simp_all add: cs\<close>)
        with sb show ?thesis by (simp add: inputs_claimed_def)
      qed
      ultimately show ?thesis by (simp add: list_all_iff)
    qed
    moreover have "list_all (claim_backed api os (executions db @ [?e])) cs"
    proof -
      have "claim_backed api os (executions db @ [?e]) c" if c: "c \<in> set (claims db)" for c
      proof (rule claim_backed_frame [OF inv(6) [OF c] all])
        fix r' assume r': "lookup so_hash (si_hash c) os = Some r'"
        from inv(6) [OF c] obtain e r0 where e: "e \<in> set (executions db)" "se_hash e = si_hash c"
          "lookup so_hash (si_hash c) (operations db) = Some r0" "so_status r0 \<noteq> CONFIRMED"
          unfolding claim_backed_def by blast
        have "si_hash c \<noteq> h" using sealed_not_h [OF sealing(5) e(1)] e(2) by simp
        with r' e upd show "so_status r' \<noteq> CONFIRMED" by simp
      qed (use ops(1) sealing(1) in auto)
      moreover have "claim_backed api os (executions db @ [?e]) c" if "c \<in> set ?new" for c
        using that sb h sealing(6) unfolding claim_backed_def
        by (intro bexI [of _ ?e] exI [of _ "sealed_row v now r"] exI [of _ b]) (auto simp: sealed_row_def)
      ultimately show ?thesis by (auto simp: list_all_iff cs)
    qed
    ultimately show ?thesis
      using sealing(1) ops old new si.ok_insert_many [OF inv(3) sealing(9)] inv(7)
      by (simp add: sw_inv_def unsealed_more table_ok_filter)
  next
    case (prepared r os)
    have claimed: "list_all (inputs_claimed api os (claims db)) (executions db)"
      unfolding list_all_iff
    proof
      fix e assume e: "e \<in> set (executions db)"
      show "inputs_claimed api os (claims db) e"
        by (rule inputs_claimed_frame [OF inv(5) [OF e] inv(4) [OF e]]) (use ops(1) prepared(1) in simp_all)
    qed
    have backed: "list_all (claim_backed api os (executions db)) (claims db)"
      unfolding list_all_iff
    proof
      fix c assume c: "c \<in> set (claims db)"
      show "claim_backed api os (executions db) c"
      proof (rule claim_backed_frame [OF inv(6) [OF c] all])
        fix r' assume "lookup so_hash (si_hash c) os = Some r'"
        with inv(6) [OF c] show "so_status r' \<noteq> CONFIRMED"
          unfolding claim_backed_def using so.lookup_insert_old [OF prepared(2)] by fastforce
      qed (use ops(1) prepared(1) in auto)
    qed
    show ?thesis using prepared(1) ops old claimed backed inv(2,3,7) by (simp add: sw_inv_def)
  next
    case (submitted h r tx fee target pr ob os)
    have upd: "lookup so_hash k os = (if k = h then map_option (submitted_row tx fee target pr ob now) (lookup so_hash h (operations db))
        else lookup so_hash k (operations db))" for k
      using so.lookup_update [OF submitted(5)] by (simp add: submitted_row_def)
    have claimed: "list_all (inputs_claimed api os (claims db)) (executions db)"
      unfolding list_all_iff
    proof
      fix e assume e: "e \<in> set (executions db)"
      show "inputs_claimed api os (claims db) e"
        by (rule inputs_claimed_frame [OF inv(5) [OF e] inv(4) [OF e]]) (use ops(1) submitted(1) in simp_all)
    qed
    have backed: "list_all (claim_backed api os (executions db)) (claims db)"
      unfolding list_all_iff
    proof
      fix c assume c: "c \<in> set (claims db)"
      show "claim_backed api os (executions db) c"
      proof (rule claim_backed_frame [OF inv(6) [OF c] all])
        fix r' assume "lookup so_hash (si_hash c) os = Some r'"
        with inv(6) [OF c] upd submitted(2) show "so_status r' \<noteq> CONFIRMED"
          unfolding claim_backed_def by (auto simp: submitted_row_def split: if_splits)
      qed (use ops(1) submitted(1) in auto)
    qed
    show ?thesis using submitted(1) ops old claimed backed inv(2,3,7) by (simp add: sw_inv_def)
  next
    case (confirmed h os cs)
    have upd: "lookup so_hash k os = map_option (\<lambda>r. if k = h \<and> confirmable (executions db) r then confirmed_row now r else r)
        (lookup so_hash k (operations db))" for k
    proof -
      have os: "os = map (\<lambda>r. if so_hash r = h \<and> confirmable (executions db) r then confirmed_row now r else r) (operations db)"
        using confirmed(2) by (simp add: sql_update_Some)
      show ?thesis unfolding os by (rule lookup_confirmed)
    qed
    have sub: "c \<in> set cs \<Longrightarrow> c \<in> set (claims db)" for c using confirmed(3) by (auto split: if_splits)
    have claimed: "list_all (inputs_claimed api os cs) (executions db)"
      unfolding list_all_iff
    proof
      fix e assume e: "e \<in> set (executions db)"
      show "inputs_claimed api os cs e"
        by (rule inputs_claimed_frame [OF inv(5) [OF e] inv(4) [OF e]])
          (use ops(1) confirmed in \<open>auto split: if_splits\<close>)
    qed
    have backed: "list_all (claim_backed api os (executions db)) cs"
      unfolding list_all_iff
    proof
      fix c assume c: "c \<in> set cs"
      show "claim_backed api os (executions db) c"
      proof (rule claim_backed_frame [OF inv(6) [OF sub [OF c]] all])
        fix r' assume r': "lookup so_hash (si_hash c) os = Some r'"
        show "so_status r' \<noteq> CONFIRMED"
        proof (cases "si_hash c = h")
          case True
          with c r' confirmed(3) show ?thesis by (auto split: if_splits)
        next
          case False
          with r' upd have "lookup so_hash (si_hash c) (operations db) = Some r'" by auto
          with inv(6) [OF sub [OF c]] show ?thesis unfolding claim_backed_def by auto
        qed
      qed (use ops(1) confirmed(1) in auto)
    qed
    have "table_ok si_clash cs" using confirmed(3) inv(3) by (simp add: table_ok_filter)
    then show ?thesis using confirmed(1) ops old claimed backed inv(2,7) by (simp add: sw_inv_def)
  qed
qed

interpretation sw: store "sw_step api" "\<lambda>db. order_free api \<and> sw_inv api db" sw_op_ok for api
  by unfold_locales (blast intro: sw_change_inv sw_step_change)

lemma sw_run_inv:
  "order_free api \<Longrightarrow> sw_inv api db \<Longrightarrow> list_all sw_op_ok ops \<Longrightarrow> sw_inv api (run (sw_step api) ops db)"
  using sw.run_inv [of api db ops] by simp

definition sw_evolves :: "sw_db \<Rightarrow> sw_db \<Rightarrow> bool" where
  "sw_evolves db db' \<longleftrightarrow> ops_evolve (operations db) (operations db') \<and> prefix (executions db) (executions db')"

lemma sw_run_evolves:
  assumes "order_free api" and "sw_inv api db" and "list_all sw_op_ok ops"
  shows "sw_evolves db (run (sw_step api) ops db)"
proof (rule sw.run_mono [where api = api and R = sw_evolves])
  show "sw_evolves db (sw_step api op db)" if "order_free api \<and> sw_inv api db" and "sw_op_ok op" for op db
    using sw_step_change [OF that(2), of api db] sw_invD(1) that(1)
    by (auto simp: sw_evolves_def dest: sw_change_ops sw_change_executions)
  show "reflp sw_evolves" by (simp add: reflp_def sw_evolves_def)
  show "transp sw_evolves"
    unfolding transp_def sw_evolves_def by (blast intro: ops_evolve_trans prefix_order.trans)
qed (use assms in auto)

section \<open>Live holds keep their coins\<close>

definition holds_live :: "rat \<Rightarrow> sw_db \<Rightarrow> bool" where
  "holds_live now db \<longleftrightarrow>
     (\<forall>f \<in> set (unsealed_reviews (executions db) (reviews db)).
        now < of_int (sf_expires f) \<longrightarrow> sf_fee_coin f \<notin> si_coin ` set (claims db))"

lemma holds_live_later: "holds_live t db \<Longrightarrow> t \<le> t' \<Longrightarrow> holds_live t' db"
  by (force simp: holds_live_def)

lemma holds_liveI:
  "(\<And>f. f \<in> set (reviews db) \<Longrightarrow> \<not> sealed (executions db) (sf_hash f) \<Longrightarrow> now < of_int (sf_expires f) \<Longrightarrow>
      sf_fee_coin f \<notin> si_coin ` set (claims db)) \<Longrightarrow> holds_live now db"
  by (simp add: holds_live_def unsealed_reviews_def)

lemma holds_liveD:
  "holds_live now db \<Longrightarrow> f \<in> set (reviews db) \<Longrightarrow> \<not> sealed (executions db) (sf_hash f) \<Longrightarrow>
   now < of_int (sf_expires f) \<Longrightarrow> sf_fee_coin f \<notin> si_coin ` set (claims db)"
  by (simp add: holds_live_def unsealed_reviews_def)

lemma sw_change_live:
  assumes "sw_change api now db db'" and "holds_live now db"
  shows "holds_live now db'"
  using assms(1)
proof (cases rule: sw_change.cases)
  case (pruned p)
  show ?thesis
    unfolding pruned by (rule holds_liveI) (use holds_liveD [OF assms(2)] in simp)
next
  case (held f r p)
  show ?thesis
    unfolding held(1) by (rule holds_liveI) (use holds_liveD [OF assms(2)] held(6) in auto)
next
  case (sealing h r v b cs os)
  have cs: "cs = claims db @ map (\<lambda>coin. \<lparr>si_coin = coin_name api coin, si_hash = h\<rparr>) (removals api b)"
    using sealing(9) by (rule sql_insert_many_Some)
  show ?thesis
    unfolding sealing(1)
  proof (rule holds_liveI)
    fix f let ?db = "db\<lparr>executions := executions db @
            [\<lparr>se_hash = h, se_json = canonical_json v, se_sha = sha256_hex api (canonical_json v)\<rparr>],
          claims := cs, operations := os\<rparr>"
    assume f: "f \<in> set (reviews ?db)" "\<not> sealed (executions ?db) (sf_hash f)" "now < of_int (sf_expires f)"
    then have "f \<in> set (reviews db)" "\<not> sealed (executions db) (sf_hash f)" "sf_hash f \<noteq> h"
      by (auto simp: sealed_def)
    note g = this
    have "sf_fee_coin f \<noteq> coin_name api coin" if "coin \<in> set (removals api b)" for coin
      using bspec [OF sealing(8) that] g f(3) unfolding coin_free_def by (metis not_less)
    then have "sf_fee_coin f \<notin> coin_name api ` set (removals api b)" by blast
    with holds_liveD [OF assms(2) g(1,2) f(3)] show "sf_fee_coin f \<notin> si_coin ` set (claims ?db)"
      by (simp add: cs image_Un image_image)
  qed
next
  case (prepared r os)
  show ?thesis
    unfolding prepared(1) by (rule holds_liveI) (use holds_liveD [OF assms(2)] in simp)
next
  case (submitted h r tx fee target pr ob os)
  show ?thesis
    unfolding submitted(1) by (rule holds_liveI) (use holds_liveD [OF assms(2)] in simp)
next
  case (confirmed h os cs)
  have "set cs \<subseteq> set (claims db)" using confirmed(3) by auto
  then show ?thesis
    unfolding confirmed(1) by (intro holds_liveI) (use holds_liveD [OF assms(2)] in auto)
qed

lemma sw_run_live:
  assumes "list_all sw_op_ok ops" and "sorted (map sw_time ops)" and "\<forall>op \<in> set ops. t \<le> sw_time op \<and> sw_time op \<le> now"
    and "holds_live t db" and "t \<le> now"
  shows "holds_live now (run (sw_step api) ops db)"
  using assms
proof (induction ops arbitrary: t db)
  case Nil
  then show ?case using holds_live_later by simp
next
  case (Cons op ops)
  have "holds_live (sw_time op) db"
    by (rule holds_live_later [OF Cons.prems(4)]) (use Cons.prems(3) in simp)
  then have "holds_live (sw_time op) (sw_step api op db)"
    by (rule sw_change_live [OF sw_step_change, rotated]) (use Cons.prems(1) in simp)
  then have "holds_live now (run (sw_step api) ops (sw_step api op db))"
    by (rule Cons.IH [rotated 3]) (use Cons.prems(1-3) in simp_all)
  then show ?case by simp
qed

section \<open>A sample swap\<close>

definition swap_pool_coin :: coin where
  "swap_pool_coin = \<lparr>parent_coin_info = ''0xp0'', puzzle_hash = ''pool'', amount = 1\<rparr>"

definition swap_fee_coin :: coin where
  "swap_fee_coin = \<lparr>parent_coin_info = ''0xf0'', puzzle_hash = ''till'', amount = 10\<rparr>"

definition swap_bundle :: spend_bundle where
  "swap_bundle = \<lparr>coin_spends =
      [\<lparr>spend_coin = swap_pool_coin, puzzle_reveal = ''pool'', solution = ''s1''\<rparr>,
       \<lparr>spend_coin = swap_fee_coin, puzzle_reveal = ''till'', solution = ''s2''\<rparr>],
     aggregated_signature = ''sig''\<rparr>"

definition hold_bundle :: spend_bundle where
  "hold_bundle = \<lparr>coin_spends = [\<lparr>spend_coin = swap_fee_coin, puzzle_reveal = ''till'', solution = ''s2''\<rparr>],
     aggregated_signature = ''sig''\<rparr>"

definition swap_api :: chia_api where
  "swap_api = \<lparr>from_json_dict = (\<lambda>j. if j = JStr ''b1'' then Some swap_bundle else if j = JStr ''f1'' then Some hold_bundle else None),
     bundle_name = (\<lambda>_. ''0xb1''), coin_name = (\<lambda>c. ''0x'' @ puzzle_hash c),
     removals = (\<lambda>b. map spend_coin (coin_spends b)),
     additions = (\<lambda>_. Some
       [\<lparr>parent_coin_info = ''0xpool'', puzzle_hash = ''next'', amount = 2\<rparr>,
        \<lparr>parent_coin_info = ''0xtill'', puzzle_hash = ''change'', amount = 7\<rparr>]),
     reveal_hash = Some, infinity = ''inf'', sha256_hex = id\<rparr>"

definition swap_execution :: json where
  "swap_execution = JObj
     [(''network'', JStr ''testnet11''), (''feeTargetSeconds'', JInt 60), (''feeMojos'', JStr ''2''),
      (''backingMojos'', JStr ''1''), (''spendBundle'', JStr ''b1''), (''feeCoinId'', JStr ''0xtill''),
      (''spendBundleId'', JStr ''0xb1'')]"

definition sample_sw_ops :: "sw_op list" where
  "sample_sw_ops = [RecordPrepared ''op'' ''SOLS_TO_DEED'' ''vault'' ''deed'' 100 ''0xpool'' ''0xnext'' ''dest'' 1]"

lemma swap_order_free: "order_free swap_api"
  by (simp add: order_free_def swap_api_def)

lemma sample_sw_ok: "list_all sw_op_ok sample_sw_ops"
  by (simp add: sample_sw_ops_def)

lemma swap_execution_ok: "json_ok swap_execution"
  by (simp add: swap_execution_def)

lemma digit_amounts: "amount_text (JStr ''2'') = Some ''2''" "amount_text (JStr ''1'') = Some ''1''"
  "nat_of_digits ''2'' = 2" "nat_of_digits ''1'' = 1"
  by code_simp+

lemma swap_validates: "validate_execution swap_api swap_execution ''0xpool'' ''0xnext'' = Inr swap_bundle"
  by (simp add: validate_execution_def checked_execution_def swap_execution_def swap_api_def canonical_field_def digit_amounts
      decode_bundle_def swap_bundle_def spend_id_def swap_pool_coin_def swap_fee_coin_def raise_any_def amounts_ok_def
      total_def Let_def del: amount_text.simps)

definition swap_row :: sw_row where
  "swap_row = \<lparr>so_hash = ''op'', so_direction = ''SOLS_TO_DEED'', so_vault = ''vault'', so_deed = ''deed'',
     so_status = PREPARED, so_expires = 100, so_pool_input = ''0xpool'', so_pool_output = ''0xnext'',
     so_destination = ''dest'', so_tx = None, so_fee = None, so_target = None, so_provider = None,
     so_mempool = None, so_created = 1, so_updated = 1\<rparr>"

definition swap_sealed :: sw_execution where
  "swap_sealed = \<lparr>se_hash = ''op'', se_json = canonical_json swap_execution, se_sha = canonical_json swap_execution\<rparr>"

definition swap_sealed_db :: sw_db where
  "swap_sealed_db = \<lparr>operations = [sealed_row swap_execution 2 swap_row], executions = [swap_sealed],
     claims = [\<lparr>si_coin = ''0xpool'', si_hash = ''op''\<rparr>, \<lparr>si_coin = ''0xtill'', si_hash = ''op''\<rparr>], reviews = []\<rparr>"

lemma sample_sw_run:
  "run (sw_step api) sample_sw_ops empty_sw_db = \<lparr>operations = [swap_row], executions = [], claims = [], reviews = []\<rparr>"
  by (simp add: sample_sw_ops_def record_prepared_def txn_def record_prepared_body_def empty_sw_db_def sql_insert_def
      swap_row_def Let_def)

lemma sample_sw_reserved:
  "reserve_execution swap_api ''op'' swap_execution None 2 (run (sw_step swap_api) sample_sw_ops empty_sw_db)
     = (Inr (), swap_sealed_db)"
proof -
  have v: "validate_execution swap_api swap_execution (so_pool_input swap_row) (so_pool_output swap_row) = Inr swap_bundle"
    using swap_validates by (simp add: swap_row_def)
  have l: "so_hash swap_row = ''op''" "so_status swap_row = PREPARED" "so_tx swap_row = None"
    by (simp_all add: swap_row_def)
  have r: "map (coin_name swap_api) (removals swap_api swap_bundle) = [''0xpool'', ''0xtill'']" "sha256_hex swap_api x = x" for x
    by (simp_all add: swap_api_def swap_bundle_def swap_pool_coin_def swap_fee_coin_def)
  have "map (\<lambda>coin. \<lparr>si_coin = coin_name swap_api coin, si_hash = ''op''\<rparr>) (removals swap_api swap_bundle)
      = map (\<lambda>c. \<lparr>si_coin = c, si_hash = ''op''\<rparr>) (map (coin_name swap_api) (removals swap_api swap_bundle))"
    by simp
  then have i: "sql_insert_many si_clash (map (\<lambda>coin. \<lparr>si_coin = coin_name swap_api coin, si_hash = ''op''\<rparr>) (removals swap_api swap_bundle)) []
      = Some (claims swap_sealed_db)"
    unfolding r(1) by (simp add: swap_sealed_db_def sql_insert_def si_clash_def)
  have f: "list_ex (\<lambda>coin. False) xs = False" for xs :: "coin list" by (simp add: list_ex_iff)
  show ?thesis
    unfolding sample_sw_run reserve_execution_def txn_def reserve_execution_body_def
    by (simp add: l v promote_hold_def seal_def i f r(2) sql_insert_def sql_update_def Let_def swap_sealed_db_def swap_sealed_def)
qed

lemma sample_sw_step:
  "run (sw_step swap_api) (sample_sw_ops @ [ReserveExecution ''op'' swap_execution None 2]) empty_sw_db = swap_sealed_db"
  by (simp add: run_append sample_sw_reserved)

section \<open>Properties\<close>

lemma reserved_ids:
  "\<exists>ids. fst (reserved_input_coin_ids now db) = Inr ids \<and> si_coin ` set (claims db) \<subseteq> set ids"
  by (simp add: reserved_input_coin_ids_def txn_def Let_def expire_funding_def)

text \<open>
  C31. No coin is spent by two open swaps: in every reachable state the inputs of two different sealed
  executions whose operations are not confirmed are disjoint, and every such input is among the
  coin ids that \<open>reserved_input_coin_ids\<close> reports.
\<close>

theorem sw_inputs_exclusive:
  assumes "order_free api" and "list_all sw_op_ok ops" and "db = run (sw_step api) ops empty_sw_db"
    and "e \<in> set (executions db)" and "e' \<in> set (executions db)"
    and "lookup so_hash (se_hash e) (operations db) = Some r" and "so_status r \<noteq> CONFIRMED"
    and "lookup so_hash (se_hash e') (operations db) = Some r'" and "so_status r' \<noteq> CONFIRMED"
  shows "\<exists>b b' ids. sealed_bundle api (operations db) e = Some b \<and> sealed_bundle api (operations db) e' = Some b' \<and>
    fst (reserved_input_coin_ids now db) = Inr ids \<and> coin_name api ` set (removals api b) \<subseteq> set ids \<and>
    (e = e' \<or> coin_name api ` set (removals api b) \<inter> coin_name api ` set (removals api b') = {})"
proof -
  note inv = sw_invD [OF sw_run_inv [OF assms(1) sw_inv_empty assms(2), folded assms(3)]]
  have dec: "\<exists>b. sealed_bundle api (operations db) x = Some b" if "x \<in> set (executions db)" for x
    using inv(4) [OF that] by (auto simp: sealed_exact_def intro: sealed_bundle_exact [OF assms(1)])
  obtain b b' where b: "sealed_bundle api (operations db) e = Some b" "sealed_bundle api (operations db) e' = Some b'"
    using dec assms(4,5) by blast
  have cl: "\<exists>x \<in> set (claims db). si_coin x = coin_name api c \<and> si_hash x = se_hash e" if "c \<in> set (removals api b)" for c
    using inv(5) [OF assms(4)] assms(6,7) b(1) that unfolding inputs_claimed_def by blast
  have cl': "\<exists>x \<in> set (claims db). si_coin x = coin_name api c \<and> si_hash x = se_hash e'" if "c \<in> set (removals api b')" for c
    using inv(5) [OF assms(5)] assms(8,9) b(2) that unfolding inputs_claimed_def by blast
  have "e = e'" if c: "c \<in> set (removals api b)" "c' \<in> set (removals api b')" "coin_name api c = coin_name api c'" for c c'
  proof -
    obtain x x' where x: "x \<in> set (claims db)" "si_coin x = coin_name api c" "si_hash x = se_hash e"
      "x' \<in> set (claims db)" "si_coin x' = coin_name api c'" "si_hash x' = se_hash e'"
      using cl [OF c(1)] cl' [OF c(2)] by blast
    have "x = x'" using si.key_eq [OF inv(3) x(1,4)] x(2,5) c(3) by simp
    then show ?thesis using se.key_eq [OF inv(2) assms(4,5)] x(3,6) by simp
  qed
  then have "e = e' \<or> coin_name api ` set (removals api b) \<inter> coin_name api ` set (removals api b') = {}" by blast
  moreover have "coin_name api ` set (removals api b) \<subseteq> si_coin ` set (claims db)" using cl by force
  moreover obtain ids where "fst (reserved_input_coin_ids now db) = Inr ids" "si_coin ` set (claims db) \<subseteq> set ids"
    using reserved_ids by blast
  ultimately show ?thesis
    using b by blast
qed

theorem sw_inputs_exclusive_witness:
  "\<exists>b ids. sealed_bundle swap_api (operations swap_sealed_db) swap_sealed = Some b \<and>
     fst (reserved_input_coin_ids 5 swap_sealed_db) = Inr ids \<and> coin_name swap_api ` set (removals swap_api b) \<subseteq> set ids"
proof -
  have ok: "list_all sw_op_ok (sample_sw_ops @ [ReserveExecution ''op'' swap_execution None 2])"
    using sample_sw_ok swap_execution_ok by simp
  have e: "swap_sealed \<in> set (executions swap_sealed_db)" by (simp add: swap_sealed_db_def)
  have l: "lookup so_hash (se_hash swap_sealed) (operations swap_sealed_db) = Some (sealed_row swap_execution 2 swap_row)"
    "so_status (sealed_row swap_execution 2 swap_row) \<noteq> CONFIRMED"
    by (simp_all add: swap_sealed_db_def swap_sealed_def sealed_row_def swap_row_def)
  from sw_inputs_exclusive [OF swap_order_free ok sample_sw_step [symmetric] e e l l, where now = 5]
  show ?thesis by blast
qed

text \<open>
  While the clock does not run backwards, the private fee holds that are still open exclude each
  other and the signed executions: two open holds never share their fee coin or their vault, and the
  fee coin of a hold whose quote has not expired is not claimed by any execution.
\<close>

theorem sw_holds_exclusive:
  assumes "order_free api" and "list_all sw_op_ok ops" and "sorted (map sw_time ops)"
    and "\<forall>op \<in> set ops. sw_time op \<le> now" and "db = run (sw_step api) ops empty_sw_db"
  shows "table_ok hold_clash (unsealed_reviews (executions db) (reviews db)) \<and>
    (\<forall>f \<in> set (unsealed_reviews (executions db) (reviews db)).
       now < of_int (sf_expires f) \<longrightarrow> sf_fee_coin f \<notin> si_coin ` set (claims db))"
proof -
  define t where "t = (case ops of [] \<Rightarrow> now | op # _ \<Rightarrow> sw_time op)"
  have t: "\<forall>op \<in> set ops. t \<le> sw_time op \<and> sw_time op \<le> now" "t \<le> now"
    using assms(3,4) by (auto simp: t_def split: list.splits)
  have "holds_live t empty_sw_db" by (simp add: holds_live_def empty_sw_db_def unsealed_reviews_def)
  from sw_run_live [OF assms(2,3) t(1) this t(2)] sw_invD(7) [OF sw_run_inv [OF assms(1) sw_inv_empty assms(2)]]
  show ?thesis unfolding assms(5) holds_live_def by blast
qed

definition hold_review :: json where
  "hold_review = JObj
     [(''operationHash'', JStr ''op''), (''binding'', JObj [(''vaultLauncherId'', JStr ''vault'')]),
      (''quoteExpiresAt'', JInt 100), (''feeCoinId'', JStr ''0xtill''),
      (''fundingCoinSpend'', public_spend swap_api \<lparr>spend_coin = swap_fee_coin, puzzle_reveal = ''till'', solution = ''s2''\<rparr>),
      (''ownerAuthorization'', JStr ''PENDING''), (''status'', JStr ''FUNDING_RESERVED''),
      (''consensusValidated'', JBool False), (''feeMojos'', JStr ''2''), (''backingMojos'', JStr ''1'')]"

definition hold_payload :: json where
  "hold_payload = JObj
     [(''review'', hold_review), (''reservationHash'', JStr (digest swap_api hold_review)), (''fundingBundle'', JStr ''f1'')]"

lemma hold_payload_ok: "json_ok hold_payload"
  by (simp add: hold_payload_def hold_review_def public_spend_def)

lemma hold_validates: "validate_private_hold swap_api hold_payload = Inr hold_bundle"
proof -
  have i: "py_index hold_payload ''review'' = Inr hold_review"
    "py_index hold_payload ''reservationHash'' = Inr (JStr (digest swap_api hold_review))"
    "py_index hold_payload ''fundingBundle'' = Inr (JStr ''f1'')"
    by (simp_all add: hold_payload_def)
  have d: "decode_bundle swap_api (JStr ''f1'') = Inr hold_bundle" by (simp add: decode_bundle_def swap_api_def)
  have r: "py_index hold_review ''fundingCoinSpend'' = Inr (public_spend swap_api \<lparr>spend_coin = swap_fee_coin, puzzle_reveal = ''till'', solution = ''s2''\<rparr>)"
    "py_index hold_review ''feeCoinId'' = Inr (JStr ''0xtill'')"
    "py_index hold_review ''ownerAuthorization'' = Inr (JStr ''PENDING'')"
    "py_index hold_review ''status'' = Inr (JStr ''FUNDING_RESERVED'')"
    "py_index hold_review ''consensusValidated'' = Inr (JBool False)"
    "py_index hold_review ''feeMojos'' = Inr (JStr ''2'')" "py_index hold_review ''backingMojos'' = Inr (JStr ''1'')"
    by (simp_all add: hold_review_def)
  have s: "coin_spends hold_bundle = [\<lparr>spend_coin = swap_fee_coin, puzzle_reveal = ''till'', solution = ''s2''\<rparr>]"
    "aggregated_signature hold_bundle \<noteq> infinity swap_api"
    by (simp_all add: hold_bundle_def swap_api_def)
  have n: "spend_id swap_api \<lparr>spend_coin = swap_fee_coin, puzzle_reveal = ''till'', solution = ''s2''\<rparr> = ''0xtill''"
    by (simp add: spend_id_def swap_api_def swap_fee_coin_def)
  show ?thesis
    by (simp add: validate_private_hold_def i d r s n differs_def raise_any_def canonical_field_def digit_amounts
        del: amount_text.simps)
qed

definition sample_hold_ops :: "sw_op list" where
  "sample_hold_ops = sample_sw_ops @ [ReserveFunding ''op'' hold_payload 2]"

lemma sample_hold_ok:
  "list_all sw_op_ok sample_hold_ops" "sorted (map sw_time sample_hold_ops)" "\<forall>op \<in> set sample_hold_ops. sw_time op \<le> 3"
  by (simp_all add: sample_hold_ops_def sample_sw_ops_def hold_payload_ok)

lemma sample_hold_run:
  "map sf_fee_coin (reviews (run (sw_step swap_api) sample_hold_ops empty_sw_db)) = [''0xtill'']"
  "executions (run (sw_step swap_api) sample_hold_ops empty_sw_db) = []"
proof -
  have i: "py_index hold_payload ''review'' = Inr hold_review" by (simp add: hold_payload_def)
  have r: "py_index hold_review ''operationHash'' = Inr (JStr ''op'')"
    "py_path hold_review [''binding'', ''vaultLauncherId''] = Inr (JStr ''vault'')"
    "py_index hold_review ''quoteExpiresAt'' = Inr (JInt 100)"
    by (simp_all add: hold_review_def)
  have n: "spend_id swap_api (coin_spends hold_bundle ! 0) = ''0xtill''"
    by (simp add: spend_id_def swap_api_def swap_fee_coin_def hold_bundle_def)
  have w: "so_hash swap_row = ''op''" "so_status swap_row = PREPARED" "so_tx swap_row = None" "so_vault swap_row = ''vault''"
    "so_expires swap_row = 100" by (simp_all add: swap_row_def)
  show "map sf_fee_coin (reviews (run (sw_step swap_api) sample_hold_ops empty_sw_db)) = [''0xtill'']"
    "executions (run (sw_step swap_api) sample_hold_ops empty_sw_db) = []"
    by (simp_all add: sample_hold_ops_def run_append sample_sw_run reserve_funding_def hold_validates i reserve_funding_body_def
        txn_def expire_funding_def sql_delete_def r n w differs_def raise_any_def Let_def sql_insert_def del: py_path.simps)
qed

theorem sw_holds_exclusive_witness:
  "\<exists>f. f \<in> set (reviews (run (sw_step swap_api) sample_hold_ops empty_sw_db)) \<and> sf_fee_coin f = ''0xtill'' \<and>
     (3 < (of_int (sf_expires f) :: rat) \<longrightarrow>
       ''0xtill'' \<notin> si_coin ` set (claims (run (sw_step swap_api) sample_hold_ops empty_sw_db)))"
proof -
  obtain f where f: "reviews (run (sw_step swap_api) sample_hold_ops empty_sw_db) = [f]" "sf_fee_coin f = ''0xtill''"
    using sample_hold_run(1) by (auto simp: map_eq_Cons_conv)
  from sw_holds_exclusive [OF swap_order_free sample_hold_ok refl] f show ?thesis
    by (auto simp: unsealed_reviews_def sealed_def sample_hold_run(2))
qed

text \<open>An execution that was accepted is in the table and stays there.\<close>

lemma reserve_execution_seals:
  assumes "reserve_execution api h v fh t db = (Inr (), db')"
  shows "\<exists>e \<in> set (executions db'). se_hash e = h \<and> se_json e = canonical_json v"
proof -
  have b: "reserve_execution_body api h v fh t db = Inr ((), db')"
    using assms by (simp add: reserve_execution_def txn_Inr_iff)
  then obtain r b where r: "lookup so_hash h (operations db) = Some r"
      "validate_execution api v (so_pool_input r) (so_pool_output r) = Inr b"
    by (auto simp: reserve_execution_body_def Let_def bind_Inr split: option.splits)
  show ?thesis
  proof (cases "lookup se_hash h (executions db)")
    case (Some e)
    with b r have "db' = db" "se_json e = canonical_json v" by (simp_all add: reserve_execution_body_def Let_def)
    with lookup_Some_D [OF Some] show ?thesis by blast
  next
    case None
    with b r have "seal api h v b t db = Inr ((), db')"
      by (auto simp: reserve_execution_body_def Let_def bind_Inr)
    then have "executions db' = executions db @ [\<lparr>se_hash = h, se_json = canonical_json v, se_sha = sha256_hex api (canonical_json v)\<rparr>]"
      by (auto simp: seal_def sql_insert_Some split: option.splits)
    then show ?thesis by simp
  qed
qed

lemma execution_of_sealed:
  assumes "order_free api" and "sw_inv api db" and "e \<in> set (executions db)" and "json_ok v" and "se_json e = canonical_json v"
  shows "execution api (se_hash e) db = Inr (Some (canon v))"
proof -
  note inv = sw_invD [OF assms(2)]
  from inv(4) [OF assms(3)] obtain r w b where
    r: "lookup so_hash (se_hash e) (operations db) = Some r" and
    s: "json_ok w" "se_json e = canonical_json w" "se_sha e = sha256_hex api (canonical_json w)"
      "validate_execution api w (so_pool_input r) (so_pool_output r) = Inr b"
      "so_tx r = str_item w ''spendBundleId''" "so_fee r = str_item w ''feeMojos''"
      "so_target r = int_item w ''feeTargetSeconds''"
    unfolding sealed_exact_def by (elim exE conjE)
  have cw: "canon w = canon v" using canonical.enc_eq_iff [OF s(1) assms(4)] s(2) assms(5) by simp
  have l: "lookup se_hash (se_hash e) (executions db) = Some e" by (rule se.lookup_mem [OF inv(2) assms(3)])
  from validated_items [OF s(4)] obtain fee t where
    i: "so_tx r = Some (bundle_name api b)" "so_fee r = Some fee" "so_target r = Some t"
      "py_index w ''feeMojos'' = Inr (JStr fee)" "py_index w ''feeTargetSeconds'' = Inr (JInt t)"
    using s(5-7) by auto
  have "py_index w ''spendBundleId'' = Inr (JStr (bundle_name api b))"
    using s(4) by (rule validate_executionD)
  then show ?thesis
    using i by (simp add: execution_def l r s(2,3,4) py_loads_canonical [OF s(1)] validate_execution_canon [OF assms(1) s(1)]
      raise_any_ok py_index_canon [OF s(1)] json_opt_str_def json_opt_int_def cw [symmetric])
qed

text \<open>
  C32. A sealed execution is final and recoverable: once \<open>reserve_execution\<close> has accepted a document, then
  after any later calls \<open>execution\<close> returns that document (its keys in canonical order), accepting it
  again changes nothing, and any document with another canonical text is refused.
\<close>

theorem sw_execution_final:
  assumes "order_free api" and "list_all sw_op_ok ops" and "list_all sw_op_ok ops'" and "json_ok v"
    and "reserve_execution api h v fh t (run (sw_step api) ops empty_sw_db) = (Inr (), db)"
  shows "execution api h (run (sw_step api) ops' db) = Inr (Some (canon v)) \<and>
    (\<forall>v' fh' t'. json_ok v' \<longrightarrow> canonical_json v' \<noteq> canonical_json v \<longrightarrow>
       (\<exists>x. reserve_execution api h v' fh' t' (run (sw_step api) ops' db) = (Inl x, run (sw_step api) ops' db)))"
proof -
  let ?db = "run (sw_step api) ops' db"
  have "sw_inv api db"
    using sw_run_inv [OF assms(1) sw_inv_empty, of "ops @ [ReserveExecution h v fh t]"] assms(2,4,5) by (simp add: run_append)
  then have inv: "sw_inv api ?db" and ev: "sw_evolves db ?db"
    using assms(1,3) by (auto intro: sw_run_inv sw_run_evolves)
  obtain e where e: "e \<in> set (executions db)" "se_hash e = h" "se_json e = canonical_json v"
    using reserve_execution_seals [OF assms(5)] by blast
  with ev have e': "e \<in> set (executions ?db)"
    unfolding sw_evolves_def by (auto dest: set_mono_prefix)
  have l: "lookup se_hash h (executions ?db) = Some e"
    using se.lookup_mem [OF sw_invD(2) [OF inv] e'] e(2) by simp
  have "\<exists>x. reserve_execution_body api h v' fh' t' ?db = Inl x" if "canonical_json v' \<noteq> canonical_json v" for v' fh' t'
    using that e(3) l by (cases "reserve_execution_body api h v' fh' t' ?db")
      (auto simp: reserve_execution_body_def Let_def bind_Inr split: option.splits)
  then show ?thesis
    using execution_of_sealed [OF assms(1) inv e' assms(4) e(3)] e(2) by (auto simp: reserve_execution_def txn_Inl_iff)
qed

theorem sw_execution_final_witness:
  "execution swap_api ''op'' (run (sw_step swap_api) [MarkConfirmed ''op'' 9] swap_sealed_db) = Inr (Some (canon swap_execution))"
proof -
  have "list_all sw_op_ok [MarkConfirmed ''op'' 9]" by simp
  from sw_execution_final [OF swap_order_free sample_sw_ok this swap_execution_ok sample_sw_reserved] show ?thesis by blast
qed



text \<open>
  C34. Confirmation always gets through and frees the inputs: for every sealed execution of a reachable state
  whose operation is prepared or submitted, \<open>mark_confirmed\<close> returns the confirmed record, removes
  every claim of the operation and no other, so that none of its inputs stays claimed.
\<close>

theorem sw_confirm_releases:
  assumes "order_free api" and "list_all sw_op_ok ops" and "db = run (sw_step api) ops empty_sw_db"
    and "e \<in> set (executions db)" and "sealed_bundle api (operations db) e = Some b"
    and "lookup so_hash (se_hash e) (operations db) = Some r" and "so_status r = PREPARED \<or> so_status r = SUBMITTED"
  shows "\<exists>rec db'. mark_confirmed (se_hash e) t db = (Inr rec, db') \<and> swap_status rec = CONFIRMED \<and>
    transaction_id rec = Some (bundle_name api b) \<and>
    claims db' = filter (\<lambda>c. si_hash c \<noteq> se_hash e) (claims db) \<and> executions db' = executions db \<and>
    coin_name api ` set (removals api b) \<inter> si_coin ` set (claims db') = {}"
proof -
  let ?h = "se_hash e"
  have si: "sw_inv api db" by (rule sw_run_inv [OF assms(1) sw_inv_empty assms(2), folded assms(3)])
  note inv = sw_invD [OF si]
  obtain v b' where v: "json_ok v" "se_json e = canonical_json v"
      "validate_execution api v (so_pool_input r) (so_pool_output r) = Inr b'" "so_tx r = str_item v ''spendBundleId''"
    using inv(4) [OF assms(4)] assms(6) unfolding sealed_exact_def by auto
  then have "b' = b" using sealed_bundle_exact [OF assms(1,6) v(1-3)] assms(5) by simp
  then have tx: "so_tx r = Some (bundle_name api b)" using validated_items(1) [OF v(3)] v(4) by simp
  have c: "confirmable (executions db) r"
    using assms(4,7) tx lookup_Some_D [OF assms(6)] by (auto simp: confirmable_def sealed_def list_ex_iff)
  let ?os = "map (\<lambda>x. if so_hash x = ?h \<and> confirmable (executions db) x then confirmed_row t x else x) (operations db)"
  have u: "sql_update so_clash (\<lambda>x. so_hash x = ?h \<and> confirmable (executions db) x) (confirmed_row t) (operations db) = Some ?os"
    by (rule so.update_frame [OF inv(1)]) (simp add: so_clash_def confirmed_row_def)
  have l: "lookup so_hash ?h ?os = Some (confirmed_row t r)"
    by (simp add: lookup_confirmed assms(6) c)
  let ?db = "db\<lparr>operations := ?os, claims := filter (\<lambda>c. si_hash c \<noteq> ?h) (claims db)\<rparr>"
  have m: "mark_confirmed ?h t db = (Inr (sw_record (confirmed_row t r)), ?db)"
    by (simp add: mark_confirmed_def txn_then_def txn_def mark_confirmed_body_def u l Let_def sql_delete_def)
      (simp add: confirmed_row_def)
  have "coin_name api ` set (removals api b) \<inter> si_coin ` set (claims ?db) = {}"
  proof -
    have own: "si_hash x = ?h" if x: "x \<in> set (claims db)" "si_coin x = coin_name api coin" "coin \<in> set (removals api b)" for x coin
    proof -
      from inv(5) [OF assms(4)] assms(5-7) x(3) obtain y where
        "y \<in> set (claims db)" "si_coin y = coin_name api coin" "si_hash y = ?h"
        unfolding inputs_claimed_def by auto
      then show ?thesis using si.key_eq [OF inv(3) x(1)] x(2) by metis
    qed
    show ?thesis by (auto dest: own [OF _ sym])
  qed
  with m tx show ?thesis
    by (intro exI [of _ "sw_record (confirmed_row t r)"] exI [of _ ?db]) (simp add: sw_record_def confirmed_row_def)
qed

theorem sw_confirm_releases_witness:
  "\<exists>rec db'. mark_confirmed ''op'' 9 swap_sealed_db = (Inr rec, db') \<and> swap_status rec = CONFIRMED \<and> claims db' = []"
proof -
  have ok: "list_all sw_op_ok (sample_sw_ops @ [ReserveExecution ''op'' swap_execution None 2])"
    using sample_sw_ok swap_execution_ok by simp
  have e: "swap_sealed \<in> set (executions swap_sealed_db)" by (simp add: swap_sealed_db_def)
  have l: "lookup so_hash (se_hash swap_sealed) (operations swap_sealed_db) = Some (sealed_row swap_execution 2 swap_row)"
    "so_status (sealed_row swap_execution 2 swap_row) = PREPARED"
    by (simp_all add: swap_sealed_db_def swap_sealed_def sealed_row_def swap_row_def)
  have b: "sealed_bundle swap_api (operations swap_sealed_db) swap_sealed = Some swap_bundle"
    by (rule sealed_bundle_exact [OF swap_order_free l(1) swap_execution_ok])
      (simp_all add: swap_sealed_def swap_validates sealed_row_def swap_row_def)
  from sw_confirm_releases [OF swap_order_free ok sample_sw_step [symmetric] e b l(1) disjI1 [OF l(2)], where t = 9]
  show ?thesis by (auto simp: swap_sealed_def swap_sealed_db_def)
qed

end
