(* ===== verification/Challenges.thy ===== *)
theory Challenges
  imports SqlCore Complex_Main "HOL-Library.AList"
begin

text \<open>
  \<open>src/solslot_api/challenges.py\<close>: the single-use login challenges and the request rate limiter, each
  with its two backends, the in-memory one and the shared SQLite one, and a specification that both refine.

  The clock is a rational number (the rounding of floats is not modelled); the random token of a new
  challenge is an argument of \<open>issue\<close>.
\<close>

section \<open>Data\<close>

datatype ch_error =
    RateLimitedError string
  | ChallengeStoreFullError string
  | ChIntegrityError

record challenge =
  ch_nonce :: string
  ch_address :: string
  ch_auth_type :: string
  ch_issued_at :: rat
  ch_expires_at :: rat
  ch_pool_launcher :: string
  ch_network :: string

record ch_config =
  ttl_seconds :: int
  max_pending :: int
  per_ip_per_minute :: int
  ch_namespace :: string

definition new_challenge :: "ch_config \<Rightarrow> string \<Rightarrow> string \<Rightarrow> string \<Rightarrow> string \<Rightarrow> rat \<Rightarrow> string \<Rightarrow> challenge" where
  "new_challenge cfg address auth pool network now token =
     \<lparr>ch_nonce = ''0x'' @ token, ch_address = (if auth = ''evm'' then lower address else address),
      ch_auth_type = auth, ch_issued_at = now, ch_expires_at = now + of_int (ttl_seconds cfg),
      ch_pool_launcher = pool, ch_network = network\<rparr>"

definition rate_limited :: "ch_config \<Rightarrow> string \<Rightarrow> ch_error" where
  "rate_limited cfg ip = RateLimitedError
     (''IP '' @ ip @ '' exceeded '' @ show_int (per_ip_per_minute cfg) @ '' challenges/minute'')"

definition store_full :: "ch_config \<Rightarrow> ch_error" where
  "store_full cfg = ChallengeStoreFullError
     (''Challenge store is at capacity ('' @ show_int (max_pending cfg) @ ''); try again later'')"

text \<open>The checks of \<open>pop\<close> on the challenge it has removed.\<close>

definition accept_challenge :: "string \<Rightarrow> string \<Rightarrow> rat \<Rightarrow> challenge option \<Rightarrow> challenge option" where
  "accept_challenge address auth now found =
     (case found of
        None \<Rightarrow> None
      | Some c \<Rightarrow>
          if ch_expires_at c < now then None
          else if ch_auth_type c \<noteq> auth then None
          else if ch_address c \<noteq> (if auth = ''evm'' then lower address else address) then None
          else Some c)"

section \<open>The in-memory backend\<close>

text \<open>\<open>_challenges\<close> is a \<open>dict\<close> in insertion order, \<open>_ip_issuance\<close> a \<open>defaultdict\<close> of deques.\<close>

record mem_store =
  mem_challenges :: "(string \<times> challenge) list"
  mem_issuance :: "string \<Rightarrow> rat list option"

definition empty_mem :: mem_store where
  "empty_mem = \<lparr>mem_challenges = [], mem_issuance = (\<lambda>_. None)\<rparr>"

text \<open>\<open>while dq and dq[0] < cutoff: dq.popleft()\<close>\<close>

fun popleft_stale :: "rat \<Rightarrow> rat list \<Rightarrow> rat list" where
  "popleft_stale cutoff [] = []"
| "popleft_stale cutoff (t # dq) = (if t < cutoff then popleft_stale cutoff dq else t # dq)"

text \<open>\<open>self._ip_issuance[source_ip]\<close>; an absent key makes an empty deque.\<close>

definition deque_of :: "(string \<Rightarrow> rat list option) \<Rightarrow> string \<Rightarrow> rat list" where
  "deque_of m ip = (case m ip of None \<Rightarrow> [] | Some dq \<Rightarrow> dq)"

definition gc :: "rat \<Rightarrow> mem_store \<Rightarrow> mem_store" where
  "gc now s =
     s\<lparr>mem_challenges := filter (\<lambda>(n, c). \<not> ch_expires_at c < now) (mem_challenges s),
       mem_issuance := (\<lambda>ip. case mem_issuance s ip of
           None \<Rightarrow> None
         | Some dq \<Rightarrow> (let rest = popleft_stale (now - 60) dq in if rest = [] then None else Some rest))\<rparr>"

definition enforce_per_ip_rate :: "ch_config \<Rightarrow> string \<Rightarrow> rat \<Rightarrow> (mem_store, ch_error, unit) call" where
  "enforce_per_ip_rate cfg ip now s =
     (let dq = popleft_stale (now - 60) (deque_of (mem_issuance s) ip);
          s' = s\<lparr>mem_issuance := (mem_issuance s)(ip := Some dq)\<rparr> in
      if int (length dq) \<ge> per_ip_per_minute cfg then (Inl (rate_limited cfg ip), s') else (Inr (), s'))"

definition issue_mem ::
  "ch_config \<Rightarrow> string \<Rightarrow> string \<Rightarrow> string \<Rightarrow> string \<Rightarrow> string option \<Rightarrow> rat \<Rightarrow> string \<Rightarrow> (mem_store, ch_error, challenge) call" where
  "issue_mem cfg address auth pool network source_ip now token s0 =
     (let s1 = gc now s0 in
      case (case source_ip of None \<Rightarrow> (Inr (), s1) | Some ip \<Rightarrow> enforce_per_ip_rate cfg ip now s1) of
        (Inl e, s) \<Rightarrow> (Inl e, s)
      | (Inr _, s) \<Rightarrow>
          if int (length (mem_challenges s)) \<ge> max_pending cfg then (Inl (store_full cfg), s)
          else
            let c = new_challenge cfg address auth pool network now token in
            (Inr c,
             s\<lparr>mem_challenges := AList.update (ch_nonce c) c (mem_challenges s),
               mem_issuance := (case source_ip of
                   None \<Rightarrow> mem_issuance s
                 | Some ip \<Rightarrow> (mem_issuance s)(ip := Some (deque_of (mem_issuance s) ip @ [now])))\<rparr>))"

definition pop_mem :: "string \<Rightarrow> string \<Rightarrow> string \<Rightarrow> rat \<Rightarrow> mem_store \<Rightarrow> challenge option \<times> mem_store" where
  "pop_mem nonce address auth now s =
     (accept_challenge address auth now (map_of (mem_challenges s) nonce),
      s\<lparr>mem_challenges := AList.delete nonce (mem_challenges s)\<rparr>)"

definition len_mem :: "mem_store \<Rightarrow> int" where
  "len_mem s = int (length (mem_challenges s))"

section \<open>The persistent backend\<close>

text \<open>The row ids of the issuance log are never read and are left out.\<close>

record ch_row =
  cr_namespace :: string
  cr_challenge :: challenge

record ci_row =
  ci_namespace :: string
  ci_source_ip :: string
  ci_issued_at :: rat

record ch_db =
  challenge_rows :: "ch_row list"
  issuance_rows :: "ci_row list"

definition empty_ch_db :: ch_db where
  "empty_ch_db = \<lparr>challenge_rows = [], issuance_rows = []\<rparr>"

definition cr_key :: "ch_row \<Rightarrow> string \<times> string" where
  "cr_key r = (cr_namespace r, ch_nonce (cr_challenge r))"

definition cr_clash :: "ch_row \<Rightarrow> ch_row \<Rightarrow> bool" where
  "cr_clash r r' \<longleftrightarrow> cr_key r = cr_key r'"

interpretation cr: keyed_table cr_clash cr_key
  by unfold_locales (auto simp: cr_clash_def)

definition delete_expired :: "ch_config \<Rightarrow> rat \<Rightarrow> ch_row list \<Rightarrow> ch_row list" where
  "delete_expired cfg now rs =
     sql_delete (\<lambda>r. cr_namespace r = ch_namespace cfg \<and> ch_expires_at (cr_challenge r) < now) rs"

definition issue_body ::
  "ch_config \<Rightarrow> challenge \<Rightarrow> string option \<Rightarrow> rat \<Rightarrow> (ch_db, ch_error, challenge) body" where
  "issue_body cfg c source_ip now db =
     (let rows = delete_expired cfg now (challenge_rows db);
          log = sql_delete (\<lambda>r. ci_namespace r = ch_namespace cfg \<and> ci_issued_at r < now - 60) (issuance_rows db);
          issued = (\<lambda>ip. int (length (select
            (\<lambda>r. ci_namespace r = ch_namespace cfg \<and> ci_source_ip r = ip \<and> ci_issued_at r \<ge> now - 60) log))) in
      if (case source_ip of None \<Rightarrow> False | Some ip \<Rightarrow> issued ip \<ge> per_ip_per_minute cfg)
      then Inl (rate_limited cfg (the source_ip))
      else if int (length (select (\<lambda>r. cr_namespace r = ch_namespace cfg) rows)) \<ge> max_pending cfg
      then Inl (store_full cfg)
      else case sql_insert cr_clash \<lparr>cr_namespace = ch_namespace cfg, cr_challenge = c\<rparr> rows of
          None \<Rightarrow> Inl ChIntegrityError
        | Some rows' \<Rightarrow>
            Inr (c, \<lparr>challenge_rows = rows',
                     issuance_rows = log @ (case source_ip of
                         None \<Rightarrow> []
                       | Some ip \<Rightarrow> [\<lparr>ci_namespace = ch_namespace cfg, ci_source_ip = ip, ci_issued_at = now\<rparr>])\<rparr>))"

definition issue_persistent ::
  "ch_config \<Rightarrow> string \<Rightarrow> string \<Rightarrow> string \<Rightarrow> string \<Rightarrow> string option \<Rightarrow> rat \<Rightarrow> string \<Rightarrow> (ch_db, ch_error, challenge) call" where
  "issue_persistent cfg address auth pool network source_ip now token =
     txn (issue_body cfg (new_challenge cfg address auth pool network now token) source_ip now)"

definition pop_persistent :: "ch_config \<Rightarrow> string \<Rightarrow> ch_db \<Rightarrow> challenge option \<times> ch_db" where
  "pop_persistent cfg nonce db =
     (map_option cr_challenge (lookup cr_key (ch_namespace cfg, nonce) (challenge_rows db)),
      db\<lparr>challenge_rows := sql_delete (\<lambda>r. cr_key r = (ch_namespace cfg, nonce)) (challenge_rows db)\<rparr>)"

definition pop_db :: "ch_config \<Rightarrow> string \<Rightarrow> string \<Rightarrow> string \<Rightarrow> rat \<Rightarrow> ch_db \<Rightarrow> challenge option \<times> ch_db" where
  "pop_db cfg nonce address auth now db =
     (let (found, db') = pop_persistent cfg nonce db in (accept_challenge address auth now found, db'))"

definition len_db :: "ch_config \<Rightarrow> rat \<Rightarrow> ch_db \<Rightarrow> int \<times> ch_db" where
  "len_db cfg now db =
     (let rows = delete_expired cfg now (challenge_rows db) in
      (int (length (select (\<lambda>r. cr_namespace r = ch_namespace cfg) rows)), db\<lparr>challenge_rows := rows\<rparr>))"

section \<open>The request rate limiter\<close>

record rl_row =
  rl_namespace :: string
  rl_source_ip :: string
  rl_attempted_at :: rat

definition allow_mem :: "int \<Rightarrow> string \<Rightarrow> rat \<Rightarrow> (string \<Rightarrow> rat list option) \<Rightarrow> bool \<times> (string \<Rightarrow> rat list option)" where
  "allow_mem quota ip now m =
     (let attempts = popleft_stale (now - 60) (deque_of m ip) in
      if int (length attempts) \<ge> quota then (False, m(ip := Some attempts))
      else (True, m(ip := Some (attempts @ [now]))))"

definition allow_db :: "int \<Rightarrow> string \<Rightarrow> string \<Rightarrow> rat \<Rightarrow> rl_row list \<Rightarrow> bool \<times> rl_row list" where
  "allow_db quota namespace ip now rows0 =
     (let rows = sql_delete (\<lambda>r. rl_namespace r = namespace \<and> rl_attempted_at r < now - 60) rows0;
          count = int (length (select
            (\<lambda>r. rl_namespace r = namespace \<and> rl_source_ip r = ip \<and> rl_attempted_at r \<ge> now - 60) rows)) in
      if count \<ge> quota then (False, rows)
      else (True, rows @ [\<lparr>rl_namespace = namespace, rl_source_ip = ip, rl_attempted_at = now\<rparr>]))"

section \<open>Calls and their outcomes\<close>

datatype ch_op =
    Issue string string string string "string option" rat string
  | Pop string string string rat

datatype ch_outcome = Issued challenge | Refused ch_error | Popped "challenge option"

fun ch_time :: "ch_op \<Rightarrow> rat" where
  "ch_time (Issue a t p n ip now k) = now"
| "ch_time (Pop k a t now) = now"

fun ch_tokens :: "ch_op list \<Rightarrow> string list" where
  "ch_tokens [] = []"
| "ch_tokens (Issue a t p n ip now k # ops) = k # ch_tokens ops"
| "ch_tokens (Pop k a t now # ops) = ch_tokens ops"

fun issued_outcome :: "ch_error + challenge \<Rightarrow> ch_outcome" where
  "issued_outcome (Inl e) = Refused e"
| "issued_outcome (Inr c) = Issued c"

fun mem_step :: "ch_config \<Rightarrow> ch_op \<Rightarrow> mem_store \<Rightarrow> ch_outcome \<times> mem_store" where
  "mem_step cfg (Issue a t p n ip now k) s = apfst issued_outcome (issue_mem cfg a t p n ip now k s)"
| "mem_step cfg (Pop k a t now) s = apfst Popped (pop_mem k a t now s)"

fun db_step :: "ch_config \<Rightarrow> ch_op \<Rightarrow> ch_db \<Rightarrow> ch_outcome \<times> ch_db" where
  "db_step cfg (Issue a t p n ip now k) db = apfst issued_outcome (issue_persistent cfg a t p n ip now k db)"
| "db_step cfg (Pop k a t now) db = apfst Popped (pop_db cfg k a t now db)"

text \<open>The outcomes of a sequence of calls.\<close>

fun outcomes :: "('op \<Rightarrow> 's \<Rightarrow> 'o \<times> 's) \<Rightarrow> 'op list \<Rightarrow> 's \<Rightarrow> 'o list" where
  "outcomes step [] s = []"
| "outcomes step (op # ops) s = (let (o', s') = step op s in o' # outcomes step ops s')"

section \<open>The specification\<close>

text \<open>
  What the module promises: the live challenges in the order they were issued and, for every source
  address, the times of the last minute. Stale entries are dropped first, whatever the backend keeps.
\<close>

record ch_spec =
  live :: "challenge list"
  recent :: "string \<Rightarrow> rat list"

definition prune :: "rat \<Rightarrow> ch_spec \<Rightarrow> ch_spec" where
  "prune now s = \<lparr>live = filter (\<lambda>c. now \<le> ch_expires_at c) (live s),
     recent = (\<lambda>ip. filter (\<lambda>t. now - 60 \<le> t) (recent s ip))\<rparr>"

definition spec_issue :: "ch_config \<Rightarrow> challenge \<Rightarrow> string option \<Rightarrow> rat \<Rightarrow> ch_spec \<Rightarrow> ch_outcome \<times> ch_spec" where
  "spec_issue cfg c source_ip now s =
     (if (case source_ip of None \<Rightarrow> False | Some ip \<Rightarrow> int (length (recent s ip)) \<ge> per_ip_per_minute cfg)
      then (Refused (rate_limited cfg (the source_ip)), s)
      else if int (length (live s)) \<ge> max_pending cfg then (Refused (store_full cfg), s)
      else (Issued c, \<lparr>live = live s @ [c],
              recent = (case source_ip of None \<Rightarrow> recent s | Some ip \<Rightarrow> (recent s)(ip := recent s ip @ [now]))\<rparr>))"

definition spec_pop :: "string \<Rightarrow> string \<Rightarrow> string \<Rightarrow> rat \<Rightarrow> ch_spec \<Rightarrow> ch_outcome \<times> ch_spec" where
  "spec_pop nonce address auth now s =
     (Popped (accept_challenge address auth now (find (\<lambda>c. ch_nonce c = nonce) (live s))),
      s\<lparr>live := filter (\<lambda>c. ch_nonce c \<noteq> nonce) (live s)\<rparr>)"

fun spec_step :: "ch_config \<Rightarrow> ch_op \<Rightarrow> ch_spec \<Rightarrow> ch_outcome \<times> ch_spec" where
  "spec_step cfg (Issue a t p n ip now k) s =
     spec_issue cfg (new_challenge cfg a t p n now k) ip now (prune now s)"
| "spec_step cfg (Pop k a t now) s = spec_pop k a t now (prune now s)"

definition empty_spec :: ch_spec where
  "empty_spec = \<lparr>live = [], recent = (\<lambda>_. [])\<rparr>"

section \<open>Both backends refine the specification\<close>

lemma prune_prune: "t \<le> now \<Longrightarrow> prune now (prune t s) = prune now s"
  by (auto simp: prune_def fun_eq_iff intro!: filter_cong)

lemma prune_same: "t \<le> now \<Longrightarrow> prune t s = prune t s' \<Longrightarrow> prune now s = prune now s'"
  by (metis prune_prune)

lemma spec_step_prune: "prune (ch_time op) s = prune (ch_time op) s' \<Longrightarrow> spec_step cfg op s = spec_step cfg op s'"
  by (cases op) simp_all

lemma popleft_filter: "sorted dq \<Longrightarrow> popleft_stale c dq = filter (\<lambda>t. c \<le> t) dq"
  by (induction dq) (auto simp: filter_id_conv intro!: filter_True [symmetric])

lemma filter_nonce_find: "distinct (map f xs) \<Longrightarrow> x \<in> set xs \<Longrightarrow> find (\<lambda>c. f c = f x) xs = Some x"
  by (induction xs) auto

lemma find_filter_None: "(\<And>x. x \<in> set xs \<Longrightarrow> p x \<Longrightarrow> False) \<Longrightarrow> find p (filter q xs) = None"
  by (auto simp: find_None_iff)

text \<open>A lookup that ignores stale entries gives the same verdict as one among the live entries.\<close>

lemma accept_live:
  assumes "distinct (map ch_nonce cs)"
  shows "accept_challenge a t now (find (\<lambda>c. ch_nonce c = n) (filter (\<lambda>c. now \<le> ch_expires_at c) cs))
    = accept_challenge a t now (find (\<lambda>c. ch_nonce c = n) cs)"
  using assms
proof (induction cs)
  case (Cons c cs)
  show ?case
  proof (cases "ch_nonce c = n \<and> \<not> now \<le> ch_expires_at c")
    case True
    with Cons.prems have "find (\<lambda>c. ch_nonce c = n) (filter (\<lambda>c. now \<le> ch_expires_at c) cs) = None"
      by (intro find_filter_None) force
    with True show ?thesis by (simp add: accept_challenge_def)
  qed (use Cons in auto)
qed simp

definition abs_mem :: "mem_store \<Rightarrow> ch_spec" where
  "abs_mem m = \<lparr>live = map snd (mem_challenges m), recent = deque_of (mem_issuance m)\<rparr>"

definition mem_ok :: "rat \<Rightarrow> mem_store \<Rightarrow> bool" where
  "mem_ok t m \<longleftrightarrow> map fst (mem_challenges m) = map (ch_nonce \<circ> snd) (mem_challenges m) \<and>
     distinct (map fst (mem_challenges m)) \<and>
     (\<forall>ip. sorted (deque_of (mem_issuance m) ip) \<and> (\<forall>x \<in> set (deque_of (mem_issuance m) ip). x \<le> t))"

definition abs_db :: "ch_config \<Rightarrow> ch_db \<Rightarrow> ch_spec" where
  "abs_db cfg db = \<lparr>live = map cr_challenge (filter (\<lambda>r. cr_namespace r = ch_namespace cfg) (challenge_rows db)),
     recent = (\<lambda>ip. map ci_issued_at (filter (\<lambda>r. ci_namespace r = ch_namespace cfg \<and> ci_source_ip r = ip) (issuance_rows db)))\<rparr>"

lemma deque_gc: "deque_of (mem_issuance (gc now m)) ip = popleft_stale (now - 60) (deque_of (mem_issuance m) ip)"
  by (simp add: gc_def deque_of_def Let_def split: option.splits)

lemma mem_challenges_gc: "mem_challenges (gc now m) = filter (\<lambda>(n, c). \<not> ch_expires_at c < now) (mem_challenges m)"
  by (simp add: gc_def)

lemma map_fst_filter:
  "map fst xs = map (g \<circ> snd) xs \<Longrightarrow> map fst (filter p xs) = map (g \<circ> snd) (filter p xs)"
  by (induction xs) auto

lemma abs_gc:
  assumes "mem_ok t m" and "t \<le> now"
  shows "abs_mem (gc now m) = prune now (abs_mem m)" and "mem_ok now (gc now m)"
proof -
  have d: "popleft_stale (now - 60) (deque_of (mem_issuance m) ip) = filter (\<lambda>x. now - 60 \<le> x) (deque_of (mem_issuance m) ip)" for ip
    using assms by (simp add: mem_ok_def popleft_filter)
  show "abs_mem (gc now m) = prune now (abs_mem m)"
    by (simp add: abs_mem_def prune_def deque_gc d fun_eq_iff)
      (simp add: gc_def filter_map comp_def split_def not_less)
  have "distinct (map fst (filter p (mem_challenges m)))" for p
    using assms(1) by (simp add: mem_ok_def distinct_map_filter)
  then show "mem_ok now (gc now m)"
    using assms by (auto simp: mem_ok_def deque_gc d sorted_wrt_filter map_fst_filter mem_challenges_gc) (meson order.trans)
qed

lemma prune_idem [simp]: "prune now (prune now s) = prune now s"
  by (rule prune_prune) simp

lemma new_challenge_nonce [simp]: "ch_nonce (new_challenge cfg a t p n now k) = ''0x'' @ k"
  by (simp add: new_challenge_def)

lemma enforce_abs:
  assumes "mem_ok now m" and "abs_mem m = prune now s"
  shows "fst (enforce_per_ip_rate cfg ip now m)
      = (if int (length (recent (abs_mem m) ip)) \<ge> per_ip_per_minute cfg then Inl (rate_limited cfg ip) else Inr ())"
    and "abs_mem (snd (enforce_per_ip_rate cfg ip now m)) = abs_mem m"
    and "mem_challenges (snd (enforce_per_ip_rate cfg ip now m)) = mem_challenges m"
    and "mem_ok now (snd (enforce_per_ip_rate cfg ip now m))"
proof -
  have "deque_of (mem_issuance m) ip = filter (\<lambda>x. now - 60 \<le> x) (recent s ip)"
    using assms(2) by (simp add: abs_mem_def prune_def)
  moreover have "sorted (deque_of (mem_issuance m) ip)" using assms(1) by (simp add: mem_ok_def)
  ultimately have d: "popleft_stale (now - 60) (deque_of (mem_issuance m) ip) = deque_of (mem_issuance m) ip"
    by (simp add: popleft_filter)
  then have e: "deque_of ((mem_issuance m)(ip \<mapsto> deque_of (mem_issuance m) ip)) = deque_of (mem_issuance m)"
    by (auto simp: fun_eq_iff deque_of_def)
  show "fst (enforce_per_ip_rate cfg ip now m)
      = (if int (length (recent (abs_mem m) ip)) \<ge> per_ip_per_minute cfg then Inl (rate_limited cfg ip) else Inr ())"
    "abs_mem (snd (enforce_per_ip_rate cfg ip now m)) = abs_mem m"
    "mem_challenges (snd (enforce_per_ip_rate cfg ip now m)) = mem_challenges m"
    "mem_ok now (snd (enforce_per_ip_rate cfg ip now m))"
    using assms(1) by (simp_all add: enforce_per_ip_rate_def Let_def d abs_mem_def mem_ok_def e)
qed

lemma update_fresh: "k \<notin> fst ` set al \<Longrightarrow> AList.update k v al = al @ [(k, v)]"
  by (induction al) auto

lemma issue_mem_refines:
  assumes "mem_ok t m" and "t \<le> now" and "''0x'' @ k \<notin> fst ` set (mem_challenges m)"
  shows "case issue_mem cfg a ty p n ip now k m of (o', m') \<Rightarrow>
    (issued_outcome o', abs_mem m') = spec_step cfg (Issue a ty p n ip now k) (abs_mem m) \<and> mem_ok now m' \<and>
    fst ` set (mem_challenges m') \<subseteq> insert (''0x'' @ k) (fst ` set (mem_challenges m))"
proof -
  let ?c = "new_challenge cfg a ty p n now k" let ?s = "prune now (abs_mem m)"
  define r where "r = (case ip of None \<Rightarrow> (Inr (), gc now m) | Some i \<Rightarrow> enforce_per_ip_rate cfg i now (gc now m))"
  have g: "abs_mem (gc now m) = ?s" "mem_ok now (gc now m)" by (fact abs_gc [OF assms(1,2)])+
  note en = enforce_abs [OF g(2,1)]
  obtain v s where vs: "r = (v, s)" by (cases r)
  then have vs': "v = fst r" "s = snd r" by simp_all
  have issue: "issue_mem cfg a ty p n ip now k m = (case (v, s) of
        (Inl e, s) \<Rightarrow> (Inl e, s)
      | (Inr _, s) \<Rightarrow>
          if int (length (mem_challenges s)) \<ge> max_pending cfg then (Inl (store_full cfg), s)
          else (Inr ?c, s\<lparr>mem_challenges := AList.update (''0x'' @ k) ?c (mem_challenges s),
               mem_issuance := (case ip of
                   None \<Rightarrow> mem_issuance s
                 | Some ip \<Rightarrow> (mem_issuance s)(ip := Some (deque_of (mem_issuance s) ip @ [now])))\<rparr>))"
    by (simp only: issue_mem_def Let_def r_def [symmetric] vs new_challenge_nonce)
  have r: "v = (if (case ip of None \<Rightarrow> False | Some i \<Rightarrow> int (length (recent ?s i)) \<ge> per_ip_per_minute cfg)
        then Inl (rate_limited cfg (the ip)) else Inr ())"
    "abs_mem s = ?s" "mem_challenges s = mem_challenges (gc now m)" "mem_ok now s"
    using en g vs' by (simp_all add: r_def split: option.split)
  have sub: "fst ` set (mem_challenges (gc now m)) \<subseteq> fst ` set (mem_challenges m)" by (auto simp: gc_def)
  with assms(3) have fresh: "''0x'' @ k \<notin> fst ` set (mem_challenges s)" using r(3) by auto
  have len: "length (mem_challenges s) = length (live ?s)"
    using r(2) by (metis abs_mem_def ch_spec.select_convs(1) length_map)
  have dq: "deque_of (mem_issuance s) = recent ?s"
    using r(2) by (metis abs_mem_def ch_spec.select_convs(2))
  have lv: "map snd (mem_challenges s) = live ?s"
    using r(2) by (metis abs_mem_def ch_spec.select_convs(1))
  consider "v \<noteq> Inr ()" | "v = Inr ()" "int (length (live ?s)) \<ge> max_pending cfg"
    | "v = Inr ()" "int (length (live ?s)) < max_pending cfg" by linarith
  then show ?thesis
  proof cases
    case 1
    then obtain e where e: "v = Inl e" by (cases "v") auto
    then have "issue_mem cfg a ty p n ip now k m = (Inl e, s)" by (simp add: issue)
    with e r sub show ?thesis by (auto simp: spec_issue_def split: if_splits)
  next
    case 2
    then have "issue_mem cfg a ty p n ip now k m = (Inl (store_full cfg), s)"
      using len by (simp add: issue)
    with 2 r sub show ?thesis by (auto simp: spec_issue_def split: if_splits)
  next
    case 3
    let ?m = "s\<lparr>mem_challenges := mem_challenges s @ [(''0x'' @ k, ?c)],
        mem_issuance := (case ip of None \<Rightarrow> mem_issuance s
           | Some i \<Rightarrow> (mem_issuance s)(i := Some (deque_of (mem_issuance s) i @ [now])))\<rparr>"
    have i: "issue_mem cfg a ty p n ip now k m = (Inr ?c, ?m)"
      using 3 len issue update_fresh [OF fresh] by simp
    have d: "deque_of (mem_issuance ?m) = (case ip of None \<Rightarrow> recent ?s | Some i \<Rightarrow> (recent ?s)(i := recent ?s i @ [now]))"
      using dq by (auto simp: deque_of_def fun_eq_iff split: option.split)
    have a: "abs_mem ?m = \<lparr>live = live ?s @ [?c], recent = (case ip of None \<Rightarrow> recent ?s | Some i \<Rightarrow> (recent ?s)(i := recent ?s i @ [now]))\<rparr>"
      using lv d by (simp add: abs_mem_def)
    have "mem_ok now ?m"
      using r(4) fresh dq unfolding mem_ok_def d by (auto simp: sorted_append split: option.splits)
    with 3 i a r(1,3) sub show ?thesis by (auto simp: spec_issue_def split: if_splits)
  qed
qed

lemma delete_is_filter: "AList.delete k al = filter (\<lambda>p. fst p \<noteq> k) al"
  by (auto simp: AList.delete_eq intro!: filter_cong)

lemma map_of_find: "map fst al = map (g \<circ> snd) al \<Longrightarrow> map_of al n = find (\<lambda>c. g c = n) (map snd al)"
  by (induction al) auto

lemma pop_mem_refines:
  assumes "mem_ok t m" and "t \<le> now"
  shows "case pop_mem k a ty now m of (o', m') \<Rightarrow>
    Popped o' = fst (spec_step cfg (Pop k a ty now) (abs_mem m)) \<and>
    prune now (abs_mem m') = prune now (snd (spec_step cfg (Pop k a ty now) (abs_mem m))) \<and> mem_ok now m' \<and>
    set (mem_challenges m') \<subseteq> set (mem_challenges m)"
proof -
  have ks: "map fst (mem_challenges m) = map (ch_nonce \<circ> snd) (mem_challenges m)"
    and d: "distinct (map fst (mem_challenges m))"
    using assms(1) by (simp_all add: mem_ok_def)
  then have "distinct (map ch_nonce (map snd (mem_challenges m)))" by (metis map_map)
  from accept_live [OF this] have v: "Popped (accept_challenge a ty now (map_of (mem_challenges m) k))
      = fst (spec_step cfg (Pop k a ty now) (abs_mem m))"
    by (simp add: spec_pop_def prune_def abs_mem_def map_of_find [OF ks])
  have f: "filter (\<lambda>p. fst p \<noteq> k) (mem_challenges m) = filter (\<lambda>p. ch_nonce (snd p) \<noteq> k) (mem_challenges m)"
    using ks unfolding map_eq_conv by (intro filter_cong) auto
  have p: "prune now (abs_mem (m\<lparr>mem_challenges := AList.delete k (mem_challenges m)\<rparr>))
      = prune now (snd (spec_step cfg (Pop k a ty now) (abs_mem m)))"
    by (simp add: spec_pop_def prune_def abs_mem_def delete_is_filter f filter_map comp_def conj_commute fun_eq_iff)
  have "mem_ok now (m\<lparr>mem_challenges := AList.delete k (mem_challenges m)\<rparr>)"
    using assms ks d by (auto simp: mem_ok_def delete_is_filter map_fst_filter distinct_map_filter intro: order.trans)
  with v p show ?thesis by (simp add: pop_mem_def delete_is_filter)
qed

text \<open>The persistent backend.\<close>

lemma abs_db_deleted:
  "abs_db cfg \<lparr>challenge_rows = delete_expired cfg now (challenge_rows db),
     issuance_rows = sql_delete (\<lambda>r. ci_namespace r = ch_namespace cfg \<and> ci_issued_at r < now - 60) (issuance_rows db)\<rparr>
   = prune now (abs_db cfg db)"
  by (auto simp: abs_db_def prune_def delete_expired_def sql_delete_def filter_map comp_def fun_eq_iff
      intro!: arg_cong [where f = "map _"] filter_cong)

lemma issue_db_refines:
  assumes "table_ok cr_clash (challenge_rows db)" and "(ch_namespace cfg, ''0x'' @ k) \<notin> cr_key ` set (challenge_rows db)"
  shows "case issue_persistent cfg a ty p n ip now k db of (o', db') \<Rightarrow>
    issued_outcome o' = fst (spec_step cfg (Issue a ty p n ip now k) (abs_db cfg db)) \<and>
    prune now (abs_db cfg db') = prune now (snd (spec_step cfg (Issue a ty p n ip now k) (abs_db cfg db))) \<and>
    table_ok cr_clash (challenge_rows db') \<and>
    cr_key ` set (challenge_rows db') \<subseteq> insert (ch_namespace cfg, ''0x'' @ k) (cr_key ` set (challenge_rows db))"
proof -
  let ?c = "new_challenge cfg a ty p n now k" let ?s = "prune now (abs_db cfg db)"
  define rows where "rows = delete_expired cfg now (challenge_rows db)"
  define log where "log = sql_delete (\<lambda>r. ci_namespace r = ch_namespace cfg \<and> ci_issued_at r < now - 60) (issuance_rows db)"
  have s: "?s = abs_db cfg \<lparr>challenge_rows = rows, issuance_rows = log\<rparr>"
    unfolding rows_def log_def by (rule abs_db_deleted [symmetric])
  have sub: "set rows \<subseteq> set (challenge_rows db)" by (auto simp: rows_def delete_expired_def sql_delete_def)
  have ok: "table_ok cr_clash rows" using assms(1) by (simp add: rows_def delete_expired_def cr.ok_delete)
  let ?r = "\<lparr>cr_namespace = ch_namespace cfg, cr_challenge = ?c\<rparr>"
  have key: "cr_key ?r = (ch_namespace cfg, ''0x'' @ k)" by (simp add: cr_key_def)
  have ins: "sql_insert cr_clash ?r rows = Some (rows @ [?r])"
    using assms(2) sub key by (force simp: sql_insert_Some cr_clash_def)
  have lv: "length (select (\<lambda>r. cr_namespace r = ch_namespace cfg) rows) = length (live ?s)"
    unfolding s by (simp add: abs_db_def select_def)
  have rc: "length (select (\<lambda>r. ci_namespace r = ch_namespace cfg \<and> ci_source_ip r = i \<and> ci_issued_at r \<ge> now - 60) log)
      = length (recent ?s i)" for i
    unfolding s by (auto simp: abs_db_def select_def log_def sql_delete_def intro!: arg_cong [where f = length] filter_cong)
  let ?over = "case ip of None \<Rightarrow> False | Some i \<Rightarrow> int (length (recent ?s i)) \<ge> per_ip_per_minute cfg"
  let ?db = "\<lparr>challenge_rows = rows @ [?r], issuance_rows = log @ (case ip of None \<Rightarrow> []
      | Some i \<Rightarrow> [\<lparr>ci_namespace = ch_namespace cfg, ci_source_ip = i, ci_issued_at = now\<rparr>])\<rparr>"
  have body: "issue_body cfg ?c ip now db = (if ?over then Inl (rate_limited cfg (the ip))
      else if int (length (live ?s)) \<ge> max_pending cfg then Inl (store_full cfg) else Inr (?c, ?db))"
    by (simp add: issue_body_def Let_def rows_def [symmetric] log_def [symmetric] lv rc ins cong: option.case_cong)
  have a: "abs_db cfg ?db = \<lparr>live = live ?s @ [?c],
      recent = (case ip of None \<Rightarrow> recent ?s | Some i \<Rightarrow> (recent ?s)(i := recent ?s i @ [now]))\<rparr>"
    unfolding s by (auto simp: abs_db_def fun_eq_iff split: option.split)
  have t: "table_ok cr_clash (rows @ [?r])" by (rule cr.ok_insert [OF ok ins])
  have k: "cr_key ` set (rows @ [?r]) \<subseteq> insert (ch_namespace cfg, ''0x'' @ k) (cr_key ` set (challenge_rows db))"
    using sub key by auto
  consider ?over | "\<not> ?over" "int (length (live ?s)) \<ge> max_pending cfg" | "\<not> ?over" "int (length (live ?s)) < max_pending cfg"
    by linarith
  then show ?thesis
  proof cases
    case 3
    then have "issue_persistent cfg a ty p n ip now k db = (Inr ?c, ?db)" by (simp add: issue_persistent_def txn_def body)
    then show ?thesis using 3 a t k by (simp add: spec_issue_def)
  qed (use assms(1) in \<open>auto simp: issue_persistent_def txn_def body spec_issue_def\<close>)
qed

lemma pop_db_refines:
  assumes "table_ok cr_clash (challenge_rows db)"
  shows "case pop_db cfg k a ty now db of (o', db') \<Rightarrow>
    Popped o' = fst (spec_step cfg (Pop k a ty now) (abs_db cfg db)) \<and>
    prune now (abs_db cfg db') = prune now (snd (spec_step cfg (Pop k a ty now) (abs_db cfg db))) \<and>
    table_ok cr_clash (challenge_rows db') \<and> set (challenge_rows db') \<subseteq> set (challenge_rows db)"
proof -
  let ?rs = "filter (\<lambda>r. cr_namespace r = ch_namespace cfg) (challenge_rows db)"
  have l: "map_option cr_challenge (lookup cr_key (ch_namespace cfg, k) rs)
      = find (\<lambda>c. ch_nonce c = k) (map cr_challenge (filter (\<lambda>r. cr_namespace r = ch_namespace cfg) rs))" for rs
    by (induction rs) (auto simp: cr_key_def)
  have "distinct (map ch_nonce (map cr_challenge ?rs))"
  proof -
    have "distinct (map cr_key ?rs)" using cr.distinct_keys [OF assms] by (rule distinct_map_filter)
    moreover have "map cr_key ?rs = map (Pair (ch_namespace cfg)) (map ch_nonce (map cr_challenge ?rs))"
      by (auto simp: cr_key_def)
    ultimately show ?thesis by (metis distinct_map)
  qed
  from accept_live [OF this] have v: "Popped (fst (pop_db cfg k a ty now db)) = fst (spec_step cfg (Pop k a ty now) (abs_db cfg db))"
    by (simp add: pop_db_def pop_persistent_def l spec_pop_def prune_def abs_db_def)
  have p: "prune now (abs_db cfg (snd (pop_db cfg k a ty now db))) = prune now (snd (spec_step cfg (Pop k a ty now) (abs_db cfg db)))"
    by (auto simp: pop_db_def pop_persistent_def spec_pop_def prune_def abs_db_def sql_delete_def filter_map comp_def cr_key_def fun_eq_iff
        intro!: arg_cong [where f = "map _"] filter_cong)
  show ?thesis
    using v p cr.ok_delete [OF assms] by (auto simp: pop_db_def pop_persistent_def sql_delete_def)
qed

section \<open>Traces\<close>

definition fresh_nonces :: "ch_op list \<Rightarrow> string set \<Rightarrow> bool" where
  "fresh_nonces ops used \<longleftrightarrow> distinct (ch_tokens ops) \<and> (\<forall>k \<in> set (ch_tokens ops). ''0x'' @ k \<notin> used)"

lemma fresh_nonces_Issue:
  "fresh_nonces (Issue a t p n ip now k # ops) used \<Longrightarrow> used' \<subseteq> insert (''0x'' @ k) used \<Longrightarrow>
   ''0x'' @ k \<notin> used \<and> fresh_nonces ops used'"
  by (auto simp: fresh_nonces_def)

lemma fresh_nonces_Pop: "fresh_nonces (Pop k a t now # ops) used \<Longrightarrow> used' \<subseteq> used \<Longrightarrow> fresh_nonces ops used'"
  by (auto simp: fresh_nonces_def)

definition clock_ok :: "rat \<Rightarrow> ch_op list \<Rightarrow> bool" where
  "clock_ok t ops \<longleftrightarrow> sorted (t # map ch_time ops)"

lemma clock_ok_simps [simp]:
  "clock_ok t []" "clock_ok t (op # ops) \<longleftrightarrow> t \<le> ch_time op \<and> clock_ok (ch_time op) ops"
  by (auto simp: clock_ok_def intro: order.trans)

text \<open>
  The refinement argument, once for every backend: a backend with an abstraction function whose every
  call agrees with the specification up to stale entries has the outcomes of the specification.
\<close>

locale challenge_backend =
  fixes cfg :: ch_config
    and step :: "ch_op \<Rightarrow> 's \<Rightarrow> ch_outcome \<times> 's"
    and abs :: "'s \<Rightarrow> ch_spec" and ok :: "rat \<Rightarrow> 's \<Rightarrow> bool" and nonces :: "'s \<Rightarrow> string set"
  assumes step_refines: "ok t s \<Longrightarrow> clock_ok t [op] \<Longrightarrow> fresh_nonces [op] (nonces s) \<Longrightarrow>
      fst (step op s) = fst (spec_step cfg op (abs s)) \<and>
      prune (ch_time op) (abs (snd (step op s))) = prune (ch_time op) (snd (spec_step cfg op (abs s))) \<and>
      ok (ch_time op) (snd (step op s)) \<and>
      nonces (snd (step op s)) \<subseteq> (\<lambda>k. ''0x'' @ k) ` set (ch_tokens [op]) \<union> nonces s"
begin

theorem outcomes_refine:
  assumes "ok t s" and "clock_ok t ops" and "fresh_nonces ops (nonces s)" and "prune t (abs s) = prune t a"
  shows "outcomes step ops s = outcomes (spec_step cfg) ops a"
  using assms
proof (induction ops arbitrary: t s a)
  case (Cons op ops)
  obtain o1 s1 where s1: "step op s = (o1, s1)" by (cases "step op s")
  obtain o2 a1 where a1: "spec_step cfg op a = (o2, a1)" by (cases "spec_step cfg op a")
  have c: "clock_ok t [op]" "t \<le> ch_time op" "clock_ok (ch_time op) ops" using Cons.prems(2) by simp_all
  have f: "fresh_nonces [op] (nonces s)" using Cons.prems(3) by (cases op) (auto simp: fresh_nonces_def)
  have "spec_step cfg op (abs s) = spec_step cfg op a"
    by (rule spec_step_prune [OF prune_same [OF c(2) Cons.prems(4)]])
  with step_refines [OF Cons.prems(1) c(1) f] s1 a1 have
    r: "o1 = o2" "prune (ch_time op) (abs s1) = prune (ch_time op) a1" "ok (ch_time op) s1"
      "nonces s1 \<subseteq> (\<lambda>k. ''0x'' @ k) ` set (ch_tokens [op]) \<union> nonces s"
    by simp_all
  have "fresh_nonces ops (nonces s1)"
    using Cons.prems(3) r(4) by (cases op) (auto simp: fresh_nonces_def)
  from Cons.IH [OF r(3) c(3) this r(2)] r(1) s1 a1 show ?case by simp
qed simp

end

interpretation mem_backend: challenge_backend cfg "mem_step cfg" abs_mem mem_ok "\<lambda>m. fst ` set (mem_challenges m)" for cfg
proof
  fix t and s :: mem_store and op
  assume a: "mem_ok t s" "clock_ok t [op]" "fresh_nonces [op] (fst ` set (mem_challenges s))"
  show "fst (mem_step cfg op s) = fst (spec_step cfg op (abs_mem s)) \<and>
      prune (ch_time op) (abs_mem (snd (mem_step cfg op s))) = prune (ch_time op) (snd (spec_step cfg op (abs_mem s))) \<and>
      mem_ok (ch_time op) (snd (mem_step cfg op s)) \<and>
      fst ` set (mem_challenges (snd (mem_step cfg op s)))
        \<subseteq> (\<lambda>k. ''0x'' @ k) ` set (ch_tokens [op]) \<union> fst ` set (mem_challenges s)"
  proof (cases op)
    case (Issue ad ty p n ip now k)
    obtain o1 m1 where i: "issue_mem cfg ad ty p n ip now k s = (o1, m1)" by fastforce
    from a Issue have "t \<le> now" "''0x'' @ k \<notin> fst ` set (mem_challenges s)" by (simp_all add: fresh_nonces_def)
    from issue_mem_refines [OF a(1) this, of cfg ad ty p n ip] have
      "(issued_outcome o1, abs_mem m1) = spec_step cfg op (abs_mem s)" "mem_ok now m1"
      "fst ` set (mem_challenges m1) \<subseteq> insert (''0x'' @ k) (fst ` set (mem_challenges s))"
      unfolding i Issue by simp_all
    then have sp: "spec_step cfg op (abs_mem s) = (issued_outcome o1, abs_mem m1)" "mem_ok now m1"
      "fst ` set (mem_challenges m1) \<subseteq> insert (''0x'' @ k) (fst ` set (mem_challenges s))" by simp_all
    have st: "mem_step cfg op s = (issued_outcome o1, m1)" by (simp add: Issue i)
    show ?thesis unfolding st sp(1) using sp(2,3) by (simp add: Issue)
  next
    case (Pop k ad ty now)
    obtain o1 m1 where i: "pop_mem k ad ty now s = (o1, m1)" by fastforce
    from a Pop have "t \<le> now" by simp
    from pop_mem_refines [OF a(1) this, of cfg k ad ty] show ?thesis
      unfolding i using Pop i by auto
  qed
qed

interpretation db_backend: challenge_backend cfg "db_step cfg" "abs_db cfg"
  "\<lambda>_ db. table_ok cr_clash (challenge_rows db)"
  "\<lambda>db. {n. (ch_namespace cfg, n) \<in> cr_key ` set (challenge_rows db)}" for cfg
proof
  fix t :: rat and s :: ch_db and op
  assume a: "table_ok cr_clash (challenge_rows s)" "clock_ok t [op]"
    "fresh_nonces [op] {n. (ch_namespace cfg, n) \<in> cr_key ` set (challenge_rows s)}"
  show "fst (db_step cfg op s) = fst (spec_step cfg op (abs_db cfg s)) \<and>
      prune (ch_time op) (abs_db cfg (snd (db_step cfg op s))) = prune (ch_time op) (snd (spec_step cfg op (abs_db cfg s))) \<and>
      table_ok cr_clash (challenge_rows (snd (db_step cfg op s))) \<and>
      {n. (ch_namespace cfg, n) \<in> cr_key ` set (challenge_rows (snd (db_step cfg op s)))}
        \<subseteq> (\<lambda>k. ''0x'' @ k) ` set (ch_tokens [op]) \<union> {n. (ch_namespace cfg, n) \<in> cr_key ` set (challenge_rows s)}"
  proof (cases op)
    case (Issue ad ty p n ip now k)
    obtain o1 m1 where i: "issue_persistent cfg ad ty p n ip now k s = (o1, m1)" by fastforce
    from a Issue have f: "(ch_namespace cfg, ''0x'' @ k) \<notin> cr_key ` set (challenge_rows s)" by (simp add: fresh_nonces_def)
    from issue_db_refines [OF a(1) f, of ad ty p n ip now] show ?thesis
      unfolding i using Issue i by auto
  next
    case (Pop k ad ty now)
    obtain o1 m1 where i: "pop_db cfg k ad ty now s = (o1, m1)" by fastforce
    from pop_db_refines [OF a(1), of cfg k ad ty now] show ?thesis
      unfolding i using Pop i by auto
  qed
qed

lemma spec_issue_cases:
  assumes "spec_step cfg (Issue a t p n ip now k) s = (o1, s1)"
  shows "(o1 = Issued (new_challenge cfg a t p n now k) \<and> live s1 = live (prune now s) @ [new_challenge cfg a t p n now k]) \<or>
    (\<exists>e. o1 = Refused e) \<and> live s1 = live (prune now s)"
  using assms by (auto simp: spec_issue_def split: if_splits)

lemma spec_pop_cases:
  assumes "spec_step cfg (Pop k a t now) s = (o1, s1)"
  shows "o1 = Popped (accept_challenge a t now (find (\<lambda>c. ch_nonce c = k) (live (prune now s)))) \<and>
    live s1 = filter (\<lambda>c. ch_nonce c \<noteq> k) (live (prune now s))"
  using assms by (auto simp: spec_pop_def)

lemma live_prune: "set (live (prune now s)) \<subseteq> set (live s)"
  by (auto simp: prune_def)

lemma accept_Some:
  "accept_challenge a t now (find (\<lambda>c. ch_nonce c = k) cs) = Some c \<Longrightarrow>
   c \<in> set cs \<and> ch_nonce c = k \<and> ch_auth_type c = t \<and> ch_address c = (if t = ''evm'' then lower a else a) \<and>
   now \<le> ch_expires_at c"
  by (auto simp: accept_challenge_def split: option.splits if_splits dest: find_Some_D)

lemma length_outcomes [simp]: "length (outcomes step ops s) = length ops"
  by (induction ops arbitrary: s) (simp_all add: Let_def split: prod.split)

text \<open>A nonce that is neither live nor still to be issued is never accepted again.\<close>

lemma gone_stays_gone:
  assumes "n \<notin> ch_nonce ` set (live s)" and "\<forall>k \<in> set (ch_tokens ops). ''0x'' @ k \<noteq> n"
    and "j < length ops" and "outcomes (spec_step cfg) ops s ! j = Popped (Some c)"
  shows "ch_nonce c \<noteq> n"
  using assms
proof (induction ops arbitrary: s j)
  case (Cons op ops)
  obtain o1 s1 where s1: "spec_step cfg op s = (o1, s1)" by fastforce
  have l: "n \<notin> ch_nonce ` set (live s1)"
  proof (cases op)
    case (Issue a t p m ip now k)
    with spec_issue_cases [of cfg a t p m ip now k s o1 s1] s1 Cons.prems(1,2) live_prune [of now s] show ?thesis
      by fastforce
  next
    case (Pop k a t now)
    with spec_pop_cases [of cfg k a t now s o1 s1] s1 Cons.prems(1) live_prune [of now s] show ?thesis by auto
  qed
  have t: "\<forall>k \<in> set (ch_tokens ops). ''0x'' @ k \<noteq> n" using Cons.prems(2) by (cases op) simp_all
  show ?case
  proof (cases j)
    case 0
    with Cons.prems(4) s1 have o1: "o1 = Popped (Some c)" by simp
    show ?thesis
    proof (cases op)
      case (Issue a t p m ip now k)
      with spec_issue_cases [of cfg a t p m ip now k s o1 s1] s1 o1 show ?thesis by auto
    next
      case (Pop k a t now)
      with spec_pop_cases [of cfg k a t now s o1 s1] s1 o1 have
        "accept_challenge a t now (find (\<lambda>c. ch_nonce c = k) (live (prune now s))) = Some c" by simp
      from accept_Some [OF this] live_prune [of now s] Cons.prems(1) show ?thesis by auto
    qed
  next
    case (Suc i)
    with Cons.prems s1 show ?thesis by (intro Cons.IH [OF l t, of i]) simp_all
  qed
qed simp

lemma spec_single_use:
  assumes "distinct (map ch_nonce (live s))" and "fresh_nonces ops (ch_nonce ` set (live s))"
    and "j < k" and "k < length ops"
    and "outcomes (spec_step cfg) ops s ! j = Popped (Some c)" and "outcomes (spec_step cfg) ops s ! k = Popped (Some c')"
  shows "ch_nonce c \<noteq> ch_nonce c'"
  using assms
proof (induction ops arbitrary: s j k)
  case (Cons op ops)
  obtain o1 s1 where s1: "spec_step cfg op s = (o1, s1)" by fastforce
  from Cons.prems(3) obtain k' where k: "k = Suc k'" by (cases k) auto
  have k': "k' < length ops" "outcomes (spec_step cfg) ops s1 ! k' = Popped (Some c')"
    using Cons.prems(4,6) s1 k by simp_all
  show ?case
  proof (cases op)
    case (Issue a t p m ip now x)
    note d = spec_issue_cases [of cfg a t p m ip now x s o1 s1]
    from d s1 Issue Cons.prems(5) obtain i where j: "j = Suc i" by (cases j) auto
    have f: "''0x'' @ x \<notin> ch_nonce ` set (live s) \<and> fresh_nonces ops (insert (''0x'' @ x) (ch_nonce ` set (live s)))"
      using Cons.prems(2) fresh_nonces_Issue unfolding Issue by blast
    have "set (live s1) \<subseteq> insert (new_challenge cfg a t p m now x) (set (live s))"
      using d s1 Issue live_prune [of now s] by auto
    then have "ch_nonce ` set (live s1) \<subseteq> ch_nonce ` insert (new_challenge cfg a t p m now x) (set (live s))"
      by (rule image_mono)
    then have sub: "ch_nonce ` set (live s1) \<subseteq> insert (''0x'' @ x) (ch_nonce ` set (live s))" by simp
    have "distinct (map ch_nonce (live (prune now s)))"
      using Cons.prems(1) by (simp add: prune_def distinct_map_filter)
    moreover have "''0x'' @ x \<notin> ch_nonce ` set (live (prune now s))"
      using f live_prune [of now s] by blast
    ultimately have "distinct (map ch_nonce (live s1))"
      using d s1 Issue by auto
    moreover have "fresh_nonces ops (ch_nonce ` set (live s1))"
      using f sub unfolding fresh_nonces_def by blast
    ultimately show ?thesis
      using Cons.IH [of s1 i k'] Cons.prems(3,5) j k k' s1 by simp
  next
    case (Pop x a t now)
    note d = spec_pop_cases [of cfg x a t now s o1 s1]
    have sub: "ch_nonce ` set (live s1) \<subseteq> ch_nonce ` set (live s)"
      using d s1 Pop live_prune [of now s] by auto
    have f: "fresh_nonces ops (ch_nonce ` set (live s1))"
      by (rule fresh_nonces_Pop [OF Cons.prems(2) [unfolded Pop] sub])
    show ?thesis
    proof (cases j)
      case 0
      with Cons.prems(5) s1 d Pop have
        "accept_challenge a t now (find (\<lambda>c. ch_nonce c = x) (live (prune now s))) = Some c" by simp
      from accept_Some [OF this] have c: "c \<in> set (live (prune now s))" "ch_nonce c = x" by simp_all
      have "x \<notin> ch_nonce ` set (live s1)" using d s1 Pop by auto
      moreover have "\<forall>k \<in> set (ch_tokens ops). ''0x'' @ k \<noteq> x"
        using Cons.prems(2) c live_prune [of now s] unfolding Pop fresh_nonces_def by fastforce
      ultimately have "ch_nonce c' \<noteq> x" by (rule gone_stays_gone [OF _ _ k'])
      then show ?thesis using c(2) by simp
    next
      case (Suc i)
      have "distinct (map ch_nonce (live s1))"
        using Cons.prems(1) d s1 Pop by (simp add: prune_def distinct_map_filter)
      with f show ?thesis using Cons.IH [of s1 i k'] Cons.prems(3,5) Suc k k' s1 by simp
    qed
  qed
qed simp

lemma spec_pop_origin:
  assumes "j < length ops" and "outcomes (spec_step cfg) ops s ! j = Popped (Some c)"
  shows "(\<exists>a now. ops ! j = Pop (ch_nonce c) a (ch_auth_type c) now \<and>
      ch_address c = (if ch_auth_type c = ''evm'' then lower a else a) \<and> now \<le> ch_expires_at c) \<and>
    (c \<in> set (live s) \<or> (\<exists>i<j. outcomes (spec_step cfg) ops s ! i = Issued c \<and>
       (\<exists>a t p n ip now k. ops ! i = Issue a t p n ip now k \<and> c = new_challenge cfg a t p n now k)))"
  using assms
proof (induction ops arbitrary: s j)
  case (Cons op ops)
  obtain o1 s1 where s1: "spec_step cfg op s = (o1, s1)" by fastforce
  show ?case
  proof (cases j)
    case 0
    then have o1: "o1 = Popped (Some c)" using Cons.prems(2) s1 by simp
    show ?thesis
    proof (cases op)
      case (Issue a t p m ip now k)
      with spec_issue_cases [of cfg a t p m ip now k s o1 s1] s1 o1 show ?thesis by auto
    next
      case (Pop k a t now)
      with spec_pop_cases [of cfg k a t now s o1 s1] s1 o1 have
        "accept_challenge a t now (find (\<lambda>c. ch_nonce c = k) (live (prune now s))) = Some c" by simp
      from accept_Some [OF this] live_prune [of now s] 0 Pop show ?thesis by auto
    qed
  next
    case (Suc i)
    have IH: "(\<exists>a now. ops ! i = Pop (ch_nonce c) a (ch_auth_type c) now \<and>
          ch_address c = (if ch_auth_type c = ''evm'' then lower a else a) \<and> now \<le> ch_expires_at c) \<and>
        (c \<in> set (live s1) \<or> (\<exists>l<i. outcomes (spec_step cfg) ops s1 ! l = Issued c \<and>
           (\<exists>a t p n ip now k. ops ! l = Issue a t p n ip now k \<and> c = new_challenge cfg a t p n now k)))"
      using Cons.prems s1 Suc by (intro Cons.IH) simp_all
    then consider "c \<in> set (live s1)" | l where "l < i" "outcomes (spec_step cfg) ops s1 ! l = Issued c"
        "\<exists>a t p n ip now k. ops ! l = Issue a t p n ip now k \<and> c = new_challenge cfg a t p n now k" by blast
    then have "c \<in> set (live s) \<or> (\<exists>i<j. outcomes (spec_step cfg) (op # ops) s ! i = Issued c \<and>
       (\<exists>a t p n ip now k. (op # ops) ! i = Issue a t p n ip now k \<and> c = new_challenge cfg a t p n now k))"
    proof cases
      case 1
      show ?thesis
      proof (cases op)
        case (Issue a t p m ip now k)
        with spec_issue_cases [of cfg a t p m ip now k s o1 s1] s1 1 live_prune [of now s]
        have "c \<in> set (live s) \<or> (o1 = Issued c \<and> c = new_challenge cfg a t p m now k)" by auto
        then show ?thesis using s1 Issue Suc by (auto intro!: exI [of _ 0])
      next
        case (Pop k a t now)
        with spec_pop_cases [of cfg k a t now s o1 s1] s1 1 live_prune [of now s] show ?thesis by auto
      qed
    next
      case (2 l)
      then show ?thesis using s1 Suc by (auto intro!: exI [of _ "Suc l"])
    qed
    with IH Suc show ?thesis by simp
  qed
qed simp

section \<open>Properties\<close>

lemma empty_backends:
  "abs_mem empty_mem = empty_spec" "mem_ok t empty_mem" "abs_db cfg empty_ch_db = empty_spec"
  by (simp_all add: abs_mem_def empty_mem_def deque_of_def empty_spec_def mem_ok_def abs_db_def empty_ch_db_def fun_eq_iff)

definition start_time :: "ch_op list \<Rightarrow> rat" where
  "start_time ops = (case ops of [] \<Rightarrow> 0 | op # _ \<Rightarrow> ch_time op)"

lemma clock_from_start: "sorted (map ch_time ops) \<Longrightarrow> clock_ok (start_time ops) ops"
  by (cases ops) (auto simp: start_time_def clock_ok_def)

text \<open>
  C35. The in-memory and the shared SQLite backend of the challenge store promise the same thing: for every
  sequence of \<open>issue\<close> and \<open>pop\<close> calls under a clock that does not run backwards, with fresh random
  tokens, each call of either backend returns what the specification returns (live challenges in order of
  issue, quotas over the last minute), whatever stale entries the backend still keeps.
\<close>

theorem ch_backends_refine:
  assumes "sorted (map ch_time ops)" and "distinct (ch_tokens ops)"
  shows "outcomes (mem_step cfg) ops empty_mem = outcomes (spec_step cfg) ops empty_spec \<and>
    outcomes (db_step cfg) ops empty_ch_db = outcomes (spec_step cfg) ops empty_spec"
proof
  note c = clock_from_start [OF assms(1)]
  show "outcomes (mem_step cfg) ops empty_mem = outcomes (spec_step cfg) ops empty_spec"
    by (rule mem_backend.outcomes_refine [OF empty_backends(2) c])
      (use assms(2) in \<open>simp_all add: fresh_nonces_def empty_mem_def empty_backends(1) [unfolded empty_mem_def]\<close>)
  show "outcomes (db_step cfg) ops empty_ch_db = outcomes (spec_step cfg) ops empty_spec"
    by (rule db_backend.outcomes_refine [OF _ c])
      (use assms(2) in \<open>simp_all add: fresh_nonces_def empty_ch_db_def empty_backends(3) [unfolded empty_ch_db_def]\<close>)
qed

text \<open>
  C36. A login challenge is accepted at most once, and only as it was issued: when \<open>pop\<close> returns a
  challenge, an earlier \<open>issue\<close> created exactly it, the caller presents its address and authentication
  type, it has not expired, and no other call of the run returns a challenge with its nonce.
\<close>

theorem ch_single_use:
  assumes "sorted (map ch_time ops)" and "distinct (ch_tokens ops)" and "os = outcomes (db_step cfg) ops empty_ch_db"
    and "j < length ops" and "os ! j = Popped (Some c)"
  shows "(\<exists>a now. ops ! j = Pop (ch_nonce c) a (ch_auth_type c) now \<and>
      ch_address c = (if ch_auth_type c = ''evm'' then lower a else a) \<and> now \<le> ch_expires_at c) \<and>
    (\<exists>i<j. os ! i = Issued c \<and>
       (\<exists>a t p n ip now k. ops ! i = Issue a t p n ip now k \<and> c = new_challenge cfg a t p n now k)) \<and>
    (\<forall>k c'. k < length ops \<longrightarrow> os ! k = Popped (Some c') \<longrightarrow> ch_nonce c' = ch_nonce c \<longrightarrow> k = j)"
proof -
  have os: "os = outcomes (spec_step cfg) ops empty_spec"
    unfolding assms(3)
    by (rule db_backend.outcomes_refine [OF _ clock_from_start [OF assms(1)]])
      (use assms(2) in \<open>simp_all add: fresh_nonces_def empty_ch_db_def empty_backends(3) [unfolded empty_ch_db_def]\<close>)
  have f: "fresh_nonces ops (ch_nonce ` set (live empty_spec))" "distinct (map ch_nonce (live empty_spec))"
    using assms(2) by (simp_all add: fresh_nonces_def empty_spec_def)
  have once: "k = j" if "k < length ops" "os ! k = Popped (Some c')" "ch_nonce c' = ch_nonce c" for k c'
  proof (rule ccontr)
    assume "k \<noteq> j"
    then consider "k < j" | "j < k" by linarith
    then show False
      using spec_single_use [OF f(2,1)] assms(4,5) that unfolding os by cases metis+
  qed
  have "c \<notin> set (live empty_spec)" by (simp add: empty_spec_def)
  with spec_pop_origin [OF assms(4) assms(5) [unfolded os]] once show ?thesis
    unfolding os by blast
qed

definition sample_config :: ch_config where
  "sample_config = \<lparr>ttl_seconds = 300, max_pending = 10, per_ip_per_minute = 5, ch_namespace = ''vault_registration''\<rparr>"

definition sample_ch_ops :: "ch_op list" where
  "sample_ch_ops =
     [Issue ''0xAb'' ''evm'' ''0x00'' ''testnet11'' (Some ''10.0.0.1'') 1 ''aa'',
      Pop ''0xaa'' ''0xAB'' ''evm'' 5, Pop ''0xaa'' ''0xAB'' ''evm'' 6]"

lemma sample_ch_outcomes:
  "outcomes (db_step sample_config) sample_ch_ops empty_ch_db =
     [Issued (new_challenge sample_config ''0xAb'' ''evm'' ''0x00'' ''testnet11'' 1 ''aa''),
      Popped (Some (new_challenge sample_config ''0xAb'' ''evm'' ''0x00'' ''testnet11'' 1 ''aa'')), Popped None]"
  by code_simp

theorem ch_backends_refine_witness:
  "outcomes (mem_step sample_config) sample_ch_ops empty_mem =
     [Issued (new_challenge sample_config ''0xAb'' ''evm'' ''0x00'' ''testnet11'' 1 ''aa''),
      Popped (Some (new_challenge sample_config ''0xAb'' ''evm'' ''0x00'' ''testnet11'' 1 ''aa'')), Popped None]"
proof -
  have "sorted (map ch_time sample_ch_ops)" "distinct (ch_tokens sample_ch_ops)" by (simp_all add: sample_ch_ops_def)
  from ch_backends_refine [OF this, of sample_config] sample_ch_outcomes show ?thesis by simp
qed

theorem ch_single_use_witness:
  "\<exists>i<1. outcomes (db_step sample_config) sample_ch_ops empty_ch_db ! i
     = Issued (new_challenge sample_config ''0xAb'' ''evm'' ''0x00'' ''testnet11'' 1 ''aa'')"
proof -
  have a: "sorted (map ch_time sample_ch_ops)" "distinct (ch_tokens sample_ch_ops)" "1 < length sample_ch_ops"
    by (simp_all add: sample_ch_ops_def)
  have "outcomes (db_step sample_config) sample_ch_ops empty_ch_db ! 1
      = Popped (Some (new_challenge sample_config ''0xAb'' ''evm'' ''0x00'' ''testnet11'' 1 ''aa''))"
    by (simp add: sample_ch_outcomes)
  from ch_single_use [OF a(1,2) refl a(3) this] show ?thesis by blast
qed

section \<open>The rate limiter\<close>

text \<open>The specification keeps every allowed attempt and never forgets one.\<close>

definition allow_spec :: "int \<Rightarrow> string \<Rightarrow> rat \<Rightarrow> (string \<Rightarrow> rat list) \<Rightarrow> bool \<times> (string \<Rightarrow> rat list)" where
  "allow_spec quota ip now h =
     (if int (length (filter (\<lambda>t. now - 60 \<le> t) (h ip))) \<ge> quota then (False, h)
      else (True, h(ip := h ip @ [now])))"

definition same_window :: "rat \<Rightarrow> (string \<Rightarrow> rat list) \<Rightarrow> (string \<Rightarrow> rat list) \<Rightarrow> bool" where
  "same_window t a h \<longleftrightarrow>
     (\<forall>ip now. t \<le> now \<longrightarrow> filter (\<lambda>x. now - 60 \<le> x) (a ip) = filter (\<lambda>x. now - 60 \<le> x) (h ip))"

lemma same_window_later: "same_window t a h \<Longrightarrow> t \<le> t' \<Longrightarrow> same_window t' a h"
  by (auto simp: same_window_def)

lemma same_windowD: "same_window t a h \<Longrightarrow> filter (\<lambda>x. t - 60 \<le> x) (a ip) = filter (\<lambda>x. t - 60 \<le> x) (h ip)"
  by (simp add: same_window_def)

lemma filter_twice: "now \<le> now' \<Longrightarrow> filter (\<lambda>x. now' - 60 \<le> x) (filter (\<lambda>x. now - 60 \<le> x) xs) = filter (\<lambda>x. now' - 60 \<le> (x :: rat)) xs"
  by (auto intro!: filter_cong)

text \<open>A window that drops stale entries and adds the allowed attempt follows the specification.\<close>

lemma same_window_step:
  assumes "same_window now a h"
    and "\<And>ip'. filter (\<lambda>x. now - 60 \<le> x) (a' ip') = filter (\<lambda>x. now - 60 \<le> x) (a ip') @ (if b \<and> ip' = ip then [now] else [])"
    and "b = fst (allow_spec quota ip now h)"
  shows "same_window now a' (snd (allow_spec quota ip now h))"
  unfolding same_window_def
proof (intro allI impI)
  fix ip' now'
  assume n: "now \<le> now'"
  have "filter (\<lambda>x. now' - 60 \<le> x) (a' ip') = filter (\<lambda>x. now' - 60 \<le> x) (filter (\<lambda>x. now - 60 \<le> x) (a' ip'))"
    by (simp only: filter_twice [OF n])
  also have "\<dots> = filter (\<lambda>x. now' - 60 \<le> x) (filter (\<lambda>x. now - 60 \<le> x) (h ip') @ (if b \<and> ip' = ip then [now] else []))"
    unfolding assms(2) same_windowD [OF assms(1)] ..
  also have "\<dots> = filter (\<lambda>x. now' - 60 \<le> x) (h ip' @ (if b \<and> ip' = ip then [now] else []))"
    by (simp only: filter_append filter_twice [OF n])
  also have "h ip' @ (if b \<and> ip' = ip then [now] else []) = snd (allow_spec quota ip now h) ip'"
    by (simp add: assms(3) allow_spec_def)
  finally show "filter (\<lambda>x. now' - 60 \<le> x) (a' ip') = filter (\<lambda>x. now' - 60 \<le> x) (snd (allow_spec quota ip now h) ip')" .
qed

lemma deque_of_upd: "deque_of (m(ip := Some dq)) ip' = (if ip' = ip then dq else deque_of m ip')"
  by (simp add: deque_of_def)

definition deques_ok :: "rat \<Rightarrow> (string \<Rightarrow> rat list option) \<Rightarrow> bool" where
  "deques_ok t m \<longleftrightarrow> (\<forall>ip. sorted (deque_of m ip) \<and> (\<forall>x \<in> set (deque_of m ip). x \<le> t))"

lemma allow_mem_refines:
  assumes "deques_ok t m" and "same_window t (deque_of m) h" and "t \<le> now"
  shows "fst (allow_mem quota ip now m) = fst (allow_spec quota ip now h) \<and>
    same_window now (deque_of (snd (allow_mem quota ip now m))) (snd (allow_spec quota ip now h)) \<and>
    deques_ok now (snd (allow_mem quota ip now m))"
proof -
  have w: "same_window now (deque_of m) h" by (rule same_window_later [OF assms(2,3)])
  have p: "popleft_stale (now - 60) (deque_of m ip) = filter (\<lambda>x. now - 60 \<le> x) (deque_of m ip)"
    using assms(1) by (simp add: deques_ok_def popleft_filter)
  have b: "fst (allow_mem quota ip now m) = fst (allow_spec quota ip now h)"
    by (simp add: allow_mem_def allow_spec_def p same_windowD [OF w] Let_def)
  have d: "deque_of (snd (allow_mem quota ip now m)) ip'
      = (if ip' = ip then filter (\<lambda>x. now - 60 \<le> x) (deque_of m ip) @ (if fst (allow_spec quota ip now h) then [now] else [])
         else deque_of m ip')" for ip'
    by (simp add: b [symmetric] allow_mem_def p Let_def deque_of_upd)
  have "same_window now (deque_of (snd (allow_mem quota ip now m))) (snd (allow_spec quota ip now h))"
    by (rule same_window_step [OF w _ refl]) (simp add: d)
  moreover have "deques_ok now (snd (allow_mem quota ip now m))"
    using assms(1,3) by (auto simp: deques_ok_def d sorted_append sorted_wrt_filter intro: order.trans)
  ultimately show ?thesis using b by simp
qed

definition rl_times :: "string \<Rightarrow> rl_row list \<Rightarrow> string \<Rightarrow> rat list" where
  "rl_times ns rows ip = map rl_attempted_at (filter (\<lambda>r. rl_namespace r = ns \<and> rl_source_ip r = ip) rows)"

lemma allow_db_refines:
  assumes "same_window t (rl_times ns rows) h" and "t \<le> now"
  shows "fst (allow_db quota ns ip now rows) = fst (allow_spec quota ip now h) \<and>
    same_window now (rl_times ns (snd (allow_db quota ns ip now rows))) (snd (allow_spec quota ip now h))"
proof -
  have w: "same_window now (rl_times ns rows) h" by (rule same_window_later [OF assms])
  let ?kept = "sql_delete (\<lambda>r. rl_namespace r = ns \<and> rl_attempted_at r < now - 60) rows"
  have k: "filter (\<lambda>x. now - 60 \<le> x) (rl_times ns ?kept ip') = filter (\<lambda>x. now - 60 \<le> x) (rl_times ns rows ip')" for ip'
    by (auto simp: rl_times_def sql_delete_def filter_map comp_def intro!: arg_cong [where f = "map _"] filter_cong)
  have c: "select (\<lambda>r. rl_namespace r = ns \<and> rl_source_ip r = ip \<and> rl_attempted_at r \<ge> now - 60) ?kept
      = filter (\<lambda>r. now - 60 \<le> rl_attempted_at r) (filter (\<lambda>r. rl_namespace r = ns \<and> rl_source_ip r = ip) rows)"
    by (auto simp: select_def sql_delete_def intro!: filter_cong)
  have b: "fst (allow_db quota ns ip now rows) = fst (allow_spec quota ip now h)"
    using arg_cong [OF same_windowD [OF w, of ip], of length]
    by (simp add: allow_db_def allow_spec_def c Let_def rl_times_def filter_map comp_def)
  have "snd (allow_db quota ns ip now rows) = ?kept @ (if fst (allow_spec quota ip now h)
      then [\<lparr>rl_namespace = ns, rl_source_ip = ip, rl_attempted_at = now\<rparr>] else [])"
    unfolding b [symmetric] by (simp add: allow_db_def Let_def)
  then have "filter (\<lambda>x. now - 60 \<le> x) (rl_times ns (snd (allow_db quota ns ip now rows)) ip')
      = filter (\<lambda>x. now - 60 \<le> x) (rl_times ns rows ip') @ (if fst (allow_spec quota ip now h) \<and> ip' = ip then [now] else [])" for ip'
    using k [of ip'] by (simp add: rl_times_def)
  from same_window_step [OF w this refl] b show ?thesis by simp
qed

definition in_window :: "string \<Rightarrow> rat \<Rightarrow> (string \<times> rat) \<times> bool \<Rightarrow> bool" where
  "in_window ip x c \<longleftrightarrow> snd c \<and> fst (fst c) = ip \<and> x \<le> snd (fst c) \<and> snd (fst c) \<le> x + 60"

lemma spec_window:
  assumes "sorted (t # map snd calls)" and "\<forall>ip. \<forall>y \<in> set (h ip). y \<le> t"
    and "\<forall>ip x. int (length (filter (\<lambda>y. x \<le> y \<and> y \<le> x + 60) (h ip))) \<le> max 0 quota"
  shows "int (length (filter (\<lambda>y. x \<le> y \<and> y \<le> x + 60) (h ip)) +
      length (filter (in_window ip x) (zip calls (outcomes (\<lambda>(ip, now). allow_spec quota ip now) calls h)))) \<le> max 0 quota"
  using assms
proof (induction calls arbitrary: t h)
  case (Cons c calls)
  obtain i now where c: "c = (i, now)" by (cases c)
  let ?n = "length (filter (\<lambda>t. now - 60 \<le> t) (h i))"
  have t: "t \<le> now" and s: "sorted (now # map snd calls)" using Cons.prems(1) by (auto simp: c)
  show ?case
  proof (cases "int ?n \<ge> quota")
    case True
    have "\<forall>ip. \<forall>y \<in> set (h ip). y \<le> now" using Cons.prems(2) t by (meson order.trans)
    from Cons.IH [OF s this Cons.prems(3)] True show ?thesis
      by (simp add: c allow_spec_def in_window_def)
  next
    case False
    define h' where "h' = h(i := h i @ [now])"
    have le: "\<forall>ip. \<forall>y \<in> set (h ip). y \<le> now" using Cons.prems(2) t by (meson order.trans)
    then have l: "\<forall>ip. \<forall>y \<in> set (h' ip). y \<le> now" by (simp add: h'_def)
    have w: "\<forall>ip x. int (length (filter (\<lambda>y. x \<le> y \<and> y \<le> x + 60) (h' ip))) \<le> max 0 quota"
    proof (intro allI)
      fix ip x
      show "int (length (filter (\<lambda>y. x \<le> y \<and> y \<le> x + 60) (h' ip))) \<le> max 0 quota"
      proof (cases "ip = i \<and> x \<le> now \<and> now \<le> x + 60")
        case inw: True
        have "length (filter (\<lambda>y. x \<le> y \<and> y \<le> x + 60) (h i)) \<le> ?n"
        proof -
          have "filter (\<lambda>y. x \<le> y \<and> y \<le> x + 60) (h i)
              = filter (\<lambda>y. x \<le> y \<and> y \<le> x + 60) (filter (\<lambda>t. now - 60 \<le> t) (h i))"
            using inw by (auto intro!: filter_cong)
          then show ?thesis by (metis length_filter_le)
        qed
        with False inw show ?thesis by (simp add: h'_def)
      qed (use Cons.prems(3) in \<open>auto simp: h'_def\<close>)
    qed
    have "int (length (filter (\<lambda>y. x \<le> y \<and> y \<le> x + 60) (h ip)) + (if in_window ip x (c, True) then 1 else 0))
        = int (length (filter (\<lambda>y. x \<le> y \<and> y \<le> x + 60) (h' ip)))"
      by (auto simp: c in_window_def h'_def)
    with Cons.IH [OF s l w] False show ?thesis
      by (simp add: c allow_spec_def h'_def [symmetric] split: if_splits)
  qed
qed simp

lemma limiter_outcomes:
  assumes "sorted (t # map snd calls)" and "deques_ok t m" and "same_window t (deque_of m) h" and "same_window t (rl_times ns rows) h"
  shows "outcomes (\<lambda>(ip, now). allow_mem quota ip now) calls m = outcomes (\<lambda>(ip, now). allow_spec quota ip now) calls h \<and>
    outcomes (\<lambda>(ip, now). allow_db quota ns ip now) calls rows = outcomes (\<lambda>(ip, now). allow_spec quota ip now) calls h"
  using assms
proof (induction calls arbitrary: t m h rows)
  case (Cons c calls)
  obtain i now where c: "c = (i, now)" by (cases c)
  have t: "t \<le> now" and s: "sorted (now # map snd calls)" using Cons.prems(1) by (auto simp: c)
  note m = allow_mem_refines [OF Cons.prems(2,3) t, of quota i]
  note d = allow_db_refines [OF Cons.prems(4) t, of quota i]
  from Cons.IH [OF s, of "snd (allow_mem quota i now m)" "snd (allow_spec quota i now h)" "snd (allow_db quota ns i now rows)"] m d
  show ?case by (simp add: c Let_def split_def)
qed simp

text \<open>
  The request limiter keeps its quota in both backends: for attempts under a clock that does not run
  backwards, the in-memory limiter and the SQLite limiter allow exactly the same attempts, and of any
  one address at most the quota are allowed in any window of sixty seconds.
\<close>

theorem rl_quota:
  assumes "sorted (map snd calls)"
  shows "outcomes (\<lambda>(ip, now). allow_mem quota ip now) calls (\<lambda>_. None)
      = outcomes (\<lambda>(ip, now). allow_db quota ns ip now) calls [] \<and>
    int (length (filter (in_window ip x) (zip calls (outcomes (\<lambda>(ip, now). allow_db quota ns ip now) calls [])))) \<le> max 0 quota"
proof -
  obtain t where t: "sorted (t # map snd calls)"
  proof (cases calls)
    case Nil
    then show ?thesis using that [of 0] by simp
  next
    case (Cons c cs)
    then show ?thesis using assms that [of "snd c"] by simp
  qed
  have "deques_ok t (\<lambda>_. None)" "same_window t (deque_of (\<lambda>_. None)) (\<lambda>_. [])" "same_window t (rl_times ns []) (\<lambda>_. [])"
    by (simp_all add: deques_ok_def deque_of_def same_window_def rl_times_def)
  note o = limiter_outcomes [OF t this, of quota]
  from spec_window [OF t, of "\<lambda>_. []" quota x ip] o show ?thesis by simp
qed

theorem rl_quota_witness:
  "outcomes (\<lambda>(ip, now). allow_db 1 ''auth'' ip now) [(''a'', 0), (''a'', 30), (''b'', 31), (''a'', 61)] []
     = [True, False, True, True] \<and>
   int (length (filter (in_window ''a'' 1) (zip [(''a'', 0), (''a'', 30), (''b'', 31), (''a'', 61)] [True, False, True, True]))) \<le> 1"
proof -
  have o: "outcomes (\<lambda>(ip, now). allow_db 1 ''auth'' ip now) [(''a'', 0), (''a'', 30), (''b'', 31), (''a'', 61)] []
     = [True, False, True, True]" by code_simp
  have "sorted (map snd [(''a'', 0), (''a'', 30), (''b'', 31), (''a'', 61 :: rat)])" by simp
  from rl_quota [OF this, of 1 "''auth''" "''a''" 1] o show ?thesis by simp
qed

end
