(* ===== verification/ValidatorLedger.thy ===== *)
theory ValidatorLedger
  imports PyDoc
begin

text \<open>
  \<open>src/solslot_api/validator_ledger.py\<close> with its mixins \<open>inventory_payment_hold_ledger.py\<close>,
  \<open>base_inventory_hold_ledger.py\<close> and \<open>base_lifecycle_ledger.py\<close>: the ledger in which an isolated
  validator records every signature before it leaves the signer. This theory holds the tables and the
  operations; SignerExclusion proves what they exclude.

  A validated claim (a pydantic model) is a record of the attributes the ledger reads, with the text
  \<open>canonical(claim.model_dump(mode='json'))\<close> and \<open>claim.canonical_hash()\<close>; where the ledger itself
  validates stored text, pydantic is the record \<open>claim_api\<close>, an argument. Rows are never deleted, so the
  position of a row is its \<open>rowid\<close> and its \<open>sequence\<close>.
\<close>

section \<open>Errors and helpers\<close>

datatype vl_error =
    ValidatorLedgerConflict string
  | VlValueError string
  | VlPython py_error
  | VlAttributeError
  | VlIntegrityError

definition lift :: "py_error + 'a \<Rightarrow> vl_error + 'a" where
  "lift r = (case r of Inl e \<Rightarrow> Inl (VlPython e) | Inr a \<Rightarrow> Inr a)"

text \<open>Return the stored signature of an exact retry; a stored claim that differs is a conflict.\<close>

definition recover ::
  "('r \<Rightarrow> string) \<Rightarrow> ('r \<Rightarrow> string) \<Rightarrow> ('r \<Rightarrow> string) \<Rightarrow> string \<Rightarrow> string \<Rightarrow> string \<Rightarrow> 'r list \<Rightarrow> vl_error + string option" where
  "recover hash_of claim_of sig_of h claim message rs =
     (case lookup hash_of h rs of
        None \<Rightarrow> Inr None
      | Some r \<Rightarrow> raise_if (claim_of r \<noteq> claim) (ValidatorLedgerConflict message) (Inr (Some (sig_of r))))"

text \<open>\<open>INSERT\<close> whose \<open>IntegrityError\<close> the caller turns into a conflict.\<close>

definition insert_or_conflict :: "('r \<Rightarrow> 'r \<Rightarrow> bool) \<Rightarrow> 'r \<Rightarrow> 'r list \<Rightarrow> string \<Rightarrow> vl_error + 'r list" where
  "insert_or_conflict clash r rs message =
     (case sql_insert clash r rs of None \<Rightarrow> Inl (ValidatorLedgerConflict message) | Some rs' \<Rightarrow> Inr rs')"

text \<open>\<open>json.loads(claim).get(k)\<close>\<close>

definition claim_get :: "string \<Rightarrow> string \<Rightarrow> vl_error + json" where
  "claim_get claim k = bind (lift (py_loads claim)) (\<lambda>v. case v of JObj d \<Rightarrow> Inr (get_or_null d k) | _ \<Rightarrow> Inl VlAttributeError)"

text \<open>\<open>CASE WHEN json_valid(claim) THEN lower(json_extract(claim, '$.a.b')) END\<close>\<close>

definition sql_json_text :: "string \<Rightarrow> string list \<Rightarrow> string option" where
  "sql_json_text claim path =
     (case bind (py_loads claim) (\<lambda>v. py_path v path) of
        Inl _ \<Rightarrow> None
      | Inr JNull \<Rightarrow> None
      | Inr (JStr s) \<Rightarrow> Some (sql_lower s)
      | Inr (JBool b) \<Rightarrow> Some (if b then ''1'' else ''0'')
      | Inr (JInt i) \<Rightarrow> Some (show_int i)
      | Inr w \<Rightarrow> Some (sql_lower (render '','' '':'' w)))"

section \<open>Tables\<close>

record credential_row =
  cs_hash :: string
  cs_claim :: string
  cs_nullifier :: string
  cs_bridge_coin :: string
  cs_vault_action :: string
  cs_evm_transaction :: string
  cs_signature :: string
  cs_signed_at :: int

record primary_row =
  pp_hash :: string
  pp_claim :: string
  pp_purchase :: string
  pp_deed_coin :: string
  pp_signature :: string
  pp_signed_at :: int

record issuance_row =
  vi_hash :: string
  vi_claim :: string
  vi_payment :: string
  vi_series_coin :: string
  vi_launcher_coin :: string
  vi_signature :: string
  vi_signed_at :: int

record transition_row =
  vt_hash :: string
  vt_claim :: string
  vt_payment :: string
  vt_series_coin :: string
  vt_voucher_coin :: string
  vt_payment_coin :: string
  vt_deed_coin :: "string option"
  vt_signature :: string
  vt_signed_at :: int

record phase_row =
  vp_hash :: string
  vp_claim :: string
  vp_series_coin :: string
  vp_transition :: int
  vp_signature :: string
  vp_signed_at :: int

record retry_row =
  vr_predecessor :: string
  vr_phase :: phase_row

record expiry_row =
  vo_hash :: string
  vo_proof :: string
  vo_observed_at :: int

record stripe_row =
  st_hash :: string
  st_claim :: string
  st_purchase :: string
  st_payment_intent :: string
  st_receipt_coin :: string
  st_deed_coin :: string
  st_signature :: string
  st_signed_at :: int

record lock_row =
  lk_coin :: string
  lk_hash :: string

record extension_row =
  ie_hash :: string
  ie_claim :: string
  ie_purchase :: string
  ie_reserved_coin :: string
  ie_signature :: string
  ie_signed_at :: int
  ie_deed_launcher :: "string option"

record history_row =
  rh_hash :: string
  rh_claim :: string
  rh_purchase :: string
  rh_coin :: string
  rh_signature :: string
  rh_signed_at :: int

record active_row =
  ra_coin :: string
  ra_hash :: string

record retirement_row =
  rr_hash :: string
  rr_replacement :: string
  rr_evidence :: string
  rr_retired_at :: int

record payment_hold_row =
  ph_hash :: string
  ph_claim :: string
  ph_purchase :: string
  ph_payment_intent :: string
  ph_deed_launcher :: string
  ph_reserved_coin :: string
  ph_signature :: string
  ph_signed_at :: int
  ph_released :: bool
  ph_release_claim :: "string option"
  ph_release_signature :: "string option"

record abort_row =
  ab_hash :: string
  ab_claim :: string
  ab_hold_hash :: string
  ab_hold_json :: string
  ab_purchase :: string
  ab_payment_intent :: string
  ab_reserved_coin :: string
  ab_deed_launcher :: string
  ab_signature :: string
  ab_signed_at :: int

record base_hold_row =
  bh_purchase :: string
  bh_deed_launcher :: string
  bh_reserved_coin :: string
  bh_payment :: string
  bh_claim :: string
  bh_signature :: string
  bh_signed_at :: int
  bh_payment_start :: "string option"

record observation_row =
  bo_hash :: string
  bo_purchase :: string
  bo_release :: string
  bo_claim :: string
  bo_signature :: string
  bo_signed_at :: int

record terminal_row =
  bt_purchase :: string
  bt_payment :: string
  bt_claim :: string
  bt_signature :: string
  bt_signed_at :: int

record validator_db =
  credentials :: "credential_row list"
  primaries :: "primary_row list"
  issuances :: "issuance_row list"
  transitions :: "transition_row list"
  phases :: "phase_row list"
  retries :: "retry_row list"
  expiries :: "expiry_row list"
  settlements :: "stripe_row list"
  locks :: "lock_row list"
  extensions :: "extension_row list"
  history :: "history_row list"
  actives :: "active_row list"
  retirements :: "retirement_row list"
  payment_holds :: "payment_hold_row list"
  aborts :: "abort_row list"
  base_holds :: "base_hold_row list"
  generations :: "base_hold_row list"
  observations :: "observation_row list"
  terminals :: "terminal_row list"

definition empty_validator_db :: validator_db where
  "empty_validator_db = \<lparr>credentials = [], primaries = [], issuances = [], transitions = [], phases = [], retries = [],
     expiries = [], settlements = [], locks = [], extensions = [], history = [], actives = [], retirements = [],
     payment_holds = [], aborts = [], base_holds = [], generations = [], observations = [], terminals = []\<rparr>"

section \<open>Constraints\<close>

definition cs_clash :: "credential_row \<Rightarrow> credential_row \<Rightarrow> bool" where
  "cs_clash r r' \<longleftrightarrow> cs_hash r = cs_hash r' \<or> cs_nullifier r = cs_nullifier r' \<or> cs_bridge_coin r = cs_bridge_coin r' \<or>
     cs_vault_action r = cs_vault_action r' \<or> cs_evm_transaction r = cs_evm_transaction r'"

definition pp_clash :: "primary_row \<Rightarrow> primary_row \<Rightarrow> bool" where
  "pp_clash r r' \<longleftrightarrow> pp_hash r = pp_hash r' \<or> pp_purchase r = pp_purchase r' \<or> pp_deed_coin r = pp_deed_coin r'"

definition vi_clash :: "issuance_row \<Rightarrow> issuance_row \<Rightarrow> bool" where
  "vi_clash r r' \<longleftrightarrow> vi_hash r = vi_hash r' \<or> vi_payment r = vi_payment r' \<or> vi_series_coin r = vi_series_coin r' \<or>
     vi_launcher_coin r = vi_launcher_coin r'"

definition vt_clash :: "transition_row \<Rightarrow> transition_row \<Rightarrow> bool" where
  "vt_clash r r' \<longleftrightarrow> vt_hash r = vt_hash r' \<or> vt_payment r = vt_payment r' \<or> vt_series_coin r = vt_series_coin r' \<or>
     vt_voucher_coin r = vt_voucher_coin r' \<or> vt_payment_coin r = vt_payment_coin r' \<or>
     nullable_eq (vt_deed_coin r) (vt_deed_coin r')"

definition vp_clash :: "phase_row \<Rightarrow> phase_row \<Rightarrow> bool" where
  "vp_clash r r' \<longleftrightarrow> vp_hash r = vp_hash r' \<or> vp_series_coin r = vp_series_coin r'"

definition vr_clash :: "retry_row \<Rightarrow> retry_row \<Rightarrow> bool" where
  "vr_clash r r' \<longleftrightarrow> vp_hash (vr_phase r) = vp_hash (vr_phase r')"

definition vo_clash :: "expiry_row \<Rightarrow> expiry_row \<Rightarrow> bool" where
  "vo_clash r r' \<longleftrightarrow> vo_hash r = vo_hash r'"

definition st_clash :: "stripe_row \<Rightarrow> stripe_row \<Rightarrow> bool" where
  "st_clash r r' \<longleftrightarrow> st_hash r = st_hash r' \<or> st_purchase r = st_purchase r' \<or> st_payment_intent r = st_payment_intent r' \<or>
     st_receipt_coin r = st_receipt_coin r' \<or> st_deed_coin r = st_deed_coin r'"

definition lk_clash :: "lock_row \<Rightarrow> lock_row \<Rightarrow> bool" where
  "lk_clash r r' \<longleftrightarrow> lk_coin r = lk_coin r'"

definition ie_clash :: "extension_row \<Rightarrow> extension_row \<Rightarrow> bool" where
  "ie_clash r r' \<longleftrightarrow> ie_hash r = ie_hash r' \<or> ie_reserved_coin r = ie_reserved_coin r'"

definition rh_clash :: "history_row \<Rightarrow> history_row \<Rightarrow> bool" where
  "rh_clash r r' \<longleftrightarrow> rh_hash r = rh_hash r' \<or> rh_purchase r = rh_purchase r'"

definition ra_clash :: "active_row \<Rightarrow> active_row \<Rightarrow> bool" where
  "ra_clash r r' \<longleftrightarrow> ra_coin r = ra_coin r' \<or> ra_hash r = ra_hash r'"

definition rr_clash :: "retirement_row \<Rightarrow> retirement_row \<Rightarrow> bool" where
  "rr_clash r r' \<longleftrightarrow> rr_hash r = rr_hash r' \<or> rr_replacement r = rr_replacement r'"

definition ph_clash :: "payment_hold_row \<Rightarrow> payment_hold_row \<Rightarrow> bool" where
  "ph_clash r r' \<longleftrightarrow> ph_hash r = ph_hash r' \<or> ph_purchase r = ph_purchase r' \<or> ph_payment_intent r = ph_payment_intent r' \<or>
     ph_reserved_coin r = ph_reserved_coin r' \<or>
     (ph_deed_launcher r = ph_deed_launcher r' \<and> \<not> ph_released r \<and> \<not> ph_released r')"

definition ab_clash :: "abort_row \<Rightarrow> abort_row \<Rightarrow> bool" where
  "ab_clash r r' \<longleftrightarrow> ab_hash r = ab_hash r' \<or> ab_hold_hash r = ab_hold_hash r' \<or> ab_purchase r = ab_purchase r' \<or>
     ab_payment_intent r = ab_payment_intent r' \<or> ab_reserved_coin r = ab_reserved_coin r'"

definition bh_clash :: "base_hold_row \<Rightarrow> base_hold_row \<Rightarrow> bool" where
  "bh_clash r r' \<longleftrightarrow> bh_purchase r = bh_purchase r' \<or> bh_deed_launcher r = bh_deed_launcher r' \<or>
     bh_reserved_coin r = bh_reserved_coin r' \<or> bh_payment r = bh_payment r'"

definition bg_clash :: "base_hold_row \<Rightarrow> base_hold_row \<Rightarrow> bool" where
  "bg_clash r r' \<longleftrightarrow> bh_purchase r = bh_purchase r' \<or> bh_reserved_coin r = bh_reserved_coin r' \<or> bh_payment r = bh_payment r'"

definition bo_clash :: "observation_row \<Rightarrow> observation_row \<Rightarrow> bool" where
  "bo_clash r r' \<longleftrightarrow> bo_hash r = bo_hash r' \<or> (bo_purchase r = bo_purchase r' \<and> bo_release r = bo_release r')"

definition bt_clash :: "terminal_row \<Rightarrow> terminal_row \<Rightarrow> bool" where
  "bt_clash r r' \<longleftrightarrow> bt_purchase r = bt_purchase r' \<or> bt_payment r = bt_payment r'"

interpretation pp: keyed_table pp_clash pp_hash
  by unfold_locales (auto simp: pp_clash_def)

interpretation vi: keyed_table vi_clash vi_hash
  by unfold_locales (auto simp: vi_clash_def)

interpretation vt: keyed_table vt_clash vt_hash
proof
  fix r r' :: transition_row
  show "vt_clash r r' \<Longrightarrow> vt_clash r' r" unfolding vt_clash_def nullable_eq_def by metis
qed (simp add: vt_clash_def)

interpretation vp: keyed_table vp_clash vp_hash
  by unfold_locales (auto simp: vp_clash_def)

interpretation rh: keyed_table rh_clash rh_hash
  by unfold_locales (auto simp: rh_clash_def)

interpretation ra: keyed_table ra_clash ra_coin
  by unfold_locales (auto simp: ra_clash_def)

interpretation ph: keyed_table ph_clash ph_purchase
  by unfold_locales (auto simp: ph_clash_def)

section \<open>Base escrow holds: evidence and guards\<close>

text \<open>\<open>same_deposit_message\<close> of \<open>escrow_deposit.py\<close>: the same event, seen with at least as many confirmations.\<close>

definition source_of :: "json \<Rightarrow> (((string \<times> json) list) \<times> json) option" where
  "source_of e = (case py_index e ''source'' of
     Inr (JObj d) \<Rightarrow> map_option (\<lambda>n. (filter (\<lambda>p. fst p \<noteq> ''confirmations'') d, n)) (map_of d ''confirmations'')
   | _ \<Rightarrow> None)"

definition same_deposit_message :: "json \<Rightarrow> json \<Rightarrow> bool" where
  "same_deposit_message original incoming =
     (case (source_of original, source_of incoming) of
        (Some (old, old_count), Some (new, new_count)) \<Rightarrow>
          (case (old_count, new_count, original, incoming) of
             (JInt i, JInt j, JObj a, JObj b) \<Rightarrow>
               0 < i \<and> i \<le> j \<and> py_eq (JObj (dict_set ''source'' (JObj old) a)) (JObj (dict_set ''source'' (JObj new) b))
           | _ \<Rightarrow> False)
      | _ \<Rightarrow> False)"

text \<open>\<open>evidence.get(k)\<close>\<close>

definition evidence_get :: "json \<Rightarrow> string \<Rightarrow> vl_error + json" where
  "evidence_get e k = (case e of JObj d \<Rightarrow> Inr (get_or_null d k) | _ \<Rightarrow> Inl VlAttributeError)"

text \<open>\<open>bind_held_deposit\<close> of \<open>base_inventory_hold.py\<close>; \<open>claim\<close> is the dump of the parsed hold.\<close>

definition bind_held_deposit :: "json \<Rightarrow> json \<Rightarrow> vl_error + unit" where
  "bind_held_deposit claim evidence =
     bind (case evidence of
         JObj d \<Rightarrow> Inr (case map_of d ''source'' of None \<Rightarrow> JObj [] | Some v \<Rightarrow> v)
       | _ \<Rightarrow> Inl VlAttributeError) (\<lambda>source.
     bind (lift (map_result (py_path claim)
         [[''global_payment_id''], [''local_payment_id''], [''depositor''], [''purchase_artifact'', ''purchaseId''],
          [''purchase_artifact'', ''artifactHash''], [''activation'', ''token'']])) (\<lambda>expected.
     raise_any
       (map (\<lambda>(k, v). bind (evidence_get evidence k) (\<lambda>w. Inr (\<not> py_eq w v)))
          (zip [''globalPaymentId'', ''localPaymentId'', ''depositor'', ''purchaseId'', ''artifactHash'', ''settlementToken''] expected) @
        map (\<lambda>k. bind (evidence_get source k) (\<lambda>w. bind (lift (py_path claim [''activation'', k])) (\<lambda>v. Inr (\<not> py_eq w v))))
          [''chainId'', ''spoke''])
       (VlValueError ''deposit differs from the immutable Base prepayment hold'') (Inr ())))"

text \<open>Pydantic: validation of a JSON value as a claim, giving its dump; \<open>None\<close> where it raises.\<close>

record claim_api =
  parse_base_hold :: "json \<Rightarrow> json option"
  parse_payment_start :: "json \<Rightarrow> json option"
  parse_base_extension :: "json \<Rightarrow> json option"

record base_hold_claim =
  bhc_purchase :: string
  bhc_deed_launcher :: string
  bhc_reserved_coin :: string
  bhc_payment :: string
  bhc_expires_at :: int
  bhc_json :: string

record terminal_claim =
  btc_hold :: base_hold_claim
  btc_evidence :: "json option"
  btc_json :: string

record observation_claim =
  boc_hold :: base_hold_claim
  boc_purchase :: string
  boc_release :: string
  boc_evidence :: json
  boc_json :: string
  boc_hash :: string

definition base_inventory_hold :: "validator_db \<Rightarrow> string \<Rightarrow> base_hold_row option" where
  "base_inventory_hold db purchase =
     (case lookup bh_purchase purchase (base_holds db) of
        Some r \<Rightarrow> Some r
      | None \<Rightarrow> lookup bh_purchase purchase (generations db))"

definition base_lifecycle_terminal :: "validator_db \<Rightarrow> string \<Rightarrow> terminal_row option" where
  "base_lifecycle_terminal db purchase = lookup bt_purchase purchase (terminals db)"

definition assert_base_not_terminal :: "validator_db \<Rightarrow> string \<Rightarrow> vl_error + unit" where
  "assert_base_not_terminal db purchase =
     raise_if (base_lifecycle_terminal db purchase \<noteq> None)
       (ValidatorLedgerConflict ''Base purchase has an immutable terminal tombstone'') (Inr ())"

definition assert_base_paid_payment :: "validator_db \<Rightarrow> string \<Rightarrow> string option \<Rightarrow> vl_error + unit" where
  "assert_base_paid_payment db purchase payment =
     bind (assert_base_not_terminal db purchase) (\<lambda>_.
     raise_if (case base_inventory_hold db purchase of
          None \<Rightarrow> True
        | Some held \<Rightarrow> \<not> list_ex (\<lambda>o'. bo_purchase o' = purchase) (observations db) \<or>
            bh_payment_start held = None \<or> Some (bh_payment held) \<noteq> payment)
       (ValidatorLedgerConflict ''Base paid recovery requires independently reviewed lifecycle evidence'') (Inr ()))"

section \<open>Stripe holds: guards\<close>

record held_view =
  hv_hash :: string
  hv_claim :: string
  hv_purchase :: string
  hv_payment_intent :: string
  hv_released :: bool
  hv_signature :: "string option"
  hv_release_claim :: "string option"
  hv_release_signature :: "string option"

definition inventory_payment_hold :: "validator_db \<Rightarrow> string \<Rightarrow> held_view option" where
  "inventory_payment_hold db purchase =
     (case lookup ph_purchase purchase (payment_holds db) of
        Some r \<Rightarrow> Some \<lparr>hv_hash = ph_hash r, hv_claim = ph_claim r, hv_purchase = ph_purchase r,
          hv_payment_intent = ph_payment_intent r, hv_released = ph_released r, hv_signature = Some (ph_signature r),
          hv_release_claim = ph_release_claim r, hv_release_signature = ph_release_signature r\<rparr>
      | None \<Rightarrow> map_option (\<lambda>r. \<lparr>hv_hash = ab_hold_hash r, hv_claim = ab_hold_json r, hv_purchase = purchase,
          hv_payment_intent = ab_payment_intent r, hv_released = True, hv_signature = None,
          hv_release_claim = Some (ab_claim r), hv_release_signature = Some (ab_signature r)\<rparr>)
          (lookup ab_purchase purchase (aborts db)))"

text \<open>A purchase id or payment intent that is \<open>None\<close> matches no row.\<close>

definition assert_payment_hold_identity :: "validator_db \<Rightarrow> string option \<Rightarrow> string option \<Rightarrow> vl_error + unit" where
  "assert_payment_hold_identity db purchase payment =
     (case purchase of
        None \<Rightarrow> Inr ()
      | Some p \<Rightarrow>
          bind (assert_base_not_terminal db p) (\<lambda>_.
          case base_inventory_hold db p of
            Some base \<Rightarrow>
              raise_if (Some (bh_payment base) \<noteq> payment)
                (ValidatorLedgerConflict ''This purchase has a different Base payment hold.'')
                (assert_base_paid_payment db p payment)
          | None \<Rightarrow>
              raise_if (lookup ab_purchase p (aborts db) \<noteq> None)
                (ValidatorLedgerConflict ''This purchase has a terminal payment abort tombstone.'')
               (raise_if (case lookup ph_purchase p (payment_holds db) of
                     None \<Rightarrow> False
                   | Some hold \<Rightarrow> ph_released hold \<or> Some (ph_payment_intent hold) \<noteq> payment)
                  (ValidatorLedgerConflict ''This purchase has a different or released payment hold.'') (Inr ()))))"

text \<open>The Base holds of a deed whose purchase has no terminal.\<close>

definition open_base_holds :: "validator_db \<Rightarrow> string \<Rightarrow> base_hold_row list" where
  "open_base_holds db deed =
     filter (\<lambda>h. bh_deed_launcher h = deed \<and> lookup bt_purchase (bh_purchase h) (terminals db) = None)
       (base_holds db @ generations db)"

definition open_payment_holds :: "validator_db \<Rightarrow> string \<Rightarrow> payment_hold_row list" where
  "open_payment_holds db deed = filter (\<lambda>h. ph_deed_launcher h = deed \<and> \<not> ph_released h) (payment_holds db)"

definition assert_no_payment_hold :: "validator_db \<Rightarrow> string \<Rightarrow> vl_error + unit" where
  "assert_no_payment_hold db deed =
     raise_if (open_base_holds db deed \<noteq> [])
       (ValidatorLedgerConflict ''Base inventory remains held; expiry is not payment release authority.'')
    (raise_if (open_payment_holds db deed \<noteq> [])
       (ValidatorLedgerConflict ''This SmartDeed is held before payment; expiry is not payment release authority.'') (Inr ()))"

text \<open>The coins that a terminal operation has been signed for.\<close>

definition terminal_coin :: "validator_db \<Rightarrow> string \<Rightarrow> bool" where
  "terminal_coin db coin \<longleftrightarrow>
     list_ex (\<lambda>r. pp_deed_coin r = coin) (primaries db) \<or> list_ex (\<lambda>r. lk_coin r = coin) (locks db) \<or>
     list_ex (\<lambda>r. vt_deed_coin r = Some coin) (transitions db)"

definition extended_coin :: "validator_db \<Rightarrow> string \<Rightarrow> bool" where
  "extended_coin db coin \<longleftrightarrow> list_ex (\<lambda>r. ie_reserved_coin r = coin) (extensions db)"

definition assert_no_extension_signature :: "validator_db \<Rightarrow> string option \<Rightarrow> vl_error + unit" where
  "assert_no_extension_signature db coin =
     raise_if (case coin of None \<Rightarrow> False | Some c \<Rightarrow> extended_coin db c)
       (ValidatorLedgerConflict ''This inventory input already has an extension authorization.'') (Inr ())"

definition assert_no_payment_authorization :: "validator_db \<Rightarrow> string \<Rightarrow> string \<Rightarrow> vl_error + unit" where
  "assert_no_payment_authorization db purchase reserved =
     (let voucher = (\<lambda>claim. sql_json_text claim [''purchase_artifact'', ''purchaseId''] = Some purchase) in
      raise_if (list_ex (\<lambda>r. pp_purchase r = purchase) (primaries db) \<or> list_ex (\<lambda>r. st_purchase r = purchase) (settlements db) \<or>
          list_ex (\<lambda>r. ie_purchase r = purchase) (extensions db))
        (ValidatorLedgerConflict ''This purchase already has a signed payment or extension.'')
     (raise_if (list_ex (\<lambda>r. voucher (vi_claim r)) (issuances db) \<or> list_ex (\<lambda>r. voucher (vt_claim r)) (transitions db))
        (ValidatorLedgerConflict ''This purchase already has a signed voucher operation.'')
     (raise_if (terminal_coin db reserved \<or> extended_coin db reserved)
        (ValidatorLedgerConflict ''Inventory already has a competing signed operation.'') (Inr ()))))"

text \<open>The purchase of the last reservation whose claim names the deed.\<close>

definition latest_reservation :: "validator_db \<Rightarrow> string \<Rightarrow> string option" where
  "latest_reservation db deed =
     (case filter (\<lambda>r. sql_json_text (rh_claim r) [''purchase_artifact'', ''deedLauncherId''] = Some deed) (history db) of
        [] \<Rightarrow> None
      | rs \<Rightarrow> Some (rh_purchase (last rs)))"

section \<open>Credential and purchase signatures\<close>

text \<open>The shape shared by the signing operations: recover an exact retry, or insert a row.\<close>

definition sign ::
  "vl_error + string option \<Rightarrow> string \<Rightarrow> (validator_db \<Rightarrow> vl_error + validator_db) \<Rightarrow> (validator_db, vl_error, string) body" where
  "sign found signature keep db =
     bind found (\<lambda>old. case old of
        Some s \<Rightarrow> Inr (s, db)
      | None \<Rightarrow> bind (keep db) (\<lambda>db'. Inr (signature, db')))"

definition record_or_recover_body :: "credential_row \<Rightarrow> (validator_db, vl_error, string) body" where
  "record_or_recover_body r db =
     sign (recover cs_hash cs_claim cs_signature (cs_hash r) (cs_claim r) ''Claim hash collides with different evidence.'' (credentials db))
       (cs_signature r)
       (\<lambda>db. bind (insert_or_conflict cs_clash r (credentials db)
            ''Nullifier, bridge coin, EVM event, or vault action was already signed.'') (\<lambda>rs. Inr (db\<lparr>credentials := rs\<rparr>))) db"

definition record_or_recover ::
  "string \<Rightarrow> string \<Rightarrow> string \<Rightarrow> string \<Rightarrow> string \<Rightarrow> string \<Rightarrow> string \<Rightarrow> int \<Rightarrow> (validator_db, vl_error, string) call" where
  "record_or_recover claim_hash claim nullifier bridge_coin vault_action evm signature now =
     txn (record_or_recover_body \<lparr>cs_hash = claim_hash, cs_claim = claim, cs_nullifier = nullifier, cs_bridge_coin = bridge_coin,
       cs_vault_action = vault_action, cs_evm_transaction = evm, cs_signature = signature, cs_signed_at = now\<rparr>)"

definition insert_primary :: "primary_row \<Rightarrow> validator_db \<Rightarrow> vl_error + validator_db" where
  "insert_primary r db =
     bind (insert_or_conflict pp_clash r (primaries db) ''Purchase or SmartDeed coin was already authorized.'')
       (\<lambda>rs. Inr (db\<lparr>primaries := rs\<rparr>))"

definition record_primary_body :: "primary_row \<Rightarrow> (validator_db, vl_error, string) body" where
  "record_primary_body r db =
     bind (assert_no_extension_signature db (Some (pp_deed_coin r))) (\<lambda>_.
     sign (recover pp_hash pp_claim pp_signature (pp_hash r) (pp_claim r) ''Purchase claim hash collides with different evidence.'' (primaries db))
       (pp_signature r) (insert_primary r) db)"

definition record_primary_purchase ::
  "string \<Rightarrow> string \<Rightarrow> string \<Rightarrow> string \<Rightarrow> string \<Rightarrow> int \<Rightarrow> (validator_db, vl_error, string) call" where
  "record_primary_purchase claim_hash claim purchase deed_coin signature now =
     txn (record_primary_body \<lparr>pp_hash = claim_hash, pp_claim = claim, pp_purchase = purchase, pp_deed_coin = deed_coin,
       pp_signature = signature, pp_signed_at = now\<rparr>)"

text \<open>The loop of the batch: each claim is recovered or inserted, in order.\<close>

fun batch_loop :: "primary_row list \<Rightarrow> (validator_db, vl_error, string list) body" where
  "batch_loop [] db = Inr ([], db)"
| "batch_loop (r # rs) db =
     bind (sign (recover pp_hash pp_claim pp_signature (pp_hash r) (pp_claim r)
            ''Purchase batch claim collides with different evidence.'' (primaries db)) (pp_signature r) (insert_primary r) db)
       (\<lambda>(s, db'). bind (batch_loop rs db') (\<lambda>(ss, db''). Inr (s # ss, db'')))"

definition record_primary_batch_body :: "string list \<Rightarrow> primary_row list \<Rightarrow> (validator_db, vl_error, string list) body" where
  "record_primary_batch_body deed_coins rs db =
     bind (map_result (\<lambda>c. assert_no_extension_signature db (Some c)) deed_coins) (\<lambda>_. batch_loop rs db)"

definition record_primary_purchase_batch ::
  "string list \<Rightarrow> string list \<Rightarrow> string list \<Rightarrow> string list \<Rightarrow> string list \<Rightarrow> int \<Rightarrow> (validator_db, vl_error, string list) call" where
  "record_primary_purchase_batch hashes claims purchases deed_coins signatures now db =
     (let n = length hashes in
      if n = 0 \<and> claims = [] \<and> purchases = [] \<and> deed_coins = [] \<and> signatures = [] \<or>
         \<not> (length claims = n \<and> length purchases = n \<and> length deed_coins = n \<and> length signatures = n)
      then (Inl (ValidatorLedgerConflict ''Purchase batch authorization evidence is incomplete.''), db)
      else txn (record_primary_batch_body deed_coins
        (map (\<lambda>i. \<lparr>pp_hash = hashes ! i, pp_claim = claims ! i, pp_purchase = purchases ! i, pp_deed_coin = deed_coins ! i,
            pp_signature = signatures ! i, pp_signed_at = now\<rparr>) [0..<n])) db)"

section \<open>Stripe settlements\<close>

definition settlement_conflict :: string where
  "settlement_conflict = ''Stripe payment, receipt, purchase, or delivery coin was already authorized.''"

definition insert_settlement :: "stripe_row \<Rightarrow> string list \<Rightarrow> validator_db \<Rightarrow> vl_error + validator_db" where
  "insert_settlement r coins db =
     bind (insert_or_conflict st_clash r (settlements db) settlement_conflict) (\<lambda>rs.
     case sql_insert_many lk_clash (map (\<lambda>c. \<lparr>lk_coin = c, lk_hash = st_hash r\<rparr>) coins) (locks db) of
       None \<Rightarrow> Inl (ValidatorLedgerConflict settlement_conflict)
     | Some ls \<Rightarrow> Inr (db\<lparr>settlements := rs, locks := ls\<rparr>))"

definition record_settlement_body :: "stripe_row \<Rightarrow> (validator_db, vl_error, string) body" where
  "record_settlement_body r db =
     bind (assert_payment_hold_identity db (Some (st_purchase r)) (Some (st_payment_intent r))) (\<lambda>_.
     bind (assert_no_extension_signature db (Some (st_deed_coin r))) (\<lambda>_.
     sign (recover st_hash st_claim st_signature (st_hash r) (st_claim r) ''Stripe claim hash collides with different evidence.'' (settlements db))
       (st_signature r) (insert_settlement r [st_deed_coin r]) db))"

definition record_stripe_settlement ::
  "string \<Rightarrow> string \<Rightarrow> string \<Rightarrow> string \<Rightarrow> string \<Rightarrow> string option \<Rightarrow> string \<Rightarrow> string option \<Rightarrow> int \<Rightarrow>
   (validator_db, vl_error, string) call" where
  "record_stripe_settlement claim_hash claim purchase intent receipt delivery_coin signature deed_coin now db =
     (case remdups (List.map_filter id [delivery_coin, deed_coin]) of
        [coin] \<Rightarrow> txn (record_settlement_body \<lparr>st_hash = claim_hash, st_claim = claim, st_purchase = purchase, st_payment_intent = intent,
          st_receipt_coin = receipt, st_deed_coin = coin, st_signature = signature, st_signed_at = now\<rparr>) db
      | _ \<Rightarrow> (Inl (VlValueError ''exactly one Stripe delivery coin ID is required''), db))"

definition record_settlement_batch_body :: "stripe_row \<Rightarrow> string list \<Rightarrow> (validator_db, vl_error, string) body" where
  "record_settlement_batch_body r coins db =
     bind (assert_payment_hold_identity db (Some (st_purchase r)) (Some (st_payment_intent r))) (\<lambda>_.
     bind (map_result (\<lambda>c. assert_no_extension_signature db (Some c)) coins) (\<lambda>_.
     case lookup st_hash (st_hash r) (settlements db) of
       Some existing \<Rightarrow>
         raise_if (st_claim existing \<noteq> st_claim r \<or> map lk_coin (select (\<lambda>l. lk_hash l = st_hash r) (locks db)) \<noteq> coins)
           (ValidatorLedgerConflict ''Stripe batch retry differs from recorded evidence.'') (Inr (st_signature existing, db))
     | None \<Rightarrow> bind (insert_settlement r coins db) (\<lambda>db'. Inr (st_signature r, db'))))"

definition record_stripe_settlement_batch ::
  "string \<Rightarrow> string \<Rightarrow> string \<Rightarrow> string \<Rightarrow> string \<Rightarrow> string list \<Rightarrow> string \<Rightarrow> int \<Rightarrow> (validator_db, vl_error, string) call" where
  "record_stripe_settlement_batch claim_hash claim purchase intent receipt coins signature now db =
     (if coins = [] \<or> length coins > 100 then (Inl (VlValueError ''Stripe batch requires 1..100 delivery coin IDs''), db)
      else if \<not> distinct coins then (Inl (VlValueError ''Stripe batch delivery coin IDs must be unique''), db)
      else txn (record_settlement_batch_body \<lparr>st_hash = claim_hash, st_claim = claim, st_purchase = purchase, st_payment_intent = intent,
        st_receipt_coin = receipt, st_deed_coin = hd coins, st_signature = signature, st_signed_at = now\<rparr> coins) db)"

section \<open>Voucher series\<close>

text \<open>Every phase signature of a series coin, oldest first; \<open>phase_for_coin\<close> reads the last.\<close>

definition phase_rows :: "validator_db \<Rightarrow> string \<Rightarrow> phase_row list" where
  "phase_rows db coin = filter (\<lambda>p. vp_series_coin p = coin) (phases db) @
     filter (\<lambda>p. vp_series_coin p = coin) (map vr_phase (retries db))"

definition phase_for_coin :: "validator_db \<Rightarrow> string \<Rightarrow> phase_row option" where
  "phase_for_coin db coin =
     (case filter (\<lambda>p. vp_series_coin p = coin) (map vr_phase (retries db)) of
        [] \<Rightarrow> lookup vp_series_coin coin (phases db)
      | ps \<Rightarrow> Some (last ps))"

definition observed_expired :: "validator_db \<Rightarrow> string \<Rightarrow> bool" where
  "observed_expired db h \<longleftrightarrow> list_ex (\<lambda>o'. vo_hash o' = h) (expiries db)"

definition assert_series_coin_available :: "validator_db \<Rightarrow> string \<Rightarrow> string \<Rightarrow> string option \<Rightarrow> vl_error + unit" where
  "assert_series_coin_available db coin kind expired =
     raise_if (kind \<noteq> ''issuance'' \<and> list_ex (\<lambda>r. vi_series_coin r = coin) (issuances db) \<or>
         kind \<noteq> ''terminal'' \<and> list_ex (\<lambda>r. vt_series_coin r = coin) (transitions db))
       (ValidatorLedgerConflict ''Series coin already has another voucher authorization.'')
    (raise_if (case phase_for_coin db coin of
          None \<Rightarrow> False
        | Some phase \<Rightarrow> Some (vp_hash phase) \<noteq> expired \<or> \<not> observed_expired db (vp_hash phase))
       (ValidatorLedgerConflict ''Series coin was already authorized for an unexpired phase transition.'') (Inr ()))"

definition retain_phase_expiry :: "string \<Rightarrow> json \<Rightarrow> int \<Rightarrow> validator_db \<Rightarrow> validator_db" where
  "retain_phase_expiry claim_hash proof now db =
     (case sql_insert vo_clash \<lparr>vo_hash = claim_hash, vo_proof = canonical_json proof, vo_observed_at = now\<rparr> (expiries db) of
        None \<Rightarrow> db
      | Some rs \<Rightarrow> db\<lparr>expiries := rs\<rparr>)"

definition record_issuance_body ::
  "issuance_row \<Rightarrow> string option \<Rightarrow> string option \<Rightarrow> string option \<Rightarrow> (validator_db, vl_error, string) body" where
  "record_issuance_body r purchase intent expired db =
     bind (assert_payment_hold_identity db purchase intent) (\<lambda>_.
     sign (recover vi_hash vi_claim vi_signature (vi_hash r) (vi_claim r) ''Voucher claim hash collides with different evidence.'' (issuances db))
       (vi_signature r)
       (\<lambda>db. bind (assert_series_coin_available db (vi_series_coin r) ''issuance'' expired) (\<lambda>_.
          bind (insert_or_conflict vi_clash r (issuances db) ''Payment, series coin, or purchase launcher was already authorized.'')
            (\<lambda>rs. Inr (db\<lparr>issuances := rs\<rparr>)))) db)"

definition record_voucher_issuance ::
  "string \<Rightarrow> string \<Rightarrow> string \<Rightarrow> string \<Rightarrow> string \<Rightarrow> string \<Rightarrow> string option \<Rightarrow> string option \<Rightarrow> string option \<Rightarrow> int \<Rightarrow>
   (validator_db, vl_error, string) call" where
  "record_voucher_issuance claim_hash claim payment series launcher signature purchase intent expired now =
     txn (record_issuance_body \<lparr>vi_hash = claim_hash, vi_claim = claim, vi_payment = payment, vi_series_coin = series,
       vi_launcher_coin = launcher, vi_signature = signature, vi_signed_at = now\<rparr> purchase intent expired)"

definition record_transition_body ::
  "transition_row \<Rightarrow> string option \<Rightarrow> string option \<Rightarrow> string option \<Rightarrow> (validator_db, vl_error, string) body" where
  "record_transition_body r purchase intent expired db =
     bind (assert_payment_hold_identity db purchase intent) (\<lambda>_.
     bind (assert_no_extension_signature db (vt_deed_coin r)) (\<lambda>_.
     sign (recover vt_hash vt_claim vt_signature (vt_hash r) (vt_claim r) ''Voucher transition hash collides with different evidence.'' (transitions db))
       (vt_signature r)
       (\<lambda>db. bind (assert_series_coin_available db (vt_series_coin r) ''terminal'' expired) (\<lambda>_.
          bind (insert_or_conflict vt_clash r (transitions db) ''Voucher, payment, series coin, or payment ID was already settled.'')
            (\<lambda>rs. Inr (db\<lparr>transitions := rs\<rparr>)))) db))"

definition record_voucher_transition ::
  "string \<Rightarrow> string \<Rightarrow> string \<Rightarrow> string \<Rightarrow> string \<Rightarrow> string \<Rightarrow> string \<Rightarrow> string option \<Rightarrow> string option \<Rightarrow> string option \<Rightarrow>
   string option \<Rightarrow> int \<Rightarrow> (validator_db, vl_error, string) call" where
  "record_voucher_transition claim_hash claim payment series voucher payment_coin signature purchase intent deed_coin expired now =
     txn (record_transition_body \<lparr>vt_hash = claim_hash, vt_claim = claim, vt_payment = payment, vt_series_coin = series,
       vt_voucher_coin = voucher, vt_payment_coin = payment_coin, vt_deed_coin = deed_coin, vt_signature = signature,
       vt_signed_at = now\<rparr> purchase intent expired)"

text \<open>Both phase tables are searched for the claim hash.\<close>

definition find_phase :: "validator_db \<Rightarrow> string \<Rightarrow> phase_row list" where
  "find_phase db h = filter (\<lambda>p. vp_hash p = h) (phases db @ map vr_phase (retries db))"

definition recover_voucher_series_phase :: "validator_db \<Rightarrow> string \<Rightarrow> string \<Rightarrow> vl_error + string option" where
  "recover_voucher_series_phase db claim_hash claim =
     recover vp_hash vp_claim vp_signature claim_hash claim ''Series phase claim hash collides with different evidence.'' (find_phase db claim_hash)"

definition store_phase :: "phase_row \<Rightarrow> string option \<Rightarrow> validator_db \<Rightarrow> vl_error + validator_db" where
  "store_phase r expired db =
     (let taken = ''Series coin was already authorized for a phase transition.'' in
      bind (assert_series_coin_available db (vp_series_coin r) ''phase'' expired) (\<lambda>_.
      case phase_for_coin db (vp_series_coin r) of
        Some previous \<Rightarrow>
          bind (insert_or_conflict vr_clash \<lparr>vr_predecessor = vp_hash previous, vr_phase = r\<rparr> (retries db) taken)
            (\<lambda>rs. Inr (db\<lparr>retries := rs\<rparr>))
      | None \<Rightarrow> bind (insert_or_conflict vp_clash r (phases db) taken) (\<lambda>rs. Inr (db\<lparr>phases := rs\<rparr>))))"

definition record_voucher_series_phase ::
  "string \<Rightarrow> string \<Rightarrow> string \<Rightarrow> int \<Rightarrow> string \<Rightarrow> string option \<Rightarrow> int \<Rightarrow> (validator_db, vl_error, string) call" where
  "record_voucher_series_phase claim_hash claim series transition signature expired now =
     txn (\<lambda>db. sign (recover_voucher_series_phase db claim_hash claim) signature
       (store_phase \<lparr>vp_hash = claim_hash, vp_claim = claim, vp_series_coin = series, vp_transition = transition,
          vp_signature = signature, vp_signed_at = now\<rparr> expired) db)"

section \<open>Inventory reservations\<close>

definition active_inventory_authorization :: "validator_db \<Rightarrow> string \<Rightarrow> history_row option" where
  "active_inventory_authorization db coin =
     (case lookup ra_coin coin (actives db) of None \<Rightarrow> None | Some a \<Rightarrow> lookup rh_hash (ra_hash a) (history db))"

definition inventory_retirement :: "validator_db \<Rightarrow> string \<Rightarrow> retirement_row option" where
  "inventory_retirement db claim_hash = lookup rr_hash claim_hash (retirements db)"

text \<open>An extension of the deed whose purchase is neither released nor terminal.\<close>

definition held_by_extension :: "validator_db \<Rightarrow> string \<Rightarrow> bool" where
  "held_by_extension db deed \<longleftrightarrow>
     list_ex (\<lambda>e. ie_deed_launcher e = Some deed \<and>
       \<not> list_ex (\<lambda>h. ph_purchase h = ie_purchase e \<and> ph_released h) (payment_holds db) \<and>
       \<not> list_ex (\<lambda>t. bt_purchase t = ie_purchase e) (terminals db)) (extensions db)"

definition reserved_conflict :: string where
  "reserved_conflict = ''Purchase or available SmartDeed coin was already reserved.''"

definition changed_conflict :: string where
  "changed_conflict = ''Inventory authorization changed during retirement proof.''"

definition store_reservation ::
  "history_row \<Rightarrow> string option \<Rightarrow> string \<Rightarrow> int \<Rightarrow> active_row option \<Rightarrow> (validator_db, vl_error, string) body" where
  "store_reservation r retire encoded now active db =
     bind (insert_or_conflict rh_clash r (history db) reserved_conflict) (\<lambda>hs.
     case active of
       None \<Rightarrow>
         bind (insert_or_conflict ra_clash \<lparr>ra_coin = rh_coin r, ra_hash = rh_hash r\<rparr> (actives db) reserved_conflict)
           (\<lambda>as. Inr (rh_signature r, db\<lparr>history := hs, actives := as\<rparr>))
     | Some a \<Rightarrow>
         bind (insert_or_conflict rr_clash
             \<lparr>rr_hash = ra_hash a, rr_replacement = rh_hash r, rr_evidence = encoded, rr_retired_at = now\<rparr>
             (retirements db) reserved_conflict) (\<lambda>rs.
         let replaced = (\<lambda>x. ra_coin x = rh_coin r \<and> Some (ra_hash x) = retire) in
         case sql_update ra_clash replaced (\<lambda>x. x\<lparr>ra_hash := rh_hash r\<rparr>) (actives db) of
           None \<Rightarrow> Inl (ValidatorLedgerConflict reserved_conflict)
         | Some as \<Rightarrow>
             raise_if (length (filter replaced (actives db)) \<noteq> 1) (ValidatorLedgerConflict changed_conflict)
               (Inr (rh_signature r, db\<lparr>history := hs, retirements := rs, actives := as\<rparr>))))"

definition record_reservation_body ::
  "history_row \<Rightarrow> string option \<Rightarrow> string option \<Rightarrow> string \<Rightarrow> int \<Rightarrow> (validator_db, vl_error, string) body" where
  "record_reservation_body r deed retire encoded now db =
     bind (assert_base_not_terminal db (rh_purchase r)) (\<lambda>_.
     bind (case deed of None \<Rightarrow> Inr () | Some d \<Rightarrow> assert_no_payment_hold db d) (\<lambda>_.
     raise_if (case deed of None \<Rightarrow> False | Some d \<Rightarrow> held_by_extension db d)
       (ValidatorLedgerConflict ''This SmartDeed has a payment hold; a timeout cannot authorize another buyer.'')
    (let active = lookup ra_coin (rh_coin r) (actives db) in
     case lookup rh_hash (rh_hash r) (history db) of
       Some existing \<Rightarrow>
         raise_if (rh_claim existing \<noteq> rh_claim r \<or> rh_purchase existing \<noteq> rh_purchase r \<or> rh_coin existing \<noteq> rh_coin r)
           (ValidatorLedgerConflict ''Reservation claim hash collides with different evidence.'')
        (raise_if (map_option ra_hash active \<noteq> Some (rh_hash r))
           (ValidatorLedgerConflict ''This inventory authorization was retired and cannot be replayed.'')
           (Inr (rh_signature existing, db)))
     | None \<Rightarrow>
         raise_if (active \<noteq> None \<and> map_option ra_hash active \<noteq> retire) (ValidatorLedgerConflict reserved_conflict)
        (raise_if (active = None \<and> retire \<noteq> None) (ValidatorLedgerConflict changed_conflict)
           (store_reservation r retire encoded now active db)))))"

definition record_inventory_reservation ::
  "string \<Rightarrow> string \<Rightarrow> string \<Rightarrow> string \<Rightarrow> string \<Rightarrow> string option \<Rightarrow> string option \<Rightarrow> (string \<times> json) list option \<Rightarrow> int \<Rightarrow>
   (validator_db, vl_error, string) call" where
  "record_inventory_reservation claim_hash claim purchase coin signature deed retire evidence now db =
     (if (retire = None) \<noteq> (evidence = None)
      then (Inl (ValidatorLedgerConflict ''Inventory retirement evidence is incomplete.''), db)
      else if (case evidence of
          None \<Rightarrow> False
        | Some e \<Rightarrow>
            \<not> py_eq (get_or_null e ''schema'') (JStr ''solslot.validator-inventory-retirement.v1'') \<or>
            \<not> py_eq (get_or_null e ''claimHash'') (json_opt_str retire) \<or>
            \<not> py_eq (get_or_null e ''replacementClaimHash'') (JStr claim_hash) \<or>
            \<not> py_eq (get_or_null e ''sourceCoinId'') (JStr coin))
      then (Inl (ValidatorLedgerConflict ''Inventory retirement evidence differs from its claim.''), db)
      else txn (record_reservation_body
        \<lparr>rh_hash = claim_hash, rh_claim = claim, rh_purchase = purchase, rh_coin = coin, rh_signature = signature, rh_signed_at = now\<rparr>
        deed retire (case evidence of None \<Rightarrow> [] | Some e \<Rightarrow> canonical_json (JObj e)) now) db)"

section \<open>Inventory extensions\<close>

text \<open>The writer-lock recheck of a Base extension: its claim repeats the observed payment start.\<close>

definition assert_base_extension_payment :: "claim_api \<Rightarrow> validator_db \<Rightarrow> string \<Rightarrow> json \<Rightarrow> vl_error + unit" where
  "assert_base_extension_payment api db purchase raw =
     bind (assert_base_not_terminal db purchase) (\<lambda>_.
     let bad = ValidatorLedgerConflict ''Base extension lacks its exact private payment authority'' in
     case parse_base_extension api raw of
       None \<Rightarrow> Inl bad
     | Some claim \<Rightarrow>
         (case bind (py_path claim [''activation'', ''releaseIdentity'']) (\<lambda>release.
                case (base_inventory_hold db purchase,
                      find (\<lambda>o'. bo_purchase o' = purchase \<and> JStr (bo_release o') = release) (observations db)) of
                  (Some held, Some observed) \<Rightarrow>
                    bind (py_loads (bo_claim observed)) (\<lambda>text.
                    case parse_payment_start api text of
                      None \<Rightarrow> Inl (ValueError ''invalid payment start'')
                    | Some original \<Rightarrow>
                        let same = (\<lambda>k. bind (py_index claim k) (\<lambda>a. bind (py_index original k) (\<lambda>b. Inr (\<not> py_eq a b)))) in
                        raise_any
                          [differs (py_path claim [''purchase_artifact'', ''purchaseId'']) (JStr purchase),
                           same ''hold'', same ''purchase_artifact'', same ''activation'', same ''genesis_artifact_hash'',
                           bind (py_index original ''payment_evidence'') (\<lambda>a. bind (py_index claim ''payment_evidence'')
                             (\<lambda>b. Inr (\<not> same_deposit_message a b))),
                           bind (py_index claim ''hold'') (\<lambda>h. Inr (bh_claim held \<noteq> canonical_json h))]
                          (ValueError ''Base extension changes its original observation'') (Inr ()))
                | _ \<Rightarrow> Inl (ValueError ''missing independently verified Base observation'')) of
            Inl _ \<Rightarrow> Inl bad
          | Inr _ \<Rightarrow> Inr ()))"

definition extension_payment_guard :: "claim_api \<Rightarrow> validator_db \<Rightarrow> string \<Rightarrow> string \<Rightarrow> vl_error + unit" where
  "extension_payment_guard api db purchase claim =
     bind (claim_get claim ''schema_version'') (\<lambda>version.
     if py_eq version (JStr ''solslot.base-inventory-extension.v1'')
     then bind (lift (py_loads claim)) (assert_base_extension_payment api db purchase)
     else if inventory_payment_hold db purchase \<noteq> None \<or> base_inventory_hold db purchase \<noteq> None
     then bind (claim_get claim ''payment_intent_id'') (\<lambda>intent.
       assert_payment_hold_identity db (Some purchase) (case intent of JStr s \<Rightarrow> Some s | _ \<Rightarrow> None))
     else Inr ())"

definition record_extension_body :: "claim_api \<Rightarrow> extension_row \<Rightarrow> (validator_db, vl_error, string) body" where
  "record_extension_body api r db =
     bind (extension_payment_guard api db (ie_purchase r) (ie_claim r)) (\<lambda>_.
     case lookup ie_reserved_coin (ie_reserved_coin r) (extensions db) of
       Some old \<Rightarrow>
         raise_if (ie_hash old \<noteq> ie_hash r \<or> ie_claim old \<noteq> ie_claim r \<or> ie_purchase old \<noteq> ie_purchase r \<or>
             ie_deed_launcher old \<noteq> ie_deed_launcher r)
           (ValidatorLedgerConflict ''This inventory input already has a different extension authorization.'')
           (Inr (ie_signature old, db))
     | None \<Rightarrow>
         raise_if (terminal_coin db (ie_reserved_coin r))
           (ValidatorLedgerConflict ''This inventory input already has a terminal authorization.'')
         (case sql_insert ie_clash r (extensions db) of
            None \<Rightarrow> Inl VlIntegrityError
          | Some rs \<Rightarrow> Inr (ie_signature r, db\<lparr>extensions := rs\<rparr>)))"

definition record_inventory_extension ::
  "claim_api \<Rightarrow> string \<Rightarrow> string \<Rightarrow> string \<Rightarrow> string \<Rightarrow> string \<Rightarrow> string option \<Rightarrow> int \<Rightarrow> (validator_db, vl_error, string) call" where
  "record_inventory_extension api claim_hash claim purchase reserved signature deed now =
     txn (record_extension_body api \<lparr>ie_hash = claim_hash, ie_claim = claim, ie_purchase = purchase, ie_reserved_coin = reserved,
       ie_signature = signature, ie_signed_at = now, ie_deed_launcher = deed\<rparr>)"

text \<open>\<open>ORDER BY signed_at, rowid LIMIT 1\<close>\<close>

definition inventory_extension_payment_anchor :: "validator_db \<Rightarrow> string \<Rightarrow> (string \<times> string) option" where
  "inventory_extension_payment_anchor db purchase =
     map_option (\<lambda>r. (ie_hash r, ie_claim r)) (fetch_first ie_signed_at (select (\<lambda>r. ie_purchase r = purchase) (extensions db)))"

section \<open>Stripe payment holds\<close>

record payment_hold_claim =
  phc_json :: string
  phc_hash :: string
  phc_payment_intent :: string
  phc_reserved_coin :: string
  phc_expires_at :: int

record release_claim =
  rlc_json :: string
  rlc_hold_hash :: string

record abort_claim =
  abc_json :: string
  abc_hash :: string
  abc_hold :: payment_hold_claim
  abc_reserved_coin :: string

definition record_payment_hold_body ::
  "payment_hold_claim \<Rightarrow> string \<Rightarrow> string \<Rightarrow> string \<Rightarrow> int \<Rightarrow> (validator_db, vl_error, string) body" where
  "record_payment_hold_body claim signature purchase deed now db =
     raise_if (list_ex (\<lambda>a. ab_purchase a = purchase \<or> ab_payment_intent a = phc_payment_intent claim \<or>
         ab_reserved_coin a = phc_reserved_coin claim) (aborts db))
       (ValidatorLedgerConflict ''A terminal payment abort cannot be rearmed or rebound.'')
    (case lookup ph_purchase purchase (payment_holds db) of
       Some old \<Rightarrow>
         raise_if (ph_claim old \<noteq> phc_json claim \<or> ph_hash old \<noteq> phc_hash claim \<or> ph_released old)
           (ValidatorLedgerConflict ''A payment hold cannot be replaced or reopened.'') (Inr (ph_signature old, db))
     | None \<Rightarrow>
         bind (assert_no_payment_hold db deed) (\<lambda>_.
         raise_if (phc_expires_at claim \<le> now)
           (ValidatorLedgerConflict ''Pre-payment reservation expired before durable arming.'')
        (raise_if (case latest_reservation db deed of None \<Rightarrow> False | Some p \<Rightarrow> p \<noteq> purchase)
           (ValidatorLedgerConflict ''Another purchase superseded this inventory reservation before arming.'')
        (bind (assert_no_payment_authorization db purchase (phc_reserved_coin claim)) (\<lambda>_.
         bind (insert_or_conflict ph_clash
             \<lparr>ph_hash = phc_hash claim, ph_claim = phc_json claim, ph_purchase = purchase,
              ph_payment_intent = phc_payment_intent claim, ph_deed_launcher = deed, ph_reserved_coin = phc_reserved_coin claim,
              ph_signature = signature, ph_signed_at = now, ph_released = False, ph_release_claim = None,
              ph_release_signature = None\<rparr>
             (payment_holds db) ''Payment, purchase, or inventory already has a private hold.'')
           (\<lambda>rs. Inr (signature, db\<lparr>payment_holds := rs\<rparr>)))))))"

definition record_inventory_payment_hold ::
  "payment_hold_claim \<Rightarrow> string \<Rightarrow> string \<Rightarrow> string \<Rightarrow> int \<Rightarrow> (validator_db, vl_error, string) call" where
  "record_inventory_payment_hold claim signature purchase deed now = txn (record_payment_hold_body claim signature purchase deed now)"

definition released_row :: "string \<Rightarrow> string \<Rightarrow> payment_hold_row \<Rightarrow> payment_hold_row" where
  "released_row claim signature r =
     r\<lparr>ph_released := True, ph_release_claim := Some claim, ph_release_signature := Some signature\<rparr>"

definition release_hold :: "string \<Rightarrow> string \<Rightarrow> string \<Rightarrow> validator_db \<Rightarrow> vl_error + validator_db" where
  "release_hold purchase claim signature db =
     (case sql_update ph_clash (\<lambda>r. ph_purchase r = purchase) (released_row claim signature) (payment_holds db) of
        None \<Rightarrow> Inl VlIntegrityError
      | Some rs \<Rightarrow> Inr (db\<lparr>payment_holds := rs\<rparr>))"

definition record_release_body :: "release_claim \<Rightarrow> string \<Rightarrow> string \<Rightarrow> (validator_db, vl_error, string) body" where
  "record_release_body claim signature purchase db =
     (case lookup ph_purchase purchase (payment_holds db) of
        None \<Rightarrow> Inl (ValidatorLedgerConflict ''Release has no matching private payment hold.'')
      | Some old \<Rightarrow>
          raise_if (ph_hash old \<noteq> rlc_hold_hash claim)
            (ValidatorLedgerConflict ''Release has no matching private payment hold.'')
          (if ph_released old then
             raise_if (ph_release_claim old \<noteq> Some (rlc_json claim))
               (ValidatorLedgerConflict ''Payment release cannot be replaced.'')
               (Inr (case ph_release_signature old of None \<Rightarrow> [] | Some s \<Rightarrow> s, db))
           else bind (release_hold purchase (rlc_json claim) signature db) (\<lambda>db'. Inr (signature, db'))))"

definition record_inventory_payment_hold_release ::
  "release_claim \<Rightarrow> string \<Rightarrow> string \<Rightarrow> (validator_db, vl_error, string) call" where
  "record_inventory_payment_hold_release claim signature purchase = txn (record_release_body claim signature purchase)"

definition record_abort_body ::
  "abort_claim \<Rightarrow> string \<Rightarrow> string \<Rightarrow> string \<Rightarrow> int \<Rightarrow> (validator_db, vl_error, string) body" where
  "record_abort_body claim signature purchase deed now db =
     (case lookup ab_purchase purchase (aborts db) of
        Some old \<Rightarrow>
          raise_if (ab_claim old \<noteq> abc_json claim) (ValidatorLedgerConflict ''Payment abort cannot be replaced.'')
            (Inr (ab_signature old, db))
      | None \<Rightarrow>
          let held = lookup ph_purchase purchase (payment_holds db); hold = abc_hold claim in
          raise_if (case held of None \<Rightarrow> False | Some h \<Rightarrow> ph_hash h \<noteq> phc_hash hold \<or> ph_released h)
            (ValidatorLedgerConflict ''Payment abort conflicts with another hold or terminal outcome.'')
         (raise_if (list_ex (\<lambda>h. ph_payment_intent h = phc_payment_intent hold \<and> ph_purchase h \<noteq> purchase) (payment_holds db))
            (ValidatorLedgerConflict ''The held payment belongs to another purchase.'')
         (bind (assert_no_payment_authorization db purchase (abc_reserved_coin claim)) (\<lambda>_.
          bind (insert_or_conflict ab_clash
              \<lparr>ab_hash = abc_hash claim, ab_claim = abc_json claim, ab_hold_hash = phc_hash hold, ab_hold_json = phc_json hold,
               ab_purchase = purchase, ab_payment_intent = phc_payment_intent hold, ab_reserved_coin = abc_reserved_coin claim,
               ab_deed_launcher = deed, ab_signature = signature, ab_signed_at = now\<rparr>
              (aborts db) ''Abort payment or input is already bound.'') (\<lambda>rs.
          bind (case held of
              None \<Rightarrow> Inr (db\<lparr>aborts := rs\<rparr>)
            | Some _ \<Rightarrow> release_hold purchase (abc_json claim) signature (db\<lparr>aborts := rs\<rparr>))
            (\<lambda>db'. Inr (signature, db')))))))"

definition record_inventory_payment_hold_abort ::
  "abort_claim \<Rightarrow> string \<Rightarrow> string \<Rightarrow> string \<Rightarrow> int \<Rightarrow> (validator_db, vl_error, string) call" where
  "record_inventory_payment_hold_abort claim signature purchase deed now = txn (record_abort_body claim signature purchase deed now)"

section \<open>Base escrow holds\<close>

definition base_conflict :: string where
  "base_conflict = ''Base payment or inventory already has a private hold''"

definition store_base_hold :: "base_hold_row \<Rightarrow> validator_db \<Rightarrow> vl_error + validator_db" where
  "store_base_hold r db =
     raise_if (list_ex (\<lambda>h. bh_reserved_coin h = bh_reserved_coin r \<or> bh_payment h = bh_payment r) (base_holds db @ generations db))
       (ValidatorLedgerConflict ''Base input or payment already belongs to a prior hold'')
    (if list_ex (\<lambda>h. bh_deed_launcher h = bh_deed_launcher r) (base_holds db)
     then bind (insert_or_conflict bg_clash r (generations db) base_conflict) (\<lambda>rs. Inr (db\<lparr>generations := rs\<rparr>))
     else bind (insert_or_conflict bh_clash r (base_holds db) base_conflict) (\<lambda>rs. Inr (db\<lparr>base_holds := rs\<rparr>)))"

definition record_base_hold_body :: "base_hold_claim \<Rightarrow> string \<Rightarrow> int \<Rightarrow> (validator_db, vl_error, string) body" where
  "record_base_hold_body claim signature now db =
     (let purchase = bhc_purchase claim; deed = bhc_deed_launcher claim in
      bind (assert_base_not_terminal db purchase) (\<lambda>_.
      case base_inventory_hold db purchase of
        Some old \<Rightarrow>
          raise_if (bh_claim old \<noteq> bhc_json claim) (ValidatorLedgerConflict ''Base prepayment hold cannot be replaced'')
            (Inr (bh_signature old, db))
      | None \<Rightarrow>
          bind (assert_no_payment_hold db deed) (\<lambda>_.
          bind (assert_no_payment_authorization db purchase (bhc_reserved_coin claim)) (\<lambda>_.
          raise_if (inventory_payment_hold db purchase \<noteq> None)
            (ValidatorLedgerConflict ''Base hold cannot replace a Stripe hold or terminal tombstone'')
         (raise_if (bhc_expires_at claim \<le> now)
            (ValidatorLedgerConflict ''Base reservation expired before durable arming'')
         (raise_if (case latest_reservation db deed of None \<Rightarrow> False | Some p \<Rightarrow> p \<noteq> purchase)
            (ValidatorLedgerConflict ''Base reservation was superseded while arming'')
         (bind (store_base_hold \<lparr>bh_purchase = purchase, bh_deed_launcher = deed, bh_reserved_coin = bhc_reserved_coin claim,
              bh_payment = bhc_payment claim, bh_claim = bhc_json claim, bh_signature = signature, bh_signed_at = now,
              bh_payment_start = None\<rparr> db)
            (\<lambda>db'. Inr (signature, db')))))))))"

definition record_base_inventory_hold :: "base_hold_claim \<Rightarrow> string \<Rightarrow> int \<Rightarrow> (validator_db, vl_error, string) call" where
  "record_base_inventory_hold claim signature now = txn (record_base_hold_body claim signature now)"

definition start_row :: "string \<Rightarrow> json \<Rightarrow> base_hold_row \<Rightarrow> base_hold_row" where
  "start_row purchase evidence r =
     (if bh_purchase r = purchase then r\<lparr>bh_payment_start := Some (canonical_json evidence)\<rparr> else r)"

definition retain_start_body :: "claim_api \<Rightarrow> string \<Rightarrow> json \<Rightarrow> (validator_db, vl_error, unit) body" where
  "retain_start_body api purchase evidence db =
     bind (assert_base_not_terminal db purchase) (\<lambda>_.
     case base_inventory_hold db purchase of
       None \<Rightarrow> Inl (ValidatorLedgerConflict ''Base payment has no independently armed reservation'')
     | Some held \<Rightarrow>
         bind (lift (py_loads (bh_claim held))) (\<lambda>text.
         case parse_base_hold api text of
           None \<Rightarrow> Inl (VlValueError ''invalid Base hold'')
         | Some claim \<Rightarrow>
             bind (bind_held_deposit claim evidence) (\<lambda>_.
             case bh_payment_start held of
               Some original \<Rightarrow>
                 bind (lift (py_loads original)) (\<lambda>first.
                 raise_if (\<not> same_deposit_message first evidence)
                   (ValidatorLedgerConflict ''Base payment start cannot be replaced'') (Inr ((), db)))
             | None \<Rightarrow>
                 Inr ((), db\<lparr>base_holds := map (start_row purchase evidence) (base_holds db),
                              generations := map (start_row purchase evidence) (generations db)\<rparr>))))"

definition retain_base_payment_start :: "claim_api \<Rightarrow> string \<Rightarrow> json \<Rightarrow> (validator_db, vl_error, unit) call" where
  "retain_base_payment_start api purchase evidence = txn (retain_start_body api purchase evidence)"

definition record_terminal_body :: "terminal_claim \<Rightarrow> string \<Rightarrow> int \<Rightarrow> (validator_db, vl_error, string) body" where
  "record_terminal_body claim signature now db =
     (let hold = btc_hold claim; purchase = bhc_purchase hold in
      case base_lifecycle_terminal db purchase of
        Some old \<Rightarrow>
          raise_if (bt_claim old \<noteq> btc_json claim) (ValidatorLedgerConflict ''Base terminal evidence cannot be replaced'')
            (Inr (bt_signature old, db))
      | None \<Rightarrow>
          bind (case base_inventory_hold db purchase of
              None \<Rightarrow> Inr ()
            | Some held \<Rightarrow>
                raise_if (bh_claim held \<noteq> bhc_json hold) (ValidatorLedgerConflict ''Base terminal changes the private hold'')
               (case bh_payment_start held of
                  None \<Rightarrow> Inr ()
                | Some start \<Rightarrow>
                    (case btc_evidence claim of
                       None \<Rightarrow> Inl (ValidatorLedgerConflict ''Base terminal cannot erase verified funding'')
                     | Some evidence \<Rightarrow>
                         bind (lift (py_loads start)) (\<lambda>first.
                         raise_if (\<not> same_deposit_message first evidence)
                           (ValidatorLedgerConflict ''Base terminal cannot erase verified funding'') (Inr ()))))) (\<lambda>_.
          case sql_insert bt_clash \<lparr>bt_purchase = purchase, bt_payment = bhc_payment hold, bt_claim = btc_json claim,
                 bt_signature = signature, bt_signed_at = now\<rparr> (terminals db) of
            None \<Rightarrow> Inl VlIntegrityError
          | Some rs \<Rightarrow> Inr (signature, db\<lparr>terminals := rs\<rparr>)))"

definition record_base_lifecycle_terminal :: "terminal_claim \<Rightarrow> string \<Rightarrow> int \<Rightarrow> (validator_db, vl_error, string) call" where
  "record_base_lifecycle_terminal claim signature now = txn (record_terminal_body claim signature now)"

text \<open>
  \<open>held['claim_json']\<close> raises a \<open>TypeError\<close> without a hold; a stored observation that parses to another
  claim is a conflict.
\<close>

definition record_observation_body :: "claim_api \<Rightarrow> observation_claim \<Rightarrow> string \<Rightarrow> int \<Rightarrow> (validator_db, vl_error, string) body" where
  "record_observation_body api claim signature now db =
     bind (assert_base_not_terminal db (boc_purchase claim)) (\<lambda>_.
     case base_inventory_hold db (boc_purchase claim) of
       None \<Rightarrow> Inl (VlPython TypeError)
     | Some held \<Rightarrow>
         raise_if (bh_claim held \<noteq> bhc_json (boc_hold claim))
           (ValidatorLedgerConflict ''Base observation changes its original private hold'')
        (case find (\<lambda>o'. bo_purchase o' = boc_purchase claim \<and> bo_release o' = boc_release claim) (observations db) of
           Some old \<Rightarrow>
             bind (lift (py_loads (bo_claim old))) (\<lambda>text.
             case parse_payment_start api text of
               None \<Rightarrow> Inl (VlValueError ''invalid payment start'')
             | Some original \<Rightarrow>
                 raise_if (canonical_json original \<noteq> boc_json claim)
                   (ValidatorLedgerConflict ''Base observation cannot replace its original signed evidence'')
                   (Inr (bo_signature old, db)))
         | None \<Rightarrow>
             (case sql_insert bo_clash
                     \<lparr>bo_hash = boc_hash claim, bo_purchase = boc_purchase claim, bo_release = boc_release claim,
                      bo_claim = boc_json claim, bo_signature = signature, bo_signed_at = now\<rparr> (observations db) of
                None \<Rightarrow> Inl VlIntegrityError
              | Some rs \<Rightarrow> Inr (signature, db\<lparr>observations := rs\<rparr>))))"

text \<open>The payment start is retained in a transaction of its own before the observation is recorded.\<close>

definition record_base_lifecycle_observation ::
  "claim_api \<Rightarrow> observation_claim \<Rightarrow> string \<Rightarrow> int \<Rightarrow> (validator_db, vl_error, string) call" where
  "record_base_lifecycle_observation api claim signature now db =
     (case retain_base_payment_start api (boc_purchase claim) (boc_evidence claim) db of
        (Inl e, db') \<Rightarrow> (Inl e, db')
      | (Inr _, db') \<Rightarrow> txn (record_observation_body api claim signature now) db')"

section \<open>Calls\<close>

datatype vl_op =
    RecordCredential string string string string string string string int
  | RecordPrimary string string string string string int
  | RecordPrimaryBatch "string list" "string list" "string list" "string list" "string list" int
  | RecordSettlement string string string string string "string option" string "string option" int
  | RecordSettlementBatch string string string string string "string list" string int
  | RetainPhaseExpiry string json int
  | RecordIssuance string string string string string string "string option" "string option" "string option" int
  | RecordTransition string string string string string string string "string option" "string option" "string option" "string option" int
  | RecordPhase string string string int string "string option" int
  | RecordReservation string string string string string "string option" "string option" "(string \<times> json) list option" int
  | RecordExtension string string string string string "string option" int
  | RecordPaymentHold payment_hold_claim string string string int
  | RecordRelease release_claim string string
  | RecordAbort abort_claim string string string int
  | RecordBaseHold base_hold_claim string int
  | RetainStart string json
  | RecordTerminal terminal_claim string int
  | RecordObservation observation_claim string int

fun vl_step :: "claim_api \<Rightarrow> vl_op \<Rightarrow> validator_db \<Rightarrow> validator_db" where
  "vl_step api (RecordCredential h c n b v e s t) db = snd (record_or_recover h c n b v e s t db)"
| "vl_step api (RecordPrimary h c p d s t) db = snd (record_primary_purchase h c p d s t db)"
| "vl_step api (RecordPrimaryBatch hs cs ps ds ss t) db = snd (record_primary_purchase_batch hs cs ps ds ss t db)"
| "vl_step api (RecordSettlement h c p i r d s d' t) db = snd (record_stripe_settlement h c p i r d s d' t db)"
| "vl_step api (RecordSettlementBatch h c p i r ds s t) db = snd (record_stripe_settlement_batch h c p i r ds s t db)"
| "vl_step api (RetainPhaseExpiry h p t) db = retain_phase_expiry h p t db"
| "vl_step api (RecordIssuance h c p sc l s pu i x t) db = snd (record_voucher_issuance h c p sc l s pu i x t db)"
| "vl_step api (RecordTransition h c p sc v pc s pu i d x t) db = snd (record_voucher_transition h c p sc v pc s pu i d x t db)"
| "vl_step api (RecordPhase h c sc tr s x t) db = snd (record_voucher_series_phase h c sc tr s x t db)"
| "vl_step api (RecordReservation h c p co s d rt ev t) db = snd (record_inventory_reservation h c p co s d rt ev t db)"
| "vl_step api (RecordExtension h c p r s d t) db = snd (record_inventory_extension api h c p r s d t db)"
| "vl_step api (RecordPaymentHold c s p d t) db = snd (record_inventory_payment_hold c s p d t db)"
| "vl_step api (RecordRelease c s p) db = snd (record_inventory_payment_hold_release c s p db)"
| "vl_step api (RecordAbort c s p d t) db = snd (record_inventory_payment_hold_abort c s p d t db)"
| "vl_step api (RecordBaseHold c s t) db = snd (record_base_inventory_hold c s t db)"
| "vl_step api (RetainStart p e) db = snd (retain_base_payment_start api p e db)"
| "vl_step api (RecordTerminal c s t) db = snd (record_base_lifecycle_terminal c s t db)"
| "vl_step api (RecordObservation c s t) db = snd (record_base_lifecycle_observation api c s t db)"

end
