(* ===== verification/SignerExclusion.thy ===== *)
theory SignerExclusion
  imports ValidatorLedger
begin

text \<open>
  What the validator ledger excludes. The calls of \<open>validator_ledger.py\<close> and of its mixins are
  first shown to be sequences of guarded table writes, the relation \<open>vl_write\<close>; the invariants
  are then proved once per kind of write: a source coin is never signed for both an extension and
  a terminal operation, a voucher series coin has at most one live authorization, a deed has at
  most one open payment hold over both rails, and the reservations of a coin form a chain in which
  every authorization but the newest is retired for ever.
\<close>

section \<open>Guarded writes\<close>

text \<open>The writes of the ledger, with the part of their guards that the invariants need.\<close>

inductive vl_write :: "validator_db \<Rightarrow> validator_db \<Rightarrow> bool" where
  write_credentials: "vl_write db (db\<lparr>credentials := rs\<rparr>)"
| write_primaries:
    "(\<And>r. r \<in> set rs \<Longrightarrow> r \<in> set (primaries db) \<or> \<not> extended_coin db (pp_deed_coin r)) \<Longrightarrow>
     vl_write db (db\<lparr>primaries := rs\<rparr>)"
| write_settlement:
    "(\<And>l. l \<in> set ls \<Longrightarrow> l \<in> set (locks db) \<or> \<not> extended_coin db (lk_coin l)) \<Longrightarrow>
     vl_write db (db\<lparr>settlements := rs, locks := ls\<rparr>)"
| write_expiry: "vl_write db (db\<lparr>expiries := expiries db @ [r]\<rparr>)"
| write_issuance:
    "assert_series_coin_available db (vi_series_coin r) ''issuance'' expired = Inr () \<Longrightarrow>
     sql_insert vi_clash r (issuances db) = Some rs \<Longrightarrow> vl_write db (db\<lparr>issuances := rs\<rparr>)"
| write_transition:
    "assert_series_coin_available db (vt_series_coin r) ''terminal'' expired = Inr () \<Longrightarrow>
     \<forall>c. vt_deed_coin r = Some c \<longrightarrow> \<not> extended_coin db c \<Longrightarrow>
     sql_insert vt_clash r (transitions db) = Some rs \<Longrightarrow> vl_write db (db\<lparr>transitions := rs\<rparr>)"
| write_phase:
    "assert_series_coin_available db (vp_series_coin r) ''phase'' expired = Inr () \<Longrightarrow>
     phase_for_coin db (vp_series_coin r) = None \<Longrightarrow>
     sql_insert vp_clash r (phases db) = Some rs \<Longrightarrow> vl_write db (db\<lparr>phases := rs\<rparr>)"
| write_retry:
    "assert_series_coin_available db (vp_series_coin r) ''phase'' expired = Inr () \<Longrightarrow>
     phase_for_coin db (vp_series_coin r) = Some previous \<Longrightarrow>
     sql_insert vr_clash \<lparr>vr_predecessor = vp_hash previous, vr_phase = r\<rparr> (retries db) = Some rs \<Longrightarrow>
     vl_write db (db\<lparr>retries := rs\<rparr>)"
| write_extension:
    "\<not> terminal_coin db (ie_reserved_coin r) \<Longrightarrow> sql_insert ie_clash r (extensions db) = Some rs \<Longrightarrow>
     vl_write db (db\<lparr>extensions := rs\<rparr>)"
| write_reservation:
    "sql_insert rh_clash r (history db) = Some hs \<Longrightarrow> lookup ra_coin (rh_coin r) (actives db) = None \<Longrightarrow>
     sql_insert ra_clash \<lparr>ra_coin = rh_coin r, ra_hash = rh_hash r\<rparr> (actives db) = Some as \<Longrightarrow>
     vl_write db (db\<lparr>history := hs, actives := as\<rparr>)"
| write_replacement:
    "sql_insert rh_clash r (history db) = Some hs \<Longrightarrow> lookup ra_coin (rh_coin r) (actives db) = Some a \<Longrightarrow>
     rr_hash q = ra_hash a \<Longrightarrow> rr_replacement q = rh_hash r \<Longrightarrow>
     sql_insert rr_clash q (retirements db) = Some rs \<Longrightarrow>
     sql_update ra_clash (\<lambda>x. ra_coin x = rh_coin r \<and> ra_hash x = ra_hash a) (\<lambda>x. x\<lparr>ra_hash := rh_hash r\<rparr>) (actives db)
       = Some as \<Longrightarrow>
     vl_write db (db\<lparr>history := hs, retirements := rs, actives := as\<rparr>)"
| write_payment_hold:
    "assert_no_payment_hold db (ph_deed_launcher r) = Inr () \<Longrightarrow> sql_insert ph_clash r (payment_holds db) = Some rs \<Longrightarrow>
     vl_write db (db\<lparr>payment_holds := rs\<rparr>)"
| write_release: "release_hold purchase claim signature db = Inr db' \<Longrightarrow> vl_write db db'"
| write_aborts: "vl_write db (db\<lparr>aborts := rs\<rparr>)"
| write_base_hold:
    "assert_no_payment_hold db (bh_deed_launcher r) = Inr () \<Longrightarrow> vl_write db (db\<lparr>base_holds := base_holds db @ [r]\<rparr>)"
| write_generation:
    "assert_no_payment_hold db (bh_deed_launcher r) = Inr () \<Longrightarrow> vl_write db (db\<lparr>generations := generations db @ [r]\<rparr>)"
| write_payment_start:
    "vl_write db (db\<lparr>base_holds := map (start_row purchase evidence) (base_holds db),
        generations := map (start_row purchase evidence) (generations db)\<rparr>)"
| write_terminal: "vl_write db (db\<lparr>terminals := terminals db @ [r]\<rparr>)"
| write_observations: "vl_write db (db\<lparr>observations := rs\<rparr>)"

abbreviation vl_writes :: "validator_db \<Rightarrow> validator_db \<Rightarrow> bool" where
  "vl_writes \<equiv> vl_write\<^sup>*\<^sup>*"

lemma vl_write_into: "vl_write db db' \<Longrightarrow> vl_writes db db'"
  by (rule r_into_rtranclp)

lemmas into_writes = vl_write.intros [THEN vl_write_into]

lemma txn_writes:
  assumes "\<And>a db'. b db = Inr (a, db') \<Longrightarrow> vl_writes db db'"
  shows "vl_writes db (snd (txn b db))"
  by (rule txn_keeps [where P = "vl_writes db"]) (auto intro: assms)

lemma insert_or_conflict_Inr [simp]:
  "insert_or_conflict clash r rs m = Inr rs' \<longleftrightarrow> sql_insert clash r rs = Some rs'"
  by (simp add: insert_or_conflict_def split: option.splits)

text \<open>A signing operation changes the ledger only by storing its row.\<close>

lemma sign_writes:
  assumes "sign found s keep db = Inr (a, db')" and "\<And>db''. keep db = Inr db'' \<Longrightarrow> vl_writes db db''"
  shows "vl_writes db db'"
  using assms by (auto simp: sign_def bind_Inr split: option.splits)

lemma sign_cases:
  assumes "sign found s keep db = Inr (a, db')"
  obtains "db' = db" | "keep db = Inr db'"
  using assms by (auto simp: sign_def bind_Inr split: option.splits)

section \<open>Every call is a sequence of guarded writes\<close>

lemma writes_credential: "vl_writes db (snd (record_or_recover h c n b v e s t db))"
  unfolding record_or_recover_def
  by (rule txn_writes)
     (auto simp: record_or_recover_body_def bind_Inr elim!: sign_cases intro: into_writes(1))

lemma extended_frame [simp]: "extended_coin (db\<lparr>primaries := rs\<rparr>) = extended_coin db"
  by (simp add: extended_coin_def fun_eq_iff)

lemma no_extension_Inr [simp]:
  "assert_no_extension_signature db c = Inr x \<longleftrightarrow> (\<forall>coin. c = Some coin \<longrightarrow> \<not> extended_coin db coin)"
  by (cases c) (auto simp: assert_no_extension_signature_def)

lemma insert_primary_D:
  assumes "insert_primary r db = Inr db'"
  shows "db' = db\<lparr>primaries := primaries db @ [r]\<rparr>"
  using assms by (auto simp: insert_primary_def bind_Inr sql_insert_Some)

lemma write_primary: "\<not> extended_coin db (pp_deed_coin r) \<Longrightarrow> vl_writes db (db\<lparr>primaries := primaries db @ [r]\<rparr>)"
  by (rule vl_write_into, rule write_primaries) auto

lemma writes_primary: "vl_writes db (snd (record_primary_purchase h c p d s t db))"
  unfolding record_primary_purchase_def
  by (rule txn_writes)
     (auto simp: record_primary_body_def bind_Inr elim!: sign_cases dest!: insert_primary_D
       intro!: write_primary)

lemma batch_loop_writes:
  assumes "batch_loop rs db = Inr (ss, db')" and "\<And>r. r \<in> set rs \<Longrightarrow> \<not> extended_coin db (pp_deed_coin r)"
  shows "vl_writes db db'"
  using assms
proof (induction rs arbitrary: db ss)
  case (Cons r rs)
  then obtain s db1 ss' where
    f: "sign (recover pp_hash pp_claim pp_signature (pp_hash r) (pp_claim r)
            ''Purchase batch claim collides with different evidence.'' (primaries db)) (pp_signature r) (insert_primary r) db = Inr (s, db1)"
    and l: "batch_loop rs db1 = Inr (ss', db')"
    by (auto simp: bind_Inr)
  have w: "vl_writes db db1" and e: "extended_coin db1 = extended_coin db"
    using f Cons.prems(2) by (auto elim!: sign_cases dest!: insert_primary_D intro: write_primary)
  have "vl_writes db1 db'"
    using l by (rule Cons.IH) (simp add: e Cons.prems(2))
  with w show ?case by (rule rtranclp_trans)
qed simp

lemma map_result_D: "map_result f xs = Inr ys \<Longrightarrow> x \<in> set xs \<Longrightarrow> \<exists>y. f x = Inr y"
  by (induction xs arbitrary: ys) (auto split: sum.splits)

lemma writes_primary_batch: "vl_writes db (snd (record_primary_purchase_batch hs cs ps ds ss t db))"
proof -
  let ?rs = "map (\<lambda>i. \<lparr>pp_hash = hs ! i, pp_claim = cs ! i, pp_purchase = ps ! i, pp_deed_coin = ds ! i,
            pp_signature = ss ! i, pp_signed_at = t\<rparr>) [0..<length hs]"
  have "vl_writes db (snd (txn (record_primary_batch_body ds ?rs) db))" if "length ds = length hs"
  proof (rule txn_writes)
    fix a db'
    assume "record_primary_batch_body ds ?rs db = Inr (a, db')"
    then obtain u where m: "map_result (\<lambda>c. assert_no_extension_signature db (Some c)) ds = Inr u"
      and l: "batch_loop ?rs db = Inr (a, db')"
      by (auto simp: record_primary_batch_body_def bind_Inr)
    show "vl_writes db db'"
      by (rule batch_loop_writes [OF l]) (use that map_result_D [OF m] in auto)
  qed
  then show ?thesis
    by (auto simp: record_primary_purchase_batch_def Let_def)
qed

lemma insert_settlement_writes:
  assumes "insert_settlement r coins db = Inr db'" and "\<And>c. c \<in> set coins \<Longrightarrow> \<not> extended_coin db c"
  shows "vl_writes db db'"
proof -
  from assms(1) obtain rs ls where d: "db' = db\<lparr>settlements := rs, locks := ls\<rparr>"
    and l: "sql_insert_many lk_clash (map (\<lambda>c. \<lparr>lk_coin = c, lk_hash = st_hash r\<rparr>) coins) (locks db) = Some ls"
    by (auto simp: insert_settlement_def bind_Inr split: option.splits)
  have "vl_write db (db\<lparr>settlements := rs, locks := ls\<rparr>)"
    using sql_insert_many_Some [OF l] assms(2) by (intro write_settlement) auto
  with d show ?thesis by (simp add: vl_write_into)
qed

lemma writes_settlement: "vl_writes db (snd (record_stripe_settlement h c p i r d s d' t db))"
proof -
  have "vl_writes db (snd (txn (record_settlement_body r) db))" for r
    by (rule txn_writes)
       (auto simp: record_settlement_body_def bind_Inr elim!: sign_cases intro: insert_settlement_writes)
  then show ?thesis
    by (simp add: record_stripe_settlement_def split: list.split)
qed

lemma writes_settlement_batch: "vl_writes db (snd (record_stripe_settlement_batch h c p i r ds s t db))"
proof -
  have "vl_writes db (snd (txn (record_settlement_batch_body r coins) db))" for r coins
  proof (rule txn_writes)
    fix a db'
    assume "record_settlement_batch_body r coins db = Inr (a, db')"
    then obtain u where m: "map_result (\<lambda>c. assert_no_extension_signature db (Some c)) coins = Inr u"
      and i: "db' = db \<or> insert_settlement r coins db = Inr db'"
      by (auto simp: record_settlement_batch_body_def bind_Inr split: option.splits)
    have "\<not> extended_coin db c" if "c \<in> set coins" for c
      using map_result_D [OF m that] by simp
    with i show "vl_writes db db'"
      by (auto intro: insert_settlement_writes)
  qed
  then show ?thesis
    by (simp add: record_stripe_settlement_batch_def)
qed

lemma writes_expiry: "vl_writes db (retain_phase_expiry h p t db)"
  by (auto simp: retain_phase_expiry_def sql_insert_Some split: option.splits intro: into_writes(4))

lemma writes_issuance: "vl_writes db (snd (record_voucher_issuance h c p sc l s pu i x t db))"
proof -
  have "vl_writes db (snd (txn (record_issuance_body r pu i x) db))" for r
    by (rule txn_writes)
       (auto simp: record_issuance_body_def bind_Inr elim!: sign_cases intro: into_writes(5))
  then show ?thesis unfolding record_voucher_issuance_def .
qed

lemma writes_transition: "vl_writes db (snd (record_voucher_transition h c p sc v pc s pu i d x t db))"
proof -
  have "vl_writes db (snd (txn (record_transition_body r pu i x) db))" for r
    by (rule txn_writes)
       (auto simp: record_transition_body_def bind_Inr elim!: sign_cases intro: into_writes(6))
  then show ?thesis unfolding record_voucher_transition_def .
qed

lemma store_phase_writes: "store_phase r x db = Inr db' \<Longrightarrow> vl_writes db db'"
  by (auto simp: store_phase_def Let_def bind_Inr split: option.splits intro: into_writes(7,8))

lemma writes_phase: "vl_writes db (snd (record_voucher_series_phase h c sc tr s x t db))"
  unfolding record_voucher_series_phase_def
  by (rule txn_writes) (auto elim!: sign_cases intro: store_phase_writes)

lemma writes_extension: "vl_writes db (snd (record_inventory_extension api h c p r s d t db))"
proof -
  have "vl_writes db (snd (txn (record_extension_body api q) db))" for q
    by (rule txn_writes)
       (auto simp: record_extension_body_def bind_Inr split: option.splits intro: into_writes(9))
  then show ?thesis unfolding record_inventory_extension_def .
qed

lemma store_reservation_writes:
  assumes "store_reservation r retire encoded now active db = Inr (a, db')"
    and "active = lookup ra_coin (rh_coin r) (actives db)"
    and "active \<noteq> None \<Longrightarrow> map_option ra_hash active = retire"
  shows "vl_writes db db'"
proof (cases active)
  case None
  with assms show ?thesis
    by (auto simp: store_reservation_def bind_Inr intro: into_writes(10))
next
  case (Some b)
  then have r: "retire = Some (ra_hash b)" using assms(3) by simp
  have eq: "(\<lambda>x. ra_coin x = rh_coin r \<and> Some (ra_hash x) = retire) = (\<lambda>x. ra_coin x = rh_coin r \<and> ra_hash x = ra_hash b)"
    by (simp add: r)
  let ?q = "\<lparr>rr_hash = ra_hash b, rr_replacement = rh_hash r, rr_evidence = encoded, rr_retired_at = now\<rparr>"
  from assms(1) Some obtain hs rs as where
    "sql_insert rh_clash r (history db) = Some hs" "sql_insert rr_clash ?q (retirements db) = Some rs"
    "sql_update ra_clash (\<lambda>x. ra_coin x = rh_coin r \<and> ra_hash x = ra_hash b) (\<lambda>x. x\<lparr>ra_hash := rh_hash r\<rparr>) (actives db) = Some as"
    "db' = db\<lparr>history := hs, retirements := rs, actives := as\<rparr>"
    unfolding store_reservation_def Let_def eq
    by (auto simp: bind_Inr split: option.splits)
  with assms(2) Some into_writes(11) [where q = ?q and a = b and r = r and db = db] show ?thesis
    by simp
qed

lemma writes_reservation: "vl_writes db (snd (record_inventory_reservation h c p co s d rt ev t db))"
proof -
  have "vl_writes db (snd (txn (record_reservation_body r d rt enc t) db))" for r enc
    by (rule txn_writes)
       (auto simp: record_reservation_body_def bind_Inr Let_def split: option.splits intro: store_reservation_writes)
  then show ?thesis
    by (simp add: record_inventory_reservation_def)
qed

lemma writes_payment_hold: "vl_writes db (snd (record_inventory_payment_hold c s p d t db))"
  unfolding record_inventory_payment_hold_def
proof (rule txn_writes)
  fix a db'
  assume "record_payment_hold_body c s p d t db = Inr (a, db')"
  then show "vl_writes db db'"
    using into_writes(12) [where db = db and r = "\<lparr>ph_hash = phc_hash c, ph_claim = phc_json c, ph_purchase = p,
              ph_payment_intent = phc_payment_intent c, ph_deed_launcher = d, ph_reserved_coin = phc_reserved_coin c,
              ph_signature = s, ph_signed_at = t, ph_released = False, ph_release_claim = None,
              ph_release_signature = None\<rparr>"]
    by (auto simp: record_payment_hold_body_def bind_Inr split: option.splits)
qed

lemma writes_release: "vl_writes db (snd (record_inventory_payment_hold_release c s p db))"
  unfolding record_inventory_payment_hold_release_def
  by (rule txn_writes)
     (auto simp: record_release_body_def bind_Inr split: option.splits if_splits intro: into_writes(13))

lemma writes_abort: "vl_writes db (snd (record_inventory_payment_hold_abort c s p d t db))"
  unfolding record_inventory_payment_hold_abort_def
  by (rule txn_writes)
     (auto simp: record_abort_body_def bind_Inr Let_def split: option.splits
       intro: into_writes(14) rtranclp_trans [OF into_writes(14) into_writes(13)])

lemma store_base_hold_writes:
  assumes "store_base_hold r db = Inr db'" and "assert_no_payment_hold db (bh_deed_launcher r) = Inr ()"
  shows "vl_writes db db'"
  using assms by (auto simp: store_base_hold_def bind_Inr sql_insert_Some split: if_splits intro: into_writes(15,16))

lemma writes_base_hold: "vl_writes db (snd (record_base_inventory_hold c s t db))"
  unfolding record_base_inventory_hold_def
  by (rule txn_writes)
     (auto simp: record_base_hold_body_def bind_Inr Let_def split: option.splits intro: store_base_hold_writes)

lemma writes_start: "vl_writes db (snd (retain_base_payment_start api p e db))"
  unfolding retain_base_payment_start_def
  by (rule txn_writes)
     (auto simp: retain_start_body_def bind_Inr split: option.splits intro: into_writes(17))

lemma writes_terminal: "vl_writes db (snd (record_base_lifecycle_terminal c s t db))"
  unfolding record_base_lifecycle_terminal_def
  by (rule txn_writes)
     (auto simp: record_terminal_body_def bind_Inr Let_def sql_insert_Some split: option.splits intro: into_writes(18))

lemma writes_observation: "vl_writes db (snd (record_base_lifecycle_observation api c s t db))"
proof -
  have o: "vl_writes db (snd (txn (record_observation_body api c s t) db))" for db
    by (rule txn_writes)
       (auto simp: record_observation_body_def bind_Inr split: option.splits intro: into_writes(19))
  show ?thesis
    using writes_start [of db api "boc_purchase c" "boc_evidence c"] o
    by (auto simp: record_base_lifecycle_observation_def split: sum.splits prod.splits intro: rtranclp_trans)
qed

lemmas op_writes = writes_credential writes_primary writes_primary_batch writes_settlement writes_settlement_batch
  writes_expiry writes_issuance writes_transition writes_phase writes_reservation writes_extension writes_payment_hold
  writes_release writes_abort writes_base_hold writes_start writes_terminal writes_observation

lemma step_writes: "vl_writes db (vl_step api op db)"
  by (cases op) (simp_all add: op_writes)

lemma run_writes: "vl_writes db (run (vl_step api) ops db)"
  by (induction ops arbitrary: db) (auto intro: rtranclp_trans step_writes)

text \<open>An invariant of the single writes is an invariant of the ledger.\<close>

locale ledger_invariant =
  fixes inv :: "validator_db \<Rightarrow> bool"
  assumes write_inv: "vl_write db db' \<Longrightarrow> inv db \<Longrightarrow> inv db'"
begin

lemma writes_inv: "vl_writes db db' \<Longrightarrow> inv db \<Longrightarrow> inv db'"
  by (induction rule: rtranclp_induct) (auto intro: write_inv)

lemma step_inv: "inv db \<Longrightarrow> inv (vl_step api op db)"
  by (rule writes_inv [OF step_writes])

lemma run_inv: "inv db \<Longrightarrow> inv (run (vl_step api) ops db)"
  by (rule writes_inv [OF run_writes])

end

section \<open>Coins\<close>

definition coins_exclusive :: "validator_db \<Rightarrow> bool" where
  "coins_exclusive db \<longleftrightarrow> (\<forall>coin. \<not> (terminal_coin db coin \<and> extended_coin db coin))"

lemma coins_exclusive_empty: "coins_exclusive empty_validator_db"
  by (simp add: coins_exclusive_def extended_coin_def empty_validator_db_def)

lemma terminal_coin_iff:
  "terminal_coin db coin \<longleftrightarrow> (\<exists>r \<in> set (primaries db). pp_deed_coin r = coin) \<or> (\<exists>l \<in> set (locks db). lk_coin l = coin) \<or>
     (\<exists>r \<in> set (transitions db). vt_deed_coin r = Some coin)"
  by (simp add: terminal_coin_def list_ex_iff)

lemma extended_coin_iff: "extended_coin db coin \<longleftrightarrow> (\<exists>r \<in> set (extensions db). ie_reserved_coin r = coin)"
  by (simp add: extended_coin_def list_ex_iff)

text \<open>A write that leaves the coin tables alone.\<close>

lemma coins_frame:
  assumes "coins_exclusive db" and "primaries db' = primaries db" and "locks db' = locks db"
    and "transitions db' = transitions db" and "extensions db' = extensions db"
  shows "coins_exclusive db'"
  using assms by (simp add: coins_exclusive_def terminal_coin_iff extended_coin_iff)

lemma release_hold_D:
  assumes "release_hold purchase claim signature db = Inr db'"
  obtains "db' = db\<lparr>payment_holds :=
     map (\<lambda>r. if ph_purchase r = purchase then released_row claim signature r else r) (payment_holds db)\<rparr>"
  using assms by (auto simp: release_hold_def sql_update_Some split: option.splits)

lemma coins_write:
  assumes "vl_write db db'" and inv: "coins_exclusive db"
  shows "coins_exclusive db'"
  using assms(1)
proof (cases rule: vl_write.cases)
  case (write_primaries rs)
  with inv write_primaries show ?thesis
    by (fastforce simp: coins_exclusive_def terminal_coin_iff extended_coin_iff)
next
  case (write_settlement ls rs)
  with inv write_settlement show ?thesis
    by (fastforce simp: coins_exclusive_def terminal_coin_iff extended_coin_iff)
next
  case (write_transition r rs)
  with inv write_transition show ?thesis
    by (auto simp: coins_exclusive_def terminal_coin_iff extended_coin_iff sql_insert_Some)
next
  case (write_extension r rs)
  with inv write_extension show ?thesis
    by (auto simp: coins_exclusive_def terminal_coin_iff extended_coin_iff sql_insert_Some)
qed (auto intro: coins_frame [OF inv] elim!: release_hold_D)

interpretation coins: ledger_invariant coins_exclusive
  by unfold_locales (rule coins_write)

text \<open>
  C37. Whatever calls the validator has served, no inventory coin has both an extension signature and a
  signature that spends it: not through a primary purchase, a Stripe settlement (single or batch) or a
  voucher transition, in whichever order the requests came.
\<close>

theorem vl_extension_xor_terminal:
  "\<not> (terminal_coin (run (vl_step api) ops empty_validator_db) coin \<and>
      extended_coin (run (vl_step api) ops empty_validator_db) coin)"
  using coins.run_inv [OF coins_exclusive_empty, of api ops] by (simp add: coins_exclusive_def)

section \<open>Deeds\<close>

definition deeds_exclusive :: "validator_db \<Rightarrow> bool" where
  "deeds_exclusive db \<longleftrightarrow> (\<forall>deed. length (open_payment_holds db deed) + length (open_base_holds db deed) \<le> 1)"

lemma deeds_exclusive_empty: "deeds_exclusive empty_validator_db"
  by (simp add: deeds_exclusive_def open_payment_holds_def open_base_holds_def empty_validator_db_def)

lemma no_payment_hold_Inr:
  "assert_no_payment_hold db deed = Inr x \<longleftrightarrow> open_base_holds db deed = [] \<and> open_payment_holds db deed = []"
  by (auto simp: assert_no_payment_hold_def)

lemma length_filter_mono: "(\<And>x. x \<in> set xs \<Longrightarrow> P x \<Longrightarrow> Q x) \<Longrightarrow> length (filter P xs) \<le> length (filter Q xs)"
  by (induction xs) auto

text \<open>A write that opens no hold.\<close>

lemma deeds_frame:
  assumes "deeds_exclusive db" and "\<And>deed. length (open_payment_holds db' deed) \<le> length (open_payment_holds db deed)"
    and "\<And>deed. length (open_base_holds db' deed) \<le> length (open_base_holds db deed)"
  shows "deeds_exclusive db'"
  unfolding deeds_exclusive_def
proof
  fix deed
  show "length (open_payment_holds db' deed) + length (open_base_holds db' deed) \<le> 1"
    using assms(1) [unfolded deeds_exclusive_def, rule_format, of deed] assms(2) [of deed] assms(3) [of deed] by simp
qed

text \<open>A write that opens one hold on a deed that has none.\<close>

lemma deeds_open:
  assumes "deeds_exclusive db" and "assert_no_payment_hold db deed = Inr ()"
    and "length (open_payment_holds db' deed) + length (open_base_holds db' deed) \<le> 1"
    and "\<And>d. d \<noteq> deed \<Longrightarrow> open_payment_holds db' d = open_payment_holds db d"
    and "\<And>d. d \<noteq> deed \<Longrightarrow> open_base_holds db' d = open_base_holds db d"
  shows "deeds_exclusive db'"
  unfolding deeds_exclusive_def
proof
  fix d
  show "length (open_payment_holds db' d) + length (open_base_holds db' d) \<le> 1"
    using assms by (cases "d = deed") (auto simp: deeds_exclusive_def)
qed

lemma lookup_append_None: "lookup key k (rs @ rs') = None \<Longrightarrow> lookup key k rs = None"
  by (simp add: lookup_append split: option.splits)

lemma deeds_write:
  assumes "vl_write db db'" and inv: "deeds_exclusive db"
  shows "deeds_exclusive db'"
  using assms(1)
proof (cases rule: vl_write.cases)
  case (write_payment_hold r rs)
  from inv show ?thesis
    by (rule deeds_open [of _ "ph_deed_launcher r"])
       (use write_payment_hold in \<open>auto simp: no_payment_hold_Inr open_payment_holds_def open_base_holds_def sql_insert_Some\<close>)
next
  case (write_base_hold r)
  from inv show ?thesis
    by (rule deeds_open [of _ "bh_deed_launcher r"])
       (use write_base_hold in \<open>auto simp: no_payment_hold_Inr open_payment_holds_def open_base_holds_def\<close>)
next
  case (write_generation r)
  from inv show ?thesis
    by (rule deeds_open [of _ "bh_deed_launcher r"])
       (use write_generation in \<open>auto simp: no_payment_hold_Inr open_payment_holds_def open_base_holds_def\<close>)
next
  case (write_release purchase claim signature)
  from inv show ?thesis
    by (rule deeds_frame)
       (use write_release in \<open>auto simp: open_payment_holds_def open_base_holds_def released_row_def
          intro!: length_filter_mono elim!: release_hold_D split: if_splits\<close>)
next
  case (write_payment_start purchase evidence)
  from inv show ?thesis
    by (rule deeds_frame)
       (use write_payment_start in \<open>auto simp: open_payment_holds_def open_base_holds_def start_row_def
          intro!: add_mono length_filter_mono split: if_splits\<close>)
next
  case (write_terminal r)
  from inv show ?thesis
    by (rule deeds_frame)
       (use write_terminal in \<open>auto simp: open_payment_holds_def open_base_holds_def
          intro!: add_mono length_filter_mono dest: lookup_append_None\<close>)
qed (auto intro: deeds_frame [OF inv] simp: open_payment_holds_def open_base_holds_def)

interpretation deeds: ledger_invariant deeds_exclusive
  by unfold_locales (rule deeds_write)

text \<open>
  In every reachable state of the validator a SmartDeed has at most one open prepayment hold, counting
  both the Stripe holds that are not released and the Base holds, of both tables, whose purchase has no
  terminal record.
\<close>

theorem vl_one_open_hold:
  "length (open_payment_holds (run (vl_step api) ops empty_validator_db) deed) +
   length (open_base_holds (run (vl_step api) ops empty_validator_db) deed) \<le> 1"
  using deeds.run_inv [OF deeds_exclusive_empty, of api ops] unfolding deeds_exclusive_def by blast

section \<open>Voucher series coins\<close>

text \<open>The authorizations of a series coin that are not known to have expired.\<close>

definition live_authorizations :: "validator_db \<Rightarrow> string \<Rightarrow> nat" where
  "live_authorizations db coin =
     length (filter (\<lambda>r. vi_series_coin r = coin) (issuances db)) +
     length (filter (\<lambda>r. vt_series_coin r = coin) (transitions db)) +
     length (filter (\<lambda>p. \<not> observed_expired db (vp_hash p)) (phase_rows db coin))"

definition series_ok :: "validator_db \<Rightarrow> string \<Rightarrow> bool" where
  "series_ok db coin \<longleftrightarrow> live_authorizations db coin \<le> 1 \<and>
     (\<forall>p \<in> set (butlast (phase_rows db coin)). observed_expired db (vp_hash p))"

definition series_inv :: "validator_db \<Rightarrow> bool" where
  "series_inv db \<longleftrightarrow> table_ok vp_clash (phases db) \<and> (\<forall>coin. series_ok db coin)"

lemma series_inv_empty: "series_inv empty_validator_db"
  by (simp add: series_inv_def series_ok_def live_authorizations_def phase_rows_def empty_validator_db_def)

lemma filter_series_coin:
  "table_ok vp_clash ps \<Longrightarrow>
   filter (\<lambda>p. vp_series_coin p = coin) ps = (case lookup vp_series_coin coin ps of None \<Rightarrow> [] | Some p \<Rightarrow> [p])"
  by (induction ps) (auto simp: list_all_iff vp_clash_def filter_empty_conv split: option.splits dest!: lookup_Some_D)

text \<open>\<open>phase_for_coin\<close> returns the newest phase signature of the coin.\<close>

lemma phase_for_coin_last:
  assumes "table_ok vp_clash (phases db)"
  shows "phase_for_coin db coin = (if phase_rows db coin = [] then None else Some (last (phase_rows db coin)))"
  unfolding phase_for_coin_def phase_rows_def filter_series_coin [OF assms]
  by (auto split: list.splits option.splits)

text \<open>The guard of every series signature: all earlier phases have been observed to expire.\<close>

lemma available_phases:
  assumes "series_inv db" and "assert_series_coin_available db coin kind expired = Inr ()"
  shows "\<forall>p \<in> set (phase_rows db coin). observed_expired db (vp_hash p)"
proof (cases "phase_rows db coin = []")
  case False
  have ok: "table_ok vp_clash (phases db)" "\<forall>p \<in> set (butlast (phase_rows db coin)). observed_expired db (vp_hash p)"
    using assms(1) by (auto simp: series_inv_def series_ok_def)
  have "observed_expired db (vp_hash (last (phase_rows db coin)))"
    using assms(2) False by (simp add: assert_series_coin_available_def phase_for_coin_last [OF ok(1)])
  moreover have "p = last (phase_rows db coin)" if "p \<in> set (phase_rows db coin)" "p \<notin> set (butlast (phase_rows db coin))" for p
    using that False by (cases "phase_rows db coin" rule: rev_cases) auto
  ultimately show ?thesis using ok(2) by blast
qed simp

lemma filter_none: "(\<And>x. x \<in> set xs \<Longrightarrow> \<not> P x) \<Longrightarrow> filter P xs = []"
  by (simp add: filter_empty_conv)

lemma available_issuance:
  assumes "assert_series_coin_available db coin ''issuance'' expired = Inr ()"
  shows "filter (\<lambda>r. vt_series_coin r = coin) (transitions db) = []"
  using assms by (auto simp: assert_series_coin_available_def list_ex_iff filter_empty_conv)

lemma available_terminal:
  assumes "assert_series_coin_available db coin ''terminal'' expired = Inr ()"
  shows "filter (\<lambda>r. vi_series_coin r = coin) (issuances db) = []"
  using assms by (auto simp: assert_series_coin_available_def list_ex_iff filter_empty_conv)

lemma available_phase:
  assumes "assert_series_coin_available db coin ''phase'' expired = Inr ()"
  shows "filter (\<lambda>r. vt_series_coin r = coin) (transitions db) = []"
    and "filter (\<lambda>r. vi_series_coin r = coin) (issuances db) = []"
  using assms by (auto simp: assert_series_coin_available_def list_ex_iff filter_empty_conv)

lemma no_live_phase:
  "\<forall>p \<in> set (phase_rows db coin). observed_expired db (vp_hash p) \<Longrightarrow>
   filter (\<lambda>p. \<not> observed_expired db (vp_hash p)) (phase_rows db coin) = []"
  by (simp add: filter_empty_conv)

text \<open>A write that leaves the series tables alone, and one that adds rows of a single coin.\<close>

lemma series_frame:
  assumes "series_inv db" and "issuances db' = issuances db" and "transitions db' = transitions db"
    and "phases db' = phases db" and "retries db' = retries db" and "expiries db' = expiries db"
  shows "series_inv db'"
  using assms
  by (simp add: series_inv_def series_ok_def live_authorizations_def phase_rows_def observed_expired_def)

lemma series_add:
  assumes "series_inv db" and "table_ok vp_clash (phases db')" and "series_ok db' c"
    and "\<And>coin. coin \<noteq> c \<Longrightarrow> series_ok db coin \<Longrightarrow> series_ok db' coin"
  shows "series_inv db'"
  unfolding series_inv_def
proof (intro conjI allI)
  show "series_ok db' coin" for coin
  proof (cases "coin = c")
    case False
    then show ?thesis using assms(1,4) by (simp add: series_inv_def)
  qed (simp add: assms(3))
qed (rule assms(2))

lemma series_frames:
  "phase_rows (db\<lparr>issuances := vs\<rparr>) = phase_rows db" "observed_expired (db\<lparr>issuances := vs\<rparr>) = observed_expired db"
  "phase_rows (db\<lparr>transitions := ts\<rparr>) = phase_rows db" "observed_expired (db\<lparr>transitions := ts\<rparr>) = observed_expired db"
  by (simp_all add: fun_eq_iff phase_rows_def observed_expired_def)

lemma observed_mono: "observed_expired db h \<Longrightarrow> observed_expired (db\<lparr>expiries := expiries db @ [r]\<rparr>) h"
  by (auto simp: observed_expired_def)

lemma series_issuance:
  assumes "series_inv db" and a: "assert_series_coin_available db (vi_series_coin r) ''issuance'' expired = Inr ()"
    and "sql_insert vi_clash r (issuances db) = Some rs"
  shows "series_inv (db\<lparr>issuances := rs\<rparr>)"
proof (rule series_add [where c = "vi_series_coin r", OF assms(1)])
  have rs: "rs = issuances db @ [r]" and f: "filter (\<lambda>x. vi_series_coin x = vi_series_coin r) (issuances db) = []"
    using assms(3) by (auto simp: sql_insert_Some vi_clash_def filter_empty_conv)
  note all = available_phases [OF assms(1) a]
  show "series_ok (db\<lparr>issuances := rs\<rparr>) (vi_series_coin r)"
    using all available_issuance [OF a] f no_live_phase [OF all]
    by (simp add: series_ok_def live_authorizations_def rs series_frames) (meson in_set_butlastD)
  show "series_ok (db\<lparr>issuances := rs\<rparr>) coin" if "coin \<noteq> vi_series_coin r" "series_ok db coin" for coin
    using that by (simp add: series_ok_def live_authorizations_def rs series_frames)
  show "table_ok vp_clash (phases (db\<lparr>issuances := rs\<rparr>))"
    using assms(1) by (simp add: series_inv_def)
qed

lemma series_transition:
  assumes "series_inv db" and a: "assert_series_coin_available db (vt_series_coin r) ''terminal'' expired = Inr ()"
    and "sql_insert vt_clash r (transitions db) = Some rs"
  shows "series_inv (db\<lparr>transitions := rs\<rparr>)"
proof (rule series_add [where c = "vt_series_coin r", OF assms(1)])
  have rs: "rs = transitions db @ [r]" and f: "filter (\<lambda>x. vt_series_coin x = vt_series_coin r) (transitions db) = []"
    using assms(3) by (auto simp: sql_insert_Some vt_clash_def filter_empty_conv)
  note all = available_phases [OF assms(1) a]
  show "series_ok (db\<lparr>transitions := rs\<rparr>) (vt_series_coin r)"
    using all available_terminal [OF a] f no_live_phase [OF all]
    by (simp add: series_ok_def live_authorizations_def rs series_frames) (meson in_set_butlastD)
  show "series_ok (db\<lparr>transitions := rs\<rparr>) coin" if "coin \<noteq> vt_series_coin r" "series_ok db coin" for coin
    using that by (simp add: series_ok_def live_authorizations_def rs series_frames)
  show "table_ok vp_clash (phases (db\<lparr>transitions := rs\<rparr>))"
    using assms(1) by (simp add: series_inv_def)
qed

text \<open>A new phase goes to the end of the phase signatures of its coin.\<close>

lemma series_phase:
  assumes inv: "series_inv db" and a: "assert_series_coin_available db (vp_series_coin r) ''phase'' expired = Inr ()"
    and rows: "\<And>coin. phase_rows db' coin = phase_rows db coin @ (if coin = vp_series_coin r then [r] else [])"
    and same: "issuances db' = issuances db" "transitions db' = transitions db" "expiries db' = expiries db"
    and ok: "table_ok vp_clash (phases db')"
  shows "series_inv db'"
proof (rule series_add [where c = "vp_series_coin r", OF inv ok])
  have obs: "observed_expired db' = observed_expired db"
    by (simp add: fun_eq_iff observed_expired_def same)
  show "series_ok db' (vp_series_coin r)"
    using available_phases [OF inv a] available_phase [OF a]
    by (simp add: series_ok_def live_authorizations_def rows same obs no_live_phase)
  show "series_ok db' coin" if "coin \<noteq> vp_series_coin r" "series_ok db coin" for coin
    using that by (simp add: series_ok_def live_authorizations_def rows same obs)
qed

lemma series_write:
  assumes "vl_write db db'" and inv: "series_inv db"
  shows "series_inv db'"
  using assms(1)
proof (cases rule: vl_write.cases)
  case (write_expiry r)
  have "series_ok db' coin" if "series_ok db coin" for coin
  proof -
    have "length (filter (\<lambda>p. \<not> observed_expired db' (vp_hash p)) (phase_rows db coin))
       \<le> length (filter (\<lambda>p. \<not> observed_expired db (vp_hash p)) (phase_rows db coin))"
      by (rule length_filter_mono) (auto simp: write_expiry dest: observed_mono)
    with that show ?thesis
      by (auto simp: series_ok_def live_authorizations_def write_expiry phase_rows_def intro: observed_mono)
  qed
  with inv show ?thesis by (auto simp: series_inv_def write_expiry)
next
  case (write_issuance r expired rs)
  with inv show ?thesis by (auto intro: series_issuance)
next
  case (write_transition r expired rs)
  with inv show ?thesis by (auto intro: series_transition)
next
  case (write_phase r expired rs)
  have ok: "table_ok vp_clash (phases db)" using inv by (simp add: series_inv_def)
  have none: "phase_rows db (vp_series_coin r) = []"
    using write_phase(3) by (simp add: phase_for_coin_last [OF ok] split: if_splits)
  show ?thesis
  proof (rule series_phase [OF inv write_phase(2)])
    show "phase_rows db' coin = phase_rows db coin @ (if coin = vp_series_coin r then [r] else [])" for coin
      using none write_phase(1,4) by (auto simp: phase_rows_def sql_insert_Some)
    show "table_ok vp_clash (phases db')"
      using vp.ok_insert [OF ok write_phase(4)] write_phase(1) by simp
  qed (simp_all add: write_phase(1))
next
  case (write_retry r expired previous rs)
  have ok: "table_ok vp_clash (phases db)" using inv by (simp add: series_inv_def)
  show ?thesis
  proof (rule series_phase [OF inv write_retry(2)])
    show "phase_rows db' coin = phase_rows db coin @ (if coin = vp_series_coin r then [r] else [])" for coin
      using write_retry(1,4) by (auto simp: phase_rows_def sql_insert_Some)
    show "table_ok vp_clash (phases db')"
      using ok write_retry(1) by simp
  qed (simp_all add: write_retry(1))
qed (auto intro: series_frame [OF inv] elim!: release_hold_D)

interpretation series: ledger_invariant series_inv
  by unfold_locales (rule series_write)

text \<open>
  C38. In every reachable state a voucher series coin has at most one live authorization: one issuance, one
  terminal transition or one phase change whose expiry has not been observed. A phase signature can be
  retried, but only after the expiry of the newest one is on record.
\<close>

theorem vl_one_live_series_authorization:
  "live_authorizations (run (vl_step api) ops empty_validator_db) coin \<le> 1"
  using series.run_inv [OF series_inv_empty, of api ops] by (simp add: series_inv_def series_ok_def)

section \<open>Reservations\<close>

text \<open>The authorization that now holds a coin, and the claims that were retired.\<close>

definition active_for :: "validator_db \<Rightarrow> history_row \<Rightarrow> bool" where
  "active_for db h \<longleftrightarrow> (\<exists>a \<in> set (actives db). ra_coin a = rh_coin h \<and> ra_hash a = rh_hash h)"

definition retired :: "validator_db \<Rightarrow> string \<Rightarrow> bool" where
  "retired db h \<longleftrightarrow> (\<exists>q \<in> set (retirements db). rr_hash q = h)"

definition chain_inv :: "validator_db \<Rightarrow> bool" where
  "chain_inv db \<longleftrightarrow> table_ok ra_clash (actives db) \<and>
     (\<forall>a \<in> set (actives db). \<exists>h \<in> set (history db). rh_hash h = ra_hash a \<and> rh_coin h = ra_coin a) \<and>
     (\<forall>q \<in> set (retirements db). \<exists>h \<in> set (history db). rh_hash h = rr_hash q) \<and>
     (\<forall>h \<in> set (history db). active_for db h \<longleftrightarrow> \<not> retired db (rh_hash h))"

lemma chain_invD:
  assumes "chain_inv db"
  shows "table_ok ra_clash (actives db)"
    and "\<And>a. a \<in> set (actives db) \<Longrightarrow> \<exists>h \<in> set (history db). rh_hash h = ra_hash a \<and> rh_coin h = ra_coin a"
    and "\<And>h. retired db h \<Longrightarrow> \<exists>r \<in> set (history db). rh_hash r = h"
    and "\<And>h. h \<in> set (history db) \<Longrightarrow> active_for db h \<longleftrightarrow> \<not> retired db (rh_hash h)"
  using assms by (auto simp: chain_inv_def retired_def)

lemma chain_invI:
  assumes "table_ok ra_clash (actives db)"
    and "\<And>a. a \<in> set (actives db) \<Longrightarrow> \<exists>h \<in> set (history db). rh_hash h = ra_hash a \<and> rh_coin h = ra_coin a"
    and "\<And>h. retired db h \<Longrightarrow> \<exists>r \<in> set (history db). rh_hash r = h"
    and "\<And>h. h \<in> set (history db) \<Longrightarrow> active_for db h \<longleftrightarrow> \<not> retired db (rh_hash h)"
  shows "chain_inv db"
  using assms by (auto simp: chain_inv_def retired_def)

lemma chain_empty: "chain_inv empty_validator_db"
  by (simp add: chain_inv_def empty_validator_db_def)

lemma chain_frame:
  assumes "chain_inv db" and "actives db' = actives db" and "history db' = history db" and "retirements db' = retirements db"
  shows "chain_inv db'"
  using assms by (simp add: chain_inv_def active_for_def retired_def)

text \<open>The first reservation of a coin.\<close>

lemma chain_first:
  assumes inv: "chain_inv db" and h: "sql_insert rh_clash r (history db) = Some hs"
    and a: "sql_insert ra_clash \<lparr>ra_coin = rh_coin r, ra_hash = rh_hash r\<rparr> (actives db) = Some as"
  shows "chain_inv (db\<lparr>history := hs, actives := as\<rparr>)" (is "chain_inv ?d")
proof (rule chain_invI)
  note d = chain_invD [OF inv]
  have hs: "hs = history db @ [r]" and as: "as = actives db @ [\<lparr>ra_coin = rh_coin r, ra_hash = rh_hash r\<rparr>]"
    and fresh: "\<And>x. x \<in> set (history db) \<Longrightarrow> rh_hash x \<noteq> rh_hash r"
    using h a by (auto simp: sql_insert_Some rh_clash_def)
  have ret: "retired ?d c \<longleftrightarrow> retired db c" for c
    by (simp add: retired_def)
  have hist: "set (history ?d) = insert r (set (history db))"
    by (simp add: hs)
  show "table_ok ra_clash (actives ?d)"
    using ra.ok_insert [OF d(1) a] by simp
  show "\<exists>h \<in> set (history ?d). rh_hash h = ra_hash x \<and> rh_coin h = ra_coin x" if "x \<in> set (actives ?d)" for x
    using that d(2) unfolding hist by (auto simp: as)
  show "\<exists>x \<in> set (history ?d). rh_hash x = c" if "retired ?d c" for c
    using that d(3) unfolding hist ret by blast
  have nr: "\<not> retired db (rh_hash r)"
    using d(3) fresh by blast
  show "active_for ?d x \<longleftrightarrow> \<not> retired ?d (rh_hash x)" if "x \<in> set (history ?d)" for x
  proof (cases "x = r")
    case True
    then show ?thesis using nr unfolding ret by (simp add: active_for_def as)
  next
    case False
    with that have x: "x \<in> set (history db)" unfolding hist by simp
    show ?thesis
      using d(4) [OF x] fresh [OF x] unfolding ret by (auto simp: active_for_def as)
  qed
qed

text \<open>A replacement retires the active authorization of the coin and puts its own in its place.\<close>

lemma chain_replace:
  assumes inv: "chain_inv db" and h: "sql_insert rh_clash r (history db) = Some hs"
    and l: "lookup ra_coin (rh_coin r) (actives db) = Some a"
    and q: "rr_hash q = ra_hash a" "sql_insert rr_clash q (retirements db) = Some rs"
    and u: "sql_update ra_clash (\<lambda>x. ra_coin x = rh_coin r \<and> ra_hash x = ra_hash a) (\<lambda>x. x\<lparr>ra_hash := rh_hash r\<rparr>) (actives db)
       = Some as"
  shows "chain_inv (db\<lparr>history := hs, retirements := rs, actives := as\<rparr>)" (is "chain_inv ?d")
proof (rule chain_invI)
  note d = chain_invD [OF inv]
  have hs: "hs = history db @ [r]" and rs: "rs = retirements db @ [q]"
    and fresh: "\<And>x. x \<in> set (history db) \<Longrightarrow> rh_hash x \<noteq> rh_hash r"
    using h q by (auto simp: sql_insert_Some rh_clash_def)
  have a: "a \<in> set (actives db)" "ra_coin a = rh_coin r"
    using l by (auto dest: lookup_Some_D)
  have same: "x = a" if "x \<in> set (actives db)" "ra_coin x = ra_coin a \<or> ra_hash x = ra_hash a" for x
    by (rule ra.clash_eq [OF d(1) that(1) a(1)]) (use that(2) in \<open>auto simp: ra_clash_def\<close>)
  have as_eq: "as = map (\<lambda>x. if ra_coin x = rh_coin r \<and> ra_hash x = ra_hash a then x\<lparr>ra_hash := rh_hash r\<rparr> else x) (actives db)"
    using u by (simp add: sql_update_Some)
  have "as = map (\<lambda>x. if x = a then a\<lparr>ra_hash := rh_hash r\<rparr> else x) (actives db)"
    unfolding as_eq by (rule map_cong) (use a(2) same in auto)
  then have mem: "x \<in> set as \<longleftrightarrow> x = a\<lparr>ra_hash := rh_hash r\<rparr> \<or> x \<in> set (actives db) \<and> x \<noteq> a" for x
    using a(1) by auto
  have hist: "set (history ?d) = insert r (set (history db))"
    by (simp add: hs)
  have ret: "retired ?d c \<longleftrightarrow> retired db c \<or> c = ra_hash a" for c
    using q(1) by (auto simp: retired_def rs)
  have act: "active_for ?d x \<longleftrightarrow> (\<exists>b \<in> set as. ra_coin b = rh_coin x \<and> ra_hash b = rh_hash x)" for x
    by (simp add: active_for_def)
  obtain ha where ha: "ha \<in> set (history db)" "rh_hash ha = ra_hash a"
    using d(2) [OF a(1)] by blast
  show "table_ok ra_clash (actives ?d)"
    using ra.ok_update [OF u] by simp
  show "\<exists>h \<in> set (history ?d). rh_hash h = ra_hash x \<and> rh_coin h = ra_coin x" if "x \<in> set (actives ?d)" for x
    using that d(2) a(2) unfolding hist by (auto simp: mem)
  show "\<exists>x \<in> set (history ?d). rh_hash x = c" if "retired ?d c" for c
    using that d(3) ha unfolding hist ret by blast
  have nr: "\<not> retired ?d (rh_hash r)"
    using d(3) fresh fresh [OF ha(1)] ha(2) unfolding ret by fastforce
  show "active_for ?d x \<longleftrightarrow> \<not> retired ?d (rh_hash x)" if "x \<in> set (history ?d)" for x
  proof (cases "x = r")
    case True
    have "a\<lparr>ra_hash := rh_hash r\<rparr> \<in> set as" by (simp add: mem)
    then show ?thesis using nr a(2) True unfolding act by (auto intro!: bexI [of _ "a\<lparr>ra_hash := rh_hash r\<rparr>"])
  next
    case False
    with that have x: "x \<in> set (history db)" unfolding hist by simp
    show ?thesis
    proof (cases "rh_hash x = ra_hash a")
      case True
      then show ?thesis
        using same fresh [OF x] unfolding act ret by (auto simp: mem)
    next
      case False
      have "active_for ?d x \<longleftrightarrow> active_for db x"
      proof
        assume "active_for ?d x"
        then show "active_for db x"
          using False fresh [OF x] unfolding act by (auto simp: active_for_def mem)
      next
        assume "active_for db x"
        then obtain b where b: "b \<in> set (actives db)" "ra_coin b = rh_coin x" "ra_hash b = rh_hash x"
          by (auto simp: active_for_def)
        then have "b \<in> set as" using False by (auto simp: mem)
        with b show "active_for ?d x" unfolding act by blast
      qed
      then show ?thesis
        using d(4) [OF x] False unfolding ret by simp
    qed
  qed
qed

lemma chain_write:
  assumes "vl_write db db'" and inv: "chain_inv db"
  shows "chain_inv db'"
  using assms(1)
proof (cases rule: vl_write.cases)
  case (write_reservation r hs as)
  with inv show ?thesis by (simp add: chain_first)
next
  case (write_replacement r hs a q rs as)
  with inv show ?thesis by (simp add: chain_replace)
qed (auto intro: chain_frame [OF inv] elim!: release_hold_D)

interpretation chain: ledger_invariant chain_inv
  by unfold_locales (rule chain_write)

lemma retired_write: "vl_write db db' \<Longrightarrow> retired db h \<Longrightarrow> retired db' h"
  by (cases rule: vl_write.cases) (auto simp: retired_def sql_insert_Some elim!: release_hold_D)

lemma history_write: "vl_write db db' \<Longrightarrow> h \<in> set (history db) \<Longrightarrow> h \<in> set (history db')"
  by (cases rule: vl_write.cases) (auto simp: sql_insert_Some elim!: release_hold_D)

interpretation retirement: ledger_invariant "\<lambda>db. retired db h" for h
  by unfold_locales (rule retired_write)

interpretation past: ledger_invariant "\<lambda>db. h \<in> set (history db)" for h
  by unfold_locales (rule history_write)

lemma retirement_iff: "inventory_retirement db h \<noteq> None \<longleftrightarrow> retired db h"
  by (cases "lookup rr_hash h (retirements db)")
     (auto simp: inventory_retirement_def retired_def dest: lookup_Some_D lookup_None_D)

text \<open>
  In every reachable state each reservation signature of the history is either the active
  authorization of its coin or retired, never both; and a coin has at most one active authorization.
\<close>

theorem vl_reservation_chain:
  "let db = run (vl_step api) ops empty_validator_db in
     (\<forall>h \<in> set (history db). (inventory_retirement db (rh_hash h) = None) = active_for db h) \<and>
     distinct (map ra_coin (actives db)) \<and> distinct (map ra_hash (actives db))"
proof -
  define db where "db = run (vl_step api) ops empty_validator_db"
  have inv: "chain_inv db"
    unfolding db_def by (rule chain.run_inv [OF chain_empty])
  have "(inventory_retirement db (rh_hash h) = None) = active_for db h" if "h \<in> set (history db)" for h
    using chain_invD(4) [OF inv that] retirement_iff [of db "rh_hash h"] by blast
  moreover have "distinct (map ra_hash as)" if "table_ok ra_clash as" for as
    using that by (induction as) (auto simp: list_all_iff ra_clash_def)
  ultimately show ?thesis
    using chain_invD(1) [OF inv] ra.distinct_keys unfolding db_def [symmetric] Let_def by blast
qed

text \<open>A call of \<open>record_inventory_reservation\<close> for a claim that is retired raises.\<close>

lemma retired_replay_raises:
  assumes inv: "chain_inv db" and "retired db h"
  shows "fst (record_inventory_reservation h c p co s d rt ev t db) \<noteq> Inr x"
proof -
  obtain r0 where "r0 \<in> set (history db)" "rh_hash r0 = h"
    using chain_invD(3) [OF inv assms(2)] by blast
  then obtain r1 where l: "lookup rh_hash h (history db) = Some r1" and r1: "r1 \<in> set (history db)" "rh_hash r1 = h"
    by (cases "lookup rh_hash h (history db)") (auto dest: lookup_None_D lookup_Some_D)
  have na: "\<not> active_for db r1"
    using chain_invD(4) [OF inv r1(1)] assms(2) r1(2) by simp
  have "record_reservation_body r d rt enc t db \<noteq> Inr y" if "rh_hash r = h" for r enc y
  proof
    assume "record_reservation_body r d rt enc t db = Inr y"
    then have "rh_coin r1 = rh_coin r" "map_option ra_hash (lookup ra_coin (rh_coin r) (actives db)) = Some h"
      using that l by (auto simp: record_reservation_body_def bind_Inr Let_def)
    then have "active_for db r1"
      using r1(2) by (auto simp: active_for_def dest!: lookup_Some_D)
    with na show False ..
  qed
  then show ?thesis
    by (auto simp: record_inventory_reservation_def txn_def split: sum.splits prod.splits)
qed

text \<open>
  Once a reservation is retired it stays retired: after any further calls it is not the active
  authorization of any coin, and asking for its signature again raises, whatever evidence comes along.
\<close>

theorem vl_retired_for_ever:
  assumes "inventory_retirement (run (vl_step api) ops empty_validator_db) h \<noteq> None"
  shows "inventory_retirement (run (vl_step api) (ops @ later) empty_validator_db) h \<noteq> None \<and>
    (\<forall>a \<in> set (actives (run (vl_step api) (ops @ later) empty_validator_db)). ra_hash a \<noteq> h) \<and>
    (\<forall>x. fst (record_inventory_reservation h c p co s d rt ev t (run (vl_step api) (ops @ later) empty_validator_db)) \<noteq> Inr x)"
proof -
  define db where "db = run (vl_step api) (ops @ later) empty_validator_db"
  have inv: "chain_inv db"
    unfolding db_def by (rule chain.run_inv [OF chain_empty])
  have r: "retired db h"
    unfolding db_def run_append by (rule retirement.run_inv) (use assms retirement_iff in blast)
  have "ra_hash a \<noteq> h" if a: "a \<in> set (actives db)" for a
  proof
    assume e: "ra_hash a = h"
    obtain x where x: "x \<in> set (history db)" "rh_hash x = ra_hash a" "rh_coin x = ra_coin a"
      using chain_invD(2) [OF inv a] by blast
    then have "active_for db x"
      using a by (auto simp: active_for_def)
    then show False
      using chain_invD(4) [OF inv x(1)] x(2) e r by simp
  qed
  then show ?thesis
    using r retired_replay_raises [OF inv r] unfolding db_def [symmetric] retirement_iff by blast
qed

definition sample_retirement :: "(string \<times> json) list" where
  "sample_retirement = [(''schema'', JStr ''solslot.validator-inventory-retirement.v1''), (''claimHash'', JStr ''a''),
     (''replacementClaimHash'', JStr ''b''), (''sourceCoinId'', JStr ''coin'')]"

definition no_claims :: claim_api where
  "no_claims = \<lparr>parse_base_hold = (\<lambda>_. None), parse_payment_start = (\<lambda>_. None), parse_base_extension = (\<lambda>_. None)\<rparr>"

definition sample_retire_ops :: "vl_op list" where
  "sample_retire_ops =
     [RecordReservation ''a'' ''claim-a'' ''p1'' ''coin'' ''sig-a'' None None None 10,
      RecordReservation ''b'' ''claim-b'' ''p2'' ''coin'' ''sig-b'' None (Some ''a'') (Some sample_retirement) 20]"

lemma vl_retired_for_ever_witness:
  "inventory_retirement (run (vl_step no_claims) (sample_retire_ops @ []) empty_validator_db) ''a'' \<noteq> None"
proof -
  have "inventory_retirement (run (vl_step no_claims) sample_retire_ops empty_validator_db) ''a'' \<noteq> None"
    by code_simp
  from vl_retired_for_ever [OF this, of "[]"] show ?thesis by blast
qed

lemma vl_reservation_chain_witness:
  "length (history (run (vl_step no_claims) sample_retire_ops empty_validator_db)) = 2 \<and>
   list_all (\<lambda>h. (inventory_retirement (run (vl_step no_claims) sample_retire_ops empty_validator_db) (rh_hash h) = None)
       = active_for (run (vl_step no_claims) sample_retire_ops empty_validator_db) h)
     (history (run (vl_step no_claims) sample_retire_ops empty_validator_db))"
proof -
  have "length (history (run (vl_step no_claims) sample_retire_ops empty_validator_db)) = 2"
    by code_simp
  then show ?thesis
    using vl_reservation_chain [of no_claims sample_retire_ops] by (simp add: Let_def list_all_iff)
qed

end
