(* ===== verification/GenesisFunding.thy ===== *)
theory GenesisFunding
  imports PyDoc
begin

text \<open>
  \<open>src/solslot_api/genesis_funding.py\<close>: the plan that splits one faucet coin into the nine funding coins
  of the genesis ceremony. The names of coins and SHA-256 are those of \<open>chia_api\<close>; hashes and coin ids
  are texts with the \<open>0x\<close> prefix. The search for an unused amount is a loop without a bound in the code,
  so it is a partial function here and its return is a theorem.
\<close>

section \<open>Constants\<close>

definition FUNDING_NAMES :: "string list" where
  "FUNDING_NAMES = [''sgt'', ''pool'', ''did'', ''governance'', ''statutes'', ''protocolConfig'', ''adminAuthority'',
     ''vaultVersionRegistry'', ''bridgeBatch'']"

definition GENESIS_BRIDGE_PARENT_TOTAL :: int where
  "GENESIS_BRIDGE_PARENT_TOTAL = sum_list [1..32]"

definition GENESIS_PROPERTY_REGISTRY_LAUNCHER_AMOUNT :: int where
  "GENESIS_PROPERTY_REGISTRY_LAUNCHER_AMOUNT = 1"

definition GENESIS_BRIDGE_BATCH_BUFFER_AMOUNT :: int where
  "GENESIS_BRIDGE_BATCH_BUFFER_AMOUNT = 1"

definition GENESIS_BRIDGE_BATCH_FUNDING_AMOUNT :: int where
  "GENESIS_BRIDGE_BATCH_FUNDING_AMOUNT =
     GENESIS_BRIDGE_PARENT_TOTAL + GENESIS_PROPERTY_REGISTRY_LAUNCHER_AMOUNT + GENESIS_BRIDGE_BATCH_BUFFER_AMOUNT"

definition GENESIS_ADMIN_AUTHORITY_V3_FUNDING_AMOUNT :: int where
  "GENESIS_ADMIN_AUTHORITY_V3_FUNDING_AMOUNT = 16"

definition GENESIS_DEFAULT_TOTAL_FUNDING_AMOUNT :: int where
  "GENESIS_DEFAULT_TOTAL_FUNDING_AMOUNT = 1000567"

definition minimums :: "int \<Rightarrow> (string \<times> int) list" where
  "minimums sgt_total_supply =
     [(''sgt'', sgt_total_supply), (''pool'', 2), (''did'', 1), (''governance'', 1), (''statutes'', 1), (''protocolConfig'', 1),
      (''adminAuthority'', GENESIS_ADMIN_AUTHORITY_V3_FUNDING_AMOUNT), (''vaultVersionRegistry'', 1),
      (''bridgeBatch'', GENESIS_BRIDGE_BATCH_FUNDING_AMOUNT)]"

section \<open>Distinct amounts\<close>

text \<open>\<open>while amount in used: amount += 1\<close>; \<open>None\<close> would be a loop that does not end.\<close>

partial_function (option) free_amount :: "int list \<Rightarrow> int \<Rightarrow> int option" where
  "free_amount used n = (if n \<in> set used then free_amount used (n + 1) else Some n)"

declare free_amount.simps [code]

text \<open>The loop over \<open>FUNDING_NAMES\<close>: every name gets the first amount from its minimum on that is not used.\<close>

fun assign_amounts :: "(string \<times> int) list \<Rightarrow> int list \<Rightarrow> (string \<times> int) list option" where
  "assign_amounts [] used = Some []"
| "assign_amounts ((name, minimum) # rest) used =
     (case free_amount used minimum of
        None \<Rightarrow> None
      | Some a \<Rightarrow> map_option (\<lambda>tail. (name, a) # tail) (assign_amounts rest (a # used)))"

section \<open>The plan\<close>

datatype gf_error = GfValueError string | GfUint64Error

record GenesisFundingFanout =
  gf_plan :: json
  gf_digest :: string

text \<open>\<open>uint64(n)\<close> of chia-rs raises outside the range of 64 bits.\<close>

definition uint64 :: "int \<Rightarrow> gf_error + int" where
  "uint64 n = raise_if (n < 0 \<or> 2 ^ 64 \<le> n) GfUint64Error (Inr n)"

definition funding_coin :: "chia_api \<Rightarrow> coin \<Rightarrow> string \<Rightarrow> int \<Rightarrow> coin" where
  "funding_coin api source_coin faucet_puzzle_hash a =
     \<lparr>parent_coin_info = coin_name api source_coin, puzzle_hash = faucet_puzzle_hash, amount = a\<rparr>"

definition fanout_plan :: "chia_api \<Rightarrow> coin \<Rightarrow> string \<Rightarrow> string \<Rightarrow> int \<Rightarrow> (string \<times> int) list \<Rightarrow> int \<Rightarrow> json" where
  "fanout_plan api source_coin faucet_puzzle_hash network fee amounts change =
     JObj [(''schemaVersion'', JInt 4), (''protocolVersion'', JStr ''solslot-v2-rc23''), (''network'', JStr network),
       (''sourceCoinId'', JStr (coin_name api source_coin)), (''sourceAmount'', JInt (amount source_coin)),
       (''faucetPuzzleHash'', JStr faucet_puzzle_hash), (''fee'', JInt fee),
       (''outputs'', JArr (map (\<lambda>(name, a). JObj [(''name'', JStr name), (''amount'', JInt a), (''puzzleHash'', JStr faucet_puzzle_hash),
            (''coinId'', JStr (coin_name api (funding_coin api source_coin faucet_puzzle_hash a)))]) amounts)),
       (''fundingCoinIds'', JObj (map (\<lambda>(name, a). (name, JStr (coin_name api (funding_coin api source_coin faucet_puzzle_hash a)))) amounts)),
       (''changeAmount'', JInt change)]"

text \<open>The call returns \<open>None\<close> where a loop would not end, \<open>Inl\<close> where it raises.\<close>

definition plan_genesis_funding_fanout ::
  "chia_api \<Rightarrow> coin \<Rightarrow> string \<Rightarrow> string \<Rightarrow> int \<Rightarrow> int \<Rightarrow> (gf_error + GenesisFundingFanout) option" where
  "plan_genesis_funding_fanout api source_coin faucet_puzzle_hash network sgt_total_supply fee =
     (if network \<noteq> ''testnet11'' then Some (Inl (GfValueError ''genesis funding fan-out is restricted to testnet11''))
      else if puzzle_hash source_coin \<noteq> faucet_puzzle_hash
      then Some (Inl (GfValueError ''source coin does not belong to the configured ceremony faucet''))
      else if sgt_total_supply \<le> 0 then Some (Inl (GfValueError ''SGT supply must be positive''))
      else if fee \<noteq> 0 then Some (Inl (GfValueError ''ceremony funding outputs are fee-free; use the separate fee till''))
      else case assign_amounts (minimums sgt_total_supply) [] of
        None \<Rightarrow> None
      | Some amounts \<Rightarrow>
          Some (let total = sum_list (map snd amounts); change = amount source_coin - total - fee in
            raise_if (change < 0)
              (GfValueError (''source coin has '' @ show_int (amount source_coin) @ '' mojos but fan-out needs '' @ show_int (total + fee)))
           (bind (map_result (\<lambda>(_, a). uint64 a) amounts) (\<lambda>_.
            let plan = fanout_plan api source_coin faucet_puzzle_hash network fee amounts change in
            Inr \<lparr>gf_plan = plan, gf_digest = ''0x'' @ sha256_hex api (canonical_json plan)\<rparr>))))"

section \<open>Termination and conservation\<close>

text \<open>The first amount from the start on that is not used.\<close>

definition first_free :: "int list \<Rightarrow> int \<Rightarrow> int \<Rightarrow> bool" where
  "first_free used start a \<longleftrightarrow> start \<le> a \<and> a \<notin> set used \<and> (\<forall>b. start \<le> b \<and> b < a \<longrightarrow> b \<in> set used)"

lemma free_amount_returns: "\<exists>a. free_amount used start = Some a \<and> first_free used start a"
proof (induction "card {u \<in> set used. start \<le> u}" arbitrary: start rule: less_induct)
  case less
  show ?case
  proof (cases "start \<in> set used")
    case True
    have "start \<in> {u \<in> set used. start \<le> u}" "start \<notin> {u \<in> set used. start + 1 \<le> u}"
      using True by auto
    moreover have "{u \<in> set used. start + 1 \<le> u} \<subseteq> {u \<in> set used. start \<le> u}"
      by auto
    ultimately have "{u \<in> set used. start + 1 \<le> u} \<subset> {u \<in> set used. start \<le> u}"
      by blast
    then have "card {u \<in> set used. start + 1 \<le> u} < card {u \<in> set used. start \<le> u}"
      by (rule psubset_card_mono [rotated]) simp
    then obtain a where a: "free_amount used (start + 1) = Some a" "first_free used (start + 1) a"
      using less by blast
    have "b \<in> set used" if "start \<le> b" "b < a" for b
      using that a(2) True by (cases "b = start") (auto simp: first_free_def)
    with a True show ?thesis
      by (subst free_amount.simps) (auto simp: first_free_def)
  next
    case False
    then show ?thesis by (subst free_amount.simps) (auto simp: first_free_def)
  qed
qed

lemma assign_amounts_returns:
  "\<exists>as. assign_amounts ms used = Some as \<and> map fst as = map fst ms \<and> distinct (map snd as) \<and>
     set (map snd as) \<inter> set used = {} \<and> list_all2 (\<lambda>(_, m) (_, a). m \<le> a) ms as"
proof (induction ms arbitrary: used)
  case (Cons nm ms)
  obtain name m where nm: "nm = (name, m)" by (cases nm)
  obtain a where a: "free_amount used m = Some a" "first_free used m a"
    using free_amount_returns by blast
  obtain as where "assign_amounts ms (a # used) = Some as" "map fst as = map fst ms" "distinct (map snd as)"
      "set (map snd as) \<inter> set (a # used) = {}" "list_all2 (\<lambda>(_, m) (_, a). m \<le> a) ms as"
    using Cons [of "a # used"] by blast
  with a show ?case
    by (intro exI [of _ "(name, a) # as"]) (auto simp: nm first_free_def)
qed simp

text \<open>
  C39. The fan-out planner always returns: the search for an unused amount ends after finitely many
  steps, for every set of amounts already used, and gives the first amount that is free.
\<close>

theorem gf_always_returns:
  "plan_genesis_funding_fanout api source_coin faucet network sgt fee \<noteq> None \<and>
   (\<exists>a. free_amount used start = Some a \<and> first_free used start a)"
  using free_amount_returns assign_amounts_returns [of "minimums sgt" "[]"]
  by (auto simp: plan_genesis_funding_fanout_def)

lemma sum_list_mono_pairs:
  "list_all2 (\<lambda>(_, m) (_, a). m \<le> a) ms as \<Longrightarrow> sum_list (map snd ms) \<le> sum_list (map snd (as :: (string \<times> int) list))"
  by (induction rule: list_all2_induct) auto

lemma batch_amount: "GENESIS_BRIDGE_BATCH_FUNDING_AMOUNT = 530"
  by code_simp

lemma minimums_positive: "0 < sgt \<Longrightarrow> list_all (\<lambda>(_, m). 0 < m) (minimums sgt)"
  by (simp add: minimums_def GENESIS_ADMIN_AUTHORITY_V3_FUNDING_AMOUNT_def batch_amount)

lemma fst_minimums: "map fst (minimums sgt) = FUNDING_NAMES"
  by (simp add: minimums_def FUNDING_NAMES_def)

lemma all2_positive:
  "list_all2 (\<lambda>(_, m) (_, a). m \<le> a) ms as \<Longrightarrow> list_all (\<lambda>(_, m). 0 < m) ms \<Longrightarrow> list_all (\<lambda>(_, a). 0 < (a :: int)) as"
  by (induction rule: list_all2_induct) auto

text \<open>Positive amounts with a sum below \<open>2 ^ 64\<close> pass \<open>uint64\<close>.\<close>

lemma uint64_all:
  assumes "list_all (\<lambda>(_, a). 0 < a) as" and "sum_list (map snd as) < 2 ^ 64"
  shows "\<exists>ys. map_result (\<lambda>(_, a). uint64 a) as = Inr ys"
  using assms
proof (induction as)
  case (Cons x as)
  obtain n a where x: "x = (n, a)" by (cases x)
  have "0 \<le> sum_list (map snd as)"
    using Cons.prems(1) by (intro sum_list_nonneg) (auto simp: list_all_iff)
  with Cons show ?case by (auto simp: x uint64_def raise_if_def)
qed simp

text \<open>
  C40. The ceremony plan conserves the source coin: for a source coin of at most 64 bits the planner either
  refuses or plans nine outputs, one for every funding name in the fixed order, with pairwise distinct
  amounts that are each at least the minimum of the name, whose sum with the change is the amount of
  the source coin; and it refuses exactly for a wrong network, a foreign coin, a supply that is not
  positive, a fee, or a coin smaller than the planned total. The conversions to \<open>uint64\<close> never overflow.
\<close>

theorem gf_conserves_value:
  assumes "amount source_coin < 2 ^ 64"
  shows "\<exists>amounts. assign_amounts (minimums sgt) [] = Some amounts \<and>
    map fst amounts = FUNDING_NAMES \<and> distinct (map snd amounts) \<and>
    list_all2 (\<lambda>(_, m) (_, a). m \<le> a) (minimums sgt) amounts \<and>
    (case plan_genesis_funding_fanout api source_coin faucet network sgt fee of
       None \<Rightarrow> False
     | Some (Inr f) \<Rightarrow> sum_list (map snd amounts) \<le> amount source_coin \<and>
         gf_plan f = fanout_plan api source_coin faucet network fee amounts (amount source_coin - sum_list (map snd amounts))
     | Some (Inl e) \<Rightarrow> e \<noteq> GfUint64Error \<and> (network \<noteq> ''testnet11'' \<or> puzzle_hash source_coin \<noteq> faucet \<or>
         sgt \<le> 0 \<or> fee \<noteq> 0 \<or> amount source_coin < sum_list (map snd amounts)))"
proof -
  obtain as where as: "assign_amounts (minimums sgt) [] = Some as" "map fst as = map fst (minimums sgt)"
      "distinct (map snd as)" "list_all2 (\<lambda>(_, m) (_, a). m \<le> a) (minimums sgt) as"
    using assign_amounts_returns [of "minimums sgt" "[]"] by blast
  have "\<exists>ys. map_result (\<lambda>(_, a). uint64 a) as = Inr ys" if "0 < sgt" "sum_list (map snd as) \<le> amount source_coin"
    using uint64_all [OF all2_positive [OF as(4) minimums_positive [OF that(1)]]] that(2) assms by simp
  then show ?thesis
    using as by (intro exI [of _ as])
      (auto simp: fst_minimums plan_genesis_funding_fanout_def Let_def raise_if_def not_le)
qed

definition plain_api :: chia_api where
  "plain_api = \<lparr>from_json_dict = (\<lambda>_. None), bundle_name = (\<lambda>_. ''0x''), coin_name = (\<lambda>c. ''0x'' @ show_int (amount c)),
     removals = (\<lambda>_. []), additions = (\<lambda>_. None), reveal_hash = (\<lambda>_. None), infinity = [], sha256_hex = (\<lambda>s. s)\<rparr>"

text \<open>The default supply needs exactly \<open>GENESIS_DEFAULT_TOTAL_FUNDING_AMOUNT\<close>; with one mojo less the call raises.\<close>

theorem gf_conserves_value_witness:
  "\<exists>amounts. assign_amounts (minimums 1000000) [] = Some amounts \<and> map fst amounts = FUNDING_NAMES \<and> distinct (map snd amounts) \<and>
     sum_list (map snd amounts) = GENESIS_DEFAULT_TOTAL_FUNDING_AMOUNT"
proof -
  have amounts: "assign_amounts (minimums 1000000) [] =
      Some (zip FUNDING_NAMES [1000000, 2, 1, 3, 4, 5, 16, 6, 530])"
    by code_simp
  let ?c = "\<lparr>parent_coin_info = ''0xaa'', puzzle_hash = ''0xbb'', amount = GENESIS_DEFAULT_TOTAL_FUNDING_AMOUNT\<rparr>"
  have "amount ?c < 2 ^ 64" by code_simp
  from gf_conserves_value [where sgt = 1000000 and api = plain_api and faucet = "''0xbb''" and network = "''testnet11''"
      and fee = 0, OF this] show ?thesis
    unfolding amounts by (simp add: FUNDING_NAMES_def GENESIS_DEFAULT_TOTAL_FUNDING_AMOUNT_def)
qed

end
