(* ===== verification/PresaleState.thy ===== *)
theory PresaleState
  imports PyDoc Complex_Main
begin

text \<open>
  The tables of \<open>PresaleStore\<close> in \<open>src/solslot_api/presale_endpoints.py\<close>, with those that its bases
  \<open>CampaignStore\<close> (\<open>campaign_store.py\<close>) and \<open>VoucherWorkStore\<close> (\<open>voucher_work_store.py\<close>) add to the same
  database, and the reads every operation starts from. A wide row is a record of the groups of columns
  that the operations write together; the dict that a read renders is a record of the row and of the
  documents decoded from its text columns.

  The puzzle drivers and the receipt and commitment parsers are not part of the repository: they are
  the fields of \<open>presale_api\<close>. Worker clocks (\<open>REAL\<close> columns) are rationals, all others whole seconds.
\<close>

section \<open>Libraries\<close>

text \<open>What \<open>stripe_receipt_from_json\<close> decodes, as far as the store reads it; hashes in hexadecimal.\<close>

record refund_receipt =
  rr_purchase_id :: string
  rr_artifact_hash :: string
  rr_payment_intent_id :: string
  rr_amount_minor :: int
  rr_evidence_hash :: string

text \<open>
  \<open>genesis_inner_hash\<close> is the tree hash of \<open>curry_series(_series_program(terms), VoucherSeriesStateV2())\<close>;
  \<open>commitment_hash\<close> is \<open>voucher_commitment_from_json(v).commitment_hash\<close>; \<open>action_*\<close> are the numbers of
  \<open>VoucherAction\<close>; \<open>vault_timestamp\<close> and \<open>at_timestamp\<close> read and replace the timestamp in the solution of
  a vault spend, \<open>fee_deadline\<close> reads the deadline of a sponsor spend and masks it out of the solution.
  \<open>None\<close> stands for an exception (a \<open>ValueError\<close>).
\<close>

record presale_api =
  chia :: chia_api
  bundle_json :: "spend_bundle \<Rightarrow> json"
  coin_spend_of :: "json \<Rightarrow> coin_spend option"
  genesis_inner_hash :: "json \<Rightarrow> string option"
  commitment_hash :: "json \<Rightarrow> string option"
  receipt_of :: "json \<Rightarrow> refund_receipt option"
  action_presale :: int
  action_expired :: int
  action_canceled :: int
  delivery_window_seconds :: int
  vault_timestamp :: "coin_spend \<Rightarrow> int option"
  at_timestamp :: "coin_spend \<Rightarrow> int \<Rightarrow> coin_spend option"
  fee_deadline :: "coin_spend \<Rightarrow> (int option \<times> string) option"

definition or_raise :: "string \<Rightarrow> 'a option \<Rightarrow> py_error + 'a" where
  "or_raise message x = (case x of None \<Rightarrow> Inl (ValueError message) | Some a \<Rightarrow> Inr a)"

lemma or_raise_Inr [simp]: "or_raise m x = Inr a \<longleftrightarrow> x = Some a"
  by (cases x) (simp_all add: or_raise_def)

definition load_bundle :: "presale_api \<Rightarrow> json \<Rightarrow> py_error + spend_bundle" where
  "load_bundle api j = or_raise ''invalid spend bundle'' (from_json_dict (chia api) j)"

text \<open>\<open>{'0x' + c.name().hex() for c in bundle.removals()}\<close>, in the order of the removals.\<close>

definition removal_ids :: "presale_api \<Rightarrow> spend_bundle \<Rightarrow> string list" where
  "removal_ids api b = map (coin_name (chia api)) (removals (chia api) b)"

text \<open>
  \<open>int(v)\<close> on a decoded value. On a text, a sign and digits; the underscores that Python also allows
  between digits are outside the model.
\<close>

definition int_of_text :: "string \<Rightarrow> py_error + int" where
  "int_of_text s0 =
     (let s = strip s0; body = (if s \<noteq> [] \<and> (hd s = CHR ''-'' \<or> hd s = CHR ''+'') then tl s else s) in
      raise_if (body = [] \<or> \<not> list_all is_digit body \<or> 4300 < length body) (ValueError ''invalid literal for int()'')
        (Inr (if hd s = CHR ''-'' then - int (nat_of_digits body) else int (nat_of_digits body))))"

fun py_int :: "json \<Rightarrow> py_error + int" where
  "py_int (JInt i) = Inr i"
| "py_int (JBool b) = Inr (if b then 1 else 0)"
| "py_int (JStr s) = int_of_text s"
| "py_int _ = Inl TypeError"

text \<open>\<open>json.loads(x) if x else default\<close>\<close>

definition loads_or :: "json \<Rightarrow> string option \<Rightarrow> py_error + json" where
  "loads_or absent x = (case x of None \<Rightarrow> Inr absent | Some s \<Rightarrow> if s = [] then Inr absent else py_loads s)"

text \<open>\<open>int(seconds or time.time())\<close>: no argument and \<open>0\<close> both give the clock.\<close>

definition now_or :: "int option \<Rightarrow> int \<Rightarrow> int" where
  "now_or seconds clock = (case seconds of None \<Rightarrow> clock | Some t \<Rightarrow> if t = 0 then clock else t)"

section \<open>Statements\<close>

text \<open>
  \<open>UPDATE\<close> of columns under no uniqueness constraint, its \<open>rowcount\<close>, and \<open>INSERT OR IGNORE\<close>.
\<close>

definition set_where :: "('r \<Rightarrow> bool) \<Rightarrow> ('r \<Rightarrow> 'r) \<Rightarrow> 'r list \<Rightarrow> 'r list" where
  "set_where p f rs = map (\<lambda>r. if p r then f r else r) rs"

definition rowcount :: "('r \<Rightarrow> bool) \<Rightarrow> 'r list \<Rightarrow> nat" where
  "rowcount p rs = length (filter p rs)"

definition insert_or_ignore :: "('r \<Rightarrow> 'r \<Rightarrow> bool) \<Rightarrow> 'r \<Rightarrow> 'r list \<Rightarrow> 'r list" where
  "insert_or_ignore clash r rs = (case sql_insert clash r rs of None \<Rightarrow> rs | Some rs' \<Rightarrow> rs')"

definition insert_row :: "('r \<Rightarrow> 'r \<Rightarrow> bool) \<Rightarrow> 'r \<Rightarrow> 'r list \<Rightarrow> py_error + 'r list" where
  "insert_row clash r rs = (case sql_insert clash r rs of None \<Rightarrow> Inl IntegrityError | Some rs' \<Rightarrow> Inr rs')"

lemma insert_row_Inr [simp]:
  "insert_row clash r rs = Inr rs' \<longleftrightarrow> rs' = rs @ [r] \<and> (\<forall>r' \<in> set rs. \<not> clash r r')"
  using sql_insert_Some [of clash r rs rs'] by (auto simp: insert_row_def split: option.splits)

lemma insert_or_ignore_cases:
  "insert_or_ignore clash r rs = rs @ [r] \<and> (\<forall>r' \<in> set rs. \<not> clash r r') \<or>
   insert_or_ignore clash r rs = rs \<and> (\<exists>r' \<in> set rs. clash r r')"
  by (auto simp: insert_or_ignore_def sql_insert_def list_ex_iff)

text \<open>The rows after an update.\<close>

lemma set_where_mem: "x \<in> set (set_where p f rs) \<longleftrightarrow> (\<exists>r \<in> set rs. x = (if p r then f r else r))"
  by (auto simp: set_where_def)

lemma lookup_set_where:
  "(\<And>r. p r \<Longrightarrow> key (f r) = key r) \<Longrightarrow>
   lookup key k (set_where p f rs) = map_option (\<lambda>r. if p r then f r else r) (lookup key k rs)"
  by (induction rs) (auto simp: set_where_def)

lemma table_ok_map:
  assumes "table_ok clash rs" and "\<And>r r'. clash (g r) (g r') \<Longrightarrow> clash r r'"
  shows "table_ok clash (map g rs)"
  using assms(1) by (induction rs) (auto simp: list_all_iff dest: assms(2))

lemma table_ok_set_where:
  assumes "table_ok clash rs" and "\<And>r r'. clash (if p r then f r else r) (if p r' then f r' else r') \<Longrightarrow> clash r r'"
  shows "table_ok clash (set_where p f rs)"
  unfolding set_where_def by (rule table_ok_map [OF assms(1)]) (rule assms(2))

lemma rowcount_pos: "rowcount p rs \<noteq> 0 \<longleftrightarrow> (\<exists>r \<in> set rs. p r)"
  by (auto simp: rowcount_def filter_empty_conv)

section \<open>Series\<close>

datatype series_state = PRESALE | LIVE | CANCELED

fun series_state_text :: "series_state \<Rightarrow> string" where
  "series_state_text PRESALE = ''PRESALE''"
| "series_state_text LIVE = ''LIVE''"
| "series_state_text CANCELED = ''CANCELED''"

text \<open>The columns \<open>phase_target_state\<close> to \<open>phase_submitted_at\<close>.\<close>

record phase_cols =
  ph_target :: "series_state option"
  ph_bundle :: "string option"
  ph_input :: "string option"
  ph_output :: "string option"
  ph_output_inner :: "string option"
  ph_anchor :: "int option"
  ph_governance :: "string option"
  ph_submitted_at :: "int option"

definition no_phase :: phase_cols where
  "no_phase = \<lparr>ph_target = None, ph_bundle = None, ph_input = None, ph_output = None, ph_output_inner = None,
     ph_anchor = None, ph_governance = None, ph_submitted_at = None\<rparr>"

text \<open>\<open>singleton_parent_coin_id\<close>, \<open>singleton_full_puzzle_hash\<close>, \<open>singleton_launch_bundle_id\<close>\<close>

record launch_cols =
  sl_parent :: "string option"
  sl_full_puzzle :: "string option"
  sl_bundle :: "string option"

text \<open>\<open>current_coin_id\<close> to \<open>lineage_inner_puzzle_hash\<close>\<close>

record chain_cols =
  cs_coin :: "string option"
  cs_inner :: "string option"
  cs_lineage_parent :: "string option"
  cs_lineage_inner :: "string option"

record series_row =
  ps_terms_hash :: string
  ps_singleton_id :: string
  ps_collection :: string
  ps_chain_collection :: string
  ps_terms_json :: string
  ps_state :: series_state
  ps_launched_at :: "int option"
  ps_launch_evidence :: "string option"
  ps_governance_execution :: "string option"
  ps_cancel_reason :: "string option"
  ps_phase :: phase_cols
  ps_phase_height :: "int option"
  ps_launch :: launch_cols
  ps_chain :: chain_cols
  ps_sold :: int
  ps_redeemed :: int
  ps_refunded :: int
  ps_created_at :: int
  ps_updated_at :: int

definition series_clash :: "series_row \<Rightarrow> series_row \<Rightarrow> bool" where
  "series_clash r r' \<longleftrightarrow>
     ps_terms_hash r = ps_terms_hash r' \<or> ps_singleton_id r = ps_singleton_id r' \<or> ps_collection r = ps_collection r'"

interpretation series: keyed_table series_clash ps_terms_hash
  by unfold_locales (auto simp: series_clash_def)

section \<open>Vouchers and their payments\<close>

datatype payment_outcome = PAYMENT_CONFIRMED | REFUND_REQUIRED

record event_row =
  pe_payment_id :: string
  pe_terms_hash :: string
  pe_order_key :: string
  pe_evidence_id :: string
  pe_outcome :: payment_outcome
  pe_serial :: int
  pe_created_at :: int

definition event_clash :: "event_row \<Rightarrow> event_row \<Rightarrow> bool" where
  "event_clash r r' \<longleftrightarrow> pe_payment_id r = pe_payment_id r' \<or> pe_evidence_id r = pe_evidence_id r' \<or>
     (pe_terms_hash r = pe_terms_hash r' \<and> pe_order_key r = pe_order_key r')"

interpretation event: keyed_table event_clash pe_payment_id
  by unfold_locales (auto simp: event_clash_def)

datatype rail = BASE_SEPOLIA_USDC | CHIA_XCH | STRIPE_USD

datatype voucher_state =
  PENDING_ISSUANCE | ISSUANCE_SUBMITTED | ESCROWED | REFUNDING | REFUNDED | REDEEMING | REDEEMED

text \<open>The columns that no statement updates: \<open>deed_launcher_id\<close> to \<open>processing_charge_minor\<close>,
  \<open>payment_evidence_id\<close> and \<open>created_at\<close>.\<close>

record voucher_terms =
  vt_deed :: string
  vt_rail :: rail
  vt_principal :: int
  vt_base_price :: int
  vt_fee_bps :: int
  vt_fee_minor :: int
  vt_gross_price :: int
  vt_payer :: string
  vt_vault :: string
  vt_vault_p2 :: string
  vt_purchase_id :: string
  vt_payment_id :: string
  vt_commitment_hash :: string
  vt_commitment_json :: string
  vt_artifact_json :: "string option"
  vt_receipt_json :: "string option"
  vt_processing_charge :: int
  vt_evidence_id :: string
  vt_created_at :: int

text \<open>\<open>issuance_evidence_id\<close> to \<open>issuance_confirmed_height\<close>\<close>

record issuance_cols =
  is_evidence :: "string option"
  is_bundle :: "string option"
  is_signers :: "string option"
  is_funding_bundle :: "string option"
  is_launcher_coin :: "string option"
  is_launcher_puzzle :: "string option"
  is_voucher_launcher :: "string option"
  is_voucher_output :: "string option"
  is_payment_coin :: "string option"
  is_series_input :: "string option"
  is_series_output :: "string option"
  is_height :: "int option"

text \<open>\<open>refund_evidence_id\<close> to \<open>refund_confirmed_height\<close>\<close>

record refund_cols =
  rf_evidence :: "string option"
  rf_action :: "int option"
  rf_bundle :: "string option"
  rf_output :: "string option"
  rf_terminal :: "string option"
  rf_series_input :: "string option"
  rf_series_output :: "string option"
  rf_vault_input :: "string option"
  rf_vault_output :: "string option"
  rf_submitted_at :: "int option"
  rf_height :: "int option"

text \<open>\<open>redemption_bundle_id\<close> to \<open>redemption_deed_input_coin_id\<close>, \<open>redemption_submitted_at\<close>,
  \<open>redemption_confirmed_height\<close> and \<open>delivery_*\<close>\<close>

record redemption_cols =
  rd_bundle :: "string option"
  rd_treasury :: "string option"
  rd_deed_output :: "string option"
  rd_terminal :: "string option"
  rd_series_input :: "string option"
  rd_series_output :: "string option"
  rd_deed_input :: "string option"
  rd_submitted_at :: "int option"
  rd_height :: "int option"
  rd_evidence :: "string option"
  rd_delivery_output :: "string option"

text \<open>\<open>external_settlement_evidence_hash\<close> to \<open>terminal_execution_observed_at\<close>\<close>

record terminal_cols =
  tm_evidence_hash :: "string option"
  tm_execution :: "string option"
  tm_fee_coin :: "string option"
  tm_fee_mojos :: "int option"
  tm_observed_at :: "int option"

definition no_issuance :: issuance_cols where
  "no_issuance = \<lparr>is_evidence = None, is_bundle = None, is_signers = None, is_funding_bundle = None,
     is_launcher_coin = None, is_launcher_puzzle = None, is_voucher_launcher = None, is_voucher_output = None,
     is_payment_coin = None, is_series_input = None, is_series_output = None, is_height = None\<rparr>"

definition no_refund :: refund_cols where
  "no_refund = \<lparr>rf_evidence = None, rf_action = None, rf_bundle = None, rf_output = None, rf_terminal = None,
     rf_series_input = None, rf_series_output = None, rf_vault_input = None, rf_vault_output = None,
     rf_submitted_at = None, rf_height = None\<rparr>"

definition no_redemption :: redemption_cols where
  "no_redemption = \<lparr>rd_bundle = None, rd_treasury = None, rd_deed_output = None, rd_terminal = None,
     rd_series_input = None, rd_series_output = None, rd_deed_input = None, rd_submitted_at = None,
     rd_height = None, rd_evidence = None, rd_delivery_output = None\<rparr>"

definition no_terminal :: terminal_cols where
  "no_terminal = \<lparr>tm_evidence_hash = None, tm_execution = None, tm_fee_coin = None, tm_fee_mojos = None,
     tm_observed_at = None\<rparr>"

record voucher_row =
  vr_terms_hash :: string
  vr_serial :: int
  vr_terms :: voucher_terms
  vr_state :: voucher_state
  vr_issuance :: issuance_cols
  vr_refund :: refund_cols
  vr_redemption :: redemption_cols
  vr_terminal :: terminal_cols
  vr_updated_at :: int

abbreviation vr_key :: "voucher_row \<Rightarrow> string \<times> int" where
  "vr_key r \<equiv> (vr_terms_hash r, vr_serial r)"

abbreviation vr_rail :: "voucher_row \<Rightarrow> rail" where
  "vr_rail r \<equiv> vt_rail (vr_terms r)"

definition voucher_clash :: "voucher_row \<Rightarrow> voucher_row \<Rightarrow> bool" where
  "voucher_clash r r' \<longleftrightarrow> vr_key r = vr_key r' \<or>
     (vr_terms_hash r = vr_terms_hash r' \<and> vt_deed (vr_terms r) = vt_deed (vr_terms r')) \<or>
     vt_purchase_id (vr_terms r) = vt_purchase_id (vr_terms r') \<or>
     vt_payment_id (vr_terms r) = vt_payment_id (vr_terms r') \<or>
     vt_commitment_hash (vr_terms r) = vt_commitment_hash (vr_terms r')"

interpretation voucher: keyed_table voucher_clash "\<lambda>r. (vr_terms_hash r, vr_serial r)"
  by unfold_locales (auto simp: voucher_clash_def)

section \<open>Settlement authorizations\<close>

datatype settlement_outcome = DELIVERED | REFUND

fun outcome_text :: "settlement_outcome \<Rightarrow> string" where
  "outcome_text DELIVERED = ''DELIVERED''"
| "outcome_text REFUND = ''REFUND''"

datatype relay_state = PENDING | RELAYED

record base_auth_row =
  ba_id :: string
  ba_payment_id :: string
  ba_terms_hash :: string
  ba_serial :: int
  ba_outcome :: settlement_outcome
  ba_hash :: string
  ba_json :: string
  ba_state :: relay_state
  ba_created_at :: int
  ba_relayed_at :: "int option"
  ba_evidence :: "string option"

definition base_auth_clash :: "base_auth_row \<Rightarrow> base_auth_row \<Rightarrow> bool" where
  "base_auth_clash r r' \<longleftrightarrow> ba_id r = ba_id r' \<or> ba_payment_id r = ba_payment_id r' \<or> ba_hash r = ba_hash r'"

interpretation base_auth: keyed_table base_auth_clash ba_payment_id
  by unfold_locales (auto simp: base_auth_clash_def)

record stripe_auth_row =
  sa_id :: string
  sa_terms_hash :: string
  sa_serial :: int
  sa_purchase_id :: string
  sa_json :: string
  sa_completed :: bool
  sa_created_at :: int
  sa_completed_at :: "int option"
  sa_completion :: "string option"

definition stripe_auth_clash :: "stripe_auth_row \<Rightarrow> stripe_auth_row \<Rightarrow> bool" where
  "stripe_auth_clash r r' \<longleftrightarrow> sa_id r = sa_id r' \<or> sa_purchase_id r = sa_purchase_id r'"

interpretation stripe_auth: keyed_table stripe_auth_clash sa_purchase_id
  by unfold_locales (auto simp: stripe_auth_clash_def)

section \<open>Campaign operations\<close>

record op_row =
  co_terms :: string
  co_kind :: string
  co_intent :: string
  co_context :: string
  co_preparation :: string
  co_execution :: "string option"
  co_height :: "int option"

text \<open>The primary key and the partial unique index \<open>idx_campaign_unfinished\<close>.\<close>

definition op_clash :: "op_row \<Rightarrow> op_row \<Rightarrow> bool" where
  "op_clash r r' \<longleftrightarrow> co_terms r = co_terms r' \<and> (co_kind r = co_kind r' \<or> (co_height r = None \<and> co_height r' = None))"

interpretation camp_op: keyed_table op_clash "\<lambda>r. (co_terms r, co_kind r)"
  by unfold_locales (auto simp: op_clash_def)

record input_row =
  ci_coin :: string
  ci_terms :: string
  ci_kind :: string
  ci_confirmed :: bool

definition input_clash :: "input_row \<Rightarrow> input_row \<Rightarrow> bool" where
  "input_clash r r' \<longleftrightarrow> ci_coin r = ci_coin r'"

interpretation camp_input: keyed_table input_clash ci_coin
  by unfold_locales (auto simp: input_clash_def)

record phase_history_row =
  pa_attempt :: string
  pa_terms :: string
  pa_operation :: string
  pa_proof :: string

definition history_clash :: "phase_history_row \<Rightarrow> phase_history_row \<Rightarrow> bool" where
  "history_clash r r' \<longleftrightarrow> pa_attempt r = pa_attempt r'"

interpretation history: keyed_table history_clash pa_attempt
  by unfold_locales (auto simp: history_clash_def)

section \<open>Voucher work\<close>

datatype worker_lane =
  Lane_campaign | Lane_retained | Lane_issuance | Lane_stripe_terminal | Lane_native_refund | Lane_base_refund |
  Lane_stripe_refund | Lane_native_redemption | Lane_base_redemption | Lane_stripe_redemption | Lane_phase

record lane_row =
  wl_lane :: worker_lane
  wl_cursor_terms :: string
  wl_cursor_serial :: int
  wl_owner :: "string option"
  wl_until :: rat

definition lane_clash :: "lane_row \<Rightarrow> lane_row \<Rightarrow> bool" where
  "lane_clash r r' \<longleftrightarrow> wl_lane r = wl_lane r'"

interpretation lane: keyed_table lane_clash wl_lane
  by unfold_locales (auto simp: lane_clash_def)

record lease_row =
  ws_terms :: string
  ws_owner :: "string option"
  ws_until :: rat

definition lease_clash :: "lease_row \<Rightarrow> lease_row \<Rightarrow> bool" where
  "lease_clash r r' \<longleftrightarrow> ws_terms r = ws_terms r'"

interpretation lease: keyed_table lease_clash ws_terms
  by unfold_locales (auto simp: lease_clash_def)

record attempt_row =
  wa_lane :: worker_lane
  wa_terms :: string
  wa_serial :: int
  wa_due :: rat
  wa_attempts :: int
  wa_status :: string
  wa_observed :: rat

definition attempt_clash :: "attempt_row \<Rightarrow> attempt_row \<Rightarrow> bool" where
  "attempt_clash r r' \<longleftrightarrow> wa_lane r = wa_lane r' \<and> wa_terms r = wa_terms r' \<and> wa_serial r = wa_serial r'"

interpretation attempt: keyed_table attempt_clash "\<lambda>r. (wa_lane r, wa_terms r, wa_serial r)"
  by unfold_locales (auto simp: attempt_clash_def)

record exec_row =
  we_terms :: string
  we_serial :: int
  we_kind :: string
  we_json :: string
  we_confirmed :: bool

definition exec_clash :: "exec_row \<Rightarrow> exec_row \<Rightarrow> bool" where
  "exec_clash r r' \<longleftrightarrow> we_terms r = we_terms r' \<and> we_serial r = we_serial r' \<and> we_kind r = we_kind r'"

interpretation exec_table: keyed_table exec_clash "\<lambda>r. (we_terms r, we_serial r, we_kind r)"
  by unfold_locales (auto simp: exec_clash_def)

record settlement_row =
  rs_terms :: string
  rs_serial :: int
  rs_json :: string

definition settlement_clash :: "settlement_row \<Rightarrow> settlement_row \<Rightarrow> bool" where
  "settlement_clash r r' \<longleftrightarrow> rs_terms r = rs_terms r' \<and> rs_serial r = rs_serial r'"

interpretation settlement: keyed_table settlement_clash "\<lambda>r. (rs_terms r, rs_serial r)"
  by unfold_locales (auto simp: settlement_clash_def)

record refund_history_row =
  rh_terms :: string
  rh_serial :: int
  rh_bundle :: string
  rh_execution :: string
  rh_observation :: string

definition refund_history_clash :: "refund_history_row \<Rightarrow> refund_history_row \<Rightarrow> bool" where
  "refund_history_clash r r' \<longleftrightarrow> rh_terms r = rh_terms r' \<and> rh_serial r = rh_serial r' \<and> rh_bundle r = rh_bundle r'"

interpretation refund_history: keyed_table refund_history_clash "\<lambda>r. (rh_terms r, rh_serial r, rh_bundle r)"
  by unfold_locales (auto simp: refund_history_clash_def)

section \<open>The database\<close>

text \<open>The tables of the sale; those of the campaign; those of the workers.\<close>

record sale_tables =
  series_rows :: "series_row list"
  event_rows :: "event_row list"
  voucher_rows :: "voucher_row list"
  base_auths :: "base_auth_row list"
  stripe_auths :: "stripe_auth_row list"

record presale_db = sale_tables +
  campaign_ops :: "op_row list"
  campaign_inputs :: "input_row list"
  phase_history :: "phase_history_row list"
  lane_rows :: "lane_row list"
  lease_rows :: "lease_row list"
  attempt_rows :: "attempt_row list"
  exec_rows :: "exec_row list"
  settlement_rows :: "settlement_row list"
  refund_history_rows :: "refund_history_row list"

definition empty_presale_db :: presale_db where
  "empty_presale_db = \<lparr>series_rows = [], event_rows = [], voucher_rows = [], base_auths = [], stripe_auths = [],
     campaign_ops = [], campaign_inputs = [], phase_history = [], lane_rows = [], lease_rows = [], attempt_rows = [],
     exec_rows = [], settlement_rows = [], refund_history_rows = []\<rparr>"

section \<open>Reads\<close>

text \<open>\<open>campaign_operation\<close>: the stored intent with its documents.\<close>

definition campaign_operation :: "presale_db \<Rightarrow> string \<Rightarrow> string \<Rightarrow> py_error + json option" where
  "campaign_operation db terms kind =
     (case lookup (\<lambda>r. (co_terms r, co_kind r)) (lower terms, kind) (campaign_ops db) of
        None \<Rightarrow> Inr None
      | Some row \<Rightarrow>
          bind (py_loads (co_intent row)) (\<lambda>intent.
          bind (py_loads (co_context row)) (\<lambda>context.
          bind (py_loads (co_preparation row)) (\<lambda>preparation.
          bind (loads_or JNull (co_execution row)) (\<lambda>execution.
          Inr (Some (JObj [(''kind'', JStr (co_kind row)), (''intent'', intent), (''context'', context),
            (''preparation'', preparation), (''execution'', execution), (''confirmedHeight'', json_opt_int (co_height row))])))))))"

definition unfinished_ops :: "presale_db \<Rightarrow> string \<Rightarrow> op_row list" where
  "unfinished_ops db terms = filter (\<lambda>r. co_terms r = terms \<and> co_height r = None) (campaign_ops db)"

definition pending_campaign_operation :: "presale_db \<Rightarrow> string \<Rightarrow> py_error + json option" where
  "pending_campaign_operation db terms =
     (case unfinished_ops db (lower terms) of
        [] \<Rightarrow> Inr None
      | [r] \<Rightarrow> campaign_operation db terms (co_kind r)
      | _ \<Rightarrow> Inl (ValueError ''Campaign has conflicting unfinished operations''))"

text \<open>\<open>_render_series\<close>: the row, its terms, the decoded governance ids, and the two derived statuses.\<close>

record series_view =
  sv_row :: series_row
  sv_terms :: json
  sv_governance_ids :: json
  sv_delivery_deadline :: "int option"
  sv_phase_status :: string
  sv_launch_status :: string

definition campaign_height :: "presale_db \<Rightarrow> string \<Rightarrow> string \<Rightarrow> int option option" where
  "campaign_height db terms kind =
     map_option co_height (lookup (\<lambda>r. (co_terms r, co_kind r)) (terms, kind) (campaign_ops db))"

text \<open>\<open>x\<close> as a condition, for a nullable text.\<close>

definition truthy :: "string option \<Rightarrow> bool" where
  "truthy x \<longleftrightarrow> (case x of None \<Rightarrow> False | Some s \<Rightarrow> s \<noteq> [])"

definition phase_status :: "presale_db \<Rightarrow> series_row \<Rightarrow> string" where
  "phase_status db row =
     (let submitted = truthy (ph_bundle (ps_phase row)); prepared = campaign_height db (ps_terms_hash row) ''phase'' \<noteq> None in
      if ps_phase_height row \<noteq> None then ''CONFIRMED''
      else if prepared \<and> submitted then ''AWAITING_CONFIRMATION''
      else if prepared then ''PREPARING''
      else if submitted then ''MEMPOOL_ACCEPTED''
      else ''NOT_SUBMITTED'')"

definition launch_status :: "presale_db \<Rightarrow> series_row \<Rightarrow> string" where
  "launch_status db row =
     (case campaign_height db (ps_terms_hash row) ''creation'' of
        Some (Some _) \<Rightarrow> ''CONFIRMED''
      | Some None \<Rightarrow> ''AWAITING_CONFIRMATION''
      | None \<Rightarrow> if truthy (sl_bundle (ps_launch row)) then ''MEMPOOL_ACCEPTED'' else ''LEGACY_TEST_FIXTURE'')"

definition render_series :: "presale_api \<Rightarrow> presale_db \<Rightarrow> series_row \<Rightarrow> py_error + series_view" where
  "render_series api db row =
     bind (py_loads (ps_terms_json row)) (\<lambda>terms.
     bind (loads_or (JArr []) (ph_governance (ps_phase row))) (\<lambda>ids.
     Inr \<lparr>sv_row = row, sv_terms = terms, sv_governance_ids = ids,
       sv_delivery_deadline = map_option (\<lambda>t. t + delivery_window_seconds api) (ps_launched_at row),
       sv_phase_status = phase_status db row, sv_launch_status = launch_status db row\<rparr>))"

text \<open>\<open>series["chainState"]\<close>\<close>

definition chain_state_json :: "series_row \<Rightarrow> json" where
  "chain_state_json row = JObj
     [(''currentCoinId'', json_opt_str (cs_coin (ps_chain row))),
      (''currentInnerPuzzleHash'', json_opt_str (cs_inner (ps_chain row))),
      (''lineageParentName'', json_opt_str (cs_lineage_parent (ps_chain row))),
      (''lineageInnerPuzzleHash'', json_opt_str (cs_lineage_inner (ps_chain row))),
      (''soldCount'', JInt (ps_sold row)), (''redeemedCount'', JInt (ps_redeemed row)),
      (''refundedCount'', JInt (ps_refunded row))]"

definition series_row_of :: "presale_db \<Rightarrow> string \<Rightarrow> series_row option" where
  "series_row_of db terms = lookup ps_terms_hash terms (series_rows db)"

text \<open>The second \<open>SELECT\<close> has no order: where several aliases match, SQLite may return another of the rows.\<close>

definition get_series :: "presale_api \<Rightarrow> presale_db \<Rightarrow> string \<Rightarrow> py_error + series_view" where
  "get_series api db identifier =
     (case series_row_of db (lower identifier) of
        Some row \<Rightarrow> render_series api db row
      | None \<Rightarrow>
          (case find (\<lambda>r. ps_terms_hash r = lower identifier \<or> ps_collection r = identifier \<or>
                ps_chain_collection r = lower identifier \<or> ps_singleton_id r = lower identifier) (series_rows db) of
             Some row \<Rightarrow> render_series api db row
           | None \<Rightarrow> Inl (KeyError identifier)))"

text \<open>\<open>series["termsHash"].lower()\<close>\<close>

abbreviation sv_key :: "series_view \<Rightarrow> string" where
  "sv_key v \<equiv> lower (ps_terms_hash (sv_row v))"

abbreviation sv_state :: "series_view \<Rightarrow> series_state" where
  "sv_state v \<equiv> ps_state (sv_row v)"

text \<open>\<open>_render_voucher\<close>: the row, the decoded documents and the deadline of the series.\<close>

record voucher_view =
  vv_row :: voucher_row
  vv_commitment :: json
  vv_artifact :: json
  vv_receipt :: json
  vv_signers :: json
  vv_execution :: json
  vv_delivery_deadline :: "int option"

definition render_voucher :: "voucher_row \<Rightarrow> series_view \<Rightarrow> py_error + voucher_view" where
  "render_voucher row series =
     bind (py_loads (vt_commitment_json (vr_terms row))) (\<lambda>commitment.
     bind (loads_or JNull (vt_artifact_json (vr_terms row))) (\<lambda>artifact.
     bind (loads_or JNull (vt_receipt_json (vr_terms row))) (\<lambda>receipt.
     bind (loads_or (JArr []) (is_signers (vr_issuance row))) (\<lambda>signers.
     bind (loads_or JNull (tm_execution (vr_terminal row))) (\<lambda>execution.
     Inr \<lparr>vv_row = row, vv_commitment = commitment, vv_artifact = artifact, vv_receipt = receipt,
       vv_signers = signers, vv_execution = execution, vv_delivery_deadline = sv_delivery_deadline series\<rparr>)))))"

definition voucher_at :: "presale_db \<Rightarrow> string \<Rightarrow> int \<Rightarrow> voucher_row option" where
  "voucher_at db terms serial = lookup (\<lambda>r. (vr_terms_hash r, vr_serial r)) (terms, serial) (voucher_rows db)"

text \<open>The method \<open>voucher\<close>.\<close>

definition voucher_view_of :: "presale_api \<Rightarrow> presale_db \<Rightarrow> string \<Rightarrow> int \<Rightarrow> py_error + voucher_view" where
  "voucher_view_of api db terms serial =
     bind (get_series api db terms) (\<lambda>series.
     case voucher_at db (sv_key series) serial of
       None \<Rightarrow> Inl (KeyError (show_int serial))
     | Some row \<Rightarrow> render_voucher row series)"

text \<open>The method \<open>get\<close>: the series and its vouchers in the order of their serials.\<close>

definition get_presale :: "presale_api \<Rightarrow> presale_db \<Rightarrow> string \<Rightarrow> py_error + series_view \<times> voucher_view list" where
  "get_presale api db identifier =
     bind (get_series api db identifier) (\<lambda>series.
     bind (map_result (\<lambda>row. render_voucher row series)
            (sort_key vr_serial (filter (\<lambda>r. vr_terms_hash r = sv_key series) (voucher_rows db)))) (\<lambda>vouchers.
     Inr (series, vouchers)))"

definition voucher_for_purchase :: "presale_api \<Rightarrow> presale_db \<Rightarrow> string \<Rightarrow> py_error + voucher_view" where
  "voucher_for_purchase api db purchase_id =
     (case find (\<lambda>r. vt_purchase_id (vr_terms r) = purchase_id) (voucher_rows db) of
        None \<Rightarrow> Inl (KeyError purchase_id)
      | Some row \<Rightarrow> bind (get_series api db (vr_terms_hash row)) (\<lambda>series. render_voucher row series))"

section \<open>What a view tells of the table\<close>

lemma render_series_row: "render_series api db row = Inr v \<Longrightarrow> sv_row v = row"
  by (auto simp: render_series_def bind_Inr)

lemma series_row_of_D: "series_row_of db t = Some r \<Longrightarrow> r \<in> set (series_rows db) \<and> ps_terms_hash r = t"
  unfolding series_row_of_def by (rule lookup_Some_D)

lemma get_series_mem: "get_series api db i = Inr v \<Longrightarrow> sv_row v \<in> set (series_rows db)"
  by (auto simp: get_series_def render_series_row dest: series_row_of_D find_Some_D render_series_row split: option.splits)

lemma voucher_at_D: "voucher_at db t n = Some r \<Longrightarrow> r \<in> set (voucher_rows db) \<and> vr_terms_hash r = t \<and> vr_serial r = n"
  unfolding voucher_at_def by (auto dest!: lookup_Some_D)

lemma render_voucher_row: "render_voucher row series = Inr v \<Longrightarrow> vv_row v = row"
  by (auto simp: render_voucher_def bind_Inr)

lemma voucher_view_row:
  assumes "voucher_view_of api db t n = Inr v"
  shows "\<exists>series. get_series api db t = Inr series \<and> voucher_at db (sv_key series) n = Some (vv_row v)"
  using assms by (auto simp: voucher_view_of_def bind_Inr split: option.splits dest: render_voucher_row)

lemma get_presale_series: "get_presale api db i = Inr (v, vs) \<Longrightarrow> get_series api db i = Inr v"
  by (auto simp: get_presale_def bind_Inr)

end
