(* ===== verification/CampaignLedger.thy ===== *)
theory CampaignLedger
  imports PresaleState
begin

text \<open>
  \<open>CampaignStore\<close> of \<open>src/solslot_api/campaign_store.py\<close>: the creation and the phase change of a series are
  retained as an intent before a quorum signs, sealed by one signed execution whose inputs are claimed,
  and confirmed at a height, or archived when their expiry is proven. \<open>canonical\<close> is \<open>canonical_json\<close>.
\<close>

section \<open>Reads\<close>

text \<open>\<open>pending_campaign_funding_coin_ids\<close>\<close>

definition pending_campaign_inputs :: "presale_db \<Rightarrow> string list" where
  "pending_campaign_inputs db = map ci_coin (filter (\<lambda>r. \<not> ci_confirmed r) (campaign_inputs db))"

text \<open>\<open>pending_voucher_funding_coin_ids\<close> of \<open>VoucherWorkStore\<close>, as a list with the elements of the set.\<close>

definition exec_inputs :: "presale_api \<Rightarrow> exec_row \<Rightarrow> py_error + string list" where
  "exec_inputs api r =
     bind (py_loads (we_json r)) (\<lambda>execution.
     bind (py_index execution ''spendBundle'') (\<lambda>j.
     bind (load_bundle api j) (\<lambda>b. Inr (removal_ids api b))))"

definition pending_voucher_inputs :: "presale_api \<Rightarrow> presale_db \<Rightarrow> py_error + string list" where
  "pending_voucher_inputs api db =
     bind (map_result (exec_inputs api) (filter (\<lambda>r. we_kind r = ''funding'' \<and> \<not> we_confirmed r) (exec_rows db)))
       (\<lambda>ids. Inr (concat ids))"

text \<open>
  A voucher whose signed or awaited spend has not settled: the condition of \<open>idx_voucher_work_pinned\<close>,
  and the wider one that campaign and direct work check.
\<close>

definition in_flight :: "voucher_row \<Rightarrow> bool" where
  "in_flight r \<longleftrightarrow>
     (is_bundle (vr_issuance r) \<noteq> None \<and> is_height (vr_issuance r) = None) \<or>
     ((rd_bundle (vr_redemption r) \<noteq> None \<or> rf_bundle (vr_refund r) \<noteq> None \<or> tm_execution (vr_terminal r) \<noteq> None) \<and>
      rd_height (vr_redemption r) = None \<and> rf_height (vr_refund r) = None)"

definition awaited :: "voucher_row \<Rightarrow> bool" where
  "awaited r \<longleftrightarrow> vr_state r \<in> {PENDING_ISSUANCE, ISSUANCE_SUBMITTED} \<or> in_flight r"

section \<open>Retaining an execution\<close>

fun claim_inputs :: "string list \<Rightarrow> string \<Rightarrow> string \<Rightarrow> string list \<Rightarrow> input_row list \<Rightarrow> py_error + input_row list" where
  "claim_inputs taken terms kind [] inputs = Inr inputs"
| "claim_inputs taken terms kind (name # names) inputs =
     raise_if (name \<in> set taken) (ValueError ''Campaign input is retained for voucher funding'')
    (raise_if (case lookup ci_coin name inputs of
          None \<Rightarrow> False | Some previous \<Rightarrow> (ci_terms previous, ci_kind previous) \<noteq> (terms, kind))
       (ValueError ''Campaign execution input already belongs to another operation'')
    (claim_inputs taken terms kind names
       (insert_or_ignore input_clash \<lparr>ci_coin = name, ci_terms = terms, ci_kind = kind, ci_confirmed = False\<rparr> inputs)))"

definition op_at :: "presale_db \<Rightarrow> string \<Rightarrow> string \<Rightarrow> op_row option" where
  "op_at db terms kind = lookup (\<lambda>r. (co_terms r, co_kind r)) (lower terms, kind) (campaign_ops db)"

definition is_op :: "string \<Rightarrow> string \<Rightarrow> op_row \<Rightarrow> bool" where
  "is_op terms kind r \<longleftrightarrow> co_terms r = lower terms \<and> co_kind r = kind"

definition retain_execution_body ::
  "presale_api \<Rightarrow> string \<Rightarrow> string \<Rightarrow> json \<Rightarrow> (presale_db, py_error, unit) body" where
  "retain_execution_body api terms kind execution db =
     bind (py_index execution ''spendBundle'') (\<lambda>j.
     bind (load_bundle api j) (\<lambda>bundle.
     raise_any [differs (py_index execution ''spendBundleId'') (JStr (bundle_name (chia api) bundle))]
       (ValueError ''Campaign execution bundle identity changed'')
    (let encoded = canonical_json execution in
     case op_at db terms kind of
       None \<Rightarrow> Inl (ValueError ''Campaign intent must be retained before its execution'')
     | Some row \<Rightarrow>
         raise_if (co_execution row \<noteq> None \<and> co_execution row \<noteq> Some encoded)
           (ValueError ''Original signed campaign execution cannot be replaced'')
        (bind (pending_voucher_inputs api db) (\<lambda>taken.
         bind (claim_inputs taken (lower terms) kind (removal_ids api bundle) (campaign_inputs db)) (\<lambda>inputs.
         Inr ((), db\<lparr>campaign_inputs := inputs,
           campaign_ops := set_where (is_op terms kind) (\<lambda>r. r\<lparr>co_execution := Some encoded\<rparr>) (campaign_ops db)\<rparr>)))))))"

definition retain_campaign_execution ::
  "presale_api \<Rightarrow> string \<Rightarrow> string \<Rightarrow> json \<Rightarrow> json option \<Rightarrow> (presale_db, py_error, unit) call" where
  "retain_campaign_execution api terms kind execution expected_operation = txn (\<lambda>db.
     case expected_operation of
       None \<Rightarrow> retain_execution_body api terms kind execution db
     | Some expected \<Rightarrow>
         bind (campaign_operation db terms kind) (\<lambda>current.
         raise_if (case current of None \<Rightarrow> True | Some v \<Rightarrow> \<not> py_eq v expected)
           (ValueError ''Campaign attempt changed while its quorum was in flight'')
           (retain_execution_body api terms kind execution db)))"

section \<open>Retaining an intent\<close>

text \<open>
  \<open>_insert_campaign_operation\<close>; the kind must satisfy the \<open>CHECK\<close>, the series must exist.
  \<open>operation.get('execution')\<close>: an absent execution is none.
\<close>

definition insert_operation ::
  "presale_api \<Rightarrow> string \<Rightarrow> json \<Rightarrow> (presale_db, py_error, unit) body" where
  "insert_operation api terms operation db =
     bind (py_index operation ''kind'') (\<lambda>k.
     bind (py_index operation ''intent'') (\<lambda>intent.
     bind (py_index operation ''context'') (\<lambda>context.
     bind (py_index operation ''preparation'') (\<lambda>preparation.
     case k of
       JStr kind \<Rightarrow>
         raise_if (kind \<notin> {''creation'', ''phase''} \<or> series_row_of db (lower terms) = None) IntegrityError
        (bind (insert_row op_clash
            \<lparr>co_terms = lower terms, co_kind = kind, co_intent = canonical_json intent, co_context = canonical_json context,
             co_preparation = canonical_json preparation, co_execution = None, co_height = None\<rparr> (campaign_ops db)) (\<lambda>ops.
         let db' = db\<lparr>campaign_ops := ops\<rparr> in
         case json_get operation ''execution'' of
           None \<Rightarrow> Inr ((), db')
         | Some execution \<Rightarrow>
             if execution = JNull then Inr ((), db') else retain_execution_body api terms kind execution db'))
     | _ \<Rightarrow> Inl IntegrityError))))"

definition same_intent :: "json \<Rightarrow> json \<Rightarrow> py_error + bool" where
  "same_intent old operation =
     bind (any_of (map (\<lambda>k. bind (py_index old k) (\<lambda>v. differs (py_index operation k) v)) [''intent'', ''context'', ''preparation'']))
       (\<lambda>changed. Inr (\<not> changed))"

text \<open>
  The checks of a fresh phase intent, in the order of the code: the series is in \<open>PRESALE\<close> with no phase
  submitted and its singleton has not moved, no campaign operation is unfinished, no voucher spend is
  awaited and no worker holds the series.
\<close>

definition phase_available :: "presale_api \<Rightarrow> string \<Rightarrow> json \<Rightarrow> rat \<Rightarrow> presale_db \<Rightarrow> py_error + unit" where
  "phase_available api terms expected_chain clock db =
     (let t = lower terms; unavailable = ValueError ''Campaign phase is unavailable or already submitted'' in
      case series_row_of db t of
        None \<Rightarrow> Inl unavailable
      | Some row \<Rightarrow>
          raise_if (ps_state row \<noteq> PRESALE \<or> ph_bundle (ps_phase row) \<noteq> None) unavailable
         (bind (render_series api db row) (\<lambda>_.
          raise_if (\<not> py_eq (chain_state_json row) expected_chain)
            (ValueError ''Campaign singleton state changed during phase preparation'')
         (raise_if (unfinished_ops db t \<noteq> []) (ValueError ''Campaign creation is not yet confirmed'')
         (raise_if (list_ex (\<lambda>r. we_terms r = t \<and> \<not> we_confirmed r) (exec_rows db) \<or>
              list_ex (\<lambda>r. vr_terms_hash r = t \<and> awaited r) (voucher_rows db) \<or>
              (case lookup ws_terms t (lease_rows db) of None \<Rightarrow> False | Some l \<Rightarrow> ws_until l > clock))
            (ValueError ''Campaign singleton has unfinished voucher work'') (Inr ()))))))"

definition retain_phase_body ::
  "presale_api \<Rightarrow> string \<Rightarrow> json \<Rightarrow> json \<Rightarrow> rat \<Rightarrow> (presale_db, py_error, json option) body" where
  "retain_phase_body api terms operation expected_chain clock db =
     bind (campaign_operation db terms ''phase'') (\<lambda>old.
     case old of
       Some v \<Rightarrow>
         bind (same_intent v operation) (\<lambda>same.
         raise_if (\<not> same) (ValueError ''Original campaign phase intent cannot be replaced'') (Inr (Some v, db)))
     | None \<Rightarrow>
         bind (phase_available api terms expected_chain clock db) (\<lambda>_.
         bind (insert_operation api terms operation db) (\<lambda>(_, db'). Inr (None, db'))))"

definition retain_campaign_phase ::
  "presale_api \<Rightarrow> string \<Rightarrow> json \<Rightarrow> json \<Rightarrow> rat \<Rightarrow> (presale_db, py_error, json option) call" where
  "retain_campaign_phase api terms operation expected_chain clock db =
     (case py_index operation ''kind'' of
        Inl e \<Rightarrow> (Inl e, db)
      | Inr k \<Rightarrow>
          if k \<noteq> JStr ''phase'' then (Inl (ValueError ''Expected a phase operation''), db)
          else txn_then (retain_phase_body api terms operation expected_chain clock)
                 (\<lambda>old db'. if old \<noteq> None then Inr old else campaign_operation db' terms ''phase'') db)"

section \<open>Confirmation and expiry\<close>

definition confirm_operation_body :: "string \<Rightarrow> string \<Rightarrow> json \<Rightarrow> (presale_db, py_error, unit) body" where
  "confirm_operation_body terms kind height db =
     (case height of
        JInt h \<Rightarrow>
          raise_if (h \<le> 0) (ValueError ''Campaign confirmation height is invalid'')
         (case op_at db terms kind of
            None \<Rightarrow> Inl (ValueError ''Campaign confirmation has no retained execution'')
          | Some row \<Rightarrow>
              raise_if (co_execution row = None) (ValueError ''Campaign confirmation has no retained execution'')
             (raise_if (co_height row \<noteq> None \<and> co_height row \<noteq> Some h)
                (ValueError ''Original campaign confirmation cannot be replaced'')
             (Inr ((), db\<lparr>campaign_ops := set_where (is_op terms kind) (\<lambda>r. r\<lparr>co_height := Some h\<rparr>) (campaign_ops db),
                campaign_inputs := set_where (\<lambda>r. ci_terms r = lower terms \<and> ci_kind r = kind)
                  (\<lambda>r. r\<lparr>ci_confirmed := True\<rparr>) (campaign_inputs db)\<rparr>))))
      | _ \<Rightarrow> Inl (ValueError ''Campaign confirmation height is invalid''))"

definition confirm_campaign_operation :: "string \<Rightarrow> string \<Rightarrow> json \<Rightarrow> (presale_db, py_error, unit) call" where
  "confirm_campaign_operation terms kind height = txn (confirm_operation_body terms kind height)"

text \<open>\<open>a < b\<close> on decoded values: numbers and texts; \<open>TypeError\<close> on others (lists are outside the model).\<close>

fun py_less :: "json \<Rightarrow> json \<Rightarrow> py_error + bool" where
  "py_less (JStr s) (JStr t) = Inr (s < t)"
| "py_less v w = (case (py_num v, py_num w) of (JInt i, JInt j) \<Rightarrow> Inr (i < j) | _ \<Rightarrow> Inl TypeError)"

text \<open>Nothing of the transition is left in the columns that \<open>archive_expired_campaign_phase\<close> clears.\<close>

definition archive_body ::
  "presale_api \<Rightarrow> string \<Rightarrow> json \<Rightarrow> json \<Rightarrow> (presale_db, py_error, unit) body" where
  "archive_body api terms operation proof db =
     bind (campaign_operation db terms ''phase'') (\<lambda>current.
     raise_if (case current of None \<Rightarrow> True | Some v \<Rightarrow> \<not> py_eq v operation)
       (ValueError ''Campaign attempt changed during expiry observation'')
    (case series_row_of db terms of
       None \<Rightarrow> Inl TypeError
     | Some row \<Rightarrow>
         raise_any [Inr (ps_state row \<noteq> PRESALE), differs (py_index proof ''coinId'') (json_opt_str (cs_coin (ps_chain row))),
             Inr (ps_phase_height row \<noteq> None)]
           (ValueError ''Campaign series changed during expiry observation'')
        (let encoded = canonical_json operation in
         bind (insert_row history_clash
             \<lparr>pa_attempt = sha256_hex (chia api) encoded, pa_terms = terms, pa_operation = encoded,
              pa_proof = canonical_json proof\<rparr> (phase_history db)) (\<lambda>hs.
         Inr ((), db\<lparr>phase_history := hs,
           campaign_inputs := sql_delete (\<lambda>r. ci_terms r = terms \<and> ci_kind r = ''phase'') (campaign_inputs db),
           campaign_ops := sql_delete (\<lambda>r. co_terms r = terms \<and> co_kind r = ''phase'') (campaign_ops db),
           series_rows := set_where (\<lambda>r. ps_terms_hash r = terms) (\<lambda>r. r\<lparr>ps_phase := no_phase\<rparr>) (series_rows db)\<rparr>)))))"

definition archive_expired_campaign_phase ::
  "presale_api \<Rightarrow> string \<Rightarrow> json \<Rightarrow> json \<Rightarrow> (presale_db, py_error, unit) call" where
  "archive_expired_campaign_phase api terms operation proof db =
     (let early = bind (py_index proof ''timestamp'') (\<lambda>t. bind (py_index proof ''consensusDeadline'') (\<lambda>d. py_less t d)) in
      case raise_any
         [differs (py_index operation ''kind'') (JStr ''phase''),
          differs (py_index operation ''confirmedHeight'') JNull,
          bind (py_path operation [''preparation'', ''claim'', ''series_coin_id'']) (\<lambda>c. differs (py_index proof ''coinId'') c),
          early]
         (ValueError ''Campaign expiry does not bind its original attempt'') (Inr ()) of
        Inl e \<Rightarrow> (Inl e, db)
      | Inr _ \<Rightarrow> txn (archive_body api terms operation proof) db)"

end
