(* ===== verification/VoucherWork.thy ===== *)
theory VoucherWork
  imports CampaignLedger
begin

text \<open>
  The scheduling half of \<open>VoucherWorkStore\<close> in \<open>src/solslot_api/voucher_work_store.py\<close>: durable lanes with a
  cursor, one lease for a series that all lanes and the direct callers share, and bounded retry.
\<close>

section \<open>Lanes\<close>

definition LEASE_SECONDS :: rat where
  "LEASE_SECONDS = 60"

definition SCAN_LIMIT :: nat where
  "SCAN_LIMIT = 64"

text \<open>The predicates of \<open>LANES\<close>, on the table of the lane, as the keys of the rows that satisfy them.\<close>

definition voucher_predicate :: "worker_lane \<Rightarrow> voucher_row \<Rightarrow> bool" where
  "voucher_predicate lane r =
     (let refunding = vr_state r = REFUNDING \<and> rf_bundle (vr_refund r) \<noteq> None; redeeming = vr_state r = REDEEMING in
      case lane of
        Lane_issuance \<Rightarrow> vr_state r \<in> {PENDING_ISSUANCE, ISSUANCE_SUBMITTED}
      | Lane_stripe_terminal \<Rightarrow> vr_rail r = STRIPE_USD \<and> tm_execution (vr_terminal r) \<noteq> None \<and>
          rf_bundle (vr_refund r) = None \<and> rd_bundle (vr_redemption r) = None
      | Lane_native_refund \<Rightarrow> vr_rail r = CHIA_XCH \<and> refunding
      | Lane_base_refund \<Rightarrow> vr_rail r = BASE_SEPOLIA_USDC \<and> refunding
      | Lane_stripe_refund \<Rightarrow> vr_rail r = STRIPE_USD \<and> refunding
      | Lane_native_redemption \<Rightarrow> vr_rail r = CHIA_XCH \<and> redeeming
      | Lane_base_redemption \<Rightarrow> vr_rail r = BASE_SEPOLIA_USDC \<and> redeeming
      | Lane_stripe_redemption \<Rightarrow> vr_rail r = STRIPE_USD \<and> redeeming
      | _ \<Rightarrow> False)"

definition lane_keys :: "worker_lane \<Rightarrow> presale_db \<Rightarrow> (string \<times> int) list" where
  "lane_keys lane db =
     (case lane of
        Lane_campaign \<Rightarrow> map (\<lambda>r. (co_terms r, -1)) (filter (\<lambda>r. co_height r = None) (campaign_ops db))
      | Lane_retained \<Rightarrow> map (\<lambda>r. (we_terms r, we_serial r)) (filter (\<lambda>r. \<not> we_confirmed r) (exec_rows db))
      | Lane_phase \<Rightarrow> map (\<lambda>r. (ps_terms_hash r, -1))
          (filter (\<lambda>r. ps_state r = PRESALE \<and> ph_bundle (ps_phase r) \<noteq> None \<and> ps_phase_height r = None) (series_rows db))
      | _ \<Rightarrow> map (\<lambda>r. (vr_terms_hash r, vr_serial r)) (filter (voucher_predicate lane) (voucher_rows db)))"

definition series_lane :: "worker_lane \<Rightarrow> bool" where
  "series_lane lane \<longleftrightarrow> lane = Lane_phase \<or> lane = Lane_campaign"

definition redemption_lane :: "worker_lane \<Rightarrow> bool" where
  "redemption_lane lane \<longleftrightarrow> lane \<in> {Lane_native_redemption, Lane_base_redemption, Lane_stripe_redemption}"

text \<open>The candidates after a cursor in key order; a lane over series compares the terms hash alone.\<close>

definition candidates :: "worker_lane \<Rightarrow> presale_db \<Rightarrow> string \<times> int \<Rightarrow> (string \<times> int) list" where
  "candidates lane db cursor =
     take SCAN_LIMIT (sort_key id
       (filter (\<lambda>k. if series_lane lane then fst cursor < fst k else cursor < k) (lane_keys lane db)))"

definition scan :: "worker_lane \<Rightarrow> presale_db \<Rightarrow> string \<times> int \<Rightarrow> (string \<times> int) list" where
  "scan lane db cursor =
     (let rows = candidates lane db cursor in if rows = [] then candidates lane db ('''', -1) else rows)"

section \<open>Claiming work\<close>

record job =
  job_lane :: worker_lane
  job_terms :: string
  job_serial :: int
  job_owner :: string

definition ensure_lane :: "worker_lane \<Rightarrow> lane_row list \<Rightarrow> lane_row list" where
  "ensure_lane lane = insert_or_ignore lane_clash
     \<lparr>wl_lane = lane, wl_cursor_terms = '''', wl_cursor_serial = -1, wl_owner = None, wl_until = 0\<rparr>"

text \<open>\<open>INSERT OR IGNORE\<close> of a free lease, then the conditional \<open>UPDATE\<close>: \<open>None\<close> when another lease lives.\<close>

definition ensure_lease :: "string \<Rightarrow> lease_row list \<Rightarrow> lease_row list" where
  "ensure_lease terms = insert_or_ignore lease_clash \<lparr>ws_terms = terms, ws_owner = None, ws_until = 0\<rparr>"

definition lease_free :: "string \<Rightarrow> rat \<Rightarrow> lease_row \<Rightarrow> bool" where
  "lease_free terms now r \<longleftrightarrow> ws_terms r = terms \<and> ws_until r \<le> now"

definition take_lease :: "string \<Rightarrow> string \<Rightarrow> rat \<Rightarrow> lease_row list \<Rightarrow> lease_row list" where
  "take_lease terms owner now rows =
     set_where (lease_free terms now) (\<lambda>r. r\<lparr>ws_owner := Some owner, ws_until := now + LEASE_SECONDS\<rparr>) rows"

text \<open>The serial of the first voucher in flight and of the first unconfirmed execution of a series.\<close>

definition first_serial :: "int list \<Rightarrow> int option" where
  "first_serial ns = (case sort ns of [] \<Rightarrow> None | n # _ \<Rightarrow> Some n)"

definition competing :: "presale_db \<Rightarrow> string \<Rightarrow> int \<Rightarrow> bool" where
  "competing db terms serial =
     (let pinned = first_serial (map vr_serial (filter (\<lambda>r. vr_terms_hash r = terms \<and> in_flight r) (voucher_rows db)));
          raw = first_serial (map we_serial (filter (\<lambda>r. we_terms r = terms \<and> \<not> we_confirmed r) (exec_rows db))) in
      (case pinned of None \<Rightarrow> False | Some n \<Rightarrow> n \<noteq> serial) \<or> (case raw of None \<Rightarrow> False | Some n \<Rightarrow> n \<noteq> serial))"

text \<open>
  The conditions under which the scan passes over a candidate before it tries the lease; reading the state
  of a missing series raises.
\<close>

definition retry_due :: "worker_lane \<Rightarrow> string \<Rightarrow> int \<Rightarrow> rat \<Rightarrow> presale_db \<Rightarrow> bool" where
  "retry_due lane terms serial now db =
     (case lookup (\<lambda>r. (wa_lane r, wa_terms r, wa_serial r)) (lane, terms, serial) (attempt_rows db) of
        None \<Rightarrow> True | Some r \<Rightarrow> wa_due r \<le> now)"

definition passed_over :: "worker_lane \<Rightarrow> string \<Rightarrow> int \<Rightarrow> rat \<Rightarrow> string list \<Rightarrow> presale_db \<Rightarrow> py_error + bool" where
  "passed_over lane terms serial now excluded db =
     any_of
      [Inr (terms \<in> set excluded),
       Inr (\<not> retry_due lane terms serial now db),
       Inr (lane \<noteq> Lane_campaign \<and> unfinished_ops db terms \<noteq> []),
       (if lane = Lane_issuance
        then (case series_row_of db terms of None \<Rightarrow> Inl TypeError
              | Some s \<Rightarrow> Inr (ps_state s \<noteq> PRESALE \<or> ph_bundle (ps_phase s) \<noteq> None))
        else Inr False),
       (if redemption_lane lane
        then (case series_row_of db terms of None \<Rightarrow> Inl TypeError
              | Some s \<Rightarrow> Inr (ps_state s \<noteq> LIVE \<or> ps_phase_height s = None))
        else Inr False),
       Inr (lane \<notin> {Lane_retained, Lane_phase, Lane_campaign} \<and> competing db terms serial)]"

fun claim_loop ::
  "worker_lane \<Rightarrow> string \<Rightarrow> rat \<Rightarrow> string list \<Rightarrow> (string \<times> int) list \<Rightarrow> (presale_db, py_error, job option) body" where
  "claim_loop lane owner now excluded [] db = Inr (None, db)"
| "claim_loop lane owner now excluded ((terms, serial) # rows) db0 =
     (let db = db0\<lparr>lane_rows := set_where (\<lambda>r. wl_lane r = lane)
            (\<lambda>r. r\<lparr>wl_cursor_terms := terms, wl_cursor_serial := serial\<rparr>) (lane_rows db0)\<rparr> in
      bind (passed_over lane terms serial now excluded db) (\<lambda>skip.
      if skip then claim_loop lane owner now excluded rows db
      else let leases = ensure_lease terms (lease_rows db) in
        if rowcount (lease_free terms now) leases = 0
        then claim_loop lane owner now excluded rows (db\<lparr>lease_rows := leases\<rparr>)
        else Inr (Some \<lparr>job_lane = lane, job_terms = terms, job_serial = serial, job_owner = owner\<rparr>,
          db\<lparr>lease_rows := take_lease terms owner now leases,
            lane_rows := set_where (\<lambda>r. wl_lane r = lane)
              (\<lambda>r. r\<lparr>wl_owner := Some owner, wl_until := now + LEASE_SECONDS\<rparr>) (lane_rows db)\<rparr>)))"

definition claim_voucher_work ::
  "worker_lane \<Rightarrow> string \<Rightarrow> rat \<Rightarrow> string list \<Rightarrow> (presale_db, py_error, job option) call" where
  "claim_voucher_work lane owner now excluded = txn (\<lambda>db0.
     let db = db0\<lparr>lane_rows := ensure_lane lane (lane_rows db0)\<rparr> in
     case lookup wl_lane lane (lane_rows db) of
       None \<Rightarrow> Inl TypeError
     | Some state \<Rightarrow>
         if wl_until state > now then Inr (None, db)
         else claim_loop lane owner now excluded (scan lane db (wl_cursor_terms state, wl_cursor_serial state)) db)"

section \<open>Finishing work\<close>

definition release_lease :: "string \<Rightarrow> string \<Rightarrow> lease_row list \<Rightarrow> lease_row list" where
  "release_lease terms owner =
     set_where (\<lambda>r. ws_terms r = terms \<and> ws_owner r = Some owner) (\<lambda>r. r\<lparr>ws_owner := None, ws_until := 0\<rparr>)"

definition endswith :: "string \<Rightarrow> string \<Rightarrow> bool" where
  "endswith s t \<longleftrightarrow> startswith (rev s) (rev t)"

definition failed_status :: "string \<Rightarrow> bool" where
  "failed_status status \<longleftrightarrow> endswith status ''_ERROR'' \<or> status \<in> {''ERROR'', ''TIMED_OUT'', ''INTERRUPTED''}"

definition next_attempts :: "bool \<Rightarrow> attempt_row option \<Rightarrow> int" where
  "next_attempts failed old =
     (if failed then min 20 ((case old of None \<Rightarrow> 0 | Some r \<Rightarrow> wa_attempts r) + 1) else 0)"

text \<open>\<open>min(240, 15 * 2 ** min(4, attempts - 1))\<close>\<close>

definition retry_delay :: "int \<Rightarrow> int" where
  "retry_delay attempts = min 240 (15 * 2 ^ nat (min 4 (attempts - 1)))"

definition finish_body :: "job \<Rightarrow> rat \<Rightarrow> string \<Rightarrow> (presale_db, py_error, unit) body" where
  "finish_body j now status db =
     (let owned = (\<lambda>r. wl_lane r = job_lane j \<and> wl_owner r = Some (job_owner j)) in
      if rowcount owned (lane_rows db) = 0 then Inr ((), db)
      else
        let failed = failed_status status;
            attempts = next_attempts failed (lookup (\<lambda>r. (wa_lane r, wa_terms r, wa_serial r))
              (job_lane j, job_terms j, job_serial j) (attempt_rows db));
            row = \<lparr>wa_lane = job_lane j, wa_terms = job_terms j, wa_serial = job_serial j,
              wa_due = (if failed then now + of_int (retry_delay attempts) else now), wa_attempts = attempts,
              wa_status = status, wa_observed = now\<rparr> in
        Inr ((), db\<lparr>lane_rows := set_where owned (\<lambda>r. r\<lparr>wl_owner := None, wl_until := 0\<rparr>) (lane_rows db),
          lease_rows := release_lease (job_terms j) (job_owner j) (lease_rows db),
          attempt_rows := (case sql_insert attempt_clash row (attempt_rows db) of
             Some rows \<Rightarrow> rows
           | None \<Rightarrow> set_where (attempt_clash row) (\<lambda>_. row) (attempt_rows db))\<rparr>))"

definition finish_voucher_work :: "job \<Rightarrow> rat \<Rightarrow> string \<Rightarrow> (presale_db, py_error, unit) call" where
  "finish_voucher_work j now status = txn (finish_body j now status)"

text \<open>The owner's own HTTP call takes the same lease.\<close>

definition claim_direct_body :: "string \<Rightarrow> string \<Rightarrow> rat \<Rightarrow> (presale_db, py_error, unit) body" where
  "claim_direct_body terms owner now db =
     bind (pending_campaign_operation db terms) (\<lambda>pending.
     raise_if (pending \<noteq> None) (ValueError ''Campaign phase work is awaiting confirmation or proven expiry'')
    (raise_if (list_ex (\<lambda>r. we_terms r = terms \<and> \<not> we_confirmed r) (exec_rows db))
       (ValueError ''Original voucher execution is awaiting recovery'')
    (raise_if (list_ex (\<lambda>r. vr_terms_hash r = terms \<and> awaited r) (voucher_rows db))
       (ValueError ''Original voucher submission is awaiting recovery'')
    (let leases = ensure_lease terms (lease_rows db) in
     raise_if (rowcount (lease_free terms now) leases \<noteq> 1)
       (ValueError ''Voucher singleton is busy; retry after the current operation'')
       (Inr ((), db\<lparr>lease_rows := take_lease terms owner now leases\<rparr>))))))"

definition claim_direct_voucher_work :: "string \<Rightarrow> string \<Rightarrow> rat \<Rightarrow> (presale_db, py_error, unit) call" where
  "claim_direct_voucher_work terms owner now = txn (claim_direct_body terms owner now)"

definition finish_direct_voucher_work :: "string \<Rightarrow> string \<Rightarrow> (presale_db, py_error, unit) call" where
  "finish_direct_voucher_work terms owner =
     txn (\<lambda>db. Inr ((), db\<lparr>lease_rows := release_lease terms owner (lease_rows db)\<rparr>))"

end
