(* ===== verification/VoucherExecutions.thy ===== *)
theory VoucherExecutions
  imports VoucherWork
begin

text \<open>
  The second half of \<open>VoucherWorkStore\<close> in \<open>src/solslot_api/voucher_work_store.py\<close>, with the comparison of
  refund spends of \<open>refund_continuation.py\<close> and \<open>stripe_refund_continuation.py\<close>: the signed executions of
  vouchers, the settlements of refunds, and the history of continued refunds. Reading and replacing the
  timestamp in a serialized vault spend is the work of the puzzle library and a parameter.
\<close>

section \<open>Refund continuations\<close>

text \<open>\<open>_vault_at_timestamp\<close>\<close>

definition vault_at_timestamp :: "presale_api \<Rightarrow> coin_spend \<Rightarrow> int \<Rightarrow> py_error + coin_spend" where
  "vault_at_timestamp api s t =
     bind (or_raise ''Refund continuation changed its vault'' (vault_timestamp api s)) (\<lambda>_.
     raise_if (\<not> (0 < t \<and> t < 2 ^ 63)) (ValueError ''Refund timestamp is invalid'')
       (or_raise ''Refund continuation changed its vault'' (at_timestamp api s t)))"

abbreviation spend_name :: "presale_api \<Rightarrow> coin_spend \<Rightarrow> string" where
  "spend_name api s \<equiv> coin_name (chia api) (spend_coin s)"

abbreviation outputs :: "presale_api \<Rightarrow> spend_bundle \<Rightarrow> py_error + coin list" where
  "outputs api b \<equiv> or_raise ''puzzle does not run'' (additions (chia api) b)"

definition retime_native_refund :: "presale_api \<Rightarrow> spend_bundle \<Rightarrow> string \<Rightarrow> int \<Rightarrow> py_error + spend_bundle" where
  "retime_native_refund api bundle vault_id t =
     (let spends = coin_spends bundle; indexes = filter (\<lambda>i. spend_name api (spends ! i) = vault_id) [0..<length spends] in
      raise_if (length spends \<noteq> 4 \<or> \<not> (0 < t \<and> t < 2 ^ 63))
        (ValueError ''Owner refund continuation requires four exact inputs'')
     (case indexes of
        [i] \<Rightarrow>
          bind (or_raise ''Refund continuation changed its vault'' (vault_timestamp api (spends ! i))) (\<lambda>old.
          raise_if (t \<le> old) (ValueError ''Refund continuation must advance its timestamp'')
         (bind (vault_at_timestamp api (spends ! i) t) (\<lambda>renewed.
          let result = bundle\<lparr>coin_spends := spends[i := renewed]\<rparr> in
          bind (outputs api result) (\<lambda>new_outputs. bind (outputs api bundle) (\<lambda>old_outputs.
          raise_if (new_outputs \<noteq> old_outputs) (ValueError ''Refund continuation changed its outputs'') (Inr result))))))
      | _ \<Rightarrow> Inl (ValueError ''Refund continuation vault input is missing'')))"

text \<open>\<open>same_refund_spends\<close>: equal, or one vault spend that differs in its timestamp alone; every exception is a refusal.\<close>

definition same_refund_spends :: "presale_api \<Rightarrow> spend_bundle \<Rightarrow> coin_spend list \<Rightarrow> bool" where
  "same_refund_spends api retained actual =
     (let spends = coin_spends retained in
      if spends = actual then True
      else if length actual \<noteq> length spends \<or> length actual \<notin> {4, 5} then False
      else case filter (\<lambda>(a, b). a \<noteq> b) (zip spends actual) of
        [(before, after)] \<Rightarrow>
          spend_coin before = spend_coin after \<and> puzzle_reveal before = puzzle_reveal after \<and>
          (case bind (or_raise ''vault'' (vault_timestamp api after)) (vault_at_timestamp api before) of
             Inl _ \<Rightarrow> False
           | Inr expected \<Rightarrow> expected = after \<and>
               (case (additions (chia api) (retained\<lparr>coin_spends := actual\<rparr>), additions (chia api) retained) of
                  (Some a, Some b) \<Rightarrow> a = b | _ \<Rightarrow> False))
      | _ \<Rightarrow> False)"

text \<open>\<open>d[k1][k2]... = v\<close> on a copy of a document.\<close>

fun set_path :: "json \<Rightarrow> string list \<Rightarrow> json \<Rightarrow> py_error + json" where
  "set_path d [] v = Inr v"
| "set_path (JObj d) [k] v = Inr (JObj (dict_set k v d))"
| "set_path (JObj d) (k # ks) v =
     bind (py_index (JObj d) k) (\<lambda>w. bind (set_path w ks v) (\<lambda>w'. Inr (JObj (dict_set k w' d))))"
| "set_path _ _ v = Inl TypeError"

definition find_spend :: "presale_api \<Rightarrow> json \<Rightarrow> coin_spend list \<Rightarrow> py_error + coin_spend" where
  "find_spend api name spends = or_raise ''StopIteration'' (find (\<lambda>s. JStr (spend_name api s) = name) spends)"

definition renewed_document :: "presale_api \<Rightarrow> json \<Rightarrow> spend_bundle \<Rightarrow> spend_bundle \<Rightarrow> json \<Rightarrow> json \<Rightarrow> py_error + json" where
  "renewed_document api previous old new vault_id fee_id =
     bind (set_path previous [''prepared'', ''spendBundle''] (bundle_json api new)) (\<lambda>d.
     bind (set_path d [''prepared'', ''spendBundleId''] (JStr (bundle_name (chia api) new))) (\<lambda>d.
     set_path d [''request'', ''refundContinuation'']
       (JArr [JStr (bundle_name (chia api) old), vault_id, fee_id])))"

text \<open>The part of \<open>same_effects\<close> on the spends other than the fee spend; it gives the new vault timestamp.\<close>

definition same_protocol ::
  "presale_api \<Rightarrow> spend_bundle \<Rightarrow> spend_bundle \<Rightarrow> coin_spend \<Rightarrow> coin_spend \<Rightarrow> json \<Rightarrow> py_error + int" where
  "same_protocol api old new old_fee new_fee vault_id =
     (let old_protocol = old\<lparr>coin_spends := filter (\<lambda>s. s \<noteq> old_fee) (coin_spends old)\<rparr>;
          new_protocol = filter (\<lambda>s. s \<noteq> new_fee) (coin_spends new) in
      bind (find_spend api vault_id new_protocol) (\<lambda>vault.
      bind (or_raise ''Refund continuation changed its vault'' (vault_timestamp api vault)) (\<lambda>now.
      bind (retime_native_refund api old_protocol (spend_name api vault) now) (\<lambda>expected.
      raise_any
        [Inr (new_protocol \<noteq> coin_spends expected \<or> spend_coin old_fee \<noteq> spend_coin new_fee \<or>
             puzzle_reveal old_fee \<noteq> puzzle_reveal new_fee),
         bind (outputs api old) (\<lambda>a. bind (outputs api new) (\<lambda>b. Inr (a \<noteq> b))),
         Inr (removals (chia api) old \<noteq> removals (chia api) new)]
        (ValueError ''Refund continuation changed its inputs, outputs or protocol'') (Inr now)))))"

text \<open>The sponsor's fee spend may only renew its deadline, within the window of the vault spend.\<close>

definition same_sponsor ::
  "presale_api \<Rightarrow> spend_bundle \<Rightarrow> spend_bundle \<Rightarrow> coin_spend \<Rightarrow> coin_spend \<Rightarrow> int \<Rightarrow> py_error + unit" where
  "same_sponsor api old new old_fee new_fee now =
     bind (or_raise ''Refund sponsor must use its original standard puzzle'' (fee_deadline api old_fee)) (\<lambda>(before, old_mask).
     bind (or_raise ''Refund sponsor must use its original standard puzzle'' (fee_deadline api new_fee)) (\<lambda>(after, new_mask).
     raise_if (old_mask \<noteq> new_mask \<or> (before = None) \<noteq> (after = None))
       (ValueError ''Refund continuation changed sponsor conditions'')
     (case (before, after) of
        (Some b, Some a) \<Rightarrow>
          raise_if (\<not> (b < a \<and> a \<le> now + 120 \<and> now < a))
            (ValueError ''Refund sponsor deadline did not renew in its vault window'') (Inr ())
      | _ \<Rightarrow> raise_if (aggregated_signature old \<noteq> aggregated_signature new)
            (ValueError ''Legacy refund authorization changed'') (Inr ()))))"

definition same_effects :: "presale_api \<Rightarrow> json \<Rightarrow> json \<Rightarrow> py_error + unit" where
  "same_effects api previous candidate =
     bind (bind (py_path previous [''prepared'', ''spendBundle'']) (load_bundle api)) (\<lambda>old.
     bind (bind (py_path candidate [''prepared'', ''spendBundle'']) (load_bundle api)) (\<lambda>new.
     raise_any [differs (py_index previous ''mode'') (JStr ''REFUND_OWNER''),
         Inr (length (coin_spends old) \<noteq> 5 \<or> length (coin_spends new) \<noteq> 5)]
       (ValueError ''Only an existing owner refund can continue'')
    (bind (py_path previous [''bindings'', ''vaultInputCoinId'']) (\<lambda>vault_id.
     bind (py_path previous [''prepared'', ''feeCoinId'']) (\<lambda>fee_id.
     bind (find_spend api fee_id (coin_spends old)) (\<lambda>old_fee.
     bind (find_spend api fee_id (coin_spends new)) (\<lambda>new_fee.
     bind (same_protocol api old new old_fee new_fee vault_id) (\<lambda>now.
     bind (same_sponsor api old new old_fee new_fee now) (\<lambda>_.
     bind (renewed_document api previous old new vault_id fee_id) (\<lambda>document.
     raise_if (\<not> py_eq candidate document)
       (ValueError ''Refund continuation changed its immutable identity or fee'') (Inr ())))))))))))"

section \<open>Executions\<close>

definition exec_at :: "presale_db \<Rightarrow> string \<Rightarrow> int \<Rightarrow> string \<Rightarrow> exec_row option" where
  "exec_at db terms serial kind = lookup (\<lambda>r. (we_terms r, we_serial r, we_kind r)) (terms, serial, kind) (exec_rows db)"

definition is_exec :: "string \<Rightarrow> int \<Rightarrow> string \<Rightarrow> exec_row \<Rightarrow> bool" where
  "is_exec terms serial kind r \<longleftrightarrow> we_terms r = terms \<and> we_serial r = serial \<and> we_kind r = kind"

definition retained_voucher_execution :: "presale_db \<Rightarrow> string \<Rightarrow> int \<Rightarrow> string \<Rightarrow> py_error + json option" where
  "retained_voucher_execution db terms serial kind =
     (case exec_at db terms serial kind of None \<Rightarrow> Inr None | Some r \<Rightarrow> bind (py_loads (we_json r)) (\<lambda>v. Inr (Some v)))"

definition pending_voucher_execution :: "presale_db \<Rightarrow> string \<Rightarrow> int \<Rightarrow> py_error + json option" where
  "pending_voucher_execution db terms serial =
     (case filter (\<lambda>r. we_terms r = terms \<and> we_serial r = serial \<and> \<not> we_confirmed r) (exec_rows db) of
        [] \<Rightarrow> Inr None
      | [r] \<Rightarrow> bind (py_loads (we_json r)) (\<lambda>v. Inr (Some v))
      | _ \<Rightarrow> Inl (ValueError ''Voucher has conflicting unfinished executions''))"

text \<open>A value bound to a text column; a value that is not a text cannot be bound.\<close>

definition json_text :: "json \<Rightarrow> py_error + string" where
  "json_text v = (case v of JStr s \<Rightarrow> Inr s | _ \<Rightarrow> Inl TypeError)"

definition retain_voucher_body :: "presale_api \<Rightarrow> string \<Rightarrow> int \<Rightarrow> json \<Rightarrow> (presale_db, py_error, unit) body" where
  "retain_voucher_body api terms serial execution db =
     (let encoded = canonical_json execution in
      bind (pending_campaign_operation db terms) (\<lambda>pending.
      raise_if (pending \<noteq> None) (ValueError ''Voucher execution cannot compete with retained campaign work'')
     (bind (bind (py_index execution ''kind'') json_text) (\<lambda>kind.
      bind (if kind = ''funding''
            then bind (py_index execution ''spendBundle'') (\<lambda>j. bind (load_bundle api j) (\<lambda>b. Inr (removal_ids api b)))
            else Inr []) (\<lambda>inputs.
      raise_if (set inputs \<inter> set (pending_campaign_inputs db) \<noteq> {})
        (ValueError ''Voucher funding input is retained for a campaign'')
     (let rows = insert_or_ignore exec_clash
            \<lparr>we_terms = terms, we_serial = serial, we_kind = kind, we_json = encoded, we_confirmed = False\<rparr> (exec_rows db) in
      raise_if (map_option we_json (exec_at (db\<lparr>exec_rows := rows\<rparr>) terms serial kind) \<noteq> Some encoded)
        (ValueError ''Voucher signed execution cannot be replaced'')
        (Inr ((), db\<lparr>exec_rows := rows\<rparr>))))))))"

definition retain_voucher_execution :: "presale_api \<Rightarrow> string \<Rightarrow> int \<Rightarrow> json \<Rightarrow> (presale_db, py_error, unit) call" where
  "retain_voucher_execution api terms serial execution = txn (retain_voucher_body api terms serial execution)"

definition confirm_voucher_execution :: "string \<Rightarrow> int \<Rightarrow> string \<Rightarrow> (presale_db, py_error, unit) call" where
  "confirm_voucher_execution terms serial kind = txn (\<lambda>db.
     Inr ((), db\<lparr>exec_rows := set_where (is_exec terms serial kind) (\<lambda>r. r\<lparr>we_confirmed := True\<rparr>) (exec_rows db)\<rparr>))"

text \<open>The active attempt first, then the archived ones from the newest on.\<close>

definition with_history :: "presale_db \<Rightarrow> string \<Rightarrow> int \<Rightarrow> json \<Rightarrow> py_error + json list" where
  "with_history db terms serial active =
     bind (map_result (\<lambda>r. py_loads (rh_execution r))
        (rev (filter (\<lambda>r. rh_terms r = terms \<and> rh_serial r = serial) (refund_history_rows db)))) (\<lambda>previous.
     Inr (active # filter (\<lambda>e. \<not> py_eq e active) previous))"

definition native_refund_attempts :: "presale_db \<Rightarrow> string \<Rightarrow> int \<Rightarrow> py_error + json list" where
  "native_refund_attempts db terms serial =
     bind (retained_voucher_execution db terms serial ''native_refund'') (\<lambda>active.
     case active of None \<Rightarrow> Inr [] | Some e \<Rightarrow> with_history db terms serial e)"

definition stripe_refund_attempts :: "presale_api \<Rightarrow> presale_db \<Rightarrow> string \<Rightarrow> int \<Rightarrow> py_error + json list" where
  "stripe_refund_attempts api db terms serial =
     bind (voucher_view_of api db terms serial) (\<lambda>v.
     if vv_execution v = JNull then Inr [] else with_history db terms serial (vv_execution v))"

section \<open>Settlements of refunds\<close>

definition refund_settlement :: "presale_db \<Rightarrow> string \<Rightarrow> int \<Rightarrow> py_error + json option" where
  "refund_settlement db terms serial =
     (case lookup (\<lambda>r. (rs_terms r, rs_serial r)) (terms, serial) (settlement_rows db) of
        None \<Rightarrow> Inr None | Some r \<Rightarrow> bind (py_loads (rs_json r)) (\<lambda>v. Inr (Some v)))"

text \<open>\<open>{k: v for k, v in d.items() if k != 'primaryAnchor'}\<close>\<close>

fun without_anchor :: "json \<Rightarrow> py_error + json" where
  "without_anchor (JObj d) = Inr (JObj (filter (\<lambda>(k, _). k \<noteq> ''primaryAnchor'') d))"
| "without_anchor _ = Inl TypeError"

definition has_key :: "json \<Rightarrow> string \<Rightarrow> bool" where
  "has_key v k \<longleftrightarrow> json_get v k \<noteq> None"

definition observed_spends :: "presale_api \<Rightarrow> json \<Rightarrow> py_error + coin_spend list" where
  "observed_spends api evidence =
     bind (py_index evidence ''observedCoinSpends'') (\<lambda>v.
     case v of JArr vs \<Rightarrow> map_result (\<lambda>j. or_raise ''invalid coin spend'' (coin_spend_of api j)) vs | _ \<Rightarrow> Inl TypeError)"

definition positive_height :: "json \<Rightarrow> bool" where
  "positive_height v \<longleftrightarrow> (case v of JInt h \<Rightarrow> h > 0 | _ \<Rightarrow> False)"

text \<open>The checks before the transaction: the evidence names the retained bundle and its observed spends.\<close>

definition settlement_checked :: "presale_api \<Rightarrow> json \<Rightarrow> json \<Rightarrow> py_error + unit" where
  "settlement_checked api execution evidence =
     bind (bind (if has_key execution ''prepared'' then py_path execution [''prepared'', ''spendBundle'']
                 else py_index execution ''spendBundle'') (load_bundle api)) (\<lambda>bundle.
     bind (observed_spends api evidence) (\<lambda>actual.
     raise_any
       [differs (py_index evidence ''authorizationBundleId'') (JStr (bundle_name (chia api) bundle)),
        bind (py_index evidence ''confirmedHeight'') (\<lambda>h. Inr (\<not> positive_height h)),
        differs (py_index evidence ''kind'')
          (JStr (if coin_spends bundle = actual then ''EXACT_RETAINED_SPENDS'' else ''EQUIVALENT_VAULT_TIMESTAMP'')),
        Inr (\<not> same_refund_spends api bundle actual)]
       (ValueError ''Refund settlement differs from its retained authorization'') (Inr ())))"

text \<open>The active attempt; \<open>JNull\<close> where there is none.\<close>

definition active_attempt :: "presale_api \<Rightarrow> presale_db \<Rightarrow> string \<Rightarrow> int \<Rightarrow> bool \<Rightarrow> py_error + json" where
  "active_attempt api db terms serial stripe =
     (if stripe then bind (voucher_view_of api db terms serial) (\<lambda>v. Inr (vv_execution v))
      else bind (retained_voucher_execution db terms serial ''native_refund'')
             (\<lambda>e. Inr (case e of None \<Rightarrow> JNull | Some v \<Rightarrow> v)))"

text \<open>The first settlement is kept; a later one may differ in its anchor alone.\<close>

definition keep_settlement :: "json option \<Rightarrow> string \<Rightarrow> int \<Rightarrow> json \<Rightarrow> (presale_db, py_error, unit) body" where
  "keep_settlement previous terms serial evidence db =
     (case previous of
        Some (JObj (kv # kvs)) \<Rightarrow>
          bind (without_anchor (JObj (kv # kvs))) (\<lambda>p. bind (without_anchor evidence) (\<lambda>e.
          raise_if (\<not> py_eq p e) (ValueError ''Refund settlement evidence is immutable'') (Inr ((), db))))
      | _ \<Rightarrow>
          bind (insert_row settlement_clash \<lparr>rs_terms = terms, rs_serial = serial, rs_json = canonical_json evidence\<rparr>
            (settlement_rows db)) (\<lambda>rows. Inr ((), db\<lparr>settlement_rows := rows\<rparr>)))"

definition record_settlement_body ::
  "presale_api \<Rightarrow> string \<Rightarrow> int \<Rightarrow> json \<Rightarrow> json \<Rightarrow> (presale_db, py_error, unit) body" where
  "record_settlement_body api terms serial execution evidence db =
     bind (active_attempt api db terms serial (has_key execution ''prepared'')) (\<lambda>active.
     raise_if (\<not> py_eq active execution) (ValueError ''Refund settlement lost its active-attempt comparison'')
    (bind (refund_settlement db terms serial) (\<lambda>previous. keep_settlement previous terms serial evidence db)))"

definition record_refund_settlement ::
  "presale_api \<Rightarrow> string \<Rightarrow> int \<Rightarrow> json \<Rightarrow> json \<Rightarrow> (presale_db, py_error, unit) call" where
  "record_refund_settlement api terms serial execution evidence db =
     (case settlement_checked api execution evidence of
        Inl e \<Rightarrow> (Inl e, db)
      | Inr _ \<Rightarrow> txn (record_settlement_body api terms serial execution evidence) db)"

section \<open>Advancing a refund attempt\<close>

text \<open>Both attempts are kept; a bundle id that is kept with another document raises.\<close>

definition attempt_kept :: "string \<Rightarrow> int \<Rightarrow> string \<Rightarrow> json \<Rightarrow> refund_history_row list \<Rightarrow> bool" where
  "attempt_kept terms serial bundle_id document rows \<longleftrightarrow>
     map_option rh_execution (lookup (\<lambda>r. (rh_terms r, rh_serial r, rh_bundle r)) (terms, serial, bundle_id) rows)
       = Some (canonical_json document)"

definition keep_attempt ::
  "string \<Rightarrow> int \<Rightarrow> json \<Rightarrow> string \<Rightarrow> string \<Rightarrow> json \<Rightarrow> refund_history_row list \<Rightarrow> py_error + refund_history_row list" where
  "keep_attempt terms serial observation message bundle_id document rows0 =
     (let rows = insert_or_ignore refund_history_clash
            \<lparr>rh_terms = terms, rh_serial = serial, rh_bundle = bundle_id, rh_execution = canonical_json document,
             rh_observation = canonical_json observation\<rparr> rows0 in
      raise_if (\<not> attempt_kept terms serial bundle_id document rows) (ValueError message) (Inr rows))"

definition keep_both ::
  "string \<Rightarrow> int \<Rightarrow> json \<Rightarrow> string \<Rightarrow> string \<times> json \<Rightarrow> string \<times> json \<Rightarrow> refund_history_row list \<Rightarrow>
   py_error + refund_history_row list" where
  "keep_both terms serial observation message old new rows =
     bind (keep_attempt terms serial observation message (fst old) (snd old) rows)
       (keep_attempt terms serial observation message (fst new) (snd new))"

definition is_voucher :: "string \<Rightarrow> int \<Rightarrow> voucher_row \<Rightarrow> bool" where
  "is_voucher terms serial r \<longleftrightarrow> vr_terms_hash r = terms \<and> vr_serial r = serial"

definition stripe_advanced :: "string option \<Rightarrow> json \<Rightarrow> string \<Rightarrow> voucher_row \<Rightarrow> voucher_row" where
  "stripe_advanced bundle candidate new_id r =
     r\<lparr>vr_terminal := (vr_terminal r)\<lparr>tm_execution := Some (canonical_json candidate)\<rparr>,
       vr_refund := (vr_refund r)\<lparr>rf_bundle := if truthy bundle then Some new_id else None\<rparr>\<rparr>"

definition advance_stripe_body ::
  "presale_api \<Rightarrow> string \<Rightarrow> int \<Rightarrow> json \<Rightarrow> json \<Rightarrow> json \<Rightarrow> bool \<Rightarrow> string \<Rightarrow> string \<Rightarrow> (presale_db, py_error, unit) body" where
  "advance_stripe_body api terms serial previous candidate observation confirmed old_id new_id db =
     bind (if confirmed
           then raise_if (\<not> attempt_kept terms serial new_id candidate (refund_history_rows db))
                  (ValueError ''Confirmed Stripe refund is not retained'') (Inr ())
           else same_effects api previous candidate) (\<lambda>_.
     let lost = ValueError ''Stripe refund continuation lost its active-attempt comparison'' in
     case voucher_at db terms serial of
       None \<Rightarrow> Inl lost
     | Some row \<Rightarrow>
         raise_if (vr_rail row \<noteq> STRIPE_USD \<or> vr_state row \<notin> {ESCROWED, REFUNDING} \<or>
             tm_execution (vr_terminal row) \<noteq> Some (canonical_json previous) \<or> rf_height (vr_refund row) \<noteq> None \<or>
             rf_bundle (vr_refund row) \<notin> {None, Some old_id} \<or> rd_bundle (vr_redemption row) \<noteq> None) lost
        (bind (keep_both terms serial observation ''Stripe refund history is immutable''
             (old_id, previous) (new_id, candidate) (refund_history_rows db)) (\<lambda>rows.
         Inr ((), db\<lparr>refund_history_rows := rows,
           voucher_rows := set_where (is_voucher terms serial) (stripe_advanced (rf_bundle (vr_refund row)) candidate new_id)
             (voucher_rows db)\<rparr>))))"

definition advance_stripe_refund_attempt ::
  "presale_api \<Rightarrow> string \<Rightarrow> int \<Rightarrow> json \<Rightarrow> json \<Rightarrow> json \<Rightarrow> bool \<Rightarrow> (presale_db, py_error, unit) call" where
  "advance_stripe_refund_attempt api terms serial previous candidate observation confirmed db =
     (case bind (bind (py_path previous [''prepared'', ''spendBundleId'']) json_text) (\<lambda>old_id.
            bind (bind (py_path candidate [''prepared'', ''spendBundleId'']) json_text) (\<lambda>new_id. Inr (old_id, new_id))) of
        Inl e \<Rightarrow> (Inl e, db)
      | Inr (old_id, new_id) \<Rightarrow>
          txn (advance_stripe_body api terms serial previous candidate observation confirmed old_id new_id) db)"

text \<open>The checks before the transaction: the candidate differs from its predecessor in the bundle and its id alone.\<close>

definition native_candidate :: "presale_api \<Rightarrow> json \<Rightarrow> json \<Rightarrow> py_error + spend_bundle \<times> spend_bundle" where
  "native_candidate api previous candidate =
     bind (bind (py_index previous ''spendBundle'') (load_bundle api)) (\<lambda>old.
     bind (bind (py_index candidate ''spendBundle'') (load_bundle api)) (\<lambda>new.
     raise_any [differs (py_index previous ''kind'') (JStr ''native_refund''),
         differs (py_path previous [''bindings'', ''spend_bundle_id'']) (JStr (bundle_name (chia api) old))]
       (ValueError ''Refund continuation prior binding changed'')
    (bind (set_path previous [''spendBundle''] (bundle_json api new)) (\<lambda>d.
     bind (set_path d [''bindings'', ''spend_bundle_id''] (JStr (bundle_name (chia api) new))) (\<lambda>expected.
     raise_if (\<not> py_eq expected candidate) (ValueError ''Refund continuation changed its immutable bindings'')
       (Inr (old, new)))))))"

definition retimed :: "presale_api \<Rightarrow> json \<Rightarrow> spend_bundle \<Rightarrow> spend_bundle \<Rightarrow> py_error + unit" where
  "retimed api previous old new =
     bind (py_path previous [''bindings'', ''vault_input_coin_id'']) (\<lambda>vault_id.
     bind (find_spend api vault_id (coin_spends new)) (\<lambda>vault.
     bind (or_raise ''Refund continuation changed its vault'' (vault_timestamp api vault)) (\<lambda>t.
     bind (retime_native_refund api old (spend_name api vault) t) (\<lambda>renewed.
     raise_if (renewed \<noteq> new) (ValueError ''Refund continuation changed more than its timestamp'') (Inr ())))))"

definition advance_native_body ::
  "presale_api \<Rightarrow> string \<Rightarrow> int \<Rightarrow> json \<Rightarrow> json \<Rightarrow> json \<Rightarrow> bool \<Rightarrow> spend_bundle \<Rightarrow> spend_bundle \<Rightarrow>
   (presale_db, py_error, unit) body" where
  "advance_native_body api terms serial previous candidate observation confirmed old new db =
     (let old_id = bundle_name (chia api) old; new_id = bundle_name (chia api) new;
          lost = ValueError ''Refund continuation lost its active-attempt comparison'' in
      bind (if confirmed
            then raise_if (\<not> attempt_kept terms serial new_id candidate (refund_history_rows db))
                   (ValueError ''Confirmed refund is not a retained attempt'') (Inr ())
            else retimed api previous old new) (\<lambda>_.
      case exec_at db terms serial ''native_refund'' of
        None \<Rightarrow> Inl lost
      | Some row \<Rightarrow>
          (case voucher_at db terms serial of
             None \<Rightarrow> Inl lost
           | Some voucher \<Rightarrow>
               raise_if (we_json row \<noteq> canonical_json previous \<or> we_confirmed row \<or> vr_state voucher \<noteq> REFUNDING \<or>
                   rf_bundle (vr_refund voucher) \<noteq> Some old_id) lost
              (bind (keep_both terms serial observation ''Refund attempt history is immutable''
                   (old_id, previous) (new_id, candidate) (refund_history_rows db)) (\<lambda>rows.
               Inr ((), db\<lparr>refund_history_rows := rows,
                 exec_rows := set_where (is_exec terms serial ''native_refund'')
                   (\<lambda>r. r\<lparr>we_json := canonical_json candidate\<rparr>) (exec_rows db),
                 voucher_rows := set_where (is_voucher terms serial)
                   (\<lambda>r. r\<lparr>vr_refund := (vr_refund r)\<lparr>rf_bundle := Some new_id\<rparr>\<rparr>) (voucher_rows db)\<rparr>))))))"

definition advance_native_refund_attempt ::
  "presale_api \<Rightarrow> string \<Rightarrow> int \<Rightarrow> json \<Rightarrow> json \<Rightarrow> json \<Rightarrow> bool \<Rightarrow> (presale_db, py_error, unit) call" where
  "advance_native_refund_attempt api terms serial previous candidate observation confirmed db =
     (case native_candidate api previous candidate of
        Inl e \<Rightarrow> (Inl e, db)
      | Inr (old, new) \<Rightarrow>
          txn (advance_native_body api terms serial previous candidate observation confirmed old new) db)"

end
