(* ===== verification/PresaleIssuance.thy ===== *)
theory PresaleIssuance
  imports VoucherExecutions
begin

text \<open>
  The first half of \<open>PresaleStore\<close> in \<open>src/solslot_api/presale_endpoints.py\<close>: a series is created, payments
  are ingested in canonical order and reserve one voucher each, the issuance of a voucher is funded,
  submitted and confirmed, and the phase of a series is submitted and confirmed. The validation of a
  purchase artifact, an approved vault and a commitment against the terms is done by the puzzle library
  and is an argument: it raises or gives the values the transaction stores.
\<close>

section \<open>Values\<close>

text \<open>\<open>x.lower() if x else None\<close>\<close>

definition opt_lower :: "string option \<Rightarrow> string option" where
  "opt_lower x = (case x of None \<Rightarrow> None | Some s \<Rightarrow> if s = [] then None else Some (lower s))"

text \<open>\<open>f"{n:0wd}"\<close>\<close>

definition padded :: "nat \<Rightarrow> int \<Rightarrow> string" where
  "padded w n =
     (let digits = show_nat (nat \<bar>n\<bar>); sign = (if n < 0 then ''-'' else []) in
      sign @ replicate (w - length sign - length digits) CHR ''0'' @ digits)"

text \<open>
  \<open>str(value or "")\<close> as \<open>_b32\<close> uses it: of the values that are neither texts nor numbers none has a
  representation of 64 hexadecimal digits.
\<close>

fun b32_text :: "json \<Rightarrow> string" where
  "b32_text (JStr s) = s"
| "b32_text (JInt i) = (if i = 0 then [] else show_int i)"
| "b32_text _ = []"

text \<open>\<open>_hex32(_b32(value, nonzero=True))\<close>\<close>

definition hex32_nonzero :: "string \<Rightarrow> py_error + string" where
  "hex32_nonzero s =
     (let t = removeprefix (lower s) ''0x'' in
      raise_if (length t \<noteq> 64 \<or> \<not> list_all is_lower_hex t) (ValueError ''value must be a 32-byte hexadecimal string'')
     (raise_if (t = replicate 64 CHR ''0'') (ValueError ''bytes32 commitment cannot be zero'') (Inr (''0x'' @ t))))"

text \<open>\<open>_validator_signer_indices\<close>\<close>

definition validator_signer_indices :: "int list \<Rightarrow> py_error + int list" where
  "validator_signer_indices ns =
     raise_if (length ns < 2 \<or> 3 < length ns \<or> \<not> sorted ns \<or> \<not> distinct ns \<or> list_ex (\<lambda>n. n < 0 \<or> 2 < n) ns)
       (ValueError ''validator signer indices must be a unique ordered 2-of-3 quorum'') (Inr ns)"

section \<open>Creating a series\<close>

record singleton_launch =
  la_parent :: "string option"
  la_full_puzzle :: "string option"
  la_bundle :: "string option"

text \<open>
  The first coin and inner puzzle of the singleton, where parent and full puzzle are given;
  \<open>_b32\<close> of the two ids raises on malformed texts.
\<close>

definition genesis_chain :: "presale_api \<Rightarrow> json \<Rightarrow> singleton_launch \<Rightarrow> py_error + chain_cols" where
  "genesis_chain api terms launch =
     (case (la_parent launch, la_full_puzzle launch) of
        (Some parent, Some full) \<Rightarrow>
          if parent = [] \<or> full = []
          then Inr \<lparr>cs_coin = None, cs_inner = None, cs_lineage_parent = Some parent, cs_lineage_inner = None\<rparr>
          else
           bind (or_raise ''invalid series terms'' (genesis_inner_hash api terms)) (\<lambda>inner.
           bind (bind (py_index terms ''seriesSingletonId'') (\<lambda>v. hex32_nonzero (b32_text v))) (\<lambda>singleton.
           bind (hex32_nonzero full) (\<lambda>full_hash.
           Inr \<lparr>cs_coin = Some (coin_name (chia api) \<lparr>parent_coin_info = singleton, puzzle_hash = full_hash, amount = 1\<rparr>),
             cs_inner = Some inner, cs_lineage_parent = Some parent, cs_lineage_inner = None\<rparr>)))
      | _ \<Rightarrow> Inr \<lparr>cs_coin = None, cs_inner = None, cs_lineage_parent = la_parent launch, cs_lineage_inner = None\<rparr>)"

definition new_series :: "string \<Rightarrow> string \<Rightarrow> string \<Rightarrow> string \<Rightarrow> json \<Rightarrow> singleton_launch \<Rightarrow> chain_cols \<Rightarrow> int \<Rightarrow> series_row" where
  "new_series terms_hash singleton workspace collection terms launch chain now =
     \<lparr>ps_terms_hash = lower terms_hash, ps_singleton_id = lower singleton, ps_collection = workspace,
      ps_chain_collection = lower collection, ps_terms_json = canonical_json terms, ps_state = PRESALE,
      ps_launched_at = None, ps_launch_evidence = None, ps_governance_execution = None, ps_cancel_reason = None,
      ps_phase = no_phase, ps_phase_height = None,
      ps_launch = \<lparr>sl_parent = la_parent launch, sl_full_puzzle = la_full_puzzle launch, sl_bundle = la_bundle launch\<rparr>,
      ps_chain = chain, ps_sold = 0, ps_redeemed = 0, ps_refunded = 0, ps_created_at = now, ps_updated_at = now\<rparr>"

definition terms_text :: "json \<Rightarrow> string \<Rightarrow> py_error + string" where
  "terms_text terms k = bind (py_index terms k) json_text"

definition create_body ::
  "presale_api \<Rightarrow> json \<Rightarrow> singleton_launch \<Rightarrow> json option \<Rightarrow> chain_cols \<Rightarrow> int \<Rightarrow> (presale_db, py_error, string) body" where
  "create_body api terms launch operation chain now db =
     bind (terms_text terms ''termsHash'') (\<lambda>terms_hash.
     bind (terms_text terms ''seriesSingletonId'') (\<lambda>singleton.
     bind (terms_text terms ''collectionWorkspaceId'') (\<lambda>workspace.
     bind (terms_text terms ''collectionId'') (\<lambda>collection.
     bind (insert_row series_clash (new_series terms_hash singleton workspace collection terms launch chain now)
       (series_rows db)) (\<lambda>rows.
     let db' = db\<lparr>series_rows := rows\<rparr> in
     case operation of
       None \<Rightarrow> Inr (terms_hash, db')
     | Some op \<Rightarrow>
         raise_any [differs (py_index op ''kind'') (JStr ''creation'')]
           (ValueError ''Series creation requires a creation operation'')
        (bind (insert_operation api terms_hash op db') (\<lambda>(_, db''). Inr (terms_hash, db''))))))))"

definition create ::
  "presale_api \<Rightarrow> json \<Rightarrow> singleton_launch \<Rightarrow> json option \<Rightarrow> int \<Rightarrow> (presale_db, py_error, series_view \<times> voucher_view list) call" where
  "create api terms launch operation now db =
     (case genesis_chain api terms launch of
        Inl e \<Rightarrow> (Inl e, db)
      | Inr chain \<Rightarrow> txn_then (create_body api terms launch operation chain now) (\<lambda>t db'. get_presale api db' t) db)"

section \<open>Payments\<close>

text \<open>What the checks of a purchase give: the deed of the terms it buys and the values bound by the commitment.\<close>

record payment_intake =
  pi_deed :: string
  pi_ordinal :: int
  pi_rail :: rail
  pi_amount :: int
  pi_base_price :: int
  pi_fee_bps :: int
  pi_fee_minor :: int
  pi_gross_price :: int
  pi_payer :: string
  pi_vault :: string
  pi_vault_p2 :: string
  pi_purchase_id :: string
  pi_commitment_hash :: string
  pi_commitment :: json

definition intake_terms :: "payment_intake \<Rightarrow> string \<Rightarrow> string \<Rightarrow> int \<Rightarrow> voucher_terms" where
  "intake_terms i payment_id evidence_id now =
     \<lparr>vt_deed = lower (pi_deed i), vt_rail = pi_rail i, vt_principal = pi_amount i, vt_base_price = pi_base_price i,
      vt_fee_bps = pi_fee_bps i, vt_fee_minor = pi_fee_minor i, vt_gross_price = pi_gross_price i, vt_payer = pi_payer i,
      vt_vault = pi_vault i, vt_vault_p2 = pi_vault_p2 i, vt_purchase_id = pi_purchase_id i, vt_payment_id = payment_id,
      vt_commitment_hash = pi_commitment_hash i, vt_commitment_json = canonical_json (pi_commitment i),
      vt_artifact_json = None, vt_receipt_json = None, vt_processing_charge = 0, vt_evidence_id = evidence_id,
      vt_created_at = now\<rparr>"

definition new_voucher :: "string \<Rightarrow> int \<Rightarrow> voucher_terms \<Rightarrow> voucher_state \<Rightarrow> issuance_cols \<Rightarrow> int \<Rightarrow> voucher_row" where
  "new_voucher terms_hash serial terms state issuance now =
     \<lparr>vr_terms_hash = terms_hash, vr_serial = serial, vr_terms = terms, vr_state = state, vr_issuance = issuance,
      vr_refund = no_refund, vr_redemption = no_redemption, vr_terminal = no_terminal, vr_updated_at = now\<rparr>"

text \<open>The two inserts; both tables reference the series.\<close>

definition insert_event :: "event_row \<Rightarrow> presale_db \<Rightarrow> py_error + presale_db" where
  "insert_event e db =
     raise_if (series_row_of db (pe_terms_hash e) = None) IntegrityError
       (bind (insert_row event_clash e (event_rows db)) (\<lambda>rows. Inr (db\<lparr>event_rows := rows\<rparr>)))"

definition insert_voucher :: "voucher_row \<Rightarrow> presale_db \<Rightarrow> py_error + presale_db" where
  "insert_voucher v db =
     raise_if (series_row_of db (vr_terms_hash v) = None) IntegrityError
       (bind (insert_row voucher_clash v (voucher_rows db)) (\<lambda>rows. Inr (db\<lparr>voucher_rows := rows\<rparr>)))"

record payment_view =
  pv_event :: event_row
  pv_voucher :: "voucher_view option"

definition render_payment_event :: "presale_api \<Rightarrow> presale_db \<Rightarrow> event_row \<Rightarrow> py_error + payment_view" where
  "render_payment_event api db e =
     (if pe_outcome e = PAYMENT_CONFIRMED
      then bind (voucher_view_of api db (pe_terms_hash e) (pe_serial e)) (\<lambda>v. Inr \<lparr>pv_event = e, pv_voucher = Some v\<rparr>)
      else Inr \<lparr>pv_event = e, pv_voucher = None\<rparr>)"

record payment_evidence =
  ev_payment_id :: string
  ev_evidence_id :: string
  ev_height :: int
  ev_transaction :: int
  ev_output :: int
  ev_confirmed_at :: int

definition order_key :: "payment_evidence \<Rightarrow> string" where
  "order_key e = padded 20 (ev_height e) @ '':'' @ padded 10 (ev_transaction e) @ '':'' @ padded 10 (ev_output e) @
     '':'' @ lower (ev_payment_id e)"

text \<open>A payment before the last one of its series in the canonical order is refused.\<close>

definition out_of_order :: "string \<Rightarrow> string \<Rightarrow> event_row list \<Rightarrow> bool" where
  "out_of_order terms key rows \<longleftrightarrow> list_ex (\<lambda>e. pe_terms_hash e = terms \<and> key < pe_order_key e) rows"

definition ingest_payment_body ::
  "string \<Rightarrow> payment_evidence \<Rightarrow> payment_intake \<Rightarrow> int \<Rightarrow> (presale_db, py_error, event_row) body" where
  "ingest_payment_body terms_hash evidence i now db =
     (let payment_id = lower (ev_payment_id evidence); t = lower terms_hash; key = order_key evidence in
      case lookup pe_payment_id payment_id (event_rows db) of
        Some existing \<Rightarrow>
          raise_if (pe_evidence_id existing \<noteq> ev_evidence_id evidence)
            (ValueError ''global payment ID is bound to different evidence'') (Inr (existing, db))
      | None \<Rightarrow>
          raise_if (map_option ps_state (series_row_of db t) \<noteq> Some PRESALE)
            (ValueError ''voucher series is not in PRESALE'')
         (raise_if (out_of_order t key (event_rows db))
            (ValueError ''payment evidence arrived out of canonical order; reconciliation is required'')
         (let occupied = voucher_at db t (pi_ordinal i) \<noteq> None;
              e = \<lparr>pe_payment_id = payment_id, pe_terms_hash = t, pe_order_key = key, pe_evidence_id = ev_evidence_id evidence,
                pe_outcome = (if occupied then REFUND_REQUIRED else PAYMENT_CONFIRMED), pe_serial = pi_ordinal i,
                pe_created_at = now\<rparr> in
          bind (insert_event e db) (\<lambda>db'.
          if occupied then Inr (e, db')
          else bind (insert_voucher (new_voucher t (pi_ordinal i)
                 (intake_terms i payment_id (ev_evidence_id evidence) now) PENDING_ISSUANCE no_issuance now) db')
               (\<lambda>db''. Inr (e, db''))))))"

text \<open>\<open>check\<close> stands for the validation of the purchase artifact between the read and the transaction.\<close>

definition ingest_payment ::
  "presale_api \<Rightarrow> string \<Rightarrow> payment_evidence \<Rightarrow> (series_view \<Rightarrow> py_error + payment_intake) \<Rightarrow> int option \<Rightarrow> int \<Rightarrow>
   (presale_db, py_error, payment_view) call" where
  "ingest_payment api terms_hash evidence check now_seconds clock db =
     (case bind (get_presale api db terms_hash) (\<lambda>(series, _).
            raise_if (now_or now_seconds clock + 300 < ev_confirmed_at evidence)
              (ValueError ''payment confirmation time is in the future'') (check series)) of
        Inl e \<Rightarrow> (Inl e, db)
      | Inr i \<Rightarrow> txn_then (ingest_payment_body terms_hash evidence i clock)
                   (\<lambda>e db'. render_payment_event api db' e) db)"

text \<open>
  What the checks of a settled Stripe purchase give: the columns of the voucher, but for the evidence and
  the time, and the two parts of the order key.
\<close>

record stripe_intake =
  xi_ordinal :: int
  xi_terms :: voucher_terms
  xi_observed_at :: int
  xi_event_id :: string

definition stripe_order_key :: "stripe_intake \<Rightarrow> string" where
  "stripe_order_key i = ''stripe:'' @ padded 20 (xi_observed_at i) @ '':'' @ xi_event_id i @ '':'' @ vt_payment_id (xi_terms i)"

definition ingest_stripe_body ::
  "string \<Rightarrow> string \<Rightarrow> stripe_intake \<Rightarrow> int \<Rightarrow> (presale_db, py_error, event_row) body" where
  "ingest_stripe_body terms_hash evidence_id i now db =
     (let payment_id = vt_payment_id (xi_terms i); t = lower terms_hash in
      case lookup pe_payment_id payment_id (event_rows db) of
        Some existing \<Rightarrow>
          raise_if (pe_evidence_id existing \<noteq> evidence_id)
            (ValueError ''Stripe payment is bound to different evidence'') (Inr (existing, db))
      | None \<Rightarrow>
          raise_if (voucher_at db t (xi_ordinal i) \<noteq> None) (ValueError ''governed presale deed is already reserved'')
         (let e = \<lparr>pe_payment_id = payment_id, pe_terms_hash = t, pe_order_key = stripe_order_key i,
                pe_evidence_id = evidence_id, pe_outcome = PAYMENT_CONFIRMED, pe_serial = xi_ordinal i, pe_created_at = now\<rparr> in
          bind (insert_event e db) (\<lambda>db'.
          bind (insert_voucher (new_voucher t (xi_ordinal i)
              ((xi_terms i)\<lparr>vt_rail := STRIPE_USD, vt_evidence_id := evidence_id, vt_created_at := now\<rparr>)
              PENDING_ISSUANCE no_issuance now) db') (\<lambda>db''. Inr (e, db'')))))"

text \<open>The result carries the state of the voucher besides the event.\<close>

definition ingest_stripe_payment ::
  "presale_api \<Rightarrow> string \<Rightarrow> string \<Rightarrow> (series_view \<Rightarrow> py_error + stripe_intake) \<Rightarrow> int \<Rightarrow>
   (presale_db, py_error, payment_view \<times> voucher_state) call" where
  "ingest_stripe_payment api terms_hash evidence_id check now db =
     (case bind (get_presale api db terms_hash) (\<lambda>(series, _).
            raise_if (sv_state series \<noteq> PRESALE) (ValueError ''voucher series is not in PRESALE'') (check series)) of
        Inl e \<Rightarrow> (Inl e, db)
      | Inr i \<Rightarrow> txn_then (ingest_stripe_body terms_hash evidence_id i now)
            (\<lambda>e db'. bind (render_payment_event api db' e) (\<lambda>v.
               bind (voucher_view_of api db' terms_hash (xi_ordinal i)) (\<lambda>u. Inr (v, vr_state (vv_row u))))) db)"

section \<open>Issuance\<close>

text \<open>The ids of an accepted native submission, checked against the rebuilt spends.\<close>

record native_submission =
  ns_bundle :: string
  ns_launcher_coin :: string
  ns_launcher_puzzle :: string
  ns_voucher_launcher :: string
  ns_voucher_output :: string
  ns_payment_coin :: string
  ns_series_input :: string
  ns_series_output :: string

definition submitted_cols :: "native_submission \<Rightarrow> issuance_cols" where
  "submitted_cols s = no_issuance\<lparr>is_bundle := Some (lower (ns_bundle s)), is_launcher_coin := Some (ns_launcher_coin s),
     is_launcher_puzzle := Some (ns_launcher_puzzle s), is_voucher_launcher := Some (lower (ns_voucher_launcher s)),
     is_voucher_output := Some (lower (ns_voucher_output s)), is_payment_coin := Some (lower (ns_payment_coin s)),
     is_series_input := Some (ns_series_input s), is_series_output := Some (lower (ns_series_output s))\<rparr>"

definition native_submission_body ::
  "string \<Rightarrow> string \<Rightarrow> payment_intake \<Rightarrow> native_submission \<Rightarrow> int \<Rightarrow> (presale_db, py_error, unit) body" where
  "native_submission_body t payment_id i s now db =
     (let evidence_id = ''chia:'' @ lower (ns_bundle s); pid = lower payment_id in
      case lookup pe_payment_id pid (event_rows db) of
        Some existing \<Rightarrow>
          raise_if (pe_evidence_id existing \<noteq> evidence_id)
            (ValueError ''native payment ID is bound to different evidence'') (Inr ((), db))
      | None \<Rightarrow>
          raise_if (\<not> (case series_row_of db t of None \<Rightarrow> False | Some r \<Rightarrow> cs_coin (ps_chain r) = Some (ns_series_input s)))
            (ValueError ''series state changed before native submission'')
         (raise_if (voucher_at db t (pi_ordinal i) \<noteq> None) (ValueError ''the governed deed is already reserved'')
         (bind (insert_event \<lparr>pe_payment_id = pid, pe_terms_hash = t,
              pe_order_key = ''mempool:'' @ padded 20 now @ '':'' @ pid, pe_evidence_id = evidence_id,
              pe_outcome = PAYMENT_CONFIRMED, pe_serial = pi_ordinal i, pe_created_at = now\<rparr> db) (\<lambda>db'.
          bind (insert_voucher (new_voucher t (pi_ordinal i)
              ((intake_terms i pid evidence_id now)\<lparr>vt_rail := CHIA_XCH\<rparr>)
              ISSUANCE_SUBMITTED (submitted_cols s) now) db') (\<lambda>db''. Inr ((), db''))))))"

definition record_native_issuance_submission ::
  "presale_api \<Rightarrow> string \<Rightarrow> string \<Rightarrow> (series_view \<Rightarrow> py_error + payment_intake \<times> native_submission) \<Rightarrow> int option \<Rightarrow> int \<Rightarrow>
   (presale_db, py_error, voucher_view) call" where
  "record_native_issuance_submission api terms_hash payment_id check submitted_at clock db =
     (case bind (get_presale api db terms_hash) (\<lambda>(series, _).
            raise_if (sv_state series \<noteq> PRESALE) (ValueError ''voucher series is not in PRESALE'')
              (bind (check series) (\<lambda>(i, s). Inr (series, i, s)))) of
        Inl e \<Rightarrow> (Inl e, db)
      | Inr (series, i, s) \<Rightarrow>
          txn_then (native_submission_body (sv_key series) payment_id i s (now_or submitted_at clock))
            (\<lambda>_ db'. voucher_view_of api db' (ps_terms_hash (sv_row series)) (pi_ordinal i)) db)"

end
