(* ===== verification/PresaleProgress.thy ===== *)
theory PresaleProgress
  imports PresaleIssuance
begin

text \<open>
  \<open>PresaleStore\<close> in \<open>src/solslot_api/presale_endpoints.py\<close>, continued: the issuance of a voucher is funded,
  submitted and confirmed, a refund is requested, a Stripe terminal execution is bound, and the phase of a
  series is submitted and confirmed.
\<close>

section \<open>Updates of one voucher and of the chain state of a series\<close>

text \<open>A conditional \<open>UPDATE\<close> whose \<open>rowcount\<close> must be one.\<close>

definition update_voucher ::
  "(voucher_row \<Rightarrow> bool) \<Rightarrow> (voucher_row \<Rightarrow> voucher_row) \<Rightarrow> string \<Rightarrow> presale_db \<Rightarrow> py_error + presale_db" where
  "update_voucher p f message db =
     raise_if (rowcount p (voucher_rows db) \<noteq> 1) (ValueError message)
       (Inr (db\<lparr>voucher_rows := set_where p f (voucher_rows db)\<rparr>))"

definition update_series ::
  "(series_row \<Rightarrow> bool) \<Rightarrow> (series_row \<Rightarrow> series_row) \<Rightarrow> string \<Rightarrow> presale_db \<Rightarrow> py_error + presale_db" where
  "update_series p f message db =
     raise_if (rowcount p (series_rows db) \<noteq> 1) (ValueError message)
       (Inr (db\<lparr>series_rows := set_where p f (series_rows db)\<rparr>))"

text \<open>The spend of the series singleton that every confirmation reports.\<close>

record series_spend =
  ss_input :: string
  ss_input_parent :: string
  ss_output :: string
  ss_output_inner :: string

definition advance_chain :: "series_spend \<Rightarrow> string option \<Rightarrow> int \<Rightarrow> series_row \<Rightarrow> series_row" where
  "advance_chain e prior_inner now r =
     r\<lparr>ps_chain := \<lparr>cs_coin = Some (lower (ss_output e)), cs_inner = Some (lower (ss_output_inner e)),
         cs_lineage_parent = Some (lower (ss_input_parent e)), cs_lineage_inner = prior_inner\<rparr>,
       ps_updated_at := now\<rparr>"

definition at_coin :: "string \<Rightarrow> series_spend \<Rightarrow> series_row \<Rightarrow> bool" where
  "at_coin t e r \<longleftrightarrow> ps_terms_hash r = t \<and> cs_coin (ps_chain r) = Some (lower (ss_input e))"

text \<open>\<open>SELECT current_coin_id, current_inner_puzzle_hash\<close>, which must be the spent coin; gives the inner hash.\<close>

definition spent_inner :: "string \<Rightarrow> series_spend \<Rightarrow> string \<Rightarrow> presale_db \<Rightarrow> py_error + string option" where
  "spent_inner t e message db =
     (case series_row_of db t of
        None \<Rightarrow> Inl (ValueError message)
      | Some r \<Rightarrow> raise_if (cs_coin (ps_chain r) \<noteq> Some (lower (ss_input e))) (ValueError message) (Inr (cs_inner (ps_chain r))))"

section \<open>Issuance\<close>

record VoucherIssuanceChainEvidence =
  vi_evidence_id :: string
  vi_bundle :: string
  vi_launcher_coin :: string
  vi_voucher_launcher :: string
  vi_voucher_output :: string
  vi_payment_coin :: string
  vi_series :: series_spend
  vi_height :: int

text \<open>The columns of a submission that the evidence must repeat.\<close>

definition issuance_matches :: "VoucherIssuanceChainEvidence \<Rightarrow> issuance_cols \<Rightarrow> bool" where
  "issuance_matches e c \<longleftrightarrow>
     is_bundle c = Some (lower (vi_bundle e)) \<and> is_launcher_coin c = Some (lower (vi_launcher_coin e)) \<and>
     is_voucher_launcher c = Some (lower (vi_voucher_launcher e)) \<and> is_voucher_output c = Some (lower (vi_voucher_output e)) \<and>
     is_payment_coin c = Some (lower (vi_payment_coin e)) \<and> is_series_input c = Some (lower (ss_input (vi_series e))) \<and>
     is_series_output c = Some (lower (ss_output (vi_series e)))"

definition issued :: "VoucherIssuanceChainEvidence \<Rightarrow> int \<Rightarrow> voucher_row \<Rightarrow> voucher_row" where
  "issued e now r = r\<lparr>vr_state := ESCROWED, vr_updated_at := now,
     vr_issuance := (vr_issuance r)\<lparr>is_evidence := Some (vi_evidence_id e), is_bundle := Some (lower (vi_bundle e)),
       is_launcher_coin := Some (lower (vi_launcher_coin e)), is_voucher_launcher := Some (lower (vi_voucher_launcher e)),
       is_voucher_output := Some (lower (vi_voucher_output e)), is_payment_coin := Some (lower (vi_payment_coin e)),
       is_series_input := Some (lower (ss_input (vi_series e))), is_series_output := Some (lower (ss_output (vi_series e))),
       is_height := Some (vi_height e)\<rparr>\<rparr>"

definition confirm_issuance_body ::
  "string \<Rightarrow> int \<Rightarrow> VoucherIssuanceChainEvidence \<Rightarrow> int \<Rightarrow> (presale_db, py_error, unit) body" where
  "confirm_issuance_body t serial e now db =
     bind (spent_inner t (vi_series e) ''issuance evidence does not spend the current series coin'' db) (\<lambda>inner.
     let required = ''issuance confirmation requires ISSUANCE_SUBMITTED state'' in
     case voucher_at db t serial of
       None \<Rightarrow> Inl (ValueError required)
     | Some row \<Rightarrow>
         raise_if (vr_state row \<noteq> ISSUANCE_SUBMITTED) (ValueError required)
        (raise_if (\<not> issuance_matches e (vr_issuance row))
           (ValueError ''issuance evidence differs from submitted chain outputs'')
        (bind (update_voucher (\<lambda>r. is_voucher t serial r \<and> vr_state r = ISSUANCE_SUBMITTED) (issued e now) required db) (\<lambda>db'.
         bind (update_series (at_coin t (vi_series e))
             (\<lambda>r. (advance_chain (vi_series e) inner now r)\<lparr>ps_sold := ps_sold r + 1\<rparr>)
             ''series state changed during issuance confirmation'' db') (\<lambda>db''. Inr ((), db''))))))"

text \<open>\<open>self._get_series(terms_hash)\<close>, the transaction on its key, and \<open>return self.voucher(...)\<close>.\<close>

definition voucher_call ::
  "presale_api \<Rightarrow> string \<Rightarrow> int \<Rightarrow> (series_view \<Rightarrow> py_error + (presale_db, py_error, unit) body) \<Rightarrow>
   (presale_db, py_error, voucher_view) call" where
  "voucher_call api terms_hash serial k db =
     (case bind (get_series api db terms_hash) (\<lambda>series. bind (k series) (\<lambda>body. Inr (series, body))) of
        Inl e \<Rightarrow> (Inl e, db)
      | Inr (series, body) \<Rightarrow> txn_then body (\<lambda>_ db'. voucher_view_of api db' (ps_terms_hash (sv_row series)) serial) db)"

definition confirm_issuance ::
  "presale_api \<Rightarrow> string \<Rightarrow> int \<Rightarrow> VoucherIssuanceChainEvidence \<Rightarrow> int \<Rightarrow> (presale_db, py_error, voucher_view) call" where
  "confirm_issuance api terms_hash serial e now =
     voucher_call api terms_hash serial (\<lambda>series. Inr (confirm_issuance_body (sv_key series) serial e now))"

definition issuance_funding_body ::
  "string \<Rightarrow> int \<Rightarrow> string \<Rightarrow> string \<Rightarrow> string \<Rightarrow> int \<Rightarrow> (presale_db, py_error, unit) body" where
  "issuance_funding_body t serial bundle coin puzzle now db =
     (case voucher_at db t serial of
        None \<Rightarrow> Inl (KeyError (show_int serial))
      | Some row \<Rightarrow>
          let c = vr_issuance row in
          if is_funding_bundle c = Some (lower bundle) \<and> is_launcher_coin c = Some (lower coin) \<and>
             is_launcher_puzzle c = Some (lower puzzle)
          then Inr ((), db)
          else raise_if (vr_state row \<noteq> PENDING_ISSUANCE \<or> truthy (is_funding_bundle c) \<or> truthy (is_launcher_coin c) \<or>
                 truthy (is_launcher_puzzle c)) (ValueError ''voucher issuance funding is already bound'')
            (Inr ((), db\<lparr>voucher_rows := set_where (is_voucher t serial)
              (\<lambda>r. r\<lparr>vr_issuance := (vr_issuance r)\<lparr>is_funding_bundle := Some (lower bundle),
                 is_launcher_coin := Some (lower coin), is_launcher_puzzle := Some (lower puzzle)\<rparr>,
                 vr_updated_at := now\<rparr>) (voucher_rows db)\<rparr>)))"

definition record_issuance_funding ::
  "presale_api \<Rightarrow> string \<Rightarrow> int \<Rightarrow> string \<Rightarrow> string \<Rightarrow> string \<Rightarrow> int \<Rightarrow> (presale_db, py_error, voucher_view) call" where
  "record_issuance_funding api terms_hash serial bundle coin puzzle now =
     voucher_call api terms_hash serial (\<lambda>series. Inr (issuance_funding_body (sv_key series) serial bundle coin puzzle now))"

record issuance_submission =
  sub_bundle :: string
  sub_voucher_launcher :: string
  sub_voucher_output :: string
  sub_payment_coin :: string
  sub_series_input :: string
  sub_series_output :: string
  sub_signers :: "int list"

definition submitted :: "issuance_submission \<Rightarrow> int list \<Rightarrow> int \<Rightarrow> voucher_row \<Rightarrow> voucher_row" where
  "submitted s signers now r = r\<lparr>vr_state := ISSUANCE_SUBMITTED, vr_updated_at := now,
     vr_issuance := (vr_issuance r)\<lparr>is_bundle := Some (lower (sub_bundle s)),
       is_signers := Some (canonical_json (json_ints signers)), is_voucher_launcher := Some (lower (sub_voucher_launcher s)),
       is_voucher_output := Some (lower (sub_voucher_output s)), is_payment_coin := Some (lower (sub_payment_coin s)),
       is_series_input := Some (lower (sub_series_input s)), is_series_output := Some (lower (sub_series_output s))\<rparr>\<rparr>"

definition issuance_submission_body ::
  "string \<Rightarrow> int \<Rightarrow> issuance_submission \<Rightarrow> int list \<Rightarrow> int \<Rightarrow> (presale_db, py_error, unit) body" where
  "issuance_submission_body t serial s signers now db =
     bind (update_voucher (\<lambda>r. is_voucher t serial r \<and> vr_state r = PENDING_ISSUANCE \<and> is_launcher_coin (vr_issuance r) \<noteq> None)
       (submitted s signers now) ''issuance submission requires funded PENDING_ISSUANCE state'' db) (\<lambda>db'. Inr ((), db'))"

definition record_issuance_submission ::
  "presale_api \<Rightarrow> string \<Rightarrow> int \<Rightarrow> issuance_submission \<Rightarrow> int \<Rightarrow> (presale_db, py_error, voucher_view) call" where
  "record_issuance_submission api terms_hash serial s now =
     voucher_call api terms_hash serial (\<lambda>series.
       bind (validator_signer_indices (sub_signers s)) (\<lambda>signers.
       Inr (issuance_submission_body (sv_key series) serial s signers now)))"

section \<open>Requesting a refund\<close>

fun voucher_state_text :: "voucher_state \<Rightarrow> string" where
  "voucher_state_text PENDING_ISSUANCE = ''PENDING_ISSUANCE''"
| "voucher_state_text ISSUANCE_SUBMITTED = ''ISSUANCE_SUBMITTED''"
| "voucher_state_text ESCROWED = ''ESCROWED''"
| "voucher_state_text REFUNDING = ''REFUNDING''"
| "voucher_state_text REFUNDED = ''REFUNDED''"
| "voucher_state_text REDEEMING = ''REDEEMING''"
| "voucher_state_text REDEEMED = ''REDEEMED''"

definition set_voucher_state_body ::
  "string \<Rightarrow> int \<Rightarrow> voucher_state \<Rightarrow> voucher_state \<Rightarrow> int \<Rightarrow> (presale_db, py_error, unit) body" where
  "set_voucher_state_body t serial expected new now db =
     bind (update_voucher (\<lambda>r. is_voucher t serial r \<and> vr_state r = expected)
       (\<lambda>r. r\<lparr>vr_state := new, vr_updated_at := now\<rparr>)
       (''voucher transition requires '' @ voucher_state_text expected @ '' state'') db) (\<lambda>db'. Inr ((), db'))"

text \<open>The state a voucher has before its refund: \<open>REDEEMING\<close> in a live series.\<close>

definition refundable_state :: "series_view \<Rightarrow> voucher_state" where
  "refundable_state series = (if sv_state series = LIVE then REDEEMING else ESCROWED)"

definition refund_allowed :: "series_view \<Rightarrow> voucher_view \<Rightarrow> string \<Rightarrow> int \<Rightarrow> py_error + unit" where
  "refund_allowed series voucher vault now =
     raise_if (vr_state (vv_row voucher) \<noteq> refundable_state series)
       (ValueError ''voucher is not refundable in its current state'')
    (bind (if sv_state series = PRESALE
           then bind (bind (py_index (sv_terms series) ''refundDeadline'') py_int) (\<lambda>d.
                raise_if (d \<le> now) (ValueError ''voucher refund deadline has passed'') (Inr ()))
           else Inr ()) (\<lambda>_.
     raise_if (sv_state series = LIVE \<and> now < (case sv_delivery_deadline series of None \<Rightarrow> 0 | Some d \<Rightarrow> d))
       (ValueError ''voucher delivery window has not expired'')
    (raise_if (vt_vault (vr_terms (vv_row voucher)) \<noteq> lower vault)
       (ValueError ''refund session does not own this voucher'') (Inr ()))))"

text \<open>Only a Base voucher moves; the two clock readings of the call are taken as one.\<close>

definition request_refund ::
  "presale_api \<Rightarrow> string \<Rightarrow> int \<Rightarrow> string \<Rightarrow> int option \<Rightarrow> int \<Rightarrow> (presale_db, py_error, voucher_view) call" where
  "request_refund api terms_hash serial vault now_seconds clock db =
     (case bind (get_presale api db terms_hash) (\<lambda>(series, _).
            bind (voucher_view_of api db (ps_terms_hash (sv_row series)) serial) (\<lambda>voucher.
            bind (refund_allowed series voucher vault (now_or now_seconds clock)) (\<lambda>_. Inr (series, voucher)))) of
        Inl e \<Rightarrow> (Inl e, db)
      | Inr (series, voucher) \<Rightarrow>
          txn_then (\<lambda>db. if vr_rail (vv_row voucher) = BASE_SEPOLIA_USDC
                 then set_voucher_state_body (sv_key series) serial (refundable_state series) REFUNDING clock db
                 else Inr ((), db))
            (\<lambda>_ db'. voucher_view_of api db' (ps_terms_hash (sv_row series)) serial) db)"

section \<open>Binding a Stripe terminal execution\<close>

text \<open>The fee coin and the fee of a terminal execution; every failure of the reads is one \<open>ValueError\<close>.\<close>

definition fee_binding :: "json \<Rightarrow> py_error + string \<times> int" where
  "fee_binding prepared =
     (case bind (bind (py_index prepared ''feeMojos'') py_int) (\<lambda>fee.
           bind (bind (py_index prepared ''feeCoinId'') (\<lambda>v. hex32_nonzero (b32_text v))) (\<lambda>coin.
           bind (bind (py_index prepared ''spendBundleId'') (\<lambda>v. hex32_nonzero (b32_text v))) (\<lambda>_. Inr (coin, fee)))) of
        Inl _ \<Rightarrow> Inl (ValueError ''Stripe terminal execution fee binding is invalid'')
      | Inr x \<Rightarrow> Inr x)"

text \<open>A mode that is a list or a dict raises a \<open>TypeError\<close> in the set lookup of the code, here the \<open>ValueError\<close> of an unknown mode.\<close>

definition checked_terminal :: "(string \<times> json) list \<Rightarrow> py_error + string \<times> int" where
  "checked_terminal execution =
     raise_if (get_or_null execution ''schema'' \<noteq> JStr ''solslot.stripe-voucher-terminal-execution.v1'')
       (ValueError ''Stripe terminal execution schema is invalid'')
    (raise_if (get_or_null execution ''mode'' \<notin> {JStr ''REDEEM'', JStr ''REFUND_EXPIRED'', JStr ''REFUND_OWNER''})
       (ValueError ''Stripe terminal execution mode is invalid'')
    (case get_or_null execution ''prepared'' of
       JObj prepared \<Rightarrow>
         bind (fee_binding (JObj prepared)) (\<lambda>(coin, fee).
         raise_if (fee < 0) (ValueError ''Stripe terminal execution fee cannot be negative'') (Inr (coin, fee)))
     | _ \<Rightarrow> Inl (ValueError ''Stripe terminal execution bundle is missing'')))"

text \<open>Another Stripe terminal spend that is active in the series.\<close>

definition active_terminal :: "string \<Rightarrow> voucher_row \<Rightarrow> bool" where
  "active_terminal t r \<longleftrightarrow> vr_terms_hash r = t \<and> tm_execution (vr_terminal r) \<noteq> None \<and>
     vr_state r \<in> {ESCROWED, REDEEMING, REFUNDING}"

definition bind_terminal_body ::
  "string \<Rightarrow> string \<Rightarrow> int \<Rightarrow> json \<Rightarrow> string \<Rightarrow> int \<Rightarrow> int \<Rightarrow> (presale_db, py_error, unit) body" where
  "bind_terminal_body terms t serial execution coin fee now db =
     bind (pending_campaign_operation db terms) (\<lambda>pending.
     raise_if (pending \<noteq> None) (ValueError ''Voucher terminal execution cannot compete with retained campaign work'')
    (let encoded = canonical_json execution in
     case voucher_at db t serial of
       None \<Rightarrow> Inl (KeyError (show_int serial))
     | Some row \<Rightarrow>
         raise_if (vr_rail row \<noteq> STRIPE_USD \<or> vr_state row \<notin> {ESCROWED, REDEEMING})
           (ValueError ''Stripe terminal execution requires an unsettled Stripe voucher'')
        (raise_if (truthy (rf_bundle (vr_refund row)) \<or> truthy (rd_bundle (vr_redemption row)))
           (ValueError ''Stripe voucher already has a submitted terminal spend'')
        (case tm_execution (vr_terminal row) of
           Some existing \<Rightarrow>
             raise_if (existing \<noteq> encoded)
               (ValueError ''Stripe voucher is already bound to another terminal execution'') (Inr ((), db))
         | None \<Rightarrow>
             raise_if (list_ex (\<lambda>r. active_terminal t r \<and> vr_serial r \<noteq> serial) (voucher_rows db))
               (ValueError ''another Stripe voucher terminal spend is already active for this singleton series'')
            (bind (update_voucher (\<lambda>r. is_voucher t serial r \<and> tm_execution (vr_terminal r) = None \<and>
                   rf_bundle (vr_refund r) = None \<and> rd_bundle (vr_redemption r) = None)
                 (\<lambda>r. r\<lparr>vr_terminal := (vr_terminal r)\<lparr>tm_execution := Some encoded, tm_fee_coin := Some coin,
                    tm_fee_mojos := Some fee\<rparr>, vr_updated_at := now\<rparr>)
                 ''Stripe terminal execution changed concurrently'' db) (\<lambda>db'. Inr ((), db')))))))"

definition bind_stripe_terminal_execution ::
  "presale_api \<Rightarrow> string \<Rightarrow> int \<Rightarrow> (string \<times> json) list \<Rightarrow> int \<Rightarrow> (presale_db, py_error, voucher_view) call" where
  "bind_stripe_terminal_execution api terms_hash serial execution now db =
     (case bind (checked_terminal execution) (\<lambda>(coin, fee).
            bind (get_presale api db terms_hash) (\<lambda>(series, _). Inr (series, coin, fee))) of
        Inl e \<Rightarrow> (Inl e, db)
      | Inr (series, coin, fee) \<Rightarrow>
          txn_then (bind_terminal_body (ps_terms_hash (sv_row series)) (sv_key series) serial (JObj execution) coin fee now)
            (\<lambda>_ db'. voucher_view_of api db' (ps_terms_hash (sv_row series)) serial) db)"

section \<open>Phases\<close>

text \<open>The columns a submission binds; the governance ids are kept as one canonical text.\<close>

record phase_submission =
  sp_target :: series_state
  sp_bundle :: string
  sp_input :: string
  sp_output :: string
  sp_output_inner :: string
  sp_anchor :: int
  sp_governance :: "string list"
  sp_cancel_reason :: "string option"

definition phase_binding :: "phase_submission \<Rightarrow> phase_cols" where
  "phase_binding s = \<lparr>ph_target = Some (sp_target s), ph_bundle = Some (lower (sp_bundle s)),
     ph_input = Some (lower (sp_input s)), ph_output = Some (lower (sp_output s)),
     ph_output_inner = Some (lower (sp_output_inner s)), ph_anchor = Some (sp_anchor s),
     ph_governance = Some (canonical_json (json_strs (map lower (sp_governance s)))), ph_submitted_at = None\<rparr>"

definition phase_submission_body :: "string \<Rightarrow> string \<Rightarrow> phase_submission \<Rightarrow> int \<Rightarrow> (presale_db, py_error, unit) body" where
  "phase_submission_body terms_hash t s now db =
     (case series_row_of db t of
        None \<Rightarrow> Inl (KeyError terms_hash)
      | Some row \<Rightarrow>
          if ph_bundle (ps_phase row) \<noteq> None \<and> (ps_phase row)\<lparr>ph_submitted_at := None\<rparr> = phase_binding s then Inr ((), db)
          else raise_if (ph_bundle (ps_phase row) \<noteq> None) (ValueError ''series phase transition is already bound'')
            (Inr ((), db\<lparr>series_rows := set_where (\<lambda>r. ps_terms_hash r = t \<and> ps_state r = PRESALE \<and> ph_bundle (ps_phase r) = None)
              (\<lambda>r. r\<lparr>ps_phase := (phase_binding s)\<lparr>ph_submitted_at := Some now\<rparr>, ps_cancel_reason := sp_cancel_reason s,
                 ps_updated_at := now\<rparr>) (series_rows db)\<rparr>)))"

definition phase_checked :: "series_view \<Rightarrow> phase_submission \<Rightarrow> py_error + unit" where
  "phase_checked series s =
     raise_if (sv_state series \<noteq> PRESALE) (ValueError ''only a PRESALE series can change phase'')
    (raise_if (sp_target s = LIVE \<and> sp_anchor s \<le> 0) (ValueError ''LIVE phase submission requires a launch anchor'')
    (raise_if (sp_target s = CANCELED \<and> (sp_anchor s \<noteq> 0 \<or> sp_governance s \<noteq> []))
       (ValueError ''CANCELED phase submission cannot carry launch evidence'')
    (raise_if (cs_coin (ps_chain (sv_row series)) \<noteq> Some (lower (sp_input s)))
       (ValueError ''phase submission does not spend the current series coin'') (Inr ()))))"

definition record_phase_submission ::
  "presale_api \<Rightarrow> string \<Rightarrow> phase_submission \<Rightarrow> int \<Rightarrow> (presale_db, py_error, series_view \<times> voucher_view list) call" where
  "record_phase_submission api terms_hash s now db =
     (case bind (get_presale api db terms_hash) (\<lambda>(series, _). bind (phase_checked series s) (\<lambda>_. Inr series)) of
        Inl e \<Rightarrow> (Inl e, db)
      | Inr series \<Rightarrow> txn_then (phase_submission_body terms_hash (sv_key series) s now)
            (\<lambda>_ db'. get_presale api db' (ps_terms_hash (sv_row series))) db)"

record VoucherSeriesPhaseChainEvidence =
  vp_evidence_id :: string
  vp_bundle :: string
  vp_target :: series_state
  vp_series :: series_spend
  vp_anchor :: int
  vp_height :: int

definition phase_matches :: "VoucherSeriesPhaseChainEvidence \<Rightarrow> phase_cols \<Rightarrow> bool" where
  "phase_matches e c \<longleftrightarrow> ph_target c = Some (vp_target e) \<and> ph_bundle c = Some (lower (vp_bundle e)) \<and>
     ph_input c = Some (lower (ss_input (vp_series e))) \<and> ph_output c = Some (lower (ss_output (vp_series e))) \<and>
     ph_output_inner c = Some (lower (ss_output_inner (vp_series e))) \<and> ph_anchor c = Some (vp_anchor e)"

text \<open>\<open>x\<close> as a condition, for a decoded value.\<close>

fun py_truthy :: "json \<Rightarrow> bool" where
  "py_truthy JNull = False"
| "py_truthy (JBool b) = b"
| "py_truthy (JInt i) = (i \<noteq> 0)"
| "py_truthy (JStr s) = (s \<noteq> [])"
| "py_truthy (JArr vs) = (vs \<noteq> [])"
| "py_truthy (JObj d) = (d \<noteq> [])"

definition phase_changed ::
  "VoucherSeriesPhaseChainEvidence \<Rightarrow> string option \<Rightarrow> string option \<Rightarrow> int \<Rightarrow> series_row \<Rightarrow> series_row" where
  "phase_changed e governance_id inner now r =
     (advance_chain (vp_series e) inner now r)\<lparr>ps_state := vp_target e,
       ps_launched_at := (if vp_target e = LIVE then Some (vp_anchor e) else None),
       ps_launch_evidence := Some (vp_evidence_id e), ps_governance_execution := governance_id,
       ps_phase_height := Some (vp_height e)\<rparr>"

text \<open>\<open>UPDATE voucher_records_v2 SET state='REDEEMING' WHERE terms_hash=? AND state='ESCROWED'\<close>\<close>

definition start_redeeming :: "string \<Rightarrow> int \<Rightarrow> voucher_row list \<Rightarrow> voucher_row list" where
  "start_redeeming t now = set_where (\<lambda>r. vr_terms_hash r = t \<and> vr_state r = ESCROWED)
     (\<lambda>r. r\<lparr>vr_state := REDEEMING, vr_updated_at := now\<rparr>)"

definition confirm_phase_body ::
  "presale_api \<Rightarrow> string \<Rightarrow> string \<Rightarrow> string \<Rightarrow> VoucherSeriesPhaseChainEvidence \<Rightarrow> int \<Rightarrow> (presale_db, py_error, unit) body" where
  "confirm_phase_body api terms_hash terms t e now db =
     (case series_row_of db t of
        None \<Rightarrow> Inl (KeyError terms_hash)
      | Some row \<Rightarrow>
          raise_if (ps_state row \<noteq> PRESALE \<or> \<not> phase_matches e (ps_phase row))
            (ValueError ''phase confirmation differs from submitted transition'')
         (raise_if (cs_coin (ps_chain row) \<noteq> Some (lower (ss_input (vp_series e))))
            (ValueError ''phase confirmation does not spend current series coin'')
         (bind (loads_or (JArr []) (ph_governance (ps_phase row))) (\<lambda>ids.
          let governance_id = (if py_truthy ids then Some (digest (chia api) ids) else None) in
          bind (update_series (\<lambda>r. at_coin t (vp_series e) r \<and> ps_state r = PRESALE \<and>
                 ph_bundle (ps_phase r) = Some (lower (vp_bundle e)))
               (phase_changed e governance_id (cs_inner (ps_chain row)) now)
               ''series state changed during phase confirmation'' db) (\<lambda>db1.
          bind (campaign_operation db1 terms ''phase'') (\<lambda>operation.
          bind (if operation = None then Inr ((), db1)
                else confirm_operation_body terms ''phase'' (JInt (vp_height e)) db1) (\<lambda>(_, db2).
          Inr ((), if vp_target e = LIVE then db2\<lparr>voucher_rows := start_redeeming t now (voucher_rows db2)\<rparr> else db2))))))))"

text \<open>The result without the vouchers is that of \<open>include_vouchers=False\<close>.\<close>

definition confirm_phase_transition ::
  "presale_api \<Rightarrow> string \<Rightarrow> VoucherSeriesPhaseChainEvidence \<Rightarrow> bool \<Rightarrow> int \<Rightarrow>
   (presale_db, py_error, series_view \<times> voucher_view list) call" where
  "confirm_phase_transition api terms_hash e include_vouchers now db =
     (case get_series api db terms_hash of
        Inl x \<Rightarrow> (Inl x, db)
      | Inr series \<Rightarrow> txn_then (confirm_phase_body api terms_hash (ps_terms_hash (sv_row series)) (sv_key series) e now)
            (\<lambda>_ db'. if include_vouchers then get_presale api db' (ps_terms_hash (sv_row series))
                     else bind (get_series api db' (ps_terms_hash (sv_row series))) (\<lambda>v. Inr (v, []))) db)"

end
