(* ===== verification/PresaleTerminal.thy ===== *)
theory PresaleTerminal
  imports PresaleProgress
begin

text \<open>
  \<open>PresaleStore\<close> in \<open>src/solslot_api/presale_endpoints.py\<close>, continued: refunds and redemptions are bound to a
  submitted spend and recorded as final once the spend of the current series coin is confirmed; a Base
  settlement and a Stripe refund are authorized in the transaction that records the confirmation.
\<close>

section \<open>Refund submissions\<close>

record refund_submission =
  rq_bundle :: string
  rq_terminal :: string
  rq_series_input :: string
  rq_series_output :: string
  rq_vault_input :: "string option"
  rq_vault_output :: "string option"

text \<open>The columns of a submission, and the part of them that each rail compares: evidence, height and
  time are never compared, the refund output for the native rail alone, the vault for native and Stripe.\<close>

definition refund_binding :: "int \<Rightarrow> string option \<Rightarrow> refund_submission \<Rightarrow> refund_cols" where
  "refund_binding action refund_output s = no_refund\<lparr>rf_action := Some action, rf_bundle := Some (lower (rq_bundle s)),
     rf_output := refund_output, rf_terminal := Some (lower (rq_terminal s)),
     rf_series_input := Some (lower (rq_series_input s)), rf_series_output := Some (lower (rq_series_output s)),
     rf_vault_input := opt_lower (rq_vault_input s), rf_vault_output := opt_lower (rq_vault_output s)\<rparr>"

definition native_part :: "refund_cols \<Rightarrow> refund_cols" where
  "native_part c = c\<lparr>rf_evidence := None, rf_submitted_at := None, rf_height := None\<rparr>"

definition stripe_part :: "refund_cols \<Rightarrow> refund_cols" where
  "stripe_part c = (native_part c)\<lparr>rf_output := None\<rparr>"

definition base_part :: "refund_cols \<Rightarrow> refund_cols" where
  "base_part c = (stripe_part c)\<lparr>rf_vault_input := None, rf_vault_output := None\<rparr>"

definition deadline_passed :: "series_view \<Rightarrow> int \<Rightarrow> bool" where
  "deadline_passed series now \<longleftrightarrow> (case sv_delivery_deadline series of None \<Rightarrow> 0 | Some d \<Rightarrow> d) \<le> now"

text \<open>An automatic refund needs an expired live series and no vault, an owner's refund needs the vault.\<close>

definition refund_action_checked ::
  "presale_api \<Rightarrow> string \<Rightarrow> string \<Rightarrow> series_view \<Rightarrow> int \<Rightarrow> string option \<Rightarrow> string option \<Rightarrow> int \<Rightarrow> py_error + unit" where
  "refund_action_checked api automatic invalid series action vault_input vault_output now =
     (if action = action_expired api
      then raise_if (\<not> (sv_state series = LIVE \<and> deadline_passed series now))
             (ValueError (automatic @ '' refund requires an expired LIVE series''))
          (raise_if (vault_input \<noteq> None \<or> vault_output \<noteq> None)
             (ValueError ''automatic refund cannot carry a vault co-spend'') (Inr ()))
      else if action = action_presale api \<or> action = action_canceled api
      then raise_if (vault_input = None \<or> vault_output = None)
             (ValueError ''owner refund requires exact vault chain bindings'') (Inr ())
      else Inl (ValueError (invalid @ '' refund action is invalid'')))"

definition current_coin_is :: "series_view \<Rightarrow> string \<Rightarrow> bool" where
  "current_coin_is series coin \<longleftrightarrow> cs_coin (ps_chain (sv_row series)) = Some (lower coin)"

definition native_refund_body ::
  "series_view \<Rightarrow> int \<Rightarrow> int \<Rightarrow> string \<Rightarrow> refund_submission \<Rightarrow> int \<Rightarrow> (presale_db, py_error, unit) body" where
  "native_refund_body series serial action refund_output s now db =
     (let t = sv_key series; normalized = refund_binding action (Some (lower refund_output)) s;
          expected = refundable_state series in
      bind (pending_campaign_operation db (ps_terms_hash (sv_row series))) (\<lambda>pending.
      raise_if (pending \<noteq> None) (ValueError ''Voucher terminal execution cannot compete with retained campaign work'')
     (case voucher_at db t serial of
        None \<Rightarrow> Inl (KeyError (show_int serial))
      | Some row \<Rightarrow>
          raise_if (vr_rail row \<noteq> CHIA_XCH) (ValueError ''native refund submission requires an XCH voucher'')
         (if vr_state row = REFUNDING \<and> native_part (vr_refund row) = normalized then Inr ((), db)
          else raise_if (vr_state row \<noteq> expected \<or> native_part (vr_refund row) \<noteq> no_refund)
                 (ValueError ''native voucher refund is already bound'')
              (raise_if (\<not> current_coin_is series (rq_series_input s))
                 (ValueError ''refund does not spend the current series coin'')
              (bind (update_voucher (\<lambda>r. is_voucher t serial r \<and> vr_state r = expected)
                   (\<lambda>r. r\<lparr>vr_state := REFUNDING, vr_updated_at := now,
                      vr_refund := normalized\<lparr>rf_evidence := rf_evidence (vr_refund r), rf_height := rf_height (vr_refund r),
                        rf_submitted_at := Some now\<rparr>\<rparr>)
                   ''native refund submission requires ESCROWED state'' db) (\<lambda>db'. Inr ((), db'))))))))"

definition record_native_refund_submission ::
  "presale_api \<Rightarrow> string \<Rightarrow> int \<Rightarrow> int \<Rightarrow> string \<Rightarrow> refund_submission \<Rightarrow> int \<Rightarrow> (presale_db, py_error, voucher_view) call" where
  "record_native_refund_submission api terms_hash serial action refund_output s now =
     voucher_call api terms_hash serial (\<lambda>series.
       bind (refund_action_checked api ''automatic'' ''native'' series action (rq_vault_input s) (rq_vault_output s) now) (\<lambda>_.
       Inr (native_refund_body series serial action refund_output s now)))"

definition base_refund_body ::
  "series_view \<Rightarrow> int \<Rightarrow> int \<Rightarrow> string \<Rightarrow> refund_submission \<Rightarrow> int \<Rightarrow> (presale_db, py_error, unit) body" where
  "base_refund_body series serial action evidence_hash s now db =
     (let t = sv_key series; normalized = base_part (refund_binding action None s) in
      case voucher_at db t serial of
        None \<Rightarrow> Inl (KeyError (show_int serial))
      | Some row \<Rightarrow>
          if vr_state row = REFUNDING \<and> base_part (vr_refund row) = normalized \<and>
             tm_evidence_hash (vr_terminal row) = Some (lower evidence_hash)
          then Inr ((), db)
          else raise_if (vr_rail row \<noteq> BASE_SEPOLIA_USDC \<or> vr_state row \<noteq> REDEEMING)
                 (ValueError ''Base automatic refund requires a REDEEMING USDC voucher'')
              (raise_if (base_part (vr_refund row) \<noteq> no_refund) (ValueError ''Base voucher refund is already bound'')
              (raise_if (tm_evidence_hash (vr_terminal row) \<notin> {None, Some (lower evidence_hash)})
                 (ValueError ''Base settlement evidence changed'')
              (raise_if (\<not> current_coin_is series (rq_series_input s))
                 (ValueError ''refund does not spend the current series coin'')
              (bind (update_voucher (\<lambda>r. is_voucher t serial r \<and> vr_state r = REDEEMING)
                   (\<lambda>r. r\<lparr>vr_state := REFUNDING, vr_updated_at := now,
                      vr_refund := (vr_refund r)\<lparr>rf_action := rf_action normalized, rf_bundle := rf_bundle normalized,
                        rf_terminal := rf_terminal normalized, rf_series_input := rf_series_input normalized,
                        rf_series_output := rf_series_output normalized, rf_submitted_at := Some now\<rparr>,
                      vr_terminal := (vr_terminal r)\<lparr>tm_evidence_hash := Some (lower evidence_hash)\<rparr>\<rparr>)
                   ''series changed during Base refund submission'' db) (\<lambda>db'. Inr ((), db')))))))"

definition record_base_expired_refund_submission ::
  "presale_api \<Rightarrow> string \<Rightarrow> int \<Rightarrow> string \<Rightarrow> refund_submission \<Rightarrow> int \<Rightarrow> (presale_db, py_error, voucher_view) call" where
  "record_base_expired_refund_submission api terms_hash serial evidence_hash s now =
     voucher_call api terms_hash serial (\<lambda>series.
       raise_if (\<not> (sv_state series = LIVE \<and> deadline_passed series now))
         (ValueError ''Base automatic refund requires an expired LIVE series'')
         (Inr (base_refund_body series serial (action_expired api) evidence_hash s now)))"

text \<open>
  \<open>exact_execution.get("prepared", {}).get("spendBundleId", "").lower()\<close>; an attribute that the decoded
  value does not have raises, here as \<open>TypeError\<close>.
\<close>

definition executed_bundle :: "string \<Rightarrow> py_error + string" where
  "executed_bundle encoded =
     bind (py_loads encoded) (\<lambda>v.
     case v of
       JObj d \<Rightarrow>
         (case (case map_of d ''prepared'' of None \<Rightarrow> JObj [] | Some p \<Rightarrow> p) of
            JObj p \<Rightarrow> (case map_of p ''spendBundleId'' of
                None \<Rightarrow> Inr [] | Some (JStr s) \<Rightarrow> Inr (lower s) | Some _ \<Rightarrow> Inl TypeError)
          | _ \<Rightarrow> Inl TypeError)
     | _ \<Rightarrow> Inl TypeError)"

text \<open>A Stripe terminal spend must be the one its persisted execution names.\<close>

definition bound_execution :: "voucher_row \<Rightarrow> string \<Rightarrow> string \<Rightarrow> string \<Rightarrow> py_error + unit" where
  "bound_execution row bundle missing changed =
     (case tm_execution (vr_terminal row) of
        None \<Rightarrow> Inl (ValueError missing)
      | Some encoded \<Rightarrow>
          raise_if (encoded = []) (ValueError missing)
         (bind (executed_bundle encoded) (\<lambda>b. raise_if (b \<noteq> bundle) (ValueError changed) (Inr ()))))"

definition stripe_refund_body ::
  "series_view \<Rightarrow> int \<Rightarrow> int \<Rightarrow> voucher_state \<Rightarrow> string \<Rightarrow> int \<Rightarrow> refund_submission \<Rightarrow> int \<Rightarrow>
   (presale_db, py_error, unit) body" where
  "stripe_refund_body series serial action expected evidence_hash observed_at s now db =
     (let t = sv_key series; normalized = refund_binding action None s in
      case voucher_at db t serial of
        None \<Rightarrow> Inl (KeyError (show_int serial))
      | Some row \<Rightarrow>
          if vr_state row = REFUNDING \<and> stripe_part (vr_refund row) = normalized \<and>
             tm_evidence_hash (vr_terminal row) = Some (lower evidence_hash)
          then Inr ((), db)
          else raise_if (vr_rail row \<noteq> STRIPE_USD \<or> vr_state row \<noteq> expected)
                 (ValueError ''Stripe refund requires the exact unspent voucher state'')
              (bind (bound_execution row (lower (rq_bundle s)) ''Stripe refund has no persisted exact KoS execution''
                   ''Stripe refund bundle differs from its exact KoS binding'') (\<lambda>_.
               raise_if (stripe_part (vr_refund row) \<noteq> no_refund \<or> tm_evidence_hash (vr_terminal row) \<noteq> None \<or>
                   tm_observed_at (vr_terminal row) \<noteq> None)
                 (ValueError ''Stripe voucher refund is already bound'')
              (raise_if (\<not> current_coin_is series (rq_series_input s))
                 (ValueError ''refund does not spend the current series coin'')
              (bind (update_voucher (\<lambda>r. is_voucher t serial r \<and> vr_state r = expected)
                   (\<lambda>r. r\<lparr>vr_state := REFUNDING, vr_updated_at := now,
                      vr_refund := normalized\<lparr>rf_evidence := rf_evidence (vr_refund r), rf_height := rf_height (vr_refund r),
                        rf_output := rf_output (vr_refund r), rf_submitted_at := Some now\<rparr>,
                      vr_terminal := (vr_terminal r)\<lparr>tm_evidence_hash := Some (lower evidence_hash),
                        tm_observed_at := Some observed_at\<rparr>\<rparr>)
                   ''series changed during Stripe refund submission'' db) (\<lambda>db'. Inr ((), db')))))))"

definition record_stripe_refund_submission ::
  "presale_api \<Rightarrow> string \<Rightarrow> int \<Rightarrow> int \<Rightarrow> string \<Rightarrow> int \<Rightarrow> refund_submission \<Rightarrow> int \<Rightarrow>
   (presale_db, py_error, voucher_view) call" where
  "record_stripe_refund_submission api terms_hash serial action evidence_hash observed_at s now =
     voucher_call api terms_hash serial (\<lambda>series.
       bind (refund_action_checked api ''Stripe automatic'' ''Stripe'' series action (rq_vault_input s) (rq_vault_output s) now) (\<lambda>_.
       Inr (stripe_refund_body series serial action
         (if action = action_expired api then REDEEMING else refundable_state series) evidence_hash observed_at s now)))"

section \<open>Settlement authorizations\<close>

text \<open>\<open>_insert_base_settlement_authorization\<close>: the payload binds the voucher, the payment and the spends.\<close>

definition base_payload ::
  "voucher_row \<Rightarrow> series_row \<Rightarrow> settlement_outcome \<Rightarrow> json \<Rightarrow> string \<Rightarrow> json \<Rightarrow> (string \<Rightarrow> json) \<Rightarrow> json" where
  "base_payload v s outcome commitment commitment_hash_text chain_evidence field =
     JObj [(''schema'', JStr ''solslot.base-voucher-settlement-authorization.v2''), (''outcome'', JStr (outcome_text outcome)),
       (''globalPaymentId'', JStr (vt_payment_id (vr_terms v))), (''purchaseId'', JStr (vt_purchase_id (vr_terms v))),
       (''purchaseArtifactHash'', field ''purchaseArtifactHash''), (''voucherCommitmentHash'', JStr commitment_hash_text),
       (''termsHash'', JStr (ps_terms_hash s)), (''seriesSingletonId'', JStr (ps_singleton_id s)),
       (''collectionId'', field ''collectionId''), (''metadataRoot'', field ''metadataRoot''),
       (''allocationRoot'', field ''allocationRoot''), (''serial'', JInt (vr_serial v)),
       (''voucherLauncherId'', json_opt_str (is_voucher_launcher (vr_issuance v))),
       (''deedLauncherId'', JStr (vt_deed (vr_terms v))), (''vaultLauncherId'', JStr (vt_vault (vr_terms v))),
       (''vaultP2PuzzleHash'', JStr (vt_vault_p2 (vr_terms v))), (''originalPayer'', JStr (vt_payer (vr_terms v))),
       (''payment'', JObj [(''rail'', JStr ''BASE_SEPOLIA_USDC''), (''chainId'', field ''paymentChainId''),
          (''assetId'', field ''paymentAssetId''), (''assetDecimals'', field ''paymentAssetDecimals''),
          (''escrowContract'', field ''externalEscrowContract''), (''principal'', JInt (vt_principal (vr_terms v))),
          (''evidenceHash'', json_opt_str (tm_evidence_hash (vr_terminal v)))]),
       (''chia'', chain_evidence)]"

definition payload_fields :: "string list" where
  "payload_fields = [''purchaseArtifactHash'', ''collectionId'', ''metadataRoot'', ''allocationRoot'', ''paymentChainId'',
     ''paymentAssetId'', ''paymentAssetDecimals'', ''externalEscrowContract'']"

definition settlement_payload ::
  "presale_api \<Rightarrow> series_row \<Rightarrow> voucher_row \<Rightarrow> settlement_outcome \<Rightarrow> json \<Rightarrow> py_error + json" where
  "settlement_payload api s v outcome chain_evidence =
     bind (py_loads (vt_commitment_json (vr_terms v))) (\<lambda>commitment.
     bind (or_raise ''invalid voucher commitment'' (commitment_hash api commitment)) (\<lambda>h.
     bind (map_result (py_index commitment) payload_fields) (\<lambda>values.
     Inr (base_payload v s outcome commitment h chain_evidence (get_or_null (zip payload_fields values))))))"

definition insert_base_settlement_authorization ::
  "presale_api \<Rightarrow> series_row \<Rightarrow> voucher_row \<Rightarrow> settlement_outcome \<Rightarrow> json \<Rightarrow> int \<Rightarrow> presale_db \<Rightarrow> py_error + presale_db" where
  "insert_base_settlement_authorization api s v outcome chain_evidence now db =
     raise_if (vr_rail v \<noteq> BASE_SEPOLIA_USDC)
       (ValueError ''only Base Sepolia USDC vouchers have external settlement authorization'')
    (bind (settlement_payload api s v outcome chain_evidence) (\<lambda>payload.
     let h = digest (chia api) payload; encoded = canonical_json payload in
     case lookup ba_payment_id (vt_payment_id (vr_terms v)) (base_auths db) of
       Some existing \<Rightarrow>
         raise_if (ba_hash existing \<noteq> h \<or> ba_json existing \<noteq> encoded)
           (ValueError ''Base payment is already bound to different settlement evidence'') (Inr db)
     | None \<Rightarrow>
         bind (insert_row base_auth_clash
             \<lparr>ba_id = h, ba_payment_id = vt_payment_id (vr_terms v), ba_terms_hash = lower (ps_terms_hash s),
              ba_serial = vr_serial v, ba_outcome = outcome, ba_hash = h, ba_json = encoded, ba_state = PENDING,
              ba_created_at = now, ba_relayed_at = None, ba_evidence = None\<rparr> (base_auths db)) (\<lambda>rows.
         Inr (db\<lparr>base_auths := rows\<rparr>))))"

text \<open>\<open>_render_base_settlement_authorization\<close>: a stored payload that does not hash to its id raises.\<close>

record base_auth_view =
  bv_row :: base_auth_row
  bv_authorization :: json
  bv_evidence :: json

definition render_base_auth :: "presale_api \<Rightarrow> base_auth_row \<Rightarrow> py_error + base_auth_view" where
  "render_base_auth api row =
     bind (py_loads (ba_json row)) (\<lambda>authorization.
     let expected = digest (chia api) authorization in
     raise_if (ba_id row \<noteq> expected \<or> ba_hash row \<noteq> expected)
       (ValueError ''stored Base settlement authorization is corrupt'')
    (bind (loads_or JNull (ba_evidence row)) (\<lambda>evidence.
     Inr \<lparr>bv_row = row, bv_authorization = authorization, bv_evidence = evidence\<rparr>)))"

definition base_settlement_authorization :: "presale_api \<Rightarrow> presale_db \<Rightarrow> string \<Rightarrow> py_error + base_auth_view" where
  "base_settlement_authorization api db authorization_id =
     (case lookup ba_id (lower authorization_id) (base_auths db) of
        None \<Rightarrow> Inl (KeyError authorization_id) | Some row \<Rightarrow> render_base_auth api row)"

definition base_settlement_authorization_by_payment :: "presale_api \<Rightarrow> presale_db \<Rightarrow> string \<Rightarrow> py_error + base_auth_view" where
  "base_settlement_authorization_by_payment api db payment_id =
     (case lookup ba_payment_id (lower payment_id) (base_auths db) of
        None \<Rightarrow> Inl (KeyError payment_id) | Some row \<Rightarrow> render_base_auth api row)"

definition pending_base_settlement_authorizations :: "presale_api \<Rightarrow> presale_db \<Rightarrow> int \<Rightarrow> py_error + base_auth_view list" where
  "pending_base_settlement_authorizations api db limit =
     raise_if (limit < 1 \<or> 500 < limit) (ValueError ''settlement authorization limit must be 1 through 500'')
       (map_result (render_base_auth api)
         (order_limit (\<lambda>r. (ba_created_at r, ba_id r)) limit (filter (\<lambda>r. ba_state r = PENDING) (base_auths db))))"

text \<open>\<open>evidence\<close> is the dict of the relay evidence.\<close>

definition relay_body :: "string \<Rightarrow> json \<Rightarrow> int \<Rightarrow> (presale_db, py_error, unit) body" where
  "relay_body authorization_id evidence now db =
     (let i = lower authorization_id; encoded = canonical_json evidence in
      case lookup ba_id i (base_auths db) of
        None \<Rightarrow> Inl (KeyError authorization_id)
      | Some row \<Rightarrow>
          if ba_state row = RELAYED
          then raise_if (ba_evidence row \<noteq> Some encoded)
                 (ValueError ''settlement authorization has different relay evidence'') (Inr ((), db))
          else raise_if (rowcount (\<lambda>r. ba_id r = i \<and> ba_state r = PENDING) (base_auths db) \<noteq> 1)
                 (ValueError ''settlement authorization changed during relay acknowledgement'')
              (Inr ((), db\<lparr>base_auths := set_where (\<lambda>r. ba_id r = i \<and> ba_state r = PENDING)
                 (\<lambda>r. r\<lparr>ba_state := RELAYED, ba_relayed_at := Some now, ba_evidence := Some encoded\<rparr>) (base_auths db)\<rparr>)))"

definition record_base_settlement_relay_evidence ::
  "presale_api \<Rightarrow> string \<Rightarrow> json \<Rightarrow> int \<Rightarrow> (presale_db, py_error, base_auth_view) call" where
  "record_base_settlement_relay_evidence api authorization_id evidence now =
     txn_then (relay_body authorization_id evidence now)
       (\<lambda>_ db'. base_settlement_authorization api db' (lower authorization_id))"

section \<open>Refund confirmations\<close>

record refund_evidence =
  re_action :: int
  re_evidence_id :: string
  re_bundle :: string
  re_terminal :: string
  re_series :: series_spend
  re_height :: int

record VoucherRefundChainEvidence = refund_evidence +
  nr_output :: string
  nr_vault_input :: "string option"
  nr_vault_output :: "string option"

record BaseVoucherRefundChainEvidence = refund_evidence +
  br_settlement_hash :: string

record StripeVoucherRefundChainEvidence = refund_evidence +
  sr_settlement_hash :: string
  sr_vault_input :: "string option"
  sr_vault_output :: "string option"

text \<open>The columns a confirmation expects, in the shape of a submission.\<close>

definition evidence_cols ::
  "'a refund_evidence_scheme \<Rightarrow> string option \<Rightarrow> string option \<Rightarrow> string option \<Rightarrow> refund_cols" where
  "evidence_cols e refund_output vault_input vault_output =
     refund_binding (re_action e) refund_output
       \<lparr>rq_bundle = re_bundle e, rq_terminal = re_terminal e, rq_series_input = ss_input (re_series e),
        rq_series_output = ss_output (re_series e), rq_vault_input = vault_input, rq_vault_output = vault_output\<rparr>"

definition refunded :: "'a refund_evidence_scheme \<Rightarrow> int \<Rightarrow> voucher_row \<Rightarrow> voucher_row" where
  "refunded e now r = r\<lparr>vr_state := REFUNDED, vr_updated_at := now,
     vr_refund := (vr_refund r)\<lparr>rf_evidence := Some (re_evidence_id e), rf_height := Some (re_height e)\<rparr>\<rparr>"

text \<open>
  The common end of the three confirmations: the evidence spends the current series coin, the voucher
  becomes \<open>REFUNDED\<close> and the series moves to its next coin with one refund more. \<open>live_only\<close> adds
  \<open>AND state='LIVE'\<close> to the update of the series.
\<close>

definition confirm_refund_updates ::
  "string \<Rightarrow> string \<Rightarrow> int \<Rightarrow> 'a refund_evidence_scheme \<Rightarrow> bool \<Rightarrow> string option \<Rightarrow> int \<Rightarrow> presale_db \<Rightarrow>
   py_error + presale_db" where
  "confirm_refund_updates what t serial e live_only inner now db =
     (let changed = ''series state changed during '' @ what @ '' confirmation'' in
      bind (update_voucher (\<lambda>r. is_voucher t serial r \<and> vr_state r = REFUNDING) (refunded e now) changed db) (\<lambda>db'.
      update_series (\<lambda>r. at_coin t (re_series e) r \<and> (live_only \<longrightarrow> ps_state r = LIVE))
        (\<lambda>r. (advance_chain (re_series e) inner now r)\<lparr>ps_refunded := ps_refunded r + 1\<rparr>) changed db'))"

definition confirm_native_refund_body ::
  "string \<Rightarrow> int \<Rightarrow> VoucherRefundChainEvidence \<Rightarrow> int \<Rightarrow> (presale_db, py_error, unit) body" where
  "confirm_native_refund_body t serial e now db =
     (case voucher_at db t serial of
        None \<Rightarrow> Inl (KeyError (show_int serial))
      | Some row \<Rightarrow>
          raise_if (vr_state row \<noteq> REFUNDING \<or>
              native_part (vr_refund row) \<noteq> evidence_cols e (Some (lower (nr_output e))) (nr_vault_input e) (nr_vault_output e))
            (ValueError ''refund evidence differs from submitted chain outputs'')
         (bind (spent_inner t (re_series e) ''refund evidence does not spend the current series coin'' db) (\<lambda>inner.
          bind (confirm_refund_updates ''refund'' t serial e False inner now db) (\<lambda>db'. Inr ((), db')))))"

text \<open>The action of the evidence: an automatic refund has no vault, an owner's refund has one.\<close>

definition evidence_action_checked ::
  "presale_api \<Rightarrow> string \<times> string \<times> string \<Rightarrow> int \<Rightarrow> bool \<Rightarrow> bool \<Rightarrow> bool \<Rightarrow> py_error + unit" where
  "evidence_action_checked api messages action any_vault no_input no_output =
     (if action = action_expired api
      then raise_if any_vault (ValueError (fst messages)) (Inr ())
      else if action = action_presale api \<or> action = action_canceled api
      then raise_if (no_input \<or> no_output) (ValueError (fst (snd messages))) (Inr ())
      else Inl (ValueError (snd (snd messages))))"

definition confirm_native_refund ::
  "presale_api \<Rightarrow> string \<Rightarrow> int \<Rightarrow> VoucherRefundChainEvidence \<Rightarrow> int \<Rightarrow> (presale_db, py_error, voucher_view) call" where
  "confirm_native_refund api terms_hash serial e now =
     voucher_call api terms_hash serial (\<lambda>series.
       bind (evidence_action_checked api (''automatic refund evidence cannot include a vault'',
          ''owner refund evidence requires a vault successor'', ''refund evidence action is invalid'') (re_action e)
          (nr_vault_input e \<noteq> None \<or> nr_vault_output e \<noteq> None)
          (nr_vault_input e = None) (nr_vault_output e = None)) (\<lambda>_.
       Inr (confirm_native_refund_body (sv_key series) serial e now)))"

definition spend_evidence :: "'a refund_evidence_scheme \<Rightarrow> voucher_row \<Rightarrow> (string \<times> json) list" where
  "spend_evidence e row =
     [(''chainEvidenceId'', JStr (re_evidence_id e)), (''spendBundleId'', JStr (lower (re_bundle e))),
      (''confirmedHeight'', JInt (re_height e)), (''terminalVoucherCoinId'', JStr (lower (re_terminal e))),
      (''seriesInputCoinId'', JStr (lower (ss_input (re_series e)))),
      (''seriesInputParentCoinId'', JStr (lower (ss_input_parent (re_series e)))),
      (''seriesOutputCoinId'', JStr (lower (ss_output (re_series e)))),
      (''seriesOutputInnerPuzzleHash'', JStr (lower (ss_output_inner (re_series e)))),
      (''voucherInputCoinId'', json_opt_str (is_voucher_output (vr_issuance row))),
      (''externalReceiptInputCoinId'', json_opt_str (is_payment_coin (vr_issuance row)))]"

definition confirm_base_refund_body ::
  "presale_api \<Rightarrow> series_row \<Rightarrow> string \<Rightarrow> int \<Rightarrow> BaseVoucherRefundChainEvidence \<Rightarrow> int \<Rightarrow> (presale_db, py_error, unit) body" where
  "confirm_base_refund_body api s t serial e now db =
     (case voucher_at db t serial of
        None \<Rightarrow> Inl (KeyError (show_int serial))
      | Some row \<Rightarrow>
          raise_if (vr_rail row \<noteq> BASE_SEPOLIA_USDC \<or> vr_state row \<noteq> REFUNDING \<or>
              base_part (vr_refund row) \<noteq> base_part (evidence_cols e None None None) \<or>
              tm_evidence_hash (vr_terminal row) \<noteq> Some (lower (br_settlement_hash e)))
            (ValueError ''Base refund evidence differs from submitted chain outputs'')
         (bind (spent_inner t (re_series e) ''Base refund evidence does not spend the current series coin'' db) (\<lambda>inner.
          bind (confirm_refund_updates ''Base refund'' t serial e True inner now db) (\<lambda>db'.
          bind (insert_base_settlement_authorization api s row REFUND (JObj (spend_evidence e row)) now db') (\<lambda>db''.
          Inr ((), db''))))))"

definition confirm_base_refund ::
  "presale_api \<Rightarrow> string \<Rightarrow> int \<Rightarrow> BaseVoucherRefundChainEvidence \<Rightarrow> int \<Rightarrow> (presale_db, py_error, voucher_view) call" where
  "confirm_base_refund api terms_hash serial e now =
     voucher_call api terms_hash serial (\<lambda>series.
       Inr (confirm_base_refund_body api (sv_row series) (sv_key series) serial e now))"

text \<open>The authorization of the fiat refund: the exact paid amount of the payment intent of the receipt.\<close>

definition stripe_authorization_body ::
  "series_row \<Rightarrow> voucher_row \<Rightarrow> refund_receipt \<Rightarrow> StripeVoucherRefundChainEvidence \<Rightarrow> (string \<times> json) list" where
  "stripe_authorization_body s row receipt e =
     [(''schema'', JStr ''solslot.stripe-voucher-refund-authorization.v1''), (''termsHash'', JStr (lower (ps_terms_hash s))),
      (''serial'', JInt (vr_serial row)), (''purchaseId'', JStr (vt_purchase_id (vr_terms row))),
      (''purchaseArtifactHash'', JStr (rr_artifact_hash receipt)), (''paymentIntentId'', JStr (rr_payment_intent_id receipt)),
      (''amountMinor'', JStr (show_int (rr_amount_minor receipt))), (''currency'', JStr ''usd''),
      (''globalPaymentId'', JStr (vt_payment_id (vr_terms row))), (''terminalBundleId'', JStr (lower (re_bundle e))),
      (''terminalEvidenceHash'', JStr (lower (sr_settlement_hash e))), (''confirmedHeight'', JInt (re_height e))]"

definition refund_receipt_of :: "presale_api \<Rightarrow> voucher_row \<Rightarrow> string \<Rightarrow> py_error + refund_receipt" where
  "refund_receipt_of api row evidence_hash =
     bind (loads_or JNull (vt_receipt_json (vr_terms row))) (\<lambda>j.
     case j of
       JObj d \<Rightarrow>
         bind (or_raise ''invalid Stripe receipt'' (receipt_of api (JObj d))) (\<lambda>receipt.
         raise_if (rr_purchase_id receipt \<noteq> vt_purchase_id (vr_terms row) \<or> rr_payment_intent_id receipt = [] \<or>
             rr_amount_minor receipt \<noteq> vt_principal (vr_terms row) \<or> rr_evidence_hash receipt \<noteq> evidence_hash)
           (ValueError ''Stripe refund receipt commitments changed'') (Inr receipt))
     | _ \<Rightarrow> Inl (ValueError ''Stripe voucher settlement receipt is missing''))"

definition new_stripe_auth ::
  "presale_api \<Rightarrow> series_row \<Rightarrow> voucher_row \<Rightarrow> refund_receipt \<Rightarrow> StripeVoucherRefundChainEvidence \<Rightarrow> int \<Rightarrow> stripe_auth_row" where
  "new_stripe_auth api s row receipt e now =
     (let body = stripe_authorization_body s row receipt e; i = digest (chia api) (JObj body) in
      \<lparr>sa_id = i, sa_terms_hash = lower (ps_terms_hash s), sa_serial = vr_serial row,
       sa_purchase_id = vt_purchase_id (vr_terms row),
       sa_json = canonical_json (JObj (body @ [(''authorizationId'', JStr i)])), sa_completed = False,
       sa_created_at = now, sa_completed_at = None, sa_completion = None\<rparr>)"

definition confirm_stripe_refund_body ::
  "presale_api \<Rightarrow> series_row \<Rightarrow> string \<Rightarrow> int \<Rightarrow> StripeVoucherRefundChainEvidence \<Rightarrow> int \<Rightarrow> (presale_db, py_error, unit) body" where
  "confirm_stripe_refund_body api s t serial e now db =
     (let evidence_hash = lower (sr_settlement_hash e) in
      case voucher_at db t serial of
        None \<Rightarrow> Inl (KeyError (show_int serial))
      | Some row \<Rightarrow>
          raise_if (vr_rail row \<noteq> STRIPE_USD \<or> vr_state row \<noteq> REFUNDING \<or>
              stripe_part (vr_refund row) \<noteq> evidence_cols e None (sr_vault_input e) (sr_vault_output e) \<or>
              tm_evidence_hash (vr_terminal row) \<noteq> Some evidence_hash)
            (ValueError ''Stripe refund evidence differs from submitted chain outputs'')
         (bind (spent_inner t (re_series e) ''Stripe refund does not spend the current series coin'' db) (\<lambda>inner.
          bind (refund_receipt_of api row evidence_hash) (\<lambda>receipt.
          bind (confirm_refund_updates ''Stripe refund'' t serial e False inner now db) (\<lambda>db'.
          bind (insert_row stripe_auth_clash (new_stripe_auth api s row receipt e now) (stripe_auths db')) (\<lambda>rows.
          Inr ((), db'\<lparr>stripe_auths := rows\<rparr>)))))))"

definition confirm_stripe_refund ::
  "presale_api \<Rightarrow> string \<Rightarrow> int \<Rightarrow> StripeVoucherRefundChainEvidence \<Rightarrow> int \<Rightarrow> (presale_db, py_error, voucher_view) call" where
  "confirm_stripe_refund api terms_hash serial e now =
     voucher_call api terms_hash serial (\<lambda>series.
       bind (evidence_action_checked api (''automatic Stripe refund cannot include a vault'',
          ''owner Stripe refund requires a vault successor'', ''Stripe refund evidence action is invalid'') (re_action e)
          (truthy (sr_vault_input e) \<or> truthy (sr_vault_output e))
          (\<not> truthy (sr_vault_input e)) (\<not> truthy (sr_vault_output e))) (\<lambda>_.
       Inr (confirm_stripe_refund_body api (sv_row series) (sv_key series) serial e now)))"

definition pending_stripe_refund_authorizations :: "presale_db \<Rightarrow> int \<Rightarrow> py_error + json list" where
  "pending_stripe_refund_authorizations db limit =
     raise_if (limit < 1 \<or> 500 < limit) (ValueError ''limit must be between 1 and 500'')
       (map_result (\<lambda>r. py_loads (sa_json r))
         (order_limit sa_created_at limit (filter (\<lambda>r. \<not> sa_completed r) (stripe_auths db))))"

text \<open>A completion as the handler validated it, with its dict.\<close>

record refund_completion =
  rc_payment_intent_id :: string
  rc_refunded_minor :: int
  rc_currency :: string
  rc_json :: json

definition complete_stripe_body ::
  "string \<Rightarrow> refund_completion \<Rightarrow> int \<Rightarrow> (presale_db, py_error, json) body" where
  "complete_stripe_body authorization_id c now db =
     (let i = lower authorization_id in
      case lookup sa_id i (stripe_auths db) of
        None \<Rightarrow> Inl (KeyError authorization_id)
      | Some row \<Rightarrow>
          bind (py_loads (sa_json row)) (\<lambda>authorization.
          bind (bind (py_index authorization ''amountMinor'') py_int) (\<lambda>expected.
          raise_any [differs (py_index authorization ''paymentIntentId'') (JStr (rc_payment_intent_id c)),
              Inr (rc_refunded_minor c \<noteq> expected), differs (py_index authorization ''currency'') (JStr (rc_currency c))]
            (ValueError ''Stripe refund completion changes the authorization'')
         (if sa_completed row
          then bind (case sa_completion row of None \<Rightarrow> Inl TypeError | Some x \<Rightarrow> py_loads x) (\<lambda>old.
               raise_if (\<not> py_eq old (rc_json c)) (ValueError ''Stripe refund completion evidence changed'')
                 (Inr (authorization, db)))
          else raise_if (rowcount (\<lambda>r. sa_id r = i \<and> \<not> sa_completed r) (stripe_auths db) \<noteq> 1)
                 (ValueError ''Stripe refund authorization changed'')
              (Inr (authorization, db\<lparr>stripe_auths := set_where (\<lambda>r. sa_id r = i \<and> \<not> sa_completed r)
                 (\<lambda>r. r\<lparr>sa_completed := True, sa_completed_at := Some now, sa_completion := Some (canonical_json (rc_json c))\<rparr>)
                 (stripe_auths db)\<rparr>))))))"

definition complete_stripe_refund_authorization ::
  "string \<Rightarrow> refund_completion \<Rightarrow> int \<Rightarrow> (presale_db, py_error, json) call" where
  "complete_stripe_refund_authorization authorization_id c now =
     txn_then (complete_stripe_body authorization_id c now)
       (\<lambda>authorization _. Inr (JObj [(''authorization'', authorization), (''state'', JStr ''COMPLETED''), (''completion'', rc_json c)]))"

end
