(* ===== verification/PresaleDelivery.thy ===== *)
theory PresaleDelivery
  imports PresaleTerminal
begin

text \<open>
  \<open>PresaleStore\<close> in \<open>src/solslot_api/presale_endpoints.py\<close>, continued: the redemption of a voucher for its
  deed, the two completions that refuse every rail of the protocol, the work lists and the deadline report.
\<close>

section \<open>Redemption submissions\<close>

record redemption_submission =
  ds_bundle :: string
  ds_treasury :: string
  ds_deed_output :: string
  ds_terminal :: string
  ds_series_input :: string
  ds_series_output :: string
  ds_deed_input :: string

definition redemption_binding :: "redemption_submission \<Rightarrow> redemption_cols" where
  "redemption_binding s = no_redemption\<lparr>rd_bundle := Some (lower (ds_bundle s)), rd_treasury := Some (lower (ds_treasury s)),
     rd_deed_output := Some (lower (ds_deed_output s)), rd_terminal := Some (lower (ds_terminal s)),
     rd_series_input := Some (lower (ds_series_input s)), rd_series_output := Some (lower (ds_series_output s)),
     rd_deed_input := Some (lower (ds_deed_input s))\<rparr>"

text \<open>The columns a submission binds, without those of the confirmation.\<close>

definition redemption_part :: "redemption_cols \<Rightarrow> redemption_cols" where
  "redemption_part c = c\<lparr>rd_submitted_at := None, rd_height := None, rd_evidence := None, rd_delivery_output := None\<rparr>"

text \<open>The rail decides on the evidence: none for XCH, settlement evidence for Base and Stripe, and for Stripe the
  observation and the binding of its terminal execution.\<close>

definition redemption_rail_checked ::
  "voucher_row \<Rightarrow> string \<Rightarrow> string option \<Rightarrow> int option \<Rightarrow> py_error + unit" where
  "redemption_rail_checked row bundle evidence_hash observed_at =
     (case vr_rail row of
        CHIA_XCH \<Rightarrow> raise_if (evidence_hash \<noteq> None)
          (ValueError ''native redemption cannot carry external settlement evidence'') (Inr ())
      | BASE_SEPOLIA_USDC \<Rightarrow> raise_if (evidence_hash = None)
          (ValueError ''external redemption requires settlement evidence'') (Inr ())
      | STRIPE_USD \<Rightarrow>
          raise_if (evidence_hash = None) (ValueError ''external redemption requires settlement evidence'')
         (raise_if (observed_at = None) (ValueError ''Stripe redemption requires KoS execution observation'')
         (bound_execution row bundle ''Stripe redemption has no persisted exact KoS execution''
            ''Stripe redemption bundle differs from its exact KoS binding'')))"

definition redemption_body ::
  "series_view \<Rightarrow> int \<Rightarrow> redemption_submission \<Rightarrow> string option \<Rightarrow> int option \<Rightarrow> int \<Rightarrow> (presale_db, py_error, unit) body" where
  "redemption_body series serial s evidence_hash observed_at now db =
     (let t = sv_key series; normalized = redemption_binding s; h = opt_lower evidence_hash in
      case voucher_at db t serial of
        None \<Rightarrow> Inl (KeyError (show_int serial))
      | Some row \<Rightarrow>
          if vr_state row = REDEEMING \<and> redemption_part (vr_redemption row) = normalized \<and>
             tm_evidence_hash (vr_terminal row) = h
          then Inr ((), db)
          else raise_if (vr_state row \<noteq> REDEEMING) (ValueError ''redemption requires a REDEEMING voucher'')
              (bind (redemption_rail_checked row (lower (ds_bundle s)) evidence_hash observed_at) (\<lambda>_.
               raise_if (redemption_part (vr_redemption row) \<noteq> no_redemption \<or> tm_evidence_hash (vr_terminal row) \<noteq> None \<or>
                   tm_observed_at (vr_terminal row) \<noteq> None) (ValueError ''voucher redemption is already bound'')
              (raise_if (\<not> current_coin_is series (ds_series_input s))
                 (ValueError ''redemption does not spend the current series coin'')
              (bind (update_voucher (\<lambda>r. is_voucher t serial r \<and> vr_state r = REDEEMING)
                   (\<lambda>r. r\<lparr>vr_updated_at := now,
                      vr_redemption := normalized\<lparr>rd_height := rd_height (vr_redemption r),
                        rd_evidence := rd_evidence (vr_redemption r),
                        rd_delivery_output := rd_delivery_output (vr_redemption r), rd_submitted_at := Some now\<rparr>,
                      vr_terminal := (vr_terminal r)\<lparr>tm_evidence_hash := h, tm_observed_at := observed_at\<rparr>\<rparr>)
                   ''series changed during redemption submission'' db) (\<lambda>db'. Inr ((), db')))))))"

definition record_redemption_submission ::
  "presale_api \<Rightarrow> string \<Rightarrow> int \<Rightarrow> redemption_submission \<Rightarrow> string option \<Rightarrow> int option \<Rightarrow> int \<Rightarrow>
   (presale_db, py_error, voucher_view) call" where
  "record_redemption_submission api terms_hash serial s evidence_hash observed_at now =
     voucher_call api terms_hash serial (\<lambda>series.
       raise_if (sv_state series \<noteq> LIVE) (ValueError ''native redemption requires a LIVE series'')
         (Inr (redemption_body series serial s evidence_hash observed_at now)))"

section \<open>Redemption confirmations\<close>

record VoucherRedemptionChainEvidence =
  de_evidence_id :: string
  de_bundle :: string
  de_treasury :: string
  de_deed_output :: string
  de_terminal :: string
  de_series :: series_spend
  de_deed_input :: string
  de_settlement_hash :: "string option"
  de_height :: int

definition redemption_cols_of :: "VoucherRedemptionChainEvidence \<Rightarrow> redemption_cols" where
  "redemption_cols_of e = redemption_binding
     \<lparr>ds_bundle = de_bundle e, ds_treasury = de_treasury e, ds_deed_output = de_deed_output e, ds_terminal = de_terminal e,
      ds_series_input = ss_input (de_series e), ds_series_output = ss_output (de_series e), ds_deed_input = de_deed_input e\<rparr>"

definition redeemed :: "VoucherRedemptionChainEvidence \<Rightarrow> int \<Rightarrow> voucher_row \<Rightarrow> voucher_row" where
  "redeemed e now r = r\<lparr>vr_state := REDEEMED, vr_updated_at := now,
     vr_redemption := (vr_redemption r)\<lparr>rd_evidence := Some (de_evidence_id e),
       rd_delivery_output := Some (lower (de_deed_output e)), rd_height := Some (de_height e)\<rparr>\<rparr>"

definition redemption_evidence :: "VoucherRedemptionChainEvidence \<Rightarrow> voucher_row \<Rightarrow> json" where
  "redemption_evidence e row = JObj
     [(''chainEvidenceId'', JStr (de_evidence_id e)), (''spendBundleId'', JStr (lower (de_bundle e))),
      (''confirmedHeight'', JInt (de_height e)), (''terminalVoucherCoinId'', JStr (lower (de_terminal e))),
      (''seriesInputCoinId'', JStr (lower (ss_input (de_series e)))),
      (''seriesInputParentCoinId'', JStr (lower (ss_input_parent (de_series e)))),
      (''seriesOutputCoinId'', JStr (lower (ss_output (de_series e)))),
      (''seriesOutputInnerPuzzleHash'', JStr (lower (ss_output_inner (de_series e)))),
      (''voucherInputCoinId'', json_opt_str (is_voucher_output (vr_issuance row))),
      (''externalReceiptInputCoinId'', json_opt_str (is_payment_coin (vr_issuance row))),
      (''deedInputCoinId'', JStr (lower (de_deed_input e))), (''deedOutputCoinId'', JStr (lower (de_deed_output e))),
      (''treasuryOutputCoinId'', JStr (lower (de_treasury e)))]"

definition confirm_redemption_body ::
  "presale_api \<Rightarrow> series_row \<Rightarrow> string \<Rightarrow> int \<Rightarrow> VoucherRedemptionChainEvidence \<Rightarrow> int \<Rightarrow> (presale_db, py_error, unit) body" where
  "confirm_redemption_body api s t serial e now db =
     (case voucher_at db t serial of
        None \<Rightarrow> Inl (KeyError (show_int serial))
      | Some row \<Rightarrow>
          raise_if ((vr_rail row = CHIA_XCH) \<noteq> (de_settlement_hash e = None))
            (ValueError ''redemption evidence does not match its payment rail'')
         (raise_if (vr_state row \<noteq> REDEEMING \<or> redemption_part (vr_redemption row) \<noteq> redemption_cols_of e \<or>
              tm_evidence_hash (vr_terminal row) \<noteq> opt_lower (de_settlement_hash e))
            (ValueError ''redemption evidence differs from submitted chain outputs'')
         (bind (spent_inner t (de_series e) ''redemption evidence does not spend the current series coin'' db) (\<lambda>inner.
          let changed = ''series state changed during redemption confirmation'' in
          bind (update_voucher (\<lambda>r. is_voucher t serial r \<and> vr_state r = REDEEMING) (redeemed e now) changed db) (\<lambda>db1.
          bind (update_series (\<lambda>r. at_coin t (de_series e) r \<and> ps_state r = LIVE)
              (\<lambda>r. (advance_chain (de_series e) inner now r)\<lparr>ps_redeemed := ps_redeemed r + 1\<rparr>) changed db1) (\<lambda>db2.
          if vr_rail row = BASE_SEPOLIA_USDC
          then bind (insert_base_settlement_authorization api s row DELIVERED (redemption_evidence e row) now db2)
                 (\<lambda>db3. Inr ((), db3))
          else Inr ((), db2)))))))"

definition confirm_redemption ::
  "presale_api \<Rightarrow> string \<Rightarrow> int \<Rightarrow> VoucherRedemptionChainEvidence \<Rightarrow> int \<Rightarrow> (presale_db, py_error, voucher_view) call" where
  "confirm_redemption api terms_hash serial e now =
     voucher_call api terms_hash serial (\<lambda>series.
       Inr (confirm_redemption_body api (sv_row series) (sv_key series) serial e now))"

section \<open>Completions without a chain proof\<close>

text \<open>
  \<open>complete_refund\<close> and \<open>complete_delivery\<close> refuse the three rails, which are all the rails a row can have,
  so the rest of the two methods is never reached.
\<close>

definition complete_refund :: "presale_api \<Rightarrow> string \<Rightarrow> int \<Rightarrow> (presale_db, py_error, voucher_view) call" where
  "complete_refund api terms_hash serial db =
     (case bind (get_presale api db terms_hash) (\<lambda>(series, _). voucher_view_of api db (ps_terms_hash (sv_row series)) serial) of
        Inl e \<Rightarrow> (Inl e, db)
      | Inr v \<Rightarrow> (Inl (ValueError ''voucher refund requires exact atomic Chia confirmation''), db))"

definition complete_delivery :: "presale_api \<Rightarrow> string \<Rightarrow> int \<Rightarrow> (presale_db, py_error, voucher_view) call" where
  "complete_delivery api terms_hash serial db =
     (case bind (get_presale api db terms_hash) (\<lambda>(series, _). voucher_view_of api db (ps_terms_hash (sv_row series)) serial) of
        Inl e \<Rightarrow> (Inl e, db)
      | Inr v \<Rightarrow> (Inl (ValueError ''voucher delivery requires exact atomic Chia confirmation''), db))"

section \<open>Work lists and reports\<close>

text \<open>The rows of a work list in the order of its query, each with its series and its voucher.\<close>

definition with_views :: "presale_api \<Rightarrow> presale_db \<Rightarrow> voucher_row list \<Rightarrow> py_error + (series_view \<times> voucher_view) list" where
  "with_views api db rows = map_result (\<lambda>r. bind (get_series api db (vr_terms_hash r)) (\<lambda>s.
     bind (voucher_view_of api db (vr_terms_hash r) (vr_serial r)) (\<lambda>v. Inr (s, v)))) rows"

definition series_state_of :: "presale_db \<Rightarrow> voucher_row \<Rightarrow> series_row option" where
  "series_state_of db r = series_row_of db (vr_terms_hash r)"

text \<open>\<open>NULL\<close> sorts before every number.\<close>

definition nulls_first :: "int option \<Rightarrow> bool \<times> int" where
  "nulls_first x = (case x of None \<Rightarrow> (False, 0) | Some i \<Rightarrow> (True, i))"

definition pending_issuance :: "presale_api \<Rightarrow> presale_db \<Rightarrow> py_error + (series_view \<times> voucher_view) list" where
  "pending_issuance api db = with_views api db
     (sort_key (\<lambda>r. (vt_created_at (vr_terms r), vr_terms_hash r, vr_serial r))
       (filter (\<lambda>r. vr_state r \<in> {PENDING_ISSUANCE, ISSUANCE_SUBMITTED} \<and>
          (case series_state_of db r of None \<Rightarrow> False | Some s \<Rightarrow> ps_state s = PRESALE \<and> ph_bundle (ps_phase s) = None))
        (voucher_rows db)))"

definition pending_refunds :: "rail \<Rightarrow> presale_api \<Rightarrow> presale_db \<Rightarrow> py_error + (series_view \<times> voucher_view) list" where
  "pending_refunds rail api db = with_views api db
     (sort_key (\<lambda>r. (nulls_first (rf_submitted_at (vr_refund r)), vr_terms_hash r, vr_serial r))
       (filter (\<lambda>r. vr_rail r = rail \<and> vr_state r = REFUNDING \<and> rf_bundle (vr_refund r) \<noteq> None) (voucher_rows db)))"

definition pending_redemptions :: "rail \<Rightarrow> presale_api \<Rightarrow> presale_db \<Rightarrow> py_error + (series_view \<times> voucher_view) list" where
  "pending_redemptions rail api db = with_views api db
     (sort_key (\<lambda>r. (vt_created_at (vr_terms r), vr_terms_hash r, vr_serial r))
       (filter (\<lambda>r. vr_rail r = rail \<and> vr_state r = REDEEMING \<and>
          (case series_state_of db r of None \<Rightarrow> False | Some s \<Rightarrow> ps_state s = LIVE \<and> ps_phase_height s \<noteq> None))
        (voucher_rows db)))"

definition pending_stripe_terminal_executions ::
  "presale_api \<Rightarrow> presale_db \<Rightarrow> py_error + (series_view \<times> voucher_view) list" where
  "pending_stripe_terminal_executions api db = with_views api db
     (sort_key (\<lambda>r. (vr_updated_at r, vr_terms_hash r, vr_serial r))
       (filter (voucher_predicate Lane_stripe_terminal) (voucher_rows db)))"

text \<open>The fee coins that unsettled Stripe terminal executions reserve.\<close>

definition pending_stripe_terminal_fee_coin_ids :: "presale_db \<Rightarrow> py_error + string list" where
  "pending_stripe_terminal_fee_coin_ids db =
     map_result (\<lambda>r. case tm_fee_coin (vr_terminal r) of
         None \<Rightarrow> Inl (ValueError ''persisted Stripe terminal execution has no fee coin binding'')
       | Some raw \<Rightarrow> hex32_nonzero raw)
       (filter (\<lambda>r. vr_rail r = STRIPE_USD \<and> tm_execution (vr_terminal r) \<noteq> None \<and> rf_height (vr_refund r) = None \<and>
          rd_height (vr_redemption r) = None) (voucher_rows db))"

definition pending_phase_transitions :: "presale_api \<Rightarrow> presale_db \<Rightarrow> py_error + (series_view \<times> voucher_view list) list" where
  "pending_phase_transitions api db = map_result (\<lambda>r. get_presale api db (ps_terms_hash r))
     (sort_key (\<lambda>r. (nulls_first (ph_submitted_at (ps_phase r)), ps_terms_hash r))
       (filter (\<lambda>r. ps_state r = PRESALE \<and> ph_bundle (ps_phase r) \<noteq> None \<and> ps_phase_height r = None) (series_rows db)))"

definition list_presales :: "presale_api \<Rightarrow> presale_db \<Rightarrow> py_error + (series_view \<times> voucher_view list) list" where
  "list_presales api db = map_result (\<lambda>r. get_presale api db (ps_terms_hash r))
     (sort_key (\<lambda>r. - ps_created_at r) (series_rows db))"

definition aggregate_counts :: "presale_db \<Rightarrow> (series_state \<Rightarrow> nat) \<times> (voucher_state \<Rightarrow> nat) \<times> nat" where
  "aggregate_counts db =
     (let vouchers = (\<lambda>s. rowcount (\<lambda>r. vr_state r = s) (voucher_rows db)) in
      (\<lambda>s. rowcount (\<lambda>r. ps_state r = s) (series_rows db), vouchers, vouchers ESCROWED))"

datatype deadline_report = Cancel_spend_required string | Expired_refunds_required string nat

text \<open>\<open>reconcile\<close> reports and changes nothing.\<close>

definition reconcile_row :: "presale_api \<Rightarrow> presale_db \<Rightarrow> int \<Rightarrow> series_row \<Rightarrow> py_error + deadline_report list" where
  "reconcile_row api db now row =
     bind (py_loads (ps_terms_json row)) (\<lambda>terms.
     bind (if ps_state row = PRESALE
           then bind (bind (py_index terms ''launchDeadline'') py_int) (\<lambda>d. Inr (d \<le> now)) else Inr False) (\<lambda>overdue.
     let n = rowcount (\<lambda>r. vr_terms_hash r = ps_terms_hash row \<and> vr_state r = REDEEMING) (voucher_rows db) in
     Inr (if overdue then [Cancel_spend_required (ps_terms_hash row)]
          else if ps_state row = LIVE \<and> (case ps_launched_at row of None \<Rightarrow> False
                 | Some launched \<Rightarrow> launched + delivery_window_seconds api \<le> now) \<and> n \<noteq> 0
          then [Expired_refunds_required (ps_terms_hash row) n] else [])))"

definition reconcile :: "presale_api \<Rightarrow> presale_db \<Rightarrow> int option \<Rightarrow> int \<Rightarrow> py_error + deadline_report list" where
  "reconcile api db now_seconds clock =
     bind (map_result (reconcile_row api db (now_or now_seconds clock))
        (filter (\<lambda>r. ps_state r = PRESALE \<or> ps_state r = LIVE) (series_rows db))) (\<lambda>rs. Inr (concat rs))"

end
