(* ===== verification/PresaleWrites.thy ===== *)
theory PresaleWrites
  imports PresaleDelivery
begin

text \<open>
  Every call of \<open>PresaleStore\<close>, on any of its three parts, is at most one guarded write of the sale tables:
  the relation \<open>sale_write\<close>. The invariants of the sale are then proved once for a kind of write.
\<close>

section \<open>Calls\<close>

datatype (plugins only: code) presale_op =
  Create json singleton_launch "json option" int
| Ingest_payment string payment_evidence "series_view \<Rightarrow> py_error + payment_intake" "int option" int
| Ingest_stripe string string "series_view \<Rightarrow> py_error + stripe_intake" int
| Native_issuance string string "series_view \<Rightarrow> py_error + payment_intake \<times> native_submission" "int option" int
| Confirm_issuance string int VoucherIssuanceChainEvidence int
| Issuance_funding string int string string string int
| Issuance_submission string int issuance_submission int
| Request_refund string int string "int option" int
| Bind_terminal string int "(string \<times> json) list" int
| Native_refund string int int string refund_submission int
| Base_refund string int string refund_submission int
| Stripe_refund string int int string int refund_submission int
| Confirm_native_refund string int VoucherRefundChainEvidence int
| Confirm_base_refund string int BaseVoucherRefundChainEvidence int
| Confirm_stripe_refund string int StripeVoucherRefundChainEvidence int
| Complete_stripe string refund_completion int
| Relay_evidence string json int
| Redemption string int redemption_submission "string option" "int option" int
| Confirm_redemption string int VoucherRedemptionChainEvidence int
| Phase_submission string phase_submission int
| Confirm_phase string VoucherSeriesPhaseChainEvidence bool int
| Complete_refund string int
| Complete_delivery string int
| Retain_campaign_phase string json json rat
| Retain_campaign_execution string string json "json option"
| Confirm_campaign string string json
| Archive_phase string json json
| Claim_work worker_lane string rat "string list"
| Finish_work job rat string
| Claim_direct string string rat
| Finish_direct string string
| Retain_execution string int json
| Confirm_execution string int string
| Refund_settlement string int json json
| Advance_stripe string int json json json bool
| Advance_native string int json json json bool

fun presale_step :: "presale_api \<Rightarrow> presale_op \<Rightarrow> presale_db \<Rightarrow> presale_db" where
  "presale_step api (Create terms launch operation now) db = snd (create api terms launch operation now db)"
| "presale_step api (Ingest_payment t e check s now) db = snd (ingest_payment api t e check s now db)"
| "presale_step api (Ingest_stripe t e check now) db = snd (ingest_stripe_payment api t e check now db)"
| "presale_step api (Native_issuance t p check s now) db = snd (record_native_issuance_submission api t p check s now db)"
| "presale_step api (Confirm_issuance t n e now) db = snd (confirm_issuance api t n e now db)"
| "presale_step api (Issuance_funding t n b c p now) db = snd (record_issuance_funding api t n b c p now db)"
| "presale_step api (Issuance_submission t n s now) db = snd (record_issuance_submission api t n s now db)"
| "presale_step api (Request_refund t n v s now) db = snd (request_refund api t n v s now db)"
| "presale_step api (Bind_terminal t n e now) db = snd (bind_stripe_terminal_execution api t n e now db)"
| "presale_step api (Native_refund t n a c s now) db = snd (record_native_refund_submission api t n a c s now db)"
| "presale_step api (Base_refund t n h s now) db = snd (record_base_expired_refund_submission api t n h s now db)"
| "presale_step api (Stripe_refund t n a h seen s now) db = snd (record_stripe_refund_submission api t n a h seen s now db)"
| "presale_step api (Confirm_native_refund t n e now) db = snd (confirm_native_refund api t n e now db)"
| "presale_step api (Confirm_base_refund t n e now) db = snd (confirm_base_refund api t n e now db)"
| "presale_step api (Confirm_stripe_refund t n e now) db = snd (confirm_stripe_refund api t n e now db)"
| "presale_step api (Complete_stripe i c now) db = snd (complete_stripe_refund_authorization i c now db)"
| "presale_step api (Relay_evidence i e now) db = snd (record_base_settlement_relay_evidence api i e now db)"
| "presale_step api (Redemption t n s h seen now) db = snd (record_redemption_submission api t n s h seen now db)"
| "presale_step api (Confirm_redemption t n e now) db = snd (confirm_redemption api t n e now db)"
| "presale_step api (Phase_submission t s now) db = snd (record_phase_submission api t s now db)"
| "presale_step api (Confirm_phase t e all now) db = snd (confirm_phase_transition api t e all now db)"
| "presale_step api (Complete_refund t n) db = snd (complete_refund api t n db)"
| "presale_step api (Complete_delivery t n) db = snd (complete_delivery api t n db)"
| "presale_step api (Retain_campaign_phase t op chain now) db = snd (retain_campaign_phase api t op chain now db)"
| "presale_step api (Retain_campaign_execution t k e x) db = snd (retain_campaign_execution api t k e x db)"
| "presale_step api (Confirm_campaign t k h) db = snd (confirm_campaign_operation t k h db)"
| "presale_step api (Archive_phase t op proof) db = snd (archive_expired_campaign_phase api t op proof db)"
| "presale_step api (Claim_work lane owner now xs) db = snd (claim_voucher_work lane owner now xs db)"
| "presale_step api (Finish_work j now status) db = snd (finish_voucher_work j now status db)"
| "presale_step api (Claim_direct t owner now) db = snd (claim_direct_voucher_work t owner now db)"
| "presale_step api (Finish_direct t owner) db = snd (finish_direct_voucher_work t owner db)"
| "presale_step api (Retain_execution t n e) db = snd (retain_voucher_execution api t n e db)"
| "presale_step api (Confirm_execution t n k) db = snd (confirm_voucher_execution t n k db)"
| "presale_step api (Refund_settlement t n x e) db = snd (record_refund_settlement api t n x e db)"
| "presale_step api (Advance_stripe t n p c x confirmed) db = snd (advance_stripe_refund_attempt api t n p c x confirmed db)"
| "presale_step api (Advance_native t n p c x confirmed) db = snd (advance_native_refund_attempt api t n p c x confirmed db)"

section \<open>Guarded writes\<close>

definition sale :: "presale_db \<Rightarrow> sale_tables" where
  "sale db = \<lparr>series_rows = series_rows db, event_rows = event_rows db, voucher_rows = voucher_rows db,
     base_auths = base_auths db, stripe_auths = stripe_auths db\<rparr>"

lemma sale_frame [simp]:
  "sale (db\<lparr>campaign_ops := a\<rparr>) = sale db" "sale (db\<lparr>campaign_inputs := b\<rparr>) = sale db"
  "sale (db\<lparr>phase_history := c\<rparr>) = sale db" "sale (db\<lparr>lane_rows := d\<rparr>) = sale db"
  "sale (db\<lparr>lease_rows := e\<rparr>) = sale db" "sale (db\<lparr>attempt_rows := f\<rparr>) = sale db"
  "sale (db\<lparr>exec_rows := g\<rparr>) = sale db" "sale (db\<lparr>settlement_rows := h\<rparr>) = sale db"
  "sale (db\<lparr>refund_history_rows := i\<rparr>) = sale db"
  by (simp_all add: sale_def)

lemma sale_update [simp]:
  "sale (db\<lparr>series_rows := a\<rparr>) = (sale db)\<lparr>series_rows := a\<rparr>"
  "sale (db\<lparr>event_rows := b\<rparr>) = (sale db)\<lparr>event_rows := b\<rparr>"
  "sale (db\<lparr>voucher_rows := c\<rparr>) = (sale db)\<lparr>voucher_rows := c\<rparr>"
  "sale (db\<lparr>base_auths := d\<rparr>) = (sale db)\<lparr>base_auths := d\<rparr>"
  "sale (db\<lparr>stripe_auths := e\<rparr>) = (sale db)\<lparr>stripe_auths := e\<rparr>"
  by (simp_all add: sale_def)

lemma sale_select [simp]:
  "series_rows (sale db) = series_rows db" "event_rows (sale db) = event_rows db" "voucher_rows (sale db) = voucher_rows db"
  "base_auths (sale db) = base_auths db" "stripe_auths (sale db) = stripe_auths db"
  by (simp_all add: sale_def)

text \<open>What an update of a series row keeps unless it counts.\<close>

definition same_account :: "series_row \<Rightarrow> series_row \<Rightarrow> bool" where
  "same_account s s' \<longleftrightarrow> ps_terms_hash s' = ps_terms_hash s \<and> ps_singleton_id s' = ps_singleton_id s \<and>
     ps_collection s' = ps_collection s \<and> ps_sold s' = ps_sold s \<and> ps_redeemed s' = ps_redeemed s \<and>
     ps_refunded s' = ps_refunded s"

definition same_voucher :: "voucher_row \<Rightarrow> voucher_row \<Rightarrow> bool" where
  "same_voucher r r' \<longleftrightarrow> vr_key r' = vr_key r \<and> vr_terms r' = vr_terms r"

text \<open>
  The moves of a voucher that settle nothing: between these states, without a change of the three heights;
  a refund output is bound for XCH alone, a terminal execution for a Stripe voucher of a series that has no
  other active one, and it is never dropped.
\<close>

definition open_moves :: "(voucher_state \<times> voucher_state) set" where
  "open_moves = {(PENDING_ISSUANCE, PENDING_ISSUANCE), (PENDING_ISSUANCE, ISSUANCE_SUBMITTED), (ESCROWED, ESCROWED),
     (ESCROWED, REFUNDING), (REDEEMING, REFUNDING), (REDEEMING, REDEEMING), (REFUNDING, REFUNDING)}"

definition heights :: "voucher_row \<Rightarrow> int option \<times> int option \<times> int option" where
  "heights r = (is_height (vr_issuance r), rf_height (vr_refund r), rd_height (vr_redemption r))"

definition open_move :: "voucher_row list \<Rightarrow> voucher_row \<Rightarrow> voucher_row \<Rightarrow> bool" where
  "open_move rows r r' \<longleftrightarrow> same_voucher r r' \<and> (vr_state r, vr_state r') \<in> open_moves \<and> heights r' = heights r \<and>
     (rf_output (vr_refund r') = rf_output (vr_refund r) \<or> vr_rail r = CHIA_XCH) \<and>
     ((tm_execution (vr_terminal r') = None) = (tm_execution (vr_terminal r) = None) \<or>
      (vr_rail r = STRIPE_USD \<and> vr_state r \<noteq> PENDING_ISSUANCE \<and> tm_execution (vr_terminal r) = None \<and>
       (\<forall>x \<in> set rows. \<not> (active_terminal (vr_terms_hash r) x \<and> vr_serial x \<noteq> vr_serial r))))"

text \<open>A settling move sets one height and leaves the refund output and the terminal execution alone.\<close>

definition settles :: "voucher_row \<Rightarrow> voucher_row \<Rightarrow> bool" where
  "settles r r' \<longleftrightarrow> same_voucher r r' \<and> rf_output (vr_refund r') = rf_output (vr_refund r) \<and>
     tm_execution (vr_terminal r') = tm_execution (vr_terminal r)"

definition counted :: "(series_row \<Rightarrow> series_row) \<Rightarrow> series_row \<Rightarrow> series_row \<Rightarrow> bool" where
  "counted count s s' \<longleftrightarrow> same_account (count s) s'"

abbreviation put_voucher :: "voucher_row \<Rightarrow> voucher_row \<Rightarrow> voucher_row list \<Rightarrow> voucher_row list" where
  "put_voucher r r' \<equiv> replace_row (\<lambda>x. (vr_terms_hash x, vr_serial x)) (vr_key r) r'"

abbreviation put_series :: "series_row \<Rightarrow> series_row \<Rightarrow> series_row list \<Rightarrow> series_row list" where
  "put_series s s' \<equiv> replace_row ps_terms_hash (ps_terms_hash s) s'"

text \<open>The amount an authorization of a fiat refund names.\<close>

definition authorizes :: "stripe_auth_row \<Rightarrow> voucher_row \<Rightarrow> bool" where
  "authorizes a r \<longleftrightarrow> sa_purchase_id a = vt_purchase_id (vr_terms r) \<and> \<not> sa_completed a \<and>
     (\<exists>d. sa_json a = canonical_json (JObj d) \<and> json_ok (JObj d) \<and>
        map_of d ''amountMinor'' = Some (JStr (show_int (vt_principal (vr_terms r)))) \<and>
        map_of d ''purchaseId'' = Some (JStr (vt_purchase_id (vr_terms r))))"

definition base_settled :: "settlement_outcome \<Rightarrow> voucher_row \<Rightarrow> base_auth_row list \<Rightarrow> base_auth_row list \<Rightarrow> bool" where
  "base_settled outcome r bs bs' \<longleftrightarrow>
     (\<exists>b. bs' = bs @ [b] \<and> (\<forall>x \<in> set bs. \<not> base_auth_clash b x) \<and> ba_payment_id b = vt_payment_id (vr_terms r) \<and> ba_outcome b = outcome) \<or>
     (bs' = bs \<and> (\<exists>b \<in> set bs. ba_payment_id b = vt_payment_id (vr_terms r)))"

inductive sale_write :: "sale_tables \<Rightarrow> sale_tables \<Rightarrow> bool" where
  no_write: "sale_write s s"
| write_series: "\<forall>r. same_account r (f r) \<Longrightarrow> sale_write s (s\<lparr>series_rows := set_where p f (series_rows s)\<rparr>)"
| write_create:
    "\<forall>x \<in> set (series_rows s). \<not> series_clash r x \<Longrightarrow> ps_sold r = 0 \<Longrightarrow> ps_redeemed r = 0 \<Longrightarrow> ps_refunded r = 0 \<Longrightarrow>
     sale_write s (s\<lparr>series_rows := series_rows s @ [r]\<rparr>)"
| write_event:
    "\<forall>x \<in> set (event_rows s). \<not> event_clash e x \<Longrightarrow> pe_outcome e = REFUND_REQUIRED \<Longrightarrow>
     sale_write s (s\<lparr>event_rows := event_rows s @ [e]\<rparr>)"
| write_reserve:
    "\<forall>x \<in> set (event_rows s). \<not> event_clash e x \<Longrightarrow> \<forall>x \<in> set (voucher_rows s). \<not> voucher_clash r x \<Longrightarrow>
     \<exists>x \<in> set (series_rows s). ps_terms_hash x = vr_terms_hash r \<Longrightarrow>
     pe_outcome e = PAYMENT_CONFIRMED \<Longrightarrow> pe_payment_id e = vt_payment_id (vr_terms r) \<Longrightarrow>
     pe_terms_hash e = vr_terms_hash r \<Longrightarrow> pe_serial e = vr_serial r \<Longrightarrow>
     vr_state r \<in> {PENDING_ISSUANCE, ISSUANCE_SUBMITTED} \<Longrightarrow> heights r = (None, None, None) \<Longrightarrow>
     vr_refund r = no_refund \<Longrightarrow> vr_terminal r = no_terminal \<Longrightarrow>
     sale_write s (s\<lparr>event_rows := event_rows s @ [e], voucher_rows := voucher_rows s @ [r]\<rparr>)"
| write_move:
    "r \<in> set (voucher_rows s) \<Longrightarrow> open_move (voucher_rows s) r r' \<Longrightarrow>
     sale_write s (s\<lparr>voucher_rows := put_voucher r r' (voucher_rows s)\<rparr>)"
| write_issue:
    "r \<in> set (voucher_rows s) \<Longrightarrow> settles r r' \<Longrightarrow> vr_state r = ISSUANCE_SUBMITTED \<Longrightarrow> vr_state r' = ESCROWED \<Longrightarrow>
     heights r' = (Some h, rf_height (vr_refund r), rd_height (vr_redemption r)) \<Longrightarrow>
     q \<in> set (series_rows s) \<Longrightarrow> ps_terms_hash q = vr_terms_hash r \<Longrightarrow>
     counted (\<lambda>q. q\<lparr>ps_sold := ps_sold q + 1\<rparr>) q q' \<Longrightarrow>
     sale_write s (s\<lparr>voucher_rows := put_voucher r r' (voucher_rows s), series_rows := put_series q q' (series_rows s)\<rparr>)"
| write_refund:
    "r \<in> set (voucher_rows s) \<Longrightarrow> settles r r' \<Longrightarrow> vr_state r = REFUNDING \<Longrightarrow> vr_state r' = REFUNDED \<Longrightarrow>
     heights r' = (is_height (vr_issuance r), Some h, rd_height (vr_redemption r)) \<Longrightarrow>
     q \<in> set (series_rows s) \<Longrightarrow> ps_terms_hash q = vr_terms_hash r \<Longrightarrow>
     counted (\<lambda>q. q\<lparr>ps_refunded := ps_refunded q + 1\<rparr>) q q' \<Longrightarrow>
     (rf_output (vr_refund r) \<noteq> None \<and> bs' = base_auths s \<and> as' = stripe_auths s) \<or>
     (vr_rail r = BASE_SEPOLIA_USDC \<and> base_settled REFUND r (base_auths s) bs' \<and> as' = stripe_auths s) \<or>
     (vr_rail r = STRIPE_USD \<and> bs' = base_auths s \<and>
      (\<exists>a. as' = stripe_auths s @ [a] \<and> (\<forall>x \<in> set (stripe_auths s). \<not> stripe_auth_clash a x) \<and> authorizes a r)) \<Longrightarrow>
     sale_write s (s\<lparr>voucher_rows := put_voucher r r' (voucher_rows s), series_rows := put_series q q' (series_rows s),
       base_auths := bs', stripe_auths := as'\<rparr>)"
| write_redeem:
    "r \<in> set (voucher_rows s) \<Longrightarrow> settles r r' \<Longrightarrow> vr_state r = REDEEMING \<Longrightarrow> vr_state r' = REDEEMED \<Longrightarrow>
     heights r' = (is_height (vr_issuance r), rf_height (vr_refund r), Some h) \<Longrightarrow>
     q \<in> set (series_rows s) \<Longrightarrow> ps_terms_hash q = vr_terms_hash r \<Longrightarrow>
     counted (\<lambda>q. q\<lparr>ps_redeemed := ps_redeemed q + 1\<rparr>) q q' \<Longrightarrow>
     (vr_rail r \<noteq> BASE_SEPOLIA_USDC \<and> bs' = base_auths s) \<or>
     (vr_rail r = BASE_SEPOLIA_USDC \<and> base_settled DELIVERED r (base_auths s) bs') \<Longrightarrow>
     sale_write s (s\<lparr>voucher_rows := put_voucher r r' (voucher_rows s), series_rows := put_series q q' (series_rows s),
       base_auths := bs'\<rparr>)"
| write_phase:
    "\<forall>r. same_account r (f r) \<Longrightarrow> vs = voucher_rows s \<or> vs = start_redeeming t now (voucher_rows s) \<Longrightarrow>
     sale_write s (s\<lparr>series_rows := set_where p f (series_rows s), voucher_rows := vs\<rparr>)"
| write_relay:
    "sale_write s (s\<lparr>base_auths := set_where (\<lambda>r. ba_id r = i \<and> ba_state r = PENDING)
       (\<lambda>r. r\<lparr>ba_state := RELAYED, ba_relayed_at := now, ba_evidence := e\<rparr>) (base_auths s)\<rparr>)"
| write_completion:
    "sale_write s (s\<lparr>stripe_auths := set_where (\<lambda>r. sa_id r = i \<and> \<not> sa_completed r)
       (\<lambda>r. r\<lparr>sa_completed := True, sa_completed_at := now, sa_completion := e\<rparr>) (stripe_auths s)\<rparr>)"

definition sale_keys :: "sale_tables \<Rightarrow> bool" where
  "sale_keys s \<longleftrightarrow> table_ok series_clash (series_rows s) \<and> table_ok event_clash (event_rows s) \<and>
     table_ok voucher_clash (voucher_rows s) \<and> table_ok base_auth_clash (base_auths s) \<and>
     table_ok stripe_auth_clash (stripe_auths s)"

section \<open>One row is updated\<close>

lemma set_where_one:
  assumes "\<And>x. x \<in> set rs \<Longrightarrow> p x \<longleftrightarrow> x = r" and "\<And>x. x \<in> set rs \<Longrightarrow> key x = key r \<Longrightarrow> x = r" and "r \<in> set rs"
  shows "set_where p f rs = replace_row key (key r) (f r) rs"
  unfolding set_where_def replace_row_def using assms by (intro map_cong) auto

lemma set_voucher:
  assumes "table_ok voucher_clash rs" and "r \<in> set rs" and "vr_terms_hash r = t" and "vr_serial r = n" and "q r"
  shows "set_where (\<lambda>x. is_voucher t n x \<and> q x) f rs = put_voucher r (f r) rs"
proof (rule set_where_one [where key = "\<lambda>x. (vr_terms_hash x, vr_serial x)", simplified])
  show "x = r" if "x \<in> set rs" "vr_terms_hash x = vr_terms_hash r \<and> vr_serial x = vr_serial r" for x
    using voucher.key_eq [OF assms(1) that(1) assms(2)] that(2) by simp
  then show "is_voucher t n x \<and> q x \<longleftrightarrow> x = r" if "x \<in> set rs" for x
    using that assms(3-5) by (auto simp: is_voucher_def)
qed (use assms in simp)

lemma set_series:
  assumes "table_ok series_clash rs" and "r \<in> set rs" and "\<And>x. x \<in> set rs \<Longrightarrow> p x \<Longrightarrow> ps_terms_hash x = ps_terms_hash r" and "p r"
  shows "set_where p f rs = put_series r (f r) rs"
proof (rule set_where_one)
  show "x = r" if "x \<in> set rs" "ps_terms_hash x = ps_terms_hash r" for x
    using series.key_eq [OF assms(1) that(1) assms(2)] that(2) by simp
  then show "p x \<longleftrightarrow> x = r" if "x \<in> set rs" for x
    using that assms(3,4) by auto
qed (use assms in simp)

end
