(* ===== verification/PresaleCalls.thy ===== *)
theory PresaleCalls
  imports PresaleWrites
begin

text \<open>Every call of the presale store is one guarded write of the sale tables, or none.\<close>

section \<open>Transactions\<close>

lemma txn_sale:
  assumes "\<And>a db'. b db = Inr (a, db') \<Longrightarrow> sale_write (sale db) (sale db')"
  shows "sale_write (sale db) (sale (snd (txn b db)))"
  by (rule txn_keeps [where P = "\<lambda>x. sale_write (sale db) (sale x)"]) (auto intro: no_write assms)

lemma txn_then_sale:
  assumes "\<And>a db'. b db = Inr (a, db') \<Longrightarrow> sale_write (sale db) (sale db')"
  shows "sale_write (sale db) (sale (snd (txn_then b k db)))"
  unfolding txn_then_state using assms by (rule txn_sale)

lemma same_sale: "sale db' = sale db \<Longrightarrow> sale_write (sale db) (sale db')"
  by (simp add: no_write)

text \<open>A call that raises before its transaction leaves the database.\<close>

lemma voucher_call_sale:
  assumes "\<And>series body db'. get_series api db t = Inr series \<Longrightarrow> k series = Inr body \<Longrightarrow> body db = Inr ((), db') \<Longrightarrow>
      sale_write (sale db) (sale db')"
  shows "sale_write (sale db) (sale (snd (voucher_call api t n k db)))"
proof (cases "bind (get_series api db t) (\<lambda>series. bind (k series) (\<lambda>body. Inr (series, body)))")
  case (Inl e)
  then show ?thesis by (simp add: voucher_call_def no_write)
next
  case (Inr x)
  then obtain series body where "x = (series, body)" "get_series api db t = Inr series" "k series = Inr body"
    by (auto simp: bind_Inr)
  with Inr show ?thesis
    by (auto simp: voucher_call_def intro!: txn_then_sale assms)
qed

section \<open>Calls that leave the sale\<close>

lemma retain_execution_frame:
  "retain_execution_body api t k e db = Inr (x, db') \<Longrightarrow>
   sale db' = sale db \<and> lease_rows db' = lease_rows db \<and> exec_rows db' = exec_rows db"
  by (auto simp: retain_execution_body_def bind_Inr Let_def split: option.splits)

lemma insert_operation_frame:
  assumes "insert_operation api t op db = Inr (x, db')"
  shows "sale db' = sale db \<and> lease_rows db' = lease_rows db \<and> exec_rows db' = exec_rows db"
proof -
  obtain kind row where "json_get op ''execution'' \<in> {None, Some JNull} \<and> db' = db\<lparr>campaign_ops := campaign_ops db @ [row]\<rparr> \<or>
      (\<exists>e. retain_execution_body api t kind e (db\<lparr>campaign_ops := campaign_ops db @ [row]\<rparr>) = Inr ((), db'))"
    using assms unfolding insert_operation_def bind_Inr
    by (elim exE conjE, split json.split_asm) (auto simp: bind_Inr Let_def split: option.split_asm if_splits)
  then show ?thesis by (auto dest!: retain_execution_frame)
qed

lemma confirm_operation_frame:
  "confirm_operation_body t k h db = Inr (x, db') \<Longrightarrow>
   sale db' = sale db \<and> lease_rows db' = lease_rows db \<and> exec_rows db' = exec_rows db"
  by (auto simp: confirm_operation_body_def split: option.splits json.splits)

lemma sale_retain_phase: "sale_write (sale db) (sale (snd (retain_campaign_phase api t op chain now db)))"
  unfolding retain_campaign_phase_def
  by (auto simp: no_write retain_phase_body_def bind_Inr split: sum.splits option.splits intro!: txn_then_sale
      dest!: insert_operation_frame)

lemma sale_retain_execution: "sale_write (sale db) (sale (snd (retain_campaign_execution api t k e x db)))"
  unfolding retain_campaign_execution_def
  by (rule txn_sale) (auto simp: no_write bind_Inr split: option.splits dest!: retain_execution_frame)

lemma sale_confirm_campaign: "sale_write (sale db) (sale (snd (confirm_campaign_operation t k h db)))"
  unfolding confirm_campaign_operation_def
  by (rule txn_sale) (auto simp: no_write dest!: confirm_operation_frame)

text \<open>One candidate is passed over, found leased by another, or taken.\<close>

lemma claim_loop_cases:
  assumes "claim_loop lane owner now xs ((t, n) # rows) db = Inr (j, db')"
  obtains (skipped) db1 where "claim_loop lane owner now xs rows db1 = Inr (j, db')"
      "lease_rows db1 = lease_rows db \<or>
       (lease_rows db1 = ensure_lease t (lease_rows db) \<and> rowcount (lease_free t now) (lease_rows db1) = 0)"
      "sale db1 = sale db" "exec_rows db1 = exec_rows db" "campaign_inputs db1 = campaign_inputs db"
  | (taken) "rowcount (lease_free t now) (ensure_lease t (lease_rows db)) \<noteq> 0"
      "j = Some \<lparr>job_lane = lane, job_terms = t, job_serial = n, job_owner = owner\<rparr>"
      "lease_rows db' = take_lease t owner now (ensure_lease t (lease_rows db))"
      "sale db' = sale db" "exec_rows db' = exec_rows db" "campaign_inputs db' = campaign_inputs db"
proof -
  let ?db = "db\<lparr>lane_rows := set_where (\<lambda>r. wl_lane r = lane) (\<lambda>r. r\<lparr>wl_cursor_terms := t, wl_cursor_serial := n\<rparr>) (lane_rows db)\<rparr>"
  let ?leases = "ensure_lease t (lease_rows db)"
  obtain skip where p: "passed_over lane t n now xs ?db = Inr skip"
    using assms by (cases "passed_over lane t n now xs ?db") (simp_all add: Let_def)
  consider "skip" | "\<not> skip" "rowcount (lease_free t now) ?leases = 0" | "\<not> skip" "rowcount (lease_free t now) ?leases \<noteq> 0"
    by blast
  then show thesis
  proof cases
    case 1
    with assms p have "claim_loop lane owner now xs rows ?db = Inr (j, db')" by (simp add: Let_def)
    then show ?thesis by (rule skipped) simp_all
  next
    case 2
    with assms p have "claim_loop lane owner now xs rows (?db\<lparr>lease_rows := ?leases\<rparr>) = Inr (j, db')" by (simp add: Let_def)
    then show ?thesis by (rule skipped) (simp_all add: 2)
  next
    case 3
    with assms p show ?thesis by (intro taken) (auto simp: Let_def split: if_split_asm)
  qed
qed

lemma claim_loop_frame: "claim_loop lane owner now xs rows db = Inr (j, db') \<Longrightarrow> sale db' = sale db"
proof (induction rows arbitrary: db)
  case (Cons row rows)
  obtain t n where "row = (t, n)" by (cases row)
  then show ?case
    using Cons.prems by (auto simp del: claim_loop.simps elim!: claim_loop_cases dest: Cons.IH)
qed simp

lemma sale_claim: "sale_write (sale db) (sale (snd (claim_voucher_work lane owner now xs db)))"
  unfolding claim_voucher_work_def
proof (rule txn_sale)
  fix j db'
  assume "(let db = db\<lparr>lane_rows := ensure_lane lane (lane_rows db)\<rparr> in
     case lookup wl_lane lane (lane_rows db) of
       None \<Rightarrow> Inl TypeError
     | Some state \<Rightarrow>
         if wl_until state > now then Inr (None, db)
         else claim_loop lane owner now xs (scan lane db (wl_cursor_terms state, wl_cursor_serial state)) db) = Inr (j, db')"
  then have "sale db' = sale db"
    unfolding Let_def by (auto split: option.split_asm if_split_asm dest!: claim_loop_frame)
  then show "sale_write (sale db) (sale db')" by (rule same_sale)
qed

lemma sale_finish: "sale_write (sale db) (sale (snd (finish_voucher_work j now status db)))"
  unfolding finish_voucher_work_def
  by (rule txn_sale) (auto simp: no_write finish_body_def Let_def split: if_splits)

lemma sale_claim_direct: "sale_write (sale db) (sale (snd (claim_direct_voucher_work t owner now db)))"
  unfolding claim_direct_voucher_work_def
  by (rule txn_sale) (auto simp: no_write claim_direct_body_def bind_Inr Let_def)

lemma sale_finish_direct: "sale_write (sale db) (sale (snd (finish_direct_voucher_work t owner db)))"
  unfolding finish_direct_voucher_work_def by (rule txn_sale) (auto simp: no_write)

lemma sale_retain: "sale_write (sale db) (sale (snd (retain_voucher_execution api t n e db)))"
  unfolding retain_voucher_execution_def
  by (rule txn_sale) (auto simp: no_write retain_voucher_body_def bind_Inr Let_def)

lemma sale_confirm_execution: "sale_write (sale db) (sale (snd (confirm_voucher_execution t n k db)))"
  unfolding confirm_voucher_execution_def by (rule txn_sale) (auto simp: no_write)

lemma keep_settlement_frame: "keep_settlement previous t n e db = Inr (y, db') \<Longrightarrow> sale db' = sale db"
  by (auto simp: keep_settlement_def bind_Inr split: option.split_asm json.split_asm list.split_asm)

lemma record_settlement_frame: "record_settlement_body api t n x e db = Inr (y, db') \<Longrightarrow> sale db' = sale db"
  by (auto simp: record_settlement_body_def bind_Inr dest: keep_settlement_frame)

lemma sale_settlement: "sale_write (sale db) (sale (snd (record_refund_settlement api t n x e db)))"
  unfolding record_refund_settlement_def
  by (auto simp: no_write split: sum.splits intro!: txn_sale dest!: record_settlement_frame)

lemma sale_refusals:
  "sale_write (sale db) (sale (snd (complete_refund api t n db)))"
  "sale_write (sale db) (sale (snd (complete_delivery api t n db)))"
  by (auto simp: complete_refund_def complete_delivery_def no_write split: sum.splits)

section \<open>Calls on the series\<close>

lemma archive_sale:
  assumes "archive_body api t op proof db = Inr (x, db')"
  shows "sale_write (sale db) (sale db')"
proof -
  have "sale db' = (sale db)\<lparr>series_rows := set_where (\<lambda>r. ps_terms_hash r = t) (\<lambda>r. r\<lparr>ps_phase := no_phase\<rparr>) (series_rows (sale db))\<rparr>"
    using assms by (auto simp: archive_body_def bind_Inr Let_def split: option.split_asm)
  then show ?thesis
    by (simp only:) (rule write_series, simp add: same_account_def)
qed

lemma sale_archive: "sale_write (sale db) (sale (snd (archive_expired_campaign_phase api t op proof db)))"
  by (auto simp: archive_expired_campaign_phase_def Let_def no_write split: sum.split intro!: txn_sale dest: archive_sale)

lemma phase_submission_frame:
  assumes "phase_submission_body t0 t s now db = Inr (u, db')"
  shows "sale_write (sale db) (sale db')"
proof -
  have "db' = db \<or> db' = db\<lparr>series_rows := set_where (\<lambda>r. ps_terms_hash r = t \<and> ps_state r = PRESALE \<and> ph_bundle (ps_phase r) = None)
      (\<lambda>r. r\<lparr>ps_phase := (phase_binding s)\<lparr>ph_submitted_at := Some now\<rparr>, ps_cancel_reason := sp_cancel_reason s,
         ps_updated_at := now\<rparr>) (series_rows (sale db))\<rparr>"
    using assms by (auto simp: phase_submission_body_def split: option.split_asm if_split_asm)
  then show ?thesis
    by (elim disjE) (simp_all only: sale_update, rule no_write, rule write_series, simp add: same_account_def)
qed

lemma sale_phase_submission: "sale_write (sale db) (sale (snd (record_phase_submission api t s now db)))"
  by (auto simp: record_phase_submission_def no_write split: sum.split intro!: txn_then_sale dest: phase_submission_frame)

lemma create_frame:
  assumes "create_body api terms launch op chain now db = Inr (x, db')"
  obtains r where "\<forall>y \<in> set (series_rows db). \<not> series_clash r y" "ps_sold r = 0" "ps_redeemed r = 0" "ps_refunded r = 0"
    "sale db' = (sale db)\<lparr>series_rows := series_rows db @ [r]\<rparr>"
proof -
  have "\<exists>h i w c. (\<forall>y \<in> set (series_rows db). \<not> series_clash (new_series h i w c terms launch chain now) y) \<and>
      (db' = db\<lparr>series_rows := series_rows db @ [new_series h i w c terms launch chain now]\<rparr> \<or>
       (\<exists>o'. insert_operation api h o' (db\<lparr>series_rows := series_rows db @ [new_series h i w c terms launch chain now]\<rparr>) = Inr ((), db')))"
    using assms by (cases op; auto simp: create_body_def bind_Inr Let_def; blast)
  then obtain h i w c where c: "\<forall>y \<in> set (series_rows db). \<not> series_clash (new_series h i w c terms launch chain now) y"
    and "db' = db\<lparr>series_rows := series_rows db @ [new_series h i w c terms launch chain now]\<rparr> \<or>
      (\<exists>o'. insert_operation api h o' (db\<lparr>series_rows := series_rows db @ [new_series h i w c terms launch chain now]\<rparr>) = Inr ((), db'))"
    by blast
  then have "sale db' = (sale db)\<lparr>series_rows := series_rows db @ [new_series h i w c terms launch chain now]\<rparr>"
    by (auto dest: insert_operation_frame)
  with c show thesis by (intro that) (simp_all add: new_series_def)
qed

lemma sale_create: "sale_write (sale db) (sale (snd (create api terms launch op now db)))"
proof -
  have "sale_write (sale db) (sale db')" if "create_body api terms launch op chain now db = Inr (x, db')" for chain x db'
    using that
  proof (rule create_frame)
    fix r
    assume r: "\<forall>y \<in> set (series_rows db). \<not> series_clash r y" "ps_sold r = 0" "ps_redeemed r = 0" "ps_refunded r = 0"
      "sale db' = (sale db)\<lparr>series_rows := series_rows db @ [r]\<rparr>"
    show ?thesis
      unfolding r(5) using write_create [of "sale db" r] r(1-4) by simp
  qed
  then show ?thesis by (auto simp: create_def no_write split: sum.split intro!: txn_then_sale)
qed

section \<open>Payments\<close>

lemma insert_event_D:
  "insert_event e db = Inr db' \<Longrightarrow> (\<forall>x \<in> set (event_rows db). \<not> event_clash e x) \<and>
     (\<exists>x \<in> set (series_rows db). ps_terms_hash x = pe_terms_hash e) \<and> db' = db\<lparr>event_rows := event_rows db @ [e]\<rparr>"
  by (auto simp: insert_event_def bind_Inr dest!: series_row_of_D)

lemma insert_voucher_D:
  "insert_voucher r db = Inr db' \<Longrightarrow> (\<forall>x \<in> set (voucher_rows db). \<not> voucher_clash r x) \<and>
     db' = db\<lparr>voucher_rows := voucher_rows db @ [r]\<rparr>"
  by (auto simp: insert_voucher_def bind_Inr)

lemma reserve_sale:
  assumes "insert_event e db = Inr db1" and "insert_voucher r db1 = Inr db'"
    and "pe_outcome e = PAYMENT_CONFIRMED" and "pe_payment_id e = vt_payment_id (vr_terms r)"
    and "pe_terms_hash e = vr_terms_hash r" and "pe_serial e = vr_serial r"
    and "vr_state r \<in> {PENDING_ISSUANCE, ISSUANCE_SUBMITTED}" and "heights r = (None, None, None)"
    and "vr_refund r = no_refund" and "vr_terminal r = no_terminal"
  shows "sale_write (sale db) (sale db')"
proof -
  have e: "\<forall>x \<in> set (event_rows db). \<not> event_clash e x" "\<exists>x \<in> set (series_rows db). ps_terms_hash x = vr_terms_hash r"
      "db1 = db\<lparr>event_rows := event_rows db @ [e]\<rparr>"
    using insert_event_D [OF assms(1)] assms(5) by auto
  have r: "\<forall>x \<in> set (voucher_rows db). \<not> voucher_clash r x" "db' = db1\<lparr>voucher_rows := voucher_rows db @ [r]\<rparr>"
    using insert_voucher_D [OF assms(2)] e(3) by simp_all
  show ?thesis
    unfolding r(2) e(3) using write_reserve [of "sale db" e r] e(1,2) r(1) assms(3-) by simp
qed

lemma heights_new: "is_height c = None \<Longrightarrow> heights (new_voucher t n v s c now) = (None, None, None)"
  by (simp add: heights_def new_voucher_def no_refund_def no_redemption_def)

lemma ingest_sale:
  assumes "ingest_payment_body t0 evidence i now db = Inr (x, db')"
  shows "sale_write (sale db) (sale db')"
proof (cases "lookup pe_payment_id (lower (ev_payment_id evidence)) (event_rows db)")
  case None
  let ?e = "\<lambda>occupied. \<lparr>pe_payment_id = lower (ev_payment_id evidence), pe_terms_hash = lower t0, pe_order_key = order_key evidence,
      pe_evidence_id = ev_evidence_id evidence,
      pe_outcome = (if occupied then REFUND_REQUIRED else PAYMENT_CONFIRMED), pe_serial = pi_ordinal i, pe_created_at = now\<rparr>"
  consider (refund) "insert_event (?e True) db = Inr db'"
    | (reserve) db1 where "insert_event (?e False) db = Inr db1"
        "insert_voucher (new_voucher (lower t0) (pi_ordinal i)
           (intake_terms i (lower (ev_payment_id evidence)) (ev_evidence_id evidence) now) PENDING_ISSUANCE no_issuance now) db1 = Inr db'"
    using assms None
    by (cases "voucher_at db (lower t0) (pi_ordinal i)") (auto simp: ingest_payment_body_def Let_def bind_Inr)
  then show ?thesis
  proof cases
    case refund
    then have r: "\<forall>x \<in> set (event_rows db). \<not> event_clash (?e True) x" "db' = db\<lparr>event_rows := event_rows db @ [?e True]\<rparr>"
      by (auto dest: insert_event_D)
    show ?thesis
      unfolding r(2) using write_event [of "sale db" "?e True"] r(1) by simp
  next
    case reserve
    show ?thesis
      by (rule reserve_sale [OF reserve])
        (simp_all add: heights_new no_issuance_def, simp_all add: new_voucher_def intake_terms_def)
  qed
next
  case (Some existing)
  with assms have "db' = db" by (auto simp: ingest_payment_body_def Let_def)
  then show ?thesis by (simp add: no_write)
qed

lemma sale_ingest: "sale_write (sale db) (sale (snd (ingest_payment api t e check s now db)))"
  by (auto simp: ingest_payment_def no_write split: sum.split intro!: txn_then_sale dest: ingest_sale)

lemma ingest_stripe_sale:
  assumes "ingest_stripe_body t0 evidence_id i now db = Inr (x, db')"
  shows "sale_write (sale db) (sale db')"
proof (cases "lookup pe_payment_id (vt_payment_id (xi_terms i)) (event_rows db)")
  case None
  then obtain db1 where "insert_event \<lparr>pe_payment_id = vt_payment_id (xi_terms i), pe_terms_hash = lower t0,
        pe_order_key = stripe_order_key i, pe_evidence_id = evidence_id, pe_outcome = PAYMENT_CONFIRMED,
        pe_serial = xi_ordinal i, pe_created_at = now\<rparr> db = Inr db1"
      "insert_voucher (new_voucher (lower t0) (xi_ordinal i)
         ((xi_terms i)\<lparr>vt_rail := STRIPE_USD, vt_evidence_id := evidence_id, vt_created_at := now\<rparr>)
         PENDING_ISSUANCE no_issuance now) db1 = Inr db'"
    using assms by (auto simp: ingest_stripe_body_def Let_def bind_Inr)
  then show ?thesis
    by (rule reserve_sale) (simp_all add: heights_new no_issuance_def, simp_all add: new_voucher_def)
next
  case (Some existing)
  with assms have "db' = db" by (auto simp: ingest_stripe_body_def Let_def)
  then show ?thesis by (simp add: no_write)
qed

lemma sale_ingest_stripe: "sale_write (sale db) (sale (snd (ingest_stripe_payment api t e check now db)))"
  by (auto simp: ingest_stripe_payment_def no_write split: sum.split intro!: txn_then_sale dest: ingest_stripe_sale)

lemma native_submission_sale:
  assumes "native_submission_body t payment_id i s now db = Inr (x, db')"
  shows "sale_write (sale db) (sale db')"
proof (cases "lookup pe_payment_id (lower payment_id) (event_rows db)")
  case None
  then obtain db1 where "insert_event \<lparr>pe_payment_id = lower payment_id, pe_terms_hash = t,
        pe_order_key = ''mempool:'' @ padded 20 now @ '':'' @ lower payment_id, pe_evidence_id = ''chia:'' @ lower (ns_bundle s),
        pe_outcome = PAYMENT_CONFIRMED, pe_serial = pi_ordinal i, pe_created_at = now\<rparr> db = Inr db1"
      "insert_voucher (new_voucher t (pi_ordinal i)
         ((intake_terms i (lower payment_id) (''chia:'' @ lower (ns_bundle s)) now)\<lparr>vt_rail := CHIA_XCH\<rparr>)
         ISSUANCE_SUBMITTED (submitted_cols s) now) db1 = Inr db'"
    using assms by (auto simp: native_submission_body_def Let_def bind_Inr)
  then show ?thesis
    by (rule reserve_sale)
      (simp_all add: heights_new submitted_cols_def no_issuance_def, simp_all add: new_voucher_def intake_terms_def)
next
  case (Some existing)
  with assms have "db' = db" by (auto simp: native_submission_body_def Let_def)
  then show ?thesis by (simp add: no_write)
qed

lemma sale_native_issuance: "sale_write (sale db) (sale (snd (record_native_issuance_submission api t p check s now db)))"
  by (auto simp: record_native_issuance_submission_def no_write split: sum.split intro!: txn_then_sale dest: native_submission_sale)

end
