(* ===== verification/PresaleMoves.thy ===== *)
theory PresaleMoves
  imports PresaleCalls
begin

text \<open>The calls that move a voucher, as guarded writes of the sale tables; then all calls together.\<close>

section \<open>Updates of one row\<close>

lemma update_voucher_D:
  assumes "sale_keys (sale db)" and "update_voucher (\<lambda>x. is_voucher t n x \<and> q x) f m db = Inr db'"
  obtains r where "r \<in> set (voucher_rows db)" "voucher_at db t n = Some r" "vr_terms_hash r = t" "vr_serial r = n" "q r"
    "db' = db\<lparr>voucher_rows := put_voucher r (f r) (voucher_rows db)\<rparr>"
proof -
  have keys: "table_ok voucher_clash (voucher_rows db)"
    using assms(1) by (simp add: sale_keys_def)
  have "rowcount (\<lambda>x. is_voucher t n x \<and> q x) (voucher_rows db) \<noteq> 0" and
    db': "db' = db\<lparr>voucher_rows := set_where (\<lambda>x. is_voucher t n x \<and> q x) f (voucher_rows db)\<rparr>"
    using assms(2) by (simp_all add: update_voucher_def)
  then obtain r where r: "r \<in> set (voucher_rows db)" "vr_terms_hash r = t" "vr_serial r = n" "q r"
    unfolding rowcount_pos is_voucher_def by blast
  moreover have "voucher_at db t n = Some r"
    using voucher.lookup_mem [OF keys r(1)] r(2,3) by (simp add: voucher_at_def)
  ultimately show thesis
    using that db' by (simp add: set_voucher [OF keys])
qed

lemma update_series_D:
  assumes "table_ok series_clash (series_rows db)" and "update_series p f m db = Inr db'"
    and "\<And>x. p x \<Longrightarrow> ps_terms_hash x = t"
  obtains q where "q \<in> set (series_rows db)" "ps_terms_hash q = t" "p q"
    "db' = db\<lparr>series_rows := put_series q (f q) (series_rows db)\<rparr>"
proof -
  have "rowcount p (series_rows db) \<noteq> 0" and db': "db' = db\<lparr>series_rows := set_where p f (series_rows db)\<rparr>"
    using assms(2) by (simp_all add: update_series_def)
  then obtain q where q: "q \<in> set (series_rows db)" "p q"
    unfolding rowcount_pos by blast
  have "set_where p f (series_rows db) = put_series q (f q) (series_rows db)"
    using q assms(3) by (intro set_series [OF assms(1)]) simp_all
  with q db' assms(3) that show thesis by simp
qed

lemma move_sale:
  assumes "sale_keys (sale db)" and "update_voucher (\<lambda>x. is_voucher t n x \<and> q x) f m db = Inr db'"
    and "\<And>r. voucher_at db t n = Some r \<Longrightarrow> vr_terms_hash r = t \<Longrightarrow> vr_serial r = n \<Longrightarrow> q r \<Longrightarrow> open_move (voucher_rows db) r (f r)"
  shows "sale_write (sale db) (sale db')"
  using assms(1,2)
proof (rule update_voucher_D)
  fix r
  assume r: "r \<in> set (voucher_rows db)" "voucher_at db t n = Some r" "vr_terms_hash r = t" "vr_serial r = n" "q r"
    and db': "db' = db\<lparr>voucher_rows := put_voucher r (f r) (voucher_rows db)\<rparr>"
  show ?thesis
    unfolding db' using write_move [of r "sale db" "f r"] r(1) assms(3) [OF r(2-5)] by simp
qed

lemma set_voucher_sale:
  assumes "sale_keys (sale db)" and "voucher_at db t n = Some r" and "open_move (voucher_rows db) r (f r)"
  shows "sale_write (sale db) ((sale db)\<lparr>voucher_rows := set_where (is_voucher t n) f (voucher_rows db)\<rparr>)"
proof -
  have r: "r \<in> set (voucher_rows db)" "vr_terms_hash r = t" "vr_serial r = n"
    using voucher_at_D [OF assms(2)] by simp_all
  have "set_where (is_voucher t n) f (voucher_rows db) = put_voucher r (f r) (voucher_rows db)"
    using set_voucher [of "voucher_rows db" r t n "\<lambda>_. True" f] assms(1) r by (simp add: sale_keys_def)
  then show ?thesis
    using write_move [of r "sale db" "f r"] assms(3) r(1) by simp
qed

text \<open>A move that leaves the terminal execution alone.\<close>

lemma open_moveI:
  assumes "same_voucher r r'" and "(vr_state r, vr_state r') \<in> open_moves" and "heights r' = heights r"
    and "rf_output (vr_refund r') = rf_output (vr_refund r) \<or> vr_rail r = CHIA_XCH"
    and "(tm_execution (vr_terminal r') = None) = (tm_execution (vr_terminal r) = None)"
  shows "open_move rows r r'"
  using assms by (simp add: open_move_def)

section \<open>Issuance\<close>

lemma issuance_funding_sale:
  assumes "sale_keys (sale db)" and "issuance_funding_body t n b c p now db = Inr (u, db')"
  shows "sale_write (sale db) (sale db')"
proof -
  obtain r where r: "voucher_at db t n = Some r"
    using assms(2) by (auto simp: issuance_funding_body_def split: option.split_asm)
  let ?f = "\<lambda>r. r\<lparr>vr_issuance := (vr_issuance r)\<lparr>is_funding_bundle := Some (lower b), is_launcher_coin := Some (lower c),
      is_launcher_puzzle := Some (lower p)\<rparr>, vr_updated_at := now\<rparr>"
  consider "db' = db" | "vr_state r = PENDING_ISSUANCE" "db' = db\<lparr>voucher_rows := set_where (is_voucher t n) ?f (voucher_rows db)\<rparr>"
    using assms(2) r by (auto simp: issuance_funding_body_def Let_def split: if_split_asm)
  then show ?thesis
  proof cases
    case 2
    have "open_move (voucher_rows db) r (?f r)"
      by (rule open_moveI) (simp_all add: same_voucher_def open_moves_def heights_def 2(1))
    with set_voucher_sale [OF assms(1) r] show ?thesis by (simp add: 2(2))
  qed (simp add: no_write)
qed

lemma sale_issuance_funding:
  "sale_keys (sale db) \<Longrightarrow> sale_write (sale db) (sale (snd (record_issuance_funding api t n b c p now db)))"
  unfolding record_issuance_funding_def by (rule voucher_call_sale) (auto intro: issuance_funding_sale)

lemma sale_issuance_submission:
  assumes "sale_keys (sale db)"
  shows "sale_write (sale db) (sale (snd (record_issuance_submission api t n s now db)))"
proof -
  have m: "open_move (voucher_rows db) r (submitted s signers now r)" if "vr_state r = PENDING_ISSUANCE" for r signers
    by (rule open_moveI) (simp_all add: same_voucher_def open_moves_def heights_def submitted_def that)
  show ?thesis
    unfolding record_issuance_submission_def
    by (rule voucher_call_sale) (auto simp: issuance_submission_body_def bind_Inr intro!: move_sale [OF assms] m)
qed

lemma spent_inner_D:
  "spent_inner t e m db = Inr x \<Longrightarrow> \<exists>q. series_row_of db t = Some q \<and> cs_coin (ps_chain q) = Some (lower (ss_input e))"
  by (auto simp: spent_inner_def split: option.split_asm)

lemma advance_chain_account [simp]:
  "counted (\<lambda>q. q\<lparr>ps_sold := ps_sold q + 1\<rparr>) q ((advance_chain e i now q)\<lparr>ps_sold := ps_sold q + 1\<rparr>)"
  "counted (\<lambda>q. q\<lparr>ps_refunded := ps_refunded q + 1\<rparr>) q ((advance_chain e i now q)\<lparr>ps_refunded := ps_refunded q + 1\<rparr>)"
  "counted (\<lambda>q. q\<lparr>ps_redeemed := ps_redeemed q + 1\<rparr>) q ((advance_chain e i now q)\<lparr>ps_redeemed := ps_redeemed q + 1\<rparr>)"
  by (simp_all add: counted_def same_account_def advance_chain_def)

lemma at_coin_terms: "at_coin t e x \<Longrightarrow> ps_terms_hash x = t"
  by (simp add: at_coin_def)

text \<open>A confirmation updates one voucher and then its series.\<close>

lemma confirm_D:
  assumes "sale_keys (sale db)" and "update_voucher (\<lambda>x. is_voucher t n x \<and> c x) f m db = Inr db1"
    and "update_series p g m' db1 = Inr db2" and "\<And>x. p x \<Longrightarrow> ps_terms_hash x = t"
  obtains r q where "r \<in> set (voucher_rows db)" "voucher_at db t n = Some r" "vr_terms_hash r = t" "c r"
    "q \<in> set (series_rows db)" "ps_terms_hash q = t" "p q"
    "db2 = db\<lparr>voucher_rows := put_voucher r (f r) (voucher_rows db), series_rows := put_series q (g q) (series_rows db)\<rparr>"
proof -
  from assms(1,2) obtain r where r: "r \<in> set (voucher_rows db)" "voucher_at db t n = Some r" "vr_terms_hash r = t" "c r"
      "db1 = db\<lparr>voucher_rows := put_voucher r (f r) (voucher_rows db)\<rparr>"
    by (rule update_voucher_D)
  have k: "table_ok series_clash (series_rows db1)" using assms(1) by (simp add: r(5) sale_keys_def)
  obtain q where q: "q \<in> set (series_rows db1)" "ps_terms_hash q = t" "p q"
      "db2 = db1\<lparr>series_rows := put_series q (g q) (series_rows db1)\<rparr>"
    by (rule update_series_D [OF k assms(3,4)])
  from r q that show thesis by simp
qed

lemma confirm_issuance_sale:
  assumes "sale_keys (sale db)" and "confirm_issuance_body t n e now db = Inr (u, db')"
  shows "sale_write (sale db) (sale db')"
proof -
  obtain inner db1 where
      v: "update_voucher (\<lambda>r. is_voucher t n r \<and> vr_state r = ISSUANCE_SUBMITTED) (issued e now)
        ''issuance confirmation requires ISSUANCE_SUBMITTED state'' db = Inr db1"
    and s: "update_series (at_coin t (vi_series e)) (\<lambda>r. (advance_chain (vi_series e) inner now r)\<lparr>ps_sold := ps_sold r + 1\<rparr>)
        ''series state changed during issuance confirmation'' db1 = Inr db'"
    using assms(2) by (auto simp: confirm_issuance_body_def Let_def bind_Inr split: option.split_asm)
  obtain r q where r: "r \<in> set (voucher_rows db)" "vr_terms_hash r = t" "vr_state r = ISSUANCE_SUBMITTED"
      and q: "q \<in> set (series_rows db)" "ps_terms_hash q = t"
      and db': "db' = db\<lparr>voucher_rows := put_voucher r (issued e now r) (voucher_rows db),
        series_rows := put_series q ((advance_chain (vi_series e) inner now q)\<lparr>ps_sold := ps_sold q + 1\<rparr>) (series_rows db)\<rparr>"
    by (rule confirm_D [OF assms(1) v s at_coin_terms])
  show ?thesis
    unfolding db'
    using write_issue [of r "sale db" "issued e now r" "vi_height e" q "(advance_chain (vi_series e) inner now q)\<lparr>ps_sold := ps_sold q + 1\<rparr>"] r q
    by (simp add: settles_def same_voucher_def issued_def heights_def)
qed

lemma sale_confirm_issuance:
  "sale_keys (sale db) \<Longrightarrow> sale_write (sale db) (sale (snd (confirm_issuance api t n e now db)))"
  unfolding confirm_issuance_def by (rule voucher_call_sale) (auto intro: confirm_issuance_sale)

section \<open>Requests and bindings\<close>

lemma request_sale:
  assumes "sale_keys (sale db)" and "expected \<in> {ESCROWED, REDEEMING}"
    and "set_voucher_state_body t n expected REFUNDING now db = Inr (u, db')"
  shows "sale_write (sale db) (sale db')"
proof -
  have "open_move (voucher_rows db) r (r\<lparr>vr_state := REFUNDING, vr_updated_at := now\<rparr>)" if "vr_state r = expected" for r
    using assms(2) that by (intro open_moveI) (auto simp: same_voucher_def open_moves_def heights_def)
  then show ?thesis
    using assms(3) by (auto simp: set_voucher_state_body_def bind_Inr intro: move_sale [OF assms(1)])
qed

lemma refundable_states: "refundable_state series \<in> {ESCROWED, REDEEMING}"
  by (simp add: refundable_state_def)

lemma sale_request:
  assumes "sale_keys (sale db)"
  shows "sale_write (sale db) (sale (snd (request_refund api t n v s now db)))"
  unfolding request_refund_def
  by (auto simp: no_write split: sum.split if_split_asm intro!: txn_then_sale
      intro: request_sale [OF assms refundable_states])

lemma bind_terminal_sale:
  assumes "sale_keys (sale db)" and "bind_terminal_body terms t n e c fee now db = Inr (u, db')"
  shows "sale_write (sale db) (sale db')"
proof -
  obtain row where row: "voucher_at db t n = Some row" "vr_rail row = STRIPE_USD" "vr_state row \<in> {ESCROWED, REDEEMING}"
    using assms(2) by (auto simp: bind_terminal_body_def Let_def bind_Inr split: option.split_asm)
  let ?f = "\<lambda>r. r\<lparr>vr_terminal := (vr_terminal r)\<lparr>tm_execution := Some (canonical_json e), tm_fee_coin := Some c,
      tm_fee_mojos := Some fee\<rparr>, vr_updated_at := now\<rparr>"
  show ?thesis
  proof (cases "tm_execution (vr_terminal row)")
    case None
    then have free: "\<not> list_ex (\<lambda>r. active_terminal t r \<and> vr_serial r \<noteq> n) (voucher_rows db)"
      and "update_voucher (\<lambda>r. is_voucher t n r \<and> tm_execution (vr_terminal r) = None \<and> rf_bundle (vr_refund r) = None \<and>
          rd_bundle (vr_redemption r) = None) ?f ''Stripe terminal execution changed concurrently'' db = Inr db'"
      using assms(2) row by (auto simp: bind_terminal_body_def Let_def bind_Inr)
    from assms(1) this(2) show ?thesis
    proof (rule move_sale)
      fix r
      assume r: "voucher_at db t n = Some r" "vr_terms_hash r = t" "vr_serial r = n"
      with row have "r = row" by simp
      with free row r None show "open_move (voucher_rows db) r (?f r)"
        by (auto simp: open_move_def same_voucher_def open_moves_def heights_def list_ex_iff)
    qed
  next
    case (Some x)
    with assms(2) row have "db' = db" by (auto simp: bind_terminal_body_def Let_def bind_Inr)
    then show ?thesis by (simp add: no_write)
  qed
qed

lemma sale_bind:
  "sale_keys (sale db) \<Longrightarrow> sale_write (sale db) (sale (snd (bind_stripe_terminal_execution api t n e now db)))"
  unfolding bind_stripe_terminal_execution_def
  by (auto simp: no_write split: sum.split intro!: txn_then_sale intro: bind_terminal_sale)

section \<open>Refund submissions\<close>

lemma native_refund_sale:
  assumes "sale_keys (sale db)" and "native_refund_body series n a out s now db = Inr (u, db')"
  shows "sale_write (sale db) (sale db')"
proof -
  let ?t = "sv_key series"
  let ?f = "\<lambda>r. r\<lparr>vr_state := REFUNDING, vr_updated_at := now, vr_refund := (refund_binding a (Some (lower out)) s)
      \<lparr>rf_evidence := rf_evidence (vr_refund r), rf_height := rf_height (vr_refund r), rf_submitted_at := Some now\<rparr>\<rparr>"
  obtain row where row: "voucher_at db ?t n = Some row" "vr_rail row = CHIA_XCH"
    using assms(2) by (auto simp: native_refund_body_def Let_def bind_Inr split: option.split_asm)
  consider "db' = db" | "update_voucher (\<lambda>r. is_voucher ?t n r \<and> vr_state r = refundable_state series) ?f
      ''native refund submission requires ESCROWED state'' db = Inr db'"
    using assms(2) row by (auto simp: native_refund_body_def Let_def bind_Inr split: if_split_asm)
  then show ?thesis
  proof cases
    case 2
    from assms(1) 2 show ?thesis
    proof (rule move_sale)
      fix r
      assume "voucher_at db ?t n = Some r" "vr_state r = refundable_state series"
      with row refundable_states [of series] show "open_move (voucher_rows db) r (?f r)"
        by (intro open_moveI) (auto simp: same_voucher_def open_moves_def heights_def)
    qed
  qed (simp add: no_write)
qed

lemma sale_native_refund:
  "sale_keys (sale db) \<Longrightarrow> sale_write (sale db) (sale (snd (record_native_refund_submission api t n a out s now db)))"
  unfolding record_native_refund_submission_def
  by (rule voucher_call_sale) (auto simp: bind_Inr intro: native_refund_sale)

lemma base_refund_sale:
  assumes "sale_keys (sale db)" and "base_refund_body series n a h s now db = Inr (u, db')"
  shows "sale_write (sale db) (sale db')"
proof -
  let ?t = "sv_key series" and ?c = "base_part (refund_binding a None s)"
  let ?f = "\<lambda>r. r\<lparr>vr_state := REFUNDING, vr_updated_at := now,
      vr_refund := (vr_refund r)\<lparr>rf_action := rf_action ?c, rf_bundle := rf_bundle ?c, rf_terminal := rf_terminal ?c,
        rf_series_input := rf_series_input ?c, rf_series_output := rf_series_output ?c, rf_submitted_at := Some now\<rparr>,
      vr_terminal := (vr_terminal r)\<lparr>tm_evidence_hash := Some (lower h)\<rparr>\<rparr>"
  have m: "open_move (voucher_rows db) r (?f r)" if "vr_state r = REDEEMING" for r
    by (rule open_moveI) (simp_all add: same_voucher_def open_moves_def heights_def that)
  consider "db' = db" | "update_voucher (\<lambda>r. is_voucher ?t n r \<and> vr_state r = REDEEMING) ?f
      ''series changed during Base refund submission'' db = Inr db'"
    using assms(2) by (auto simp: base_refund_body_def Let_def bind_Inr split: if_split_asm option.split_asm)
  then show ?thesis
    by cases (auto simp: no_write intro: move_sale [OF assms(1)] m)
qed

lemma sale_base_refund:
  "sale_keys (sale db) \<Longrightarrow> sale_write (sale db) (sale (snd (record_base_expired_refund_submission api t n h s now db)))"
  unfolding record_base_expired_refund_submission_def
  by (rule voucher_call_sale) (auto intro: base_refund_sale)

lemma stripe_refund_sale:
  assumes "sale_keys (sale db)" and "expected \<in> {ESCROWED, REDEEMING}"
    and "stripe_refund_body series n a expected h seen s now db = Inr (u, db')"
  shows "sale_write (sale db) (sale db')"
proof -
  let ?t = "sv_key series"
  let ?f = "\<lambda>r. r\<lparr>vr_state := REFUNDING, vr_updated_at := now,
      vr_refund := (refund_binding a None s)\<lparr>rf_evidence := rf_evidence (vr_refund r), rf_height := rf_height (vr_refund r),
        rf_output := rf_output (vr_refund r), rf_submitted_at := Some now\<rparr>,
      vr_terminal := (vr_terminal r)\<lparr>tm_evidence_hash := Some (lower h), tm_observed_at := Some seen\<rparr>\<rparr>"
  have m: "open_move (voucher_rows db) r (?f r)" if "vr_state r = expected" for r
    using assms(2) that by (intro open_moveI) (auto simp: same_voucher_def open_moves_def heights_def)
  consider "db' = db" | "update_voucher (\<lambda>r. is_voucher ?t n r \<and> vr_state r = expected) ?f
      ''series changed during Stripe refund submission'' db = Inr db'"
    using assms(3) by (auto simp: stripe_refund_body_def Let_def bind_Inr split: if_split_asm option.split_asm)
  then show ?thesis
    by cases (auto simp: no_write intro: move_sale [OF assms(1)] m)
qed

lemma sale_stripe_refund:
  "sale_keys (sale db) \<Longrightarrow> sale_write (sale db) (sale (snd (record_stripe_refund_submission api t n a h seen s now db)))"
  unfolding record_stripe_refund_submission_def
  by (rule voucher_call_sale) (auto simp: bind_Inr refundable_state_def intro: stripe_refund_sale split: if_split_asm)

lemma redemption_sale:
  assumes "sale_keys (sale db)" and "redemption_body series n s h seen now db = Inr (u, db')"
  shows "sale_write (sale db) (sale db')"
proof -
  let ?t = "sv_key series"
  let ?f = "\<lambda>r. r\<lparr>vr_updated_at := now,
      vr_redemption := (redemption_binding s)\<lparr>rd_height := rd_height (vr_redemption r), rd_evidence := rd_evidence (vr_redemption r),
        rd_delivery_output := rd_delivery_output (vr_redemption r), rd_submitted_at := Some now\<rparr>,
      vr_terminal := (vr_terminal r)\<lparr>tm_evidence_hash := opt_lower h, tm_observed_at := seen\<rparr>\<rparr>"
  have m: "open_move (voucher_rows db) r (?f r)" if "vr_state r = REDEEMING" for r
    by (rule open_moveI) (simp_all add: same_voucher_def open_moves_def heights_def that)
  consider "db' = db" | "update_voucher (\<lambda>r. is_voucher ?t n r \<and> vr_state r = REDEEMING) ?f
      ''series changed during redemption submission'' db = Inr db'"
    using assms(2) by (auto simp: redemption_body_def Let_def bind_Inr split: if_split_asm option.split_asm)
  then show ?thesis
    by cases (auto simp: no_write intro: move_sale [OF assms(1)] m)
qed

lemma sale_redemption:
  "sale_keys (sale db) \<Longrightarrow> sale_write (sale db) (sale (snd (record_redemption_submission api t n s h seen now db)))"
  unfolding record_redemption_submission_def
  by (rule voucher_call_sale) (auto intro: redemption_sale)

section \<open>Continued refunds\<close>

lemma advance_stripe_sale:
  assumes "sale_keys (sale db)" and "advance_stripe_body api t n p c x confirmed old_id new_id db = Inr (u, db')"
  shows "sale_write (sale db) (sale db')"
proof -
  obtain row rows where row: "voucher_at db t n = Some row" "vr_state row \<in> {ESCROWED, REFUNDING}" "tm_execution (vr_terminal row) \<noteq> None"
    and db': "db' = db\<lparr>refund_history_rows := rows, voucher_rows :=
        set_where (is_voucher t n) (stripe_advanced (rf_bundle (vr_refund row)) c new_id) (voucher_rows db)\<rparr>"
    using assms(2) by (auto simp: advance_stripe_body_def Let_def bind_Inr split: option.split_asm)
  have "open_move (voucher_rows db) row (stripe_advanced (rf_bundle (vr_refund row)) c new_id row)"
    using row(2,3) by (intro open_moveI) (auto simp: same_voucher_def open_moves_def heights_def stripe_advanced_def)
  then show ?thesis
    unfolding db' using set_voucher_sale [where f = "stripe_advanced (rf_bundle (vr_refund row)) c new_id", OF assms(1) row(1)]
    by simp
qed

lemma sale_advance_stripe:
  "sale_keys (sale db) \<Longrightarrow> sale_write (sale db) (sale (snd (advance_stripe_refund_attempt api t n p c x confirmed db)))"
  unfolding advance_stripe_refund_attempt_def
  by (auto simp: no_write split: sum.split intro!: txn_sale intro: advance_stripe_sale)

lemma advance_native_sale:
  assumes "sale_keys (sale db)" and "advance_native_body api t n p c x confirmed old new db = Inr (u, db')"
  shows "sale_write (sale db) (sale db')"
proof -
  let ?f = "\<lambda>r. r\<lparr>vr_refund := (vr_refund r)\<lparr>rf_bundle := Some (bundle_name (chia api) new)\<rparr>\<rparr>"
  obtain row hs es where row: "voucher_at db t n = Some row" "vr_state row = REFUNDING"
    and db': "db' = db\<lparr>refund_history_rows := hs, exec_rows := es, voucher_rows := set_where (is_voucher t n) ?f (voucher_rows db)\<rparr>"
    using assms(2) by (auto simp: advance_native_body_def Let_def bind_Inr split: option.split_asm)
  have "open_move (voucher_rows db) row (?f row)"
    using row(2) by (intro open_moveI) (auto simp: same_voucher_def open_moves_def heights_def)
  then show ?thesis
    unfolding db' using set_voucher_sale [where f = ?f, OF assms(1) row(1)] by simp
qed

lemma sale_advance_native:
  "sale_keys (sale db) \<Longrightarrow> sale_write (sale db) (sale (snd (advance_native_refund_attempt api t n p c x confirmed db)))"
  unfolding advance_native_refund_attempt_def
  by (auto simp: no_write split: sum.split intro!: txn_sale intro: advance_native_sale)

end
