(* ===== verification/PresaleSettles.thy ===== *)
theory PresaleSettles
  imports PresaleMoves
begin

text \<open>The calls that settle a voucher, phases and completions; then every call of the store.\<close>

section \<open>Refund confirmations\<close>

lemma confirm_refund_D:
  assumes "sale_keys (sale db)" and "confirm_refund_updates what t n e live inner now db = Inr db'"
  obtains r q where "r \<in> set (voucher_rows db)" "voucher_at db t n = Some r" "vr_terms_hash r = t" "vr_state r = REFUNDING"
    "q \<in> set (series_rows db)" "ps_terms_hash q = t"
    "db' = db\<lparr>voucher_rows := put_voucher r (refunded e now r) (voucher_rows db),
       series_rows := put_series q ((advance_chain (re_series e) inner now q)\<lparr>ps_refunded := ps_refunded q + 1\<rparr>) (series_rows db)\<rparr>"
proof -
  obtain db1 where
      v: "update_voucher (\<lambda>r. is_voucher t n r \<and> vr_state r = REFUNDING) (refunded e now)
        (''series state changed during '' @ what @ '' confirmation'') db = Inr db1"
    and s: "update_series (\<lambda>r. at_coin t (re_series e) r \<and> (live \<longrightarrow> ps_state r = LIVE))
        (\<lambda>r. (advance_chain (re_series e) inner now r)\<lparr>ps_refunded := ps_refunded r + 1\<rparr>)
        (''series state changed during '' @ what @ '' confirmation'') db1 = Inr db'"
    using assms(2) by (auto simp: confirm_refund_updates_def Let_def bind_Inr)
  have "ps_terms_hash x = t" if "at_coin t (re_series e) x \<and> (live \<longrightarrow> ps_state x = LIVE)" for x
    using that at_coin_terms by blast
  from confirm_D [OF assms(1) v s this] show thesis
    using that by blast
qed

lemma refund_write:
  assumes "sale_keys (sale db)" and "confirm_refund_updates what t n e live inner now db = Inr db1"
    and "voucher_at db t n = Some row"
    and "(rf_output (vr_refund row) \<noteq> None \<and> bs' = base_auths db \<and> as' = stripe_auths db) \<or>
      (vr_rail row = BASE_SEPOLIA_USDC \<and> base_settled REFUND row (base_auths db) bs' \<and> as' = stripe_auths db) \<or>
      (vr_rail row = STRIPE_USD \<and> bs' = base_auths db \<and>
       (\<exists>a. as' = stripe_auths db @ [a] \<and> (\<forall>x \<in> set (stripe_auths db). \<not> stripe_auth_clash a x) \<and> authorizes a row))"
  shows "sale_write (sale db) ((sale db1)\<lparr>base_auths := bs', stripe_auths := as'\<rparr>)"
proof -
  obtain r q where r: "r \<in> set (voucher_rows db)" "voucher_at db t n = Some r" "vr_terms_hash r = t" "vr_state r = REFUNDING"
    and q: "q \<in> set (series_rows db)" "ps_terms_hash q = t"
    and db1: "db1 = db\<lparr>voucher_rows := put_voucher r (refunded e now r) (voucher_rows db),
       series_rows := put_series q ((advance_chain (re_series e) inner now q)\<lparr>ps_refunded := ps_refunded q + 1\<rparr>) (series_rows db)\<rparr>"
    by (rule confirm_refund_D [OF assms(1,2)])
  have same: "row = r" using assms(3) r(2) by simp
  have w: "sale_write (sale db) ((sale db)\<lparr>voucher_rows := put_voucher r (refunded e now r) (voucher_rows (sale db)),
      series_rows := put_series q ((advance_chain (re_series e) inner now q)\<lparr>ps_refunded := ps_refunded q + 1\<rparr>) (series_rows (sale db)),
      base_auths := bs', stripe_auths := as'\<rparr>)"
    by (rule write_refund [where h = "re_height e"])
      (use r q assms(4) same in \<open>simp_all add: settles_def same_voucher_def refunded_def heights_def\<close>)
  then show ?thesis by (simp add: db1)
qed

lemma native_part_output: "rf_output (native_part c) = rf_output c"
  by (simp add: native_part_def)

lemma evidence_output: "rf_output (evidence_cols e out x y) = out"
  by (simp add: evidence_cols_def refund_binding_def)

lemma confirm_native_sale:
  assumes "sale_keys (sale db)" and "confirm_native_refund_body t n e now db = Inr (u, db')"
  shows "sale_write (sale db) (sale db')"
proof -
  obtain row inner where row: "voucher_at db t n = Some row"
      "native_part (vr_refund row) = evidence_cols e (Some (lower (nr_output e))) (nr_vault_input e) (nr_vault_output e)"
    and u: "confirm_refund_updates ''refund'' t n e False inner now db = Inr db'"
    using assms(2) by (auto simp: confirm_native_refund_body_def bind_Inr split: option.split_asm)
  have "rf_output (vr_refund row) \<noteq> None"
    using arg_cong [OF row(2), of rf_output] by (simp add: native_part_output evidence_output)
  moreover have "base_auths db' = base_auths db" "stripe_auths db' = stripe_auths db"
    by (rule confirm_refund_D [OF assms(1) u], simp)+
  ultimately show ?thesis
    using refund_write [OF assms(1) u row(1), of "base_auths db'" "stripe_auths db'"] by (simp add: sale_def)
qed

lemma insert_base_D:
  assumes "insert_base_settlement_authorization api s v outcome c now db = Inr db'"
  shows "vr_rail v = BASE_SEPOLIA_USDC \<and> base_settled outcome v (base_auths db) (base_auths db') \<and>
    db' = db\<lparr>base_auths := base_auths db'\<rparr>"
  using assms
  by (auto simp: insert_base_settlement_authorization_def bind_Inr Let_def base_settled_def
      split: option.split_asm dest: lookup_Some_D)

lemma confirm_base_sale:
  assumes "sale_keys (sale db)" and "confirm_base_refund_body api s t n e now db = Inr (u, db')"
  shows "sale_write (sale db) (sale db')"
proof -
  obtain row inner db1 where row: "voucher_at db t n = Some row"
    and u: "confirm_refund_updates ''Base refund'' t n e True inner now db = Inr db1"
    and i: "insert_base_settlement_authorization api s row REFUND (JObj (spend_evidence e row)) now db1 = Inr db'"
    using assms(2) by (auto simp: confirm_base_refund_body_def bind_Inr split: option.split_asm)
  have same: "base_auths db1 = base_auths db" "stripe_auths db1 = stripe_auths db"
    by (rule confirm_refund_D [OF assms(1) u], simp)+
  have d: "vr_rail row = BASE_SEPOLIA_USDC" "base_settled REFUND row (base_auths db) (base_auths db')"
      "db' = db1\<lparr>base_auths := base_auths db'\<rparr>"
    using insert_base_D [OF i] same by simp_all
  have "sale db' = (sale db1)\<lparr>base_auths := base_auths db', stripe_auths := stripe_auths db\<rparr>"
    using arg_cong [OF d(3), of sale] same(2) by (simp add: sale_def)
  then show ?thesis
    using refund_write [OF assms(1) u row, of "base_auths db'" "stripe_auths db"] d by simp
qed

lemma receipt_amount:
  "refund_receipt_of api row h = Inr receipt \<Longrightarrow> rr_amount_minor receipt = vt_principal (vr_terms row)"
  unfolding refund_receipt_of_def bind_Inr
  by (elim exE conjE, split json.split_asm) (auto simp: bind_Inr)

lemma new_auth_authorizes:
  assumes "rr_amount_minor receipt = vt_principal (vr_terms row)"
  shows "authorizes (new_stripe_auth api s row receipt e now) row"
proof -
  let ?b = "stripe_authorization_body s row receipt e"
  let ?d = "?b @ [(''authorizationId'', JStr (digest (chia api) (JObj ?b)))]"
  have "json_ok (JObj ?d)" "map_of ?d ''amountMinor'' = Some (JStr (show_int (vt_principal (vr_terms row))))"
    "map_of ?d ''purchaseId'' = Some (JStr (vt_purchase_id (vr_terms row)))"
    by (simp_all add: stripe_authorization_body_def assms)
  then show ?thesis
    unfolding authorizes_def new_stripe_auth_def Let_def by auto
qed

lemma confirm_stripe_sale:
  assumes "sale_keys (sale db)" and "confirm_stripe_refund_body api s t n e now db = Inr (u, db')"
  shows "sale_write (sale db) (sale db')"
proof -
  obtain row inner receipt db1 where row: "voucher_at db t n = Some row" "vr_rail row = STRIPE_USD"
    and receipt: "refund_receipt_of api row (lower (sr_settlement_hash e)) = Inr receipt"
    and u: "confirm_refund_updates ''Stripe refund'' t n e False inner now db = Inr db1"
    and i: "\<forall>x \<in> set (stripe_auths db1). \<not> stripe_auth_clash (new_stripe_auth api s row receipt e now) x"
      "db' = db1\<lparr>stripe_auths := stripe_auths db1 @ [new_stripe_auth api s row receipt e now]\<rparr>"
    using assms(2) by (auto simp: confirm_stripe_refund_body_def Let_def bind_Inr split: option.split_asm)
  have same: "base_auths db1 = base_auths db" "stripe_auths db1 = stripe_auths db"
    by (rule confirm_refund_D [OF assms(1) u], simp)+
  have "sale_write (sale db) ((sale db1)\<lparr>base_auths := base_auths db, stripe_auths := stripe_auths db'\<rparr>)"
    using refund_write [OF assms(1) u row(1), of "base_auths db" "stripe_auths db'"] row(2) i same
      new_auth_authorizes [OF receipt_amount [OF receipt], of api s e now] by simp
  moreover have "sale db' = (sale db1)\<lparr>base_auths := base_auths db, stripe_auths := stripe_auths db'\<rparr>"
    using same by (simp add: i(2) sale_def)
  ultimately show ?thesis by simp
qed

lemma sale_confirm_refunds:
  assumes "sale_keys (sale db)"
  shows "sale_write (sale db) (sale (snd (confirm_native_refund api t n e now db)))"
    and "sale_write (sale db) (sale (snd (confirm_base_refund api t n e' now db)))"
    and "sale_write (sale db) (sale (snd (confirm_stripe_refund api t n e'' now db)))"
  unfolding confirm_native_refund_def confirm_base_refund_def confirm_stripe_refund_def
  by (rule voucher_call_sale; auto simp: bind_Inr intro: confirm_native_sale [OF assms] confirm_base_sale [OF assms]
      confirm_stripe_sale [OF assms])+

section \<open>Redemptions\<close>

lemma confirm_redemption_sale:
  assumes "sale_keys (sale db)" and "confirm_redemption_body api s t n e now db = Inr (u, db')"
  shows "sale_write (sale db) (sale db')"
proof -
  let ?m = "''series state changed during redemption confirmation''"
  obtain row inner db1 db2 where row: "voucher_at db t n = Some row"
    and v: "update_voucher (\<lambda>r. is_voucher t n r \<and> vr_state r = REDEEMING) (redeemed e now) ?m db = Inr db1"
    and q: "update_series (\<lambda>r. at_coin t (de_series e) r \<and> ps_state r = LIVE)
        (\<lambda>r. (advance_chain (de_series e) inner now r)\<lparr>ps_redeemed := ps_redeemed r + 1\<rparr>) ?m db1 = Inr db2"
    and i: "if vr_rail row = BASE_SEPOLIA_USDC
        then insert_base_settlement_authorization api s row DELIVERED (redemption_evidence e row) now db2 = Inr db'
        else db' = db2"
    using assms(2) unfolding confirm_redemption_body_def Let_def
    by (auto simp: bind_Inr split: option.split_asm if_split_asm)
  have coin: "\<And>x. at_coin t (de_series e) x \<and> ps_state x = LIVE \<Longrightarrow> ps_terms_hash x = t"
    using at_coin_terms by blast
  obtain r q where r: "r \<in> set (voucher_rows db)" "voucher_at db t n = Some r" "vr_terms_hash r = t" "vr_state r = REDEEMING"
    and q: "q \<in> set (series_rows db)" "ps_terms_hash q = t"
    and db2: "db2 = db\<lparr>voucher_rows := put_voucher r (redeemed e now r) (voucher_rows db),
       series_rows := put_series q ((advance_chain (de_series e) inner now q)\<lparr>ps_redeemed := ps_redeemed q + 1\<rparr>) (series_rows db)\<rparr>"
    by (rule confirm_D [OF assms(1) v q coin])
  have same: "row = r" using row r(2) by simp
  have b: "(vr_rail r \<noteq> BASE_SEPOLIA_USDC \<and> base_auths db' = base_auths db) \<or>
      (vr_rail r = BASE_SEPOLIA_USDC \<and> base_settled DELIVERED r (base_auths db) (base_auths db'))"
    and db': "db' = db2\<lparr>base_auths := base_auths db'\<rparr>"
    using i insert_base_D [of api s r DELIVERED "redemption_evidence e r" now db2 db'] same
    by (auto simp: db2 split: if_split_asm)
  have "sale_write (sale db) ((sale db)\<lparr>voucher_rows := put_voucher r (redeemed e now r) (voucher_rows (sale db)),
      series_rows := put_series q ((advance_chain (de_series e) inner now q)\<lparr>ps_redeemed := ps_redeemed q + 1\<rparr>) (series_rows (sale db)),
      base_auths := base_auths db'\<rparr>)"
    by (rule write_redeem [where h = "de_height e"])
      (use r q b in \<open>simp_all add: settles_def same_voucher_def redeemed_def heights_def\<close>)
  moreover have "sale db' = (sale db2)\<lparr>base_auths := base_auths db'\<rparr>"
    using arg_cong [OF db', of sale] by simp
  ultimately show ?thesis by (simp add: db2)
qed

lemma sale_confirm_redemption:
  "sale_keys (sale db) \<Longrightarrow> sale_write (sale db) (sale (snd (confirm_redemption api t n e now db)))"
  unfolding confirm_redemption_def by (rule voucher_call_sale) (auto intro: confirm_redemption_sale)

section \<open>Relays and completions\<close>

lemma sale_relay: "sale_write (sale db) (sale (snd (record_base_settlement_relay_evidence api i e now db)))"
  unfolding record_base_settlement_relay_evidence_def
proof (rule txn_then_sale)
  fix u db'
  assume "relay_body i e now db = Inr (u, db')"
  then consider "db' = db" | "db' = db\<lparr>base_auths := set_where (\<lambda>r. ba_id r = lower i \<and> ba_state r = PENDING)
      (\<lambda>r. r\<lparr>ba_state := RELAYED, ba_relayed_at := Some now, ba_evidence := Some (canonical_json e)\<rparr>) (base_auths db)\<rparr>"
    by (auto simp: relay_body_def Let_def split: option.split_asm if_split_asm)
  then show "sale_write (sale db) (sale db')"
  proof cases
    case 2
    show ?thesis unfolding 2 using write_relay [where s = "sale db" and i = "lower i" and now = "Some now" and e = "Some (canonical_json e)"] by simp
  qed (simp add: no_write)
qed

lemma sale_complete_stripe: "sale_write (sale db) (sale (snd (complete_stripe_refund_authorization i c now db)))"
  unfolding complete_stripe_refund_authorization_def
proof (rule txn_then_sale)
  fix u db'
  assume "complete_stripe_body i c now db = Inr (u, db')"
  then consider "db' = db" | "db' = db\<lparr>stripe_auths := set_where (\<lambda>r. sa_id r = lower i \<and> \<not> sa_completed r)
      (\<lambda>r. r\<lparr>sa_completed := True, sa_completed_at := Some now, sa_completion := Some (canonical_json (rc_json c))\<rparr>) (stripe_auths db)\<rparr>"
    by (auto simp: complete_stripe_body_def Let_def bind_Inr split: option.split_asm if_split_asm)
  then show "sale_write (sale db) (sale db')"
  proof cases
    case 2
    show ?thesis
      unfolding 2 using write_completion [where s = "sale db" and i = "lower i" and now = "Some now" and e = "Some (canonical_json (rc_json c))"] by simp
  qed (simp add: no_write)
qed

section \<open>Phases\<close>

lemma confirm_phase_sale:
  assumes "confirm_phase_body api t0 terms t e now db = Inr (u, db')"
  shows "sale_write (sale db) (sale db')"
proof -
  obtain g inner db1 db2 where
      u: "update_series (\<lambda>r. at_coin t (vp_series e) r \<and> ps_state r = PRESALE \<and> ph_bundle (ps_phase r) = Some (lower (vp_bundle e)))
        (phase_changed e g inner now) ''series state changed during phase confirmation'' db = Inr db1"
    and same: "sale db2 = sale db1"
    and db': "db' = (if vp_target e = LIVE then db2\<lparr>voucher_rows := start_redeeming t now (voucher_rows db2)\<rparr> else db2)"
  proof -
    obtain row where row: "series_row_of db t = Some row"
      using assms by (auto simp: confirm_phase_body_def split: option.split_asm)
    from assms obtain ids db1 op db2 where
        u: "update_series (\<lambda>r. at_coin t (vp_series e) r \<and> ps_state r = PRESALE \<and> ph_bundle (ps_phase r) = Some (lower (vp_bundle e)))
          (phase_changed e (if py_truthy ids then Some (digest (chia api) ids) else None) (cs_inner (ps_chain row)) now)
          ''series state changed during phase confirmation'' db = Inr db1"
      and op: "(if op = (None :: json option) then Inr ((), db1) else confirm_operation_body terms ''phase'' (JInt (vp_height e)) db1) = Inr ((), db2)"
      and d: "db' = (if vp_target e = LIVE then db2\<lparr>voucher_rows := start_redeeming t now (voucher_rows db2)\<rparr> else db2)"
      unfolding confirm_phase_body_def row option.case Let_def bind_Inr raise_if_Inr by (elim exE conjE) (auto split: prod.split_asm)
    from op have "sale db2 = sale db1"
      by (auto split: if_split_asm dest: confirm_operation_frame)
    with u d that show thesis by blast
  qed
  let ?f = "phase_changed e g inner now" and ?p = "\<lambda>r. at_coin t (vp_series e) r \<and> ps_state r = PRESALE \<and>
      ph_bundle (ps_phase r) = Some (lower (vp_bundle e))"
  let ?vs = "if vp_target e = LIVE then start_redeeming t now (voucher_rows (sale db)) else voucher_rows (sale db)"
  have "\<forall>r. same_account r (?f r)"
    by (simp add: same_account_def phase_changed_def advance_chain_def)
  then have "sale_write (sale db) ((sale db)\<lparr>series_rows := set_where ?p ?f (series_rows (sale db)), voucher_rows := ?vs\<rparr>)"
    by (rule write_phase [where t = t and now = now]) simp
  moreover have one: "sale db1 = (sale db)\<lparr>series_rows := set_where ?p ?f (series_rows (sale db))\<rparr>"
    using u by (auto simp: update_series_def)
  moreover have "voucher_rows db2 = voucher_rows (sale db)"
    using arg_cong [OF same, of voucher_rows] one by simp
  ultimately show ?thesis
    by (cases "vp_target e = LIVE") (simp_all add: db' same, simp add: sale_def)
qed

lemma sale_confirm_phase: "sale_write (sale db) (sale (snd (confirm_phase_transition api t e all now db)))"
  by (auto simp: confirm_phase_transition_def no_write split: sum.split intro!: txn_then_sale dest: confirm_phase_sale)

section \<open>Every call\<close>

lemmas sale_calls = sale_retain_phase sale_retain_execution sale_confirm_campaign sale_claim sale_finish sale_claim_direct
  sale_finish_direct sale_retain sale_confirm_execution sale_settlement sale_refusals sale_archive sale_phase_submission
  sale_create sale_ingest sale_ingest_stripe sale_native_issuance sale_relay sale_complete_stripe sale_confirm_phase

lemmas sale_keyed_calls = sale_confirm_issuance sale_issuance_funding sale_issuance_submission sale_request sale_bind
  sale_native_refund sale_base_refund sale_stripe_refund sale_redemption sale_advance_stripe sale_advance_native
  sale_confirm_refunds sale_confirm_redemption

lemma presale_step_write:
  assumes "sale_keys (sale db)"
  shows "sale_write (sale db) (sale (presale_step api op db))"
  by (cases op) (simp_all only: presale_step.simps sale_calls sale_keyed_calls [OF assms])

end
