(* ===== verification/PresaleSafety.thy ===== *)
theory PresaleSafety
  imports PresaleSettles
begin

text \<open>
  What every run of the presale store keeps: the columns of a voucher fit its state, the counters of a series
  count its vouchers, a settlement is authorized exactly once and for the outcome of its voucher.
\<close>

section \<open>Constraints\<close>

lemma table_ok_map_in:
  assumes "table_ok clash rs"
    and "\<And>r r'. r \<in> set rs \<Longrightarrow> r' \<in> set rs \<Longrightarrow> clash (g r) (g r') \<Longrightarrow> clash r r'"
  shows "table_ok clash (map g rs)"
  using assms
proof (induction rs)
  case (Cons r rs)
  have "list_all (\<lambda>r'. \<not> clash (g r) r') (map g rs)"
    using Cons.prems by (fastforce simp: list_all_iff)
  moreover have "table_ok clash (map g rs)"
    using Cons by simp
  ultimately show ?case by simp
qed simp

lemma put_voucher_ok:
  assumes "table_ok voucher_clash rs" and "r \<in> set rs" and "same_voucher r r'"
  shows "table_ok voucher_clash (put_voucher r r' rs)"
  unfolding replace_row_def
proof (rule table_ok_map_in [OF assms(1)])
  have id: "x = r" if "x \<in> set rs" "(vr_terms_hash x, vr_serial x) = vr_key r" for x
    using voucher.key_eq [OF assms(1) that(1) assms(2)] that(2) by simp
  fix x y
  assume "x \<in> set rs" "y \<in> set rs" "voucher_clash (if (vr_terms_hash x, vr_serial x) = vr_key r then r' else x)
      (if (vr_terms_hash y, vr_serial y) = vr_key r then r' else y)"
  then show "voucher_clash x y"
    using id [of x] id [of y] assms(3) by (auto simp: same_voucher_def voucher_clash_def split: if_split_asm)
qed

lemma put_series_ok:
  assumes "table_ok series_clash rs" and "q \<in> set rs" and "same_account (f q) q'"
    and "ps_terms_hash (f q) = ps_terms_hash q" "ps_singleton_id (f q) = ps_singleton_id q" "ps_collection (f q) = ps_collection q"
  shows "table_ok series_clash (put_series q q' rs)"
  unfolding replace_row_def
proof (rule table_ok_map_in [OF assms(1)])
  have id: "x = q" if "x \<in> set rs" "ps_terms_hash x = ps_terms_hash q" for x
    using series.key_eq [OF assms(1) that(1) assms(2)] that(2) by simp
  fix x y
  assume "x \<in> set rs" "y \<in> set rs" "series_clash (if ps_terms_hash x = ps_terms_hash q then q' else x)
      (if ps_terms_hash y = ps_terms_hash q then q' else y)"
  then show "series_clash x y"
    using id [of x] id [of y] assms(3-) by (auto simp: same_account_def series_clash_def split: if_split_asm)
qed

lemma counted_series_ok:
  assumes "table_ok series_clash rs" and "q \<in> set rs"
    and "counted (\<lambda>q. q\<lparr>ps_sold := ps_sold q + 1\<rparr>) q q' \<or> counted (\<lambda>q. q\<lparr>ps_refunded := ps_refunded q + 1\<rparr>) q q' \<or>
      counted (\<lambda>q. q\<lparr>ps_redeemed := ps_redeemed q + 1\<rparr>) q q'"
  shows "table_ok series_clash (put_series q q' rs)"
  using assms(3) unfolding counted_def
  by (elim disjE) (rule put_series_ok [OF assms(1,2)], assumption, simp_all)+

lemma account_rows_ok:
  "table_ok series_clash rs \<Longrightarrow> \<forall>r. same_account r (f r) \<Longrightarrow> table_ok series_clash (set_where p f rs)"
  by (rule table_ok_set_where) (auto simp: same_account_def series_clash_def split: if_split_asm)

lemma start_redeeming_ok: "table_ok voucher_clash rs \<Longrightarrow> table_ok voucher_clash (start_redeeming t now rs)"
  unfolding start_redeeming_def by (rule table_ok_set_where) (auto simp: voucher_clash_def split: if_split_asm)

lemma ok_append: "sql_table clash \<Longrightarrow> table_ok clash rs \<Longrightarrow> \<forall>x \<in> set rs. \<not> clash r x \<Longrightarrow> table_ok clash (rs @ [r])"
  by (rule sql_table.ok_insert) (auto simp: sql_insert_Some)

lemmas append_ok = ok_append [OF series.sql_table_axioms] ok_append [OF event.sql_table_axioms]
  ok_append [OF voucher.sql_table_axioms] ok_append [OF base_auth.sql_table_axioms] ok_append [OF stripe_auth.sql_table_axioms]

lemma base_settled_ok: "table_ok base_auth_clash bs \<Longrightarrow> base_settled outcome r bs bs' \<Longrightarrow> table_ok base_auth_clash bs'"
  by (auto simp: base_settled_def append_ok)

lemma sale_write_keys:
  assumes "sale_write s s'" and "sale_keys s"
  shows "sale_keys s'"
  using assms
proof cases
  case (write_refund r r' h q q' bs' as')
  then have "table_ok base_auth_clash bs'" "table_ok stripe_auth_clash as'"
    using assms(2) by (auto simp: sale_keys_def base_settled_ok append_ok)
  moreover have "table_ok series_clash (put_series q q' (series_rows s))"
    by (rule counted_series_ok) (use write_refund assms(2) in \<open>simp_all add: sale_keys_def\<close>)
  moreover have "table_ok voucher_clash (put_voucher r r' (voucher_rows s))"
    by (rule put_voucher_ok) (use write_refund assms(2) in \<open>simp_all add: sale_keys_def settles_def\<close>)
  ultimately show ?thesis
    using write_refund(1) assms(2) by (simp add: sale_keys_def)
next
  case (write_redeem r r' h q q' bs')
  then have "table_ok base_auth_clash bs'"
    using assms(2) by (auto simp: sale_keys_def base_settled_ok)
  moreover have "table_ok series_clash (put_series q q' (series_rows s))"
    by (rule counted_series_ok) (use write_redeem assms(2) in \<open>simp_all add: sale_keys_def\<close>)
  moreover have "table_ok voucher_clash (put_voucher r r' (voucher_rows s))"
    by (rule put_voucher_ok) (use write_redeem assms(2) in \<open>simp_all add: sale_keys_def settles_def\<close>)
  ultimately show ?thesis
    using write_redeem(1) assms(2) by (simp add: sale_keys_def)
next
  case (write_issue r r' h q q')
  have "table_ok series_clash (put_series q q' (series_rows s))"
    by (rule counted_series_ok) (use write_issue assms(2) in \<open>simp_all add: sale_keys_def\<close>)
  moreover have "table_ok voucher_clash (put_voucher r r' (voucher_rows s))"
    by (rule put_voucher_ok) (use write_issue assms(2) in \<open>simp_all add: sale_keys_def settles_def\<close>)
  ultimately show ?thesis
    using write_issue(1) assms(2) by (simp add: sale_keys_def)
next
  case (write_relay i now e)
  have "table_ok base_auth_clash (base_auths s')"
    unfolding write_relay using assms(2)
    by simp (rule table_ok_set_where, auto simp: sale_keys_def base_auth_clash_def split: if_split_asm)
  with write_relay assms(2) show ?thesis by (simp add: sale_keys_def)
next
  case (write_completion i now e)
  have "table_ok stripe_auth_clash (stripe_auths s')"
    unfolding write_completion using assms(2)
    by simp (rule table_ok_set_where, auto simp: sale_keys_def stripe_auth_clash_def split: if_split_asm)
  with write_completion assms(2) show ?thesis by (simp add: sale_keys_def)
qed (auto simp: sale_keys_def append_ok account_rows_ok start_redeeming_ok put_voucher_ok open_move_def)

section \<open>How one voucher changes\<close>

definition fresh_voucher :: "sale_tables \<Rightarrow> voucher_row \<Rightarrow> bool" where
  "fresh_voucher s r \<longleftrightarrow> (\<forall>x \<in> set (voucher_rows s). \<not> voucher_clash r x) \<and>
     vr_state r \<in> {PENDING_ISSUANCE, ISSUANCE_SUBMITTED} \<and> heights r = (None, None, None) \<and>
     vr_refund r = no_refund \<and> vr_terminal r = no_terminal"

inductive voucher_step :: "voucher_row list \<Rightarrow> voucher_row \<Rightarrow> voucher_row \<Rightarrow> bool" for rows where
  stays: "voucher_step rows r r"
| moves: "open_move rows r r' \<Longrightarrow> voucher_step rows r r'"
| issues: "settles r r' \<Longrightarrow> vr_state r = ISSUANCE_SUBMITTED \<Longrightarrow> vr_state r' = ESCROWED \<Longrightarrow>
    heights r' = (Some h, rf_height (vr_refund r), rd_height (vr_redemption r)) \<Longrightarrow> voucher_step rows r r'"
| refunds: "settles r r' \<Longrightarrow> vr_state r = REFUNDING \<Longrightarrow> vr_state r' = REFUNDED \<Longrightarrow>
    heights r' = (is_height (vr_issuance r), Some h, rd_height (vr_redemption r)) \<Longrightarrow> voucher_step rows r r'"
| redeems: "settles r r' \<Longrightarrow> vr_state r = REDEEMING \<Longrightarrow> vr_state r' = REDEEMED \<Longrightarrow>
    heights r' = (is_height (vr_issuance r), rf_height (vr_refund r), Some h) \<Longrightarrow> voucher_step rows r r'"
| launches: "settles r r' \<Longrightarrow> vr_state r = ESCROWED \<Longrightarrow> vr_state r' = REDEEMING \<Longrightarrow> heights r' = heights r \<Longrightarrow> voucher_step rows r r'"

inductive_cases voucher_stepE: "voucher_step rows r r'"

text \<open>A write keeps the list of vouchers in place: row by row a step, and perhaps one new row at the end.\<close>

definition voucher_evolves :: "sale_tables \<Rightarrow> sale_tables \<Rightarrow> bool" where
  "voucher_evolves s s' \<longleftrightarrow> (\<exists>f. (\<forall>r \<in> set (voucher_rows s). voucher_step (voucher_rows s) r (f r)) \<and>
     (voucher_rows s' = map f (voucher_rows s) \<or>
      (\<exists>r. voucher_rows s' = map f (voucher_rows s) @ [r] \<and> fresh_voucher s r \<and>
        (\<exists>q \<in> set (series_rows s). ps_terms_hash q = vr_terms_hash r) \<and>
        (\<exists>e \<in> set (event_rows s'). pe_payment_id e = vt_payment_id (vr_terms r) \<and> pe_outcome e = PAYMENT_CONFIRMED \<and>
          pe_terms_hash e = vr_terms_hash r \<and> pe_serial e = vr_serial r))))"

lemma evolves_same: "voucher_rows s' = voucher_rows s \<Longrightarrow> voucher_evolves s s'"
  unfolding voucher_evolves_def by (rule exI [of _ id]) (simp add: stays)

lemma evolves_put:
  assumes "table_ok voucher_clash (voucher_rows s)" and "r \<in> set (voucher_rows s)"
    and "voucher_step (voucher_rows s) r r'" and "voucher_rows s' = put_voucher r r' (voucher_rows s)"
  shows "voucher_evolves s s'"
  unfolding voucher_evolves_def
proof (intro exI conjI ballI disjI1)
  show "voucher_rows s' = map (\<lambda>x. if (vr_terms_hash x, vr_serial x) = vr_key r then r' else x) (voucher_rows s)"
    by (simp add: assms(4) replace_row_def)
  fix x
  assume "x \<in> set (voucher_rows s)"
  with voucher.key_eq [OF assms(1) this assms(2)] assms(3)
  show "voucher_step (voucher_rows s) x (if (vr_terms_hash x, vr_serial x) = vr_key r then r' else x)"
    by (auto intro: stays)
qed

lemma evolves_launch:
  assumes "voucher_rows s' = start_redeeming t now (voucher_rows s)"
  shows "voucher_evolves s s'"
proof -
  let ?f = "\<lambda>r. if vr_terms_hash r = t \<and> vr_state r = ESCROWED then r\<lparr>vr_state := REDEEMING, vr_updated_at := now\<rparr> else r"
  have "voucher_step (voucher_rows s) r (?f r)" for r
  proof (cases "vr_terms_hash r = t \<and> vr_state r = ESCROWED")
    case True
    then show ?thesis by simp (rule launches, simp_all add: settles_def same_voucher_def heights_def)
  qed (auto intro: stays)
  then show ?thesis
    unfolding voucher_evolves_def assms start_redeeming_def set_where_def
    by (intro exI [of _ ?f] conjI ballI disjI1 refl)
qed

lemma sale_write_evolves:
  assumes "sale_write s s'" and "sale_keys s"
  shows "voucher_evolves s s'"
proof -
  have keys: "table_ok voucher_clash (voucher_rows s)"
    using assms(2) by (simp add: sale_keys_def)
  from assms(1) show ?thesis
  proof cases
    case (write_reserve e r)
    then show ?thesis
      unfolding voucher_evolves_def fresh_voucher_def
      by (intro exI [of _ id] conjI disjI2 exI [of _ r]) (auto simp: stays)
  next
    case (write_move r r')
    then show ?thesis by (intro evolves_put [OF keys]) (auto intro: moves)
  next
    case (write_issue r r' h q q')
    then show ?thesis by (intro evolves_put [OF keys]) (auto intro: issues)
  next
    case (write_refund r r' h q q' bs' as')
    then show ?thesis by (intro evolves_put [OF keys]) (auto intro: refunds)
  next
    case (write_redeem r r' h q q' bs')
    then show ?thesis by (intro evolves_put [OF keys]) (auto intro: redeems)
  next
    case (write_phase f vs t now p)
    then show ?thesis by (auto intro: evolves_same evolves_launch)
  qed (simp_all add: evolves_same)
qed

section \<open>Columns\<close>

abbreviation settled :: "voucher_row \<Rightarrow> bool" where
  "settled r \<equiv> vr_state r \<in> {REFUNDED, REDEEMED}"

abbreviation unissued :: "voucher_row \<Rightarrow> bool" where
  "unissued r \<equiv> vr_state r \<in> {PENDING_ISSUANCE, ISSUANCE_SUBMITTED}"

text \<open>The columns that the state of a voucher allows.\<close>

definition voucher_columns :: "voucher_row \<Rightarrow> bool" where
  "voucher_columns r \<longleftrightarrow>
     (is_height (vr_issuance r) = None) = unissued r \<and>
     (rf_height (vr_refund r) = None) = (vr_state r \<noteq> REFUNDED) \<and>
     (rd_height (vr_redemption r) = None) = (vr_state r \<noteq> REDEEMED) \<and>
     (rf_output (vr_refund r) = None \<or> vr_rail r = CHIA_XCH) \<and>
     (tm_execution (vr_terminal r) = None \<or> vr_rail r = STRIPE_USD \<and> \<not> unissued r)"

lemma fresh_columns: "fresh_voucher s r \<Longrightarrow> voucher_columns r"
  by (auto simp: fresh_voucher_def voucher_columns_def heights_def no_refund_def no_terminal_def)

lemma open_moves_D:
  assumes "(x, x') \<in> open_moves"
  shows "(x' \<in> {PENDING_ISSUANCE, ISSUANCE_SUBMITTED}) = (x \<in> {PENDING_ISSUANCE, ISSUANCE_SUBMITTED})"
    and "x \<noteq> REFUNDED" "x' \<noteq> REFUNDED" "x \<noteq> REDEEMED" "x' \<noteq> REDEEMED"
  using assms by (auto simp: open_moves_def)

lemma open_move_D:
  assumes "open_move rows r r'"
  shows "vr_terms r' = vr_terms r" "unissued r' = unissued r" "vr_state r \<noteq> REFUNDED" "vr_state r' \<noteq> REFUNDED"
    "vr_state r \<noteq> REDEEMED" "vr_state r' \<noteq> REDEEMED" "is_height (vr_issuance r') = is_height (vr_issuance r)"
    "rf_height (vr_refund r') = rf_height (vr_refund r)" "rd_height (vr_redemption r') = rd_height (vr_redemption r)"
    "rf_output (vr_refund r') = rf_output (vr_refund r) \<or> vr_rail r = CHIA_XCH"
  using assms open_moves_D [of "vr_state r" "vr_state r'"] by (simp_all add: open_move_def same_voucher_def heights_def)

text \<open>A binding waits for the issuance: \<open>PENDING_ISSUANCE\<close> has no way to \<open>ISSUANCE_SUBMITTED\<close> with one.\<close>

lemma open_move_terminal:
  assumes "open_move rows r r'" and "tm_execution (vr_terminal r') \<noteq> None" and "voucher_columns r"
  shows "vr_rail r = STRIPE_USD \<and> \<not> unissued r"
proof (cases "tm_execution (vr_terminal r) = None")
  case True
  with assms(1,2) have "vr_rail r = STRIPE_USD" "vr_state r \<noteq> PENDING_ISSUANCE" "(vr_state r, vr_state r') \<in> open_moves"
    by (simp_all add: open_move_def)
  then show ?thesis by (auto simp: open_moves_def)
next
  case False
  with assms(3) show ?thesis by (simp add: voucher_columns_def)
qed

lemma step_columns:
  assumes "voucher_step rows r r'" and "voucher_columns r"
  shows "voucher_columns r'"
  using assms(1)
proof cases
  case moves
  note d = open_move_D [OF moves]
  have "rf_output (vr_refund r') = None \<or> vr_rail r = CHIA_XCH"
    using d(10) assms(2) by (auto simp: voucher_columns_def)
  moreover have "tm_execution (vr_terminal r') = None \<or> vr_rail r = STRIPE_USD \<and> \<not> unissued r"
    using open_move_terminal [OF moves _ assms(2)] by blast
  ultimately show ?thesis
    using assms(2) unfolding voucher_columns_def d(1,2) by (simp add: d(3-9))
next
  case (issues h)
  with assms(2) show ?thesis by (simp add: voucher_columns_def settles_def same_voucher_def heights_def)
next
  case (refunds h)
  with assms(2) show ?thesis by (simp add: voucher_columns_def settles_def same_voucher_def heights_def)
next
  case (redeems h)
  with assms(2) show ?thesis by (simp add: voucher_columns_def settles_def same_voucher_def heights_def)
next
  case launches
  with assms(2) show ?thesis by (simp add: voucher_columns_def settles_def same_voucher_def heights_def)
qed (use assms(2) in simp)

section \<open>The life of a voucher\<close>

fun voucher_rank :: "voucher_state \<Rightarrow> nat" where
  "voucher_rank PENDING_ISSUANCE = 0" | "voucher_rank ISSUANCE_SUBMITTED = 1" | "voucher_rank ESCROWED = 2"
| "voucher_rank REDEEMING = 3" | "voucher_rank REFUNDING = 4" | "voucher_rank REFUNDED = 5" | "voucher_rank REDEEMED = 5"

text \<open>
  Key and terms stay, the state goes forward, a settled row is final, and a height or a terminal execution
  that was recorded is not withdrawn.
\<close>

definition voucher_forward :: "voucher_row \<Rightarrow> voucher_row \<Rightarrow> bool" where
  "voucher_forward r r' \<longleftrightarrow> same_voucher r r' \<and> voucher_rank (vr_state r) \<le> voucher_rank (vr_state r') \<and>
     (settled r \<longrightarrow> r' = r) \<and>
     (is_height (vr_issuance r) = None \<or> is_height (vr_issuance r') = is_height (vr_issuance r)) \<and>
     (tm_execution (vr_terminal r) = None \<or> tm_execution (vr_terminal r') \<noteq> None)"

lemma forward_refl [simp]: "voucher_forward r r"
  by (cases "tm_execution (vr_terminal r)") (simp_all add: voucher_forward_def same_voucher_def)

lemma forward_trans: "voucher_forward r r' \<Longrightarrow> voucher_forward r' r'' \<Longrightarrow> voucher_forward r r''"
  by (auto simp: voucher_forward_def same_voucher_def)

lemma step_forward:
  assumes "voucher_step rows r r'" and "voucher_columns r"
  shows "voucher_forward r r'"
  using assms(1)
proof cases
  case moves
  have "voucher_rank (vr_state r) \<le> voucher_rank (vr_state r')" "same_voucher r r'"
      "tm_execution (vr_terminal r) = None \<or> tm_execution (vr_terminal r') \<noteq> None"
    using moves by (auto simp: open_move_def open_moves_def)
  with open_move_D [OF moves] show ?thesis by (simp add: voucher_forward_def)
next
  case (issues h)
  with assms(2) show ?thesis
    by (cases "tm_execution (vr_terminal r)") (simp_all add: voucher_forward_def voucher_columns_def settles_def heights_def)
next
  case (refunds h)
  then show ?thesis
    by (cases "tm_execution (vr_terminal r)") (simp_all add: voucher_forward_def settles_def heights_def)
next
  case (redeems h)
  then show ?thesis
    by (cases "tm_execution (vr_terminal r)") (simp_all add: voucher_forward_def settles_def heights_def)
next
  case launches
  then show ?thesis
    by (cases "tm_execution (vr_terminal r)") (simp_all add: voucher_forward_def settles_def heights_def)
qed simp

definition vouchers_forward :: "voucher_row list \<Rightarrow> voucher_row list \<Rightarrow> bool" where
  "vouchers_forward vs vs' \<longleftrightarrow> list_all2 voucher_forward vs (take (length vs) vs')"

lemma vouchers_forward_refl: "vouchers_forward vs vs"
  by (simp add: vouchers_forward_def list_all2_refl)

lemma vouchers_forward_trans:
  assumes "vouchers_forward vs vs'" and "vouchers_forward vs' vs''"
  shows "vouchers_forward vs vs''"
proof -
  let ?n = "length vs"
  have le: "?n \<le> length vs'"
    using assms(1) by (auto simp: vouchers_forward_def dest!: list_all2_lengthD)
  have "list_all2 voucher_forward (take ?n vs') (take ?n (take (length vs') vs''))"
    using assms(2) unfolding vouchers_forward_def by (rule list_all2_takeI)
  with le have "list_all2 voucher_forward (take ?n vs') (take ?n vs'')"
    by (simp add: min_def)
  with assms(1) show ?thesis
    unfolding vouchers_forward_def by (rule list_all2_trans [rotated]) (rule forward_trans)
qed

lemma evolves_forward:
  assumes "voucher_evolves s s'" and "\<forall>r \<in> set (voucher_rows s). voucher_columns r"
  shows "vouchers_forward (voucher_rows s) (voucher_rows s')"
proof -
  obtain f new where "\<forall>r \<in> set (voucher_rows s). voucher_step (voucher_rows s) r (f r)"
      and rows: "voucher_rows s' = map f (voucher_rows s) @ new"
    using assms(1) unfolding voucher_evolves_def by (metis append_Nil2)
  with assms(2) have "list_all2 voucher_forward (voucher_rows s) (map f (voucher_rows s))"
    unfolding list_all2_map2 by (intro list.rel_refl_strong step_forward [of "voucher_rows s"]) simp_all
  then show ?thesis by (simp add: vouchers_forward_def rows)
qed

lemma vouchers_forward_mem:
  assumes "vouchers_forward vs vs'" and "r \<in> set vs"
  obtains r' where "r' \<in> set vs'" "voucher_forward r r'"
proof -
  obtain i where i: "i < length vs" "r = vs ! i"
    using assms(2) by (auto simp: in_set_conv_nth)
  have "length vs \<le> length vs'"
    using assms(1) by (auto simp: vouchers_forward_def dest!: list_all2_lengthD)
  moreover have "voucher_forward r (take (length vs) vs' ! i)"
    using assms(1) i by (auto simp: vouchers_forward_def dest: list_all2_nthD)
  ultimately show thesis
    using that [of "vs' ! i"] i by simp
qed

lemma vouchers_forward_settled:
  "vouchers_forward vs vs' \<Longrightarrow> r \<in> set vs \<Longrightarrow> settled r \<Longrightarrow> r \<in> set vs'"
  by (erule vouchers_forward_mem) (auto simp: voucher_forward_def)

section \<open>Every voucher was paid for\<close>

definition paid_for :: "sale_tables \<Rightarrow> voucher_row \<Rightarrow> bool" where
  "paid_for s r \<longleftrightarrow> (\<exists>q \<in> set (series_rows s). ps_terms_hash q = vr_terms_hash r) \<and>
     (\<exists>e \<in> set (event_rows s). pe_payment_id e = vt_payment_id (vr_terms r) \<and> pe_outcome e = PAYMENT_CONFIRMED \<and>
        pe_terms_hash e = vr_terms_hash r \<and> pe_serial e = vr_serial r)"

definition vouchers_ok :: "sale_tables \<Rightarrow> bool" where
  "vouchers_ok s \<longleftrightarrow> (\<forall>r \<in> set (voucher_rows s). voucher_columns r \<and> paid_for s r)"

lemma account_hash: "same_account q q' \<Longrightarrow> ps_terms_hash q' = ps_terms_hash q"
  by (simp add: same_account_def)

lemma counted_hash:
  "counted (\<lambda>q. q\<lparr>ps_sold := ps_sold q + 1\<rparr>) q q' \<Longrightarrow> ps_terms_hash q' = ps_terms_hash q"
  "counted (\<lambda>q. q\<lparr>ps_refunded := ps_refunded q + 1\<rparr>) q q' \<Longrightarrow> ps_terms_hash q' = ps_terms_hash q"
  "counted (\<lambda>q. q\<lparr>ps_redeemed := ps_redeemed q + 1\<rparr>) q q' \<Longrightarrow> ps_terms_hash q' = ps_terms_hash q"
  by (simp_all add: counted_def same_account_def)

lemma put_hashes:
  "ps_terms_hash q' = ps_terms_hash q \<Longrightarrow> ps_terms_hash ` set (put_series q q' rs) = ps_terms_hash ` set rs"
  unfolding set_map [symmetric] replace_row_def by (rule arg_cong [where f = set]) simp

lemma account_hashes:
  "\<forall>r. same_account r (f r) \<Longrightarrow> ps_terms_hash ` set (set_where p f rs) = ps_terms_hash ` set rs"
  unfolding set_map [symmetric] set_where_def by (rule arg_cong [where f = set]) (simp add: same_account_def)

lemma sale_write_paid:
  assumes "sale_write s s'"
  shows "ps_terms_hash ` set (series_rows s) \<subseteq> ps_terms_hash ` set (series_rows s') \<and> set (event_rows s) \<subseteq> set (event_rows s')"
  using assms
proof cases
  case (write_issue r r' h q q')
  have "ps_terms_hash ` set (put_series q q' (series_rows s)) = ps_terms_hash ` set (series_rows s)"
    by (rule put_hashes) (use write_issue in \<open>simp add: counted_hash\<close>)
  then show ?thesis by (simp add: write_issue(1))
next
  case (write_refund r r' h q q' bs' as')
  have "ps_terms_hash ` set (put_series q q' (series_rows s)) = ps_terms_hash ` set (series_rows s)"
    by (rule put_hashes) (use write_refund in \<open>simp add: counted_hash\<close>)
  then show ?thesis by (simp add: write_refund(1))
next
  case (write_redeem r r' h q q' bs')
  have "ps_terms_hash ` set (put_series q q' (series_rows s)) = ps_terms_hash ` set (series_rows s)"
    by (rule put_hashes) (use write_redeem in \<open>simp add: counted_hash\<close>)
  then show ?thesis by (simp add: write_redeem(1))
qed (auto simp: account_hashes)

lemma paid_for_mono:
  assumes "paid_for s r" and "sale_write s s'" and "same_voucher r r'"
  shows "paid_for s' r'"
proof -
  have "vr_terms_hash r \<in> ps_terms_hash ` set (series_rows s)"
    using assms(1) by (force simp: paid_for_def)
  then have "vr_terms_hash r \<in> ps_terms_hash ` set (series_rows s')"
    using sale_write_paid [OF assms(2)] by blast
  then show ?thesis
    using assms(1,3) sale_write_paid [OF assms(2)] by (auto simp: paid_for_def same_voucher_def)
qed

lemma sale_write_vouchers:
  assumes "sale_write s s'" and "sale_keys s" and "vouchers_ok s"
  shows "vouchers_ok s'"
  unfolding vouchers_ok_def
proof
  fix r'
  assume r': "r' \<in> set (voucher_rows s')"
  from sale_write_evolves [OF assms(1,2)] obtain f where
      f: "\<forall>r \<in> set (voucher_rows s). voucher_step (voucher_rows s) r (f r)"
    and "voucher_rows s' = map f (voucher_rows s) \<or>
      (\<exists>r. voucher_rows s' = map f (voucher_rows s) @ [r] \<and> fresh_voucher s r \<and>
        (\<exists>q \<in> set (series_rows s). ps_terms_hash q = vr_terms_hash r) \<and>
        (\<exists>e \<in> set (event_rows s'). pe_payment_id e = vt_payment_id (vr_terms r) \<and> pe_outcome e = PAYMENT_CONFIRMED \<and>
          pe_terms_hash e = vr_terms_hash r \<and> pe_serial e = vr_serial r))"
    unfolding voucher_evolves_def by (elim exE conjE)
  with r' consider (old) r where "r \<in> set (voucher_rows s)" "r' = f r"
    | (new) "fresh_voucher s r'" "\<exists>q \<in> set (series_rows s). ps_terms_hash q = vr_terms_hash r'"
      "\<exists>e \<in> set (event_rows s'). pe_payment_id e = vt_payment_id (vr_terms r') \<and> pe_outcome e = PAYMENT_CONFIRMED \<and>
          pe_terms_hash e = vr_terms_hash r' \<and> pe_serial e = vr_serial r'"
    by (elim disjE exE conjE) (simp_all only: set_map set_append Un_iff list.set insert_iff empty_iff, blast+)
  then show "voucher_columns r' \<and> paid_for s' r'"
  proof cases
    case old
    with assms(3) have "voucher_columns r" "paid_for s r" by (simp_all add: vouchers_ok_def)
    moreover have "voucher_step (voucher_rows s) r r'" using old f by simp
    moreover from step_forward [OF this calculation(1)] have "same_voucher r r'" by (simp add: voucher_forward_def)
    ultimately show ?thesis by (blast intro: step_columns paid_for_mono [OF _ assms(1)])
  next
    case new
    then have "vr_terms_hash r' \<in> ps_terms_hash ` set (series_rows s')"
      using sale_write_paid [OF assms(1)] by force
    with new show ?thesis by (auto simp: paid_for_def fresh_columns)
  qed
qed

end
