(* ===== verification/PresaleInvariants.thy ===== *)
theory PresaleInvariants
  imports PresaleSafety
begin

text \<open>The invariants of the sale that relate several tables, and the runs of the store.\<close>

section \<open>Accounts\<close>

definition tally :: "(voucher_row \<Rightarrow> bool) \<Rightarrow> string \<Rightarrow> voucher_row list \<Rightarrow> int" where
  "tally p t rows = int (rowcount (\<lambda>r. vr_terms_hash r = t \<and> p r) rows)"

text \<open>The counters of a series: vouchers past their issuance, refunded vouchers, redeemed vouchers.\<close>

definition account_ok :: "voucher_row list \<Rightarrow> series_row \<Rightarrow> bool" where
  "account_ok vs q \<longleftrightarrow> ps_sold q = tally (\<lambda>r. \<not> unissued r) (ps_terms_hash q) vs \<and>
     ps_refunded q = tally (\<lambda>r. vr_state r = REFUNDED) (ps_terms_hash q) vs \<and>
     ps_redeemed q = tally (\<lambda>r. vr_state r = REDEEMED) (ps_terms_hash q) vs"

definition accounts_ok :: "sale_tables \<Rightarrow> bool" where
  "accounts_ok s \<longleftrightarrow> (\<forall>q \<in> set (series_rows s). account_ok (voucher_rows s) q)"

lemma tally_append: "tally p t (rows @ [r]) = tally p t rows + of_bool (vr_terms_hash r = t \<and> p r)"
  by (simp add: tally_def rowcount_def)

lemma tally_map:
  "(\<And>r. r \<in> set rows \<Longrightarrow> vr_terms_hash (f r) = vr_terms_hash r \<and> p (f r) = p r) \<Longrightarrow> tally p t (map f rows) = tally p t rows"
  unfolding tally_def rowcount_def by (induction rows) auto

lemma rowcount_replace:
  "distinct (map key rows) \<Longrightarrow> r \<in> set rows \<Longrightarrow>
   int (rowcount p (replace_row key (key r) r' rows)) = int (rowcount p rows) + of_bool (p r') - of_bool (p r)"
proof (induction rows)
  case (Cons a rows)
  show ?case
  proof (cases "key a = key r")
    case True
    with Cons.prems have "a = r" by (auto simp: image_iff)
    moreover have "replace_row key (key r) r' rows = rows"
      unfolding replace_row_def using Cons.prems True by (intro map_idI) (auto simp: image_iff)
    ultimately show ?thesis by (simp add: rowcount_def replace_row_def)
  next
    case False
    with Cons.prems have "r \<in> set rows" by auto
    with Cons.prems Cons.IH False show ?thesis by (simp add: rowcount_def replace_row_def)
  qed
qed simp

lemma tally_put:
  assumes "table_ok voucher_clash rows" and "r \<in> set rows" and "same_voucher r r'"
  shows "tally p t (put_voucher r r' rows) = tally p t rows +
    (if vr_terms_hash r = t then of_bool (p r') - of_bool (p r) else 0)"
  using rowcount_replace [OF voucher.distinct_keys [OF assms(1)] assms(2), where p = "\<lambda>r. vr_terms_hash r = t \<and> p r" and r' = r'] assms(3)
  by (simp add: tally_def same_voucher_def)

lemma account_append:
  "account_ok vs q \<Longrightarrow> unissued r \<Longrightarrow> account_ok (vs @ [r]) q"
  by (auto simp: account_ok_def tally_append)

lemma account_same: "account_ok vs q \<Longrightarrow> same_account q q' \<Longrightarrow> account_ok vs q'"
  by (simp add: account_ok_def same_account_def)

text \<open>The series of the voucher counts it; every other series keeps its account.\<close>

lemma accounts_put:
  assumes "table_ok voucher_clash vs" and "r \<in> set vs" and "same_voucher r r'"
    and "table_ok series_clash qs" and "q \<in> set qs" and "ps_terms_hash q = vr_terms_hash r"
    and "\<forall>x \<in> set qs. account_ok vs x" and "ps_terms_hash q' = ps_terms_hash q"
    and "account_ok (put_voucher r r' vs) q'"
  shows "\<forall>x \<in> set (put_series q q' qs). account_ok (put_voucher r r' vs) x"
proof
  fix x
  assume "x \<in> set (put_series q q' qs)"
  then consider "x = q'" | "x \<in> set qs" "ps_terms_hash x \<noteq> ps_terms_hash q"
    by (auto simp: replace_row_def)
  then show "account_ok (put_voucher r r' vs) x"
  proof cases
    case 2
    with assms(7) have "account_ok vs x" by blast
    with 2(2) assms(6) show ?thesis
      unfolding account_ok_def tally_put [OF assms(1-3)] by simp
  qed (use assms(9) in simp)
qed

lemma accounts_move:
  assumes "table_ok voucher_clash vs" and "r \<in> set vs" and "open_move vs r r'" and "account_ok vs q"
  shows "account_ok (put_voucher r r' vs) q"
proof -
  have same: "same_voucher r r'" using assms(3) by (simp add: open_move_def)
  show ?thesis
    using assms(4) unfolding account_ok_def tally_put [OF assms(1,2) same] open_move_D(2) [OF assms(3)]
    using open_move_D(3-6) [OF assms(3)] by simp
qed

lemma accounts_launch: "account_ok vs q \<Longrightarrow> account_ok (start_redeeming t now vs) q"
  unfolding account_ok_def start_redeeming_def set_where_def
  by (subst tally_map, simp, subst tally_map, simp, subst tally_map, simp, simp)

lemma no_vouchers:
  assumes "\<forall>r \<in> set vs. vr_terms_hash r \<noteq> t"
  shows "tally p t vs = 0"
  using assms by (simp add: tally_def rowcount_def filter_empty_conv)

lemma accounts_series:
  assumes "\<forall>q \<in> set qs. account_ok vs q" and "\<forall>r. same_account r (f r)" and "q \<in> set (set_where p f qs)"
  shows "account_ok vs q"
  using assms by (auto simp: set_where_mem intro: account_same split: if_split_asm)

lemma sale_write_accounts:
  assumes "sale_write s s'" and "sale_keys s" and "vouchers_ok s" and "accounts_ok s"
  shows "accounts_ok s'"
proof -
  have keys: "table_ok voucher_clash (voucher_rows s)" "table_ok series_clash (series_rows s)"
    using assms(2) by (simp_all add: sale_keys_def)
  have ok: "\<forall>q \<in> set (series_rows s). account_ok (voucher_rows s) q"
    using assms(4) by (simp add: accounts_ok_def)
  note put = accounts_put [OF keys(1) _ _ keys(2) _ _ ok]
  from assms(1) show ?thesis
  proof cases
    case (write_series f p)
    with accounts_series [OF ok write_series(2)] show ?thesis by (simp add: accounts_ok_def)
  next
    case (write_create r)
    have "\<forall>x \<in> set (voucher_rows s). vr_terms_hash x \<noteq> ps_terms_hash r"
    proof
      fix x
      assume "x \<in> set (voucher_rows s)"
      then obtain q where "q \<in> set (series_rows s)" "ps_terms_hash q = vr_terms_hash x"
        using assms(3) by (auto simp: vouchers_ok_def paid_for_def)
      with write_create(2) show "vr_terms_hash x \<noteq> ps_terms_hash r" by (auto simp: series_clash_def)
    qed
    then have "account_ok (voucher_rows s) r"
      using write_create(3-5) by (simp add: account_ok_def no_vouchers)
    with write_create(1) ok show ?thesis by (auto simp: accounts_ok_def)
  next
    case (write_reserve e r)
    with ok show ?thesis by (auto simp: accounts_ok_def intro: account_append)
  next
    case (write_move r r')
    with ok keys show ?thesis by (auto simp: accounts_ok_def intro: accounts_move)
  next
    case (write_issue r r' h q q')
    have same: "same_voucher r r'" using write_issue(3) by (simp add: settles_def)
    have "account_ok (put_voucher r r' (voucher_rows s)) q'"
      using bspec [OF ok write_issue(7)] write_issue(4,5,8,9)
      unfolding account_ok_def counted_def same_account_def tally_put [OF keys(1) write_issue(2) same] by simp
    with put [OF write_issue(2) same write_issue(7,8) counted_hash(1) [OF write_issue(9)]] write_issue(1)
    show ?thesis by (simp add: accounts_ok_def write_issue(8))
  next
    case (write_refund r r' h q q' bs' as')
    have same: "same_voucher r r'" using write_refund(3) by (simp add: settles_def)
    have "account_ok (put_voucher r r' (voucher_rows s)) q'"
      using bspec [OF ok write_refund(7)] write_refund(4,5,8,9)
      unfolding account_ok_def counted_def same_account_def tally_put [OF keys(1) write_refund(2) same] by simp
    with put [OF write_refund(2) same write_refund(7,8) counted_hash(2) [OF write_refund(9)]] write_refund(1)
    show ?thesis by (simp add: accounts_ok_def write_refund(8))
  next
    case (write_redeem r r' h q q' bs')
    have same: "same_voucher r r'" using write_redeem(3) by (simp add: settles_def)
    have "account_ok (put_voucher r r' (voucher_rows s)) q'"
      using bspec [OF ok write_redeem(7)] write_redeem(4,5,8,9)
      unfolding account_ok_def counted_def same_account_def tally_put [OF keys(1) write_redeem(2) same] by simp
    with put [OF write_redeem(2) same write_redeem(7,8) counted_hash(3) [OF write_redeem(9)]] write_redeem(1)
    show ?thesis by (simp add: accounts_ok_def write_redeem(8))
  next
    case (write_phase f vs t now p)
    have "\<forall>q \<in> set (series_rows s). account_ok vs q"
      using ok write_phase(3) by (auto intro: accounts_launch)
    from accounts_series [OF this write_phase(2)] write_phase(1) show ?thesis by (simp add: accounts_ok_def)
  qed (use ok in \<open>simp_all add: accounts_ok_def\<close>)
qed

section \<open>One active terminal spend\<close>

definition live_terminal :: "voucher_row \<Rightarrow> bool" where
  "live_terminal r \<longleftrightarrow> tm_execution (vr_terminal r) \<noteq> None \<and> vr_state r \<in> {ESCROWED, REDEEMING, REFUNDING}"

lemma active_terminal_iff: "active_terminal t r \<longleftrightarrow> vr_terms_hash r = t \<and> live_terminal r"
  by (simp add: active_terminal_def live_terminal_def)

definition terminals_ok :: "sale_tables \<Rightarrow> bool" where
  "terminals_ok s \<longleftrightarrow> (\<forall>r \<in> set (voucher_rows s). \<forall>x \<in> set (voucher_rows s).
     live_terminal r \<and> live_terminal x \<and> vr_terms_hash x = vr_terms_hash r \<longrightarrow> vr_serial x = vr_serial r)"

lemma terminals_okI:
  assumes "\<And>r x. r \<in> set (voucher_rows s) \<Longrightarrow> x \<in> set (voucher_rows s) \<Longrightarrow> live_terminal r \<Longrightarrow> live_terminal x \<Longrightarrow>
      vr_terms_hash x = vr_terms_hash r \<Longrightarrow> vr_serial x = vr_serial r"
  shows "terminals_ok s"
  unfolding terminals_ok_def using assms by blast

lemma terminals_okD:
  "terminals_ok s \<Longrightarrow> r \<in> set (voucher_rows s) \<Longrightarrow> x \<in> set (voucher_rows s) \<Longrightarrow> live_terminal r \<Longrightarrow> live_terminal x \<Longrightarrow>
   vr_terms_hash x = vr_terms_hash r \<Longrightarrow> vr_serial x = vr_serial r"
  unfolding terminals_ok_def by blast

lemma terminals_same: "terminals_ok s \<Longrightarrow> voucher_rows s' = voucher_rows s \<Longrightarrow> terminals_ok s'"
  unfolding terminals_ok_def by (simp only:)

lemma terminals_map:
  assumes "terminals_ok s" and "voucher_rows s' = map f (voucher_rows s)"
    and "\<And>r. r \<in> set (voucher_rows s) \<Longrightarrow> vr_key (f r) = vr_key r \<and> (live_terminal (f r) \<longrightarrow> live_terminal r)"
  shows "terminals_ok s'"
proof (rule terminals_okI)
  fix y z
  assume "y \<in> set (voucher_rows s')" "z \<in> set (voucher_rows s')" and live: "live_terminal y" "live_terminal z"
    and same: "vr_terms_hash z = vr_terms_hash y"
  then obtain r x where r: "r \<in> set (voucher_rows s)" "y = f r" and x: "x \<in> set (voucher_rows s)" "z = f x"
    unfolding assms(2) by auto
  have "vr_terms_hash x = vr_terms_hash r"
    using same assms(3) [OF r(1)] assms(3) [OF x(1)] by (simp add: r(2) x(2))
  then have "vr_serial x = vr_serial r"
    using assms(3) [OF r(1)] assms(3) [OF x(1)] live terminals_okD [OF assms(1) r(1) x(1)] by (simp add: r(2) x(2))
  then show "vr_serial z = vr_serial y"
    using assms(3) [OF r(1)] assms(3) [OF x(1)] by (simp add: r(2) x(2))
qed

lemma terminals_put:
  assumes "terminals_ok s" and "table_ok voucher_clash (voucher_rows s)" and "r \<in> set (voucher_rows s)"
    and "same_voucher r r'" and "voucher_rows s' = put_voucher r r' (voucher_rows s)"
    and "live_terminal r' \<Longrightarrow> live_terminal r"
  shows "terminals_ok s'"
proof (rule terminals_map [OF assms(1) assms(5) [unfolded replace_row_def]])
  fix x
  assume x: "x \<in> set (voucher_rows s)"
  show "vr_key (if vr_key x = vr_key r then r' else x) = vr_key x \<and>
      (live_terminal (if vr_key x = vr_key r then r' else x) \<longrightarrow> live_terminal x)"
  proof (cases "vr_key x = vr_key r")
    case True
    with voucher.key_eq [OF assms(2) x assms(3)] have "x = r" by simp
    with assms(4,6) show ?thesis by (simp add: same_voucher_def)
  qed auto
qed

lemma terminals_bind:
  assumes "terminals_ok s" and "r \<in> set (voucher_rows s)" and "same_voucher r r'"
    and "\<forall>x \<in> set (voucher_rows s). \<not> (active_terminal (vr_terms_hash r) x \<and> vr_serial x \<noteq> vr_serial r)"
    and "voucher_rows s' = put_voucher r r' (voucher_rows s)"
  shows "terminals_ok s'"
proof (rule terminals_okI)
  fix x y
  assume xy: "x \<in> set (voucher_rows s')" "y \<in> set (voucher_rows s')"
    and act: "live_terminal x" "live_terminal y" "vr_terms_hash y = vr_terms_hash x"
  have key: "vr_terms_hash r' = vr_terms_hash r" "vr_serial r' = vr_serial r"
    using assms(3) by (simp_all add: same_voucher_def)
  have alone: "vr_serial z = vr_serial r" if "z \<in> set (voucher_rows s)" "live_terminal z" "vr_terms_hash z = vr_terms_hash r" for z
    using assms(4) that by (simp add: active_terminal_iff)
  have "x = r' \<or> x \<in> set (voucher_rows s)" "y = r' \<or> y \<in> set (voucher_rows s)"
    using xy unfolding assms(5) by (blast dest: replace_row_mem)+
  then consider "x = r'" "y = r'" | "x = r'" "y \<in> set (voucher_rows s)" | "x \<in> set (voucher_rows s)" "y = r'"
    | "x \<in> set (voucher_rows s)" "y \<in> set (voucher_rows s)" by blast
  then show "vr_serial y = vr_serial x"
  proof cases
    case 2
    then show ?thesis using alone [of y] act key by simp
  next
    case 3
    then show ?thesis using alone [of x] act key by simp
  next
    case 4
    show ?thesis by (rule terminals_okD [OF assms(1) 4 act])
  qed simp
qed

lemma terminals_launch:
  assumes "terminals_ok s" and "voucher_rows s' = start_redeeming t now (voucher_rows s)"
  shows "terminals_ok s'"
  by (rule terminals_map [OF assms(1) assms(2) [unfolded start_redeeming_def set_where_def]])
    (simp add: live_terminal_def)

lemma sale_write_terminals:
  assumes "sale_write s s'" and "sale_keys s" and "vouchers_ok s" and "terminals_ok s"
  shows "terminals_ok s'"
proof -
  have keys: "table_ok voucher_clash (voucher_rows s)"
    using assms(2) by (simp add: sale_keys_def)
  note put = terminals_put [OF assms(4) keys]
  from assms(1) show ?thesis
  proof cases
    case (write_reserve e r)
    then have "\<not> live_terminal r"
      by (simp add: live_terminal_def no_terminal_def)
    then show ?thesis
      using write_reserve(1) assms(4) by (intro terminals_okI) (auto intro: terminals_okD)
  next
    case (write_move r r')
    have same: "same_voucher r r'" and moves: "(vr_state r, vr_state r') \<in> open_moves"
      using write_move(3) by (simp_all add: open_move_def)
    have rows: "voucher_rows s' = put_voucher r r' (voucher_rows s)" by (simp add: write_move(1))
    consider "(tm_execution (vr_terminal r') = None) = (tm_execution (vr_terminal r) = None)"
      | "\<forall>x \<in> set (voucher_rows s). \<not> (active_terminal (vr_terms_hash r) x \<and> vr_serial x \<noteq> vr_serial r)"
      using write_move(3) by (auto simp: open_move_def)
    then show ?thesis
    proof cases
      case 1
      have "live_terminal r' \<Longrightarrow> live_terminal r"
        using moves 1 unfolding live_terminal_def open_moves_def by (elim insertE) simp_all
      then show ?thesis by (rule put [OF write_move(2) same rows])
    next
      case 2
      show ?thesis by (rule terminals_bind [OF assms(4) write_move(2) same 2 rows])
    qed
  next
    case (write_issue r r' h q q')
    have "voucher_columns r" using assms(3) write_issue(2) by (simp add: vouchers_ok_def)
    then have "\<not> live_terminal r'"
      using write_issue(3,4) by (simp add: settles_def voucher_columns_def live_terminal_def)
    with write_issue(1-3) show ?thesis
      by (intro put [of r r']) (simp_all add: settles_def)
  next
    case (write_refund r r' h q q' bs' as')
    then show ?thesis by (intro put [of r r']) (simp_all add: settles_def live_terminal_def)
  next
    case (write_redeem r r' h q q' bs')
    then show ?thesis by (intro put [of r r']) (simp_all add: settles_def live_terminal_def)
  next
    case (write_phase f vs t now p)
    then show ?thesis
      using terminals_same [OF assms(4), of s'] terminals_launch [OF assms(4), of s' t now] by auto
  qed (rule terminals_same [OF assms(4)], simp)+
qed

end
