(* ===== verification/PresaleRuns.thy ===== *)
theory PresaleRuns
  imports PresaleInvariants
begin

text \<open>Settlements are authorized for the outcome of their voucher; the runs of the store and what they keep.\<close>

section \<open>Settlements\<close>

fun outcome_state :: "settlement_outcome \<Rightarrow> voucher_state" where
  "outcome_state DELIVERED = REDEEMED"
| "outcome_state REFUND = REFUNDED"

text \<open>The authorization releases or returns the payment of this voucher, as the voucher ended.\<close>

definition answers :: "base_auth_row \<Rightarrow> voucher_row \<Rightarrow> bool" where
  "answers b r \<longleftrightarrow> vr_rail r = BASE_SEPOLIA_USDC \<and> vt_payment_id (vr_terms r) = ba_payment_id b \<and>
     vr_state r = outcome_state (ba_outcome b)"

definition base_ok :: "sale_tables \<Rightarrow> bool" where
  "base_ok s \<longleftrightarrow> (\<forall>b \<in> set (base_auths s). \<exists>r \<in> set (voucher_rows s). answers b r) \<and>
     (\<forall>r \<in> set (voucher_rows s). vr_rail r = BASE_SEPOLIA_USDC \<and> settled r \<longrightarrow> (\<exists>b \<in> set (base_auths s). answers b r))"

text \<open>The fiat refund names the purchase and the exact amount that was paid.\<close>

definition repays :: "stripe_auth_row \<Rightarrow> voucher_row \<Rightarrow> bool" where
  "repays a r \<longleftrightarrow> vr_rail r = STRIPE_USD \<and> vr_state r = REFUNDED \<and> sa_purchase_id a = vt_purchase_id (vr_terms r) \<and>
     (\<exists>d. sa_json a = canonical_json (JObj d) \<and> json_ok (JObj d) \<and>
        map_of d ''amountMinor'' = Some (JStr (show_int (vt_principal (vr_terms r)))) \<and>
        map_of d ''purchaseId'' = Some (JStr (vt_purchase_id (vr_terms r))))"

definition stripe_ok :: "sale_tables \<Rightarrow> bool" where
  "stripe_ok s \<longleftrightarrow> (\<forall>a \<in> set (stripe_auths s). \<exists>r \<in> set (voucher_rows s). repays a r) \<and>
     (\<forall>r \<in> set (voucher_rows s). vr_rail r = STRIPE_USD \<and> vr_state r = REFUNDED \<longrightarrow> (\<exists>a \<in> set (stripe_auths s). repays a r))"

lemma answers_settled: "answers b r \<Longrightarrow> settled r"
  by (cases "ba_outcome b") (simp_all add: answers_def)

lemma repays_settled: "repays a r \<Longrightarrow> settled r"
  by (simp add: repays_def)

lemma sale_write_forward:
  assumes "sale_write s s'" and "sale_keys s" and "vouchers_ok s"
  shows "vouchers_forward (voucher_rows s) (voucher_rows s')"
  by (rule evolves_forward [OF sale_write_evolves [OF assms(1,2)]]) (use assms(3) in \<open>simp add: vouchers_ok_def\<close>)

lemma base_keep:
  assumes "base_ok s" and "\<And>r. r \<in> set (voucher_rows s) \<Longrightarrow> settled r \<Longrightarrow> r \<in> set (voucher_rows s')"
    and "\<And>r. r \<in> set (voucher_rows s') \<Longrightarrow> vr_rail r = BASE_SEPOLIA_USDC \<Longrightarrow> settled r \<Longrightarrow> r \<in> set (voucher_rows s)"
    and "(\<lambda>b. (ba_payment_id b, ba_outcome b)) ` set (base_auths s') = (\<lambda>b. (ba_payment_id b, ba_outcome b)) ` set (base_auths s)"
  shows "base_ok s'"
  unfolding base_ok_def
proof (intro conjI ballI impI)
  fix b'
  assume "b' \<in> set (base_auths s')"
  then have "(ba_payment_id b', ba_outcome b') \<in> (\<lambda>b. (ba_payment_id b, ba_outcome b)) ` set (base_auths s')"
    by (rule imageI)
  then obtain b where "b \<in> set (base_auths s)" "ba_payment_id b' = ba_payment_id b" "ba_outcome b' = ba_outcome b"
    unfolding assms(4) by auto
  moreover from this assms(1) obtain r where "r \<in> set (voucher_rows s)" "answers b r"
    unfolding base_ok_def by blast
  ultimately show "\<exists>r \<in> set (voucher_rows s'). answers b' r"
    using answers_settled [of b r] assms(2) by (intro bexI [of _ r]) (simp_all add: answers_def)
next
  fix r
  assume "r \<in> set (voucher_rows s')" and r: "vr_rail r = BASE_SEPOLIA_USDC \<and> settled r"
  then have "r \<in> set (voucher_rows s)" by (intro assms(3)) blast+
  with assms(1) r obtain b where b: "b \<in> set (base_auths s)" "answers b r"
    unfolding base_ok_def by blast
  then have "(ba_payment_id b, ba_outcome b) \<in> (\<lambda>b. (ba_payment_id b, ba_outcome b)) ` set (base_auths s')"
    unfolding assms(4) by simp
  then obtain b' where "b' \<in> set (base_auths s')" "ba_payment_id b' = ba_payment_id b" "ba_outcome b' = ba_outcome b"
    by auto
  with b(2) show "\<exists>b \<in> set (base_auths s'). answers b r"
    by (intro bexI [of _ b']) (simp_all add: answers_def)
qed

lemma stripe_keep:
  assumes "stripe_ok s" and "\<And>r. r \<in> set (voucher_rows s) \<Longrightarrow> settled r \<Longrightarrow> r \<in> set (voucher_rows s')"
    and "\<And>r. r \<in> set (voucher_rows s') \<Longrightarrow> vr_rail r = STRIPE_USD \<Longrightarrow> vr_state r = REFUNDED \<Longrightarrow> r \<in> set (voucher_rows s)"
    and "(\<lambda>a. (sa_purchase_id a, sa_json a)) ` set (stripe_auths s') = (\<lambda>a. (sa_purchase_id a, sa_json a)) ` set (stripe_auths s)"
  shows "stripe_ok s'"
  unfolding stripe_ok_def
proof (intro conjI ballI impI)
  fix a'
  assume "a' \<in> set (stripe_auths s')"
  then have "(sa_purchase_id a', sa_json a') \<in> (\<lambda>a. (sa_purchase_id a, sa_json a)) ` set (stripe_auths s')"
    by (rule imageI)
  then obtain a where "a \<in> set (stripe_auths s)" "sa_purchase_id a' = sa_purchase_id a" "sa_json a' = sa_json a"
    unfolding assms(4) by auto
  moreover from this assms(1) obtain r where "r \<in> set (voucher_rows s)" "repays a r"
    unfolding stripe_ok_def by blast
  ultimately show "\<exists>r \<in> set (voucher_rows s'). repays a' r"
    using repays_settled [of a r] assms(2) by (intro bexI [of _ r]) (simp_all add: repays_def)
next
  fix r
  assume "r \<in> set (voucher_rows s')" and r: "vr_rail r = STRIPE_USD \<and> vr_state r = REFUNDED"
  then have "r \<in> set (voucher_rows s)" by (intro assms(3)) blast+
  with assms(1) r obtain a where a: "a \<in> set (stripe_auths s)" "repays a r"
    unfolding stripe_ok_def by blast
  then have "(sa_purchase_id a, sa_json a) \<in> (\<lambda>a. (sa_purchase_id a, sa_json a)) ` set (stripe_auths s')"
    unfolding assms(4) by simp
  then obtain a' where "a' \<in> set (stripe_auths s')" "sa_purchase_id a' = sa_purchase_id a" "sa_json a' = sa_json a"
    by auto
  with a(2) show "\<exists>a \<in> set (stripe_auths s'). repays a r"
    by (intro bexI [of _ a']) (simp_all add: repays_def)
qed

text \<open>A settled row is new only in a settling write.\<close>

lemma put_settled: "x \<in> set (put_voucher r r' rows) \<Longrightarrow> settled x \<Longrightarrow> \<not> settled r' \<Longrightarrow> x \<in> set rows"
  by (drule replace_row_mem) auto

lemma put_here: "r \<in> set rows \<Longrightarrow> r' \<in> set (put_voucher r r' rows)"
  by (force simp: replace_row_def)

lemma launch_settled: "x \<in> set (start_redeeming t now rows) \<Longrightarrow> settled x \<Longrightarrow> x \<in> set rows"
  by (auto simp: start_redeeming_def set_where_mem split: if_split_asm)

lemma set_where_image: "(\<And>r. g (f r) = g r) \<Longrightarrow> g ` set (set_where p f rs) = g ` set rs"
  unfolding set_map [symmetric] set_where_def by (rule arg_cong [where f = set]) simp

text \<open>The authorization of a settling write is new: a voucher that is not settled has none.\<close>

lemma base_settled_new:
  assumes "base_ok s" and "table_ok voucher_clash (voucher_rows s)" and "r \<in> set (voucher_rows s)" and "\<not> settled r"
    and "base_settled outcome r (base_auths s) bs'"
  obtains b where "bs' = base_auths s @ [b]" "ba_payment_id b = vt_payment_id (vr_terms r)" "ba_outcome b = outcome"
proof -
  have "\<not> (\<exists>b \<in> set (base_auths s). ba_payment_id b = vt_payment_id (vr_terms r))"
  proof
    assume "\<exists>b \<in> set (base_auths s). ba_payment_id b = vt_payment_id (vr_terms r)"
    then obtain b x where x: "x \<in> set (voucher_rows s)" "answers b x" "ba_payment_id b = vt_payment_id (vr_terms r)"
      using assms(1) unfolding base_ok_def by blast
    then have "voucher_clash x r" by (simp add: answers_def voucher_clash_def)
    with voucher.clash_eq [OF assms(2) x(1) assms(3)] answers_settled [OF x(2)] assms(4) show False by simp
  qed
  with assms(5) that show thesis unfolding base_settled_def by blast
qed

lemma base_add:
  assumes "base_ok s" and "\<And>r. r \<in> set (voucher_rows s) \<Longrightarrow> settled r \<Longrightarrow> r \<in> set (voucher_rows s')"
    and "r \<in> set (voucher_rows s)" and "same_voucher r r'" and "vr_rail r = BASE_SEPOLIA_USDC"
    and "vr_state r' = outcome_state outcome" and "voucher_rows s' = put_voucher r r' (voucher_rows s)"
    and "base_auths s' = base_auths s @ [b]" and "ba_payment_id b = vt_payment_id (vr_terms r)" and "ba_outcome b = outcome"
  shows "base_ok s'"
proof -
  have new: "answers b r'" using assms(4-6,9,10) by (simp add: answers_def same_voucher_def)
  have "\<exists>x \<in> set (voucher_rows s'). answers y x" if "y \<in> set (base_auths s)" for y
    using assms(1,2) that answers_settled unfolding base_ok_def by blast
  moreover have "r' \<in> set (voucher_rows s')" using assms(3,7) put_here by simp
  moreover have "\<exists>y \<in> set (base_auths s @ [b]). answers y x"
    if "x \<in> set (voucher_rows s')" "vr_rail x = BASE_SEPOLIA_USDC \<and> settled x" for x
  proof (cases "x = r'")
    case False
    with that assms(7) have "x \<in> set (voucher_rows s)" by (metis replace_row_mem)
    with that(2) assms(1) obtain y where "y \<in> set (base_auths s)" "answers y x"
      unfolding base_ok_def by blast
    then show ?thesis by auto
  qed (use new in auto)
  ultimately show ?thesis
    using new unfolding base_ok_def assms(8) by auto
qed

lemma put_rail:
  "x \<in> set (put_voucher r r' rows) \<Longrightarrow> same_voucher r r' \<Longrightarrow> vr_rail x \<noteq> vr_rail r \<Longrightarrow> x \<in> set rows"
  by (drule replace_row_mem) (auto simp: same_voucher_def)

lemma sale_write_base:
  assumes "sale_write s s'" and "sale_keys s" and "vouchers_ok s" and "base_ok s"
  shows "base_ok s'"
proof -
  have keys: "table_ok voucher_clash (voucher_rows s)"
    using assms(2) by (simp add: sale_keys_def)
  have stay: "r \<in> set (voucher_rows s) \<Longrightarrow> settled r \<Longrightarrow> r \<in> set (voucher_rows s')" for r
    using vouchers_forward_settled [OF sale_write_forward [OF assms(1-3)]] .
  note keep = base_keep [OF assms(4) stay]
  from assms(1) show ?thesis
  proof cases
    case (write_reserve e r)
    then show ?thesis by (intro keep) auto
  next
    case (write_move r r')
    with open_move_D(4,6) [OF write_move(3)] show ?thesis
      by (intro keep) (auto dest: put_settled)
  next
    case (write_issue r r' h q q')
    then show ?thesis by (intro keep) (auto dest: put_settled)
  next
    case (write_refund r r' h q q' bs' as')
    have same: "same_voucher r r'" using write_refund(3) by (simp add: settles_def)
    have "rf_output (vr_refund r) = None \<or> vr_rail r = CHIA_XCH"
      using assms(3) write_refund(2) by (simp add: vouchers_ok_def voucher_columns_def)
    then consider "vr_rail r \<noteq> BASE_SEPOLIA_USDC" "bs' = base_auths s"
      | "vr_rail r = BASE_SEPOLIA_USDC" "base_settled REFUND r (base_auths s) bs'"
      using write_refund(10) by auto
    then show ?thesis
    proof cases
      case 1
      then show ?thesis
        by (intro keep) (auto simp: write_refund(1) dest: put_rail [OF _ same])
    next
      case 2
      obtain b where b: "bs' = base_auths s @ [b]" "ba_payment_id b = vt_payment_id (vr_terms r)" "ba_outcome b = REFUND"
        by (rule base_settled_new [OF assms(4) keys write_refund(2) _ 2(2)]) (use write_refund(4) in simp)
      show ?thesis
        by (rule base_add [OF assms(4) stay write_refund(2) same 2(1) _ _ _ b(2,3)]) (simp_all add: write_refund(1,5) b(1))
    qed
  next
    case (write_redeem r r' h q q' bs')
    have same: "same_voucher r r'" using write_redeem(3) by (simp add: settles_def)
    show ?thesis
    proof (cases "vr_rail r = BASE_SEPOLIA_USDC")
      case False
      then have "bs' = base_auths s" using write_redeem(10) by auto
      with False show ?thesis
        by (intro keep) (auto simp: write_redeem(1) dest: put_rail [OF _ same])
    next
      case True
      then have base: "base_settled DELIVERED r (base_auths s) bs'" using write_redeem(10) by auto
      obtain b where b: "bs' = base_auths s @ [b]" "ba_payment_id b = vt_payment_id (vr_terms r)" "ba_outcome b = DELIVERED"
        by (rule base_settled_new [OF assms(4) keys write_redeem(2) _ base]) (use write_redeem(4) in simp)
      show ?thesis
        by (rule base_add [OF assms(4) stay write_redeem(2) same True _ _ _ b(2,3)]) (simp_all add: write_redeem(1,5) b(1))
    qed
  next
    case (write_phase f vs t now p)
    then show ?thesis by (intro keep) (auto dest: launch_settled)
  next
    case (write_relay i now e)
    show ?thesis
      by (rule keep) (simp_all add: write_relay set_where_image)
  qed (rule keep; simp)+
qed

lemma sale_write_stripe:
  assumes "sale_write s s'" and "sale_keys s" and "vouchers_ok s" and "stripe_ok s"
  shows "stripe_ok s'"
proof -
  have stay: "r \<in> set (voucher_rows s) \<Longrightarrow> settled r \<Longrightarrow> r \<in> set (voucher_rows s')" for r
    using vouchers_forward_settled [OF sale_write_forward [OF assms(1-3)]] .
  note keep = stripe_keep [OF assms(4) stay]
  from assms(1) show ?thesis
  proof cases
    case (write_reserve e r)
    then show ?thesis by (intro keep) auto
  next
    case (write_move r r')
    with open_move_D(4,6) [OF write_move(3)] show ?thesis
      by (intro keep) (auto dest: put_settled)
  next
    case (write_issue r r' h q q')
    then show ?thesis by (intro keep) (auto dest: put_settled)
  next
    case (write_refund r r' h q q' bs' as')
    have same: "same_voucher r r'" using write_refund(3) by (simp add: settles_def)
    have "rf_output (vr_refund r) = None \<or> vr_rail r = CHIA_XCH"
      using assms(3) write_refund(2) by (simp add: vouchers_ok_def voucher_columns_def)
    then consider "vr_rail r \<noteq> STRIPE_USD" "as' = stripe_auths s"
      | a where "vr_rail r = STRIPE_USD" "as' = stripe_auths s @ [a]" "authorizes a r"
      using write_refund(10) by auto
    then show ?thesis
    proof cases
      case 1
      then show ?thesis
        by (intro keep) (auto simp: write_refund(1) dest: put_rail [OF _ same])
    next
      case 2
      have new: "repays a r'"
        using 2 same write_refund(5) by (simp add: repays_def authorizes_def same_voucher_def)
      have rows: "voucher_rows s' = put_voucher r r' (voucher_rows s)" by (simp add: write_refund(1))
      have "\<exists>x \<in> set (voucher_rows s'). repays y x" if "y \<in> set (stripe_auths s)" for y
        using assms(4) stay that repays_settled unfolding stripe_ok_def by blast
      moreover have "r' \<in> set (voucher_rows s')" using write_refund(2) rows put_here by simp
      moreover have "\<exists>y \<in> set (stripe_auths s @ [a]). repays y x"
        if "x \<in> set (voucher_rows s')" "vr_rail x = STRIPE_USD \<and> vr_state x = REFUNDED" for x
      proof (cases "x = r'")
        case False
        with that rows have "x \<in> set (voucher_rows s)" by (metis replace_row_mem)
        with that(2) assms(4) obtain y where "y \<in> set (stripe_auths s)" "repays y x"
          unfolding stripe_ok_def by blast
        then show ?thesis by auto
      qed (use new in auto)
      moreover have "stripe_auths s' = stripe_auths s @ [a]" by (simp add: write_refund(1) 2(2))
      ultimately show ?thesis
        using new unfolding stripe_ok_def by auto
    qed
  next
    case (write_redeem r r' h q q' bs')
    then show ?thesis by (intro keep) (auto dest!: replace_row_mem)
  next
    case (write_phase f vs t now p)
    then show ?thesis by (intro keep) (auto dest: launch_settled)
  next
    case (write_completion i now e)
    show ?thesis
      by (rule keep) (simp_all add: write_completion set_where_image)
  qed (rule keep; simp)+
qed

section \<open>Runs\<close>

definition sale_ok :: "sale_tables \<Rightarrow> bool" where
  "sale_ok s \<longleftrightarrow> sale_keys s \<and> vouchers_ok s \<and> accounts_ok s \<and> terminals_ok s \<and> base_ok s \<and> stripe_ok s"

lemma sale_write_ok: "sale_write s s' \<Longrightarrow> sale_ok s \<Longrightarrow> sale_ok s'"
  by (simp add: sale_ok_def sale_write_keys sale_write_vouchers sale_write_accounts sale_write_terminals sale_write_base
      sale_write_stripe)

lemma sale_ok_empty: "sale_ok (sale empty_presale_db)"
  by (simp add: sale_ok_def sale_def empty_presale_db_def sale_keys_def vouchers_ok_def accounts_ok_def terminals_ok_def
      base_ok_def stripe_ok_def)

interpretation presale: store "presale_step api" "\<lambda>db. sale_ok (sale db)" "\<lambda>_. True" for api
proof
  fix db op
  assume "sale_ok (sale db)"
  then show "sale_ok (sale (presale_step api op db))"
    by (intro sale_write_ok [OF presale_step_write]) (simp_all add: sale_ok_def)
qed

lemma presale_run_ok: "sale_ok (sale (run (presale_step api) ops empty_presale_db))"
  by (rule presale.run_inv [OF sale_ok_empty]) (simp add: list_all_iff)

lemma presale_run_forward:
  assumes "sale_ok (sale db)"
  shows "vouchers_forward (voucher_rows db) (voucher_rows (run (presale_step api) ops db))"
proof -
  have "vouchers_forward (voucher_rows db) (voucher_rows (presale_step api op db))" if "sale_ok (sale db)" for op db
    using sale_write_forward [OF presale_step_write] that by (simp add: sale_ok_def)
  then show ?thesis
    using presale.run_mono [where R = "\<lambda>x y. vouchers_forward (voucher_rows x) (voucher_rows y)" and api = api and s = db and ops = ops]
      assms by (simp add: list_all_iff reflp_def transp_def vouchers_forward_refl) (blast intro: vouchers_forward_trans)
qed

end
