(* ===== verification/PresaleDesk.thy ===== *)
theory PresaleDesk
  imports PresaleRuns
begin

text \<open>
  Workers: the lease of a series excludes every other worker, the delay of a retry is bounded, and no coin
  funds both a retained campaign bundle and a retained voucher bundle.
\<close>

section \<open>Frames\<close>

text \<open>The tables of the workers that the sale itself never writes.\<close>

definition desk :: "presale_db \<Rightarrow> lease_row list \<times> exec_row list \<times> input_row list" where
  "desk db = (lease_rows db, exec_rows db, campaign_inputs db)"

lemma desk_frame [simp]:
  "desk (db\<lparr>series_rows := a\<rparr>) = desk db" "desk (db\<lparr>event_rows := b\<rparr>) = desk db" "desk (db\<lparr>voucher_rows := c\<rparr>) = desk db"
  "desk (db\<lparr>base_auths := d\<rparr>) = desk db" "desk (db\<lparr>stripe_auths := e\<rparr>) = desk db" "desk (db\<lparr>campaign_ops := f\<rparr>) = desk db"
  "desk (db\<lparr>phase_history := g\<rparr>) = desk db" "desk (db\<lparr>lane_rows := h\<rparr>) = desk db" "desk (db\<lparr>attempt_rows := i\<rparr>) = desk db"
  "desk (db\<lparr>settlement_rows := j\<rparr>) = desk db" "desk (db\<lparr>refund_history_rows := k\<rparr>) = desk db"
  by (simp_all add: desk_def)

lemma txn_desk: "(\<And>a db'. b db = Inr (a, db') \<Longrightarrow> desk db' = desk db) \<Longrightarrow> desk (snd (txn b db)) = desk db"
  by (rule txn_keeps [where P = "\<lambda>x. desk x = desk db"]) auto

lemma txn_then_desk: "(\<And>a db'. b db = Inr (a, db') \<Longrightarrow> desk db' = desk db) \<Longrightarrow> desk (snd (txn_then b k db)) = desk db"
  unfolding txn_then_state by (rule txn_desk)

lemma voucher_call_desk:
  assumes "\<And>series body db'. k series = Inr body \<Longrightarrow> body db = Inr ((), db') \<Longrightarrow> desk db' = desk db"
  shows "desk (snd (voucher_call api t n k db)) = desk db"
  using assms by (auto simp: voucher_call_def bind_Inr split: sum.split intro!: txn_then_desk)

lemma update_voucher_desk [dest!]: "update_voucher p f m db = Inr db' \<Longrightarrow> desk db' = desk db"
  by (auto simp: update_voucher_def)

lemma update_series_desk [dest!]: "update_series p f m db = Inr db' \<Longrightarrow> desk db' = desk db"
  by (auto simp: update_series_def)

lemma insert_event_desk [dest!]: "insert_event e db = Inr db' \<Longrightarrow> desk db' = desk db"
  by (auto simp: insert_event_def bind_Inr)

lemma insert_voucher_desk [dest!]: "insert_voucher e db = Inr db' \<Longrightarrow> desk db' = desk db"
  by (auto simp: insert_voucher_def bind_Inr)

lemma insert_base_desk [dest!]: "insert_base_settlement_authorization api s v outcome c now db = Inr db' \<Longrightarrow> desk db' = desk db"
  by (auto simp: insert_base_settlement_authorization_def bind_Inr Let_def split: option.split_asm)

lemma refund_updates_desk [dest!]: "confirm_refund_updates what t n e live inner now db = Inr db' \<Longrightarrow> desk db' = desk db"
  by (auto simp: confirm_refund_updates_def Let_def bind_Inr)

lemmas desk_splits = option.split_asm if_split_asm

lemma desk_payments:
  "desk (snd (ingest_payment api t e check s now db)) = desk db"
  "desk (snd (ingest_stripe_payment api t e' check' now db)) = desk db"
  "desk (snd (record_native_issuance_submission api t p check'' s now db)) = desk db"
proof -
  have "desk db' = desk db" if "ingest_payment_body t e i now db = Inr (u, db')" for t i now u db'
    using that unfolding ingest_payment_body_def Let_def
    by (cases "lookup pe_payment_id (lower (ev_payment_id e)) (event_rows db)";
        cases "voucher_at db (lower t) (pi_ordinal i)") (auto simp: bind_Inr)
  then show "desk (snd (ingest_payment api t e check s now db)) = desk db"
    by (auto simp: ingest_payment_def split: sum.split intro!: txn_then_desk)
  have "desk db' = desk db" if "ingest_stripe_body t e' i now db = Inr (u, db')" for t i now u db'
    using that unfolding ingest_stripe_body_def Let_def
    by (cases "lookup pe_payment_id (vt_payment_id (xi_terms i)) (event_rows db)") (auto simp: bind_Inr)
  then show "desk (snd (ingest_stripe_payment api t e' check' now db)) = desk db"
    by (auto simp: ingest_stripe_payment_def split: sum.split intro!: txn_then_desk)
  have "desk db' = desk db" if "native_submission_body t p i s now db = Inr (u, db')" for t p i s now u db'
    using that unfolding native_submission_body_def Let_def
    by (cases "lookup pe_payment_id (lower p) (event_rows db)") (auto simp: bind_Inr)
  then show "desk (snd (record_native_issuance_submission api t p check'' s now db)) = desk db"
    by (auto simp: record_native_issuance_submission_def split: sum.split intro!: txn_then_desk)
qed

lemma desk_issuance:
  "desk (snd (confirm_issuance api t n e now db)) = desk db"
  "desk (snd (record_issuance_funding api t n b c p now db)) = desk db"
  "desk (snd (record_issuance_submission api t n s now db)) = desk db"
  "desk (snd (request_refund api t n v clock now db)) = desk db"
  unfolding confirm_issuance_def record_issuance_funding_def record_issuance_submission_def
  by (rule voucher_call_desk; auto simp: confirm_issuance_body_def issuance_funding_body_def issuance_submission_body_def
      Let_def bind_Inr split: desk_splits)+
    (auto simp: request_refund_def set_voucher_state_body_def bind_Inr split: sum.split if_split_asm intro!: txn_then_desk)

lemma desk_terminal:
  "desk (snd (bind_stripe_terminal_execution api t n e now db)) = desk db"
proof -
  have "desk db' = desk db" if b: "bind_terminal_body terms t n e c fee now db = Inr (u, db')" for terms t e c fee u db'
  proof -
    obtain row where row: "voucher_at db t n = Some row"
      using b by (auto simp: bind_terminal_body_def Let_def bind_Inr split: option.split_asm)
    with b show ?thesis
      by (cases "tm_execution (vr_terminal row)") (auto simp: bind_terminal_body_def Let_def bind_Inr)
  qed
  then show ?thesis
    by (auto simp: bind_stripe_terminal_execution_def split: sum.split intro!: txn_then_desk)
qed

lemma desk_refunds:
  "desk (snd (record_native_refund_submission api t n a out s now db)) = desk db"
  "desk (snd (record_base_expired_refund_submission api t n h s now db)) = desk db"
  "desk (snd (record_stripe_refund_submission api t n a h seen s now db)) = desk db"
proof -
  have "desk db' = desk db" if "native_refund_body series n a out s now db = Inr (u, db')" for series u db'
    using that by (auto simp: native_refund_body_def Let_def bind_Inr split: desk_splits)
  then show "desk (snd (record_native_refund_submission api t n a out s now db)) = desk db"
    unfolding record_native_refund_submission_def by (intro voucher_call_desk) (auto simp: bind_Inr)
  have "desk db' = desk db" if "base_refund_body series n x h s now db = Inr (u, db')" for series x u db'
    using that by (auto simp: base_refund_body_def Let_def bind_Inr split: desk_splits)
  then show "desk (snd (record_base_expired_refund_submission api t n h s now db)) = desk db"
    unfolding record_base_expired_refund_submission_def by (intro voucher_call_desk) auto
  have "desk db' = desk db" if "stripe_refund_body series n a x h seen s now db = Inr (u, db')" for series x u db'
    using that by (auto simp: stripe_refund_body_def Let_def bind_Inr split: desk_splits)
  then show "desk (snd (record_stripe_refund_submission api t n a h seen s now db)) = desk db"
    unfolding record_stripe_refund_submission_def by (intro voucher_call_desk) (auto simp: bind_Inr)
qed

lemma desk_confirms:
  "desk (snd (confirm_native_refund api t n e1 now db)) = desk db"
  "desk (snd (confirm_base_refund api t n e2 now db)) = desk db"
  "desk (snd (confirm_stripe_refund api t n e3 now db)) = desk db"
proof -
  have "desk db' = desk db" if "confirm_native_refund_body t n e1 now db = Inr (u, db')" for t u db'
    using that by (auto simp: confirm_native_refund_body_def bind_Inr split: desk_splits)
  then show "desk (snd (confirm_native_refund api t n e1 now db)) = desk db"
    unfolding confirm_native_refund_def by (intro voucher_call_desk) (auto simp: bind_Inr)
  have "desk db' = desk db" if "confirm_base_refund_body api s t n e2 now db = Inr (u, db')" for s t u db'
    using that by (auto simp: confirm_base_refund_body_def bind_Inr split: desk_splits)
  then show "desk (snd (confirm_base_refund api t n e2 now db)) = desk db"
    unfolding confirm_base_refund_def by (intro voucher_call_desk) auto
  have "desk db' = desk db" if "confirm_stripe_refund_body api s t n e3 now db = Inr (u, db')" for s t u db'
    using that by (auto simp: confirm_stripe_refund_body_def Let_def bind_Inr split: desk_splits)
  then show "desk (snd (confirm_stripe_refund api t n e3 now db)) = desk db"
    unfolding confirm_stripe_refund_def by (intro voucher_call_desk) (auto simp: bind_Inr)
qed

lemma desk_redemption:
  "desk (snd (record_redemption_submission api t n s h seen now db)) = desk db"
  "desk (snd (confirm_redemption api t n e now db)) = desk db"
proof -
  have "desk db' = desk db" if "redemption_body series n s h seen now db = Inr (u, db')" for series u db'
    using that by (auto simp: redemption_body_def Let_def bind_Inr split: desk_splits)
  then show "desk (snd (record_redemption_submission api t n s h seen now db)) = desk db"
    unfolding record_redemption_submission_def by (intro voucher_call_desk) auto
  have "desk db' = desk db" if "confirm_redemption_body api s t n e now db = Inr (u, db')" for s t u db'
    using that unfolding confirm_redemption_body_def Let_def by (auto simp: bind_Inr split: desk_splits)
  then show "desk (snd (confirm_redemption api t n e now db)) = desk db"
    unfolding confirm_redemption_def by (intro voucher_call_desk) auto
qed

lemma desk_records:
  "desk (snd (complete_stripe_refund_authorization i c now db)) = desk db"
  "desk (snd (record_base_settlement_relay_evidence api i e now db)) = desk db"
  "desk (snd (record_phase_submission api t s now db)) = desk db"
  "desk (snd (complete_refund api t n db)) = desk db" "desk (snd (complete_delivery api t n db)) = desk db"
proof -
  show "desk (snd (complete_stripe_refund_authorization i c now db)) = desk db"
    unfolding complete_stripe_refund_authorization_def
    by (rule txn_then_desk) (auto simp: complete_stripe_body_def Let_def bind_Inr split: desk_splits)
  show "desk (snd (record_base_settlement_relay_evidence api i e now db)) = desk db"
    unfolding record_base_settlement_relay_evidence_def
    by (rule txn_then_desk) (auto simp: relay_body_def Let_def split: desk_splits)
  have "desk db' = desk db" if "phase_submission_body t t' s now db = Inr (u, db')" for t t' u db'
    using that by (auto simp: phase_submission_body_def split: desk_splits)
  then show "desk (snd (record_phase_submission api t s now db)) = desk db"
    by (auto simp: record_phase_submission_def split: sum.split intro!: txn_then_desk)
qed (auto simp: complete_refund_def complete_delivery_def split: sum.split)

lemma desk_settlement: "desk (snd (record_refund_settlement api t n x e db)) = desk db"
proof -
  have "desk db' = desk db" if "keep_settlement previous t n e db = Inr (u, db')" for previous u db'
    using that by (auto simp: keep_settlement_def bind_Inr split: option.split_asm json.split_asm list.split_asm)
  then have "desk db' = desk db" if "record_settlement_body api t n x e db = Inr (u, db')" for u db'
    using that by (auto simp: record_settlement_body_def bind_Inr)
  then show ?thesis
    by (auto simp: record_refund_settlement_def split: sum.split intro!: txn_desk)
qed

lemma desk_advance: "desk (snd (advance_stripe_refund_attempt api t n p c x confirmed db)) = desk db"
proof -
  have "desk db' = desk db" if "advance_stripe_body api t n p c x confirmed old new db = Inr (u, db')" for old new u db'
    using that by (auto simp: advance_stripe_body_def Let_def bind_Inr split: option.split_asm)
  then show ?thesis
    by (auto simp: advance_stripe_refund_attempt_def split: sum.split intro!: txn_desk)
qed

lemmas desk_calls = desk_payments desk_issuance desk_terminal desk_refunds desk_confirms desk_redemption desk_records
  desk_settlement desk_advance

end
