(* ===== verification/PresaleWorkers.thy ===== *)
theory PresaleWorkers
  imports PresaleDesk
begin

text \<open>The lease of a series excludes every other worker; the delay of a retry is bounded.\<close>

section \<open>Calls that leave the leases\<close>

lemma create_desk:
  assumes "create_body api terms launch op chain now db = Inr (x, db')"
  shows "lease_rows db' = lease_rows db \<and> exec_rows db' = exec_rows db"
  using assms
  by (cases op) (auto simp: create_body_def bind_Inr Let_def dest!: insert_operation_frame)

lemma leases_create: "lease_rows (snd (create api terms launch op now db)) = lease_rows db"
proof (cases "genesis_chain api terms launch")
  case (Inr chain)
  show ?thesis
    unfolding create_def Inr sum.case txn_then_state
    by (rule txn_keeps [where P = "\<lambda>x. lease_rows x = lease_rows db"]) (auto dest: create_desk)
qed (simp add: create_def)

lemma retain_phase_desk:
  "retain_phase_body api t op chain now db = Inr (x, db') \<Longrightarrow> lease_rows db' = lease_rows db \<and> exec_rows db' = exec_rows db"
  by (auto simp: retain_phase_body_def bind_Inr split: option.split_asm dest: insert_operation_frame)

lemma leases_retain_phase: "lease_rows (snd (retain_campaign_phase api t op chain now db)) = lease_rows db"
proof (cases "py_index op ''kind''")
  case (Inr k)
  have "lease_rows (snd (txn_then (retain_phase_body api t op chain now) f db)) = lease_rows db" for f :: "json option \<Rightarrow> presale_db \<Rightarrow> py_error + json option"
    unfolding txn_then_state
    by (rule txn_keeps [where P = "\<lambda>x. lease_rows x = lease_rows db"]) (auto dest: retain_phase_desk)
  then show ?thesis by (simp add: retain_campaign_phase_def Inr)
qed (simp add: retain_campaign_phase_def)

lemma leases_retain_execution: "lease_rows (snd (retain_campaign_execution api t k e x db)) = lease_rows db"
  unfolding retain_campaign_execution_def
  by (rule txn_keeps [where P = "\<lambda>x. lease_rows x = lease_rows db"])
    (auto simp: bind_Inr split: option.split_asm dest!: retain_execution_frame)

lemma leases_confirm_campaign: "lease_rows (snd (confirm_campaign_operation t k h db)) = lease_rows db"
  unfolding confirm_campaign_operation_def
  by (rule txn_keeps [where P = "\<lambda>x. lease_rows x = lease_rows db"]) (auto dest!: confirm_operation_frame)

lemma archive_desk:
  "archive_body api t op proof db = Inr (x, db') \<Longrightarrow> lease_rows db' = lease_rows db \<and> exec_rows db' = exec_rows db"
  by (auto simp: archive_body_def bind_Inr Let_def split: option.split_asm)

lemma leases_archive: "lease_rows (snd (archive_expired_campaign_phase api t op proof db)) = lease_rows db"
proof -
  have "lease_rows (snd (txn (archive_body api t op proof) db)) = lease_rows db"
    by (rule txn_keeps [where P = "\<lambda>x. lease_rows x = lease_rows db"]) (auto dest: archive_desk)
  then show ?thesis by (auto simp: archive_expired_campaign_phase_def Let_def split: sum.split)
qed

lemma confirm_phase_desk:
  assumes "confirm_phase_body api t0 terms t e now db = Inr (u, db')"
  shows "lease_rows db' = lease_rows db \<and> exec_rows db' = exec_rows db"
proof -
  obtain row where row: "series_row_of db t = Some row"
    using assms by (auto simp: confirm_phase_body_def split: option.split_asm)
  from assms obtain p f m db1 db2 op where u: "update_series p f m db = Inr db1"
    and op: "(if op = (None :: json option) then Inr ((), db1) else confirm_operation_body terms ''phase'' (JInt (vp_height e)) db1) = Inr ((), db2)"
    and d: "db' = (if vp_target e = LIVE then db2\<lparr>voucher_rows := start_redeeming t now (voucher_rows db2)\<rparr> else db2)"
    unfolding confirm_phase_body_def row option.case Let_def bind_Inr raise_if_Inr by (elim exE conjE) (auto split: prod.split_asm)
  from op have "lease_rows db2 = lease_rows db1 \<and> exec_rows db2 = exec_rows db1"
    by (auto split: if_split_asm dest: confirm_operation_frame)
  with update_series_desk [OF u] d show ?thesis by (auto simp: desk_def)
qed

lemma leases_confirm_phase: "lease_rows (snd (confirm_phase_transition api t e all now db)) = lease_rows db"
proof (cases "get_series api db t")
  case (Inr series)
  show ?thesis
    unfolding confirm_phase_transition_def Inr sum.case txn_then_state
    by (rule txn_keeps [where P = "\<lambda>x. lease_rows x = lease_rows db"]) (auto dest: confirm_phase_desk)
qed (simp add: confirm_phase_transition_def)

lemma retain_voucher_leases: "retain_voucher_body api t n e db = Inr (u, db') \<Longrightarrow> lease_rows db' = lease_rows db"
  by (auto simp: retain_voucher_body_def bind_Inr Let_def)

lemma leases_executions:
  "lease_rows (snd (retain_voucher_execution api t n e db)) = lease_rows db"
  "lease_rows (snd (confirm_voucher_execution t n k db)) = lease_rows db"
  "lease_rows (snd (advance_native_refund_attempt api t n p c x confirmed db)) = lease_rows db"
proof -
  show "lease_rows (snd (retain_voucher_execution api t n e db)) = lease_rows db"
    unfolding retain_voucher_execution_def
    by (rule txn_keeps [where P = "\<lambda>x. lease_rows x = lease_rows db"]) (auto dest: retain_voucher_leases)
  show "lease_rows (snd (confirm_voucher_execution t n k db)) = lease_rows db"
    unfolding confirm_voucher_execution_def
    by (rule txn_keeps [where P = "\<lambda>x. lease_rows x = lease_rows db"]) auto
  have "lease_rows (snd (txn (advance_native_body api t n p c x confirmed old new) db)) = lease_rows db" for old new
    by (rule txn_keeps [where P = "\<lambda>x. lease_rows x = lease_rows db"])
      (auto simp: advance_native_body_def Let_def bind_Inr split: option.split_asm)
  then show "lease_rows (snd (advance_native_refund_attempt api t n p c x confirmed db)) = lease_rows db"
    by (auto simp: advance_native_refund_attempt_def split: sum.split)
qed

lemma desk_leases: "desk db' = desk db \<Longrightarrow> lease_rows db' = lease_rows db"
  by (simp add: desk_def)

lemmas lease_calls = leases_create leases_retain_phase leases_retain_execution leases_confirm_campaign leases_archive
  leases_confirm_phase leases_executions desk_calls [THEN desk_leases]

section \<open>Leases\<close>

definition leases_ok :: "presale_db \<Rightarrow> bool" where
  "leases_ok db \<longleftrightarrow> table_ok lease_clash (lease_rows db)"

definition lease_held :: "string \<Rightarrow> string \<Rightarrow> rat \<Rightarrow> presale_db \<Rightarrow> bool" where
  "lease_held t owner until db \<longleftrightarrow>
     lookup ws_terms t (lease_rows db) = Some \<lparr>ws_terms = t, ws_owner = Some owner, ws_until = until\<rparr>"

lemma ensure_lease_ok: "table_ok lease_clash rows \<Longrightarrow> table_ok lease_clash (ensure_lease t rows)"
  unfolding ensure_lease_def insert_or_ignore_def by (auto split: option.split intro: lease.ok_insert)

lemma take_lease_ok: "table_ok lease_clash rows \<Longrightarrow> table_ok lease_clash (take_lease t owner now rows)"
  unfolding take_lease_def by (rule table_ok_set_where) (auto simp: lease_clash_def split: if_split_asm)

lemma release_lease_ok: "table_ok lease_clash rows \<Longrightarrow> table_ok lease_clash (release_lease t owner rows)"
  unfolding release_lease_def by (rule table_ok_set_where) (auto simp: lease_clash_def split: if_split_asm)

lemma lookup_ensure: "lookup ws_terms t rows = Some r \<Longrightarrow> lookup ws_terms t (ensure_lease t' rows) = Some r"
  unfolding ensure_lease_def insert_or_ignore_def by (auto simp: sql_insert_Some lookup_append split: option.split)

lemma held_not_free:
  assumes "table_ok lease_clash rows" and "lookup ws_terms t rows = Some r" and "now < ws_until r"
  shows "rowcount (lease_free t now) (ensure_lease t rows) = 0"
proof (rule ccontr)
  assume "rowcount (lease_free t now) (ensure_lease t rows) \<noteq> 0"
  then obtain x where x: "x \<in> set (ensure_lease t rows)" "ws_terms x = t" "ws_until x \<le> now"
    unfolding rowcount_pos lease_free_def by blast
  have "lookup ws_terms t (ensure_lease t rows) = Some x"
    using lease.lookup_mem [OF ensure_lease_ok [OF assms(1)] x(1)] x(2) by simp
  with lookup_ensure [OF assms(2), of t] x(3) assms(3) show False by simp
qed

lemma lookup_take: "t' \<noteq> t \<Longrightarrow> lookup ws_terms t (take_lease t' owner now rows) = lookup ws_terms t rows"
  unfolding take_lease_def
  by (subst lookup_set_where, simp) (cases "lookup ws_terms t rows", auto simp: lease_free_def dest: lookup_Some_D)

lemma lookup_release:
  "lookup ws_terms t rows = Some r \<Longrightarrow> t' \<noteq> t \<or> ws_owner r \<noteq> Some owner \<Longrightarrow>
   lookup ws_terms t (release_lease t' owner rows) = Some r"
  unfolding release_lease_def by (subst lookup_set_where) (auto dest: lookup_Some_D)

section \<open>Exclusion\<close>

text \<open>
  While a lease of the series lives, the calls in question are made before its end and its owner does not
  finish: then the lease stays, and no worker is given the series.
\<close>

lemma claim_loop_held:
  assumes "claim_loop lane other now xs rows db = Inr (j, db')" and "leases_ok db" and "lease_held t owner until db" and "now < until"
  shows "leases_ok db' \<and> lease_held t owner until db' \<and> (\<forall>k. j = Some k \<longrightarrow> job_terms k \<noteq> t)"
  using assms(1-3)
proof (induction rows arbitrary: db)
  case (Cons row rows)
  obtain t' n where row: "row = (t', n)" by (cases row)
  from Cons.prems(1) [unfolded row] show ?case
  proof (cases rule: claim_loop_cases)
    case (skipped db1)
    have "leases_ok db1" "lease_held t owner until db1"
      using skipped(2) Cons.prems(2,3) by (auto simp: leases_ok_def lease_held_def ensure_lease_ok lookup_ensure)
    then show ?thesis by (rule Cons.IH [OF skipped(1)])
  next
    case taken
    have "t' \<noteq> t"
      using held_not_free [of "lease_rows db" t _ now] taken(1) Cons.prems(2,3) assms(4)
      by (auto simp: leases_ok_def lease_held_def)
    then show ?thesis
      using taken(2,3) Cons.prems(2,3)
      by (simp add: leases_ok_def lease_held_def ensure_lease_ok take_lease_ok lookup_take lookup_ensure)
  qed
qed simp

definition claim_body ::
  "worker_lane \<Rightarrow> string \<Rightarrow> rat \<Rightarrow> string list \<Rightarrow> (presale_db, py_error, job option) body" where
  "claim_body lane owner now excluded db0 =
     (let db = db0\<lparr>lane_rows := ensure_lane lane (lane_rows db0)\<rparr> in
      case lookup wl_lane lane (lane_rows db) of
        None \<Rightarrow> Inl TypeError
      | Some state \<Rightarrow>
          if wl_until state > now then Inr (None, db)
          else claim_loop lane owner now excluded (scan lane db (wl_cursor_terms state, wl_cursor_serial state)) db)"

lemma claim_voucher_work_body: "claim_voucher_work lane owner now xs = txn (claim_body lane owner now xs)"
  unfolding claim_voucher_work_def by (rule arg_cong [where f = txn]) (rule ext, simp only: claim_body_def)

lemma claim_body_held:
  assumes "claim_body lane other now xs db = Inr (j, db')" and "leases_ok db" and "lease_held t owner until db" and "now < until"
  shows "leases_ok db' \<and> lease_held t owner until db' \<and> (\<forall>k. j = Some k \<longrightarrow> job_terms k \<noteq> t)"
proof -
  let ?db = "db\<lparr>lane_rows := ensure_lane lane (lane_rows db)\<rparr>"
  have same: "leases_ok ?db" "lease_held t owner until ?db"
    using assms(2,3) by (simp_all add: leases_ok_def lease_held_def)
  consider "j = None" "db' = ?db" | rows where "claim_loop lane other now xs rows ?db = Inr (j, db')"
  proof (cases "lookup wl_lane lane (lane_rows ?db)")
    case None
    with assms(1) show thesis by (simp add: claim_body_def Let_def)
  next
    case (Some state)
    show thesis
    proof (cases "wl_until state > now")
      case True
      with assms(1) Some that(1) show thesis by (simp add: claim_body_def Let_def)
    next
      case False
      with assms(1) Some have "claim_loop lane other now xs (scan lane ?db (wl_cursor_terms state, wl_cursor_serial state)) ?db = Inr (j, db')"
        by (simp add: claim_body_def Let_def del: claim_loop.simps)
      then show thesis by (rule that(2))
    qed
  qed
  then show ?thesis
  proof cases
    case 2
    from claim_loop_held [OF this same assms(4)] show ?thesis .
  qed (use same in simp)
qed

lemma claim_held:
  assumes "leases_ok db" and "lease_held t owner until db" and "now < until"
  shows "leases_ok (snd (claim_voucher_work lane other now xs db)) \<and> lease_held t owner until (snd (claim_voucher_work lane other now xs db))"
    and "fst (claim_voucher_work lane other now xs db) = Inr (Some k) \<Longrightarrow> job_terms k \<noteq> t"
  using claim_body_held [OF _ assms] assms(1,2) unfolding claim_voucher_work_body txn_def
  by (cases "claim_body lane other now xs db"; force)+

lemma claim_direct_held:
  assumes "leases_ok db" and "lease_held t owner until db" and "now < until"
  shows "leases_ok (snd (claim_direct_voucher_work t' other now db)) \<and> lease_held t owner until (snd (claim_direct_voucher_work t' other now db))"
    and "t' = t \<Longrightarrow> fst (claim_direct_voucher_work t' other now db) \<noteq> Inr ()"
proof -
  have busy: "rowcount (lease_free t now) (ensure_lease t (lease_rows db)) = 0"
    using held_not_free [of "lease_rows db" t _ now] assms by (auto simp: leases_ok_def lease_held_def)
  have b: "t' \<noteq> t \<and> leases_ok db' \<and> lease_held t owner until db'" if "claim_direct_body t' other now db = Inr (u, db')" for u db'
  proof -
    have d: "rowcount (lease_free t' now) (ensure_lease t' (lease_rows db)) = 1"
        "db' = db\<lparr>lease_rows := take_lease t' other now (ensure_lease t' (lease_rows db))\<rparr>"
      using that by (simp_all add: claim_direct_body_def Let_def bind_Inr)
    with busy have "t' \<noteq> t" by auto
    then show ?thesis
      using assms(1,2) by (simp add: d(2) leases_ok_def lease_held_def ensure_lease_ok take_lease_ok lookup_take lookup_ensure)
  qed
  then show "leases_ok (snd (claim_direct_voucher_work t' other now db)) \<and> lease_held t owner until (snd (claim_direct_voucher_work t' other now db))"
    "t' = t \<Longrightarrow> fst (claim_direct_voucher_work t' other now db) \<noteq> Inr ()"
    using assms(1,2) unfolding claim_direct_voucher_work_def txn_def
    by (cases "claim_direct_body t' other now db"; force)+
qed

fun op_respects :: "string \<Rightarrow> string \<Rightarrow> rat \<Rightarrow> presale_op \<Rightarrow> bool" where
  "op_respects t owner until (Claim_work lane other now xs) = (now < until)"
| "op_respects t owner until (Claim_direct t' other now) = (now < until)"
| "op_respects t owner until (Finish_work j now status) = (\<not> (job_terms j = t \<and> job_owner j = owner))"
| "op_respects t owner until (Finish_direct t' other) = (\<not> (t' = t \<and> other = owner))"
| "op_respects t owner until op = True"

lemma finish_held:
  assumes "leases_ok db" and "lease_held t owner until db" and "\<not> (job_terms j = t \<and> job_owner j = owner)"
  shows "leases_ok (snd (finish_voucher_work j now status db)) \<and> lease_held t owner until (snd (finish_voucher_work j now status db))"
proof -
  have "leases_ok db' \<and> lease_held t owner until db'" if "finish_body j now status db = Inr (u, db')" for u db'
  proof -
    have "lease_rows db' = lease_rows db \<or> lease_rows db' = release_lease (job_terms j) (job_owner j) (lease_rows db)"
      using that by (auto simp: finish_body_def Let_def split: if_split_asm)
    with assms show ?thesis
      by (auto simp: leases_ok_def lease_held_def release_lease_ok lookup_release)
  qed
  then show ?thesis
    unfolding finish_voucher_work_def using assms(1,2)
    by (intro txn_keeps [where P = "\<lambda>x. leases_ok x \<and> lease_held t owner until x"]) auto
qed

lemma finish_direct_held:
  assumes "leases_ok db" and "lease_held t owner until db" and "\<not> (t' = t \<and> other = owner)"
  shows "leases_ok (snd (finish_direct_voucher_work t' other db)) \<and> lease_held t owner until (snd (finish_direct_voucher_work t' other db))"
  using assms by (auto simp: finish_direct_voucher_work_def txn_def leases_ok_def lease_held_def release_lease_ok lookup_release)

lemma same_leases:
  "lease_rows db' = lease_rows db \<Longrightarrow> leases_ok db \<and> lease_held t owner until db \<Longrightarrow> leases_ok db' \<and> lease_held t owner until db'"
  by (simp add: leases_ok_def lease_held_def)

fun leases_op :: "presale_op \<Rightarrow> bool" where
  "leases_op (Claim_work lane other now xs) = True"
| "leases_op (Claim_direct t other now) = True"
| "leases_op (Finish_work j now status) = True"
| "leases_op (Finish_direct t other) = True"
| "leases_op op = False"

lemma other_leases: "\<not> leases_op op \<Longrightarrow> lease_rows (presale_step api op db) = lease_rows db"
  by (cases op) (simp_all only: presale_step.simps lease_calls leases_op.simps simp_thms)

interpretation leased: store "presale_step api" "\<lambda>db. leases_ok db \<and> lease_held t owner until db" "op_respects t owner until"
  for api t owner until
proof
  fix db op
  assume held: "leases_ok db \<and> lease_held t owner until db" and ok: "op_respects t owner until op"
  show "leases_ok (presale_step api op db) \<and> lease_held t owner until (presale_step api op db)"
  proof (cases "leases_op op")
    case True
    have here: "leases_ok db" "lease_held t owner until db" using held by simp_all
    note keep = claim_held(1) [OF here] claim_direct_held(1) [OF here] finish_held [OF here] finish_direct_held [OF here]
    from True ok show ?thesis
      by (elim leases_op.elims(2)) (simp_all only: presale_step.simps op_respects.simps keep simp_thms)
  next
    case False
    show ?thesis using other_leases [OF False] held by (rule same_leases)
  qed
qed

text \<open>A claim that gives a job leaves its lease with the claimant.\<close>

lemma take_held:
  assumes "table_ok lease_clash rows" and "rowcount (lease_free t now) (ensure_lease t rows) \<noteq> 0"
  shows "lookup ws_terms t (take_lease t owner now (ensure_lease t rows)) = Some \<lparr>ws_terms = t, ws_owner = Some owner, ws_until = now + LEASE_SECONDS\<rparr>"
proof -
  obtain x where x: "x \<in> set (ensure_lease t rows)" "lease_free t now x"
    using assms(2) unfolding rowcount_pos by blast
  then have "lookup ws_terms t (ensure_lease t rows) = Some x"
    using lease.lookup_mem [OF ensure_lease_ok [OF assms(1)] x(1)] by (simp add: lease_free_def)
  with x(2) show ?thesis
    unfolding take_lease_def by (subst lookup_set_where) (simp_all add: lease_free_def)
qed

lemma claim_loop_takes:
  assumes "claim_loop lane owner now xs rows db = Inr (Some j, db')" and "leases_ok db"
  shows "leases_ok db' \<and> lease_held (job_terms j) owner (now + LEASE_SECONDS) db'"
  using assms
proof (induction rows arbitrary: db)
  case (Cons row rows)
  obtain t' n where row: "row = (t', n)" by (cases row)
  from Cons.prems(1) [unfolded row] show ?case
  proof (cases rule: claim_loop_cases)
    case (skipped db1)
    have "leases_ok db1"
      using skipped(2) Cons.prems(2) by (auto simp: leases_ok_def ensure_lease_ok)
    then show ?thesis by (rule Cons.IH [OF skipped(1)])
  next
    case taken
    then show ?thesis
      using Cons.prems(2) take_held [OF _ taken(1)]
      by (simp add: leases_ok_def lease_held_def ensure_lease_ok take_lease_ok)
  qed
qed simp

lemma claim_takes:
  assumes "claim_voucher_work lane owner now xs db = (Inr (Some j), db')" and "leases_ok db"
  shows "leases_ok db' \<and> lease_held (job_terms j) owner (now + LEASE_SECONDS) db'"
proof -
  let ?db = "db\<lparr>lane_rows := ensure_lane lane (lane_rows db)\<rparr>"
  have "claim_body lane owner now xs db = Inr (Some j, db')"
    using assms(1) unfolding claim_voucher_work_body txn_Inr_iff .
  then obtain rows where "claim_loop lane owner now xs rows ?db = Inr (Some j, db')"
    unfolding claim_body_def Let_def
    by (cases "lookup wl_lane lane (lane_rows ?db)") (simp_all del: claim_loop.simps split: if_split_asm)
  then show ?thesis
    by (rule claim_loop_takes) (use assms(2) in \<open>simp add: leases_ok_def\<close>)
qed

section \<open>Properties\<close>

text \<open>
  C13. From the moment a worker is given a job until its lease of sixty seconds ends or it finishes, no other
  worker on any lane is given work of the same series and no direct call gets the lease, whatever calls of
  the store happen in between.
\<close>

theorem voucher_lease_exclusive:
  assumes "claim_voucher_work lane owner now xs db = (Inr (Some j), db1)" and "leases_ok db"
    and "list_all (op_respects (job_terms j) owner (now + LEASE_SECONDS)) ops" and "later < now + LEASE_SECONDS"
  shows "(\<forall>k. fst (claim_voucher_work lane' other later xs' (run (presale_step api) ops db1)) = Inr (Some k) \<longrightarrow>
      job_terms k \<noteq> job_terms j) \<and>
    fst (claim_direct_voucher_work (job_terms j) other later (run (presale_step api) ops db1)) \<noteq> Inr ()"
proof -
  have "leases_ok (run (presale_step api) ops db1) \<and> lease_held (job_terms j) owner (now + LEASE_SECONDS) (run (presale_step api) ops db1)"
    using leased.run_inv [OF claim_takes [OF assms(1,2)] assms(3)] .
  then show ?thesis
    using claim_held(2) [OF _ _ assms(4)] claim_direct_held(2) [OF _ _ assms(4)] by blast
qed

definition toy_op :: op_row where
  "toy_op = \<lparr>co_terms = ''0x01'', co_kind = ''creation'', co_intent = ''{}'', co_context = ''{}'', co_preparation = ''{}'',
     co_execution = None, co_height = None\<rparr>"

lemma voucher_lease_exclusive_witness:
  "\<exists>db1. claim_voucher_work Lane_campaign ''a'' 100 [] (empty_presale_db\<lparr>campaign_ops := [toy_op]\<rparr>)
      = (Inr (Some \<lparr>job_lane = Lane_campaign, job_terms = ''0x01'', job_serial = -1, job_owner = ''a''\<rparr>), db1) \<and>
    (\<forall>api. fst (claim_direct_voucher_work ''0x01'' ''b'' 159 (run (presale_step api) [Claim_work Lane_retained ''c'' 120 []] db1)) \<noteq> Inr ())"
proof -
  let ?j = "\<lparr>job_lane = Lane_campaign, job_terms = ''0x01'', job_serial = -1, job_owner = ''a''\<rparr>"
  have "fst (claim_voucher_work Lane_campaign ''a'' 100 [] (empty_presale_db\<lparr>campaign_ops := [toy_op]\<rparr>)) = Inr (Some ?j)"
    by code_simp
  then obtain db1 where c: "claim_voucher_work Lane_campaign ''a'' 100 [] (empty_presale_db\<lparr>campaign_ops := [toy_op]\<rparr>) = (Inr (Some ?j), db1)"
    by (cases "claim_voucher_work Lane_campaign ''a'' 100 [] (empty_presale_db\<lparr>campaign_ops := [toy_op]\<rparr>)") auto
  have "leases_ok (empty_presale_db\<lparr>campaign_ops := [toy_op]\<rparr>)" by (simp add: leases_ok_def empty_presale_db_def)
  then have "fst (claim_direct_voucher_work ''0x01'' ''b'' 159 (run (presale_step api) [Claim_work Lane_retained ''c'' 120 []] db1)) \<noteq> Inr ()" for api
    using voucher_lease_exclusive [OF c, where api = api and ops = "[Claim_work Lane_retained ''c'' 120 []]" and later = 159]
    by (simp add: LEASE_SECONDS_def)
  with c show ?thesis by blast
qed

lemma retry_delay_bounds: "15 \<le> retry_delay n" "retry_delay n \<le> 240"
proof -
  have "(15::int) * 1 \<le> 15 * 2 ^ nat (min 4 (n - 1))" by (intro mult_left_mono) simp_all
  then show "15 \<le> retry_delay n" "retry_delay n \<le> 240" by (simp_all add: retry_delay_def)
qed

lemma lookup_upsert:
  "lookup (\<lambda>r. (wa_lane r, wa_terms r, wa_serial r)) (wa_lane row, wa_terms row, wa_serial row)
     (case sql_insert attempt_clash row rows of Some rows' \<Rightarrow> rows' | None \<Rightarrow> set_where (attempt_clash row) (\<lambda>_. row) rows) = Some row"
proof (cases "sql_insert attempt_clash row rows")
  case None
  then obtain x where "x \<in> set rows" "attempt_clash row x" by (auto simp: sql_insert_None)
  then obtain z where z: "lookup (\<lambda>r. (wa_lane r, wa_terms r, wa_serial r)) (wa_lane row, wa_terms row, wa_serial row) rows = Some z"
    using lookup_None_D [of "\<lambda>r. (wa_lane r, wa_terms r, wa_serial r)" "(wa_lane row, wa_terms row, wa_serial row)" rows x]
    by (cases "lookup (\<lambda>r. (wa_lane r, wa_terms r, wa_serial r)) (wa_lane row, wa_terms row, wa_serial row) rows")
      (simp_all add: attempt_clash_def)
  then show ?thesis
    unfolding None option.case
    by (subst lookup_set_where) (use lookup_Some_D [OF z] in \<open>simp_all add: attempt_clash_def z\<close>)
next
  case (Some rows')
  then show ?thesis by (simp add: attempt.lookup_insert [OF Some])
qed

text \<open>
  Work that failed is due again after 15 to 240 seconds and its attempts stop counting at 20; work that
  ended otherwise is due at once with no attempt on record.
\<close>

theorem voucher_retry_bounded:
  assumes "rowcount (\<lambda>r. wl_lane r = job_lane j \<and> wl_owner r = Some (job_owner j)) (lane_rows db) \<noteq> 0"
  shows "\<exists>row. lookup (\<lambda>r. (wa_lane r, wa_terms r, wa_serial r)) (job_lane j, job_terms j, job_serial j)
      (attempt_rows (snd (finish_voucher_work j now status db))) = Some row \<and> wa_observed row = now \<and> wa_status row = status \<and>
    (if failed_status status then now + 15 \<le> wa_due row \<and> wa_due row \<le> now + 240 \<and> wa_attempts row \<le> 20
     else wa_due row = now \<and> wa_attempts row = 0)"
proof -
  define n where "n = next_attempts (failed_status status) (lookup (\<lambda>r. (wa_lane r, wa_terms r, wa_serial r))
      (job_lane j, job_terms j, job_serial j) (attempt_rows db))"
  define row where "row = \<lparr>wa_lane = job_lane j, wa_terms = job_terms j, wa_serial = job_serial j,
      wa_due = (if failed_status status then now + of_int (retry_delay n) else now), wa_attempts = n,
      wa_status = status, wa_observed = now\<rparr>"
  have key: "(job_lane j, job_terms j, job_serial j) = (wa_lane row, wa_terms row, wa_serial row)"
    by (simp add: row_def)
  have "attempt_rows (snd (finish_voucher_work j now status db)) = (case sql_insert attempt_clash row (attempt_rows db) of
      Some rows \<Rightarrow> rows | None \<Rightarrow> set_where (attempt_clash row) (\<lambda>_. row) (attempt_rows db))"
    unfolding finish_voucher_work_def txn_def finish_body_def Let_def if_not_P [OF assms] sum.case prod.case snd_conv row_def n_def
    by (simp split del: if_split cong del: option.case_cong)
  then have "lookup (\<lambda>r. (wa_lane r, wa_terms r, wa_serial r)) (job_lane j, job_terms j, job_serial j)
      (attempt_rows (snd (finish_voucher_work j now status db))) = Some row"
    unfolding key by (simp only: lookup_upsert)
  moreover have "(15::rat) \<le> of_int (retry_delay n)" "of_int (retry_delay n) \<le> (240::rat)"
    using retry_delay_bounds [of n] by (metis of_int_le_iff of_int_numeral)+
  moreover have "if failed_status status then n \<le> 20 else n = 0"
    by (simp add: next_attempts_def n_def)
  ultimately show ?thesis
    by (intro exI [of _ row]) (simp add: row_def)
qed

definition toy_job :: job where
  "toy_job = \<lparr>job_lane = Lane_retained, job_terms = ''0x01'', job_serial = 3, job_owner = ''a''\<rparr>"

definition toy_lane :: lane_row where
  "toy_lane = \<lparr>wl_lane = Lane_retained, wl_cursor_terms = [], wl_cursor_serial = -1, wl_owner = Some ''a'', wl_until = 160\<rparr>"

lemma voucher_retry_bounded_witness:
  "\<exists>row. lookup (\<lambda>r. (wa_lane r, wa_terms r, wa_serial r)) (job_lane toy_job, job_terms toy_job, job_serial toy_job)
      (attempt_rows (snd (finish_voucher_work toy_job 100 ''TIMED_OUT'' (empty_presale_db\<lparr>lane_rows := [toy_lane]\<rparr>)))) = Some row \<and>
    115 \<le> wa_due row \<and> wa_due row \<le> 340"
proof -
  have "rowcount (\<lambda>r. wl_lane r = job_lane toy_job \<and> wl_owner r = Some (job_owner toy_job))
      (lane_rows (empty_presale_db\<lparr>lane_rows := [toy_lane]\<rparr>)) \<noteq> 0"
    by (simp add: rowcount_def toy_job_def toy_lane_def)
  from voucher_retry_bounded [OF this, of 100 "''TIMED_OUT''"] show ?thesis
    by (auto simp: failed_status_def)
qed

end
