(* ===== verification/PresaleInputs.thy ===== *)
theory PresaleInputs
  imports PresaleWorkers
begin

text \<open>No coin funds both a retained campaign bundle and a retained voucher bundle.\<close>

section \<open>The invariant\<close>

text \<open>
  Every retained funding document still decodes to the inputs it was retained with, and those of an
  unconfirmed one are not claimed by an unconfirmed campaign execution.
\<close>

definition funding_ok :: "presale_api \<Rightarrow> exec_row list \<Rightarrow> input_row list \<Rightarrow> bool" where
  "funding_ok api es ins \<longleftrightarrow> (\<forall>r \<in> set es. we_kind r = ''funding'' \<longrightarrow>
     (\<exists>ids. exec_inputs api r = Inr ids \<and>
        (\<not> we_confirmed r \<longrightarrow> (\<forall>x \<in> set ins. \<not> ci_confirmed x \<longrightarrow> ci_coin x \<notin> set ids))))"

abbreviation funding_inv :: "presale_api \<Rightarrow> presale_db \<Rightarrow> bool" where
  "funding_inv api db \<equiv> funding_ok api (exec_rows db) (campaign_inputs db)"

lemma funding_mono:
  assumes "funding_ok api es ins"
    and "\<And>x. x \<in> set ins' \<Longrightarrow> \<not> ci_confirmed x \<Longrightarrow> \<exists>y \<in> set ins. ci_coin y = ci_coin x \<and> \<not> ci_confirmed y"
  shows "funding_ok api es ins'"
  unfolding funding_ok_def
proof (intro ballI impI)
  fix r
  assume "r \<in> set es" "we_kind r = ''funding''"
  then obtain ids where "exec_inputs api r = Inr ids"
      "\<not> we_confirmed r \<longrightarrow> (\<forall>x \<in> set ins. \<not> ci_confirmed x \<longrightarrow> ci_coin x \<notin> set ids)"
    using assms(1) unfolding funding_ok_def by blast
  then show "\<exists>ids. exec_inputs api r = Inr ids \<and>
      (\<not> we_confirmed r \<longrightarrow> (\<forall>x \<in> set ins'. \<not> ci_confirmed x \<longrightarrow> ci_coin x \<notin> set ids))"
    using assms(2) by (intro exI [of _ ids]) fastforce
qed

section \<open>Claiming campaign inputs\<close>

lemma claim_inputs_D:
  "claim_inputs taken t k names ins = Inr ins' \<Longrightarrow> x \<in> set ins' \<Longrightarrow> x \<in> set ins \<or> ci_coin x \<notin> set taken"
proof (induction names arbitrary: ins)
  case (Cons name names)
  let ?r = "\<lparr>ci_coin = name, ci_terms = t, ci_kind = k, ci_confirmed = False\<rparr>"
  have "name \<notin> set taken" "claim_inputs taken t k names (insert_or_ignore input_clash ?r ins) = Inr ins'"
    using Cons.prems(1) by simp_all
  with Cons.IH [OF this(2) Cons.prems(2)] show ?case
    using insert_or_ignore_cases [of input_clash ?r ins] by auto
qed simp

lemma taken_all:
  assumes "map_result f rows = Inr ids" and "r \<in> set rows" and "f r = Inr own"
  shows "set own \<subseteq> set (concat ids)"
  using assms by (induction rows arbitrary: ids) (auto split: sum.split_asm, blast)

lemma retain_execution_funding:
  assumes "retain_execution_body api t k e db = Inr (u, db')" and "funding_inv api db"
  shows "funding_inv api db'"
proof -
  obtain b ids inputs where taken: "map_result (exec_inputs api) (filter (\<lambda>r. we_kind r = ''funding'' \<and> \<not> we_confirmed r) (exec_rows db)) = Inr ids"
    and claim: "claim_inputs (concat ids) (lower t) k (removal_ids api b) (campaign_inputs db) = Inr inputs"
    and same: "exec_rows db' = exec_rows db" "campaign_inputs db' = inputs"
    using assms(1) by (auto simp: retain_execution_body_def pending_voucher_inputs_def bind_Inr Let_def split: option.split_asm)
  show ?thesis
    unfolding funding_ok_def same
  proof (intro ballI impI)
    fix r
    assume r: "r \<in> set (exec_rows db)" "we_kind r = ''funding''"
    then obtain own where own: "exec_inputs api r = Inr own"
        "\<not> we_confirmed r \<longrightarrow> (\<forall>x \<in> set (campaign_inputs db). \<not> ci_confirmed x \<longrightarrow> ci_coin x \<notin> set own)"
      using assms(2) unfolding funding_ok_def by blast
    have "ci_coin x \<notin> set own" if "\<not> we_confirmed r" "x \<in> set inputs" "\<not> ci_confirmed x" for x
    proof -
      have "set own \<subseteq> set (concat ids)"
        by (rule taken_all [OF taken _ own(1)]) (use r that(1) in simp)
      then show ?thesis
        using claim_inputs_D [OF claim that(2)] own(2) that(1,3) by blast
    qed
    with own(1) show "\<exists>ids. exec_inputs api r = Inr ids \<and>
        (\<not> we_confirmed r \<longrightarrow> (\<forall>x \<in> set inputs. \<not> ci_confirmed x \<longrightarrow> ci_coin x \<notin> set ids))" by blast
  qed
qed

lemma insert_operation_funding:
  assumes "insert_operation api t op db = Inr (u, db')" and "funding_inv api db"
  shows "funding_inv api db'"
proof -
  obtain kind row where "db' = db\<lparr>campaign_ops := campaign_ops db @ [row]\<rparr> \<or>
      (\<exists>e. retain_execution_body api t kind e (db\<lparr>campaign_ops := campaign_ops db @ [row]\<rparr>) = Inr ((), db'))"
    using assms unfolding insert_operation_def bind_Inr
    by (elim exE conjE, split json.split_asm) (auto simp: bind_Inr Let_def split: option.split_asm if_splits)
  then show ?thesis
    using assms(2) by (auto intro: retain_execution_funding)
qed

lemma confirm_operation_funding:
  assumes "confirm_operation_body t k h db = Inr (u, db')" and "funding_inv api db"
  shows "funding_inv api db'"
proof -
  obtain p where "exec_rows db' = exec_rows db" "campaign_inputs db' = set_where p (\<lambda>r. r\<lparr>ci_confirmed := True\<rparr>) (campaign_inputs db)"
    using assms(1) by (auto simp: confirm_operation_body_def split: option.split_asm json.split_asm)
  moreover have "\<exists>y \<in> set (campaign_inputs db). ci_coin y = ci_coin x \<and> \<not> ci_confirmed y"
    if "x \<in> set (set_where p (\<lambda>r. r\<lparr>ci_confirmed := True\<rparr>) (campaign_inputs db))" "\<not> ci_confirmed x" for x
    using that by (auto simp: set_where_mem split: if_split_asm)
  ultimately show ?thesis
    using funding_mono [OF assms(2)] by simp
qed

section \<open>Retaining a voucher execution\<close>

lemma exec_inputs_canonical:
  assumes "order_free (chia api)" and "json_ok e" and "py_index e ''spendBundle'' = Inr j" and "load_bundle api j = Inr b"
    and "we_json r = canonical_json e"
  shows "exec_inputs api r = Inr (removal_ids api b)"
proof -
  have "json_ok j" using assms(2,3) by (rule py_index_ok)
  then have "load_bundle api (canon j) = Inr b"
    using assms(1,4) by (simp add: load_bundle_def order_free_def)
  then show ?thesis
    by (simp add: exec_inputs_def assms(5) py_loads_canonical [OF assms(2)] py_index_canon [OF assms(2)] assms(3))
qed

lemma retain_voucher_funding:
  assumes "retain_voucher_body api t n e db = Inr (u, db')" and "funding_inv api db" and "order_free (chia api)" and "json_ok e"
  shows "funding_inv api db'"
proof -
  obtain kind inputs where kind: "bind (py_index e ''kind'') json_text = Inr kind"
    and inputs: "(if kind = ''funding'' then bind (py_index e ''spendBundle'') (\<lambda>j. bind (load_bundle api j) (\<lambda>b. Inr (removal_ids api b)))
        else Inr []) = Inr inputs"
    and apart: "set inputs \<inter> set (pending_campaign_inputs db) = {}"
    and same: "campaign_inputs db' = campaign_inputs db"
      "exec_rows db' = insert_or_ignore exec_clash
         \<lparr>we_terms = t, we_serial = n, we_kind = kind, we_json = canonical_json e, we_confirmed = False\<rparr> (exec_rows db)"
    using assms(1) by (auto simp: retain_voucher_body_def Let_def bind_Inr)
  let ?r = "\<lparr>we_terms = t, we_serial = n, we_kind = kind, we_json = canonical_json e, we_confirmed = False\<rparr>"
  have new: "exec_inputs api ?r = Inr inputs" if "kind = ''funding''"
    using inputs that assms(3,4) by (auto simp: bind_Inr intro: exec_inputs_canonical)
  have "ci_coin x \<notin> set inputs" if "x \<in> set (campaign_inputs db)" "\<not> ci_confirmed x" for x
    using apart that by (auto simp: pending_campaign_inputs_def)
  with new assms(2) have "funding_ok api (exec_rows db @ [?r]) (campaign_inputs db)"
    by (auto simp: funding_ok_def)
  then show ?thesis
    using insert_or_ignore_cases [of exec_clash ?r "exec_rows db"] assms(2) by (auto simp: same)
qed

lemma exec_rows_funding:
  assumes "funding_ok api es ins"
    and "\<And>r. f r = r \<or> we_kind (f r) \<noteq> ''funding'' \<or> (we_json (f r) = we_json r \<and> we_kind (f r) = we_kind r \<and> we_confirmed (f r))"
  shows "funding_ok api (map f es) ins"
  unfolding funding_ok_def
proof (intro ballI impI)
  fix r'
  assume "r' \<in> set (map f es)" and k: "we_kind r' = ''funding''"
  then obtain r where r: "r \<in> set es" "r' = f r" by auto
  consider "f r = r" | "we_json (f r) = we_json r" "we_kind (f r) = we_kind r" "we_confirmed (f r)"
    using assms(2) [of r] k r(2) by auto
  then show "\<exists>ids. exec_inputs api r' = Inr ids \<and>
      (\<not> we_confirmed r' \<longrightarrow> (\<forall>x \<in> set ins. \<not> ci_confirmed x \<longrightarrow> ci_coin x \<notin> set ids))"
  proof cases
    case 1
    with assms(1) r k show ?thesis by (simp add: funding_ok_def)
  next
    case 2
    with assms(1) r k have "\<exists>ids. exec_inputs api r = Inr ids" unfolding funding_ok_def by auto
    with 2 r(2) show ?thesis by (simp add: exec_inputs_def)
  qed
qed

section \<open>Every call\<close>

lemma txn_funding:
  "funding_inv api db \<Longrightarrow> (\<And>a db'. b db = Inr (a, db') \<Longrightarrow> funding_inv api db') \<Longrightarrow> funding_inv api (snd (txn b db))"
  by (rule txn_keeps [where P = "funding_inv api"])

lemma funding_create:
  assumes "funding_inv api db"
  shows "funding_inv api (snd (create api terms launch op now db))"
proof (cases "genesis_chain api terms launch")
  case (Inr chain)
  have "funding_inv api db'" if "create_body api terms launch op chain now db = Inr (x, db')" for x db'
    using that assms
    by (cases op) (auto simp: create_body_def bind_Inr Let_def intro: insert_operation_funding)
  then show ?thesis
    unfolding create_def Inr sum.case txn_then_state by (rule txn_funding [OF assms])
qed (simp add: create_def assms)

lemma funding_retain_phase:
  assumes "funding_inv api db"
  shows "funding_inv api (snd (retain_campaign_phase api t op chain now db))"
proof (cases "py_index op ''kind''")
  case (Inr k)
  have "funding_inv api db'" if "retain_phase_body api t op chain now db = Inr (x, db')" for x db'
    using that assms by (auto simp: retain_phase_body_def bind_Inr split: option.split_asm intro: insert_operation_funding)
  then have "funding_inv api (snd (txn_then (retain_phase_body api t op chain now) f db))"
    for f :: "json option \<Rightarrow> presale_db \<Rightarrow> py_error + json option"
    unfolding txn_then_state by (rule txn_funding [OF assms])
  then show ?thesis by (simp add: retain_campaign_phase_def Inr assms)
qed (simp add: retain_campaign_phase_def assms)

lemma funding_campaign:
  assumes "funding_inv api db"
  shows "funding_inv api (snd (retain_campaign_execution api t k e x db))"
    and "funding_inv api (snd (confirm_campaign_operation t k h db))"
    and "funding_inv api (snd (archive_expired_campaign_phase api t op proof' db))"
proof -
  show "funding_inv api (snd (retain_campaign_execution api t k e x db))"
    unfolding retain_campaign_execution_def using assms
    by (intro txn_funding) (auto simp: bind_Inr split: option.split_asm intro: retain_execution_funding)
  show "funding_inv api (snd (confirm_campaign_operation t k h db))"
    unfolding confirm_campaign_operation_def using assms
    by (intro txn_funding) (auto intro: confirm_operation_funding)
  have "funding_inv api db'" if "archive_body api t op proof' db = Inr (u, db')" for u db'
  proof -
    have "exec_rows db' = exec_rows db"
      "campaign_inputs db' = sql_delete (\<lambda>r. ci_terms r = t \<and> ci_kind r = ''phase'') (campaign_inputs db)"
      using that by (auto simp: archive_body_def bind_Inr Let_def split: option.split_asm)
    then show ?thesis
      using funding_mono [OF assms, of "campaign_inputs db'"] by (auto simp: sql_delete_def)
  qed
  then have "funding_inv api (snd (txn (archive_body api t op proof') db))"
    by (rule txn_funding [OF assms])
  then show "funding_inv api (snd (archive_expired_campaign_phase api t op proof' db))"
    by (auto simp: archive_expired_campaign_phase_def Let_def assms split: sum.split)
qed

lemma funding_confirm_phase:
  assumes "funding_inv api db"
  shows "funding_inv api (snd (confirm_phase_transition api t e all now db))"
proof (cases "get_series api db t")
  case (Inr series)
  have "funding_inv api db'" if b: "confirm_phase_body api t0 terms t e now db = Inr (u, db')" for t0 terms t u db'
  proof -
    obtain row where row: "series_row_of db t = Some row"
      using b by (auto simp: confirm_phase_body_def split: option.split_asm)
    from b obtain p f m db1 db2 op where u: "update_series p f m db = Inr db1"
      and op: "(if op = (None :: json option) then Inr ((), db1) else confirm_operation_body terms ''phase'' (JInt (vp_height e)) db1) = Inr ((), db2)"
      and d: "db' = (if vp_target e = LIVE then db2\<lparr>voucher_rows := start_redeeming t now (voucher_rows db2)\<rparr> else db2)"
      unfolding confirm_phase_body_def row option.case Let_def bind_Inr raise_if_Inr by (elim exE conjE) (auto split: prod.split_asm)
    have "funding_inv api db1"
      using update_series_desk [OF u] assms by (simp add: desk_def)
    with op have "funding_inv api db2"
      by (auto split: if_split_asm intro: confirm_operation_funding)
    then show ?thesis by (simp add: d)
  qed
  then show ?thesis
    unfolding confirm_phase_transition_def Inr sum.case txn_then_state by (rule txn_funding [OF assms])
qed (simp add: confirm_phase_transition_def assms)

lemma funding_executions:
  assumes "funding_inv api db"
  shows "order_free (chia api) \<Longrightarrow> json_ok e \<Longrightarrow> funding_inv api (snd (retain_voucher_execution api t n e db))"
    and "funding_inv api (snd (confirm_voucher_execution t n k db))"
    and "funding_inv api (snd (advance_native_refund_attempt api t n p c x confirmed db))"
proof -
  show "funding_inv api (snd (retain_voucher_execution api t n e db))" if "order_free (chia api)" "json_ok e"
    unfolding retain_voucher_execution_def
    by (rule txn_funding [OF assms]) (rule retain_voucher_funding [OF _ assms that])
  show "funding_inv api (snd (confirm_voucher_execution t n k db))"
    unfolding confirm_voucher_execution_def
  proof (rule txn_funding [OF assms])
    fix a db'
    assume "Inr ((), db\<lparr>exec_rows := set_where (is_exec t n k) (\<lambda>r. r\<lparr>we_confirmed := True\<rparr>) (exec_rows db)\<rparr>) = (Inr (a, db') :: py_error + _)"
    then have d: "exec_rows db' = set_where (is_exec t n k) (\<lambda>r. r\<lparr>we_confirmed := True\<rparr>) (exec_rows db)"
        "campaign_inputs db' = campaign_inputs db" by auto
    show "funding_inv api db'"
      unfolding d set_where_def by (rule exec_rows_funding [OF assms]) simp
  qed
  have "funding_inv api (snd (txn (advance_native_body api t n p c x confirmed old new) db))" for old new
  proof (rule txn_funding [OF assms])
    fix a db'
    assume "advance_native_body api t n p c x confirmed old new db = Inr (a, db')"
    then have d: "exec_rows db' = set_where (is_exec t n ''native_refund'') (\<lambda>r. r\<lparr>we_json := canonical_json c\<rparr>) (exec_rows db)"
        "campaign_inputs db' = campaign_inputs db"
      by (auto simp: advance_native_body_def Let_def bind_Inr split: option.split_asm)
    show "funding_inv api db'"
      unfolding d set_where_def by (rule exec_rows_funding [OF assms]) (simp add: is_exec_def)
  qed
  then show "funding_inv api (snd (advance_native_refund_attempt api t n p c x confirmed db))"
    by (auto simp: advance_native_refund_attempt_def assms split: sum.split)
qed

lemma claim_loop_inputs:
  "claim_loop lane owner now xs rows db = Inr (j, db') \<Longrightarrow> exec_rows db' = exec_rows db \<and> campaign_inputs db' = campaign_inputs db"
proof (induction rows arbitrary: db)
  case (Cons row rows)
  obtain t n where "row = (t, n)" by (cases row)
  then show ?case
    using Cons.prems by (auto simp del: claim_loop.simps elim!: claim_loop_cases dest: Cons.IH)
qed simp

lemma claim_body_inputs:
  assumes "claim_body lane owner now xs db = Inr (j, db')"
  shows "exec_rows db' = exec_rows db \<and> campaign_inputs db' = campaign_inputs db"
proof (cases "lookup wl_lane lane (ensure_lane lane (lane_rows db))")
  case (Some state)
  with assms show ?thesis
    unfolding claim_body_def Let_def
    by (cases "wl_until state > now") (auto simp del: claim_loop.simps dest: claim_loop_inputs)
qed (use assms in \<open>simp add: claim_body_def Let_def\<close>)

lemma funding_workers:
  assumes "funding_inv api db"
  shows "funding_inv api (snd (claim_voucher_work lane owner now xs db))"
    and "funding_inv api (snd (claim_direct_voucher_work t owner now db))"
    and "funding_inv api (snd (finish_voucher_work j now status db))"
    and "funding_inv api (snd (finish_direct_voucher_work t owner db))"
  unfolding claim_voucher_work_body claim_direct_voucher_work_def finish_voucher_work_def finish_direct_voucher_work_def
  by (rule txn_funding [OF assms];
      auto simp: claim_direct_body_def finish_body_def bind_Inr Let_def assms split: if_split_asm dest!: claim_body_inputs)+

lemma desk_funding: "funding_inv api db \<Longrightarrow> desk db' = desk db \<Longrightarrow> funding_inv api db'"
  by (simp add: desk_def)

lemmas funding_calls = funding_create funding_retain_phase funding_campaign funding_confirm_phase funding_executions funding_workers
  desk_funding [OF _ desk_payments(1)] desk_funding [OF _ desk_payments(2)] desk_funding [OF _ desk_payments(3)]
  desk_funding [OF _ desk_issuance(1)] desk_funding [OF _ desk_issuance(2)] desk_funding [OF _ desk_issuance(3)]
  desk_funding [OF _ desk_issuance(4)] desk_funding [OF _ desk_terminal] desk_funding [OF _ desk_refunds(1)]
  desk_funding [OF _ desk_refunds(2)] desk_funding [OF _ desk_refunds(3)] desk_funding [OF _ desk_confirms(1)]
  desk_funding [OF _ desk_confirms(2)] desk_funding [OF _ desk_confirms(3)] desk_funding [OF _ desk_redemption(1)]
  desk_funding [OF _ desk_redemption(2)] desk_funding [OF _ desk_records(1)] desk_funding [OF _ desk_records(2)]
  desk_funding [OF _ desk_records(3)] desk_funding [OF _ desk_records(4)] desk_funding [OF _ desk_records(5)]
  desk_funding [OF _ desk_settlement] desk_funding [OF _ desk_advance]

text \<open>A document is a Python value: each of its \<open>dict\<close>s has a key once.\<close>

fun presale_op_ok :: "presale_op \<Rightarrow> bool" where
  "presale_op_ok (Retain_execution t n e) = json_ok e"
| "presale_op_ok op = True"

interpretation funding: store "presale_step api" "\<lambda>db. order_free (chia api) \<and> funding_inv api db" presale_op_ok for api
proof
  fix db op
  assume inv: "order_free (chia api) \<and> funding_inv api db" and ok: "presale_op_ok op"
  then have here: "funding_inv api db" and free: "order_free (chia api)" by simp_all
  from ok have "funding_inv api (presale_step api op db)"
    by (cases op) (simp_all only: presale_step.simps presale_op_ok.simps funding_calls here free)
  with free show "order_free (chia api) \<and> funding_inv api (presale_step api op db)" by simp
qed


definition toy_chia :: chia_api where
  "toy_chia = \<lparr>from_json_dict = (\<lambda>_. Some \<lparr>coin_spends = [], aggregated_signature = []\<rparr>), bundle_name = (\<lambda>_. ''0xb1''),
     coin_name = (\<lambda>c. ''0xc1''), removals = (\<lambda>b. [\<lparr>parent_coin_info = ''00'', puzzle_hash = ''01'', amount = 7\<rparr>]),
     additions = (\<lambda>_. Some []), reveal_hash = (\<lambda>s. Some s), infinity = ''c0'', sha256_hex = (\<lambda>s. s)\<rparr>"

definition toy_presale :: presale_api where
  "toy_presale = \<lparr>chia = toy_chia, bundle_json = (\<lambda>_. JNull), coin_spend_of = (\<lambda>_. None), genesis_inner_hash = (\<lambda>_. None),
     commitment_hash = (\<lambda>_. None), receipt_of = (\<lambda>_. None), action_presale = 1, action_expired = 2, action_canceled = 3,
     delivery_window_seconds = 60, vault_timestamp = (\<lambda>_. None), at_timestamp = (\<lambda>_ _. None), fee_deadline = (\<lambda>_. None)\<rparr>"

definition toy_funding :: json where
  "toy_funding = JObj [(''kind'', JStr ''funding''), (''spendBundle'', JObj [])]"


end
