(* ===== verification/PresaleProperties.thy ===== *)
theory PresaleProperties
  imports PresaleInputs
begin

text \<open>
  A short run of the store: a series is created, two deeds are sold for XCH, their vouchers are issued, and one
  is refunded to its owner. The libraries are those of a toy in which every coin has one name.
\<close>

definition sample_api :: presale_api where
  "sample_api = toy_presale\<lparr>genesis_inner_hash := (\<lambda>_. Some ''0x1e'')\<rparr>"

definition sample_terms :: json where
  "sample_terms = JObj [(''termsHash'', JStr ''0x01''), (''seriesSingletonId'', JStr (replicate 64 CHR ''5'')),
     (''collectionWorkspaceId'', JStr ''w''), (''collectionId'', JStr ''0x02''), (''refundDeadline'', JInt 900)]"

definition sample_intake :: "int \<Rightarrow> string \<Rightarrow> payment_intake" where
  "sample_intake n x = \<lparr>pi_deed = ''0xd'' @ x, pi_ordinal = n, pi_rail = CHIA_XCH, pi_amount = 500, pi_base_price = 500,
     pi_fee_bps = 0, pi_fee_minor = 0, pi_gross_price = 500, pi_payer = ''xch1'', pi_vault = ''0xf1'', pi_vault_p2 = ''0xf2'',
     pi_purchase_id = ''0xe'' @ x, pi_commitment_hash = ''0xa'' @ x, pi_commitment = JObj []\<rparr>"

definition sample_submission :: "string \<Rightarrow> string \<Rightarrow> string \<Rightarrow> native_submission" where
  "sample_submission x coin coin' = \<lparr>ns_bundle = ''0xb'' @ x, ns_launcher_coin = ''0x11'', ns_launcher_puzzle = ''0x12'',
     ns_voucher_launcher = ''0x13'', ns_voucher_output = ''0x14'', ns_payment_coin = ''0x15'', ns_series_input = coin,
     ns_series_output = coin'\<rparr>"

definition sample_issuance :: "string \<Rightarrow> string \<Rightarrow> string \<Rightarrow> int \<Rightarrow> VoucherIssuanceChainEvidence" where
  "sample_issuance x coin coin' h = \<lparr>vi_evidence_id = ''0x91'', vi_bundle = ''0xb'' @ x, vi_launcher_coin = ''0x11'',
     vi_voucher_launcher = ''0x13'', vi_voucher_output = ''0x14'', vi_payment_coin = ''0x15'',
     vi_series = \<lparr>ss_input = coin, ss_input_parent = ''0x21'', ss_output = coin', ss_output_inner = ''0x22''\<rparr>, vi_height = h\<rparr>"

definition sample_refund :: refund_submission where
  "sample_refund = \<lparr>rq_bundle = ''0xb9'', rq_terminal = ''0x31'', rq_series_input = ''0xc3'', rq_series_output = ''0xc4'',
     rq_vault_input = Some ''0x32'', rq_vault_output = Some ''0x33''\<rparr>"

definition sample_refund_evidence :: VoucherRefundChainEvidence where
  "sample_refund_evidence = \<lparr>re_action = 1, re_evidence_id = ''0x92'', re_bundle = ''0xb9'', re_terminal = ''0x31'',
     re_series = \<lparr>ss_input = ''0xc3'', ss_input_parent = ''0x23'', ss_output = ''0xc4'', ss_output_inner = ''0x24''\<rparr>, re_height = 77,
     nr_output = ''0x34'', nr_vault_input = Some ''0x32'', nr_vault_output = Some ''0x33''\<rparr>"

definition sample_ops :: "presale_op list" where
  "sample_ops =
    [Create sample_terms \<lparr>la_parent = Some ''0x20'', la_full_puzzle = Some (replicate 64 CHR ''7''), la_bundle = None\<rparr> None 10,
     Native_issuance ''0x01'' ''0x71'' (\<lambda>_. Inr (sample_intake 1 ''1'', sample_submission ''1'' ''0xc1'' ''0xc2'')) None 20,
     Confirm_issuance ''0x01'' 1 (sample_issuance ''1'' ''0xc1'' ''0xc2'' 50) 30,
     Native_issuance ''0x01'' ''0x72'' (\<lambda>_. Inr (sample_intake 2 ''2'', sample_submission ''2'' ''0xc2'' ''0xc3'')) None 40,
     Confirm_issuance ''0x01'' 2 (sample_issuance ''2'' ''0xc2'' ''0xc3'' 60) 50,
     Native_refund ''0x01'' 1 1 ''0x34'' sample_refund 60,
     Confirm_native_refund ''0x01'' 1 sample_refund_evidence 70]"

definition sample_view :: "presale_db \<Rightarrow> (int \<times> voucher_state) list \<times> (int \<times> int \<times> int) list" where
  "sample_view db = (map (\<lambda>r. (vr_serial r, vr_state r)) (voucher_rows db),
     map (\<lambda>q. (ps_sold q, ps_refunded q, ps_redeemed q)) (series_rows db))"

lemma sample_presale_run:
  "sample_view (run (presale_step sample_api) sample_ops empty_presale_db) = ([(1, REFUNDED), (2, ESCROWED)], [(2, 1, 0)])"
  by code_simp

section \<open>Properties\<close>

text \<open>
  C5. In every state that calls of the store reach, with whatever evidence, spends and clocks they are
  given, the counters of a series equal the number of its vouchers past issuance, refunded and redeemed.
\<close>

theorem presale_accounts: "accounts_ok (sale (run (presale_step api) ops empty_presale_db))"
  using presale_run_ok by (simp add: sale_ok_def)

lemma presale_accounts_witness:
  "accounts_ok (sale (run (presale_step sample_api) sample_ops empty_presale_db)) \<and>
   sample_view (run (presale_step sample_api) sample_ops empty_presale_db) = ([(1, REFUNDED), (2, ESCROWED)], [(2, 1, 0)])"
  using presale_accounts [of sample_api sample_ops] sample_presale_run by simp


text \<open>
  C8. A voucher is never removed, moves forward only, keeps its key and the terms of its purchase, and once
  refunded or redeemed its row is final, whatever is called afterwards.
\<close>

theorem presale_vouchers_forward:
  "vouchers_forward (voucher_rows (run (presale_step api) ops empty_presale_db))
     (voucher_rows (run (presale_step api) (ops @ later) empty_presale_db))"
  unfolding run_append by (rule presale_run_forward) (rule presale_run_ok)

text \<open>
  A refunded or redeemed voucher is final: whatever is called afterwards, its row stays in the table as it is.
\<close>

theorem presale_settled_final:
  assumes "r \<in> set (voucher_rows (run (presale_step api) ops empty_presale_db))" and "vr_state r \<in> {REFUNDED, REDEEMED}"
  shows "r \<in> set (voucher_rows (run (presale_step api) (ops @ later) empty_presale_db))"
  unfolding run_append using vouchers_forward_settled [OF presale_run_forward [OF presale_run_ok] assms] .

lemma presale_settled_final_witness:
  "\<exists>r. vr_serial r = 1 \<and> vr_state r = REFUNDED \<and>
     r \<in> set (voucher_rows (run (presale_step sample_api) (sample_ops @ [Complete_delivery ''0x01'' 1]) empty_presale_db))"
proof -
  have "(1, REFUNDED) \<in> set (fst (sample_view (run (presale_step sample_api) sample_ops empty_presale_db)))"
    using sample_presale_run by simp
  then obtain r where r: "r \<in> set (voucher_rows (run (presale_step sample_api) sample_ops empty_presale_db))" "vr_serial r = 1" "vr_state r = REFUNDED"
    by (auto simp: sample_view_def)
  from presale_settled_final [OF r(1), of "[Complete_delivery ''0x01'' 1]"] r(2,3) show ?thesis by auto
qed

text \<open>
  C10. Every voucher was paid for: its series exists and one confirmed payment event names its payment, its
  series and its serial; two vouchers share neither a payment, a purchase, a commitment nor a deed of a series.
\<close>

theorem presale_voucher_paid:
  "list_all (paid_for (sale (run (presale_step api) ops empty_presale_db))) (voucher_rows (run (presale_step api) ops empty_presale_db)) \<and>
   table_ok voucher_clash (voucher_rows (run (presale_step api) ops empty_presale_db))"
  using presale_run_ok [of api ops] by (simp add: sale_ok_def vouchers_ok_def list_all_iff sale_keys_def)

text \<open>
  C6. An authorization to the Base escrow exists exactly for the redeemed and the refunded USDC vouchers, and
  its outcome is that of the voucher: a payment is released to the seller or returned, never both.
\<close>

theorem presale_base_settlement: "base_ok (sale (run (presale_step api) ops empty_presale_db))"
  using presale_run_ok by (simp add: sale_ok_def)

text \<open>
  C7. A fiat refund is authorized exactly for the refunded Stripe vouchers, and the stored authorization
  names the purchase and the amount that was paid for it.
\<close>

theorem presale_stripe_refund: "stripe_ok (sale (run (presale_step api) ops empty_presale_db))"
  using presale_run_ok by (simp add: sale_ok_def)

text \<open>
  C9. At most one voucher of a series has an active Stripe terminal execution, so two such spends never
  compete for the series singleton.
\<close>

theorem presale_one_terminal: "terminals_ok (sale (run (presale_step api) ops empty_presale_db))"
  using presale_run_ok by (simp add: sale_ok_def)

text \<open>
  C14. A Base voucher that \<open>request_refund\<close> moved to \<open>REFUNDING\<close> has no bound spend, and then neither the
  submission of an automatic refund nor its confirmation accepts it, whatever evidence is given.
\<close>

theorem base_request_unbound:
  assumes "voucher_at db (sv_key series) serial = Some r" and "vr_rail r = BASE_SEPOLIA_USDC"
    and "vr_state r = REFUNDING" and "rf_bundle (vr_refund r) = None"
  shows "(\<exists>e. base_refund_body series serial action evidence_hash s now db = Inl e) \<and>
    (\<exists>e. confirm_base_refund_body api q (sv_key series) serial evidence now db = Inl e)"
proof -
  have "rf_bundle (base_part (refund_binding a x y)) \<noteq> None" for a x y
    by (simp add: base_part_def stripe_part_def native_part_def refund_binding_def)
  moreover have "rf_bundle (base_part (vr_refund r)) = None"
    using assms(4) by (simp add: base_part_def stripe_part_def native_part_def)
  ultimately have "base_part (vr_refund r) \<noteq> base_part (refund_binding a x y)" for a x y
    by metis
  then show ?thesis
    using assms by (simp add: base_refund_body_def confirm_base_refund_body_def evidence_cols_def raise_if_def Let_def)
qed

definition requested_db :: presale_db where
  "requested_db = empty_presale_db\<lparr>voucher_rows :=
     [(new_voucher (replicate 4 CHR ''a'') 1 ((intake_terms (sample_intake 1 ''1'') ''0x71'' ''0x72'' 10)\<lparr>vt_rail := BASE_SEPOLIA_USDC\<rparr>)
        ESCROWED (no_issuance\<lparr>is_height := Some 50\<rparr>) 10)]\<rparr>"

lemma base_request_unbound_witness:
  "\<exists>series db. set_voucher_state_body (sv_key series) 1 ESCROWED REFUNDING 20 requested_db = Inr ((), db) \<and>
     (\<exists>e. base_refund_body series 1 3 ''0x90'' sample_refund 30 db = Inl e)"
proof -
  let ?series = "\<lparr>sv_row = new_series (replicate 4 CHR ''a'') ''0x5'' ''w'' ''0x2'' (JObj []) \<lparr>la_parent = None, la_full_puzzle = None, la_bundle = None\<rparr>
      \<lparr>cs_coin = None, cs_inner = None, cs_lineage_parent = None, cs_lineage_inner = None\<rparr> 5,
    sv_terms = JObj [], sv_governance_ids = JArr [], sv_delivery_deadline = None, sv_phase_status = [], sv_launch_status = []\<rparr>"
  let ?move = "\<lambda>r. r\<lparr>vr_state := REFUNDING, vr_updated_at := 20\<rparr>"
  let ?db = "requested_db\<lparr>voucher_rows := map ?move (voucher_rows requested_db)\<rparr>"
  have key: "sv_key ?series = replicate 4 CHR ''a''"
    by (simp add: new_series_def lower_def lower_char_def)
  have "set_voucher_state_body (sv_key ?series) 1 ESCROWED REFUNDING 20 requested_db = Inr ((), ?db)"
    unfolding key by code_simp
  moreover
  have row: "voucher_at ?db (sv_key ?series) 1 = Some (?move (hd (voucher_rows requested_db)))"
    unfolding key by code_simp
  have "vr_rail (hd (voucher_rows requested_db)) = BASE_SEPOLIA_USDC" "rf_bundle (vr_refund (hd (voucher_rows requested_db))) = None"
    by code_simp+
  then have "\<exists>e. base_refund_body ?series 1 3 ''0x90'' sample_refund 30 ?db = Inl e"
    by (intro conjunct1 [OF base_request_unbound [OF row]]) simp_all
  ultimately show ?thesis by blast
qed

end
