(* ===== verification/AdminOperations.thy ===== *)
theory AdminOperations
  imports PyDoc
begin

text \<open>
  \<open>src/solslot_api/admin_operations.py\<close>: the owner-plus-one approvals of consequential administrator
  requests. An operation binds one exact HTTP request; administrators sign it, the owner in slot 0 and a
  coadministrator in slot 1 or 2; the request then runs once. Byte strings are their hexadecimal digits.
\<close>

section \<open>Bytes and the request binding\<close>

text \<open>\<open>_hex32\<close> of a \<open>bytes32\<close>.\<close>

definition hex32 :: "string \<Rightarrow> string" where
  "hex32 v = ''0x'' @ v"

text \<open>\<open>bytes.fromhex(s).hex()\<close>; ASCII white space between bytes is skipped, anything else raises.\<close>

definition ascii_space :: "char \<Rightarrow> bool" where
  "ascii_space c \<longleftrightarrow> 9 \<le> cp c \<and> cp c \<le> 13 \<or> cp c = 32"

fun fromhex :: "string \<Rightarrow> string option" where
  "fromhex [] = Some []"
| "fromhex [c] = (if ascii_space c then Some [] else None)"
| "fromhex (c # d # s) =
     (if ascii_space c then fromhex (d # s)
      else if is_hex c \<and> is_hex d then map_option (\<lambda>r. lower [c, d] @ r) (fromhex s) else None)"

definition parse_hex32 :: "string \<Rightarrow> string \<Rightarrow> py_error + string" where
  "parse_hex32 value field =
     (case fromhex (removeprefix (lower value) ''0x'') of
        None \<Rightarrow> Inl (ValueError (field @ '' must be 32-byte hex''))
      | Some raw \<Rightarrow> raise_if (length raw \<noteq> 64) (ValueError (field @ '' must be 32-byte hex'')) (Inr raw))"

text \<open>
  \<open>canonical_json\<close> and the envelope hash of \<open>AdminOperationCoreV1\<close> are in \<open>solslot_puzzles\<close>, outside the
  repository; \<open>adm_sha256\<close> is the digest in hexadecimal.
\<close>

record AdminOperationCoreV1 =
  authority_launcher_id :: string
  core_network :: string
  core_operation :: string
  core_payload_hash :: string
  core_revision :: int
  core_nonce :: string
  core_expires_at :: int

record admin_api =
  envelope_hash :: "AdminOperationCoreV1 \<Rightarrow> string"
  adm_canonical :: "json \<Rightarrow> string"
  adm_sha256 :: "string \<Rightarrow> string"

text \<open>
  \<open>str.upper\<close> is taken on ASCII letters: no other character below 256 has a capital that occurs in the
  four methods.
\<close>

definition canonical_request_binding ::
  "string \<Rightarrow> string \<Rightarrow> (string \<times> string) list \<Rightarrow> json \<Rightarrow> string option \<Rightarrow> py_error + json" where
  "canonical_request_binding method path query body if_match =
     (let method_value = upper_ascii method;
          is_admin_path = startswith path ''/admin/'';
          is_presale_path = path = ''/presales'' \<or> startswith path ''/presales/'' in
      raise_if (method_value \<notin> {''POST'', ''PUT'', ''PATCH'', ''DELETE''})
        (ValueError ''admin operation method must be POST, PUT, PATCH, or DELETE'')
     (raise_if ((\<not> is_admin_path \<and> \<not> is_presale_path) \<or> CHR ''?'' \<in> set path \<or> CHR ''#'' \<in> set path)
        (ValueError ''admin operation path must be an authoritative /admin/ or /presales API path'')
        (Inr (JObj [(''schemaVersion'', JInt 1), (''method'', JStr method_value), (''path'', JStr path),
          (''query'', JArr (map (\<lambda>(k, v). JArr [JStr k, JStr v]) (sort_key id query))),
          (''ifMatch'', JStr (case if_match of None \<Rightarrow> [] | Some s \<Rightarrow> s)), (''body'', body)]))))"

definition request_binding_hash :: "admin_api \<Rightarrow> json \<Rightarrow> string" where
  "request_binding_hash api binding = adm_sha256 api (adm_canonical api binding)"

section \<open>The roster\<close>

record AdminRoster =
  ar_launcher :: string
  ar_keys :: "string \<times> string \<times> string"

record admin_record =
  admin_idx :: int
  admin_leaf_keys :: "string list"

text \<open>
  \<open>resolve_admin_roster\<close>: a test environment with configured records uses the records of that file
  (\<open>None\<close> when there is none), any other the signed artifact and the signed roster that it names, given
  as the text of the launcher id and the texts of the keys.
\<close>

fun single_keys :: "admin_record list \<Rightarrow> py_error + string list" where
  "single_keys [] = Inr []"
| "single_keys (r # rs) =
     raise_if (length (admin_leaf_keys r) \<noteq> 1)
       (ValueError ''each alpha admin slot must contain one EIP-712 key'')
       (bind (single_keys rs) (\<lambda>ks. Inr (hd (admin_leaf_keys r) # ks)))"

definition test_roster :: "(string \<times> admin_record list) option \<Rightarrow> py_error + AdminRoster" where
  "test_roster records =
     (case records of
        None \<Rightarrow> Inl (ValueError ''test admin records must contain exactly three slots'')
      | Some (launcher, rs) \<Rightarrow>
          raise_if (length rs \<noteq> 3) (ValueError ''test admin records must contain exactly three slots'')
         (let ordered = sort_key admin_idx rs in
          raise_if (map admin_idx ordered \<noteq> [0, 1, 2])
            (ValueError ''admin records must contain canonical slots 0, 1, and 2'')
         (bind (single_keys ordered) (\<lambda>keys.
            Inr \<lparr>ar_launcher = launcher, ar_keys = (keys ! 0, keys ! 1, keys ! 2)\<rparr>))))"

definition signed_roster :: "string \<Rightarrow> string list \<Rightarrow> py_error + AdminRoster" where
  "signed_roster launcher_text key_texts =
     bind (parse_hex32 launcher_text ''admin authority launcher'') (\<lambda>launcher.
     raise_if (length key_texts \<noteq> 3)
       (ValueError ''current signed roster must contain exactly three admin keys'')
    (bind (map_result (\<lambda>t. case fromhex (removeprefix t ''0x'') of
          None \<Rightarrow> Inl (ValueError ''non-hexadecimal number found'') | Some k \<Rightarrow> Inr k) key_texts) (\<lambda>keys.
     raise_if (list_ex (\<lambda>k. length k \<noteq> 66) keys)
       (ValueError ''current signed roster contains malformed admin key'')
       (Inr \<lparr>ar_launcher = launcher, ar_keys = (keys ! 0, keys ! 1, keys ! 2)\<rparr>))))"

definition resolve_admin_roster ::
  "bool \<Rightarrow> (string \<times> admin_record list) option \<Rightarrow> string \<Rightarrow> string list \<Rightarrow> py_error + AdminRoster" where
  "resolve_admin_roster test_records_configured records launcher_text key_texts =
     (if test_records_configured then test_roster records else signed_roster launcher_text key_texts)"

section \<open>The store\<close>

record admin_op =
  ao_id :: string
  ao_operation :: string
  ao_payload_hash :: string
  ao_revision :: int
  ao_nonce :: string
  ao_expires_at :: int
  ao_launcher :: string
  ao_network :: string
  ao_binding_json :: string
  ao_created_by :: string
  ao_created_at :: int
  ao_approved_at :: "int option"
  ao_consumed_at :: "int option"

record admin_sig =
  as_op :: string
  as_index :: int
  as_signer :: string
  as_pubkey :: string
  as_signature :: string
  as_signed_at :: int

record chain_sig =
  cs_op :: string
  cs_index :: int
  cs_action :: string
  cs_signature :: string

record admin_db =
  admin_ops :: "admin_op list"
  admin_sigs :: "admin_sig list"
  chain_sigs :: "chain_sig list"

definition empty_admin_db :: admin_db where
  "empty_admin_db = \<lparr>admin_ops = [], admin_sigs = [], chain_sigs = []\<rparr>"

definition ao_clash :: "admin_op \<Rightarrow> admin_op \<Rightarrow> bool" where
  "ao_clash r r' \<longleftrightarrow> ao_id r = ao_id r' \<or> ao_nonce r = ao_nonce r'"

definition as_key :: "admin_sig \<Rightarrow> string \<times> int" where
  "as_key g = (as_op g, as_index g)"

definition as_clash :: "admin_sig \<Rightarrow> admin_sig \<Rightarrow> bool" where
  "as_clash g g' \<longleftrightarrow> as_key g = as_key g'"

definition cs_clash :: "chain_sig \<Rightarrow> chain_sig \<Rightarrow> bool" where
  "cs_clash g g' \<longleftrightarrow> cs_op g = cs_op g' \<and> cs_index g = cs_index g'"

interpretation ao: keyed_table ao_clash ao_id
  by unfold_locales (auto simp: ao_clash_def)

interpretation asg: keyed_table as_clash as_key
  by unfold_locales (auto simp: as_clash_def)

interpretation csg: sql_table cs_clash
  by unfold_locales (auto simp: cs_clash_def)

text \<open>The value that \<open>get\<close> returns.\<close>

record admin_view =
  av_row :: admin_op
  av_binding :: json
  av_signatures :: "admin_sig list"
  av_chain :: "chain_sig list"
  av_status :: string

definition quorum_slots :: "int set \<Rightarrow> bool" where
  "quorum_slots slots \<longleftrightarrow> 0 \<in> slots \<and> slots \<inter> {1, 2} \<noteq> {}"

definition op_signatures :: "admin_db \<Rightarrow> string \<Rightarrow> admin_sig list" where
  "op_signatures db operation_id = select (\<lambda>g. as_op g = operation_id) (admin_sigs db)"

definition get_operation :: "admin_db \<Rightarrow> string \<Rightarrow> py_error + admin_view" where
  "get_operation db operation_id =
     (case lookup ao_id (lower operation_id) (admin_ops db) of
        None \<Rightarrow> Inl (KeyError ''admin operation not found'')
      | Some row \<Rightarrow>
          let signatures = sort_key as_index (op_signatures db (lower operation_id));
              chain = sort_key cs_index (select (\<lambda>g. cs_op g = lower operation_id) (chain_sigs db));
              slots = set (map as_index signatures) in
          bind (py_loads (ao_binding_json row)) (\<lambda>binding.
            Inr \<lparr>av_row = row, av_binding = binding, av_signatures = signatures, av_chain = chain,
              av_status = (if ao_consumed_at row \<noteq> None then ''consumed''
                else if quorum_slots slots then ''approved'' else ''pending'')\<rparr>))"

text \<open>\<open>list\<close>; rows created in the same second stay in rowid order here.\<close>

definition list_operations :: "admin_db \<Rightarrow> string \<Rightarrow> int \<Rightarrow> int \<Rightarrow> py_error + admin_view list" where
  "list_operations db status_filter limit current =
     raise_if (status_filter \<notin> {''active'', ''pending'', ''approved'', ''consumed'', ''all''})
       (ValueError ''unsupported admin operation status filter'')
    (bind (map_result (get_operation db)
        (map ao_id (order_limit (\<lambda>r. - ao_created_at r) (max 1 (min limit 200)) (admin_ops db)))) (\<lambda>values.
     Inr (if status_filter = ''active''
          then filter (\<lambda>v. av_status v \<in> {''pending'', ''approved''} \<and> current \<le> ao_expires_at (av_row v)) values
          else if status_filter = ''all'' then values
          else filter (\<lambda>v. av_status v = status_filter) values)))"

definition create_body ::
  "admin_api \<Rightarrow> AdminOperationCoreV1 \<Rightarrow> json \<Rightarrow> string \<Rightarrow> int \<Rightarrow> (admin_db, py_error, string) body" where
  "create_body api core binding created_by now db =
     (let operation_id = hex32 (envelope_hash api core) in
      case sql_insert ao_clash
         \<lparr>ao_id = operation_id, ao_operation = core_operation core,
          ao_payload_hash = hex32 (core_payload_hash core), ao_revision = core_revision core,
          ao_nonce = hex32 (core_nonce core), ao_expires_at = core_expires_at core,
          ao_launcher = hex32 (authority_launcher_id core), ao_network = core_network core,
          ao_binding_json = adm_canonical api binding, ao_created_by = lower created_by,
          ao_created_at = now, ao_approved_at = None, ao_consumed_at = None\<rparr> (admin_ops db) of
        None \<Rightarrow> Inl IntegrityError
      | Some rows \<Rightarrow> Inr (operation_id, db\<lparr>admin_ops := rows\<rparr>))"

definition create_operation ::
  "admin_api \<Rightarrow> AdminOperationCoreV1 \<Rightarrow> json \<Rightarrow> string \<Rightarrow> int \<Rightarrow> (admin_db, py_error, admin_view) call" where
  "create_operation api core binding created_by now =
     txn_then (create_body api core binding created_by now) (\<lambda>operation_id db. get_operation db operation_id)"

text \<open>The arguments of \<open>add_signature\<close>.\<close>

record sign_args =
  sa_op :: string
  sa_index :: int
  sa_signer :: string
  sa_pubkey :: string
  sa_signature :: string
  sa_now :: int
  sa_chain_action :: "string option"
  sa_chain_signature :: "string option"

definition sig_row :: "sign_args \<Rightarrow> admin_sig" where
  "sig_row a = \<lparr>as_op = lower (sa_op a), as_index = sa_index a, as_signer = lower (sa_signer a),
     as_pubkey = lower (sa_pubkey a), as_signature = lower (sa_signature a), as_signed_at = sa_now a\<rparr>"

text \<open>The insert of the exact chain signature, when there is one.\<close>

definition add_chain_signature :: "sign_args \<Rightarrow> chain_sig list \<Rightarrow> py_error + chain_sig list" where
  "add_chain_signature a rows =
     raise_if ((sa_chain_action a = None) \<noteq> (sa_chain_signature a = None))
       (ValueError ''chain signature requires its exact action identifier'')
    (case (sa_chain_action a, sa_chain_signature a) of
       (Some action, Some signature) \<Rightarrow>
         (case sql_insert cs_clash \<lparr>cs_op = lower (sa_op a), cs_index = sa_index a, cs_action = action,
                cs_signature = signature\<rparr> rows of
            None \<Rightarrow> Inl IntegrityError
          | Some rows' \<Rightarrow> Inr rows')
     | _ \<Rightarrow> Inr rows)"

definition approve :: "string \<Rightarrow> int \<Rightarrow> admin_op list \<Rightarrow> admin_op list" where
  "approve operation_id now rows =
     map (\<lambda>r. if ao_id r = operation_id then r\<lparr>ao_approved_at := coalesce (ao_approved_at r) (Some now)\<rparr> else r) rows"

definition add_signature_body :: "sign_args \<Rightarrow> (admin_db, py_error, unit) body" where
  "add_signature_body a db =
     (case lookup ao_id (lower (sa_op a)) (admin_ops db) of
        None \<Rightarrow> Inl (KeyError ''admin operation not found'')
      | Some row \<Rightarrow>
          raise_if (ao_consumed_at row \<noteq> None) (ValueError ''admin operation is already consumed'')
         (raise_if (ao_expires_at row < sa_now a) (ValueError ''admin operation is expired'')
         (raise_if (sa_index a \<notin> {0, 1, 2} \<or> list_ex (as_clash (sig_row a)) (admin_sigs db))
            (ValueError ''admin slot already signed this operation'')
         (let sigs = admin_sigs db @ [sig_row a];
              slots = set (map as_index (select (\<lambda>g. as_op g = lower (sa_op a)) sigs)) in
          bind (add_chain_signature a (chain_sigs db)) (\<lambda>chain.
            Inr ((), db\<lparr>admin_sigs := sigs, chain_sigs := chain,
              admin_ops := (if quorum_slots slots then approve (lower (sa_op a)) (sa_now a) (admin_ops db)
                else admin_ops db)\<rparr>))))))"

definition add_signature :: "sign_args \<Rightarrow> (admin_db, py_error, admin_view) call" where
  "add_signature a = txn_then (add_signature_body a) (\<lambda>_ db. get_operation db (sa_op a))"

text \<open>The arguments of \<open>consume\<close>, which a deferred check also leaves for later.\<close>

record consume_args =
  ca_op :: string
  ca_operation :: string
  ca_payload_hash :: string
  ca_caller :: string

definition consume_row :: "string \<Rightarrow> int \<Rightarrow> admin_op list \<Rightarrow> admin_op list" where
  "consume_row operation_id now rows =
     map (\<lambda>r. if ao_id r = operation_id then r\<lparr>ao_consumed_at := Some now\<rparr> else r) rows"

definition consume_body :: "consume_args \<Rightarrow> int \<Rightarrow> (admin_db, py_error, unit) body" where
  "consume_body a now db =
     (case lookup ao_id (lower (ca_op a)) (admin_ops db) of
        None \<Rightarrow> Inl (KeyError ''admin operation not found'')
      | Some row \<Rightarrow>
          raise_if (ao_consumed_at row \<noteq> None) (ValueError ''admin operation is already consumed'')
         (raise_if (ao_expires_at row < now) (ValueError ''admin operation is expired'')
         (raise_if (ao_approved_at row = None) (ValueError ''admin operation lacks slot 0 plus one coadmin'')
         (raise_if (ao_operation row \<noteq> ca_operation a)
            (ValueError ''admin operation type does not match this endpoint'')
         (raise_if (ao_payload_hash row \<noteq> hex32 (ca_payload_hash a))
            (ValueError ''admin operation payload does not match this request'')
         (raise_if (\<not> list_ex (\<lambda>g. as_op g = lower (ca_op a) \<and> as_signer g = lower (ca_caller a)) (admin_sigs db))
            (ValueError ''calling JWT subject did not sign this operation'')
            (Inr ((), db\<lparr>admin_ops := consume_row (lower (ca_op a)) now (admin_ops db)\<rparr>))))))))"

definition consume :: "consume_args \<Rightarrow> int \<Rightarrow> (admin_db, py_error, unit) call" where
  "consume a now = txn (consume_body a now)"

section \<open>Endpoints\<close>

definition core_from_record :: "admin_op \<Rightarrow> py_error + AdminOperationCoreV1" where
  "core_from_record row =
     bind (parse_hex32 (ao_launcher row) ''launcher'') (\<lambda>launcher.
     bind (parse_hex32 (ao_payload_hash row) ''payload hash'') (\<lambda>payload.
     bind (parse_hex32 (ao_nonce row) ''nonce'') (\<lambda>nonce.
       Inr \<lparr>authority_launcher_id = launcher, core_network = ao_network row, core_operation = ao_operation row,
         core_payload_hash = payload, core_revision = ao_revision row, core_nonce = nonce,
         core_expires_at = ao_expires_at row\<rparr>)))"

text \<open>
  The detail of an \<open>HTTPException\<close> is \<open>str(exc)\<close>, which quotes the message of a \<open>KeyError\<close>; the texts of
  the errors of \<open>bytes.fromhex\<close> and \<open>json.loads\<close> are shortened. Other exceptions pass through.
\<close>

datatype http_error = HTTPException int string | Uncaught py_error

definition not_found_or_conflict :: "py_error \<Rightarrow> http_error" where
  "not_found_or_conflict e =
     (case e of KeyError k \<Rightarrow> HTTPException 404 (CHR 0x27 # k @ [CHR 0x27]) | ValueError m \<Rightarrow> HTTPException 409 m | _ \<Rightarrow> Uncaught e)"

text \<open>
  The request that the dependency of \<open>require_admin_operation\<close> sees. \<open>rq_body\<close> is the decoded body, with
  \<open>null\<close> for an empty one and \<open>None\<close> where it is not JSON; the roster is what \<open>resolve_admin_roster\<close> gives.
\<close>

record admin_request =
  rq_enabled :: bool
  rq_environment :: string
  rq_operation_id :: "string option"
  rq_method :: string
  rq_path :: string
  rq_query :: "(string \<times> string) list"
  rq_body :: "json option"
  rq_if_match :: "string option"
  rq_subject :: string
  rq_roster :: "py_error + AdminRoster"

text \<open>The slots that signed, with their keys; a later entry of the comprehension would replace an earlier one.\<close>

definition slot_keys :: "admin_sig list \<Rightarrow> py_error + (int \<times> string) list" where
  "slot_keys signatures =
     map_result (\<lambda>g. case fromhex (removeprefix (as_pubkey g) ''0x'') of
         None \<Rightarrow> Inl (ValueError ''non-hexadecimal number found'') | Some k \<Rightarrow> Inr (as_index g, k))
       (filter (\<lambda>g. as_index g \<in> {0, 1, 2}) signatures)"

definition key_at :: "(int \<times> string) list \<Rightarrow> int \<Rightarrow> string option" where
  "key_at keys i = map_of (rev keys) i"

definition roster_signed :: "AdminRoster \<Rightarrow> (int \<times> string) list \<Rightarrow> bool" where
  "roster_signed roster keys =
     (case ar_keys roster of (k0, k1, k2) \<Rightarrow>
        key_at keys 0 = Some k0 \<and> (key_at keys 1 = Some k1 \<or> key_at keys 2 = Some k2))"

definition http :: "py_error + 'a \<Rightarrow> http_error + 'a" where
  "http m = (case m of Inl e \<Rightarrow> Inl (not_found_or_conflict e) | Inr x \<Rightarrow> Inr x)"

lemma http_Inr [simp]: "http m = Inr x \<longleftrightarrow> m = Inr x"
  by (cases m) (simp_all add: http_def)

text \<open>
  The checks between the read of the operation and its consumption, up to the arguments of \<open>consume\<close>;
  \<open>value\<close> is what \<open>store.get\<close> returned.
\<close>

definition current_roster_signed ::
  "(py_error + AdminRoster) \<Rightarrow> AdminOperationCoreV1 \<Rightarrow> admin_sig list \<Rightarrow> py_error + unit" where
  "current_roster_signed resolved core signatures =
     bind resolved (\<lambda>roster.
     raise_if (authority_launcher_id core \<noteq> ar_launcher roster)
       (ValueError ''admin operation is bound to a stale authority launcher'')
    (bind (slot_keys signatures) (\<lambda>keys.
     raise_if (\<not> roster_signed roster keys)
       (ValueError ''admin operation signatures are stale for the active roster'') (Inr ()))))"

definition guard_checks ::
  "admin_api \<Rightarrow> string \<Rightarrow> admin_request \<Rightarrow> string \<Rightarrow> json \<Rightarrow> admin_view \<Rightarrow> http_error + consume_args" where
  "guard_checks api expected rq operation_id binding value =
     bind (http (core_from_record (av_row value))) (\<lambda>core.
     raise_if (expected = ''mint.publish'' \<and> lower (rq_subject rq) \<noteq> lower (ao_created_by (av_row value)))
       (HTTPException 403 ''Only the original proposer may publish'')
    (bind (http (current_roster_signed (rq_roster rq) core (av_signatures value))) (\<lambda>_.
     Inr \<lparr>ca_op = operation_id, ca_operation = expected,
       ca_payload_hash = request_binding_hash api binding, ca_caller = rq_subject rq\<rparr>)))"

text \<open>The checks that replace \<open>consume\<close> where the endpoint consumes later.\<close>

definition deferred_checks :: "consume_args \<Rightarrow> int \<Rightarrow> admin_view \<Rightarrow> py_error + unit" where
  "deferred_checks a now value =
     (let row = av_row value in
      raise_if (ao_consumed_at row \<noteq> None) (ValueError ''admin operation is already consumed'')
     (raise_if (ao_expires_at row < now) (ValueError ''admin operation is expired'')
     (raise_if (ao_approved_at row = None) (ValueError ''admin operation lacks slot 0 plus one coadmin'')
     (raise_if (ao_operation row \<noteq> ca_operation a)
        (ValueError ''admin operation type does not match this endpoint'')
     (raise_if (ao_payload_hash row \<noteq> hex32 (ca_payload_hash a))
        (ValueError ''admin operation payload does not match this request'')
     (raise_if (\<not> list_ex (\<lambda>g. lower (as_signer g) = lower (ca_caller a)) (av_signatures value))
        (ValueError ''calling JWT subject did not sign this operation'')
        (Inr ())))))))"

text \<open>
  \<open>sign_operation\<close>: the signer recovered from the typed data, the action the chain build assigns to each
  slot (its normalization of a signature against the action's own hash and key is outside the repository),
  and the signatures of the request.
\<close>

record chain_action =
  ct_action_id :: string
  ct_signer_slot :: "int option"
  ct_normalize :: "string \<Rightarrow> py_error + string"

record sign_request =
  sr_signature :: string
  sr_chain_action :: "string option"
  sr_chain_signature :: "string option"

fun action_for :: "int \<Rightarrow> int \<Rightarrow> chain_action list \<Rightarrow> chain_action option" where
  "action_for slot i [] = None"
| "action_for slot i (c # cs) =
     (if (case ct_signer_slot c of None \<Rightarrow> i | Some s \<Rightarrow> s) = slot then Some c else action_for slot (i + 1) cs)"

definition slot_of :: "AdminRoster \<Rightarrow> string \<Rightarrow> int option" where
  "slot_of roster key =
     (case ar_keys roster of (k0, k1, k2) \<Rightarrow>
        if key = k0 then Some 0 else if key = k1 then Some 1 else if key = k2 then Some 2 else None)"

definition chain_signature_of ::
  "chain_action list option \<Rightarrow> int \<Rightarrow> sign_request \<Rightarrow> py_error + string option" where
  "chain_signature_of built slot body =
     (case built of
        None \<Rightarrow> raise_if (sr_chain_action body \<noteq> None \<or> sr_chain_signature body \<noteq> None)
          (ValueError ''this HTTP operation does not accept a chain signature'') (Inr None)
      | Some actions \<Rightarrow>
          (case action_for slot 0 actions of
             None \<Rightarrow> Inl (ValueError ''this chain action is assigned to different administrators'')
           | Some action \<Rightarrow>
               (case sr_chain_signature body of
                  None \<Rightarrow> Inl (ValueError ''approval requires this administrator's exact current chain action'')
                | Some signature \<Rightarrow>
                    raise_if (sr_chain_action body \<noteq> Some (ct_action_id action))
                      (ValueError ''approval requires this administrator's exact current chain action'')
                   (bind (ct_normalize action signature) (\<lambda>n. Inr (Some (''0x'' @ n)))))))"

definition sign_checks ::
  "(AdminOperationCoreV1 \<Rightarrow> string \<Rightarrow> py_error + string \<times> string) \<Rightarrow> (py_error + AdminRoster)
    \<Rightarrow> (py_error + chain_action list option) \<Rightarrow> string \<Rightarrow> string \<Rightarrow> sign_request \<Rightarrow> int \<Rightarrow> admin_view
    \<Rightarrow> py_error + sign_args" where
  "sign_checks recover resolved chain_build subject operation_id body now value =
     bind (core_from_record (av_row value)) (\<lambda>core.
     bind (recover core (sr_signature body)) (\<lambda>(address, key).
     raise_if (lower address \<noteq> lower subject)
       (ValueError ''signature does not match the authenticated administrator'')
    (bind resolved (\<lambda>roster.
     raise_if (authority_launcher_id core \<noteq> ar_launcher roster)
       (ValueError ''admin operation is bound to a stale authority launcher'')
    (case slot_of roster key of
       None \<Rightarrow> Inl (ValueError ''signature key is not in the active admin roster'')
     | Some slot \<Rightarrow>
         bind chain_build (\<lambda>built.
         bind (chain_signature_of built slot body) (\<lambda>chain_signature.
         Inr \<lparr>sa_op = operation_id, sa_index = slot, sa_signer = address, sa_pubkey = hex32 key,
           sa_signature = sr_signature body, sa_now = now, sa_chain_action = sr_chain_action body,
           sa_chain_signature = chain_signature\<rparr>)))))))"

definition sign_operation ::
  "(AdminOperationCoreV1 \<Rightarrow> string \<Rightarrow> py_error + string \<times> string) \<Rightarrow> (py_error + AdminRoster)
    \<Rightarrow> (py_error + chain_action list option) \<Rightarrow> string \<Rightarrow> string \<Rightarrow> sign_request \<Rightarrow> int
    \<Rightarrow> (py_error + admin_view) \<Rightarrow> (admin_db, http_error, admin_view) call" where
  "sign_operation recover resolved chain_build subject operation_id body now seen db =
     (case bind seen (sign_checks recover resolved chain_build subject operation_id body now) of
        Inl e \<Rightarrow> (Inl (not_found_or_conflict e), db)
      | Inr args \<Rightarrow> (case add_signature args db of (result, db') \<Rightarrow> (http result, db')))"

text \<open>What the dependency grants: nothing to consume (approvals off), a consumed operation, or one to consume later.\<close>

datatype admission = Unguarded | Consumed | Deferred consume_args

definition admin_guard ::
  "admin_api \<Rightarrow> string \<Rightarrow> bool \<Rightarrow> admin_request \<Rightarrow> (string \<Rightarrow> py_error + admin_view) \<Rightarrow> int
    \<Rightarrow> (admin_db, http_error, admission) call" where
  "admin_guard api expected defer rq seen now db =
     (if \<not> rq_enabled rq
      then (if rq_environment rq \<in> {''development'', ''test''} then (Inr Unguarded, db)
            else (Inl (HTTPException 503 ''owner-plus-one admin approvals cannot be disabled in deployment''), db))
      else case rq_operation_id rq of
        None \<Rightarrow> (Inl (HTTPException 428 ''X-Solslot-Admin-Operation-Id is required''), db)
      | Some operation_id \<Rightarrow>
        (case rq_body rq of
           None \<Rightarrow> (Inl (HTTPException 400 ''request body must be JSON''), db)
         | Some body \<Rightarrow>
           (case canonical_request_binding (rq_method rq) (rq_path rq) (rq_query rq) body (rq_if_match rq) of
              Inl e \<Rightarrow> (Inl (not_found_or_conflict e), db)
            | Inr binding \<Rightarrow>
              (case seen operation_id of
                 Inl e \<Rightarrow> (Inl (not_found_or_conflict e), db)
               | Inr value \<Rightarrow>
                 (case guard_checks api expected rq operation_id binding value of
                    Inl e \<Rightarrow> (Inl e, db)
                  | Inr args \<Rightarrow>
                    if defer
                    then (case deferred_checks args now value of
                            Inl e \<Rightarrow> (Inl (not_found_or_conflict e), db)
                          | Inr _ \<Rightarrow> (Inr (Deferred args), db))
                    else (case consume args now db of
                            (Inl e, db') \<Rightarrow> (Inl (not_found_or_conflict e), db')
                          | (Inr _, db') \<Rightarrow> (Inr Consumed, db')))))))"

section \<open>Runs\<close>

text \<open>The calls that write the store.\<close>

datatype admin_call =
    Create AdminOperationCoreV1 json string int
  | Sign sign_args
  | Consume consume_args int

fun admin_step :: "admin_api \<Rightarrow> admin_call \<Rightarrow> admin_db \<Rightarrow> admin_db" where
  "admin_step api (Create core binding created_by now) db = snd (create_operation api core binding created_by now db)"
| "admin_step api (Sign a) db = snd (add_signature a db)"
| "admin_step api (Consume a now) db = snd (consume a now db)"

definition slots_of :: "admin_db \<Rightarrow> string \<Rightarrow> int set" where
  "slots_of db operation_id = as_index ` {g \<in> set (admin_sigs db). as_op g = operation_id}"

text \<open>
  The tables satisfy their constraints, signatures belong to operations and to the three slots, an
  operation is approved exactly when the owner and a coadministrator signed it, and consumed only when
  approved and in time.
\<close>

definition op_row_ok :: "admin_db \<Rightarrow> admin_op \<Rightarrow> bool" where
  "op_row_ok db r \<longleftrightarrow>
     (ao_approved_at r \<noteq> None \<longleftrightarrow> quorum_slots (slots_of db (ao_id r))) \<and>
     (\<forall>t. ao_consumed_at r = Some t \<longrightarrow> ao_approved_at r \<noteq> None \<and> t \<le> ao_expires_at r)"

definition admin_inv :: "admin_db \<Rightarrow> bool" where
  "admin_inv db \<longleftrightarrow> table_ok ao_clash (admin_ops db) \<and> table_ok as_clash (admin_sigs db) \<and>
     table_ok cs_clash (chain_sigs db) \<and> list_all (op_row_ok db) (admin_ops db) \<and>
     list_all (\<lambda>g. as_index g \<in> {0, 1, 2} \<and> as_op g \<in> ao_id ` set (admin_ops db)) (admin_sigs db)"

text \<open>What a call may do to the rows: operations keep everything but two times that are set once.\<close>

definition op_grows :: "admin_op \<Rightarrow> admin_op \<Rightarrow> bool" where
  "op_grows r r' \<longleftrightarrow>
     r' = r\<lparr>ao_approved_at := ao_approved_at r', ao_consumed_at := ao_consumed_at r'\<rparr> \<and>
     (ao_approved_at r \<noteq> None \<longrightarrow> ao_approved_at r' = ao_approved_at r) \<and>
     (ao_consumed_at r \<noteq> None \<longrightarrow> ao_consumed_at r' = ao_consumed_at r)"

definition admin_grows :: "admin_db \<Rightarrow> admin_db \<Rightarrow> bool" where
  "admin_grows db db' \<longleftrightarrow>
     (\<forall>r \<in> set (admin_ops db). \<exists>r' \<in> set (admin_ops db'). op_grows r r') \<and>
     set (admin_sigs db) \<subseteq> set (admin_sigs db')"

lemma op_grows_refl [simp]: "op_grows r r"
  by (simp add: op_grows_def)

lemma op_grows_keeps:
  assumes "op_grows r r'"
  shows "ao_id r' = ao_id r" and "ao_operation r' = ao_operation r" and "ao_payload_hash r' = ao_payload_hash r"
    and "ao_expires_at r' = ao_expires_at r" and "ao_consumed_at r = Some t \<Longrightarrow> ao_consumed_at r' = Some t"
proof -
  obtain a c where r': "r' = r\<lparr>ao_approved_at := a, ao_consumed_at := c\<rparr>"
    using assms unfolding op_grows_def by blast
  show "ao_id r' = ao_id r" "ao_operation r' = ao_operation r" "ao_payload_hash r' = ao_payload_hash r"
      "ao_expires_at r' = ao_expires_at r"
    by (simp_all add: r')
  show "ao_consumed_at r = Some t \<Longrightarrow> ao_consumed_at r' = Some t"
    using assms unfolding op_grows_def by simp
qed

lemma op_grows_trans:
  assumes "op_grows r r'" and "op_grows r' r''"
  shows "op_grows r r''"
proof -
  obtain a c where 1: "r' = r\<lparr>ao_approved_at := a, ao_consumed_at := c\<rparr>"
    using assms(1) unfolding op_grows_def by blast
  obtain b d where 2: "r'' = r'\<lparr>ao_approved_at := b, ao_consumed_at := d\<rparr>"
    using assms(2) unfolding op_grows_def by blast
  show ?thesis using assms unfolding op_grows_def 1 2 by (cases r) auto
qed

lemma admin_grows_refl [simp]: "admin_grows db db"
  unfolding admin_grows_def by (metis op_grows_refl order_refl)

lemma admin_grows_trans: "admin_grows db db' \<Longrightarrow> admin_grows db' db'' \<Longrightarrow> admin_grows db db''"
  unfolding admin_grows_def by (metis op_grows_trans order_trans)

lemma admin_grows_reflp: "reflp admin_grows" and admin_grows_transp: "transp admin_grows"
  by (auto simp: reflp_def transp_def intro: admin_grows_trans)

lemma slots_mono: "set (admin_sigs db) \<subseteq> set (admin_sigs db') \<Longrightarrow> slots_of db i \<subseteq> slots_of db' i"
  by (auto simp: slots_of_def)

lemma quorum_mono: "quorum_slots s \<Longrightarrow> s \<subseteq> s' \<Longrightarrow> quorum_slots s'"
  by (auto simp: quorum_slots_def)

lemma op_row_ok_cong:
  "slots_of db' (ao_id r) = slots_of db (ao_id r) \<Longrightarrow> op_row_ok db' r \<longleftrightarrow> op_row_ok db r"
  by (simp add: op_row_ok_def)

text \<open>Updates of the rows that keep the identifier and the nonce.\<close>

lemma map_ao_ok:
  assumes "table_ok ao_clash rows" and "\<And>r. ao_id (f r) = ao_id r" and "\<And>r. ao_nonce (f r) = ao_nonce r"
  shows "table_ok ao_clash (map f rows)"
  using assms by (simp add: table_ok_iff ao_clash_def)

lemma map_ao_ids: "(\<And>r. ao_id (f r) = ao_id r) \<Longrightarrow> ao_id ` set (map f rows) = ao_id ` set rows"
  by (simp add: image_image)

lemma create_effect:
  assumes "create_body api core binding created_by now db = Inr (i, db')"
  obtains r where "sql_insert ao_clash r (admin_ops db) = Some (admin_ops db')" and "ao_id r = i"
    and "ao_approved_at r = None" and "ao_consumed_at r = None"
    and "admin_sigs db' = admin_sigs db" and "chain_sigs db' = chain_sigs db"
proof -
  from assms show thesis
    by (auto simp: create_body_def Let_def split: option.splits intro!: that)
qed

lemma sign_effect:
  assumes "add_signature_body a db = Inr (u, db')"
  shows "sa_index a \<in> {0, 1, 2}"
    and "sql_insert as_clash (sig_row a) (admin_sigs db) = Some (admin_sigs db')"
    and "chain_sigs db' = chain_sigs db \<or> (\<exists>c. sql_insert cs_clash c (chain_sigs db) = Some (chain_sigs db'))"
    and "admin_ops db' = (if quorum_slots (slots_of db' (lower (sa_op a)))
           then approve (lower (sa_op a)) (sa_now a) (admin_ops db) else admin_ops db)"
    and "\<exists>row. lookup ao_id (lower (sa_op a)) (admin_ops db) = Some row \<and> ao_consumed_at row = None \<and>
           sa_now a \<le> ao_expires_at row"
  using assms
  by (auto simp: add_signature_body_def Let_def bind_Inr add_chain_signature_def sql_insert_def list_ex_iff
      slots_of_def select_def image_def split: option.splits if_splits)

lemma consume_effect:
  assumes "consume_body a now db = Inr (u, db')"
  shows "db' = db\<lparr>admin_ops := consume_row (lower (ca_op a)) now (admin_ops db)\<rparr>"
    and "\<exists>row. lookup ao_id (lower (ca_op a)) (admin_ops db) = Some row \<and> ao_consumed_at row = None \<and>
           now \<le> ao_expires_at row \<and> ao_approved_at row \<noteq> None \<and> ao_operation row = ca_operation a \<and>
           ao_payload_hash row = hex32 (ca_payload_hash a)"
    and "\<exists>g \<in> set (admin_sigs db). as_op g = lower (ca_op a) \<and> as_signer g = lower (ca_caller a)"
  using assms by (auto simp: consume_body_def list_ex_iff split: option.splits)

lemma admin_inv_empty: "admin_inv empty_admin_db"
  by (simp add: admin_inv_def empty_admin_db_def)

lemma create_inv:
  assumes "admin_inv db" and "create_body api core binding created_by now db = Inr (i, db')"
  shows "admin_inv db' \<and> admin_grows db db'"
proof -
  obtain r where r: "sql_insert ao_clash r (admin_ops db) = Some (admin_ops db')" "ao_approved_at r = None"
      "ao_consumed_at r = None" "admin_sigs db' = admin_sigs db" "chain_sigs db' = chain_sigs db"
    using create_effect [OF assms(2)] .
  then have ops: "admin_ops db' = admin_ops db @ [r]" by (simp add: sql_insert_Some)
  have "op_row_ok db' r' \<longleftrightarrow> op_row_ok db r'" for r'
    using r(4) by (intro op_row_ok_cong) (simp add: slots_of_def)
  moreover have "slots_of db' (ao_id r) = {}"
    using assms(1) r(1,4) by (force simp: admin_inv_def slots_of_def list_all_iff sql_insert_Some ao_clash_def)
  then have "op_row_ok db' r" using r by (simp add: op_row_ok_def quorum_slots_def)
  moreover have "table_ok ao_clash (admin_ops db')"
    using assms(1) r(1) by (auto simp: admin_inv_def intro: ao.ok_insert)
  moreover have "admin_grows db db'"
    unfolding admin_grows_def ops r(4) using op_grows_refl by fastforce
  ultimately show ?thesis
    using assms(1) r(4,5) by (auto simp: admin_inv_def ops list_all_iff)
qed

lemma approve_grows: "r \<in> set rows \<Longrightarrow> \<exists>r' \<in> set (approve i now rows). op_grows r r'"
proof -
  assume "r \<in> set rows"
  then have "(if ao_id r = i then r\<lparr>ao_approved_at := coalesce (ao_approved_at r) (Some now)\<rparr> else r)
      \<in> set (approve i now rows)"
    by (auto simp: approve_def)
  then show ?thesis
    by (rule bexI [rotated]) (auto simp: op_grows_def coalesce_def split: option.splits)
qed

lemma sign_inv:
  assumes "admin_inv db" and "add_signature_body a db = Inr (u, db')"
  shows "admin_inv db' \<and> admin_grows db db'"
proof -
  note e = sign_effect [OF assms(2)]
  let ?i = "lower (sa_op a)"
  have sigs: "admin_sigs db' = admin_sigs db @ [sig_row a]" using e(2) by (simp add: sql_insert_Some)
  have other: "slots_of db' i = slots_of db i" if "i \<noteq> ?i" for i
    using that by (auto simp: slots_of_def sigs sig_row_def)
  have old: "op_row_ok db r" if "r \<in> set (admin_ops db)" for r
    using assms(1) that by (simp add: admin_inv_def list_all_iff)
  have rows: "op_row_ok db' r'" if "r' \<in> set (admin_ops db')" for r'
  proof (cases "quorum_slots (slots_of db' ?i)")
    case True
    let ?g = "\<lambda>r. if ao_id r = ?i then r\<lparr>ao_approved_at := coalesce (ao_approved_at r) (Some (sa_now a))\<rparr> else r"
    have "r' \<in> ?g ` set (admin_ops db)"
      using that e(4) True by (simp only: approve_def set_map if_True)
    then obtain r where "r \<in> set (admin_ops db)" "r' = ?g r" by (rule imageE) blast
    with old [of r] True other [of "ao_id r"] show ?thesis
      by (auto simp: op_row_ok_def coalesce_def split: option.splits if_splits)
  next
    case False
    with that e(4) have m: "r' \<in> set (admin_ops db)" by simp
    from False have "\<not> quorum_slots (slots_of db ?i)"
      using quorum_mono slots_mono [of db db'] sigs by (metis set_append sup_ge1)
    with False old [OF m] other [of "ao_id r'"] show ?thesis
      by (cases "ao_id r' = ?i") (auto simp: op_row_ok_def)
  qed
  have ids: "ao_id ` set (admin_ops db') = ao_id ` set (admin_ops db)"
    unfolding e(4) approve_def by (cases "quorum_slots (slots_of db' ?i)") (simp_all add: map_ao_ids del: set_map)
  have "table_ok ao_clash (admin_ops db')"
    using assms(1) e(4) by (auto simp: admin_inv_def approve_def intro!: map_ao_ok)
  moreover have "table_ok as_clash (admin_sigs db')"
    using assms(1) e(2) by (auto simp: admin_inv_def intro: asg.ok_insert)
  moreover have "table_ok cs_clash (chain_sigs db')"
    using assms(1) e(3) by (auto simp: admin_inv_def intro: csg.ok_insert)
  moreover have "?i \<in> ao_id ` set (admin_ops db)"
    using e(5) by (metis imageI lookup_Some_D)
  ultimately have "admin_inv db'"
    using assms(1) rows e(1) by (auto simp: admin_inv_def list_all_iff sigs ids sig_row_def)
  moreover have "\<exists>r' \<in> set (admin_ops db'). op_grows r r'" if "r \<in> set (admin_ops db)" for r
    using that approve_grows [OF that] op_grows_refl [of r] e(4) by (metis (full_types))
  then have "admin_grows db db'"
    by (auto simp: admin_grows_def sigs)
  ultimately show ?thesis by blast
qed

lemma consume_inv:
  assumes "admin_inv db" and "consume_body a now db = Inr (u, db')"
  shows "admin_inv db' \<and> admin_grows db db'"
proof -
  note e = consume_effect [OF assms(2)]
  let ?i = "lower (ca_op a)"
  let ?f = "\<lambda>r. if ao_id r = ?i then r\<lparr>ao_consumed_at := Some now\<rparr> else r"
  obtain row where row: "row \<in> set (admin_ops db)" "ao_id row = ?i" "ao_consumed_at row = None"
      "now \<le> ao_expires_at row" "ao_approved_at row \<noteq> None"
    using e(2) by (auto dest!: lookup_Some_D)
  have one: "r = row" if "r \<in> set (admin_ops db)" "ao_id r = ?i" for r
    using assms(1) row that by (auto simp: admin_inv_def intro: ao.key_eq)
  have ops: "admin_ops db' = map ?f (admin_ops db)" "admin_sigs db' = admin_sigs db" "chain_sigs db' = chain_sigs db"
    using e(1) by (simp_all add: consume_row_def)
  have okr: "op_row_ok db' r'" if "r' \<in> set (admin_ops db')" for r'
  proof -
    have "r' \<in> ?f ` set (admin_ops db)"
      using that by (simp only: ops set_map)
    then obtain r where r: "r \<in> set (admin_ops db)" "r' = ?f r" by (rule imageE) blast
    then have "op_row_ok db r"
      using assms(1) by (simp add: admin_inv_def list_all_iff)
    moreover have "slots_of db' i = slots_of db i" for i
      using ops(2) by (simp add: slots_of_def)
    ultimately show ?thesis using r one [of r] row by (auto simp: op_row_ok_def)
  qed
  have ids: "ao_id ` set (admin_ops db') = ao_id ` set (admin_ops db)"
    unfolding ops(1) by (rule map_ao_ids) simp
  have "table_ok ao_clash (admin_ops db')"
    unfolding ops(1) using assms(1) by (auto simp: admin_inv_def intro!: map_ao_ok)
  then have "admin_inv db'"
    using assms(1) okr unfolding admin_inv_def ids ops(2,3) by (simp add: list_all_iff)
  moreover have "op_grows r (?f r)" if "r \<in> set (admin_ops db)" for r
    using one [OF that] row(3) by (auto simp: op_grows_def)
  then have "admin_grows db db'"
    by (simp only: admin_grows_def ops set_map) (meson imageI order_refl)
  ultimately show ?thesis by blast
qed

lemma admin_step_inv:
  assumes "admin_inv db"
  shows "admin_inv (admin_step api op db) \<and> admin_grows db (admin_step api op db)"
proof -
  let ?P = "\<lambda>d. admin_inv d \<and> admin_grows db d"
  have P: "?P db" using assms by simp
  show ?thesis
  proof (cases op)
    case (Create core binding created_by now)
    show ?thesis
      unfolding Create admin_step.simps create_operation_def txn_then_state
      by (rule txn_keeps [of ?P, OF P]) (rule create_inv [OF assms])
  next
    case (Sign a)
    show ?thesis
      unfolding Sign admin_step.simps add_signature_def txn_then_state
      by (rule txn_keeps [of ?P, OF P]) (rule sign_inv [OF assms])
  next
    case (Consume a now)
    show ?thesis
      unfolding Consume admin_step.simps consume_def
      by (rule txn_keeps [of ?P, OF P]) (rule consume_inv [OF assms])
  qed
qed

interpretation adm: store "admin_step api" admin_inv "\<lambda>_. True" for api
  by unfold_locales (simp add: admin_step_inv)

lemma admin_run_inv: "admin_inv db \<Longrightarrow> admin_inv (run (admin_step api) ops db)"
  by (rule adm.run_inv) (simp_all add: list_all_iff)

lemma admin_run_grows: "admin_inv db \<Longrightarrow> admin_grows db (run (admin_step api) ops db)"
  by (rule adm.run_mono [OF _ admin_grows_reflp admin_grows_transp]) (auto simp: admin_step_inv list_all_iff)

section \<open>Properties\<close>

definition admin_history :: "admin_api \<Rightarrow> admin_call list \<Rightarrow> admin_db" where
  "admin_history api ops = run (admin_step api) ops empty_admin_db"

lemma admin_history_inv: "admin_inv (admin_history api ops)"
  unfolding admin_history_def by (rule admin_run_inv [OF admin_inv_empty])

text \<open>
  C16. Consumption is exact: after any sequence of calls, an operation can be consumed precisely when it
  exists, was not consumed, has not expired, was signed by the owner in slot 0 and by slot 1 or 2, has the
  expected type and payload hash, and the caller is among its signers.
\<close>

theorem admin_consume_exact:
  "(\<exists>db'. consume a now (admin_history api ops) = (Inr (), db')) \<longleftrightarrow>
   (\<exists>row \<in> set (admin_ops (admin_history api ops)).
      ao_id row = lower (ca_op a) \<and> ao_consumed_at row = None \<and> now \<le> ao_expires_at row \<and>
      quorum_slots (slots_of (admin_history api ops) (ao_id row)) \<and>
      ao_operation row = ca_operation a \<and> ao_payload_hash row = hex32 (ca_payload_hash a) \<and>
      (\<exists>g \<in> set (admin_sigs (admin_history api ops)). as_op g = ao_id row \<and> as_signer g = lower (ca_caller a)))"
  (is "?L = ?R")
proof
  let ?db = "admin_history api ops"
  have q: "ao_approved_at r \<noteq> None \<longleftrightarrow> quorum_slots (slots_of ?db (ao_id r))" if "r \<in> set (admin_ops ?db)" for r
    using admin_history_inv [of api ops] that by (simp add: admin_inv_def list_all_iff op_row_ok_def)
  show "?L \<Longrightarrow> ?R"
    using consume_effect(2,3) [of a now ?db] q
    by (fastforce simp: consume_def txn_Inr_iff dest!: lookup_Some_D)
  assume ?R
  then obtain row where row: "row \<in> set (admin_ops ?db)" "ao_id row = lower (ca_op a)" "ao_consumed_at row = None"
      "now \<le> ao_expires_at row" "quorum_slots (slots_of ?db (ao_id row))" "ao_operation row = ca_operation a"
      "ao_payload_hash row = hex32 (ca_payload_hash a)"
      "\<exists>g \<in> set (admin_sigs ?db). as_op g = ao_id row \<and> as_signer g = lower (ca_caller a)"
    by blast
  have "lookup ao_id (lower (ca_op a)) (admin_ops ?db) = Some row"
    using ao.lookup_mem [OF _ row(1)] admin_history_inv [of api ops] row(2) by (simp add: admin_inv_def)
  then show ?L
    using row q [OF row(1)] by (auto simp: consume_def txn_Inr_iff consume_body_def list_ex_iff)
qed

definition roster_key :: "AdminRoster \<Rightarrow> int \<Rightarrow> string" where
  "roster_key roster i = (case ar_keys roster of (k0, k1, k2) \<Rightarrow> if i = 0 then k0 else if i = 1 then k1 else k2)"

definition signed_with :: "admin_db \<Rightarrow> string \<Rightarrow> int \<Rightarrow> string \<Rightarrow> bool" where
  "signed_with db operation_id slot key \<longleftrightarrow>
     (\<exists>g \<in> set (admin_sigs db). as_op g = operation_id \<and> as_index g = slot \<and>
        fromhex (removeprefix (as_pubkey g) ''0x'') = Some key)"

lemma slot_keys_mem:
  assumes "slot_keys sigs = Inr keys" and "(i, k) \<in> set keys"
  shows "\<exists>g \<in> set sigs. as_index g = i \<and> fromhex (removeprefix (as_pubkey g) ''0x'') = Some k"
proof -
  let ?f = "\<lambda>g. case fromhex (removeprefix (as_pubkey g) ''0x'') of
         None \<Rightarrow> Inl (ValueError ''non-hexadecimal number found'') | Some k \<Rightarrow> Inr (as_index g, k)"
  have "map_result ?f gs = Inr ks \<Longrightarrow> (i, k) \<in> set ks \<Longrightarrow>
      \<exists>g \<in> set gs. as_index g = i \<and> fromhex (removeprefix (as_pubkey g) ''0x'') = Some k" for gs ks
    by (induction gs arbitrary: ks) (auto split: option.splits sum.splits)
  from this [OF assms(1) [unfolded slot_keys_def] assms(2)] show ?thesis by auto
qed

lemma key_at_mem: "key_at keys i = Some k \<Longrightarrow> (i, k) \<in> set keys"
  unfolding key_at_def by (drule map_of_SomeD) simp

text \<open>The signatures that \<open>get\<close> returned are in every later state.\<close>

lemma guard_signed:
  assumes "get_operation db0 i = Inr value" and "current_roster_signed resolved core (av_signatures value) = Inr u"
    and "set (admin_sigs db0) \<subseteq> set (admin_sigs db)"
  obtains roster slot where "resolved = Inr roster" and "authority_launcher_id core = ar_launcher roster"
    and "signed_with db (lower i) 0 (roster_key roster 0)"
    and "slot \<in> {1, 2}" and "signed_with db (lower i) slot (roster_key roster slot)"
proof -
  from assms(2) obtain roster keys where r: "resolved = Inr roster" "authority_launcher_id core = ar_launcher roster"
      "slot_keys (av_signatures value) = Inr keys" "roster_signed roster keys"
    by (auto simp: current_roster_signed_def bind_Inr)
  have sigs: "set (av_signatures value) = {g \<in> set (admin_sigs db0). as_op g = lower i}"
    using assms(1) by (auto simp: get_operation_def Let_def bind_Inr op_signatures_def select_def split: option.splits)
  have sw: "signed_with db (lower i) s k" if "key_at keys s = Some k" for s k
    using slot_keys_mem [OF r(3) key_at_mem [OF that]] assms(3) sigs unfolding signed_with_def by blast
  from r(4) have "key_at keys 0 = Some (roster_key roster 0)"
      "key_at keys 1 = Some (roster_key roster 1) \<or> key_at keys 2 = Some (roster_key roster 2)"
    by (auto simp: roster_signed_def roster_key_def split: prod.splits)
  then show thesis
    using that [OF r(1,2)] sw by blast
qed

text \<open>A consumed operation stays consumed, and no call consumes it again.\<close>

lemma consumed_final:
  assumes "admin_inv db" and "row \<in> set (admin_ops db)" and "ao_consumed_at row = Some t"
    and "lower (ca_op a) = ao_id row"
  shows "\<exists>e. consume a t' (run (admin_step api) ops db) = (Inl e, run (admin_step api) ops db)"
proof -
  let ?db = "run (admin_step api) ops db"
  obtain r' where r': "r' \<in> set (admin_ops ?db)" "op_grows row r'"
    using admin_run_grows [OF assms(1), of api ops] assms(2) unfolding admin_grows_def by blast
  then have "lookup ao_id (lower (ca_op a)) (admin_ops ?db) = Some r'" "ao_consumed_at r' = Some t"
    using ao.lookup_mem [of "admin_ops ?db" r'] admin_run_inv [OF assms(1), of api ops] op_grows_keeps assms(3,4)
    by (simp_all add: admin_inv_def)
  then show ?thesis
    by (simp add: consume_def txn_def consume_body_def)
qed


text \<open>A sample: an operation is created, signed by the owner and by slot 2, and its request runs.\<close>

definition sample_admin_api :: admin_api where
  "sample_admin_api = \<lparr>envelope_hash = core_nonce, adm_canonical = canonical_json, adm_sha256 = (\<lambda>_. replicate 64 CHR ''c'')\<rparr>"

definition sample_admin_calls :: "admin_call list" where
  "sample_admin_calls =
     [Create \<lparr>authority_launcher_id = replicate 64 CHR ''a'', core_network = ''testnet11'', core_operation = ''presale.launch'',
        core_payload_hash = replicate 64 CHR ''c'', core_revision = 0, core_nonce = replicate 64 CHR ''b'',
        core_expires_at = 700\<rparr> (JObj []) ''0xOwner'' 100,
      Sign \<lparr>sa_op = hex32 (replicate 64 CHR ''B''), sa_index = 0, sa_signer = ''0xOwner'', sa_pubkey = ''0x02'',
        sa_signature = ''s0'', sa_now = 110, sa_chain_action = None, sa_chain_signature = None\<rparr>,
      Sign \<lparr>sa_op = hex32 (replicate 64 CHR ''b''), sa_index = 2, sa_signer = ''0xCoadmin'', sa_pubkey = ''0x03'',
        sa_signature = ''s2'', sa_now = 120, sa_chain_action = None, sa_chain_signature = None\<rparr>]"

definition sample_admin_request :: admin_request where
  "sample_admin_request =
     \<lparr>rq_enabled = True, rq_environment = ''staging'', rq_operation_id = Some (hex32 (replicate 64 CHR ''b'')),
      rq_method = ''post'', rq_path = ''/presales/7/launch'', rq_query = [], rq_body = Some JNull, rq_if_match = None,
      rq_subject = ''0xCOADMIN'',
      rq_roster = Inr \<lparr>ar_launcher = replicate 64 CHR ''a'', ar_keys = (''02'', ''04'', ''03'')\<rparr>\<rparr>"

lemma sample_admin_run:
  "fst (admin_guard sample_admin_api ''presale.launch'' False sample_admin_request
     (get_operation (admin_history sample_admin_api sample_admin_calls)) 130
     (admin_history sample_admin_api (sample_admin_calls @ []))) = Inr Consumed"
  by code_simp


end
