(* ===== verification/MintProposals.thy ===== *)
theory MintProposals
  imports PyDoc
begin

text \<open>
  \<open>src/solslot_api/mint_proposals.py\<close>: the store of mint proposals, from the operator's draft to the minted
  deed, and of the metadata of minted properties. A byte string is a string of the characters with the
  codes of its bytes; the columns that \<open>set_published\<close> writes are one group, and so are the two of an execution.
\<close>

section \<open>Data\<close>

datatype mint_state = DRAFT | PROPOSED | VOTING | PASSED | FAILED | EXECUTED | MINTED | CANCELED

fun state_name :: "mint_state \<Rightarrow> string" where
  "state_name DRAFT = ''DRAFT''"
| "state_name PROPOSED = ''PROPOSED''"
| "state_name VOTING = ''VOTING''"
| "state_name PASSED = ''PASSED''"
| "state_name FAILED = ''FAILED''"
| "state_name EXECUTED = ''EXECUTED''"
| "state_name MINTED = ''MINTED''"
| "state_name CANCELED = ''CANCELED''"

fun ALLOWED_TRANSITIONS :: "mint_state \<Rightarrow> mint_state list" where
  "ALLOWED_TRANSITIONS DRAFT = [PROPOSED, CANCELED]"
| "ALLOWED_TRANSITIONS PROPOSED = [VOTING, FAILED]"
| "ALLOWED_TRANSITIONS VOTING = [PASSED, FAILED]"
| "ALLOWED_TRANSITIONS PASSED = [EXECUTED]"
| "ALLOWED_TRANSITIONS EXECUTED = [MINTED]"
| "ALLOWED_TRANSITIONS FAILED = []"
| "ALLOWED_TRANSITIONS MINTED = []"
| "ALLOWED_TRANSITIONS CANCELED = []"

definition ALL_STATES :: "mint_state list" where
  "ALL_STATES = [DRAFT, PROPOSED, VOTING, PASSED, FAILED, EXECUTED, MINTED, CANCELED]"

text \<open>The exceptions; an \<open>InvalidTransition\<close> carries what its message is formatted from.\<close>

datatype invalid_transition =
    BadSource string mint_state mint_state
  | TallyClosed mint_state
  | TallyDecreases int int

datatype mint_error =
    InvalidTransition invalid_transition
  | DuplicateProperty string
  | DuplicateProposalHash string
  | ProposalNotFound string
  | MintValueError string
  | MintIntegrityError

record mint_terms =
  mt_owner_pubkey :: string
  mt_par_value :: int
  mt_asset_class :: string
  mt_property_id :: string
  mt_collection_id :: string
  mt_share_ppm :: int
  mt_jurisdiction :: string
  mt_royalty_puzhash :: string
  mt_royalty_bps :: int
  mt_quorum_required :: int

record mint_publication =
  mp_smart_deed_inner_puzhash :: string
  mp_eve_inner_puzhash :: string
  mp_deed_full_puzhash :: string
  mp_proposal_hash :: string
  mp_proposal_tracker_coin_id :: string
  mp_sgt_lock_coin_id :: string
  mp_proposal_singleton_launcher_id :: string
  mp_property_registry_coin_id :: string
  mp_property_registry_puzzle_hash :: string
  mp_published_bundle_id :: string
  mp_deadline :: int
  mp_published_at :: int

record mint_row =
  mr_id :: string
  mr_state :: mint_state
  mr_terms :: mint_terms
  mr_publication :: "mint_publication option"
  mr_executed :: "(string \<times> int) option"
  mr_deed_launcher :: "string option"
  mr_vote_tally :: int
  mr_created_at :: int
  mr_minted_at :: "int option"
  mr_metadata :: "string option"

record metadata_row =
  pm_deed_launcher :: string
  pm_payload :: string
  pm_updated_at :: int

record mint_db =
  mint_rows :: "mint_row list"
  metadata_rows :: "metadata_row list"

definition empty_mint_db :: mint_db where
  "empty_mint_db = \<lparr>mint_rows = [], metadata_rows = []\<rparr>"

text \<open>
  The primary key, the partial unique index on the property of a proposal that is not \<open>FAILED\<close> or
  \<open>CANCELED\<close>, and the unique index on the proposal hash.
\<close>

definition live :: "mint_row \<Rightarrow> bool" where
  "live r \<longleftrightarrow> mr_state r \<notin> {FAILED, CANCELED}"

abbreviation property_of :: "mint_row \<Rightarrow> string" where
  "property_of r \<equiv> mt_property_id (mr_terms r)"

abbreviation hash_of :: "mint_row \<Rightarrow> string option" where
  "hash_of r \<equiv> map_option mp_proposal_hash (mr_publication r)"

definition mr_clash :: "mint_row \<Rightarrow> mint_row \<Rightarrow> bool" where
  "mr_clash r r' \<longleftrightarrow>
     mr_id r = mr_id r' \<or> (live r \<and> live r' \<and> property_of r = property_of r') \<or>
     nullable_eq (hash_of r) (hash_of r')"

definition pm_clash :: "metadata_row \<Rightarrow> metadata_row \<Rightarrow> bool" where
  "pm_clash r r' \<longleftrightarrow> pm_deed_launcher r = pm_deed_launcher r'"

interpretation mr: keyed_table mr_clash mr_id
  by unfold_locales (auto simp: mr_clash_def nullable_eq_def)

interpretation pm: keyed_table pm_clash pm_deed_launcher
  by unfold_locales (auto simp: pm_clash_def)

section \<open>Helpers\<close>

definition is_bytes32 :: "string \<Rightarrow> bool" where
  "is_bytes32 v \<longleftrightarrow> length v = 32"

text \<open>
  \<open>str.upper()\<close> below 256: the sharp s becomes two letters; the micro sign and the y with diaeresis, whose
  capitals are beyond 255, are outside the model and stay as they are.
\<close>

definition upper_char :: "char \<Rightarrow> string" where
  "upper_char c =
     (let n = cp c in
      if 97 \<le> n \<and> n \<le> 122 \<or> 224 \<le> n \<and> n \<le> 254 \<and> n \<noteq> 247 then [char_of (n - 32)]
      else if n = 223 then ''SS'' else [c])"

definition upper :: "string \<Rightarrow> string" where
  "upper s = concat (map upper_char s)"

definition canonical_id :: "string \<Rightarrow> string" where
  "canonical_id s = upper (strip s)"

definition hex_digit :: "nat \<Rightarrow> char" where
  "hex_digit d = char_of (if d < 10 then 48 + d else 87 + d)"

fun show_hex :: "nat \<Rightarrow> string" where
  "show_hex n = (if n < 16 then [hex_digit n] else show_hex (n div 16) @ [hex_digit (n mod 16)])"

declare show_hex.simps [simp del]

text \<open>\<open>'0x' + v.hex()\<close>\<close>

definition hex_of :: "string \<Rightarrow> string" where
  "hex_of v = ''0x'' @ concat (map (\<lambda>c. [hex_digit (cp c div 16), hex_digit (cp c mod 16)]) v)"

text \<open>\<open>_new_proposal_id\<close> at the second \<open>now\<close> with a random token.\<close>

definition new_proposal_id :: "nat \<Rightarrow> string \<Rightarrow> string" where
  "new_proposal_id now token =
     (let ts = show_hex now in ''mp_'' @ replicate (8 - length ts) CHR ''0'' @ ts @ token)"

definition valid_proposal_id :: "string \<Rightarrow> bool" where
  "valid_proposal_id s \<longleftrightarrow> 1 \<le> length s \<and> length s \<le> 256 \<and>
     list_all (\<lambda>c. is_digit c \<or> 65 \<le> cp c \<and> cp c \<le> 90 \<or> 97 \<le> cp c \<and> cp c \<le> 122 \<or> c \<in> set ''._:-'') s"

definition json_dumps :: "json \<Rightarrow> string" where
  "json_dumps v = render '', '' '': '' v"

section \<open>Reading\<close>

text \<open>\<open>_row_to_record\<close>: the row with its metadata decoded.\<close>

record StoredMintProposal =
  sp_row :: mint_row
  sp_metadata :: "json option"

definition mint_record :: "mint_row \<Rightarrow> mint_error + StoredMintProposal" where
  "mint_record r =
     (case mr_metadata r of
        None \<Rightarrow> Inr \<lparr>sp_row = r, sp_metadata = None\<rparr>
      | Some text \<Rightarrow>
          (case loads text of
             None \<Rightarrow> Inl (MintValueError ''malformed JSON'')
           | Some v \<Rightarrow> Inr \<lparr>sp_row = r, sp_metadata = Some v\<rparr>))"

definition optional_record :: "mint_row option \<Rightarrow> mint_error + StoredMintProposal option" where
  "optional_record row = (case row of None \<Rightarrow> Inr None | Some r \<Rightarrow> bind (mint_record r) (\<lambda>v. Inr (Some v)))"

definition get_proposal :: "mint_db \<Rightarrow> string \<Rightarrow> mint_error + StoredMintProposal option" where
  "get_proposal db proposal_id = optional_record (lookup mr_id proposal_id (mint_rows db))"

definition get_or_raise :: "mint_db \<Rightarrow> string \<Rightarrow> mint_error + StoredMintProposal" where
  "get_or_raise db proposal_id =
     bind (get_proposal db proposal_id) (\<lambda>v. case v of None \<Rightarrow> Inl (ProposalNotFound proposal_id) | Some r \<Rightarrow> Inr r)"

definition get_by_deed_launcher_id :: "mint_db \<Rightarrow> string \<Rightarrow> mint_error + StoredMintProposal option" where
  "get_by_deed_launcher_id db deed_launcher_id =
     raise_if (length deed_launcher_id \<noteq> 32) (MintValueError ''deed launcher must be 32 bytes'')
    (let rows = take 2 (select (\<lambda>r. mr_deed_launcher r = Some deed_launcher_id) (mint_rows db)) in
     raise_if (length rows > 1) (MintValueError ''ambiguous mint records for deed launcher'')
       (optional_record (case rows of [] \<Rightarrow> None | r # _ \<Rightarrow> Some r)))"

definition get_by_property_id :: "mint_db \<Rightarrow> string \<Rightarrow> mint_error + StoredMintProposal option" where
  "get_by_property_id db property_id =
     (let canonical = canonical_id property_id in
      if canonical = [] then Inr None
      else optional_record (find (\<lambda>r. property_of r = canonical \<and> live r) (mint_rows db)))"

text \<open>\<open>list\<close>; an empty list of states and an empty owner filter nothing, a negative offset is none.\<close>

definition list_mints ::
  "mint_db \<Rightarrow> mint_state list option \<Rightarrow> string option \<Rightarrow> int \<Rightarrow> int \<Rightarrow> mint_error + StoredMintProposal list" where
  "list_mints db states owner_pubkey limit offset =
     raise_if (limit \<le> 0 \<or> limit > 1000) (MintValueError ''limit must be in 1..1000'')
    (let kept = select (\<lambda>r.
           (case states of None \<Rightarrow> True | Some ss \<Rightarrow> ss = [] \<or> mr_state r \<in> set ss) \<and>
           (case owner_pubkey of None \<Rightarrow> True | Some owner \<Rightarrow> owner = [] \<or> mt_owner_pubkey (mr_terms r) = owner)) (mint_rows db);
         newest_first = rev (sort_key (\<lambda>r. (mr_created_at r, mr_id r)) kept) in
     map_result mint_record (take (nat limit) (drop (nat offset) newest_first)))"

definition count_mints :: "mint_db \<Rightarrow> mint_state option \<Rightarrow> nat" where
  "count_mints db state =
     length (select (\<lambda>r. case state of None \<Rightarrow> True | Some s \<Rightarrow> mr_state r = s) (mint_rows db))"

text \<open>\<open>to_public_dict\<close>\<close>

definition opt_hex :: "('a \<Rightarrow> string) \<Rightarrow> 'a option \<Rightarrow> json" where
  "opt_hex f x = (case x of None \<Rightarrow> JNull | Some p \<Rightarrow> if f p = [] then JNull else JStr (hex_of (f p)))"

definition opt_json :: "('a \<Rightarrow> json) \<Rightarrow> 'a option \<Rightarrow> json" where
  "opt_json f x = (case x of None \<Rightarrow> JNull | Some p \<Rightarrow> f p)"

definition to_public_dict :: "StoredMintProposal \<Rightarrow> json" where
  "to_public_dict v =
     (let r = sp_row v; t = mr_terms r; p = mr_publication r in
      JObj
       [(''id'', JStr (mr_id r)), (''owner_pubkey'', JStr (mt_owner_pubkey t)), (''state'', JStr (state_name (mr_state r))),
        (''par_value'', JInt (mt_par_value t)), (''asset_class'', JStr (mt_asset_class t)),
        (''property_id'', JStr (mt_property_id t)), (''collection_id'', JStr (mt_collection_id t)),
        (''share_ppm'', JInt (mt_share_ppm t)), (''jurisdiction'', JStr (mt_jurisdiction t)),
        (''royalty_puzhash'', JStr (hex_of (mt_royalty_puzhash t))), (''royalty_bps'', JInt (mt_royalty_bps t)),
        (''computed'', JObj
          [(''smart_deed_inner_puzhash'', opt_hex mp_smart_deed_inner_puzhash p),
           (''eve_inner_puzhash'', opt_hex mp_eve_inner_puzhash p),
           (''deed_full_puzhash'', opt_hex mp_deed_full_puzhash p),
           (''proposal_hash'', opt_hex mp_proposal_hash p)]),
        (''on_chain'', JObj
          [(''proposal_tracker_coin_id'', opt_hex mp_proposal_tracker_coin_id p),
           (''sgt_lock_coin_id'', opt_hex mp_sgt_lock_coin_id p),
           (''proposal_singleton_launcher_id'', opt_hex mp_proposal_singleton_launcher_id p),
           (''property_registry_coin_id'', opt_hex mp_property_registry_coin_id p),
           (''property_registry_puzzle_hash'', opt_hex mp_property_registry_puzzle_hash p),
           (''deed_launcher_id'', opt_hex id (mr_deed_launcher r)),
           (''published_bundle_id'', opt_json (JStr \<circ> mp_published_bundle_id) p),
           (''executed_bundle_id'', opt_json (JStr \<circ> fst) (mr_executed r))]),
        (''vote_tally'', JInt (mr_vote_tally r)), (''quorum_required'', JInt (mt_quorum_required t)),
        (''deadline'', opt_json (JInt \<circ> mp_deadline) p),
        (''timestamps'', JObj
          [(''created_at'', JInt (mr_created_at r)), (''published_at'', opt_json (JInt \<circ> mp_published_at) p),
           (''executed_at'', opt_json (JInt \<circ> snd) (mr_executed r)), (''minted_at'', opt_json JInt (mr_minted_at r))]),
        (''off_chain_metadata'', opt_json id (sp_metadata v))])"

section \<open>Creation\<close>

text \<open>
  The checks of \<open>create\<close>, which give the terms to store; the identifier is the caller's or a fresh one.
\<close>

definition checked_terms :: "mint_terms \<Rightarrow> mint_error + mint_terms" where
  "checked_terms t =
     raise_if (\<not> is_bytes32 (mt_royalty_puzhash t)) (MintValueError ''royalty_puzhash must be bytes32'')
    (raise_if (mt_par_value t \<le> 0) (MintValueError ''par_value must be positive'')
    (raise_if (mt_share_ppm t \<le> 0 \<or> mt_share_ppm t > 1000000) (MintValueError ''share_ppm must be in 1..1_000_000'')
    (raise_if (\<not> (0 \<le> mt_royalty_bps t \<and> mt_royalty_bps t \<le> 10000)) (MintValueError ''royalty_bps out of range'')
    (raise_if (mt_quorum_required t \<le> 0) (MintValueError ''quorum_required must be positive'')
    (raise_if (canonical_id (mt_property_id t) = [])
       (MintValueError ''property_id must be non-empty after stripping whitespace'')
    (raise_if (canonical_id (mt_collection_id t) = [])
       (MintValueError ''collection_id must be non-empty after stripping whitespace'')
    (Inr (t\<lparr>mt_property_id := canonical_id (mt_property_id t),
        mt_collection_id := canonical_id (mt_collection_id t)\<rparr>))))))))"

definition chosen_id :: "string option \<Rightarrow> nat \<Rightarrow> string \<Rightarrow> mint_error + string" where
  "chosen_id proposal_id now token =
     (case proposal_id of
        None \<Rightarrow> Inr (new_proposal_id now token)
      | Some i \<Rightarrow> raise_if (\<not> valid_proposal_id i)
          (MintValueError (''proposal_id must contain only letters, digits, '.', '_', ':', or '-'' @ [CHR 0x27])) (Inr i))"

text \<open>SQLite names the first constraint that fails, the primary key before the index on the property.\<close>

definition insert_draft :: "mint_row \<Rightarrow> (mint_db, mint_error, unit) body" where
  "insert_draft row db =
     (case sql_insert mr_clash row (mint_rows db) of
        None \<Rightarrow> Inl (if list_ex (\<lambda>r. mr_id r = mr_id row) (mint_rows db) then MintIntegrityError
                  else DuplicateProperty (property_of row))
      | Some rows \<Rightarrow> Inr ((), db\<lparr>mint_rows := rows\<rparr>))"

definition create_mint ::
  "mint_terms \<Rightarrow> json option \<Rightarrow> string option \<Rightarrow> nat \<Rightarrow> string \<Rightarrow> (mint_db, mint_error, StoredMintProposal) call" where
  "create_mint terms metadata proposal_id now token db =
     (case bind (checked_terms terms) (\<lambda>t. bind (chosen_id proposal_id now token) (\<lambda>i. Inr (t, i))) of
        Inl e \<Rightarrow> (Inl e, db)
      | Inr (t, i) \<Rightarrow>
          txn_then (insert_draft
             \<lparr>mr_id = i, mr_state = DRAFT, mr_terms = t, mr_publication = None, mr_executed = None,
              mr_deed_launcher = None, mr_vote_tally = 0, mr_created_at = int now, mr_minted_at = None,
              mr_metadata = (case metadata of None \<Rightarrow> None | Some v \<Rightarrow> if v = JObj [] then None else Some (json_dumps v))\<rparr>)
            (\<lambda>_ db'. get_or_raise db' i) db)"

section \<open>Transitions\<close>

definition valid_sources :: "mint_state \<Rightarrow> mint_state list option \<Rightarrow> mint_state list" where
  "valid_sources target allowed_from =
     (case allowed_from of
        Some ss \<Rightarrow> ss | None \<Rightarrow> filter (\<lambda>s. target \<in> set (ALLOWED_TRANSITIONS s)) ALL_STATES)"

text \<open>\<open>_transition\<close>; \<open>on_clash\<close> is what the caller makes of an \<open>IntegrityError\<close>.\<close>

definition transition_body ::
  "mint_error \<Rightarrow> string \<Rightarrow> mint_state \<Rightarrow> (mint_row \<Rightarrow> mint_row) \<Rightarrow> mint_state list option
    \<Rightarrow> (mint_db, mint_error, unit) body" where
  "transition_body on_clash proposal_id target updates allowed_from db =
     (case lookup mr_id proposal_id (mint_rows db) of
        None \<Rightarrow> Inl (ProposalNotFound proposal_id)
      | Some row \<Rightarrow>
          raise_if (mr_state row \<notin> set (valid_sources target allowed_from))
            (InvalidTransition (BadSource proposal_id (mr_state row) target))
         (case sql_update mr_clash (\<lambda>r. mr_id r = proposal_id) (\<lambda>r. (updates r)\<lparr>mr_state := target\<rparr>) (mint_rows db) of
            None \<Rightarrow> Inl on_clash
          | Some rows \<Rightarrow> Inr ((), db\<lparr>mint_rows := rows\<rparr>)))"

definition transition ::
  "mint_error \<Rightarrow> string \<Rightarrow> mint_state \<Rightarrow> (mint_row \<Rightarrow> mint_row) \<Rightarrow> mint_state list option
    \<Rightarrow> (mint_db, mint_error, StoredMintProposal) call" where
  "transition on_clash proposal_id target updates allowed_from =
     txn_then (transition_body on_clash proposal_id target updates allowed_from) (\<lambda>_ db. get_or_raise db proposal_id)"

definition cancel_mint :: "string \<Rightarrow> (mint_db, mint_error, StoredMintProposal) call" where
  "cancel_mint proposal_id = transition MintIntegrityError proposal_id CANCELED id None"

text \<open>The first of the ten byte strings that is not 32 bytes long, with its name.\<close>

definition labelled_hashes :: "mint_publication \<Rightarrow> string \<Rightarrow> (string \<times> string) list" where
  "labelled_hashes p deed_launcher_id =
     [(''smart_deed_inner_puzhash'', mp_smart_deed_inner_puzhash p), (''eve_inner_puzhash'', mp_eve_inner_puzhash p),
      (''deed_full_puzhash'', mp_deed_full_puzhash p), (''proposal_hash'', mp_proposal_hash p),
      (''proposal_tracker_coin_id'', mp_proposal_tracker_coin_id p), (''sgt_lock_coin_id'', mp_sgt_lock_coin_id p),
      (''proposal_singleton_launcher_id'', mp_proposal_singleton_launcher_id p),
      (''property_registry_coin_id'', mp_property_registry_coin_id p),
      (''property_registry_puzzle_hash'', mp_property_registry_puzzle_hash p), (''deed_launcher_id'', deed_launcher_id)]"

definition set_published ::
  "string \<Rightarrow> mint_publication \<Rightarrow> string \<Rightarrow> json option \<Rightarrow> (mint_db, mint_error, StoredMintProposal) call" where
  "set_published proposal_id p deed_launcher_id metadata db =
     (case find (\<lambda>(label, v). \<not> is_bytes32 v) (labelled_hashes p deed_launcher_id) of
        Some (label, v) \<Rightarrow> (Inl (MintValueError (label @ '' must be bytes32'')), db)
      | None \<Rightarrow>
          if mp_deadline p \<le> 0 then (Inl (MintValueError ''deadline must be positive''), db)
          else transition (DuplicateProposalHash (mp_proposal_hash p)) proposal_id PROPOSED
            (\<lambda>r. r\<lparr>mr_publication := Some p, mr_deed_launcher := Some deed_launcher_id,
               mr_metadata := (case metadata of None \<Rightarrow> mr_metadata r | Some v \<Rightarrow> Some (json_dumps v))\<rparr>) None db)"

definition tally_body :: "string \<Rightarrow> int \<Rightarrow> (mint_db, mint_error, unit) body" where
  "tally_body proposal_id vote_tally db =
     (case lookup mr_id proposal_id (mint_rows db) of
        None \<Rightarrow> Inl (ProposalNotFound proposal_id)
      | Some row \<Rightarrow>
          raise_if (mr_state row \<notin> {PROPOSED, VOTING}) (InvalidTransition (TallyClosed (mr_state row)))
         (raise_if (vote_tally < mr_vote_tally row) (InvalidTransition (TallyDecreases (mr_vote_tally row) vote_tally))
         (case sql_update mr_clash (\<lambda>r. mr_id r = proposal_id) (\<lambda>r. r\<lparr>mr_vote_tally := vote_tally\<rparr>) (mint_rows db) of
            None \<Rightarrow> Inl MintIntegrityError
          | Some rows \<Rightarrow> Inr ((), db\<lparr>mint_rows := rows\<rparr>))))"

definition update_vote_tally :: "string \<Rightarrow> int \<Rightarrow> (mint_db, mint_error, StoredMintProposal) call" where
  "update_vote_tally proposal_id vote_tally db =
     (if vote_tally < 0 then (Inl (MintValueError ''vote_tally must be non-negative''), db)
      else txn_then (tally_body proposal_id vote_tally) (\<lambda>_ db'. get_or_raise db' proposal_id) db)"

definition set_voting :: "string \<Rightarrow> (mint_db, mint_error, StoredMintProposal) call" where
  "set_voting proposal_id = transition MintIntegrityError proposal_id VOTING id None"

definition set_passed :: "string \<Rightarrow> (mint_db, mint_error, StoredMintProposal) call" where
  "set_passed proposal_id = transition MintIntegrityError proposal_id PASSED id None"

definition set_failed :: "string \<Rightarrow> (mint_db, mint_error, StoredMintProposal) call" where
  "set_failed proposal_id = transition MintIntegrityError proposal_id FAILED id (Some [PROPOSED, VOTING])"

definition set_executed :: "string \<Rightarrow> string \<Rightarrow> int \<Rightarrow> (mint_db, mint_error, StoredMintProposal) call" where
  "set_executed proposal_id executed_bundle_id now =
     transition MintIntegrityError proposal_id EXECUTED (\<lambda>r. r\<lparr>mr_executed := Some (executed_bundle_id, now)\<rparr>) None"

definition set_chain_executed :: "string \<Rightarrow> string \<Rightarrow> int \<Rightarrow> (mint_db, mint_error, StoredMintProposal) call" where
  "set_chain_executed proposal_id executed_bundle_id now =
     transition MintIntegrityError proposal_id EXECUTED (\<lambda>r. r\<lparr>mr_executed := Some (executed_bundle_id, now)\<rparr>)
       (Some [PROPOSED, VOTING, PASSED])"

definition set_minted :: "string \<Rightarrow> string \<Rightarrow> int \<Rightarrow> (mint_db, mint_error, StoredMintProposal) call" where
  "set_minted proposal_id deed_launcher_id now db =
     (if \<not> is_bytes32 deed_launcher_id then (Inl (MintValueError ''deed_launcher_id must be bytes32''), db)
      else transition MintIntegrityError proposal_id MINTED
        (\<lambda>r. r\<lparr>mr_deed_launcher := Some deed_launcher_id, mr_minted_at := Some now\<rparr>) None db)"

section \<open>Metadata of minted properties\<close>

definition set_property_metadata :: "string \<Rightarrow> json \<Rightarrow> int \<Rightarrow> (mint_db, mint_error, unit) call" where
  "set_property_metadata deed_launcher_id payload now db =
     (if \<not> is_bytes32 deed_launcher_id then (Inl (MintValueError ''deed_launcher_id must be bytes32''), db)
      else
        let row = \<lparr>pm_deed_launcher = deed_launcher_id, pm_payload = render '','' '':'' payload, pm_updated_at = now\<rparr> in
        (Inr (), db\<lparr>metadata_rows :=
           (case sql_insert pm_clash row (metadata_rows db) of
              Some rows \<Rightarrow> rows
            | None \<Rightarrow> replace_row pm_deed_launcher deed_launcher_id row (metadata_rows db))\<rparr>))"

definition get_property_metadata :: "mint_db \<Rightarrow> string \<Rightarrow> mint_error + json option" where
  "get_property_metadata db deed_launcher_id =
     (case lookup pm_deed_launcher deed_launcher_id (metadata_rows db) of
        None \<Rightarrow> Inr None
      | Some r \<Rightarrow> (case loads (pm_payload r) of None \<Rightarrow> Inl (MintValueError ''malformed JSON'') | Some v \<Rightarrow> Inr (Some v)))"

section \<open>Moves of a proposal\<close>

text \<open>The states a proposal can go to: the table, and the chain execution that overtakes the cached votes.\<close>

definition state_step :: "mint_state \<Rightarrow> mint_state \<Rightarrow> bool" where
  "state_step s s' \<longleftrightarrow> s' \<in> set (ALLOWED_TRANSITIONS s) \<or> (s \<in> {PROPOSED, VOTING} \<and> s' = EXECUTED)"

definition publication_ok :: "mint_publication \<Rightarrow> string \<Rightarrow> bool" where
  "publication_ok p deed_launcher_id \<longleftrightarrow>
     list_all (\<lambda>(label, v). is_bytes32 v) (labelled_hashes p deed_launcher_id) \<and> 0 < mp_deadline p"

inductive mint_move :: "mint_row \<Rightarrow> mint_row \<Rightarrow> bool" where
  publish: "mr_state r = DRAFT \<Longrightarrow> publication_ok p d \<Longrightarrow>
    mint_move r (r\<lparr>mr_publication := Some p, mr_deed_launcher := Some d, mr_metadata := m, mr_state := PROPOSED\<rparr>)"
| cancel: "mr_state r = DRAFT \<Longrightarrow> mint_move r (r\<lparr>mr_state := CANCELED\<rparr>)"
| tally: "mr_state r \<in> {PROPOSED, VOTING} \<Longrightarrow> mr_vote_tally r \<le> n \<Longrightarrow> mint_move r (r\<lparr>mr_vote_tally := n\<rparr>)"
| advance: "mr_state r \<in> {PROPOSED, VOTING} \<Longrightarrow> state_step (mr_state r) s \<Longrightarrow> s \<noteq> EXECUTED \<Longrightarrow>
    mint_move r (r\<lparr>mr_state := s\<rparr>)"
| execute: "mr_state r \<in> {PROPOSED, VOTING, PASSED} \<Longrightarrow>
    mint_move r (r\<lparr>mr_executed := Some e, mr_state := EXECUTED\<rparr>)"
| mint: "mr_state r = EXECUTED \<Longrightarrow> is_bytes32 d \<Longrightarrow>
    mint_move r (r\<lparr>mr_deed_launcher := Some d, mr_minted_at := Some t, mr_state := MINTED\<rparr>)"

definition draft_row :: "mint_row \<Rightarrow> bool" where
  "draft_row r \<longleftrightarrow> mr_state r = DRAFT \<and> checked_terms (mr_terms r) = Inr (mr_terms r) \<and> mr_publication r = None \<and>
     mr_executed r = None \<and> mr_deed_launcher r = None \<and> mr_vote_tally r = 0 \<and> mr_minted_at r = None"

inductive mint_write :: "mint_row list \<Rightarrow> mint_row list \<Rightarrow> bool" where
  keep: "mint_write rows rows"
| draft: "sql_insert mr_clash r rows = Some rows' \<Longrightarrow> draft_row r \<Longrightarrow> mint_write rows rows'"
| move: "lookup mr_id i rows = Some r \<Longrightarrow> mint_move r r' \<Longrightarrow> table_ok mr_clash (replace_row mr_id i r' rows) \<Longrightarrow>
    mint_write rows (replace_row mr_id i r' rows)"

section \<open>Canonical identifiers\<close>

lemma strip_ends:
  assumes "strip s \<noteq> []"
  shows "\<not> is_space (hd (strip s))" and "\<not> is_space (last (strip s))"
proof -
  let ?t = "dropWhile is_space s"
  have r: "strip s = rev (dropWhile is_space (rev ?t))" by (simp add: strip_def)
  with assms have ne: "dropWhile is_space (rev ?t) \<noteq> []" by auto
  then show "\<not> is_space (last (strip s))" unfolding r by (simp add: last_rev hd_dropWhile)
  have tn: "?t \<noteq> []"
    using ne by (metis dropWhile.simps(1) rev.simps(1))
  obtain u where u: "rev ?t = u @ dropWhile is_space (rev ?t)"
    by (metis takeWhile_dropWhile_id)
  then have "?t = strip s @ rev u" unfolding r by (metis rev_append rev_rev_ident)
  then have "hd ?t = hd (strip s)" using assms by (metis hd_append2)
  with hd_dropWhile [OF tn] show "\<not> is_space (hd (strip s))" by simp
qed

lemma strip_fix:
  assumes "s = [] \<or> \<not> is_space (hd s) \<and> \<not> is_space (last s)"
  shows "strip s = s"
proof -
  have fixed: "t = [] \<or> \<not> is_space (hd t) \<Longrightarrow> dropWhile is_space t = t" for t
    by (cases t) auto
  have "dropWhile is_space s = s" using assms by (intro fixed) blast
  moreover have "dropWhile is_space (rev s) = rev s" using assms by (intro fixed) (auto simp: hd_rev)
  ultimately show ?thesis by (simp add: strip_def)
qed

lemma upper_char_props:
  "upper_char c \<noteq> []" "d \<in> set (upper_char c) \<Longrightarrow> upper_char d = [d]"
  "\<not> is_space c \<Longrightarrow> d \<in> set (upper_char c) \<Longrightarrow> \<not> is_space d"
  using cp_less [of c] by (auto simp: upper_char_def Let_def is_space_def split: if_splits)

lemma upper_upper: "upper (upper s) = upper s"
proof -
  have "upper cs = cs" if "\<And>d. d \<in> set cs \<Longrightarrow> upper_char d = [d]" for cs
    using that by (induction cs) (auto simp: upper_def)
  from this [of "upper s"] show ?thesis
    using upper_char_props(2) by (auto simp: upper_def)
qed

lemma canonical_canonical [simp]: "canonical_id (canonical_id s) = canonical_id s"
proof (cases "strip s = []")
  case False
  let ?t = "strip s"
  have ne: "upper ?t \<noteq> []"
    using False upper_char_props(1) by (cases ?t) (auto simp: upper_def)
  have "hd (upper ?t) \<in> set (upper_char (hd ?t))"
    using False upper_char_props(1) [of "hd ?t"] by (cases ?t) (auto simp: upper_def hd_append)
  moreover have "last (upper ?t) \<in> set (upper_char (last ?t))"
  proof -
    have "upper ?t = upper (butlast ?t) @ upper_char (last ?t)"
      using False by (metis upper_def append_butlast_last_id concat.simps concat_append list.simps(8,9) map_append append_Nil2)
    then show ?thesis using upper_char_props(1) [of "last ?t"] by (simp add: last_append)
  qed
  ultimately have "strip (upper ?t) = upper ?t"
    using strip_ends [OF False] upper_char_props(3) ne by (intro strip_fix) blast
  then show ?thesis by (simp add: canonical_id_def upper_upper)
next
  case True
  then have "canonical_id s = []"
    unfolding canonical_id_def True by (simp add: upper_def)
  moreover have "canonical_id [] = []" by (simp add: canonical_id_def upper_def strip_def)
  ultimately show ?thesis by simp
qed

lemma checked_terms_again: "checked_terms t = Inr t' \<Longrightarrow> checked_terms t' = Inr t'"
  by (auto simp: checked_terms_def)

section \<open>Every call is one write\<close>

lemma new_draft:
  assumes "insert_draft r db = Inr (u, db')" and "draft_row r"
  shows "mint_write (mint_rows db) (mint_rows db')"
  using assms by (auto simp: insert_draft_def split: option.splits intro: mint_write.draft)

lemma create_write: "mint_write (mint_rows db) (mint_rows (snd (create_mint t m pid now token db)))"
proof (cases "bind (checked_terms t) (\<lambda>t. bind (chosen_id pid now token) (\<lambda>i. Inr (t, i)))")
  case (Inr x)
  then obtain t' i where x: "x = (t', i)" "checked_terms t' = Inr t'"
    by (auto simp: bind_Inr dest: checked_terms_again)
  let ?r = "\<lparr>mr_id = i, mr_state = DRAFT, mr_terms = t', mr_publication = None, mr_executed = None,
    mr_deed_launcher = None, mr_vote_tally = 0, mr_created_at = int now, mr_minted_at = None,
    mr_metadata = (case m of None \<Rightarrow> None | Some v \<Rightarrow> if v = JObj [] then None else Some (json_dumps v))\<rparr>"
  have "draft_row ?r" using x(2) by (simp add: draft_row_def)
  then have "mint_write (mint_rows db) (mint_rows (snd (txn (insert_draft ?r) db)))"
    by (intro txn_keeps [of "\<lambda>d. mint_write (mint_rows db) (mint_rows d)"]) (auto intro: mint_write.keep new_draft)
  then show ?thesis
    using Inr x(1) by (simp add: create_mint_def txn_then_state)
qed (simp add: create_mint_def mint_write.keep)

lemma transition_write:
  assumes "table_ok mr_clash (mint_rows db)"
    and "\<And>r. mr_id (updates r) = mr_id r"
    and "\<And>r. mr_state r \<in> set (valid_sources target allowed_from) \<Longrightarrow> mint_move r ((updates r)\<lparr>mr_state := target\<rparr>)"
  shows "mint_write (mint_rows db) (mint_rows (snd (transition e i target updates allowed_from db)))"
proof (cases "transition_body e i target updates allowed_from db")
  case (Inr x)
  then obtain r rows where r: "lookup mr_id i (mint_rows db) = Some r" "mr_state r \<in> set (valid_sources target allowed_from)"
      "sql_update mr_clash (\<lambda>r. mr_id r = i) (\<lambda>r. (updates r)\<lparr>mr_state := target\<rparr>) (mint_rows db) = Some rows"
      "x = ((), db\<lparr>mint_rows := rows\<rparr>)"
    by (auto simp: transition_body_def split: option.splits)
  from mr.update_replaces [OF assms(1) r(1,3)] mint_write.move [OF r(1) assms(3) [OF r(2)]]
  show ?thesis
    using Inr r(4) by (simp add: transition_def txn_then_state txn_state)
qed (simp add: transition_def txn_then_state txn_state mint_write.keep)

lemma tally_write:
  assumes "table_ok mr_clash (mint_rows db)"
  shows "mint_write (mint_rows db) (mint_rows (snd (update_vote_tally i n db)))"
proof (cases "n < 0")
  case False
  show ?thesis
  proof (cases "tally_body i n db")
    case (Inr x)
    then obtain r rows where r: "lookup mr_id i (mint_rows db) = Some r" "mr_state r \<in> {PROPOSED, VOTING}"
        "mr_vote_tally r \<le> n"
        "sql_update mr_clash (\<lambda>r. mr_id r = i) (\<lambda>r. r\<lparr>mr_vote_tally := n\<rparr>) (mint_rows db) = Some rows"
        "x = ((), db\<lparr>mint_rows := rows\<rparr>)"
      by (auto simp: tally_body_def split: option.splits)
    from mr.update_replaces [OF assms r(1,4)] mint_write.move [OF r(1) mint_move.tally [OF r(2,3)]]
    show ?thesis
      using Inr False r(5) by (simp add: update_vote_tally_def txn_then_state txn_state)
  qed (use False in \<open>simp add: update_vote_tally_def txn_then_state txn_state mint_write.keep\<close>)
qed (simp add: update_vote_tally_def mint_write.keep)

datatype mint_call =
    Create mint_terms "json option" "string option" nat string
  | Cancel string
  | Publish string mint_publication string "json option"
  | Tally string int
  | Voting string
  | Passed string
  | Failed string
  | Executed string string int
  | Chain_executed string string int
  | Minted string string int
  | Set_metadata string json int

fun mint_step :: "mint_call \<Rightarrow> mint_db \<Rightarrow> mint_db" where
  "mint_step (Create t m pid now token) db = snd (create_mint t m pid now token db)"
| "mint_step (Cancel i) db = snd (cancel_mint i db)"
| "mint_step (Publish i p d m) db = snd (set_published i p d m db)"
| "mint_step (Tally i n) db = snd (update_vote_tally i n db)"
| "mint_step (Voting i) db = snd (set_voting i db)"
| "mint_step (Passed i) db = snd (set_passed i db)"
| "mint_step (Failed i) db = snd (set_failed i db)"
| "mint_step (Executed i b now) db = snd (set_executed i b now db)"
| "mint_step (Chain_executed i b now) db = snd (set_chain_executed i b now db)"
| "mint_step (Minted i d now) db = snd (set_minted i d now db)"
| "mint_step (Set_metadata d v now) db = snd (set_property_metadata d v now db)"

lemma sources [simp]:
  "valid_sources CANCELED None = [DRAFT]" "valid_sources PROPOSED None = [DRAFT]"
  "valid_sources VOTING None = [PROPOSED]" "valid_sources PASSED None = [VOTING]"
  "valid_sources EXECUTED None = [PASSED]" "valid_sources MINTED None = [EXECUTED]"
  "valid_sources s (Some ss) = ss"
  by (simp_all add: valid_sources_def ALL_STATES_def)

lemma publish_write:
  assumes "table_ok mr_clash (mint_rows db)"
  shows "mint_write (mint_rows db) (mint_rows (snd (set_published i p d m db)))"
proof (cases "publication_ok p d")
  case True
  then have "find (\<lambda>(label, v). \<not> is_bytes32 v) (labelled_hashes p d) = None"
    by (auto simp: publication_ok_def find_None_iff list_all_iff)
  with True assms show ?thesis
    unfolding set_published_def
    by (auto simp: publication_ok_def intro!: transition_write mint_move.publish mint_write.keep)
next
  case False
  then have "mint_rows (snd (set_published i p d m db)) = mint_rows db"
    by (auto simp: set_published_def publication_ok_def find_None_iff list_all_iff split: option.splits)
  then show ?thesis by (simp add: mint_write.keep)
qed

lemma step_write:
  assumes "table_ok mr_clash (mint_rows db)"
  shows "mint_write (mint_rows db) (mint_rows (mint_step op db))"
proof (cases op)
  case (Failed i)
  show ?thesis
    unfolding Failed mint_step.simps set_failed_def
    by (rule transition_write [OF assms]) (auto simp: state_step_def intro!: mint_move.advance)
next
  case (Voting i)
  show ?thesis
    unfolding Voting mint_step.simps set_voting_def
    by (rule transition_write [OF assms]) (auto simp: state_step_def intro!: mint_move.advance)
next
  case (Passed i)
  show ?thesis
    unfolding Passed mint_step.simps set_passed_def
    by (rule transition_write [OF assms]) (auto simp: state_step_def intro!: mint_move.advance)
next
  case (Cancel i)
  show ?thesis
    unfolding Cancel mint_step.simps cancel_mint_def
    by (rule transition_write [OF assms]) (auto intro!: mint_move.cancel)
next
  case (Executed i b now)
  show ?thesis
    unfolding Executed mint_step.simps set_executed_def
    by (rule transition_write [OF assms]) (auto intro!: mint_move.execute)
next
  case (Chain_executed i b now)
  show ?thesis
    unfolding Chain_executed mint_step.simps set_chain_executed_def
    by (rule transition_write [OF assms]) (auto intro!: mint_move.execute)
next
  case (Minted i d now)
  show ?thesis
  proof (cases "is_bytes32 d")
    case True
    then have "mint_step op db = snd (transition MintIntegrityError i MINTED
        (\<lambda>r. r\<lparr>mr_deed_launcher := Some d, mr_minted_at := Some now\<rparr>) None db)"
      by (simp add: Minted set_minted_def)
    then show ?thesis
      using True by (simp only:) (rule transition_write [OF assms], auto intro!: mint_move.mint)
  qed (simp add: Minted set_minted_def mint_write.keep)
next
  case (Set_metadata d v now)
  then show ?thesis by (simp add: set_property_metadata_def Let_def mint_write.keep)
qed (simp_all add: create_write tally_write publish_write assms)

section \<open>What every history keeps\<close>

definition mint_row_ok :: "mint_row \<Rightarrow> bool" where
  "mint_row_ok r \<longleftrightarrow>
     checked_terms (mr_terms r) = Inr (mr_terms r) \<and>
     (mr_publication r = None \<longleftrightarrow> mr_state r \<in> {DRAFT, CANCELED}) \<and>
     (mr_deed_launcher r = None \<longleftrightarrow> mr_state r \<in> {DRAFT, CANCELED}) \<and>
     (\<forall>p d. mr_publication r = Some p \<longrightarrow> mr_deed_launcher r = Some d \<longrightarrow> publication_ok p d) \<and>
     (mr_executed r \<noteq> None \<longleftrightarrow> mr_state r \<in> {EXECUTED, MINTED}) \<and>
     (mr_minted_at r \<noteq> None \<longleftrightarrow> mr_state r = MINTED) \<and>
     0 \<le> mr_vote_tally r \<and> (mr_state r \<in> {DRAFT, CANCELED} \<longrightarrow> mr_vote_tally r = 0)"

text \<open>How a row may differ from an earlier state of itself.\<close>

definition mint_later :: "mint_row \<Rightarrow> mint_row \<Rightarrow> bool" where
  "mint_later r r' \<longleftrightarrow>
     mr_id r' = mr_id r \<and> mr_terms r' = mr_terms r \<and> mr_created_at r' = mr_created_at r \<and>
     state_step\<^sup>*\<^sup>* (mr_state r) (mr_state r') \<and> mr_vote_tally r \<le> mr_vote_tally r' \<and>
     (\<forall>p. mr_publication r = Some p \<longrightarrow> mr_publication r' = Some p) \<and>
     (\<forall>e. mr_executed r = Some e \<longrightarrow> mr_executed r' = Some e) \<and>
     (\<forall>t. mr_minted_at r = Some t \<longrightarrow> mr_minted_at r' = Some t \<and> mr_deed_launcher r' = mr_deed_launcher r)"

lemma mint_later_refl [simp]: "mint_later r r"
  by (simp add: mint_later_def)

lemma mint_later_trans: "mint_later r r' \<Longrightarrow> mint_later r' r'' \<Longrightarrow> mint_later r r''"
  unfolding mint_later_def by (auto intro: rtranclp_trans)

lemma draft_row_ok: "draft_row r \<Longrightarrow> mint_row_ok r"
  by (simp add: draft_row_def mint_row_ok_def)

lemma publication_ok_deed: "publication_ok p d \<Longrightarrow> is_bytes32 d' \<Longrightarrow> publication_ok p d'"
  by (simp add: publication_ok_def labelled_hashes_def)

lemma move_state: "mint_move r r' \<Longrightarrow> mr_state r' = mr_state r \<or> state_step (mr_state r) (mr_state r')"
  by (induction rule: mint_move.induct) (auto simp: state_step_def)

lemma move_keeps:
  assumes "mint_move r r'" and "mint_row_ok r"
  shows "mr_id r' = mr_id r \<and> mr_terms r' = mr_terms r \<and> mr_created_at r' = mr_created_at r \<and>
     mr_vote_tally r \<le> mr_vote_tally r' \<and>
     (\<forall>p. mr_publication r = Some p \<longrightarrow> mr_publication r' = Some p) \<and>
     (\<forall>e. mr_executed r = Some e \<longrightarrow> mr_executed r' = Some e) \<and>
     (\<forall>t. mr_minted_at r = Some t \<longrightarrow> mr_minted_at r' = Some t \<and> mr_deed_launcher r' = mr_deed_launcher r)"
proof -
  have none: "mr_state r = DRAFT \<longrightarrow> mr_publication r = None"
      "mr_state r \<notin> {EXECUTED, MINTED} \<longrightarrow> mr_executed r = None" "mr_state r \<noteq> MINTED \<longrightarrow> mr_minted_at r = None"
    using assms(2) unfolding mint_row_ok_def by blast+
  from assms(1) none show ?thesis
    by (induction rule: mint_move.induct) (simp_all, elim disjE, simp_all)
qed

lemma move_row_ok: "mint_move r r' \<Longrightarrow> mint_row_ok r \<Longrightarrow> mint_row_ok r'"
proof (induction rule: mint_move.induct)
  case (publish r p d m)
  then show ?case by (simp add: mint_row_ok_def)
next
  case (cancel r)
  then show ?case by (simp add: mint_row_ok_def)
next
  case (tally r n)
  then show ?case by (elim insertE emptyE) (simp_all add: mint_row_ok_def)
next
  case (advance r s)
  then show ?case
    by (elim insertE emptyE; cases s) (simp_all add: mint_row_ok_def state_step_def)
next
  case (execute r e)
  then show ?case by (elim insertE emptyE) (simp_all add: mint_row_ok_def)
next
  case (mint r d t)
  then obtain p d' where "mr_publication r = Some p" "mr_deed_launcher r = Some d'"
    by (auto simp: mint_row_ok_def)
  with mint publication_ok_deed [of p d' d] show ?case by (simp add: mint_row_ok_def)
qed

lemma move_ok:
  assumes "mint_move r r'" and "mint_row_ok r"
  shows "mint_row_ok r' \<and> mint_later r r'"
proof -
  have "state_step\<^sup>*\<^sup>* (mr_state r) (mr_state r')"
    using move_state [OF assms(1)] by (metis r_into_rtranclp rtranclp.rtrancl_refl)
  then show ?thesis
    using move_keeps [OF assms] move_row_ok [OF assms] by (simp add: mint_later_def)
qed

definition mint_inv :: "mint_db \<Rightarrow> bool" where
  "mint_inv db \<longleftrightarrow> table_ok mr_clash (mint_rows db) \<and> list_all mint_row_ok (mint_rows db)"

definition mint_grows :: "mint_db \<Rightarrow> mint_db \<Rightarrow> bool" where
  "mint_grows db db' \<longleftrightarrow> (\<forall>r \<in> set (mint_rows db). \<exists>r' \<in> set (mint_rows db'). mint_later r r')"

lemma write_inv:
  assumes "mint_write rows rows'" and "table_ok mr_clash rows" and "list_all mint_row_ok rows"
  shows "table_ok mr_clash rows' \<and> list_all mint_row_ok rows' \<and>
    (\<forall>r \<in> set rows. \<exists>r' \<in> set rows'. mint_later r r')"
  using assms(1)
proof cases
  case keep
  then show ?thesis using assms mint_later_refl by blast
next
  case (draft r)
  then have "table_ok mr_clash rows'" "rows' = rows @ [r]"
    using assms(2) by (auto intro: mr.ok_insert simp: sql_insert_Some)
  then show ?thesis
    using assms(3) draft_row_ok [OF draft(2)] mint_later_refl by (fastforce simp: list_all_iff)
next
  case (move i r r')
  have r: "r \<in> set rows" "mr_id r = i" using move(2) by (auto dest: lookup_Some_D)
  then have ok: "mint_row_ok r' \<and> mint_later r r'"
    using move_ok [OF move(3)] assms(3) by (simp add: list_all_iff)
  then have "list_all mint_row_ok rows'"
    using assms(3) move(1) by (auto simp: list_all_iff dest: replace_row_mem)
  moreover have "\<exists>x' \<in> set rows'. mint_later x x'" if "x \<in> set rows" for x
  proof (cases "mr_id x = i")
    case True
    then have "x = r" using mr.key_eq [OF assms(2) that r(1)] r(2) by simp
    then show ?thesis using ok replace_row_new [OF move(2)] move(1) by blast
  next
    case False
    then show ?thesis using replace_row_other [of x rows mr_id i r'] that move(1) mint_later_refl by blast
  qed
  ultimately show ?thesis using move(1,4) by blast
qed

lemma mint_step_ok: "mint_inv db \<Longrightarrow> mint_inv (mint_step op db) \<and> mint_grows db (mint_step op db)"
  unfolding mint_inv_def mint_grows_def using write_inv step_write by blast

interpretation mint: store mint_step mint_inv "\<lambda>_. True"
  by unfold_locales (simp add: mint_step_ok)

definition mint_history :: "mint_call list \<Rightarrow> mint_db" where
  "mint_history ops = run mint_step ops empty_mint_db"

lemma mint_history_inv: "mint_inv (mint_history ops)"
  unfolding mint_history_def
  by (rule mint.run_inv) (simp_all add: mint_inv_def empty_mint_db_def list_all_iff)

lemma mint_history_grows: "mint_grows (mint_history ops) (mint_history (ops @ ops'))"
proof -
  have "reflp mint_grows" "transp mint_grows"
    by (auto simp: reflp_def transp_def mint_grows_def intro: bexI [of "mint_later _"]) (metis mint_later_trans mint_later_refl)+
  then show ?thesis
    unfolding mint_history_def run_append
    using mint.run_mono [of mint_grows] mint_step_ok mint_history_inv [of ops, unfolded mint_history_def]
    by (simp add: list_all_iff)
qed

section \<open>Properties\<close>

text \<open>A sample: a draft is published, executed on the chain and minted; another is canceled.\<close>

definition sample_terms :: mint_terms where
  "sample_terms = \<lparr>mt_owner_pubkey = ''op'', mt_par_value = 500000, mt_asset_class = ''RES'', mt_property_id = '' us-tx-1 '',
     mt_collection_id = ''c1'', mt_share_ppm = 1000000, mt_jurisdiction = ''US'', mt_royalty_puzhash = replicate 32 CHR ''r'',
     mt_royalty_bps = 200, mt_quorum_required = 3\<rparr>"

definition sample_publication :: mint_publication where
  "sample_publication = \<lparr>mp_smart_deed_inner_puzhash = replicate 32 CHR ''a'', mp_eve_inner_puzhash = replicate 32 CHR ''b'',
     mp_deed_full_puzhash = replicate 32 CHR ''c'', mp_proposal_hash = replicate 32 CHR ''d'',
     mp_proposal_tracker_coin_id = replicate 32 CHR ''e'', mp_sgt_lock_coin_id = replicate 32 CHR ''f'',
     mp_proposal_singleton_launcher_id = replicate 32 CHR ''g'', mp_property_registry_coin_id = replicate 32 CHR ''h'',
     mp_property_registry_puzzle_hash = replicate 32 CHR ''i'', mp_published_bundle_id = ''b1'', mp_deadline = 900,
     mp_published_at = 20\<rparr>"

definition sample_mint_calls :: "mint_call list" where
  "sample_mint_calls =
     [Create sample_terms None (Some ''p0'') 10 [], Cancel ''p0'', Create sample_terms None (Some ''p1'') 12 [],
      Publish ''p1'' sample_publication (replicate 32 CHR ''j'') None, Tally ''p1'' 4]"

lemma sample_mint_live: "list_ex (\<lambda>r. live r \<and> property_of r = canonical_id (mt_property_id sample_terms)) (mint_rows (mint_history sample_mint_calls))"
  by code_simp

lemma distinct_somes:
  "table_ok (\<lambda>r r'. nullable_eq (f r) (f r')) rows \<Longrightarrow>
   distinct (concat (map (\<lambda>r. case f r of None \<Rightarrow> [] | Some h \<Rightarrow> [h]) rows))"
  by (induction rows) (auto simp: list_all_iff nullable_eq_def split: option.splits)

lemma table_ok_weaken: "table_ok c rows \<Longrightarrow> (\<And>r r'. c' r r' \<Longrightarrow> c r r') \<Longrightarrow> table_ok c' rows"
  by (induction rows) (auto simp: list_all_iff)

text \<open>
  C17. One live proposal for a property: in every history no two proposals that are neither failed nor
  canceled have the same property, no two proposals have the same on-chain hash, and while a property has a
  live proposal every request to create another one under any spelling of its identifier fails and leaves
  the store unchanged.
\<close>

theorem mint_one_live_proposal:
  "distinct (map property_of (filter live (mint_rows (mint_history ops)))) \<and>
   distinct (concat (map (\<lambda>r. case hash_of r of None \<Rightarrow> [] | Some h \<Rightarrow> [h]) (mint_rows (mint_history ops)))) \<and>
   (\<forall>t metadata proposal_id now token.
      list_ex (\<lambda>r. live r \<and> property_of r = canonical_id (mt_property_id t)) (mint_rows (mint_history ops)) \<longrightarrow>
      (\<exists>e. create_mint t metadata proposal_id now token (mint_history ops) = (Inl e, mint_history ops)))"
proof (intro conjI allI impI)
  let ?rows = "mint_rows (mint_history ops)"
  have ok: "table_ok mr_clash ?rows" using mint_history_inv [of ops] by (simp add: mint_inv_def)
  have "table_ok mr_clash rows \<Longrightarrow> distinct (map property_of (filter live rows))" for rows
    by (induction rows) (auto simp: mr_clash_def list_all_iff)
  with ok show "distinct (map property_of (filter live ?rows))" by blast
  show "distinct (concat (map (\<lambda>r. case hash_of r of None \<Rightarrow> [] | Some h \<Rightarrow> [h]) ?rows))"
    by (rule distinct_somes, rule table_ok_weaken [OF ok]) (simp add: mr_clash_def)
  fix t :: mint_terms and metadata proposal_id now token
  assume "list_ex (\<lambda>r. live r \<and> property_of r = canonical_id (mt_property_id t)) ?rows"
  then obtain r where r: "r \<in> set ?rows" "live r" "property_of r = canonical_id (mt_property_id t)"
    by (auto simp: list_ex_iff)
  have refused: "\<exists>e. insert_draft d (mint_history ops) = Inl e"
    if "property_of d = property_of r" "mr_state d = DRAFT" for d
  proof -
    have "sql_insert mr_clash d ?rows = None"
      using r(1,2) that by (auto simp: sql_insert_None mr_clash_def live_def)
    then show ?thesis by (simp add: insert_draft_def)
  qed
  have pid: "mt_property_id t' = property_of r" if "checked_terms t = Inr t'" for t'
    using that r(3) by (auto simp: checked_terms_def)
  show "\<exists>e. create_mint t metadata proposal_id now token (mint_history ops) = (Inl e, mint_history ops)"
  proof (cases "bind (checked_terms t) (\<lambda>t. bind (chosen_id proposal_id now token) (\<lambda>i. Inr (t, i)))")
    case (Inr x)
    then obtain t' i where x: "x = (t', i)" "checked_terms t = Inr t'" by (auto simp: bind_Inr)
    obtain e where "insert_draft \<lparr>mr_id = i, mr_state = DRAFT, mr_terms = t', mr_publication = None,
        mr_executed = None, mr_deed_launcher = None, mr_vote_tally = 0, mr_created_at = int now, mr_minted_at = None,
        mr_metadata = (case metadata of None \<Rightarrow> None | Some v \<Rightarrow> if v = JObj [] then None else Some (json_dumps v))\<rparr>
        (mint_history ops) = Inl e"
      using refused pid [OF x(2)] by fastforce
    then show ?thesis
      using Inr x(1) by (simp add: create_mint_def txn_then_def txn_def)
  qed (simp add: create_mint_def)
qed

text \<open>The property is spelled in capitals and without the spaces here.\<close>

theorem mint_one_live_proposal_witness:
  "\<exists>e. create_mint (sample_terms\<lparr>mt_property_id := ''US-TX-1''\<rparr>) None None 30 ''t'' (mint_history sample_mint_calls)
     = (Inl e, mint_history sample_mint_calls)"
proof -
  have same: "canonical_id (mt_property_id (sample_terms\<lparr>mt_property_id := ''US-TX-1''\<rparr>)) = canonical_id (mt_property_id sample_terms)"
    by code_simp
  show ?thesis
    using mint_one_live_proposal [of sample_mint_calls] sample_mint_live unfolding same [symmetric] by blast
qed



text \<open>
  The columns fit the state: in every history every proposal has canonical terms within their bounds; it has
  its on-chain hashes, each of 32 bytes, its deed launcher and its deadline exactly when it was published, an
  executed bundle exactly when executed or minted, a minting time exactly when minted, and votes only when published.
\<close>

theorem mint_columns: "list_all mint_row_ok (mint_rows (mint_history ops))"
  using mint_history_inv [of ops] by (simp add: mint_inv_def)

end
