(* ===== verification/FundedRedemption.thy ===== *)
theory FundedRedemption
  imports PyDoc
begin

text \<open>
  \<open>src/solslot_api/funded_redemption_store.py\<close>: the redemptions that customers submitted and the protocol
  bundles that fund them. Every method runs one statement, commits, reads the row back and compares.
\<close>

section \<open>Data\<close>

datatype redemption_status = PREPARED | SUBMITTING | SUBMITTED | CONFIRMED

text \<open>What \<open>record_submitted\<close> compares, and the rest of a row of \<open>funded_redemption_operations\<close>.\<close>

record redemption_evidence =
  re_settlement_id :: string
  re_deed_launcher_id :: string
  re_vault_launcher_id :: string
  re_payment_amount :: string
  re_funding_coin_id :: string
  re_expected_payment_coin_id :: string
  re_transaction_id :: string

record submission =
  sb_fee_mojos :: string
  sb_fee_target_seconds :: int
  sb_submission_provider :: string
  sb_mempool_observed_at :: string

record StoredFundedRedemption =
  fr_operation_hash :: string
  fr_evidence :: redemption_evidence
  fr_status :: redemption_status
  fr_submission :: submission
  fr_confirmed_height :: "int option"
  fr_created_at :: int
  fr_updated_at :: int

text \<open>
  A row of \<open>funded_redemption_funding\<close>: the intent that \<open>prepare_funding_submission\<close> compares, with the input
  coins as their JSON text, and the transaction with its submission, which are written together.
\<close>

record funding_intent =
  fi_operation_hash :: string
  fi_settlement_id :: string
  fi_payment_asset_id :: string
  fi_payment_amount :: string
  fi_recipient_inner_puzzle_hash :: string
  fi_expected_funding_coin_id :: string
  fi_unsigned_bundle_json :: string
  fi_signed_bundle_json :: string
  fi_input_coin_ids_json :: string

record funding_row =
  ff_proposal_id :: string
  ff_intent :: funding_intent
  ff_status :: redemption_status
  ff_transaction :: "(string \<times> submission) option"
  ff_confirmed_height :: "int option"
  ff_created_by :: string
  ff_created_at :: int
  ff_updated_at :: int

text \<open>The value read back: the row with its input coins decoded.\<close>

record StoredRedemptionFunding =
  sf_row :: funding_row
  sf_input_coin_ids :: "string list"

record redemption_db =
  redemption_rows :: "StoredFundedRedemption list"
  funding_rows :: "funding_row list"

definition empty_redemption_db :: redemption_db where
  "empty_redemption_db = \<lparr>redemption_rows = [], funding_rows = []\<rparr>"

datatype redemption_error =
    RedemptionValueError string
  | RedemptionKeyError string
  | RedemptionRuntimeError string
  | RedemptionIntegrityError

definition fr_clash :: "StoredFundedRedemption \<Rightarrow> StoredFundedRedemption \<Rightarrow> bool" where
  "fr_clash r r' \<longleftrightarrow>
     fr_operation_hash r = fr_operation_hash r' \<or>
     re_funding_coin_id (fr_evidence r) = re_funding_coin_id (fr_evidence r') \<or>
     re_expected_payment_coin_id (fr_evidence r) = re_expected_payment_coin_id (fr_evidence r')"

definition ff_clash :: "funding_row \<Rightarrow> funding_row \<Rightarrow> bool" where
  "ff_clash r r' \<longleftrightarrow>
     ff_proposal_id r = ff_proposal_id r' \<or>
     fi_operation_hash (ff_intent r) = fi_operation_hash (ff_intent r') \<or>
     fi_expected_funding_coin_id (ff_intent r) = fi_expected_funding_coin_id (ff_intent r')"

interpretation fr: keyed_table fr_clash fr_operation_hash
  by unfold_locales (auto simp: fr_clash_def)

interpretation ff: keyed_table ff_clash ff_proposal_id
  by unfold_locales (auto simp: ff_clash_def)

text \<open>\<open>INSERT ... ON CONFLICT(key) DO NOTHING\<close>: the conflict target is checked before the other constraints.\<close>

definition insert_do_nothing ::
  "('r \<Rightarrow> 'r \<Rightarrow> bool) \<Rightarrow> ('r \<Rightarrow> string) \<Rightarrow> 'r \<Rightarrow> 'r list \<Rightarrow> redemption_error + 'r list" where
  "insert_do_nothing clash key r rows =
     (if lookup key (key r) rows \<noteq> None then Inr rows
      else case sql_insert clash r rows of None \<Rightarrow> Inl RedemptionIntegrityError | Some rows' \<Rightarrow> Inr rows')"

text \<open>An \<open>UPDATE\<close> of columns under no constraint.\<close>

definition update_rows :: "('r \<Rightarrow> bool) \<Rightarrow> ('r \<Rightarrow> 'r) \<Rightarrow> 'r list \<Rightarrow> 'r list" where
  "update_rows p f rows = map (\<lambda>r. if p r then f r else r) rows"

section \<open>Customer redemptions\<close>

definition get_redemption :: "redemption_db \<Rightarrow> string \<Rightarrow> StoredFundedRedemption option" where
  "get_redemption db operation_hash = lookup fr_operation_hash operation_hash (redemption_rows db)"

definition list_for_vault :: "redemption_db \<Rightarrow> string \<Rightarrow> StoredFundedRedemption list" where
  "list_for_vault db vault_launcher_id =
     sort_key (\<lambda>r. (- fr_updated_at r, fr_operation_hash r))
       (select (\<lambda>r. re_vault_launcher_id (fr_evidence r) = vault_launcher_id) (redemption_rows db))"

definition record_submitted ::
  "string \<Rightarrow> redemption_evidence \<Rightarrow> submission \<Rightarrow> int
    \<Rightarrow> (redemption_db, redemption_error, StoredFundedRedemption) call" where
  "record_submitted operation_hash evidence submission now db =
     (case insert_do_nothing fr_clash fr_operation_hash
        \<lparr>fr_operation_hash = operation_hash, fr_evidence = evidence, fr_status = SUBMITTED, fr_submission = submission,
         fr_confirmed_height = None, fr_created_at = now, fr_updated_at = now\<rparr> (redemption_rows db) of
        Inl e \<Rightarrow> (Inl e, db)
      | Inr rows \<Rightarrow>
          let db' = db\<lparr>redemption_rows := rows\<rparr> in
          (case get_redemption db' operation_hash of
             None \<Rightarrow> Inl (RedemptionRuntimeError ''redemption operation was not persisted'')
           | Some r \<Rightarrow> raise_if (fr_evidence r \<noteq> evidence)
               (RedemptionValueError ''redemption operation hash is already bound to different evidence'') (Inr r),
           db'))"

definition mark_confirmed :: "string \<Rightarrow> int \<Rightarrow> int \<Rightarrow> (redemption_db, redemption_error, StoredFundedRedemption) call" where
  "mark_confirmed operation_hash height now db =
     (let db' = db\<lparr>redemption_rows := update_rows (\<lambda>r. fr_operation_hash r = operation_hash)
            (\<lambda>r. r\<lparr>fr_status := CONFIRMED, fr_confirmed_height := Some height, fr_updated_at := now\<rparr>) (redemption_rows db)\<rparr> in
      (case get_redemption db' operation_hash of None \<Rightarrow> Inl (RedemptionKeyError operation_hash) | Some r \<Rightarrow> Inr r, db'))"

section \<open>Funding bundles\<close>

definition decode_inputs :: "string \<Rightarrow> redemption_error + string list" where
  "decode_inputs text =
     (case loads text of
        Some (JArr vs) \<Rightarrow>
          map_result (\<lambda>v. case v of JStr s \<Rightarrow> Inr s
            | _ \<Rightarrow> Inl (RedemptionValueError ''stored funding input list is malformed'')) vs
      | Some _ \<Rightarrow> Inl (RedemptionValueError ''stored funding input list is malformed'')
      | None \<Rightarrow> Inl (RedemptionValueError ''malformed JSON''))"

definition funding_record :: "funding_row option \<Rightarrow> redemption_error + StoredRedemptionFunding option" where
  "funding_record row =
     (case row of
        None \<Rightarrow> Inr None
      | Some r \<Rightarrow> bind (decode_inputs (fi_input_coin_ids_json (ff_intent r)))
          (\<lambda>ids. Inr (Some \<lparr>sf_row = r, sf_input_coin_ids = ids\<rparr>)))"

definition get_funding :: "redemption_db \<Rightarrow> string \<Rightarrow> redemption_error + StoredRedemptionFunding option" where
  "get_funding db proposal_id = funding_record (lookup ff_proposal_id proposal_id (funding_rows db))"

definition get_funding_by_operation ::
  "redemption_db \<Rightarrow> string \<Rightarrow> redemption_error + StoredRedemptionFunding option" where
  "get_funding_by_operation db operation_hash =
     funding_record (find (\<lambda>r. fi_operation_hash (ff_intent r) = operation_hash) (funding_rows db))"

text \<open>The arguments of \<open>prepare_funding_submission\<close> beside the documents.\<close>

definition intent_of :: "funding_intent \<Rightarrow> json \<Rightarrow> json \<Rightarrow> string list \<Rightarrow> funding_intent" where
  "intent_of i unsigned_bundle signed_bundle input_coin_ids =
     i\<lparr>fi_unsigned_bundle_json := canonical_json unsigned_bundle, fi_signed_bundle_json := canonical_json signed_bundle,
       fi_input_coin_ids_json := render '','' '':'' (JArr (map JStr input_coin_ids))\<rparr>"

definition same_intent :: "StoredRedemptionFunding \<Rightarrow> funding_intent \<Rightarrow> string list \<Rightarrow> bool" where
  "same_intent v i input_coin_ids \<longleftrightarrow>
     (ff_intent (sf_row v))\<lparr>fi_input_coin_ids_json := fi_input_coin_ids_json i\<rparr> = i \<and>
     sf_input_coin_ids v = input_coin_ids"

definition prepare_funding_submission ::
  "string \<Rightarrow> funding_intent \<Rightarrow> json \<Rightarrow> json \<Rightarrow> string list \<Rightarrow> string \<Rightarrow> int
    \<Rightarrow> (redemption_db, redemption_error, StoredRedemptionFunding) call" where
  "prepare_funding_submission proposal_id terms unsigned_bundle signed_bundle input_coin_ids created_by now db =
     (let intent = intent_of terms unsigned_bundle signed_bundle input_coin_ids in
      case insert_do_nothing ff_clash ff_proposal_id
        \<lparr>ff_proposal_id = proposal_id, ff_intent = intent, ff_status = SUBMITTING, ff_transaction = None,
         ff_confirmed_height = None, ff_created_by = created_by, ff_created_at = now, ff_updated_at = now\<rparr>
        (funding_rows db) of
        Inl e \<Rightarrow> (Inl e, db)
      | Inr rows \<Rightarrow>
          let db' = db\<lparr>funding_rows := rows\<rparr> in
          (bind (get_funding db' proposal_id) (\<lambda>found.
             case found of
               None \<Rightarrow> Inl (RedemptionRuntimeError ''redemption funding intent was not persisted'')
             | Some v \<Rightarrow> raise_if (\<not> same_intent v intent input_coin_ids)
                 (RedemptionValueError ''redemption proposal already has a different funding intent'') (Inr v)),
           db'))"

definition mark_funding_submitted ::
  "string \<Rightarrow> string \<Rightarrow> submission \<Rightarrow> int \<Rightarrow> (redemption_db, redemption_error, StoredRedemptionFunding) call" where
  "mark_funding_submitted proposal_id transaction_id submission now db =
     (let db' = db\<lparr>funding_rows := update_rows
            (\<lambda>r. ff_proposal_id r = proposal_id \<and> ff_status r \<in> {SUBMITTING, SUBMITTED})
            (\<lambda>r. r\<lparr>ff_status := SUBMITTED, ff_transaction := Some (transaction_id, submission), ff_updated_at := now\<rparr>)
            (funding_rows db)\<rparr> in
      (bind (get_funding db' proposal_id) (\<lambda>found.
         case found of
           None \<Rightarrow> Inl (RedemptionKeyError proposal_id)
         | Some v \<Rightarrow> raise_if (map_option fst (ff_transaction (sf_row v)) \<noteq> Some transaction_id)
             (RedemptionValueError ''funding submission is already bound to another bundle'') (Inr v)),
       db'))"

definition mark_funding_confirmed ::
  "string \<Rightarrow> int \<Rightarrow> int \<Rightarrow> (redemption_db, redemption_error, StoredRedemptionFunding) call" where
  "mark_funding_confirmed proposal_id height now db =
     (let db' = db\<lparr>funding_rows := update_rows (\<lambda>r. ff_proposal_id r = proposal_id)
            (\<lambda>r. r\<lparr>ff_status := CONFIRMED, ff_confirmed_height := Some height, ff_updated_at := now\<rparr>) (funding_rows db)\<rparr> in
      (bind (get_funding db' proposal_id) (\<lambda>found.
         case found of None \<Rightarrow> Inl (RedemptionKeyError proposal_id) | Some v \<Rightarrow> Inr v),
       db'))"

section \<open>Runs\<close>

datatype redemption_call =
    Submit string redemption_evidence submission int
  | Confirm string int int
  | Prepare string funding_intent json json "string list" string int
  | Funding_submitted string string submission int
  | Funding_confirmed string int int

fun redemption_step :: "redemption_call \<Rightarrow> redemption_db \<Rightarrow> redemption_db" where
  "redemption_step (Submit h e s now) db = snd (record_submitted h e s now db)"
| "redemption_step (Confirm h height now) db = snd (mark_confirmed h height now db)"
| "redemption_step (Prepare p t u s ids by now) db = snd (prepare_funding_submission p t u s ids by now db)"
| "redemption_step (Funding_submitted p t s now) db = snd (mark_funding_submitted p t s now db)"
| "redemption_step (Funding_confirmed p height now) db = snd (mark_funding_confirmed p height now db)"

section \<open>What every history keeps\<close>

lemma decode_inputs_written: "decode_inputs (render '','' '':'' (JArr (map JStr ids))) = Inr ids"
proof -
  have "canonical_json (JArr (map JStr ids)) = render '','' '':'' (JArr (map JStr ids))"
    by (simp add: canonical_json_def comp_def)
  then have "loads (render '','' '':'' (JArr (map JStr ids))) = Some (JArr (map JStr ids))"
    using canonical.dec_enc [of "JArr (map JStr ids)"] by (simp add: list_all_iff comp_def)
  moreover have "map_result (\<lambda>v. case v of JStr s \<Rightarrow> Inr s | _ \<Rightarrow> Inl e) (map JStr ids) = Inr ids" for e :: redemption_error
    by (induction ids) auto
  ultimately show ?thesis by (simp add: decode_inputs_def)
qed

definition redemption_row_ok :: "StoredFundedRedemption \<Rightarrow> bool" where
  "redemption_row_ok r \<longleftrightarrow> fr_status r \<in> {SUBMITTED, CONFIRMED} \<and> (fr_confirmed_height r \<noteq> None \<longleftrightarrow> fr_status r = CONFIRMED)"

definition funding_row_ok :: "funding_row \<Rightarrow> bool" where
  "funding_row_ok r \<longleftrightarrow>
     ff_status r \<in> {SUBMITTING, SUBMITTED, CONFIRMED} \<and> (ff_confirmed_height r \<noteq> None \<longleftrightarrow> ff_status r = CONFIRMED) \<and>
     (ff_status r = SUBMITTING \<longrightarrow> ff_transaction r = None) \<and> (ff_status r = SUBMITTED \<longrightarrow> ff_transaction r \<noteq> None) \<and>
     (\<exists>ids. decode_inputs (fi_input_coin_ids_json (ff_intent r)) = Inr ids)"

definition redemption_inv :: "redemption_db \<Rightarrow> bool" where
  "redemption_inv db \<longleftrightarrow> table_ok fr_clash (redemption_rows db) \<and> table_ok ff_clash (funding_rows db) \<and>
     list_all redemption_row_ok (redemption_rows db) \<and> list_all funding_row_ok (funding_rows db)"

definition redemption_later :: "StoredFundedRedemption \<Rightarrow> StoredFundedRedemption \<Rightarrow> bool" where
  "redemption_later r r' \<longleftrightarrow>
     fr_operation_hash r' = fr_operation_hash r \<and> fr_evidence r' = fr_evidence r \<and> fr_submission r' = fr_submission r \<and>
     fr_created_at r' = fr_created_at r \<and> (fr_status r = CONFIRMED \<longrightarrow> fr_status r' = CONFIRMED)"

definition funding_later :: "funding_row \<Rightarrow> funding_row \<Rightarrow> bool" where
  "funding_later r r' \<longleftrightarrow>
     ff_proposal_id r' = ff_proposal_id r \<and> ff_intent r' = ff_intent r \<and> ff_created_by r' = ff_created_by r \<and>
     ff_created_at r' = ff_created_at r \<and> (ff_status r \<noteq> SUBMITTING \<longrightarrow> ff_status r' \<noteq> SUBMITTING) \<and>
     (ff_status r = CONFIRMED \<longrightarrow> ff_status r' = CONFIRMED \<and> ff_transaction r' = ff_transaction r)"

definition all_later :: "('r \<Rightarrow> 'r \<Rightarrow> bool) \<Rightarrow> 'r list \<Rightarrow> 'r list \<Rightarrow> bool" where
  "all_later later rows rows' \<longleftrightarrow> (\<forall>r \<in> set rows. \<exists>r' \<in> set rows'. later r r')"

lemma all_later_refl: "(\<And>r. later r r) \<Longrightarrow> all_later later rows rows"
  unfolding all_later_def by blast

lemma all_later_trans:
  "transp later \<Longrightarrow> all_later later a b \<Longrightarrow> all_later later b c \<Longrightarrow> all_later later a c"
  unfolding all_later_def by (meson transpE)

lemma later_refl [simp]: "redemption_later r r" "funding_later f f"
  by (simp_all add: redemption_later_def funding_later_def)

lemma later_transp: "transp redemption_later" "transp funding_later"
  by (auto simp: transp_def redemption_later_def funding_later_def)

definition redemption_grows :: "redemption_db \<Rightarrow> redemption_db \<Rightarrow> bool" where
  "redemption_grows db db' \<longleftrightarrow>
     all_later redemption_later (redemption_rows db) (redemption_rows db') \<and>
     all_later funding_later (funding_rows db) (funding_rows db')"

lemma insert_do_nothing_Inr:
  "insert_do_nothing clash key r rows = Inr rows' \<Longrightarrow>
   rows' = rows \<and> lookup key (key r) rows \<noteq> None \<or> sql_insert clash r rows = Some rows' \<and> lookup key (key r) rows = None"
  by (auto simp: insert_do_nothing_def split: option.splits if_splits)

text \<open>A table keeps its constraints and its row invariant under the two statements, and every row has a later self.\<close>

lemma insert_keeps:
  assumes "sql_table clash" and "table_ok clash rows" and "list_all ok rows" and "ok r" and "\<And>r. later r r"
    and "insert_do_nothing clash key r rows = Inr rows'"
  shows "table_ok clash rows' \<and> list_all ok rows' \<and> all_later later rows rows'"
proof -
  consider "rows' = rows" | "sql_insert clash r rows = Some rows'"
    using insert_do_nothing_Inr [OF assms(6)] by blast
  then show ?thesis
  proof cases
    case 1
    then show ?thesis using assms(2,3) all_later_refl [of later] assms(5) by blast
  next
    case 2
    then show ?thesis
      using sql_table.ok_insert [OF assms(1,2) 2] assms(3-5) by (auto simp: sql_insert_Some all_later_def)
  qed
qed

lemma update_keeps:
  assumes "table_ok clash rows" and "\<And>r r'. clash (if p r then f r else r) (if p r' then f r' else r') = clash r r'"
    and "list_all ok rows" and "\<And>r. p r \<Longrightarrow> ok r \<Longrightarrow> ok (f r) \<and> later r (f r)" and "\<And>r. later r r"
  shows "table_ok clash (update_rows p f rows) \<and> list_all ok (update_rows p f rows) \<and>
    all_later later rows (update_rows p f rows)"
proof (intro conjI)
  show "table_ok clash (update_rows p f rows)"
    using assms(1) by (simp add: update_rows_def table_ok_iff assms(2) nth_map)
  show "list_all ok (update_rows p f rows)"
    using assms(3,4) by (auto simp: update_rows_def list_all_iff)
  show "all_later later rows (update_rows p f rows)"
    unfolding all_later_def
  proof
    fix r assume r: "r \<in> set rows"
    then have "(if p r then f r else r) \<in> set (update_rows p f rows)"
      by (auto simp: update_rows_def)
    moreover have "later r (if p r then f r else r)"
      using r assms(3-5) by (simp add: list_all_iff)
    ultimately show "\<exists>r' \<in> set (update_rows p f rows). later r r'" by blast
  qed
qed

lemma submit_ok:
  assumes "redemption_inv db"
  shows "redemption_inv (snd (record_submitted h e sb now db)) \<and> redemption_grows db (snd (record_submitted h e sb now db))"
proof -
  let ?r = "\<lparr>fr_operation_hash = h, fr_evidence = e, fr_status = SUBMITTED, fr_submission = sb,
    fr_confirmed_height = None, fr_created_at = now, fr_updated_at = now\<rparr>"
  have "redemption_row_ok ?r" by (simp add: redemption_row_ok_def)
  with insert_keeps [OF fr.sql_table_axioms, where ok = redemption_row_ok and later = redemption_later] assms
  have "insert_do_nothing fr_clash fr_operation_hash ?r (redemption_rows db) = Inr rows \<Longrightarrow>
      table_ok fr_clash rows \<and> list_all redemption_row_ok rows \<and> all_later redemption_later (redemption_rows db) rows" for rows
    unfolding redemption_inv_def by (metis later_refl(1))
  then show ?thesis
    using assms by (auto simp: record_submitted_def Let_def redemption_inv_def redemption_grows_def all_later_refl
        split: sum.splits)
qed

lemma confirm_ok:
  assumes "redemption_inv db"
  shows "redemption_inv (snd (mark_confirmed h height now db)) \<and> redemption_grows db (snd (mark_confirmed h height now db))"
proof -
  have "table_ok fr_clash (update_rows (\<lambda>r. fr_operation_hash r = h)
        (\<lambda>r. r\<lparr>fr_status := CONFIRMED, fr_confirmed_height := Some height, fr_updated_at := now\<rparr>) (redemption_rows db)) \<and>
      list_all redemption_row_ok (update_rows (\<lambda>r. fr_operation_hash r = h)
        (\<lambda>r. r\<lparr>fr_status := CONFIRMED, fr_confirmed_height := Some height, fr_updated_at := now\<rparr>) (redemption_rows db)) \<and>
      all_later redemption_later (redemption_rows db) (update_rows (\<lambda>r. fr_operation_hash r = h)
        (\<lambda>r. r\<lparr>fr_status := CONFIRMED, fr_confirmed_height := Some height, fr_updated_at := now\<rparr>) (redemption_rows db))"
    using assms by (intro update_keeps) (auto simp: redemption_inv_def fr_clash_def redemption_row_ok_def redemption_later_def)
  then show ?thesis
    using assms by (simp add: mark_confirmed_def Let_def redemption_inv_def redemption_grows_def all_later_refl)
qed

lemma funding_prepare_ok:
  assumes "redemption_inv db"
  shows "redemption_inv (snd (prepare_funding_submission p t u sg ids creator now db)) \<and>
    redemption_grows db (snd (prepare_funding_submission p t u sg ids creator now db))"
proof -
  let ?r = "\<lparr>ff_proposal_id = p, ff_intent = intent_of t u sg ids, ff_status = SUBMITTING, ff_transaction = None,
    ff_confirmed_height = None, ff_created_by = creator, ff_created_at = now, ff_updated_at = now\<rparr>"
  have "funding_row_ok ?r" by (simp add: funding_row_ok_def intent_of_def decode_inputs_written del: render.simps)
  with insert_keeps [OF ff.sql_table_axioms, where ok = funding_row_ok and later = funding_later] assms
  have "insert_do_nothing ff_clash ff_proposal_id ?r (funding_rows db) = Inr rows \<Longrightarrow>
      table_ok ff_clash rows \<and> list_all funding_row_ok rows \<and> all_later funding_later (funding_rows db) rows" for rows
    unfolding redemption_inv_def by (metis later_refl(2))
  then show ?thesis
    using assms by (auto simp: prepare_funding_submission_def Let_def redemption_inv_def redemption_grows_def all_later_refl
        split: sum.splits)
qed

lemma funding_update_ok:
  assumes "redemption_inv db" and "\<And>r. p r \<Longrightarrow> funding_row_ok r \<Longrightarrow> funding_row_ok (f r) \<and> funding_later r (f r)"
    and "\<And>r. ff_proposal_id (f r) = ff_proposal_id r \<and> ff_intent (f r) = ff_intent r"
  shows "redemption_inv (db\<lparr>funding_rows := update_rows p f (funding_rows db)\<rparr>) \<and>
    redemption_grows db (db\<lparr>funding_rows := update_rows p f (funding_rows db)\<rparr>)"
proof -
  have "table_ok ff_clash (update_rows p f (funding_rows db)) \<and> list_all funding_row_ok (update_rows p f (funding_rows db)) \<and>
      all_later funding_later (funding_rows db) (update_rows p f (funding_rows db))"
    using assms by (intro update_keeps) (simp_all add: redemption_inv_def ff_clash_def)
  then show ?thesis
    using assms(1) by (simp add: redemption_inv_def redemption_grows_def all_later_refl)
qed

lemma redemption_step_ok:
  assumes "redemption_inv db"
  shows "redemption_inv (redemption_step op db) \<and> redemption_grows db (redemption_step op db)"
proof (cases op)
  case (Funding_submitted p t sb now)
  show ?thesis
    unfolding Funding_submitted redemption_step.simps mark_funding_submitted_def Let_def snd_conv
    by (rule funding_update_ok [OF assms]) (auto simp: funding_row_ok_def funding_later_def)
next
  case (Funding_confirmed p height now)
  show ?thesis
    unfolding Funding_confirmed redemption_step.simps mark_funding_confirmed_def Let_def snd_conv
    by (rule funding_update_ok [OF assms]) (auto simp: funding_row_ok_def funding_later_def)
qed (simp_all add: submit_ok confirm_ok funding_prepare_ok assms)

interpretation redemption: store redemption_step redemption_inv "\<lambda>_. True"
  by unfold_locales (simp add: redemption_step_ok)

definition redemption_history :: "redemption_call list \<Rightarrow> redemption_db" where
  "redemption_history ops = run redemption_step ops empty_redemption_db"

lemma redemption_history_inv: "redemption_inv (redemption_history ops)"
  unfolding redemption_history_def
  by (rule redemption.run_inv) (simp_all add: redemption_inv_def empty_redemption_db_def list_all_iff)

lemma redemption_run_grows:
  assumes "redemption_inv db"
  shows "redemption_inv (run redemption_step ops db)" and "redemption_grows db (run redemption_step ops db)"
proof -
  show "redemption_inv (run redemption_step ops db)"
    by (rule redemption.run_inv [OF assms]) (simp add: list_all_iff)
  have r: "reflp redemption_grows"
    by (simp add: reflp_def redemption_grows_def all_later_refl)
  have t: "transp redemption_grows"
  proof (rule transpI)
    fix a b c assume "redemption_grows a b" and "redemption_grows b c"
    then show "redemption_grows a c"
      unfolding redemption_grows_def
      by (elim conjE, intro conjI)
        (rule all_later_trans [OF later_transp(1)], assumption+, rule all_later_trans [OF later_transp(2)], assumption+)
  qed
  show "redemption_grows db (run redemption_step ops db)"
    by (rule redemption.run_mono [OF _ r t assms]) (simp_all add: redemption_step_ok list_all_iff)
qed

section \<open>Properties\<close>

text \<open>
  C21. A submitted redemption is bound for good: once \<open>record_submitted\<close> returned for an operation, then after
  any later calls its row is there with that evidence, recording it again gives the row and changes nothing,
  other evidence for the operation is refused, and no other operation can use its funding coin or expect its
  payment coin; none of the refusals changes the store.
\<close>

theorem redemption_evidence_final:
  assumes "record_submitted h e sb now (redemption_history ops) = (Inr r, db)"
  shows "\<exists>r'. r' \<in> set (redemption_rows (run redemption_step ops' db)) \<and> fr_operation_hash r' = h \<and> fr_evidence r' = e \<and>
    (\<forall>sb' t. record_submitted h e sb' t (run redemption_step ops' db) = (Inr r', run redemption_step ops' db)) \<and>
    (\<forall>e' sb' t. e' \<noteq> e \<longrightarrow>
       (\<exists>x. record_submitted h e' sb' t (run redemption_step ops' db) = (Inl x, run redemption_step ops' db))) \<and>
    (\<forall>h' e' sb' t. get_redemption (run redemption_step ops' db) h' = None \<longrightarrow>
       re_funding_coin_id e' = re_funding_coin_id e \<or> re_expected_payment_coin_id e' = re_expected_payment_coin_id e \<longrightarrow>
       (\<exists>x. record_submitted h' e' sb' t (run redemption_step ops' db) = (Inl x, run redemption_step ops' db)))"
proof -
  let ?db = "run redemption_step ops' db"
  have inv: "redemption_inv db"
    using submit_ok [OF redemption_history_inv, of h e sb now ops] assms by simp
  have "lookup fr_operation_hash h (redemption_rows db) = Some r" "fr_evidence r = e"
    using assms by (auto simp: record_submitted_def Let_def get_redemption_def split: sum.splits option.splits)
  then obtain r' where r': "r' \<in> set (redemption_rows ?db)" "fr_operation_hash r' = h" "fr_evidence r' = e"
    using redemption_run_grows(2) [OF inv, of ops'] unfolding redemption_grows_def all_later_def redemption_later_def
    by (metis lookup_Some_D)
  have ok: "table_ok fr_clash (redemption_rows ?db)"
    using redemption_run_grows(1) [OF inv, of ops'] by (simp add: redemption_inv_def)
  have look: "lookup fr_operation_hash h (redemption_rows ?db) = Some r'"
    using fr.lookup_mem [OF ok r'(1)] r'(2) by simp
  have same: "?db\<lparr>redemption_rows := redemption_rows ?db\<rparr> = ?db" by simp
  have again: "record_submitted h e' sb' t ?db = (raise_if (e \<noteq> e')
      (RedemptionValueError ''redemption operation hash is already bound to different evidence'') (Inr r'), ?db)" for e' sb' t
    using look r'(3) by (simp add: record_submitted_def insert_do_nothing_def get_redemption_def Let_def)
  have coin: "record_submitted h' e' sb' t ?db = (Inl RedemptionIntegrityError, ?db)"
    if "get_redemption ?db h' = None"
      and "re_funding_coin_id e' = re_funding_coin_id e \<or> re_expected_payment_coin_id e' = re_expected_payment_coin_id e"
    for h' e' sb' t
  proof -
    let ?n = "\<lparr>fr_operation_hash = h', fr_evidence = e', fr_status = SUBMITTED, fr_submission = sb',
      fr_confirmed_height = None, fr_created_at = t, fr_updated_at = t\<rparr>"
    have "sql_insert fr_clash ?n (redemption_rows ?db) = None"
      using r'(1,3) that(2) by (auto simp: sql_insert_None fr_clash_def)
    with that(1) show ?thesis
      by (simp add: record_submitted_def insert_do_nothing_def get_redemption_def)
  qed
  show ?thesis
    by (rule exI [of _ r']) (use r' again coin in auto)
qed

definition sample_evidence :: redemption_evidence where
  "sample_evidence = \<lparr>re_settlement_id = ''s1'', re_deed_launcher_id = ''d1'', re_vault_launcher_id = ''v1'',
     re_payment_amount = ''100'', re_funding_coin_id = ''f1'', re_expected_payment_coin_id = ''p1'', re_transaction_id = ''t1''\<rparr>"

definition sample_submission :: submission where
  "sample_submission = \<lparr>sb_fee_mojos = ''5'', sb_fee_target_seconds = 60, sb_submission_provider = ''primary'',
     sb_mempool_observed_at = ''9''\<rparr>"

theorem redemption_evidence_final_witness:
  "\<exists>x db. record_submitted ''h1'' (sample_evidence\<lparr>re_payment_amount := ''900''\<rparr>) sample_submission 20
     (run redemption_step [Confirm ''h1'' 77 15]
        (snd (record_submitted ''h1'' sample_evidence sample_submission 10 (redemption_history []))))
   = (Inl x, db)"
proof -
  have r: "record_submitted ''h1'' sample_evidence sample_submission 10 (redemption_history [])
      = (Inr (the (get_redemption (snd (record_submitted ''h1'' sample_evidence sample_submission 10 (redemption_history []))) ''h1'')),
         snd (record_submitted ''h1'' sample_evidence sample_submission 10 (redemption_history [])))"
    by code_simp
  have d: "sample_evidence\<lparr>re_payment_amount := ''900''\<rparr> \<noteq> sample_evidence"
    by (simp add: sample_evidence_def)
  from redemption_evidence_final [OF r, of "[Confirm ''h1'' 77 15]"] d show ?thesis by blast
qed

text \<open>
  C22. What \<open>mark_funding_submitted\<close> does to a funding intent, after any history: while the intent is not
  confirmed it takes the new transaction, even if another one was recorded, and only a confirmed intent keeps its
  transaction, where it refuses every other one without changing the store; an unknown proposal is a \<open>KeyError\<close>.
\<close>

theorem funding_submission_outcome:
  fixes ops p tx sb now
  shows "(case lookup ff_proposal_id p (funding_rows (redemption_history ops)) of
     None \<Rightarrow> mark_funding_submitted p tx sb now (redemption_history ops)
         = (Inl (RedemptionKeyError p), redemption_history ops)
   | Some r \<Rightarrow>
       if ff_status r = CONFIRMED
       then snd (mark_funding_submitted p tx sb now (redemption_history ops)) = redemption_history ops \<and>
         ((\<exists>v. fst (mark_funding_submitted p tx sb now (redemption_history ops)) = Inr v)
           \<longleftrightarrow> map_option fst (ff_transaction r) = Some tx)
       else \<exists>v. fst (mark_funding_submitted p tx sb now (redemption_history ops)) = Inr v \<and>
         sf_row v = r\<lparr>ff_status := SUBMITTED, ff_transaction := Some (tx, sb), ff_updated_at := now\<rparr> \<and>
         lookup ff_proposal_id p (funding_rows (snd (mark_funding_submitted p tx sb now (redemption_history ops)))) = Some (sf_row v))"
proof -
  let ?db = "redemption_history ops"
  let ?p = "\<lambda>r. ff_proposal_id r = p \<and> ff_status r \<in> {SUBMITTING, SUBMITTED}"
  let ?f = "\<lambda>r. r\<lparr>ff_status := SUBMITTED, ff_transaction := Some (tx, sb), ff_updated_at := now\<rparr>"
  have look: "lookup ff_proposal_id p (update_rows ?p ?f rows)
      = map_option (\<lambda>r. if ff_status r \<in> {SUBMITTING, SUBMITTED} then ?f r else r) (lookup ff_proposal_id p rows)" for rows
    by (induction rows) (auto simp: update_rows_def)
  show ?thesis
  proof (cases "lookup ff_proposal_id p (funding_rows ?db)")
    case None
    then have "update_rows ?p ?f (funding_rows ?db) = funding_rows ?db"
      by (auto simp: update_rows_def map_idI dest: lookup_None_D intro!: map_idI)
    then show ?thesis
      using None by (simp add: mark_funding_submitted_def Let_def get_funding_def funding_record_def)
  next
    case (Some r)
    have r: "r \<in> set (funding_rows ?db)" "ff_proposal_id r = p" using Some by (auto dest: lookup_Some_D)
    have ok: "funding_row_ok r" "table_ok ff_clash (funding_rows ?db)"
      using redemption_history_inv [of ops] r(1) by (auto simp: redemption_inv_def list_all_iff)
    obtain ids where ids: "decode_inputs (fi_input_coin_ids_json (ff_intent r)) = Inr ids"
      using ok(1) by (auto simp: funding_row_ok_def)
    show ?thesis
    proof (cases "ff_status r = CONFIRMED")
      case True
      have "\<not> ?p x" if "x \<in> set (funding_rows ?db)" for x
        using ff.key_eq [OF ok(2) that r(1)] r(2) True by auto
      then have "update_rows ?p ?f (funding_rows ?db) = funding_rows ?db"
        by (auto simp: update_rows_def intro!: map_idI)
      then show ?thesis
        using Some True ids by (simp add: mark_funding_submitted_def Let_def get_funding_def funding_record_def raise_if_def)
    next
      case False
      then have "ff_status r \<in> {SUBMITTING, SUBMITTED}" using ok(1) by (auto simp: funding_row_ok_def)
      then show ?thesis
        using Some False ids look [of "funding_rows ?db"]
        by (simp add: mark_funding_submitted_def Let_def get_funding_def funding_record_def)
    qed
  qed
qed

end
