(* ===== verification/RedemptionReview.thy ===== *)
theory RedemptionReview
  imports SolsSwap
begin

text \<open>
  \<open>src/solslot_api/redemption_review_store.py\<close>: the fee reviews and the signed executions of customer
  redemptions, with the validators of the swaps. An operation is prepared with its terms, may hold one private
  fee coin, is sealed by one signed execution that claims every input, and is confirmed, or archived when the
  configured node shows that the expired execution spent nothing.

  One reading of \<open>time()\<close>, a rational, serves a call.
\<close>

section \<open>Tables\<close>

record review_op =
  rv_hash :: string
  rv_vault :: string
  rv_expires :: int
  rv_terms_json :: string
  rv_terms_hash :: string

record fee_review =
  rf_hash :: string
  rf_fee_coin :: string
  rf_payload_json :: string
  rf_payload_hash :: string

record exact_execution =
  re_hash :: string
  re_json :: string
  re_digest :: string
  re_receipt :: "string option"
  re_height :: "int option"

record expired_execution =
  rx_sequence :: nat
  rx_hash :: string
  rx_bundle_id :: string
  rx_json :: string
  rx_digest :: string

record input_claim =
  rc_coin :: string
  rc_hash :: string

record review_db =
  review_ops :: "review_op list"
  fee_reviews :: "fee_review list"
  exact_rows :: "exact_execution list"
  expired_rows :: "expired_execution list"
  input_claims :: "input_claim list"

definition empty_review_db :: review_db where
  "empty_review_db = \<lparr>review_ops = [], fee_reviews = [], exact_rows = [], expired_rows = [], input_claims = []\<rparr>"

definition rv_clash :: "review_op \<Rightarrow> review_op \<Rightarrow> bool" where
  "rv_clash r r' \<longleftrightarrow> rv_hash r = rv_hash r'"

definition rf_clash :: "fee_review \<Rightarrow> fee_review \<Rightarrow> bool" where
  "rf_clash r r' \<longleftrightarrow> rf_hash r = rf_hash r' \<or> rf_fee_coin r = rf_fee_coin r'"

definition re_clash :: "exact_execution \<Rightarrow> exact_execution \<Rightarrow> bool" where
  "re_clash r r' \<longleftrightarrow> re_hash r = re_hash r'"

definition rx_clash :: "expired_execution \<Rightarrow> expired_execution \<Rightarrow> bool" where
  "rx_clash r r' \<longleftrightarrow> rx_sequence r = rx_sequence r' \<or> rx_bundle_id r = rx_bundle_id r'"

definition rc_clash :: "input_claim \<Rightarrow> input_claim \<Rightarrow> bool" where
  "rc_clash r r' \<longleftrightarrow> rc_coin r = rc_coin r'"

interpretation rv: keyed_table rv_clash rv_hash
  by unfold_locales (auto simp: rv_clash_def)

interpretation rf: keyed_table rf_clash rf_hash
  by unfold_locales (auto simp: rf_clash_def)

interpretation re: keyed_table re_clash re_hash
  by unfold_locales (auto simp: re_clash_def)

interpretation rx: keyed_table rx_clash rx_sequence
  by unfold_locales (auto simp: rx_clash_def)

interpretation rc: keyed_table rc_clash rc_coin
  by unfold_locales (auto simp: rc_clash_def)

section \<open>Reading documents\<close>

text \<open>\<open>v.get(k)\<close> and \<open>v.get(k, default)\<close>; a value without \<open>get\<close> raises.\<close>

definition py_get :: "json \<Rightarrow> string \<Rightarrow> json \<Rightarrow> py_error + json" where
  "py_get v k absent =
     (case v of JObj d \<Rightarrow> Inr (case map_of d k of None \<Rightarrow> absent | Some w \<Rightarrow> w) | _ \<Rightarrow> Inl TypeError)"

text \<open>\<open>a != b\<close> where both reads may raise, \<open>a\<close> first.\<close>

definition reads_differ :: "py_error + json \<Rightarrow> py_error + json \<Rightarrow> py_error + bool" where
  "reads_differ a b = bind a (\<lambda>v. bind b (\<lambda>w. Inr (\<not> py_eq v w)))"

text \<open>The text SQLite stores for a value bound to a \<open>TEXT NOT NULL\<close> column; other values cannot be bound.\<close>

fun text_column :: "json \<Rightarrow> py_error + string" where
  "text_column (JStr s) = Inr s"
| "text_column (JInt i) = Inr (show_int i)"
| "text_column (JBool b) = Inr (if b then ''1'' else ''0'')"
| "text_column JNull = Inl IntegrityError"
| "text_column _ = Inl TypeError"

text \<open>An operand of a numeric comparison.\<close>

fun py_number :: "json \<Rightarrow> py_error + int" where
  "py_number (JInt i) = Inr i"
| "py_number (JBool b) = Inr (if b then 1 else 0)"
| "py_number _ = Inl TypeError"

text \<open>What iterating over a value gives; its length is the one of \<open>len\<close>.\<close>

fun py_iter :: "json \<Rightarrow> py_error + json list" where
  "py_iter (JArr vs) = Inr vs"
| "py_iter (JObj d) = Inr (map (JStr \<circ> fst) d)"
| "py_iter (JStr s) = Inr (map (\<lambda>c. JStr [c]) s)"
| "py_iter _ = Inl TypeError"

definition is_int :: "json \<Rightarrow> bool" where
  "is_int v \<longleftrightarrow> (\<exists>i. v = JInt i)"

lemma is_int_code [code]: "is_int v = (case v of JInt _ \<Rightarrow> True | _ \<Rightarrow> False)"
  by (cases v) (simp_all add: is_int_def)

section \<open>Preparation\<close>

definition op_of :: "review_db \<Rightarrow> string \<Rightarrow> review_op option" where
  "op_of db operation = lookup rv_hash operation (review_ops db)"

definition exact_of :: "review_db \<Rightarrow> string \<Rightarrow> exact_execution option" where
  "exact_of db operation = lookup re_hash operation (exact_rows db)"

definition has_exact :: "review_db \<Rightarrow> string \<Rightarrow> bool" where
  "has_exact db operation \<longleftrightarrow> list_ex (\<lambda>e. re_hash e = operation) (exact_rows db)"

text \<open>\<open>_expire\<close>: the reviews of expired operations without a sealed execution go.\<close>

definition expire_reviews :: "rat \<Rightarrow> review_db \<Rightarrow> review_db" where
  "expire_reviews now db =
     db\<lparr>fee_reviews := sql_delete (\<lambda>f. list_ex (\<lambda>r. rv_hash r = rf_hash f \<and> of_int (rv_expires r) \<le> now \<and>
         \<not> has_exact db (rv_hash r)) (review_ops db)) (fee_reviews db)\<rparr>"

text \<open>\<open>_terms\<close>\<close>

definition terms_of :: "chia_api \<Rightarrow> review_op option \<Rightarrow> py_error + json" where
  "terms_of api row =
     (case row of
        None \<Rightarrow> Inl (ValueError ''Prepare this redemption before owner signing'')
      | Some r \<Rightarrow>
          bind (py_loads (rv_terms_json r)) (\<lambda>terms.
          raise_any [Inr (digest api terms \<noteq> rv_terms_hash r),
              differs (py_index terms ''vaultLauncherId'') (JStr (rv_vault r))]
            (ValueError ''Retained redemption terms changed'') (Inr terms)))"

definition prepare_body ::
  "chia_api \<Rightarrow> string \<Rightarrow> json \<Rightarrow> int \<Rightarrow> rat \<Rightarrow> (review_db, py_error, int) body" where
  "prepare_body api operation terms expires now db0 =
     (let db = expire_reviews now db0 in
      case op_of db operation of
        Some old \<Rightarrow>
          bind (terms_of api (Some old)) (\<lambda>retained.
          raise_if (\<not> py_eq retained terms) (ValueError ''Redemption operation already has different terms'')
         (raise_if (has_exact db operation) (ValueError ''Recover the retained redemption execution'')
         (if now < of_int (rv_expires old) then Inr (rv_expires old, db)
          else Inr (expires, db\<lparr>review_ops := map (\<lambda>r. if rv_hash r = operation then r\<lparr>rv_expires := expires\<rparr> else r)
                 (review_ops db)\<rparr>))))
      | None \<Rightarrow>
          bind (py_index terms ''vaultLauncherId'') (\<lambda>v.
          bind (text_column v) (\<lambda>vault.
          case sql_insert rv_clash \<lparr>rv_hash = operation, rv_vault = vault, rv_expires = expires,
                 rv_terms_json = canonical_json terms, rv_terms_hash = digest api terms\<rparr> (review_ops db) of
            None \<Rightarrow> Inl IntegrityError
          | Some rows \<Rightarrow> Inr (expires, db\<lparr>review_ops := rows\<rparr>))))"

definition prepare_review ::
  "chia_api \<Rightarrow> string \<Rightarrow> json \<Rightarrow> json \<Rightarrow> rat \<Rightarrow> (review_db, py_error, int) call" where
  "prepare_review api operation terms expires now db =
     (case expires of
        JInt e \<Rightarrow>
          if now < of_int e \<and> of_int e \<le> now + 900 then txn (prepare_body api operation terms e now) db
          else (Inl (ValueError ''Redemption review expiry is invalid''), db)
      | _ \<Rightarrow> (Inl (ValueError ''Redemption review expiry is invalid''), db))"

section \<open>Executions and reads\<close>

text \<open>\<open>validate_execution\<close> against the coins of the terms; a coin id that is no text matches no coin.\<close>

definition validate_for :: "chia_api \<Rightarrow> json \<Rightarrow> json \<Rightarrow> py_error + spend_bundle" where
  "validate_for api signed terms =
     bind (py_index terms ''fundingCoinId'') (\<lambda>a.
     bind (py_index terms ''expectedPaymentCoinId'') (\<lambda>b.
     case (a, b) of
       (JStr p, JStr q) \<Rightarrow> validate_execution api signed p q
     | _ \<Rightarrow> Inl (ValueError ''durable Sols swap execution is inconsistent'')))"

text \<open>\<open>_execution\<close>\<close>

definition execution_of :: "chia_api \<Rightarrow> exact_execution \<Rightarrow> json \<Rightarrow> py_error + json" where
  "execution_of api row terms =
     bind (py_loads (re_json row)) (\<lambda>result.
     raise_if (digest api result \<noteq> re_digest row) (ValueError ''Retained redemption execution changed'')
    (bind (validate_for api result terms) (\<lambda>_. Inr result)))"

record review_view =
  vw_terms :: json
  vw_expires :: int
  vw_transaction :: "json option"
  vw_receipt :: "json option"
  vw_height :: "int option"

definition optional_doc :: "string option \<Rightarrow> py_error + json option" where
  "optional_doc text = (case text of None \<Rightarrow> Inr None | Some s \<Rightarrow> bind (py_loads s) (\<lambda>v. Inr (Some v)))"

definition get_review :: "chia_api \<Rightarrow> string \<Rightarrow> review_db \<Rightarrow> py_error + review_view option" where
  "get_review api operation db =
     (case op_of db operation of
        None \<Rightarrow> Inr None
      | Some row \<Rightarrow>
          bind (terms_of api (Some row)) (\<lambda>terms.
          case exact_of db operation of
            None \<Rightarrow> Inr (Some \<lparr>vw_terms = terms, vw_expires = rv_expires row, vw_transaction = None,
              vw_receipt = None, vw_height = None\<rparr>)
          | Some e \<Rightarrow>
              bind (execution_of api e terms) (\<lambda>signed.
              bind (py_index signed ''spendBundleId'') (\<lambda>transaction.
              bind (optional_doc (re_receipt e)) (\<lambda>receipt.
                Inr (Some \<lparr>vw_terms = terms, vw_expires = rv_expires row, vw_transaction = Some transaction,
                  vw_receipt = receipt, vw_height = re_height e\<rparr>))))))"

definition read_execution :: "chia_api \<Rightarrow> string \<Rightarrow> review_db \<Rightarrow> py_error + json option" where
  "read_execution api operation db =
     (case exact_of db operation of
        None \<Rightarrow> Inr None
      | Some e \<Rightarrow> bind (terms_of api (op_of db operation)) (\<lambda>terms.
          bind (execution_of api e terms) (\<lambda>v. Inr (Some v))))"

section \<open>Fee reviews\<close>

definition supersede_review_body :: "chia_api \<Rightarrow> string \<Rightarrow> string \<Rightarrow> rat \<Rightarrow> (review_db, py_error, unit) body" where
  "supersede_review_body api operation vault now db =
     bind (terms_of api (op_of db operation)) (\<lambda>terms.
     raise_any [differs (py_index terms ''vaultLauncherId'') (JStr vault),
         Inr (case op_of db operation of None \<Rightarrow> True | Some r \<Rightarrow> of_int (rv_expires r) \<le> now)]
       (ValueError ''Redemption review changed'')
    (Inr ((), db\<lparr>fee_reviews := sql_delete (\<lambda>f. rf_hash f \<noteq> operation \<and>
        list_ex (\<lambda>r. rv_hash r = rf_hash f \<and> rv_vault r = vault) (review_ops db) \<and> \<not> has_exact db (rf_hash f))
        (fee_reviews db)\<rparr>)))"

definition supersede_review :: "chia_api \<Rightarrow> string \<Rightarrow> string \<Rightarrow> rat \<Rightarrow> (review_db, py_error, unit) call" where
  "supersede_review api operation vault now = txn (supersede_review_body api operation vault now)"

definition reserve_review_body ::
  "chia_api \<Rightarrow> string \<Rightarrow> json \<Rightarrow> json \<Rightarrow> spend_bundle \<Rightarrow> rat \<Rightarrow> (review_db, py_error, unit) body" where
  "reserve_review_body api operation payload review private now db0 =
     (let db = expire_reviews now db0; row = op_of db operation in
      bind (terms_of api row) (\<lambda>terms.
      raise_any
        [Inr (case row of None \<Rightarrow> True | Some r \<Rightarrow> of_int (rv_expires r) \<le> now),
         (case row of None \<Rightarrow> Inr True | Some r \<Rightarrow> differs (py_index review ''quoteExpiresAt'') (JInt (rv_expires r))),
         differs (py_index review ''operationHash'') (JStr operation),
         reads_differ (py_path review [''binding'', ''vaultLauncherId'']) (py_index terms ''vaultLauncherId''),
         reads_differ (py_index review ''protocolCandidateHash'') (py_index terms ''candidateHash''),
         Inr (has_exact db operation)]
        (ValueError ''Redemption fee review differs from its prepared terms'')
     (case lookup rf_hash operation (fee_reviews db) of
        Some old \<Rightarrow>
          raise_if (rf_payload_hash old \<noteq> digest api payload \<or> rf_payload_json old \<noteq> canonical_json payload)
            (ValueError ''Redemption already has different reviewed funding'') (Inr ((), db))
      | None \<Rightarrow>
          let fee_id = spend_id api (coin_spends private ! 0) in
          raise_if (list_ex (\<lambda>c. rc_coin c = fee_id) (input_claims db))
            (ValueError ''Redemption funding coin is already reserved'')
         (case sql_insert rf_clash \<lparr>rf_hash = operation, rf_fee_coin = fee_id, rf_payload_json = canonical_json payload,
                 rf_payload_hash = digest api payload\<rparr> (fee_reviews db) of
            None \<Rightarrow> Inl IntegrityError
          | Some rows \<Rightarrow> Inr ((), db\<lparr>fee_reviews := rows\<rparr>)))))"

definition reserve_review :: "chia_api \<Rightarrow> string \<Rightarrow> json \<Rightarrow> rat \<Rightarrow> (review_db, py_error, unit) call" where
  "reserve_review api operation payload now db =
     (case bind (validate_private_hold api payload) (\<lambda>private.
            bind (py_index payload ''review'') (\<lambda>review. Inr (private, review))) of
        Inl e \<Rightarrow> (Inl e, db)
      | Inr (private, review) \<Rightarrow> txn (reserve_review_body api operation payload review private now) db)"

definition read_funding :: "chia_api \<Rightarrow> string \<Rightarrow> rat \<Rightarrow> (review_db, py_error, json option) call" where
  "read_funding api operation now = txn (\<lambda>db0.
     let db = expire_reviews now db0 in
     case lookup rf_hash operation (fee_reviews db) of
       None \<Rightarrow> Inr (None, db)
     | Some row \<Rightarrow>
         bind (py_loads (rf_payload_json row)) (\<lambda>payload.
         raise_any [Inr (digest api payload \<noteq> rf_payload_hash row),
             bind (validate_private_hold api payload) (\<lambda>b. Inr (spend_id api (coin_spends b ! 0) \<noteq> rf_fee_coin row))]
           (ValueError ''Retained redemption funding changed'') (Inr (Some payload, db))))"

section \<open>Sealing\<close>

text \<open>The claim of every input, refused where it is another operation's reviewed fee coin.\<close>

fun claim_spends ::
  "chia_api \<Rightarrow> string \<Rightarrow> fee_review list \<Rightarrow> coin_spend list \<Rightarrow> input_claim list \<Rightarrow> py_error + input_claim list" where
  "claim_spends api operation fees [] claimed = Inr claimed"
| "claim_spends api operation fees (s # ss) claimed =
     raise_if (list_ex (\<lambda>f. rf_fee_coin f = spend_id api s \<and> rf_hash f \<noteq> operation) fees)
       (ValueError ''Redemption consumes another reviewed fee coin'')
    (case sql_insert rc_clash \<lparr>rc_coin = spend_id api s, rc_hash = operation\<rparr> claimed of
       None \<Rightarrow> Inl IntegrityError
     | Some claimed' \<Rightarrow> claim_spends api operation fees ss claimed')"

definition hold_matches ::
  "chia_api \<Rightarrow> string \<Rightarrow> json \<Rightarrow> string \<Rightarrow> review_op \<Rightarrow> json \<Rightarrow> spend_bundle \<Rightarrow> fee_review \<Rightarrow> py_error + unit" where
  "hold_matches api operation signed reservation_hash row terms bundle hold =
     bind (py_loads (rf_payload_json hold)) (\<lambda>payload.
     bind (validate_private_hold api payload) (\<lambda>private.
     bind (py_index payload ''review'') (\<lambda>review.
     raise_any
      ([Inr (digest api payload \<noteq> rf_payload_hash hold),
        differs (py_index payload ''reservationHash'') (JStr reservation_hash),
        differs (py_get signed ''fundingReservationHash'' JNull) (JStr reservation_hash),
        reads_differ (py_index review ''protocolCandidateHash'') (py_index terms ''candidateHash''),
        reads_differ (py_path review [''binding'', ''vaultLauncherId'']) (py_index terms ''vaultLauncherId''),
        differs (py_index review ''operationHash'') (JStr operation),
        differs (py_index review ''quoteExpiresAt'') (JInt (rv_expires row)),
        Inr (coin_spends private ! 0 \<notin> set (coin_spends bundle))] @
       map (\<lambda>key. reads_differ (py_index signed key) (py_index review key))
         [''feeCoinId'', ''feeMojos'', ''backingMojos'', ''feeTargetSeconds''])
      (ValueError ''Redemption execution differs from reviewed funding'') (Inr ()))))"

definition seal_body ::
  "chia_api \<Rightarrow> string \<Rightarrow> json \<Rightarrow> string \<Rightarrow> rat \<Rightarrow> (review_db, py_error, unit) body" where
  "seal_body api operation signed reservation_hash now db =
     bind (terms_of api (op_of db operation)) (\<lambda>terms.
     bind (validate_for api signed terms) (\<lambda>bundle.
     case exact_of db operation of
       Some prior \<Rightarrow>
         bind (execution_of api prior terms) (\<lambda>retained.
         raise_if (\<not> py_eq retained signed) (ValueError ''Redemption already has a different exact execution'')
           (Inr ((), db)))
     | None \<Rightarrow>
         (case (op_of db operation, lookup rf_hash operation (fee_reviews db)) of
            (Some row, Some hold) \<Rightarrow>
              raise_if (of_int (rv_expires row) \<le> now) (ValueError ''Redemption funding review expired before dispatch'')
             (bind (hold_matches api operation signed reservation_hash row terms bundle hold) (\<lambda>_.
              case sql_insert re_clash \<lparr>re_hash = operation, re_json = canonical_json signed,
                     re_digest = digest api signed, re_receipt = None, re_height = None\<rparr> (exact_rows db) of
                None \<Rightarrow> Inl IntegrityError
              | Some rows \<Rightarrow>
                  bind (claim_spends api operation (fee_reviews db) (coin_spends bundle) (input_claims db)) (\<lambda>claimed.
                  Inr ((), db\<lparr>exact_rows := rows, input_claims := claimed\<rparr>))))
          | _ \<Rightarrow> Inl (ValueError ''Redemption funding review expired before dispatch''))))"

definition seal_execution ::
  "chia_api \<Rightarrow> string \<Rightarrow> json \<Rightarrow> string \<Rightarrow> rat \<Rightarrow> (review_db, py_error, unit) call" where
  "seal_execution api operation signed reservation_hash now = txn (seal_body api operation signed reservation_hash now)"

definition set_exact :: "string \<Rightarrow> (exact_execution \<Rightarrow> exact_execution) \<Rightarrow> exact_execution list \<Rightarrow> exact_execution list" where
  "set_exact operation f rows = map (\<lambda>e. if re_hash e = operation then f e else e) rows"

definition submitted_body :: "chia_api \<Rightarrow> string \<Rightarrow> json \<Rightarrow> (review_db, py_error, unit) body" where
  "submitted_body api operation receipt db =
     bind (terms_of api (op_of db operation)) (\<lambda>terms.
     case exact_of db operation of
       None \<Rightarrow> Inl (ValueError ''Redemption receipt differs from retained execution'')
     | Some row \<Rightarrow>
         raise_any [bind (py_index receipt ''spendBundleId'') (\<lambda>v.
             differs (bind (execution_of api row terms) (\<lambda>x. py_index x ''spendBundleId'')) v)]
           (ValueError ''Redemption receipt differs from retained execution'')
           (Inr ((), db\<lparr>exact_rows := set_exact operation (\<lambda>e. e\<lparr>re_receipt := Some (canonical_json receipt)\<rparr>) (exact_rows db)\<rparr>)))"

definition mark_review_submitted :: "chia_api \<Rightarrow> string \<Rightarrow> json \<Rightarrow> (review_db, py_error, unit) call" where
  "mark_review_submitted api operation receipt = txn (submitted_body api operation receipt)"

definition release_claims :: "string \<Rightarrow> input_claim list \<Rightarrow> input_claim list" where
  "release_claims operation = sql_delete (\<lambda>c. rc_hash c = operation)"

definition confirmed_body :: "chia_api \<Rightarrow> string \<Rightarrow> json \<Rightarrow> string \<Rightarrow> (review_db, py_error, unit) body" where
  "confirmed_body api operation height bundle_id db =
     bind (terms_of api (op_of db operation)) (\<lambda>terms.
     case (height, exact_of db operation) of
       (JInt h, Some row) \<Rightarrow>
         raise_any [Inr (h \<le> 0),
             differs (bind (execution_of api row terms) (\<lambda>x. py_index x ''spendBundleId'')) (JStr bundle_id)]
           (ValueError ''Exact redemption confirmation is required'')
           (Inr ((), db\<lparr>exact_rows := set_exact operation (\<lambda>e. e\<lparr>re_height := Some h\<rparr>) (exact_rows db),
              input_claims := release_claims operation (input_claims db)\<rparr>))
     | _ \<Rightarrow> Inl (ValueError ''Exact redemption confirmation is required''))"

definition mark_review_confirmed :: "chia_api \<Rightarrow> string \<Rightarrow> json \<Rightarrow> string \<Rightarrow> (review_db, py_error, unit) call" where
  "mark_review_confirmed api operation height bundle_id = txn (confirmed_body api operation height bundle_id)"

section \<open>Expired executions\<close>

text \<open>The inputs that the bundle does not itself create.\<close>

definition persistent_coins :: "chia_api \<Rightarrow> spend_bundle \<Rightarrow> coin list \<Rightarrow> coin list" where
  "persistent_coins api bundle outs =
     filter (\<lambda>c. coin_name api c \<notin> coin_name api ` set outs) (map spend_coin (coin_spends bundle))"

text \<open>The observation is fresh, from the configured node, and bound to this expired execution.\<close>

definition observation_differs ::
  "chia_api \<Rightarrow> string \<Rightarrow> string \<Rightarrow> json \<Rightarrow> json \<Rightarrow> review_op \<Rightarrow> nat \<Rightarrow> rat \<Rightarrow> (py_error + bool) list" where
  "observation_differs api operation bundle_id observation signed prepared inputs now =
     [differs (py_index signed ''spendBundleId'') (JStr bundle_id),
      (case observation of
         JObj d \<Rightarrow> differs (py_get observation ''snapshotHash'' JNull)
           (JStr (digest api (JObj (filter (\<lambda>(k, v). k \<noteq> ''snapshotHash'') d))))
       | _ \<Rightarrow> Inl TypeError),
      differs (py_get observation ''status'' JNull) (JStr ''PRIMARY_NODE_OBSERVATION''),
      differs (py_get observation ''network'' JNull) (JStr ''testnet11''),
      differs (py_get observation ''authority'' JNull) (JStr ''CONFIGURED_PRIMARY_FULL_NODE''),
      bind (py_get observation ''consensusInclusionProven'' JNull) (\<lambda>v. Inr (v \<noteq> JBool False)),
      bind (py_get observation ''transactionTimestamp'' JNull) (\<lambda>v. Inr (\<not> is_int v)),
      bind (bind (py_index observation ''transactionTimestamp'') py_number) (\<lambda>t. Inr (t < rv_expires prepared)),
      bind (bind (py_get observation ''expiresAt'' (JInt 0)) py_number) (\<lambda>expires.
        if of_int expires \<le> now then Inr True
        else bind (bind (py_get observation ''observedAt'' (JInt 0)) py_number) (\<lambda>observed. Inr (expires > observed + 60))),
      bind (py_get observation ''binding'' JNull) (\<lambda>b.
        bind (py_index observation ''expiresAt'') (\<lambda>expires.
          Inr (\<not> py_eq b (JObj [(''operationHash'', JStr operation), (''spendBundleId'', JStr bundle_id),
            (''expiredAt'', JInt (rv_expires prepared)), (''quoteExpiresAt'', expires)])))),
      bind (bind (py_get observation ''inputs'' (JArr [])) py_iter) (\<lambda>vs. Inr (length vs \<noteq> inputs))]"

text \<open>One input is reported with its exact coin, created and not spent.\<close>

definition input_differs :: "chia_api \<Rightarrow> json \<Rightarrow> coin \<Rightarrow> (py_error + bool) list" where
  "input_differs api actual c =
     [differs (py_get actual ''coinId'' JNull) (JStr (coin_name api c)),
      differs (py_get actual ''coin'' JNull)
        (JObj [(''parentCoinInfo'', JStr (parent_coin_info c)), (''puzzleHash'', JStr (puzzle_hash c)),
          (''amount'', JStr (show_int (amount c)))]),
      bind (py_get actual ''confirmedHeight'' JNull) (\<lambda>h. Inr (\<not> positive_int h)),
      differs (py_get actual ''spentHeight'' JNull) (JInt 0)]"

fun inputs_unspent :: "chia_api \<Rightarrow> (json \<times> coin) list \<Rightarrow> py_error + unit" where
  "inputs_unspent api [] = Inr ()"
| "inputs_unspent api ((actual, c) # rest) =
     raise_any (input_differs api actual c) (ValueError ''Expired execution requires all exact persistent inputs unspent'')
       (inputs_unspent api rest)"

definition json_doc :: "json option \<Rightarrow> json" where
  "json_doc v = (case v of None \<Rightarrow> JNull | Some w \<Rightarrow> w)"

definition archive_doc :: "string \<Rightarrow> json \<Rightarrow> int \<Rightarrow> json \<Rightarrow> json \<Rightarrow> json option \<Rightarrow> json \<Rightarrow> json" where
  "archive_doc operation terms expires signed held receipt observation =
     JObj [(''operationHash'', JStr operation), (''terms'', terms), (''expiresAt'', JInt expires),
       (''execution'', signed), (''funding'', held), (''receipt'', json_doc receipt),
       (''observation'', observation)]"

text \<open>The reviewed funding that goes into the archive.\<close>

definition archived_funding :: "chia_api \<Rightarrow> review_db \<Rightarrow> string \<Rightarrow> py_error + json" where
  "archived_funding api db operation =
     (case lookup rf_hash operation (fee_reviews db) of
        None \<Rightarrow> Inl (ValueError ''Expired execution funding evidence is unavailable'')
      | Some hold \<Rightarrow>
          bind (py_loads (rf_payload_json hold)) (\<lambda>payload.
          raise_if (payload = JNull \<or> digest api payload \<noteq> rf_payload_hash hold)
            (ValueError ''Expired execution funding evidence is unavailable'')
         (bind (validate_private_hold api payload) (\<lambda>_. Inr payload))))"

definition archive_execution ::
  "chia_api \<Rightarrow> string \<Rightarrow> string \<Rightarrow> json \<Rightarrow> (review_db, py_error, unit) body" where
  "archive_execution api operation bundle_id archive db =
     (case sql_insert rx_clash \<lparr>rx_sequence = Suc (fold max (map rx_sequence (expired_rows db)) 0), rx_hash = operation,
            rx_bundle_id = bundle_id, rx_json = canonical_json archive, rx_digest = digest api archive\<rparr> (expired_rows db) of
        None \<Rightarrow> Inl IntegrityError
      | Some rows \<Rightarrow> Inr ((), db\<lparr>expired_rows := rows,
          input_claims := release_claims operation (input_claims db),
          fee_reviews := sql_delete (\<lambda>f. rf_hash f = operation) (fee_reviews db),
          exact_rows := sql_delete (\<lambda>e. re_hash e = operation) (exact_rows db)\<rparr>))"

definition reconcile_body ::
  "chia_api \<Rightarrow> string \<Rightarrow> string \<Rightarrow> json \<Rightarrow> rat \<Rightarrow> (review_db, py_error, unit) body" where
  "reconcile_body api operation bundle_id observation now db =
     bind (terms_of api (op_of db operation)) (\<lambda>terms.
     case (op_of db operation, exact_of db operation) of
       (Some prepared, Some row) \<Rightarrow>
         raise_if (re_height row \<noteq> None) (ValueError ''Only an unconfirmed exact execution can be reconciled'')
        (bind (execution_of api row terms) (\<lambda>signed.
         bind (bind (py_index signed ''spendBundle'') (decode_bundle api)) (\<lambda>bundle.
         case additions api bundle of
           None \<Rightarrow> Inl (ValueError ''puzzle does not run'')
         | Some outs \<Rightarrow>
             let persistent = persistent_coins api bundle outs in
             raise_any (observation_differs api operation bundle_id observation signed prepared
                 (length persistent) now)
               (ValueError ''Expired execution requires a fresh bound primary observation'')
            (bind (bind (py_index observation ''inputs'') py_iter) (\<lambda>actuals.
             bind (inputs_unspent api (zip actuals persistent)) (\<lambda>_.
             bind (archived_funding api db operation) (\<lambda>payload.
             bind (optional_doc (re_receipt row)) (\<lambda>receipt.
               archive_execution api operation bundle_id
                 (archive_doc operation terms (rv_expires prepared) signed payload receipt observation) db))))))))
     | _ \<Rightarrow> Inl (ValueError ''Only an unconfirmed exact execution can be reconciled''))"

definition reconcile_expired ::
  "chia_api \<Rightarrow> string \<Rightarrow> string \<Rightarrow> json \<Rightarrow> rat \<Rightarrow> (review_db, py_error, unit) call" where
  "reconcile_expired api operation bundle_id observation now =
     txn (reconcile_body api operation bundle_id observation now)"

definition read_expired :: "chia_api \<Rightarrow> string \<Rightarrow> review_db \<Rightarrow> py_error + json option" where
  "read_expired api operation db =
     (case fetch_first (\<lambda>r. - int (rx_sequence r)) (select (\<lambda>r. rx_hash r = operation) (expired_rows db)) of
        None \<Rightarrow> Inr None
      | Some row \<Rightarrow>
          bind (py_loads (rx_json row)) (\<lambda>archive.
          raise_any [Inr (digest api archive \<noteq> rx_digest row), differs (py_index archive ''operationHash'') (JStr operation)]
            (ValueError ''Retained expired execution changed'')
         (bind (py_index archive ''execution'') (\<lambda>signed.
          bind (py_index archive ''terms'') (\<lambda>terms.
          bind (validate_for api signed terms) (\<lambda>_. Inr (Some archive)))))))"

text \<open>\<open>reserved_input_coin_ids\<close>, sorted; the union has no order.\<close>

definition reserved_review_inputs :: "rat \<Rightarrow> (review_db, py_error, string list) call" where
  "reserved_review_inputs now = txn (\<lambda>db0. let db = expire_reviews now db0 in
     Inr (sort (remdups (map rc_coin (input_claims db) @
            map rf_fee_coin (select (\<lambda>f. \<not> has_exact db (rf_hash f)) (fee_reviews db)))), db))"

definition list_executions :: "string \<Rightarrow> review_db \<Rightarrow> string list" where
  "list_executions vault db =
     map rv_hash (select (\<lambda>r. rv_vault r = vault \<and>
        (has_exact db (rv_hash r) \<or> list_ex (\<lambda>a. rx_hash a = rv_hash r) (expired_rows db))) (review_ops db))"

section \<open>Histories\<close>

datatype review_call =
    Prepare string json json rat
  | Supersede string string rat
  | Reserve string json rat
  | Read_funding string rat
  | Seal string json string rat
  | Submitted string json
  | Confirmed string json string
  | Reconcile string string json rat
  | Reserved rat

fun review_step :: "chia_api \<Rightarrow> review_call \<Rightarrow> review_db \<Rightarrow> review_db" where
  "review_step api (Prepare h terms expires now) db = snd (prepare_review api h terms expires now db)"
| "review_step api (Supersede h vault now) db = snd (supersede_review api h vault now db)"
| "review_step api (Reserve h payload now) db = snd (reserve_review api h payload now db)"
| "review_step api (Read_funding h now) db = snd (read_funding api h now db)"
| "review_step api (Seal h v reservation now) db = snd (seal_execution api h v reservation now db)"
| "review_step api (Submitted h receipt) db = snd (mark_review_submitted api h receipt db)"
| "review_step api (Confirmed h height b) db = snd (mark_review_confirmed api h height b db)"
| "review_step api (Reconcile h b observation now) db = snd (reconcile_expired api h b observation now db)"
| "review_step api (Reserved now) db = snd (reserved_review_inputs now db)"

text \<open>A sealed document is a Python value: no \<open>dict\<close> has a key twice.\<close>

fun review_call_ok :: "review_call \<Rightarrow> bool" where
  "review_call_ok (Seal h v reservation now) = json_ok v"
| "review_call_ok _ = True"

definition exec_bundle :: "chia_api \<Rightarrow> exact_execution \<Rightarrow> py_error + spend_bundle" where
  "exec_bundle api e = bind (py_loads (re_json e)) (\<lambda>v. bind (py_index v ''spendBundle'') (decode_bundle api))"

definition inputs_of :: "chia_api \<Rightarrow> spend_bundle \<Rightarrow> string set" where
  "inputs_of api b = spend_id api ` set (coin_spends b)"

text \<open>
  The invariant: the constraints, every input of an unconfirmed execution is claimed by its operation, and a
  claimed coin is no other operation's reviewed fee coin.
\<close>

definition claimed_by :: "review_db \<Rightarrow> string \<Rightarrow> string set" where
  "claimed_by db h = rc_coin ` {c \<in> set (input_claims db). rc_hash c = h}"

definition all_claimed :: "chia_api \<Rightarrow> review_db \<Rightarrow> exact_execution \<Rightarrow> bool" where
  "all_claimed api db e \<longleftrightarrow>
     (re_height e = None \<longrightarrow> (\<exists>b. exec_bundle api e = Inr b \<and> distinct (map (spend_id api) (coin_spends b)) \<and>
        inputs_of api b \<subseteq> claimed_by db (re_hash e)))"

definition fees_apart :: "fee_review list \<Rightarrow> input_claim list \<Rightarrow> bool" where
  "fees_apart fees claimed \<longleftrightarrow> (\<forall>f \<in> set fees. \<forall>c \<in> set claimed. rc_coin c = rf_fee_coin f \<longrightarrow> rc_hash c = rf_hash f)"

definition tables_ok :: "review_db \<Rightarrow> bool" where
  "tables_ok db \<longleftrightarrow> table_ok rv_clash (review_ops db) \<and> table_ok rf_clash (fee_reviews db) \<and>
     table_ok re_clash (exact_rows db) \<and> table_ok rx_clash (expired_rows db) \<and> table_ok rc_clash (input_claims db)"

definition review_inv :: "chia_api \<Rightarrow> review_db \<Rightarrow> bool" where
  "review_inv api db \<longleftrightarrow> tables_ok db \<and> list_all (all_claimed api db) (exact_rows db) \<and>
     fees_apart (fee_reviews db) (input_claims db)"

text \<open>An execution stays as it was signed, or is in the archive if it was not confirmed.\<close>

definition archived :: "exact_execution \<Rightarrow> expired_execution \<Rightarrow> bool" where
  "archived e a \<longleftrightarrow> rx_hash a = re_hash e \<and> (\<exists>terms expires doc held receipt observation.
     py_loads (re_json e) = Inr doc \<and>
     rx_json a = canonical_json (archive_doc (re_hash e) terms expires doc held receipt observation))"

definition execution_kept :: "review_db \<Rightarrow> exact_execution \<Rightarrow> bool" where
  "execution_kept db e \<longleftrightarrow>
     (\<exists>e' \<in> set (exact_rows db). re_hash e' = re_hash e \<and> re_json e' = re_json e \<and> re_digest e' = re_digest e \<and>
        (re_height e \<noteq> None \<longrightarrow> re_height e' \<noteq> None)) \<or>
     (re_height e = None \<and> (\<exists>a \<in> set (expired_rows db). archived e a))"

definition review_grows :: "review_db \<Rightarrow> review_db \<Rightarrow> bool" where
  "review_grows db db' \<longleftrightarrow> (\<forall>e \<in> set (exact_rows db). execution_kept db' e) \<and>
     set (expired_rows db) \<subseteq> set (expired_rows db')"

lemma execution_kept_refl: "e \<in> set (exact_rows db) \<Longrightarrow> execution_kept db e"
  unfolding execution_kept_def by blast

lemma review_grows_refl: "review_grows db db"
  by (simp add: review_grows_def execution_kept_refl)

lemma review_grows_trans:
  assumes "review_grows a b" and "review_grows b c"
  shows "review_grows a c"
  unfolding review_grows_def
proof (intro conjI ballI)
  show "set (expired_rows a) \<subseteq> set (expired_rows c)"
    using assms unfolding review_grows_def by blast
  fix e assume "e \<in> set (exact_rows a)"
  then consider e' where "e' \<in> set (exact_rows b)" "re_hash e' = re_hash e" "re_json e' = re_json e"
      "re_digest e' = re_digest e" "re_height e \<noteq> None \<longrightarrow> re_height e' \<noteq> None"
    | x where "re_height e = None" "x \<in> set (expired_rows b)" "archived e x"
    using assms(1) unfolding review_grows_def execution_kept_def by blast
  then show "execution_kept c e"
  proof cases
    case (1 e')
    then have "execution_kept c e'" using assms(2) unfolding review_grows_def by blast
    with 1 show ?thesis unfolding execution_kept_def archived_def by metis
  next
    case (2 x)
    then show ?thesis using assms(2) unfolding review_grows_def execution_kept_def by blast
  qed
qed

text \<open>A change of the operations and a loss of reviews.\<close>

lemma quiet_write:
  assumes "review_inv api db" and "table_ok rv_clash (review_ops db')" and "table_ok rf_clash (fee_reviews db')"
    and "exact_rows db' = exact_rows db" and "expired_rows db' = expired_rows db" and "input_claims db' = input_claims db"
    and "fees_apart (fee_reviews db') (input_claims db)"
  shows "review_inv api db' \<and> review_grows db db'"
  using assms unfolding review_inv_def tables_ok_def review_grows_def all_claimed_def claimed_by_def
  by (simp add: execution_kept_def) blast

lemma fees_apart_fewer: "fees_apart fees claimed \<Longrightarrow> set fees' \<subseteq> set fees \<Longrightarrow> set claimed' \<subseteq> set claimed \<Longrightarrow> fees_apart fees' claimed'"
  unfolding fees_apart_def by blast

lemma expire_quiet:
  assumes "review_inv api db"
  shows "review_inv api (expire_reviews now db) \<and> review_grows db (expire_reviews now db)"
  using assms
  by (intro quiet_write [OF assms]) (auto simp: review_inv_def tables_ok_def expire_reviews_def sql_delete_def
      intro: table_ok_filter elim!: fees_apart_fewer)

lemma map_rv_ok:
  "table_ok rv_clash rows \<Longrightarrow> (\<And>r. rv_hash (f r) = rv_hash r) \<Longrightarrow> table_ok rv_clash (map f rows)"
  by (simp add: table_ok_iff rv_clash_def)

lemma map_re_ok:
  "table_ok re_clash rows \<Longrightarrow> (\<And>r. re_hash (f r) = re_hash r) \<Longrightarrow> table_ok re_clash (map f rows)"
  by (simp add: table_ok_iff re_clash_def)

text \<open>The calls that leave executions alone.\<close>

lemma prepare_ok:
  assumes "review_inv api db" and "prepare_body api h terms e now db = Inr (x, db')"
  shows "review_inv api db' \<and> review_grows db db'"
proof -
  let ?m = "expire_reviews now db"
  have m: "review_inv api ?m" "review_grows db ?m" using expire_quiet [OF assms(1)] by blast+
  have "db' = ?m \<or> (\<exists>rows. table_ok rv_clash rows \<and> db' = ?m\<lparr>review_ops := rows\<rparr>)"
  proof (cases "op_of ?m h")
    case None
    with assms(2) m(1) show ?thesis
      by (auto simp: prepare_body_def Let_def bind_Inr review_inv_def tables_ok_def split: option.splits
          intro: rv.ok_insert)
  next
    case (Some old)
    have "table_ok rv_clash (map (\<lambda>r. if rv_hash r = h then r\<lparr>rv_expires := e\<rparr> else r) (review_ops ?m))"
      using m(1) by (intro map_rv_ok) (simp_all add: review_inv_def tables_ok_def)
    with Some assms(2) show ?thesis
      by (auto simp: prepare_body_def Let_def bind_Inr split: if_splits)
  qed
  then have "review_inv api db' \<and> review_grows ?m db'"
    using m(1) quiet_write [OF m(1)] review_grows_refl by (auto simp: review_inv_def tables_ok_def)
  then show ?thesis using review_grows_trans [OF m(2)] by blast
qed

lemma supersede_ok:
  assumes "review_inv api db" and "supersede_review_body api h vault now db = Inr (x, db')"
  shows "review_inv api db' \<and> review_grows db db'"
proof -
  from assms(2) obtain p where "db' = db\<lparr>fee_reviews := filter p (fee_reviews db)\<rparr>"
    by (auto simp: supersede_review_body_def bind_Inr sql_delete_def)
  with assms(1) show ?thesis
    by (intro quiet_write [OF assms(1)]) (auto simp: review_inv_def tables_ok_def intro: table_ok_filter elim!: fees_apart_fewer)
qed

lemma reserve_ok:
  assumes "review_inv api db" and "reserve_review_body api h payload review private now db = Inr (x, db')"
  shows "review_inv api db' \<and> review_grows db db'"
proof -
  let ?m = "expire_reviews now db"
  have m: "review_inv api ?m" "review_grows db ?m" using expire_quiet [OF assms(1)] by blast+
  have "db' = ?m \<or> (\<exists>f rows. sql_insert rf_clash f (fee_reviews ?m) = Some rows \<and>
      (\<forall>c \<in> set (input_claims ?m). rc_coin c \<noteq> rf_fee_coin f) \<and> db' = ?m\<lparr>fee_reviews := rows\<rparr>)"
    using assms(2) by (fastforce simp: reserve_review_body_def Let_def bind_Inr list_ex_iff split: option.splits)
  then have "review_inv api db' \<and> review_grows ?m db'"
  proof (elim disjE exE conjE)
    fix f rows
    assume f: "sql_insert rf_clash f (fee_reviews ?m) = Some rows"
      "\<forall>c \<in> set (input_claims ?m). rc_coin c \<noteq> rf_fee_coin f" "db' = ?m\<lparr>fee_reviews := rows\<rparr>"
    have "table_ok rf_clash rows" using rf.ok_insert [OF _ f(1)] m(1) by (simp add: review_inv_def tables_ok_def)
    moreover have "fees_apart rows (input_claims ?m)"
      using f(1,2) m(1) by (auto simp: review_inv_def fees_apart_def sql_insert_Some)
    ultimately show ?thesis
      using m(1) f(3) by (intro quiet_write [OF m(1)]) (auto simp: review_inv_def tables_ok_def)
  qed (use m(1) review_grows_refl in blast)
  then show ?thesis using review_grows_trans [OF m(2)] by blast
qed

section \<open>Sealing, confirmation and archive\<close>

lemma claim_spends_Inr:
  assumes "claim_spends api h fees ss claimed = Inr claimed'"
  shows "(table_ok rc_clash claimed \<longrightarrow> table_ok rc_clash claimed') \<and>
    claimed' = claimed @ map (\<lambda>s. \<lparr>rc_coin = spend_id api s, rc_hash = h\<rparr>) ss \<and>
    (\<forall>s \<in> set ss. \<forall>f \<in> set fees. rf_fee_coin f = spend_id api s \<longrightarrow> rf_hash f = h)"
  using assms
proof (induction ss arbitrary: claimed)
  case (Cons s ss)
  then obtain c where c: "sql_insert rc_clash \<lparr>rc_coin = spend_id api s, rc_hash = h\<rparr> claimed = Some c"
      "claim_spends api h fees ss c = Inr claimed'" "\<forall>f \<in> set fees. rf_fee_coin f = spend_id api s \<longrightarrow> rf_hash f = h"
    by (auto simp: list_ex_iff split: option.splits)
  from Cons.IH [OF c(2)] c(1,3) show ?case
    by (auto simp: sql_insert_Some dest: rc.ok_insert [OF _ c(1)])
qed simp

lemma validate_for_bundle:
  assumes "validate_for api v terms = Inr b"
  shows "bind (py_index v ''spendBundle'') (decode_bundle api) = Inr b"
proof -
  obtain p q where "validate_execution api v p q = Inr b"
  proof -
    from assms obtain a c where "(case (a, c) of (JStr p, JStr q) \<Rightarrow> validate_execution api v p q
        | _ \<Rightarrow> Inl (ValueError ''durable Sols swap execution is inconsistent'')) = Inr b"
      by (auto simp: validate_for_def bind_Inr)
    with that show thesis by (cases a; cases c) auto
  qed
  then have "checked_execution api v p q = Inr b"
    by (simp add: validate_execution_def split: sum.splits)
  then show ?thesis
    unfolding checked_execution_def by (auto simp: bind_Inr Let_def split: option.splits)
qed

lemma exec_bundle_written:
  assumes "order_free api" and "json_ok v" and "validate_for api v terms = Inr b" and "re_json e = canonical_json v"
  shows "exec_bundle api e = Inr b"
proof -
  obtain j where j: "py_index v ''spendBundle'' = Inr j" "decode_bundle api j = Inr b"
    using validate_for_bundle [OF assms(3)] by (auto simp: bind_Inr)
  have "bind (py_index (canon v) ''spendBundle'') (decode_bundle api) = Inr b"
    using j decode_bundle_canon [OF assms(1) py_index_ok [OF assms(2) j(1)]]
    by (simp add: bind_index_canon [OF assms(2)])
  then show ?thesis
    by (simp add: exec_bundle_def assms(4) py_loads_canonical [OF assms(2)])
qed

lemma seal_effect:
  assumes "order_free api" and "json_ok v" and "seal_body api h v reservation now db = Inr (x, db')"
  obtains "db' = db"
  | b e rows claimed where "re_hash e = h" "exec_bundle api e = Inr b"
    "sql_insert re_clash e (exact_rows db) = Some rows"
    "claim_spends api h (fee_reviews db) (coin_spends b) (input_claims db) = Inr claimed"
    "db' = db\<lparr>exact_rows := rows, input_claims := claimed\<rparr>"
proof -
  from assms(3) obtain terms b where t: "terms_of api (op_of db h) = Inr terms" "validate_for api v terms = Inr b"
    by (auto simp: seal_body_def bind_Inr)
  let ?e = "\<lparr>re_hash = h, re_json = canonical_json v, re_digest = digest api v, re_receipt = None, re_height = None\<rparr>"
  have "exec_bundle api ?e = Inr b"
    by (rule exec_bundle_written [OF assms(1,2) t(2)]) simp
  moreover have "db' = db \<or> (\<exists>rows claimed. sql_insert re_clash ?e (exact_rows db) = Some rows \<and>
      claim_spends api h (fee_reviews db) (coin_spends b) (input_claims db) = Inr claimed \<and>
      db' = db\<lparr>exact_rows := rows, input_claims := claimed\<rparr>)"
    using assms(3) t by (auto simp: seal_body_def bind_Inr split: option.splits)
  ultimately show thesis
    using that(1) that(2) [of ?e b] by auto
qed

lemma seal_ok:
  assumes "review_inv api db" and "order_free api" and "json_ok v" and "seal_body api h v reservation now db = Inr (x, db')"
  shows "review_inv api db' \<and> review_grows db db'"
  using assms(2,3,4)
proof (cases rule: seal_effect)
  case 1
  then show ?thesis using assms(1) review_grows_refl by blast
next
  case (2 b e rows claimed)
  note c = claim_spends_Inr [OF 2(4)]
  have rows: "rows = exact_rows db @ [e]" using 2(3) by (simp add: sql_insert_Some)
  have mono: "claimed_by db k \<subseteq> claimed_by db' k" for k
    using c 2(5) by (auto simp: claimed_by_def)
  have "table_ok rc_clash claimed"
    using c assms(1) unfolding review_inv_def tables_ok_def by blast
  then have "distinct (map rc_coin claimed)" by (rule rc.distinct_keys)
  then have d: "distinct (map (spend_id api) (coin_spends b))" using c by (simp add: comp_def)
  then have "all_claimed api db' e"
    using 2(1,2,5) c by (auto simp: all_claimed_def claimed_by_def inputs_of_def image_def)
  moreover have "all_claimed api db' r" if "all_claimed api db r" for r
    using that mono unfolding all_claimed_def by blast
  moreover have "fees_apart (fee_reviews db) claimed"
    using assms(1) c unfolding review_inv_def fees_apart_def by auto
  moreover have "table_ok re_clash rows"
    using re.ok_insert [OF _ 2(3)] assms(1) by (simp add: review_inv_def tables_ok_def)
  ultimately have "review_inv api db'"
    using assms(1) c by (auto simp: review_inv_def tables_ok_def 2(5) rows list_all_iff)
  moreover have "review_grows db db'"
    unfolding review_grows_def 2(5) rows by (auto simp: execution_kept_def)
  ultimately show ?thesis by blast
qed

lemma claimed_released:
  "k \<noteq> h \<Longrightarrow> input_claims db' = release_claims h (input_claims db) \<Longrightarrow> claimed_by db' k = claimed_by db k"
  by (auto simp: claimed_by_def release_claims_def sql_delete_def)

text \<open>An update of the executions that keeps what was signed, with claims released only where it confirms.\<close>

lemma edit_ok:
  assumes "review_inv api db"
    and db': "db' = db\<lparr>exact_rows := map f (exact_rows db), input_claims := claimed\<rparr>"
    and f: "\<And>e. re_hash (f e) = re_hash e \<and> re_json (f e) = re_json e \<and> re_digest (f e) = re_digest e \<and>
      (re_height e \<noteq> None \<longrightarrow> re_height (f e) \<noteq> None)"
    and claimed: "set claimed \<subseteq> set (input_claims db)" "table_ok rc_clash claimed"
      "\<And>e. re_height (f e) = None \<Longrightarrow> claimed_by db' (re_hash e) = claimed_by db (re_hash e)"
  shows "review_inv api db' \<and> review_grows db db'"
proof
  have "all_claimed api db' (f e)" if "all_claimed api db e" for e
    using that f [of e] claimed(3) [of e] unfolding all_claimed_def exec_bundle_def by auto
  moreover have "table_ok re_clash (map f (exact_rows db))"
    using assms(1) f by (intro map_re_ok) (simp_all add: review_inv_def tables_ok_def)
  moreover have "fees_apart (fee_reviews db) claimed"
    using assms(1) claimed(1) by (auto simp: review_inv_def elim: fees_apart_fewer)
  ultimately show "review_inv api db'"
    using assms(1) claimed(2) unfolding review_inv_def tables_ok_def by (auto simp: db' list_all_iff)
  have "execution_kept db' e" if "e \<in> set (exact_rows db)" for e
  proof -
    have "f e \<in> set (exact_rows db')" using that by (simp add: db')
    then show ?thesis unfolding execution_kept_def using f by metis
  qed
  then show "review_grows db db'" by (simp add: review_grows_def db')
qed

lemma submitted_ok:
  assumes "review_inv api db" and "submitted_body api h receipt db = Inr (x, db')"
  shows "review_inv api db' \<and> review_grows db db'"
proof (rule edit_ok [OF assms(1)])
  show "db' = db\<lparr>exact_rows := map (\<lambda>e. if re_hash e = h then e\<lparr>re_receipt := Some (canonical_json receipt)\<rparr> else e)
      (exact_rows db), input_claims := input_claims db\<rparr>"
    using assms(2) by (auto simp: submitted_body_def bind_Inr set_exact_def split: option.splits)
  then show "claimed_by db' (re_hash e) = claimed_by db (re_hash e)" for e
    by (simp add: claimed_by_def)
qed (use assms(1) in \<open>auto simp: review_inv_def tables_ok_def\<close>)

lemma confirmed_ok:
  assumes "review_inv api db" and "confirmed_body api h height b db = Inr (x, db')"
  shows "review_inv api db' \<and> review_grows db db'"
proof -
  obtain n where "height = JInt n"
    using assms(2) by (cases height) (auto simp: confirmed_body_def bind_Inr)
  with assms(2) have db': "db' = db\<lparr>exact_rows := map (\<lambda>e. if re_hash e = h then e\<lparr>re_height := Some n\<rparr> else e) (exact_rows db),
      input_claims := release_claims h (input_claims db)\<rparr>"
    by (auto simp: confirmed_body_def bind_Inr set_exact_def split: option.splits)
  show ?thesis
  proof (rule edit_ok [OF assms(1) db'])
    fix e assume "re_height (if re_hash e = h then e\<lparr>re_height := Some n\<rparr> else e) = None"
    then have "re_hash e \<noteq> h" by (auto split: if_splits)
    then show "claimed_by db' (re_hash e) = claimed_by db (re_hash e)"
      by (rule claimed_released) (simp add: db')
  qed (use assms(1) in \<open>auto simp: review_inv_def tables_ok_def release_claims_def rc.ok_delete sql_delete_def intro: table_ok_filter\<close>)
qed

lemma reconcile_effect:
  assumes "reconcile_body api h b observation now db = Inr (x, db')"
  obtains row terms expires doc held receipt where "exact_of db h = Some row" "re_height row = None"
    "py_loads (re_json row) = Inr doc"
    "archive_execution api h b (archive_doc h terms expires doc held receipt observation) db = Inr (x, db')"
proof -
  from assms obtain prepared row where c: "op_of db h = Some prepared" "exact_of db h = Some row"
    by (cases "op_of db h"; cases "exact_of db h") (auto simp: reconcile_body_def bind_Inr)
  with assms obtain terms doc sb where d: "re_height row = None" "execution_of api row terms = Inr doc"
      "bind (py_index doc ''spendBundle'') (decode_bundle api) = Inr sb"
      "terms_of api (op_of db h) = Inr terms"
    by (auto simp: reconcile_body_def bind_Inr)
  with assms c obtain outs where "additions api sb = Some outs"
    by (cases "additions api sb") (simp_all add: reconcile_body_def)
  with assms c d obtain payload receipt where
    "archive_execution api h b (archive_doc h terms (rv_expires prepared) doc payload receipt observation) db = Inr (x, db')"
    by (auto simp: reconcile_body_def bind_Inr [of "py_index observation ''inputs''"] Let_def) (auto simp: bind_Inr)
  moreover have "py_loads (re_json row) = Inr doc"
    using d(2) by (auto simp: execution_of_def bind_Inr)
  ultimately show thesis using that c(2) d(1) by blast
qed

lemma reconcile_ok:
  assumes "review_inv api db" and "reconcile_body api h b observation now db = Inr (x, db')"
  shows "review_inv api db' \<and> review_grows db db'"
  using assms(2)
proof (cases rule: reconcile_effect)
  case (1 row terms expires doc held receipt)
  let ?archive = "archive_doc h terms expires doc held receipt observation"
  from 1(4) obtain a rows where a: "sql_insert rx_clash a (expired_rows db) = Some rows" "rx_hash a = h"
      "rx_json a = canonical_json ?archive"
      "db' = db\<lparr>expired_rows := rows, input_claims := release_claims h (input_claims db),
         fee_reviews := sql_delete (\<lambda>f. rf_hash f = h) (fee_reviews db),
         exact_rows := sql_delete (\<lambda>e. re_hash e = h) (exact_rows db)\<rparr>"
    by (auto simp: archive_execution_def split: option.splits)
  have row: "row \<in> set (exact_rows db)" "re_hash row = h"
    using 1(1) by (auto simp: exact_of_def dest: lookup_Some_D)
  have rows: "rows = expired_rows db @ [a]" "table_ok rx_clash rows"
    using rx.ok_insert [OF _ a(1)] a(1) assms(1) by (auto simp: sql_insert_Some review_inv_def tables_ok_def)
  have "claimed_by db' k = claimed_by db k" if "k \<noteq> h" for k
    using that by (rule claimed_released) (simp add: a(4))
  then have claimed: "all_claimed api db e \<Longrightarrow> re_hash e \<noteq> h \<Longrightarrow> all_claimed api db' e" for e
    by (simp add: all_claimed_def)
  have "fees_apart (sql_delete (\<lambda>f. rf_hash f = h) (fee_reviews db)) (release_claims h (input_claims db))"
    using assms(1) by (auto simp: review_inv_def release_claims_def sql_delete_def elim!: fees_apart_fewer)
  then have "review_inv api db'"
    using assms(1) claimed rows(2) unfolding review_inv_def tables_ok_def
    by (simp add: a(4) release_claims_def rc.ok_delete rf.ok_delete re.ok_delete) (simp add: sql_delete_def list_all_iff)
  moreover have "execution_kept db' e" if "e \<in> set (exact_rows db)" for e
  proof (cases "re_hash e = h")
    case True
    then have "e = row"
      using re.key_eq [OF _ that row(1)] row(2) assms(1) by (simp add: review_inv_def tables_ok_def)
    then have "archived e a \<and> re_height e = None"
      unfolding archived_def using 1(2,3) a(2,3) row(2) by metis
    then show ?thesis unfolding execution_kept_def by (auto simp: a(4) rows(1))
  next
    case False
    with that have "e \<in> set (exact_rows db')" by (simp add: a(4) sql_delete_def)
    then show ?thesis by (rule execution_kept_refl)
  qed
  then have "review_grows db db'" by (auto simp: review_grows_def a(4) rows(1))
  ultimately show ?thesis by blast
qed

lemma reading_ok:
  assumes "review_inv api db"
  shows "read_funding api h now db = (y, db') \<Longrightarrow> review_inv api db' \<and> review_grows db db'"
    and "reserved_review_inputs now db = (z, db') \<Longrightarrow> review_inv api db' \<and> review_grows db db'"
proof -
  have m: "review_inv api (expire_reviews now db) \<and> review_grows db (expire_reviews now db)" using expire_quiet [OF assms] .
  show "review_inv api db' \<and> review_grows db db'" if "read_funding api h now db = (y, db')"
    using that m assms review_grows_refl
    by (auto simp: read_funding_def txn_def Let_def bind_Inr split: sum.splits prod.splits option.splits)
  show "review_inv api db' \<and> review_grows db db'" if "reserved_review_inputs now db = (z, db')"
    using that m by (auto simp: reserved_review_inputs_def txn_def Let_def)
qed

lemma review_step_ok:
  assumes "review_inv api db" and "order_free api" and "review_call_ok op"
  shows "review_inv api (review_step api op db) \<and> review_grows db (review_step api op db)"
proof -
  let ?P = "\<lambda>d. review_inv api d \<and> review_grows db d"
  have P: "?P db" using assms(1) review_grows_refl by blast
  show ?thesis
  proof (cases op)
    case (Prepare h terms e now)
    show ?thesis
      unfolding Prepare review_step.simps prepare_review_def
      using P by (auto split: json.splits intro!: txn_keeps [of ?P] dest: prepare_ok [OF assms(1)])
  next
    case (Supersede h vault now)
    show ?thesis
      unfolding Supersede review_step.simps supersede_review_def
      by (rule txn_keeps [of ?P, OF P]) (rule supersede_ok [OF assms(1)])
  next
    case (Reserve h payload now)
    show ?thesis
      unfolding Reserve review_step.simps reserve_review_def
      using P by (auto split: sum.splits prod.splits intro!: txn_keeps [of ?P] dest: reserve_ok [OF assms(1)])
  next
    case (Read_funding h now)
    then show ?thesis using reading_ok(1) [OF assms(1)] by (metis review_step.simps(4) surjective_pairing)
  next
    case (Seal h v reservation now)
    show ?thesis
      unfolding Seal review_step.simps seal_execution_def
      by (rule txn_keeps [of ?P, OF P]) (rule seal_ok [OF assms(1,2)], use assms(3) Seal in simp)
  next
    case (Submitted h receipt)
    show ?thesis
      unfolding Submitted review_step.simps mark_review_submitted_def
      by (rule txn_keeps [of ?P, OF P]) (rule submitted_ok [OF assms(1)])
  next
    case (Confirmed h height b)
    show ?thesis
      unfolding Confirmed review_step.simps mark_review_confirmed_def
      by (rule txn_keeps [of ?P, OF P]) (rule confirmed_ok [OF assms(1)])
  next
    case (Reconcile h b observation now)
    show ?thesis
      unfolding Reconcile review_step.simps reconcile_expired_def
      by (rule txn_keeps [of ?P, OF P]) (rule reconcile_ok [OF assms(1)])
  next
    case (Reserved now)
    then show ?thesis using reading_ok(2) [OF assms(1)] by (metis review_step.simps(9) surjective_pairing)
  qed
qed

interpretation review: store "review_step api" "\<lambda>db. order_free api \<and> review_inv api db" review_call_ok for api
  by unfold_locales (simp add: review_step_ok)

definition review_history :: "chia_api \<Rightarrow> review_call list \<Rightarrow> review_db" where
  "review_history api ops = run (review_step api) ops empty_review_db"

lemma review_history_inv:
  assumes "order_free api" and "list_all review_call_ok ops"
  shows "review_inv api (review_history api ops)"
proof -
  have "review_inv api empty_review_db"
    by (simp add: review_inv_def tables_ok_def fees_apart_def empty_review_db_def)
  then show ?thesis
    using review.run_inv [of api empty_review_db ops] assms by (simp add: review_history_def)
qed

lemma review_history_grows:
  assumes "order_free api" and "list_all review_call_ok ops" and "list_all review_call_ok ops'"
  shows "review_grows (review_history api ops) (review_history api (ops @ ops'))"
proof -
  have r: "reflp review_grows" by (simp add: reflp_def review_grows_refl)
  have t: "transp review_grows" by (rule transpI) (rule review_grows_trans)
  have i: "order_free api \<and> review_inv api (review_history api ops)"
    using assms(1) review_history_inv [OF assms(1,2)] by blast
  have "review_grows (review_history api ops) (run (review_step api) ops' (review_history api ops))"
    by (rule review.run_mono [OF _ r t i assms(3)]) (simp add: review_step_ok)
  then show ?thesis by (simp add: review_history_def run_append)
qed

section \<open>Properties\<close>

definition open_executions :: "review_db \<Rightarrow> exact_execution list" where
  "open_executions db = filter (\<lambda>e. re_height e = None) (exact_rows db)"

definition execution_inputs :: "chia_api \<Rightarrow> exact_execution \<Rightarrow> string list" where
  "execution_inputs api e =
     (case exec_bundle api e of Inl _ \<Rightarrow> [] | Inr b \<Rightarrow> map (spend_id api) (coin_spends b))"

lemma open_execution_inputs:
  assumes "review_inv api db" and "e \<in> set (open_executions db)"
  shows "\<exists>b. exec_bundle api e = Inr b" and "distinct (execution_inputs api e)"
    and "set (execution_inputs api e) \<subseteq> claimed_by db (re_hash e)"
proof -
  obtain b where b: "exec_bundle api e = Inr b" "distinct (map (spend_id api) (coin_spends b))"
      "inputs_of api b \<subseteq> claimed_by db (re_hash e)"
    using assms by (auto simp: open_executions_def review_inv_def list_all_iff all_claimed_def)
  then show "\<exists>b. exec_bundle api e = Inr b" "distinct (execution_inputs api e)"
      "set (execution_inputs api e) \<subseteq> claimed_by db (re_hash e)"
    by (simp_all add: execution_inputs_def inputs_of_def)
qed

lemma claimed_once:
  assumes "review_inv api db" and "k \<in> claimed_by db h" and "k \<in> claimed_by db h'"
  shows "h = h'"
proof -
  obtain c c' where "c \<in> set (input_claims db)" "c' \<in> set (input_claims db)" "rc_coin c = rc_coin c'"
      "rc_hash c = h" "rc_hash c' = h'"
    using assms(2,3) by (auto simp: claimed_by_def)
  then show ?thesis using rc.key_eq assms(1) unfolding review_inv_def tables_ok_def by metis
qed

text \<open>
  C19. No coin is committed twice: in every history the inputs of all unconfirmed signed redemptions together, each
  of which decodes, are distinct coins; none of them is the reviewed fee coin of another operation; and two fee
  reviews never hold the same coin.
\<close>

theorem redemption_inputs_exclusive:
  assumes "order_free api" and "list_all review_call_ok ops"
  shows "distinct (concat (map (execution_inputs api) (open_executions (review_history api ops)))) \<and>
    (\<forall>e \<in> set (open_executions (review_history api ops)). (\<exists>b. exec_bundle api e = Inr b) \<and>
      (\<forall>f \<in> set (fee_reviews (review_history api ops)).
         rf_fee_coin f \<in> set (execution_inputs api e) \<longrightarrow> rf_hash f = re_hash e)) \<and>
    distinct (map rf_fee_coin (fee_reviews (review_history api ops)))"
proof -
  let ?db = "review_history api ops"
  note inv = review_history_inv [OF assms]
  have tab: "table_ok re_clash (exact_rows ?db)" "table_ok rf_clash (fee_reviews ?db)"
    using inv by (simp_all add: review_inv_def tables_ok_def)
  have "distinct (concat (map (execution_inputs api) es))"
    if "set es \<subseteq> set (open_executions ?db)" "distinct (map re_hash es)" for es
    using that
  proof (induction es)
    case (Cons e es)
    have "k \<notin> set (execution_inputs api e')" if k: "k \<in> set (execution_inputs api e)" "e' \<in> set es" for k e'
    proof
      assume "k \<in> set (execution_inputs api e')"
      moreover have "e \<in> set (open_executions ?db)" "e' \<in> set (open_executions ?db)" "re_hash e \<noteq> re_hash e'"
        using k(2) Cons.prems by auto
      ultimately show False
        using claimed_once [OF inv] open_execution_inputs(3) [OF inv] k(1) by blast
    qed
    then show ?case
      using Cons open_execution_inputs(2) [OF inv, of e] by auto
  qed simp
  moreover have "distinct (map re_hash (open_executions ?db))"
    unfolding open_executions_def by (rule distinct_map_filter) (rule re.distinct_keys [OF tab(1)])
  moreover have "rf_hash f = re_hash e"
    if e: "e \<in> set (open_executions ?db)" and f: "f \<in> set (fee_reviews ?db)" "rf_fee_coin f \<in> set (execution_inputs api e)" for e f
  proof -
    obtain c where "c \<in> set (input_claims ?db)" "rc_coin c = rf_fee_coin f" "rc_hash c = re_hash e"
      using open_execution_inputs(3) [OF inv e] f(2) by (auto simp: claimed_by_def)
    then show ?thesis using inv f(1) unfolding review_inv_def fees_apart_def by metis
  qed
  moreover have "table_ok rf_clash rows \<Longrightarrow> distinct (map rf_fee_coin rows)" for rows
    by (induction rows) (auto simp: rf_clash_def list_all_iff)
  ultimately show ?thesis
    using tab(2) open_execution_inputs(1) [OF inv] by blast
qed


section \<open>A sample redemption\<close>

definition review_api :: chia_api where
  "review_api = swap_api\<lparr>sha256_hex := (\<lambda>_. ''7'')\<rparr>"

definition review_terms :: json where
  "review_terms = JObj [(''vaultLauncherId'', JStr ''v''), (''fundingCoinId'', JStr ''0xpool''),
     (''expectedPaymentCoinId'', JStr ''0xnext''), (''candidateHash'', JStr ''c'')]"

definition review_payload :: json where
  "review_payload = JObj
     [(''review'', JObj
        [(''operationHash'', JStr ''op''), (''binding'', JObj [(''vaultLauncherId'', JStr ''v'')]),
         (''protocolCandidateHash'', JStr ''c''), (''quoteExpiresAt'', JInt 100), (''feeCoinId'', JStr ''0xtill''),
         (''fundingCoinSpend'', public_spend swap_api \<lparr>spend_coin = swap_fee_coin, puzzle_reveal = ''till'', solution = ''s2''\<rparr>),
         (''ownerAuthorization'', JStr ''PENDING''), (''status'', JStr ''FUNDING_RESERVED''),
         (''consensusValidated'', JBool False), (''feeMojos'', JStr ''2''), (''backingMojos'', JStr ''1''),
         (''feeTargetSeconds'', JInt 60)]),
      (''reservationHash'', JStr ''0x7''), (''fundingBundle'', JStr ''f1'')]"

definition review_execution :: json where
  "review_execution = JObj
     [(''network'', JStr ''testnet11''), (''feeTargetSeconds'', JInt 60), (''feeMojos'', JStr ''2''),
      (''backingMojos'', JStr ''1''), (''spendBundle'', JStr ''b1''), (''feeCoinId'', JStr ''0xtill''),
      (''spendBundleId'', JStr ''0xb1''), (''fundingReservationHash'', JStr ''0x7'')]"

definition sample_review_calls :: "review_call list" where
  "sample_review_calls =
     [Prepare ''op'' review_terms (JInt 100) 1, Reserve ''op'' review_payload 2, Seal ''op'' review_execution ''0x7'' 3]"

lemma sample_review_run:
  "map (\<lambda>e. (re_hash e, re_height e)) (open_executions (review_history review_api sample_review_calls)) = [(''op'', None)]"
  by code_simp

definition observed_input :: "coin \<Rightarrow> json" where
  "observed_input c = JObj
     [(''coinId'', JStr (coin_name review_api c)),
      (''coin'', JObj [(''parentCoinInfo'', JStr (parent_coin_info c)), (''puzzleHash'', JStr (puzzle_hash c)),
         (''amount'', JStr (show_int (amount c)))]),
      (''confirmedHeight'', JInt 5), (''spentHeight'', JInt 0)]"

definition review_observation :: json where
  "review_observation = JObj
     [(''status'', JStr ''PRIMARY_NODE_OBSERVATION''), (''network'', JStr ''testnet11''),
      (''authority'', JStr ''CONFIGURED_PRIMARY_FULL_NODE''), (''consensusInclusionProven'', JBool False),
      (''transactionTimestamp'', JInt 120), (''observedAt'', JInt 149), (''expiresAt'', JInt 200),
      (''binding'', JObj [(''operationHash'', JStr ''op''), (''spendBundleId'', JStr ''0xb1''), (''expiredAt'', JInt 100),
         (''quoteExpiresAt'', JInt 200)]),
      (''inputs'', JArr [observed_input swap_pool_coin, observed_input swap_fee_coin]), (''snapshotHash'', JStr ''0x7'')]"

lemma sample_review_archived:
  "exact_rows (review_history review_api (sample_review_calls @ [Reconcile ''op'' ''0xb1'' review_observation 150])) = []"
  by code_simp

lemma review_order_free: "order_free review_api"
  by (simp add: order_free_def review_api_def swap_api_def)

lemma sample_review_ok: "list_all review_call_ok sample_review_calls"
  by (simp add: sample_review_calls_def review_execution_def)

theorem redemption_inputs_exclusive_witness:
  "\<exists>e. re_hash e = ''op'' \<and> e \<in> set (open_executions (review_history review_api sample_review_calls)) \<and>
     distinct (execution_inputs review_api e) \<and> (\<exists>b. exec_bundle review_api e = Inr b)"
proof -
  obtain e where e: "open_executions (review_history review_api sample_review_calls) = [e]" "re_hash e = ''op''"
    using sample_review_run by (auto simp: map_eq_Cons_conv)
  with redemption_inputs_exclusive [OF review_order_free sample_review_ok] show ?thesis by auto
qed


end
