(* ===== verification/VaultRegistry.thy ===== *)
theory VaultRegistry
  imports SqlCore Complex_Main
begin

text \<open>
  \<open>src/solslot_api/vault_db.py\<close>: the registry of vaults, one for an owner. A byte string is a string of the
  characters with the codes of its bytes.
\<close>

section \<open>Model\<close>

record StoredVault =
  sv_launcher_id :: string
  sv_full_puzhash :: string
  sv_p2_vault_puzhash :: string
  sv_auth_type :: int
  sv_owner_pubkey :: string
  sv_owner_evm_address :: "string option"
  sv_spend_bundle_id :: string
  sv_pushed_at :: rat

datatype vault_error = VaultIntegrityError

type_synonym vault_db = "StoredVault list"

definition AUTH_TYPE_BLS :: int where
  "AUTH_TYPE_BLS = 1"

text \<open>
  The primary key and the two partial unique indexes; \<open>COLLATE NOCASE\<close> folds ASCII letters. The \<open>CHECK\<close>s
  are tested before them.
\<close>

definition evm_key :: "StoredVault \<Rightarrow> string option" where
  "evm_key r = map_option sql_lower (sv_owner_evm_address r)"

definition bls_key :: "StoredVault \<Rightarrow> string option" where
  "bls_key r = (if sv_auth_type r = AUTH_TYPE_BLS then Some (sv_owner_pubkey r) else None)"

definition sv_clash :: "StoredVault \<Rightarrow> StoredVault \<Rightarrow> bool" where
  "sv_clash r r' \<longleftrightarrow>
     sv_launcher_id r = sv_launcher_id r' \<or> nullable_eq (evm_key r) (evm_key r') \<or> nullable_eq (bls_key r) (bls_key r')"

definition sv_check :: "StoredVault \<Rightarrow> bool" where
  "sv_check r \<longleftrightarrow> length (sv_launcher_id r) = 32 \<and> length (sv_full_puzhash r) = 32 \<and>
     length (sv_p2_vault_puzhash r) = 32 \<and> sv_auth_type r \<in> {1, 2, 3}"

interpretation sv: keyed_table sv_clash sv_launcher_id
proof
  show "sv_clash r r' \<Longrightarrow> sv_clash r' r" for r r'
    unfolding sv_clash_def nullable_eq_def by metis
  show "sv_launcher_id r = sv_launcher_id r' \<Longrightarrow> sv_clash r r'" for r r'
    by (simp add: sv_clash_def)
qed

definition upsert_body :: "StoredVault \<Rightarrow> (vault_db, vault_error, unit) body" where
  "upsert_body rec db =
     (if \<not> sv_check rec then Inl VaultIntegrityError
      else case lookup sv_launcher_id (sv_launcher_id rec) db of
        Some _ \<Rightarrow>
          (case sql_update sv_clash (\<lambda>r. sv_launcher_id r = sv_launcher_id rec) (\<lambda>_. rec) db of
             None \<Rightarrow> Inl VaultIntegrityError | Some rows \<Rightarrow> Inr ((), rows))
      | None \<Rightarrow>
          (case sql_insert sv_clash rec db of
             None \<Rightarrow> Inl VaultIntegrityError | Some rows \<Rightarrow> Inr ((), rows)))"

definition upsert :: "StoredVault \<Rightarrow> (vault_db, vault_error, unit) call" where
  "upsert rec = txn (upsert_body rec)"

definition get_by_launcher :: "vault_db \<Rightarrow> string \<Rightarrow> StoredVault option" where
  "get_by_launcher db launcher_id = lookup sv_launcher_id launcher_id db"

definition get_by_evm :: "vault_db \<Rightarrow> string \<Rightarrow> StoredVault option" where
  "get_by_evm db address = find (\<lambda>r. evm_key r = Some (sql_lower address)) db"

definition get_by_bls :: "vault_db \<Rightarrow> string \<Rightarrow> StoredVault option" where
  "get_by_bls db pubkey = find (\<lambda>r. sv_auth_type r = AUTH_TYPE_BLS \<and> sv_owner_pubkey r = pubkey) db"

definition delete_vault :: "string \<Rightarrow> (vault_db, vault_error, bool) call" where
  "delete_vault launcher_id =
     txn (\<lambda>db. Inr (list_ex (\<lambda>r. sv_launcher_id r = launcher_id) db, sql_delete (\<lambda>r. sv_launcher_id r = launcher_id) db))"

definition count_vaults :: "vault_db \<Rightarrow> nat" where
  "count_vaults db = length db"

datatype vault_call = Upsert StoredVault | Delete string

fun vault_step :: "vault_call \<Rightarrow> vault_db \<Rightarrow> vault_db" where
  "vault_step (Upsert rec) db = snd (upsert rec db)"
| "vault_step (Delete launcher_id) db = snd (delete_vault launcher_id db)"

section \<open>Histories\<close>

definition vault_inv :: "vault_db \<Rightarrow> bool" where
  "vault_inv db \<longleftrightarrow> table_ok sv_clash db \<and> list_all sv_check db"

lemma upsert_ok:
  assumes "vault_inv db" and "upsert_body rec db = Inr (u, db')"
  shows "vault_inv db'" and "get_by_launcher db' k = (if k = sv_launcher_id rec then Some rec else get_by_launcher db k)"
proof -
  have c: "sv_check rec" using assms(2) by (auto simp: upsert_body_def split: if_splits)
  have "vault_inv db' \<and> get_by_launcher db' k = (if k = sv_launcher_id rec then Some rec else get_by_launcher db k)"
  proof (cases "lookup sv_launcher_id (sv_launcher_id rec) db")
    case None
    with assms(2) c have i: "sql_insert sv_clash rec db = Some db'" by (auto simp: upsert_body_def split: option.splits)
    then show ?thesis
      using assms(1) c by (auto simp: vault_inv_def list_all_insert get_by_launcher_def sv.lookup_insert intro: sv.ok_insert)
  next
    case (Some r)
    with assms(2) c have i: "sql_update sv_clash (\<lambda>r. sv_launcher_id r = sv_launcher_id rec) (\<lambda>_. rec) db = Some db'"
      by (auto simp: upsert_body_def split: option.splits)
    from sv.update_replaces [OF _ Some i] assms(1)
    have "db' = replace_row sv_launcher_id (sv_launcher_id rec) rec db" "table_ok sv_clash db'" by (simp_all add: vault_inv_def)
    then show ?thesis
      using assms(1) c Some
      by (auto simp: vault_inv_def get_by_launcher_def sv.lookup_replace list_all_iff dest: replace_row_mem)
  qed
  then show "vault_inv db'" "get_by_launcher db' k = (if k = sv_launcher_id rec then Some rec else get_by_launcher db k)"
    by blast+
qed

interpretation vault: store vault_step vault_inv "\<lambda>_. True"
proof
  fix db op
  assume "vault_inv db"
  then show "vault_inv (vault_step op db)"
  proof (cases op)
    case (Upsert rec)
    show ?thesis
      unfolding Upsert vault_step.simps upsert_def
      by (rule txn_keeps [of vault_inv, OF \<open>vault_inv db\<close>]) (rule upsert_ok(1) [OF \<open>vault_inv db\<close>])
  next
    case (Delete k)
    then show ?thesis
      using \<open>vault_inv db\<close> by (simp add: delete_vault_def txn_def vault_inv_def sv.ok_delete list_all_delete)
  qed
qed

definition vault_history :: "vault_call list \<Rightarrow> vault_db" where
  "vault_history ops = run vault_step ops []"

lemma vault_history_inv: "vault_inv (vault_history ops)"
  unfolding vault_history_def by (rule vault.run_inv) (simp_all add: vault_inv_def list_all_iff)

section \<open>Properties\<close>

text \<open>
  One vault for an owner, and the owner finds it: in every history each vault is the one that its launcher, its
  EVM address in any letter case, and its BLS key (when it is BLS-owned) look up; a record that is stored is
  the one read back; and a deleted launcher has none.
\<close>

theorem vault_owner_unique:
  "list_all (\<lambda>r. get_by_launcher (vault_history ops) (sv_launcher_id r) = Some r \<and>
      (case sv_owner_evm_address r of None \<Rightarrow> True
       | Some a \<Rightarrow> \<forall>a'. sql_lower a' = sql_lower a \<longrightarrow> get_by_evm (vault_history ops) a' = Some r) \<and>
      (sv_auth_type r = AUTH_TYPE_BLS \<longrightarrow> get_by_bls (vault_history ops) (sv_owner_pubkey r) = Some r))
     (vault_history ops) \<and>
   (\<forall>rec db. upsert rec (vault_history ops) = (Inr (), db) \<longrightarrow> get_by_launcher db (sv_launcher_id rec) = Some rec) \<and>
   (\<forall>k. get_by_launcher (snd (delete_vault k (vault_history ops))) k = None)"
proof (intro conjI allI impI)
  let ?db = "vault_history ops"
  have ok: "table_ok sv_clash ?db" using vault_history_inv [of ops] by (simp add: vault_inv_def)
  have first: "find p ?db = Some r" if "r \<in> set ?db" "p r" "\<And>r'. r' \<in> set ?db \<Longrightarrow> p r' \<Longrightarrow> sv_clash r r'" for p r
  proof (cases "find p ?db")
    case None
    then show ?thesis using that(1,2) by (auto dest: find_None_D)
  next
    case (Some r')
    then show ?thesis using find_Some_D [OF Some] that sv.clash_eq [OF ok that(1)] by metis
  qed
  show "list_all (\<lambda>r. get_by_launcher ?db (sv_launcher_id r) = Some r \<and>
      (case sv_owner_evm_address r of None \<Rightarrow> True
       | Some a \<Rightarrow> \<forall>a'. sql_lower a' = sql_lower a \<longrightarrow> get_by_evm ?db a' = Some r) \<and>
      (sv_auth_type r = AUTH_TYPE_BLS \<longrightarrow> get_by_bls ?db (sv_owner_pubkey r) = Some r)) ?db"
    unfolding list_all_iff get_by_launcher_def get_by_evm_def get_by_bls_def
    by (auto simp: sv.lookup_mem [OF ok] evm_key_def bls_key_def sv_clash_def nullable_eq_def split: option.splits
        intro!: first)
  show "get_by_launcher db (sv_launcher_id rec) = Some rec" if "upsert rec ?db = (Inr (), db)" for rec db
    using upsert_ok(2) [OF vault_history_inv] that by (simp add: upsert_def txn_Inr_iff)
  show "get_by_launcher (snd (delete_vault k ?db)) k = None" for k
  proof (cases "get_by_launcher (snd (delete_vault k ?db)) k")
    case (Some r)
    then show ?thesis
      by (auto simp: get_by_launcher_def delete_vault_def txn_def sql_delete_def dest!: lookup_Some_D)
  qed simp
qed

definition sample_vault :: StoredVault where
  "sample_vault = \<lparr>sv_launcher_id = replicate 32 CHR ''l'', sv_full_puzhash = replicate 32 CHR ''f'',
     sv_p2_vault_puzhash = replicate 32 CHR ''p'', sv_auth_type = 2, sv_owner_pubkey = ''k'',
     sv_owner_evm_address = Some ''0xAb'', sv_spend_bundle_id = ''b'', sv_pushed_at = 1\<rparr>"

lemma sample_vault_run: "vault_history [Upsert sample_vault] = [sample_vault]"
  by (simp add: vault_history_def upsert_def txn_def upsert_body_def sql_insert_def sv_check_def sample_vault_def)

lemma sample_vault_case: "sql_lower ''0xaB'' = sql_lower ''0xAb''"
  by code_simp

theorem vault_owner_unique_witness: "get_by_evm (vault_history [Upsert sample_vault]) ''0xaB'' = Some sample_vault"
proof -
  have "sv_owner_evm_address sample_vault = Some ''0xAb''" by (simp add: sample_vault_def)
  with vault_owner_unique [of "[Upsert sample_vault]"] sample_vault_case show ?thesis
    unfolding sample_vault_run by simp
qed

end
