(* ===== verification/Spec2Isabelle.thy ===== *)
theory Spec2Isabelle
  imports GovernanceQueue StripeDelivery KosMintLedger PurchaseAdmission DisplayUnits ClvmHash
    ProtocolFunding SolsSwap Challenges SignerExclusion GenesisFunding PresaleProperties
    AdminOperations MintProposals FundedRedemption RedemptionReview VaultRegistry
begin

text \<open>
  Verified models of the solslot-api server.

  The program.  solslot-api is a Python server for property shares on the Chia chain.  Its own logic
  sits in durable SQLite ledgers that make external effects happen once: the governance proposal
  queue, the delivery ledger of external payments, the fee-funding journal of protocol bundles, the
  admission slots of purchases, the ledger of customer swaps, the store of presale vouchers with its campaign operations and its
  work queue, the approvals of administrator operations, the mint proposals, the redemptions of customers, the
  vault registry, the login challenges, the one-action
  ledger of the isolated KoS signer and the signature ledger of the isolated validators.  Around them
  are endpoints and workers that call Stripe, Base and Chia.  The development models the ledgers
  operation by operation, and the pure rules that feed them.

  Foundations.
  PyCore holds what the code takes from Python: a call that raises or returns and leaves a state,
  the transaction wrapper (roll back on raise, commit on return), str helpers and decimal
  digits.  Json models json.dumps in the canonical form (sorted keys, no spaces, ASCII
  escapes) and json.loads, with the round trip between them; the parser runs on fuel, the
  length of its input, which the round trip shows to be enough for every text the program writes.
  SqlCore models a table as a list of rows in rowid order with its uniqueness clashes, insert, update,
  delete and ordered reads, and states the locales sql_table and keyed_table, which the tables
  interpret, and store, which the ledgers interpret.  PyDoc holds reads of JSON documents that raise
  as Python does.  ChiaApi is the record of the functions that
  chia-rs provides (coin and bundle names, removals, decoding of documents); they are arguments of
  every definition that uses them, and order_free is the one hypothesis about them: the
  decoding of a bundle does not depend on the order of the keys of its document.

  Ledgers.
  GovernanceQueue models GovernanceQueueStore in governance_queue.py: the proposal table, the audit
  log and the signature table, and all operations.  Its lemmas show that at most one proposal is
  active, that reviewers differ from creators, the life cycle, that execution evidence is written
  once, the exact guards of a transition, the decoding of stored rows and the completeness of the
  audit log.
  StripeDelivery models StripeDeliveryStore in stripe_delivery_store.py: the operation table with its
  unique columns, the leases and the write-once transition.
  ProtocolFunding models ProtocolFundingStore in protocol_funding_store.py.
  PurchaseAdmission models purchase_admission.py; the clock is an argument of every operation, and
  the theorems on open slots assume that it does not run backwards.
  KosMintLedger models kos_mint_execute_ledger.py.
  SolsSwap models SolsSwapStore in sols_swap_store.py with the validation of an execution in
  sols_swap_execution.py and of a private fee hold in sols_swap_funding.py: inputs and holds exclude
  each other, an execution is final and conserves value, and a confirmation releases its inputs.
  Challenges models both backends of ChallengeStore and RequestRateLimiter in challenges.py and
  refines them to one abstract specification (locale challenge_backend).
  ValidatorLedger models validator_ledger.py with its mixins inventory_payment_hold_ledger.py,
  base_inventory_hold_ledger.py and base_lifecycle_ledger.py; SignerExclusion shows that every call is
  a sequence of guarded writes and proves what the ledger excludes (locale ledger_invariant).

  The presale store.  PresaleStore in presale_endpoints.py inherits CampaignStore (campaign_store.py)
  and VoucherWorkStore (voucher_work_store.py), which add their tables to one database; the theories
  follow that order.  PresaleState holds the tables, with a wide row split into the groups of columns
  that the operations write together, and the reads.  CampaignLedger models CampaignStore: an intent,
  its one signed execution and the coins it claims, confirmation and archive.  VoucherWork models the
  lanes, leases and retries of the workers; VoucherExecutions the signed executions of vouchers, the
  settlements and the continued refunds, with the comparisons of refund_continuation.py and
  stripe_refund_continuation.py.  PresaleIssuance, PresaleProgress, PresaleTerminal and PresaleDelivery
  model PresaleStore in the order of its methods: payments and issuance, refund requests, terminal
  executions and phases, refunds and settlement authorizations, redemptions, work lists and reports.
  An operation is a body, run by txn, and a call that reads before and renders after it.
  PresaleWrites states every call as one of twelve guarded writes of the sale tables (sale_write), and
  PresaleCalls, PresaleMoves and PresaleSettles prove that every call is such a write; PresaleSafety,
  PresaleInvariants and PresaleRuns prove what each kind of write keeps and lift it to runs (locale
  store): counters agree with vouchers, columns fit the state, vouchers only move forward, and a payment
  is settled once and with the outcome of its voucher.  PresaleDesk and PresaleWorkers prove that a lease
  on a series excludes others until it ends, PresaleInputs that campaign and voucher funding never share
  an unconfirmed coin, and PresaleProperties states the results beside a sample run of seven calls.
  presale_api is the record of what the puzzle library decides; the validation of a purchase between
  the read and the transaction of the three ingestion methods is an argument, a function that raises or
  gives the values to store, and so are the reading and replacing of a timestamp in a serialized vault
  or sponsor spend (vault_refund_timestamp and fee_deadline).  Outside the model are int() of a text with
  underscores and the row that an alias query without an order picks among several matches.

  Approvals, mints, redemptions and vaults.
  AdminOperations models admin_operations.py: OperationStore with its operations and signatures, the roster of
  administrators (resolve_admin_roster), the canonical binding of a request, the signing endpoint and the
  dependency require_admin_operation that guards a mutation.  Its lemmas show that an operation is approved
  exactly when slot 0 and a coadministrator signed it, and that the dependency lets a request through once, for
  the signed payload and under the current roster.  The dependency reads the operation before its
  transaction, so the reading is an argument and other calls may come in between.  The canonical JSON and the
  envelope hash of the puzzle library, the recovery of a signer from typed data and the chain build of an
  operation are arguments too.
  MintProposals models MintProposalStore in mint_proposals.py: drafts, publication, votes, execution and
  minting, the table of transitions, the metadata of a deed and the public rendering.  At most one proposal of a
  property is live, states only move along the table, and the columns fit the state (mint_columns).
  FundedRedemption models FundedRedemptionStore in funded_redemption_store.py.  Its statements run one by one
  and not in a transaction, so a call that raises after its write keeps the write.
  RedemptionReview models RedemptionReviewStore in redemption_review_store.py with reconcile_expired, which
  retires an expired execution after an observation of the node: signed redemptions claim disjoint coins
  and are kept or archived.  It uses validate_execution and validate_private_hold of SolsSwap, and like it assumes
  order_free; review_call_ok asks only that a signed document is a JSON value.
  VaultRegistry models VaultStore in vault_db.py; vault_owner_unique shows that an owner has one vault and
  finds it by its EVM address in any case or by its BLS key.
  In these tables an insert with ON CONFLICT looks at its conflict target before the other constraints.

  Pure rules.
  DisplayUnits models collection_display_units.py.  ClvmHash models clvm_hash.py over byte words, with
  SHA-256 as a parameter.  GenesisFunding models genesis_funding.py, the nine-coin fan-out of the
  ceremony; its search loop is a partial function that is shown to return.

  Conventions.  A database is a record of row lists, an operation takes the state and returns the
  result (Inl an exception, Inr a value) and the next state, and a history is a list of
  calls folded by run.  Every operation that reads the clock takes the reading as an argument, one
  reading for a call.  Python integers are int, clocks are whole seconds (rationals in SolsSwap and
  Challenges and in the leases of the workers, where the code keeps fractions; float rounding is not modelled), random tokens are
  arguments, a validated pydantic claim is a record of the attributes the ledger reads, strings are
  lists of characters with code points below 256.  Uniqueness violations are the branch in which
  sql_insert or sql_update gives None.

  Not modelled.  Of PresaleStore: vouchers_for_vault and stripe_rehearsal_candidates, which only render,
  the request models and the endpoints.  Of admin_operations.py: the prepare, list and get endpoints and the
  rendering of chain actions.  Everywhere: schema creation and migration of old databases, file permissions and locks
  (transactions are atomic and serial, as BEGIN IMMEDIATE makes them), HTTP endpoints, workers, BLS
  and elliptic-curve arithmetic, the puzzle drivers and every package outside the repository.
\<close>

end
